(* ===== verification/Prelude.thy ===== *)
theory Prelude
  imports Main "HOL-Library.Word"
begin

text \<open>
  Shared vocabulary of the development: Rust's machine integers and byte strings, results as
  sums, the checked and saturating integer operations the sources use, the big- and
  little-endian codecs of \<^verbatim>\<open>to_be_bytes\<close>/\<^verbatim>\<open>from_be_bytes\<close>/\<^verbatim>\<open>to_le_bytes\<close>, sub-slices, and the
  error kinds of \<^verbatim>\<open>std::io\<close>. The generic lemmas on them live here and are declared
  \<open>[simp]\<close> or collected in named theorem lists.
\<close>

named_theorems result_simps \<open>unfolding of the question-mark operator\<close>
named_theorems wire_defs \<open>definitions of the wire constants of the protocols\<close>

section \<open>Integers and byte strings\<close>

type_synonym u8 = "8 word"
type_synonym u16 = "16 word"
type_synonym u32 = "32 word"
type_synonym u64 = "64 word"
type_synonym bytes = "u8 list"

text \<open>Rust's \<^verbatim>\<open>checked_add\<close>, \<^verbatim>\<open>checked_mul\<close> and \<^verbatim>\<open>saturating_sub\<close> at a fixed width.\<close>

definition checked_add :: "'a::len word \<Rightarrow> 'a word \<Rightarrow> 'a word option" where
  "checked_add a b = (if unat a + unat b < 2 ^ LENGTH('a) then Some (a + b) else None)"

definition checked_mul :: "'a::len word \<Rightarrow> 'a word \<Rightarrow> 'a word option" where
  "checked_mul a b = (if unat a * unat b < 2 ^ LENGTH('a) then Some (a * b) else None)"

definition saturating_sub :: "'a::len word \<Rightarrow> 'a word \<Rightarrow> 'a word" where
  "saturating_sub a b = (if b \<le> a then a - b else 0)"

lemma checked_add_SomeD: "checked_add a b = Some c \<Longrightarrow> unat c = unat a + unat b"
  by (auto simp: checked_add_def unat_word_ariths split: if_splits)

lemma checked_mul_SomeD: "checked_mul a b = Some c \<Longrightarrow> unat c = unat a * unat b"
  by (auto simp: checked_mul_def unat_word_ariths split: if_splits)

lemma unat_saturating_sub [simp]: "unat (saturating_sub a b) = unat a - unat b"
  by (auto simp: saturating_sub_def unat_sub word_le_nat_alt)

section \<open>Results and the question-mark operator\<close>

text \<open>
  \<^verbatim>\<open>Result<A, E>\<close> is the sum \<open>'e + 'a\<close>, \<open>Inl\<close> the error. \<open>rbind r f\<close> is \<^verbatim>\<open>let x = r?; f(x)\<close>.
\<close>

definition rbind :: "'e + 'a \<Rightarrow> ('a \<Rightarrow> 'e + 'b) \<Rightarrow> 'e + 'b" where
  "rbind r f = (case r of Inl e \<Rightarrow> Inl e | Inr x \<Rightarrow> f x)"

definition map_err :: "('e \<Rightarrow> 'f) \<Rightarrow> 'e + 'a \<Rightarrow> 'f + 'a" where
  "map_err g r = (case r of Inl e \<Rightarrow> Inl (g e) | Inr x \<Rightarrow> Inr x)"

definition ok_or :: "'e \<Rightarrow> 'a option \<Rightarrow> 'e + 'a" where
  "ok_or e v = (case v of None \<Rightarrow> Inl e | Some x \<Rightarrow> Inr x)"

definition is_ok :: "'e + 'a \<Rightarrow> bool" where
  "is_ok r = (case r of Inl _ \<Rightarrow> False | Inr _ \<Rightarrow> True)"

lemma rbind_simps [simp, result_simps]:
  "rbind (Inl e) f = Inl e"
  "rbind (Inr x) f = f x"
  by (simp_all add: rbind_def)

lemma map_err_simps [simp, result_simps]:
  "map_err g (Inl e) = Inl (g e)"
  "map_err g (Inr x) = Inr x"
  by (simp_all add: map_err_def)

lemma ok_or_simps [simp, result_simps]:
  "ok_or e None = Inl e"
  "ok_or e (Some x) = Inr x"
  by (simp_all add: ok_or_def)

lemma is_ok_simps [simp, result_simps]:
  "\<not> is_ok (Inl e)"
  "is_ok (Inr x)"
  by (simp_all add: is_ok_def)

lemma rbind_eq_Inr: "rbind r f = Inr y \<longleftrightarrow> (\<exists>x. r = Inr x \<and> f x = Inr y)"
  by (cases r) auto

lemma rbind_eq_Inl: "rbind r f = Inl e \<longleftrightarrow> r = Inl e \<or> (\<exists>x. r = Inr x \<and> f x = Inl e)"
  by (cases r) auto

lemma map_err_eq_Inr: "map_err g r = Inr x \<longleftrightarrow> r = Inr x"
  by (cases r) auto

lemma ok_or_eq_Inr: "ok_or e v = Inr x \<longleftrightarrow> v = Some x"
  by (cases v) auto

lemma is_ok_iff: "is_ok r \<longleftrightarrow> (\<exists>x. r = Inr x)"
  by (cases r) auto

lemmas result_iffs = rbind_eq_Inr rbind_eq_Inl map_err_eq_Inr ok_or_eq_Inr

section \<open>Slices\<close>

text \<open>\<^verbatim>\<open>xs[a..b]\<close>, for callers that have checked the bounds, and \<^verbatim>\<open>xs.get(a..b)\<close>.\<close>

definition bslice :: "nat \<Rightarrow> nat \<Rightarrow> 'a list \<Rightarrow> 'a list" where
  "bslice a b xs = take (b - a) (drop a xs)"

definition get_slice :: "nat \<Rightarrow> nat \<Rightarrow> 'a list \<Rightarrow> 'a list option" where
  "get_slice a b xs = (if a \<le> b \<and> b \<le> length xs then Some (bslice a b xs) else None)"

lemma length_bslice [simp]: "length (bslice a b xs) = min (b - a) (length xs - a)"
  by (simp add: bslice_def)

lemma bslice_append_left [simp]: "b \<le> length xs \<Longrightarrow> bslice a b (xs @ ys) = bslice a b xs"
  by (simp add: bslice_def)

lemma bslice_append_right [simp]:
  "length xs \<le> a \<Longrightarrow> bslice a b (xs @ ys) = bslice (a - length xs) (b - length xs) ys"
  by (simp add: bslice_def)

lemma bslice_all [simp]: "length xs \<le> b \<Longrightarrow> bslice 0 b xs = xs"
  by (simp add: bslice_def)

lemma bslice_Cons [simp]:
  "0 < a \<Longrightarrow> bslice a b (x # xs) = bslice (a - 1) (b - 1) xs"
  by (cases a; cases b) (simp_all add: bslice_def)

lemma bslice_0_Cons [simp]: "0 < b \<Longrightarrow> bslice 0 b (x # xs) = x # bslice 0 (b - 1) xs"
  by (cases b) (simp_all add: bslice_def)

lemma bslice_0_0 [simp]: "bslice a 0 xs = []"
  by (simp add: bslice_def)

lemma bslice_split: "a \<le> b \<Longrightarrow> b \<le> c \<Longrightarrow> bslice a b xs @ bslice b c xs = bslice a c xs"
proof -
  assume "a \<le> b" "b \<le> c"
  then obtain i j where "b = a + i" "c = a + i + j" by (metis le_Suc_ex)
  then show ?thesis by (simp add: bslice_def take_add add.commute)
qed

lemma bslice_drop: "a \<le> b \<Longrightarrow> bslice a b xs @ drop b xs = drop a xs"
proof -
  assume "a \<le> b"
  then have "drop b xs = drop (b - a) (drop a xs)" by simp
  then show ?thesis by (simp only: bslice_def append_take_drop_id)
qed

lemma bslice_one: "Suc i \<le> length xs \<Longrightarrow> bslice i (Suc i) xs = [xs ! i]"
  by (simp add: bslice_def take_Suc_conv_app_nth)

lemma bslice_nth_Cons: "i < j \<Longrightarrow> j \<le> length xs \<Longrightarrow> bslice i j xs = xs ! i # bslice (Suc i) j xs"
  using bslice_split [of i "Suc i" j xs] bslice_one [of i xs] by simp

lemma bslice_empty [simp]: "bslice i i xs = []"
  by (simp add: bslice_def)

lemma bslice_two: "Suc (Suc i) = j \<Longrightarrow> j \<le> length xs \<Longrightarrow> bslice i j xs = [xs ! i, xs ! Suc i]"
  by (auto simp: bslice_nth_Cons)

lemma bslice_four:
  "i + 4 = j \<Longrightarrow> j \<le> length xs \<Longrightarrow>
     bslice i j xs = [xs ! i, xs ! Suc i, xs ! Suc (Suc i), xs ! Suc (Suc (Suc i))]"
  by (auto simp: bslice_nth_Cons eval_nat_numeral)

section \<open>Big-endian and little-endian codecs\<close>

text \<open>
  \<open>be_enc n v\<close> writes the low \<open>n\<close> base-256 digits of \<open>v\<close>, most significant first;
  \<open>be_val\<close> reads a byte string as one number.
\<close>

fun be_enc :: "nat \<Rightarrow> nat \<Rightarrow> bytes" where
  "be_enc 0 v = []"
| "be_enc (Suc n) v = be_enc n (v div 256) @ [word_of_nat v]"

definition be_val :: "bytes \<Rightarrow> nat" where
  "be_val bs = foldl (\<lambda>acc b. acc * 256 + unat b) 0 bs"

lemma length_be_enc [simp]: "length (be_enc n v) = n"
  by (induction n arbitrary: v) auto

lemma be_val_Nil [simp]: "be_val [] = 0"
  by (simp add: be_val_def)

lemma be_val_snoc [simp]: "be_val (bs @ [b]) = be_val bs * 256 + unat b"
  by (simp add: be_val_def)

lemma unat_u8_of_nat [simp]: "unat (word_of_nat v :: u8) = v mod 256"
  by (simp add: unat_of_nat)

lemma be_val_be_enc [simp]: "be_val (be_enc n v) = v mod 256 ^ n"
proof (induction n arbitrary: v)
  case (Suc n)
  have "be_val (be_enc (Suc n) v) = (v div 256) mod 256 ^ n * 256 + v mod 256"
    by (simp add: Suc)
  also have "\<dots> = v mod 256 ^ Suc n"
    by (simp add: mod_mult2_eq mult.commute)
  finally show ?case .
qed simp

lemma be_val_bound: "be_val bs < 256 ^ length bs"
proof (induction bs rule: rev_induct)
  case (snoc b bs)
  have "unat b < 256" using unsigned_less [of b] by simp
  moreover have "be_val bs + 1 \<le> 256 ^ length bs" using snoc by simp
  then have "(be_val bs + 1) * 256 \<le> 256 ^ length bs * 256"
    by (rule mult_le_mono1)
  ultimately show ?case by simp
qed simp

lemma be_enc_be_val [simp]: "be_enc (length bs) (be_val bs) = bs"
proof (induction bs rule: rev_induct)
  case (snoc b bs)
  have b: "unat b < 256" using unsigned_less [of b] by simp
  have d: "(be_val bs * 256 + unat b) div 256 = be_val bs"
    using b by simp
  have w: "(word_of_nat (be_val bs * 256 + unat b) :: u8) = b"
    by (rule word_unat_eq_iff [THEN iffD2], simp only: unat_u8_of_nat) (use b in simp)
  show ?case using snoc d w by simp
qed simp

definition u16_be :: "u16 \<Rightarrow> bytes" where "u16_be w = be_enc 2 (unat w)"
definition u32_be :: "u32 \<Rightarrow> bytes" where "u32_be w = be_enc 4 (unat w)"
definition u64_be :: "u64 \<Rightarrow> bytes" where "u64_be w = be_enc 8 (unat w)"
definition u16_from_be :: "bytes \<Rightarrow> u16" where "u16_from_be bs = word_of_nat (be_val bs)"
definition u32_from_be :: "bytes \<Rightarrow> u32" where "u32_from_be bs = word_of_nat (be_val bs)"
definition u64_from_be :: "bytes \<Rightarrow> u64" where "u64_from_be bs = word_of_nat (be_val bs)"
definition u32_le :: "u32 \<Rightarrow> bytes" where "u32_le w = rev (be_enc 4 (unat w))"
definition u32_from_le :: "bytes \<Rightarrow> u32" where "u32_from_le bs = word_of_nat (be_val (rev bs))"

lemma length_codecs [simp]:
  "length (u16_be a) = 2" "length (u32_be b) = 4" "length (u64_be c) = 8" "length (u32_le b) = 4"
  by (simp_all add: u16_be_def u32_be_def u64_be_def u32_le_def)

lemma u16_be_neq_Nil [simp]: "u16_be a \<noteq> []"
  by (metis length_codecs(1) list.size(3) zero_neq_numeral)

lemma be_roundtrip [simp]:
  "u16_from_be (u16_be a) = a" "u32_from_be (u32_be b) = b" "u64_from_be (u64_be c) = c"
  "u32_from_le (u32_le b) = b"
proof -
  have "unat a < 65536" "unat b < 4294967296" "unat c < 18446744073709551616"
    using unsigned_less [of a] unsigned_less [of b] unsigned_less [of c] by simp_all
  then show "u16_from_be (u16_be a) = a" "u32_from_be (u32_be b) = b"
    "u64_from_be (u64_be c) = c" "u32_from_le (u32_le b) = b"
    by (simp_all add: u16_from_be_def u16_be_def u32_from_be_def u32_be_def u64_from_be_def
        u64_be_def u32_from_le_def u32_le_def)
qed

lemma unat_from_be:
  "length bs = 2 \<Longrightarrow> unat (u16_from_be bs) = be_val bs"
  "length bs = 4 \<Longrightarrow> unat (u32_from_be bs) = be_val bs"
  "length bs = 8 \<Longrightarrow> unat (u64_from_be bs) = be_val bs"
  using be_val_bound [of bs]
  by (simp_all add: u16_from_be_def u32_from_be_def u64_from_be_def unat_of_nat)

lemma be_to_from:
  "length bs = 2 \<Longrightarrow> u16_be (u16_from_be bs) = bs"
  "length bs = 4 \<Longrightarrow> u32_be (u32_from_be bs) = bs"
  "length bs = 8 \<Longrightarrow> u64_be (u64_from_be bs) = bs"
  using be_enc_be_val [of bs]
  by (simp_all add: u16_be_def u32_be_def u64_be_def unat_from_be)

lemma le_to_from: "length bs = 4 \<Longrightarrow> u32_le (u32_from_le bs) = bs"
  using be_enc_be_val [of "rev bs"] be_val_bound [of "rev bs"]
  by (simp add: u32_le_def u32_from_le_def unat_of_nat)

text \<open>The digits of an encoded number, named so that a decoder's indexing can be evaluated.\<close>

lemma u16_be_digits: obtains a b where "u16_be w = [a, b]" "u16_from_be [a, b] = w"
proof -
  have "length (u16_be w) = Suc (Suc 0)" by simp
  then obtain a b where "u16_be w = [a, b]" by (auto simp only: length_Suc_conv length_0_conv)
  then show ?thesis using that by (metis be_roundtrip(1))
qed

lemma u32_be_digits:
  obtains a b c d where "u32_be w = [a, b, c, d]" "u32_from_be [a, b, c, d] = w"
proof -
  have "length (u32_be w) = Suc (Suc (Suc (Suc 0)))" by simp
  then obtain a b c d where "u32_be w = [a, b, c, d]" by (auto simp only: length_Suc_conv length_0_conv)
  then show ?thesis using that by (metis be_roundtrip(2))
qed

section \<open>Time\<close>

text \<open>Instants and durations are counted in nanoseconds.\<close>

definition MILLISECOND :: nat where "MILLISECOND = 10 ^ 6"

section \<open>Errors of std::io\<close>

datatype io_kind = Interrupted | WouldBlock | UnexpectedEof | TimedOut | WriteZero | NotFound
  | AlreadyExists | PermissionDenied | InvalidData | InvalidInput | OtherIo

end
