(* ===== verification/Wire_Protocol.thy ===== *)
theory Wire_Protocol
  imports Prelude
begin

text \<open>
  The request/response codec and the length-prefixed framing of \<^verbatim>\<open>engine/protocol/src/lib.rs\<close>.
  A reader is the list of results its successive \<^verbatim>\<open>read\<close> calls produce, a writer the bytes it
  took so far with the results of the calls to come, so that fragmented, interrupted and failing
  streams are ordinary inputs of the model.
\<close>

section \<open>Constants, requests and responses\<close>

definition PROTOCOL_VERSION :: u16 where [wire_defs]: "PROTOCOL_VERSION = 2"
definition MAX_REQUEST_BYTES :: nat where [wire_defs]: "MAX_REQUEST_BYTES = 4 * 1024"
definition MAX_RESPONSE_BYTES :: nat where [wire_defs]: "MAX_RESPONSE_BYTES = 16 * 1024"
definition MAX_REQUEST_BYTES_WIRE :: u32 where [wire_defs]: "MAX_REQUEST_BYTES_WIRE = 4 * 1024"
definition MAX_RESPONSE_BYTES_WIRE :: u32 where [wire_defs]: "MAX_RESPONSE_BYTES_WIRE = 16 * 1024"
definition OPERATION_CAPABILITIES :: u16 where [wire_defs]: "OPERATION_CAPABILITIES = 1"
definition OPERATION_STATUS :: u16 where [wire_defs]: "OPERATION_STATUS = 2"
definition REQUEST_CAPABILITIES :: u8 where [wire_defs]: "REQUEST_CAPABILITIES = 1"
definition REQUEST_STATUS :: u8 where [wire_defs]: "REQUEST_STATUS = 2"
definition RESPONSE_CAPABILITIES :: u8 where [wire_defs]: "RESPONSE_CAPABILITIES = 0x81"
definition RESPONSE_STATUS :: u8 where [wire_defs]: "RESPONSE_STATUS = 0x82"
definition RESPONSE_ERROR :: u8 where [wire_defs]: "RESPONSE_ERROR = 0xff"

datatype request = Request_Capabilities | Request_Status

datatype operation_support = Unsupported | Supported

fun wire_value :: "operation_support \<Rightarrow> u8" where
  "wire_value Unsupported = 0"
| "wire_value Supported = 1"

datatype disabled_capability = Disabled

datatype engine_state = Ready_state

record capabilities =
  protocol_min :: u16
  protocol_max :: u16
  max_request_bytes :: u32
  max_response_bytes :: u32
  operations :: u16
  cap_detector_analysis :: operation_support
  cap_embedding_extraction :: operation_support
  cap_user_session_enrollment :: operation_support
  cap_encrypted_user_session_persistence :: operation_support
  cap_explicit_local_verification :: operation_support
  cap_profile_deletion :: operation_support
  cap_pam_authentication :: operation_support
  cap_pam_configuration :: operation_support
  cap_authselect :: operation_support
  cap_sddm_lock_screen :: operation_support
  cap_sudo_polkit :: operation_support
  cap_liveness :: operation_support
  cap_security_tiers :: operation_support
  cap_privileged_services :: operation_support
  network_access :: disabled_capability
  runtime_model_downloads :: disabled_capability

definition capabilities_local_identity :: capabilities where
  "capabilities_local_identity = \<lparr>
     protocol_min = PROTOCOL_VERSION,
     protocol_max = PROTOCOL_VERSION,
     max_request_bytes = MAX_REQUEST_BYTES_WIRE,
     max_response_bytes = MAX_RESPONSE_BYTES_WIRE,
     operations = or OPERATION_CAPABILITIES OPERATION_STATUS,
     cap_detector_analysis = Supported,
     cap_embedding_extraction = Supported,
     cap_user_session_enrollment = Supported,
     cap_encrypted_user_session_persistence = Supported,
     cap_explicit_local_verification = Supported,
     cap_profile_deletion = Supported,
     cap_pam_authentication = Unsupported,
     cap_pam_configuration = Unsupported,
     cap_authselect = Unsupported,
     cap_sddm_lock_screen = Unsupported,
     cap_sudo_polkit = Unsupported,
     cap_liveness = Supported,
     cap_security_tiers = Unsupported,
     cap_privileged_services = Unsupported,
     network_access = Disabled,
     runtime_model_downloads = Disabled\<rparr>"

record status =
  st_state :: engine_state
  st_detector_analysis :: operation_support
  st_embedding_extraction :: operation_support
  st_user_session_enrollment :: operation_support
  st_encrypted_user_session_persistence :: operation_support
  st_explicit_local_verification :: operation_support
  st_profile_deletion :: operation_support
  st_pam_authentication :: operation_support
  st_pam_configuration :: operation_support
  st_authselect :: operation_support
  st_sddm_lock_screen :: operation_support
  st_sudo_polkit :: operation_support
  st_liveness :: operation_support
  st_security_tiers :: operation_support
  st_privileged_services :: operation_support

definition status_local_identity :: status where
  "status_local_identity = \<lparr>
     st_state = Ready_state,
     st_detector_analysis = Supported,
     st_embedding_extraction = Supported,
     st_user_session_enrollment = Supported,
     st_encrypted_user_session_persistence = Supported,
     st_explicit_local_verification = Supported,
     st_profile_deletion = Supported,
     st_pam_authentication = Unsupported,
     st_pam_configuration = Unsupported,
     st_authselect = Unsupported,
     st_sddm_lock_screen = Unsupported,
     st_sudo_polkit = Unsupported,
     st_liveness = Supported,
     st_security_tiers = Unsupported,
     st_privileged_services = Unsupported\<rparr>"

datatype error_code = InvalidRequest | UnsupportedVersion_code | UnsupportedOperation

datatype response = Response_Capabilities capabilities | Response_Status status
  | Response_Error error_code

datatype codec_error = Codec_Io io_kind | Codec_EmptyFrame
  | Codec_FrameTooLarge nat nat | InvalidPayload | UnsupportedVersion u16

fun support_from_wire :: "u8 \<Rightarrow> codec_error + operation_support" where
  "support_from_wire v =
     (if v = 0 then Inr Unsupported else if v = 1 then Inr Supported else Inl InvalidPayload)"

section \<open>Payload codec\<close>

definition validate_payload :: "bytes \<Rightarrow> nat \<Rightarrow> codec_error + unit" where
  "validate_payload payload maximum =
     (if payload = [] then Inl Codec_EmptyFrame
      else if length payload > maximum then Inl (Codec_FrameTooLarge (length payload) maximum)
      else Inr ())"

definition validate_version :: "bytes \<Rightarrow> codec_error + unit" where
  "validate_version payload =
     (if length payload < 2 then Inl InvalidPayload
      else let version = u16_from_be [payload ! 0, payload ! 1] in
        if version \<noteq> PROTOCOL_VERSION then Inl (UnsupportedVersion version) else Inr ())"

definition encode_request :: "request \<Rightarrow> bytes" where
  "encode_request r =
     (let kind = (case r of Request_Capabilities \<Rightarrow> REQUEST_CAPABILITIES
                          | Request_Status \<Rightarrow> REQUEST_STATUS);
          version = u16_be PROTOCOL_VERSION
      in [version ! 0, version ! 1, kind, 0])"

definition decode_request :: "bytes \<Rightarrow> codec_error + request" where
  "decode_request payload =
     rbind (validate_payload payload MAX_REQUEST_BYTES) (\<lambda>_.
     if length payload \<noteq> 4 \<or> payload ! 3 \<noteq> 0 then Inl InvalidPayload
     else rbind (validate_version payload) (\<lambda>_.
     if payload ! 2 = REQUEST_CAPABILITIES then Inr Request_Capabilities
     else if payload ! 2 = REQUEST_STATUS then Inr Request_Status
     else Inl InvalidPayload))"

definition support_bytes :: "operation_support list \<Rightarrow> bytes" where
  "support_bytes support = map wire_value support"

definition encode_response :: "response \<Rightarrow> bytes" where
  "encode_response response =
     (let version = u16_be PROTOCOL_VERSION;
          payload = [version ! 0, version ! 1, 0, 0]
      in case response of
        Response_Capabilities c \<Rightarrow>
          payload[2 := RESPONSE_CAPABILITIES]
            @ u16_be (protocol_min c) @ u16_be (protocol_max c)
            @ u32_be (max_request_bytes c) @ u32_be (max_response_bytes c)
            @ u16_be (operations c)
            @ support_bytes
               [cap_detector_analysis c, cap_embedding_extraction c,
                cap_user_session_enrollment c, cap_encrypted_user_session_persistence c,
                cap_explicit_local_verification c, cap_profile_deletion c,
                cap_pam_authentication c, cap_pam_configuration c, cap_authselect c,
                cap_sddm_lock_screen c, cap_sudo_polkit c, cap_liveness c,
                cap_security_tiers c, cap_privileged_services c]
            @ [0] @ [0]
      | Response_Status s \<Rightarrow>
          payload[2 := RESPONSE_STATUS] @ [2]
            @ support_bytes
               [st_detector_analysis s, st_embedding_extraction s,
                st_user_session_enrollment s, st_encrypted_user_session_persistence s,
                st_explicit_local_verification s, st_profile_deletion s,
                st_pam_authentication s, st_pam_configuration s, st_authselect s,
                st_sddm_lock_screen s, st_sudo_polkit s, st_liveness s,
                st_security_tiers s, st_privileged_services s]
      | Response_Error code \<Rightarrow>
          payload[2 := RESPONSE_ERROR]
            @ [case code of InvalidRequest \<Rightarrow> 1 | UnsupportedVersion_code \<Rightarrow> 2
                          | UnsupportedOperation \<Rightarrow> 3])"

text \<open>The source writes the fourteen calls out; the first failing one decides the error.\<close>

fun decode_support :: "bytes \<Rightarrow> codec_error + operation_support list" where
  "decode_support [] = Inr []"
| "decode_support (b # bs) =
     rbind (support_from_wire b) (\<lambda>s. rbind (decode_support bs) (\<lambda>ss. Inr (s # ss)))"

definition decode_capabilities :: "bytes \<Rightarrow> codec_error + response" where
  "decode_capabilities payload =
     (if length payload \<noteq> 34 \<or> payload ! 32 \<noteq> 0 \<or> payload ! 33 \<noteq> 0 then Inl InvalidPayload
      else rbind (decode_support (bslice 18 32 payload)) (\<lambda>support.
        Inr (Response_Capabilities \<lparr>
          protocol_min = u16_from_be [payload ! 4, payload ! 5],
          protocol_max = u16_from_be [payload ! 6, payload ! 7],
          max_request_bytes = u32_from_be [payload ! 8, payload ! 9, payload ! 10, payload ! 11],
          max_response_bytes =
            u32_from_be [payload ! 12, payload ! 13, payload ! 14, payload ! 15],
          operations = u16_from_be [payload ! 16, payload ! 17],
          cap_detector_analysis = support ! 0,
          cap_embedding_extraction = support ! 1,
          cap_user_session_enrollment = support ! 2,
          cap_encrypted_user_session_persistence = support ! 3,
          cap_explicit_local_verification = support ! 4,
          cap_profile_deletion = support ! 5,
          cap_pam_authentication = support ! 6,
          cap_pam_configuration = support ! 7,
          cap_authselect = support ! 8,
          cap_sddm_lock_screen = support ! 9,
          cap_sudo_polkit = support ! 10,
          cap_liveness = support ! 11,
          cap_security_tiers = support ! 12,
          cap_privileged_services = support ! 13,
          network_access = Disabled,
          runtime_model_downloads = Disabled\<rparr>)))"

definition decode_status :: "bytes \<Rightarrow> codec_error + response" where
  "decode_status payload =
     (if length payload \<noteq> 19 \<or> payload ! 4 \<noteq> 2 then Inl InvalidPayload
      else rbind (decode_support (bslice 5 19 payload)) (\<lambda>support.
        Inr (Response_Status \<lparr>
          st_state = Ready_state,
          st_detector_analysis = support ! 0,
          st_embedding_extraction = support ! 1,
          st_user_session_enrollment = support ! 2,
          st_encrypted_user_session_persistence = support ! 3,
          st_explicit_local_verification = support ! 4,
          st_profile_deletion = support ! 5,
          st_pam_authentication = support ! 6,
          st_pam_configuration = support ! 7,
          st_authselect = support ! 8,
          st_sddm_lock_screen = support ! 9,
          st_sudo_polkit = support ! 10,
          st_liveness = support ! 11,
          st_security_tiers = support ! 12,
          st_privileged_services = support ! 13\<rparr>)))"

definition decode_response :: "bytes \<Rightarrow> codec_error + response" where
  "decode_response payload =
     rbind (validate_payload payload MAX_RESPONSE_BYTES) (\<lambda>_.
     if length payload < 5 \<or> payload ! 3 \<noteq> 0 then Inl InvalidPayload
     else rbind (validate_version payload) (\<lambda>_.
     if payload ! 2 = RESPONSE_CAPABILITIES then decode_capabilities payload
     else if payload ! 2 = RESPONSE_STATUS then decode_status payload
     else if payload ! 2 = RESPONSE_ERROR \<and> length payload = 5 then
       (if payload ! 4 = 1 then Inr (Response_Error InvalidRequest)
        else if payload ! 4 = 2 then Inr (Response_Error UnsupportedVersion_code)
        else if payload ! 4 = 3 then Inr (Response_Error UnsupportedOperation)
        else Inl InvalidPayload)
     else Inl InvalidPayload))"

section \<open>Streams and framing\<close>

text \<open>
  A \<^verbatim>\<open>Read\<close> implementation is the list of what its calls have available: a chunk of bytes or
  an error. A call with a buffer of \<open>n\<close> bytes takes at most \<open>n\<close> of them; the exhausted stream
  answers \<^verbatim>\<open>Ok(0)\<close> for ever.
\<close>

datatype read_event = Chunk bytes | ReadErr io_kind

type_synonym reader = "read_event list"

fun read_call :: "nat \<Rightarrow> reader \<Rightarrow> (io_kind + bytes) \<times> reader" where
  "read_call n [] = (Inr [], [])"
| "read_call n (Chunk bs # r) =
     (if length bs \<le> n then (Inr bs, r) else (Inr (take n bs), Chunk (drop n bs) # r))"
| "read_call n (ReadErr k # r) = (Inl k, r)"

fun reader_size :: "reader \<Rightarrow> nat" where
  "reader_size [] = 0"
| "reader_size (Chunk bs # r) = Suc (length bs) + reader_size r"
| "reader_size (ReadErr k # r) = Suc (reader_size r)"

lemma read_call_Cons_less:
  "0 < n \<Longrightarrow> reader_size (snd (read_call n (e # r))) < reader_size (e # r)"
  by (cases e) auto

lemma read_call_less:
  "read_call n r = (res, r') \<Longrightarrow> 0 < n \<Longrightarrow> res \<noteq> Inr [] \<Longrightarrow> reader_size r' < reader_size r"
  using read_call_Cons_less [of n "hd r" "tl r"] by (cases r) auto

datatype frame_error = Frame_Io io_kind | EmptyFrame | FrameTooLarge nat nat | TrailingData

text \<open>
  \<^verbatim>\<open>Read::read_exact\<close> of the standard library, as used on the payload: \<open>acc\<close> is the filled
  part of the buffer.
\<close>

function read_exact :: "nat \<Rightarrow> bytes \<Rightarrow> reader \<Rightarrow> (io_kind + bytes) \<times> reader" where
  "read_exact n acc r =
     (if n \<le> length acc then (Inr acc, r)
      else case read_call (n - length acc) r of
        (Inr bs, r') \<Rightarrow>
          (if bs = [] then (Inl UnexpectedEof, r') else read_exact n (acc @ bs) r')
      | (Inl k, r') \<Rightarrow> (if k = Interrupted then read_exact n acc r' else (Inl k, r')))"
  by pat_completeness auto
termination
  by (relation "measure (\<lambda>(n, acc, r). reader_size r)") (auto dest!: sym [of _ "read_call _ _"] dest: read_call_less)

text \<open>The header loop of \<^verbatim>\<open>read_frame_or_eof\<close>; \<open>acc\<close> is \<^verbatim>\<open>header[..offset]\<close>.\<close>

function read_header :: "bytes \<Rightarrow> reader \<Rightarrow> (frame_error + bytes option) \<times> reader" where
  "read_header acc r =
     (if 4 \<le> length acc then (Inr (Some acc), r)
      else case read_call (4 - length acc) r of
        (Inr bs, r') \<Rightarrow>
          (if bs = [] then
             (if acc = [] then (Inr None, r') else (Inl (Frame_Io UnexpectedEof), r'))
           else read_header (acc @ bs) r')
      | (Inl k, r') \<Rightarrow>
          (if k = Interrupted then read_header acc r' else (Inl (Frame_Io k), r')))"
  by pat_completeness auto
termination
  by (relation "measure (\<lambda>(acc, r). reader_size r)") (auto dest!: sym [of _ "read_call _ _"] dest: read_call_less)

declare read_exact.simps [simp del] read_header.simps [simp del]

definition read_frame_or_eof ::
    "reader \<Rightarrow> nat \<Rightarrow> (frame_error + bytes option) \<times> reader" where
  "read_frame_or_eof r maximum =
     (case read_header [] r of
        (Inl e, r') \<Rightarrow> (Inl e, r')
      | (Inr None, r') \<Rightarrow> (Inr None, r')
      | (Inr (Some header), r') \<Rightarrow>
          (let len = unat (u32_from_be header) in
           if len = 0 then (Inl EmptyFrame, r')
           else if len > maximum then (Inl (FrameTooLarge len maximum), r')
           else case read_exact len [] r' of
             (Inl k, r'') \<Rightarrow> (Inl (Frame_Io k), r'')
           | (Inr payload, r'') \<Rightarrow> (Inr (Some payload), r'')))"

definition read_frame :: "reader \<Rightarrow> nat \<Rightarrow> (frame_error + bytes) \<times> reader" where
  "read_frame r maximum =
     (case read_frame_or_eof r maximum of
        (Inl e, r') \<Rightarrow> (Inl e, r')
      | (Inr (Some payload), r') \<Rightarrow> (Inr payload, r')
      | (Inr None, r') \<Rightarrow> (Inl (Frame_Io UnexpectedEof), r'))"

fun require_eof :: "reader \<Rightarrow> (frame_error + unit) \<times> reader" where
  "require_eof [] = (Inr (), [])"
| "require_eof (Chunk bs # r) =
     (if bs = [] then (Inr (), r) else (Inl TrailingData, snd (read_call 1 (Chunk bs # r))))"
| "require_eof (ReadErr k # r) =
     (if k = Interrupted then require_eof r else (Inl (Frame_Io k), r))"

text \<open>
  A \<^verbatim>\<open>Write\<close> implementation: the bytes written and the outcomes of the calls to come (an
  exhausted list means success). A failing \<^verbatim>\<open>write_all\<close> may have written a prefix.
\<close>

datatype write_event = WOk | WFail nat io_kind

record writer =
  written :: bytes
  outcomes :: "write_event list"

definition write_all :: "writer \<Rightarrow> bytes \<Rightarrow> (io_kind + unit) \<times> writer" where
  "write_all w bs =
     (case outcomes w of
        WFail n k # os \<Rightarrow> (Inl k, w\<lparr>written := written w @ take n bs, outcomes := os\<rparr>)
      | _ \<Rightarrow> (Inr (), w\<lparr>written := written w @ bs, outcomes := tl (outcomes w)\<rparr>))"

definition flush :: "writer \<Rightarrow> (io_kind + unit) \<times> writer" where
  "flush w =
     (case outcomes w of
        WFail n k # os \<Rightarrow> (Inl k, w\<lparr>outcomes := os\<rparr>)
      | _ \<Rightarrow> (Inr (), w\<lparr>outcomes := tl (outcomes w)\<rparr>))"

definition write_frame :: "writer \<Rightarrow> bytes \<Rightarrow> nat \<Rightarrow> (frame_error + unit) \<times> writer" where
  "write_frame w payload maximum =
     (if payload = [] then (Inl EmptyFrame, w)
      else if length payload > maximum then
        (Inl (FrameTooLarge (length payload) maximum), w)
      else if length payload \<ge> 2 ^ 32 then
        (Inl (FrameTooLarge (length payload) maximum), w)
      else case write_all w (u32_be (word_of_nat (length payload))) of
        (Inl k, w1) \<Rightarrow> (Inl (Frame_Io k), w1)
      | (Inr _, w1) \<Rightarrow>
          (case write_all w1 payload of
             (Inl k, w2) \<Rightarrow> (Inl (Frame_Io k), w2)
           | (Inr _, w2) \<Rightarrow> (map_err Frame_Io (fst (flush w2)), snd (flush w2))))"

section \<open>Codec lemmas\<close>

lemma support_from_wire_iff: "support_from_wire b = Inr s \<longleftrightarrow> b = wire_value s"
  by (cases s) (auto split: if_splits)

lemma decode_support_iff: "decode_support bs = Inr ss \<longleftrightarrow> bs = map wire_value ss"
  by (induction bs arbitrary: ss) (auto simp: rbind_eq_Inr support_from_wire_iff
      simp del: support_from_wire.simps)

lemma version_bytes:
  "u16_from_be [a, b] = PROTOCOL_VERSION \<longleftrightarrow> [a, b] = u16_be PROTOCOL_VERSION"
  using be_to_from(1) [of "[a, b]"] be_roundtrip(1) by (metis length_Cons list.size(3)
      numeral_2_eq_2)

lemma u16_be_PROTOCOL_VERSION: "u16_be PROTOCOL_VERSION = [0, 2]"
  by code_simp

lemma u16_be_two [simp]: "u16_be 2 = [0, 2]"
  using u16_be_PROTOCOL_VERSION by (simp add: PROTOCOL_VERSION_def)

lemma validate_version_iff:
  "validate_version p = Inr () \<longleftrightarrow> 2 \<le> length p \<and> p ! 0 = 0 \<and> p ! 1 = 2"
  by (auto simp: validate_version_def version_bytes u16_be_PROTOCOL_VERSION Let_def)

lemma validate_version_ok [simp]: "validate_version (0 # 2 # p) = Inr ()"
  by (simp add: validate_version_iff)

lemma list_all_length:
  "length xs = 14 \<Longrightarrow>
   xs = [xs ! 0, xs ! 1, xs ! 2, xs ! 3, xs ! 4, xs ! 5, xs ! 6, xs ! 7, xs ! 8, xs ! 9,
         xs ! 10, xs ! 11, xs ! 12, xs ! 13]"
  using bslice_all [of xs 14] by (simp add: bslice_nth_Cons eval_nat_numeral)

lemma length_encode_response: "length (encode_response r) \<le> 34"
  by (cases r) (simp_all add: encode_response_def Let_def support_bytes_def)

lemma decode_encode_request: "decode_request (encode_request r) = Inr r"
  by (cases r) (simp_all add: decode_request_def encode_request_def validate_payload_def
      wire_defs Let_def)

lemma encode_decode_request: "decode_request p = Inr r \<Longrightarrow> p = encode_request r"
proof -
  assume d: "decode_request p = Inr r"
  then have len: "length p = 4" and p3: "p ! 3 = 0" and v: "p ! 0 = 0 \<and> p ! 1 = 2"
    and p2: "p ! 2 = (case r of Request_Capabilities \<Rightarrow> REQUEST_CAPABILITIES
                              | Request_Status \<Rightarrow> REQUEST_STATUS)"
    by (auto simp: decode_request_def rbind_eq_Inr validate_version_iff split: if_splits)
  have "p = bslice 0 4 p" using len by simp
  also have "\<dots> = [p ! 0, p ! 1, p ! 2, p ! 3]"
    using bslice_four [of 0 4 p] len by (simp add: eval_nat_numeral)
  finally show ?thesis
    using p3 v p2 by (simp add: encode_request_def u16_be_PROTOCOL_VERSION Let_def)
qed

lemma decode_encode_response: "decode_response (encode_response r) = Inr r"
proof (cases r)
  case (Response_Capabilities c)
  obtain a0 a1 where a: "u16_be (protocol_min c) = [a0, a1]" "u16_from_be [a0, a1] = protocol_min c"
    by (rule u16_be_digits)
  obtain b0 b1 where b: "u16_be (protocol_max c) = [b0, b1]" "u16_from_be [b0, b1] = protocol_max c"
    by (rule u16_be_digits)
  obtain c0 c1 c2 c3 where c: "u32_be (max_request_bytes c) = [c0, c1, c2, c3]"
      "u32_from_be [c0, c1, c2, c3] = max_request_bytes c"
    by (rule u32_be_digits)
  obtain d0 d1 d2 d3 where d: "u32_be (max_response_bytes c) = [d0, d1, d2, d3]"
      "u32_from_be [d0, d1, d2, d3] = max_response_bytes c"
    by (rule u32_be_digits)
  obtain e0 e1 where e: "u16_be (operations c) = [e0, e1]" "u16_from_be [e0, e1] = operations c"
    by (rule u16_be_digits)
  let ?ss = "[cap_detector_analysis c, cap_embedding_extraction c,
                cap_user_session_enrollment c, cap_encrypted_user_session_persistence c,
                cap_explicit_local_verification c, cap_profile_deletion c,
                cap_pam_authentication c, cap_pam_configuration c, cap_authselect c,
                cap_sddm_lock_screen c, cap_sudo_polkit c, cap_liveness c,
                cap_security_tiers c, cap_privileged_services c]"
  have ss: "decode_support (map wire_value ?ss) = Inr ?ss"
    by (simp only: decode_support_iff)
  have n: "network_access c = Disabled" "runtime_model_downloads c = Disabled"
    by (cases "network_access c", simp, cases "runtime_model_downloads c", simp)
  show ?thesis
    using ss unfolding Response_Capabilities encode_response_def decode_response_def
    by (simp add: a b c d e validate_payload_def u16_be_PROTOCOL_VERSION
        support_bytes_def decode_capabilities_def n MAX_RESPONSE_BYTES_def
        RESPONSE_CAPABILITIES_def Let_def del: decode_support.simps)
next
  case (Response_Status s)
  let ?ss = "[st_detector_analysis s, st_embedding_extraction s,
                st_user_session_enrollment s, st_encrypted_user_session_persistence s,
                st_explicit_local_verification s, st_profile_deletion s,
                st_pam_authentication s, st_pam_configuration s, st_authselect s,
                st_sddm_lock_screen s, st_sudo_polkit s, st_liveness s,
                st_security_tiers s, st_privileged_services s]"
  have ss: "decode_support (map wire_value ?ss) = Inr ?ss"
    by (simp only: decode_support_iff)
  have n: "st_state s = Ready_state" by (cases "st_state s")
  show ?thesis
    using ss unfolding Response_Status encode_response_def decode_response_def
    by (simp add: validate_payload_def u16_be_PROTOCOL_VERSION
        support_bytes_def decode_status_def n MAX_RESPONSE_BYTES_def
        RESPONSE_STATUS_def RESPONSE_CAPABILITIES_def Let_def del: decode_support.simps)
next
  case (Response_Error x)
  then show ?thesis
    by (cases x) (simp_all add: encode_response_def decode_response_def validate_payload_def
        u16_be_PROTOCOL_VERSION wire_defs Let_def)
qed

lemma encode_decode_capabilities:
  assumes d: "decode_capabilities p = Inr r" and hd: "bslice 0 4 p = [0, 2, RESPONSE_CAPABILITIES, 0]"
  shows "p = encode_response r"
proof -
  from d have len: "length p = 34" and z: "p ! 32 = 0" "p ! 33 = 0"
    by (auto simp: decode_capabilities_def split: if_splits)
  from d len z obtain ss where ss: "bslice 18 32 p = map wire_value ss"
    and dr: "decode_support (bslice 18 32 p) = Inr ss"
    by (auto simp: decode_capabilities_def rbind_eq_Inr decode_support_iff split: if_splits)
  have "length ss = 14" using arg_cong [OF ss, of length] len by simp
  note ss14 = list_all_length [OF this]
  have b: "[p ! 4, p ! 5] = bslice 4 6 p" "[p ! 6, p ! 7] = bslice 6 8 p"
    "[p ! 8, p ! 9, p ! 10, p ! 11] = bslice 8 12 p"
    "[p ! 12, p ! 13, p ! 14, p ! 15] = bslice 12 16 p" "[p ! 16, p ! 17] = bslice 16 18 p"
    "[p ! 32, p ! 33] = bslice 32 34 p"
    using bslice_two [of 4 6 p] bslice_two [of 6 8 p] bslice_four [of 8 12 p]
      bslice_four [of 12 16 p] bslice_two [of 16 18 p] bslice_two [of 32 34 p] len
    by simp_all
  from d len z dr have r: "encode_response r = [0, 2, RESPONSE_CAPABILITIES, 0]
      @ bslice 4 6 p @ bslice 6 8 p @ bslice 8 12 p @ bslice 12 16 p @ bslice 16 18 p
      @ map wire_value [ss ! 0, ss ! 1, ss ! 2, ss ! 3, ss ! 4, ss ! 5, ss ! 6, ss ! 7, ss ! 8,
          ss ! 9, ss ! 10, ss ! 11, ss ! 12, ss ! 13] @ [0, 0]"
    by (auto simp: decode_capabilities_def encode_response_def b be_to_from
        u16_be_PROTOCOL_VERSION support_bytes_def len simp del: list.map)
  also have "\<dots> = bslice 0 4 p @ bslice 4 6 p @ bslice 6 8 p @ bslice 8 12 p @ bslice 12 16 p
      @ bslice 16 18 p @ bslice 18 32 p @ bslice 32 34 p"
    using b(6) by (simp only: hd ss ss14 [symmetric] z)
  also have "\<dots> = p" using len by (simp add: bslice_split)
  finally show ?thesis by simp
qed

lemma encode_decode_status:
  assumes d: "decode_status p = Inr r" and hd: "bslice 0 4 p = [0, 2, RESPONSE_STATUS, 0]"
  shows "p = encode_response r"
proof -
  from d have len: "length p = 19" and z: "p ! 4 = 2"
    by (auto simp: decode_status_def split: if_splits)
  from d len z obtain ss where ss: "bslice 5 19 p = map wire_value ss"
    and dr: "decode_support (bslice 5 19 p) = Inr ss"
    by (auto simp: decode_status_def rbind_eq_Inr decode_support_iff split: if_splits)
  have "length ss = 14" using arg_cong [OF ss, of length] len by simp
  note ss14 = list_all_length [OF this]
  have b: "[p ! 4] = bslice 4 5 p" using bslice_one [of 4 p] len by simp
  from d len z dr have r: "encode_response r = [0, 2, RESPONSE_STATUS, 0] @ [2]
      @ map wire_value [ss ! 0, ss ! 1, ss ! 2, ss ! 3, ss ! 4, ss ! 5, ss ! 6, ss ! 7, ss ! 8,
          ss ! 9, ss ! 10, ss ! 11, ss ! 12, ss ! 13]"
    by (auto simp: decode_status_def encode_response_def
        u16_be_PROTOCOL_VERSION support_bytes_def len simp del: list.map)
  also have "\<dots> = bslice 0 4 p @ bslice 4 5 p @ bslice 5 19 p"
    using b by (simp only: hd ss ss14 [symmetric] z)
  also have "\<dots> = p" using len by (simp add: bslice_split)
  finally show ?thesis by simp
qed

lemma encode_decode_response: "decode_response p = Inr r \<Longrightarrow> p = encode_response r"
proof -
  assume d: "decode_response p = Inr r"
  then have len: "5 \<le> length p" and p3: "p ! 3 = 0" and v: "p ! 0 = 0" "p ! 1 = 2"
    by (auto simp: decode_response_def rbind_eq_Inr validate_version_iff split: if_splits)
  then have hd: "bslice 0 4 p = [0, 2, p ! 2, 0]"
    using bslice_four [of 0 4 p] by (simp add: eval_nat_numeral)
  have p5: "length p = 5 \<Longrightarrow> p = [0, 2, p ! 2, 0, p ! 4]"
    using bslice_split [of 0 4 5 p] bslice_one [of 4 p] hd by simp
  from d len p3 v consider "p ! 2 = RESPONSE_CAPABILITIES" "decode_capabilities p = Inr r"
    | "p ! 2 = RESPONSE_STATUS" "decode_status p = Inr r"
    | "p ! 2 = RESPONSE_ERROR" "length p = 5"
      "r = Response_Error InvalidRequest \<and> p ! 4 = 1
       \<or> r = Response_Error UnsupportedVersion_code \<and> p ! 4 = 2
       \<or> r = Response_Error UnsupportedOperation \<and> p ! 4 = 3"
    by (auto simp: decode_response_def rbind_eq_Inr split: if_splits)
  then show ?thesis
  proof cases
    case 1
    then show ?thesis using hd encode_decode_capabilities by metis
  next
    case 2
    then show ?thesis using hd encode_decode_status by metis
  next
    case 3
    from p5 [OF 3(2)] 3 show ?thesis
      by (auto simp: encode_response_def Let_def wire_defs)
  qed
qed

section \<open>Framing against the byte stream\<close>

text \<open>
  A smooth reader delivers non-empty chunks and interrupts only. What the framing functions do
  on it depends on the concatenated bytes alone, as \<open>frame_spec\<close> says, and not on how they
  were fragmented.
\<close>

fun smooth :: "reader \<Rightarrow> bool" where
  "smooth [] = True"
| "smooth (Chunk bs # r) = (bs \<noteq> [] \<and> smooth r)"
| "smooth (ReadErr k # r) = (k = Interrupted \<and> smooth r)"

fun stream_bytes :: "reader \<Rightarrow> bytes" where
  "stream_bytes [] = []"
| "stream_bytes (Chunk bs # r) = bs @ stream_bytes r"
| "stream_bytes (ReadErr k # r) = stream_bytes r"

definition frame_spec :: "bytes \<Rightarrow> nat \<Rightarrow> (frame_error + bytes option) \<times> bytes" where
  "frame_spec bs maximum =
     (if bs = [] then (Inr None, [])
      else if length bs < 4 then (Inl (Frame_Io UnexpectedEof), [])
      else let len = be_val (take 4 bs); rest = drop 4 bs in
        if len = 0 then (Inl EmptyFrame, rest)
        else if len > maximum then (Inl (FrameTooLarge len maximum), rest)
        else if length rest < len then (Inl (Frame_Io UnexpectedEof), [])
        else (Inr (Some (take len rest)), drop len rest))"

definition frame_bytes :: "bytes \<Rightarrow> bytes" where
  "frame_bytes payload = u32_be (word_of_nat (length payload)) @ payload"

lemma read_call_smooth:
  assumes "smooth r" "0 < n" "read_call n r = (res, r')"
  shows "smooth r'"
    and "res = Inl k \<Longrightarrow> k = Interrupted \<and> stream_bytes r' = stream_bytes r"
    and "res = Inr bs \<Longrightarrow> stream_bytes r = bs @ stream_bytes r' \<and> length bs \<le> n
           \<and> (bs = [] \<longrightarrow> r' = [])"
  using assms by (cases r; cases "hd r"; auto split: if_splits)+

lemma read_exact_smooth:
  "smooth r \<Longrightarrow> length acc \<le> n \<Longrightarrow> read_exact n acc r = (res, r') \<Longrightarrow>
   smooth r' \<and>
   (if n \<le> length acc + length (stream_bytes r)
    then res = Inr (acc @ take (n - length acc) (stream_bytes r))
         \<and> stream_bytes r' = drop (n - length acc) (stream_bytes r)
    else res = Inl UnexpectedEof \<and> stream_bytes r' = [])"
proof (induction n acc r arbitrary: res r' rule: read_exact.induct)
  case (1 n acc r)
  show ?case
  proof (cases "n \<le> length acc")
    case True
    with "1.prems" show ?thesis by (simp add: read_exact.simps [of n acc r])
  next
    case False
    obtain cr r1 where rc: "read_call (n - length acc) r = (cr, r1)" by fastforce
    have pos: "0 < n - length acc" using False by simp
    note sm = read_call_smooth [OF "1.prems"(1) pos rc]
    show ?thesis
    proof (cases cr)
      case (Inl k)
      with sm(2) have k: "k = Interrupted" "stream_bytes r1 = stream_bytes r" by auto
      from "1.prems"(3) have "read_exact n acc r1 = (res, r')"
        using False rc Inl k by (simp add: read_exact.simps [of n acc r])
      with "1.IH"(1) [OF False rc [symmetric] Inl k(1)] show ?thesis
        using False rc Inl k sm(1) "1.prems"(2) by simp
    next
      case (Inr bs)
      with sm(3) have st: "stream_bytes r = bs @ stream_bytes r1" "length bs \<le> n - length acc"
        "bs = [] \<Longrightarrow> r1 = []" by auto
      show ?thesis
      proof (cases "bs = []")
        case True
        with "1.prems"(3) False rc Inr st show ?thesis
          by (auto simp: read_exact.simps [of n acc r])
      next
        case ne: False
        from "1.prems"(3) have "read_exact n (acc @ bs) r1 = (res, r')"
          using False rc Inr ne by (simp add: read_exact.simps [of n acc r])
        with "1.IH"(2) [OF False rc [symmetric] Inr ne] show ?thesis
          using False rc Inr ne sm(1) st by (auto simp: algebra_simps split: if_splits)
      qed
    qed
  qed
qed

lemma read_header_smooth:
  "smooth r \<Longrightarrow> length acc \<le> 4 \<Longrightarrow> read_header acc r = (res, r') \<Longrightarrow>
   smooth r' \<and>
   (if 4 \<le> length acc + length (stream_bytes r)
    then res = Inr (Some (acc @ take (4 - length acc) (stream_bytes r)))
         \<and> stream_bytes r' = drop (4 - length acc) (stream_bytes r)
    else stream_bytes r' = [] \<and>
         res = (if acc @ stream_bytes r = [] then Inr None else Inl (Frame_Io UnexpectedEof)))"
proof (induction acc r arbitrary: res r' rule: read_header.induct)
  case (1 acc r)
  show ?case
  proof (cases "4 \<le> length acc")
    case True
    with "1.prems" show ?thesis by (simp add: read_header.simps [of acc r])
  next
    case False
    obtain cr r1 where rc: "read_call (4 - length acc) r = (cr, r1)" by fastforce
    have pos: "0 < 4 - length acc" using False by simp
    note sm = read_call_smooth [OF "1.prems"(1) pos rc]
    show ?thesis
    proof (cases cr)
      case (Inl k)
      with sm(2) have k: "k = Interrupted" "stream_bytes r1 = stream_bytes r" by auto
      from "1.prems"(3) have "read_header acc r1 = (res, r')"
        using False rc Inl k by (simp add: read_header.simps [of acc r])
      with "1.IH"(1) [OF False rc [symmetric] Inl k(1)] show ?thesis
        using False rc Inl k sm(1) "1.prems"(2) by simp
    next
      case (Inr bs)
      with sm(3) have st: "stream_bytes r = bs @ stream_bytes r1" "length bs \<le> 4 - length acc"
        "bs = [] \<Longrightarrow> r1 = []" by auto
      show ?thesis
      proof (cases "bs = []")
        case True
        with "1.prems"(3) False rc Inr st show ?thesis
          by (auto simp: read_header.simps [of acc r])
      next
        case ne: False
        from "1.prems"(3) have "read_header (acc @ bs) r1 = (res, r')"
          using False rc Inr ne by (simp add: read_header.simps [of acc r])
        with "1.IH"(2) [OF False rc [symmetric] Inr ne] show ?thesis
          using False rc Inr ne sm(1) st by (auto simp: algebra_simps split: if_splits)
      qed
    qed
  qed
qed

lemma read_frame_or_eof_smooth:
  assumes "smooth r" and "read_frame_or_eof r maximum = (res, r')"
  shows "smooth r' \<and> (res, stream_bytes r') = frame_spec (stream_bytes r) maximum"
proof -
  obtain h r1 where h: "read_header [] r = (h, r1)" by fastforce
  from read_header_smooth [OF assms(1) _ h] have sm: "smooth r1"
    and hd: "if 4 \<le> length (stream_bytes r)
             then h = Inr (Some (take 4 (stream_bytes r))) \<and> stream_bytes r1 = drop 4 (stream_bytes r)
             else stream_bytes r1 = [] \<and>
               h = (if stream_bytes r = [] then Inr None else Inl (Frame_Io UnexpectedEof))"
    by auto
  show ?thesis
  proof (cases "4 \<le> length (stream_bytes r)")
    case False
    with assms(2) h hd sm show ?thesis
      by (auto simp: read_frame_or_eof_def frame_spec_def split: if_splits)
  next
    case True
    let ?len = "be_val (take 4 (stream_bytes r))"
    have len: "unat (u32_from_be (take 4 (stream_bytes r))) = ?len"
      using True by (simp add: unat_from_be)
    obtain x r2 where x: "read_exact ?len [] r1 = (x, r2)" by fastforce
    from read_exact_smooth [OF sm _ x] True h hd x sm assms(2) len show ?thesis
      by (auto simp: read_frame_or_eof_def frame_spec_def Let_def split: if_splits)
  qed
qed

lemma frame_spec_frame_bytes:
  assumes "payload \<noteq> []" "length payload \<le> maximum" "length payload < 2 ^ 32"
  shows "frame_spec (frame_bytes payload @ rest) maximum = (Inr (Some payload), rest)"
proof -
  have "be_val (u32_be (word_of_nat (length payload))) = length payload"
    using assms(3) by (simp add: u32_be_def unat_of_nat)
  then show ?thesis
    using assms by (auto simp: frame_spec_def frame_bytes_def Let_def)
qed

lemma write_frame_ok:
  assumes "payload \<noteq> []" "length payload \<le> maximum" "length payload < 2 ^ 32" "outcomes w = []"
  shows "write_frame w payload maximum
         = (Inr (), w\<lparr>written := written w @ frame_bytes payload\<rparr>)"
  using assms by (simp add: write_frame_def write_all_def flush_def frame_bytes_def)

section \<open>The interface of a framed codec\<close>

text \<open>
  What a peer of the framed protocols relies on: the encoding is the only byte string the
  decoder maps to its value, and it fits in a frame of the given limit. The client lemma is
  the transport of a value through \<^verbatim>\<open>write_frame\<close> and \<^verbatim>\<open>read_frame\<close> under any fragmentation.
\<close>

locale framed_codec =
  fixes encode :: "'a \<Rightarrow> bytes"
    and decode :: "bytes \<Rightarrow> 'e + 'a"
    and limit :: nat
  assumes decode_encode: "decode (encode x) = Inr x"
    and encode_decode: "decode p = Inr x \<Longrightarrow> p = encode x"
    and encode_nonempty: "encode x \<noteq> []"
    and encode_limit: "length (encode x) \<le> limit"
    and limit_wire: "limit < 2 ^ 32"
begin

lemma decode_iff: "decode p = Inr x \<longleftrightarrow> p = encode x"
  using decode_encode encode_decode by blast

lemma encode_inj: "encode x = encode y \<longleftrightarrow> x = y"
  using decode_encode by (metis Inr_inject)

lemma send: "outcomes w = [] \<Longrightarrow>
    write_frame w (encode x) limit = (Inr (), w\<lparr>written := written w @ frame_bytes (encode x)\<rparr>)"
  using encode_nonempty [of x] encode_limit [of x] limit_wire by (intro write_frame_ok) auto

lemma receive:
  assumes "smooth r" and "stream_bytes r = frame_bytes (encode x) @ rest"
  obtains r' where "read_frame r limit = (Inr (encode x), r')" "smooth r'" "stream_bytes r' = rest"
proof -
  obtain res r' where rd: "read_frame_or_eof r limit = (res, r')" by fastforce
  have "(res, stream_bytes r') = frame_spec (stream_bytes r) limit" and sm: "smooth r'"
    using read_frame_or_eof_smooth [OF assms(1) rd] by auto
  moreover have "frame_spec (stream_bytes r) limit = (Inr (Some (encode x)), rest)"
    unfolding assms(2) using encode_nonempty [of x] encode_limit [of x] limit_wire
    by (intro frame_spec_frame_bytes) auto
  ultimately show ?thesis using rd sm by (intro that [of r']) (auto simp: read_frame_def)
qed

lemma send_receive:
  assumes "written w = []" "outcomes w = []" "smooth r"
    and "stream_bytes r = written (snd (write_frame w (encode x) limit)) @ rest"
  shows "\<exists>r' p. read_frame r limit = (Inr p, r') \<and> decode p = Inr x \<and> stream_bytes r' = rest"
proof -
  have "stream_bytes r = frame_bytes (encode x) @ rest"
    using assms send [of w x] by simp
  with assms(3) show ?thesis by (metis receive decode_encode)
qed

end

interpretation request_codec: framed_codec encode_request decode_request MAX_REQUEST_BYTES
proof unfold_locales
  show "encode_request r \<noteq> []" "length (encode_request r) \<le> MAX_REQUEST_BYTES" for r
    by (simp_all add: encode_request_def Let_def MAX_REQUEST_BYTES_def)
qed (auto simp: decode_encode_request encode_decode_request MAX_REQUEST_BYTES_def)

interpretation response_codec: framed_codec encode_response decode_response MAX_RESPONSE_BYTES
proof unfold_locales
  show "encode_response r \<noteq> []" for r
    by (cases r) (simp_all add: encode_response_def Let_def)
  show "length (encode_response r) \<le> MAX_RESPONSE_BYTES" for r
    using length_encode_response [of r] by (simp add: MAX_RESPONSE_BYTES_def)
qed (auto simp: decode_encode_response encode_decode_response MAX_RESPONSE_BYTES_def)

section \<open>Progress of a session\<close>

text \<open>A read that yields a frame has consumed part of the input, so a session on a finite input ends.\<close>

lemma read_header_less:
  "read_header acc r = (Inr (Some h), r') \<Longrightarrow> reader_size r' \<le> reader_size r \<and> (length acc < 4 \<longrightarrow> reader_size r' < reader_size r)"
proof (induction acc r arbitrary: h r' rule: read_header.induct)
  case (1 acc r)
  show ?case
  proof (cases "4 \<le> length acc")
    case True
    then show ?thesis using "1.prems" by (simp add: read_header.simps [of acc r])
  next
    case False
    obtain x r1 where c: "read_call (4 - length acc) r = (x, r1)" by fastforce
    have "x \<noteq> Inr []" using "1.prems" False c by (auto simp: read_header.simps [of acc r] split: if_splits)
    with read_call_less [OF c] False have "reader_size r1 < reader_size r" by simp
    moreover have "reader_size r' \<le> reader_size r1"
      using "1.IH" [OF False c [symmetric]] "1.prems" False c \<open>x \<noteq> Inr []\<close>
      by (auto simp: read_header.simps [of acc r] split: sum.splits if_splits)
    ultimately show ?thesis by simp
  qed
qed

lemma read_exact_le: "read_exact n acc r = (Inr bs, r') \<Longrightarrow> reader_size r' \<le> reader_size r"
proof (induction n acc r arbitrary: bs r' rule: read_exact.induct)
  case (1 n acc r)
  show ?case
  proof (cases "n \<le> length acc")
    case True
    then show ?thesis using "1.prems" by (simp add: read_exact.simps [of n acc r])
  next
    case False
    obtain x r1 where c: "read_call (n - length acc) r = (x, r1)" by fastforce
    have "x \<noteq> Inr []" using "1.prems" False c by (auto simp: read_exact.simps [of n acc r] split: if_splits)
    with read_call_less [OF c] False have "reader_size r1 < reader_size r" by simp
    moreover have "reader_size r' \<le> reader_size r1"
      using "1.IH" [OF False c [symmetric]] "1.prems" False c \<open>x \<noteq> Inr []\<close>
      by (auto simp: read_exact.simps [of n acc r] split: sum.splits if_splits)
    ultimately show ?thesis by simp
  qed
qed

lemma read_frame_or_eof_less: "read_frame_or_eof r m = (Inr (Some p), r') \<Longrightarrow> reader_size r' < reader_size r"
  by (auto simp: read_frame_or_eof_def Let_def split: prod.splits sum.splits option.splits if_splits
      dest!: read_header_less read_exact_le)

section \<open>Properties\<close>

text \<open>
  Claim C24: the version-2 engine codec is canonical in both directions: a payload decodes to a
  request (a response) exactly when it is the one byte string the encoder produces for it, so no
  malformed, padded or aliased payload is ever accepted.
\<close>

theorem wire_codecs_canonical:
  "(decode_request p = Inr q \<longleftrightarrow> p = encode_request q)
   \<and> (decode_response p' = Inr r \<longleftrightarrow> p' = encode_response r)"
  by (simp add: request_codec.decode_iff response_codec.decode_iff)

text \<open>
  Claim C26: frame reading refines its byte-stream specification: whatever the fragmentation and
  the interrupts of a stream, the result (clean end, truncated header, empty, oversized or
  truncated frame, or the payload) and the bytes left over are those of the concatenated bytes.
\<close>

theorem read_frame_or_eof_refines:
  assumes "smooth r" and "read_frame_or_eof r maximum = (res, r')"
  shows "(res, stream_bytes r') = frame_spec (stream_bytes r) maximum"
  using read_frame_or_eof_smooth [OF assms] by simp

theorem read_frame_or_eof_refines_witness:
  "fst (read_frame_or_eof [Chunk [0, 0], ReadErr Interrupted, Chunk [0, 2, 7], Chunk [8, 9]] 16)
     = Inr (Some [7, 8])
   \<and> frame_spec [0, 0, 0, 2, 7, 8, 9] 16 = (Inr (Some [7, 8]), [9])"
proof -
  let ?r = "[Chunk [0, 0], ReadErr Interrupted, Chunk [0, 2, 7], Chunk [8, 9]]"
  have sm: "smooth ?r" by simp
  have spec: "frame_spec [0, 0, 0, 2, 7, 8, 9] 16 = (Inr (Some [7, 8]), [9])"
    by (simp add: frame_spec_def be_val_def)
  obtain res r' where rd: "read_frame_or_eof ?r 16 = (res, r')" by fastforce
  from read_frame_or_eof_refines [OF sm rd] spec have "res = Inr (Some [7, 8])" by simp
  with rd spec show ?thesis by simp
qed

text \<open>
  A response written with \<^verbatim>\<open>write_frame\<close> and read back with \<^verbatim>\<open>read_frame\<close> through any
  fragmented or interrupted stream decodes to the same response, and leaves what follows it.
\<close>

theorem response_transport:
  assumes "written w = []" "outcomes w = []" "smooth r"
    and "stream_bytes r = written (snd (write_frame w (encode_response x) MAX_RESPONSE_BYTES)) @ rest"
  shows "\<exists>r' p. read_frame r MAX_RESPONSE_BYTES = (Inr p, r') \<and> decode_response p = Inr x
           \<and> stream_bytes r' = rest"
  by (rule response_codec.send_receive [OF assms])

theorem response_transport_witness:
  "\<exists>r' p. read_frame [Chunk [0, 0, 0], ReadErr Interrupted, Chunk [5, 0, 2, 255, 0, 3, 1]]
              MAX_RESPONSE_BYTES = (Inr p, r')
     \<and> decode_response p = Inr (Response_Error UnsupportedOperation) \<and> stream_bytes r' = [1]"
proof (rule response_transport [of "\<lparr>written = [], outcomes = []\<rparr>"])
  let ?w = "\<lparr>written = [], outcomes = []\<rparr> :: writer"
  have e: "encode_response (Response_Error UnsupportedOperation) = [0, 2, 255, 0, 3]"
    by (simp add: encode_response_def Let_def wire_defs)
  have "u32_be 5 = [0, 0, 0, 5]" by code_simp
  then show "stream_bytes [Chunk [0, 0, 0], ReadErr Interrupted, Chunk [5, 0, 2, 255, 0, 3, 1]]
      = written (snd (write_frame ?w (encode_response (Response_Error UnsupportedOperation))
          MAX_RESPONSE_BYTES)) @ [1]"
    by (simp add: e response_codec.send frame_bytes_def write_frame_def write_all_def flush_def
        MAX_RESPONSE_BYTES_def)
qed simp_all

end
