(* ===== verification/Vision_Image.thy ===== *)
theory Vision_Image
  imports Prelude
begin

text \<open>
  The image layer of \<^verbatim>\<open>engine/vision/src/lib.rs\<close>: pixel formats, the checked image view, processing control with
  deadline and cancellation, luma and the quality metrics. The properties show that an accepted view makes every pixel
  access of the metrics in range and every \<^verbatim>\<open>expect\<close> of the computation succeed.
\<close>

section \<open>Image views\<close>

definition MAX_WIDTH :: u32 where "MAX_WIDTH = 1920"
definition MAX_HEIGHT :: u32 where "MAX_HEIGHT = 1080"
definition MAX_FRAME_BYTES :: nat where "MAX_FRAME_BYTES = 1920 * 1080 * 4"

datatype pixel_format = Rgb8 | Rgba8 | Gray8

fun bytes_per_pixel :: "pixel_format \<Rightarrow> u32" where
  "bytes_per_pixel Rgb8 = 3"
| "bytes_per_pixel Rgba8 = 4"
| "bytes_per_pixel Gray8 = 1"

datatype image_error = UnsupportedPixelFormat | InvalidDimensions | InvalidStride | ArithmeticOverflow
  | FrameTooLarge_image | LengthMismatch

definition pixel_format_try_from :: "u8 \<Rightarrow> image_error + pixel_format" where
  "pixel_format_try_from b =
     (if b = 1 then Inr Rgb8 else if b = 2 then Inr Rgba8 else if b = 3 then Inr Gray8
      else Inl UnsupportedPixelFormat)"

record image_view =
  img_format :: pixel_format
  img_width :: u32
  img_height :: u32
  img_stride :: u32
  img_bytes :: bytes

definition image_view_new ::
    "pixel_format \<Rightarrow> u32 \<Rightarrow> u32 \<Rightarrow> u32 \<Rightarrow> bytes \<Rightarrow> image_error + image_view" where
  "image_view_new format width height stride bs =
     (if width = 0 \<or> height = 0 \<or> width > MAX_WIDTH \<or> height > MAX_HEIGHT then Inl InvalidDimensions
      else rbind (ok_or ArithmeticOverflow (checked_mul width (bytes_per_pixel format))) (\<lambda>minimum_stride.
        if stride < minimum_stride then Inl InvalidStride
        else rbind (ok_or ArithmeticOverflow (checked_mul stride height)) (\<lambda>expected.
          if unat expected > MAX_FRAME_BYTES then Inl FrameTooLarge_image
          else if length bs \<noteq> unat expected then Inl LengthMismatch
          else Inr \<lparr>img_format = format, img_width = width, img_height = height, img_stride = stride,
                  img_bytes = bs\<rparr>)))"

section \<open>Processing control\<close>

datatype vision_error = Cancelled | DeadlineExceeded | FaceAtEdge | RuntimeFailure | InvalidRuntimeOutput

text \<open>A control is a deadline; \<open>cancelled i\<close> and \<open>clock i\<close> are what the \<open>i\<close>-th check observes.\<close>

record control =
  ctl_deadline :: nat
  ctl_cancelled :: "nat \<Rightarrow> bool"
  ctl_clock :: "nat \<Rightarrow> nat"

definition control_check :: "control \<Rightarrow> nat \<Rightarrow> vision_error + unit" where
  "control_check c i =
     (if ctl_cancelled c i then Inl Cancelled
      else if ctl_clock c i \<ge> ctl_deadline c then Inl DeadlineExceeded
      else Inr ())"

section \<open>Luma and quality\<close>

text \<open>\<open>None\<close> is a failed \<^verbatim>\<open>expect\<close> or an index out of range.\<close>

fun pixel_luma :: "pixel_format \<Rightarrow> bytes \<Rightarrow> nat option" where
  "pixel_luma Gray8 bs = (if length bs < 1 then None else Some (unat (bs ! 0)))"
| "pixel_luma _ bs =
     (if length bs < 3 then None
      else let weighted = unat (bs ! 0) * 77 + unat (bs ! 1) * 150 + unat (bs ! 2) * 29
        in if weighted div 256 < 256 then Some (weighted div 256) else None)"

record quality_metrics =
  brightness :: u8
  contrast :: u8
  sharpness :: u8
  flags :: u8

definition QUALITY_TOO_DARK :: u8 where "QUALITY_TOO_DARK = 1"
definition QUALITY_TOO_BRIGHT :: u8 where "QUALITY_TOO_BRIGHT = 2"
definition QUALITY_LOW_CONTRAST :: u8 where "QUALITY_LOW_CONTRAST = 4"
definition QUALITY_LOW_SHARPNESS :: u8 where "QUALITY_LOW_SHARPNESS = 8"

text \<open>The accumulators of the pixel loops.\<close>

record quality_acc =
  qa_sum :: nat
  qa_min :: nat
  qa_max :: nat
  qa_diff :: nat
  qa_count :: nat

definition quality_start :: quality_acc where
  "quality_start = \<lparr>qa_sum = 0, qa_min = 255, qa_max = 0, qa_diff = 0, qa_count = 0\<rparr>"

definition abs_diff :: "nat \<Rightarrow> nat \<Rightarrow> nat" where
  "abs_diff a b = (if a < b then b - a else a - b)"

definition quality_pixel :: "quality_acc \<Rightarrow> nat option \<Rightarrow> nat \<Rightarrow> quality_acc" where
  "quality_pixel a previous luma =
     (let a' = a\<lparr>qa_sum := qa_sum a + luma, qa_min := min (qa_min a) luma, qa_max := max (qa_max a) luma\<rparr>
      in case previous of
           None \<Rightarrow> a'
         | Some p \<Rightarrow> a'\<lparr>qa_diff := qa_diff a + abs_diff luma p, qa_count := qa_count a + 1\<rparr>)"

text \<open>One row: \<open>n\<close> pixels are left, starting at byte offset \<open>off\<close>.\<close>

fun quality_row :: "image_view \<Rightarrow> nat \<Rightarrow> nat \<Rightarrow> nat option \<Rightarrow> quality_acc \<Rightarrow> quality_acc option" where
  "quality_row img 0 off previous a = Some a"
| "quality_row img (Suc n) off previous a =
     (case pixel_luma (img_format img) (drop off (img_bytes img)) of
        None \<Rightarrow> None
      | Some luma \<Rightarrow>
          quality_row img n (off + unat (bytes_per_pixel (img_format img))) (Some luma)
            (quality_pixel a previous luma))"

text \<open>
  The row loop: \<open>n\<close> rows are left, \<open>y\<close> is the current one, and each row starts with a check. An option result
  around the sum: \<open>None\<close> is a panic.
\<close>

fun quality_rows :: "image_view \<Rightarrow> control \<Rightarrow> nat \<Rightarrow> nat \<Rightarrow> nat \<Rightarrow> quality_acc
    \<Rightarrow> (vision_error + quality_acc \<times> nat) option" where
  "quality_rows img c i 0 y a = Some (Inr (a, i))"
| "quality_rows img c i (Suc n) y a =
     (case control_check c i of
        Inl e \<Rightarrow> Some (Inl e)
      | Inr _ \<Rightarrow>
          (case quality_row img (unat (img_width img)) (y * unat (img_stride img)) None a of
             None \<Rightarrow> None
           | Some a' \<Rightarrow> quality_rows img c (Suc i) n (Suc y) a'))"

definition quality_flags :: "nat \<Rightarrow> nat \<Rightarrow> nat \<Rightarrow> u8" where
  "quality_flags b con sh =
     or (if b < 20 then QUALITY_TOO_DARK else 0)
     (or (if b > 220 then QUALITY_TOO_BRIGHT else 0)
     (or (if con < 16 then QUALITY_LOW_CONTRAST else 0)
         (if sh < 1 then QUALITY_LOW_SHARPNESS else 0)))"

text \<open>\<open>fits\<close> is \<^verbatim>\<open>u8::try_from(..).expect(..)\<close>.\<close>

definition calculate_quality ::
    "image_view \<Rightarrow> control \<Rightarrow> nat \<Rightarrow> (vision_error + quality_metrics \<times> nat) option" where
  "calculate_quality img c i =
     (case quality_rows img c i (unat (img_height img)) 0 quality_start of
        None \<Rightarrow> None
      | Some (Inl e) \<Rightarrow> Some (Inl e)
      | Some (Inr (a, j)) \<Rightarrow>
          (case control_check c j of
             Inl e \<Rightarrow> Some (Inl e)
           | Inr _ \<Rightarrow>
               let pixels = unat (img_width img) * unat (img_height img);
                   b = qa_sum a div pixels;
                   con = qa_max a - qa_min a;
                   sh = (if qa_count a = 0 then 0 else qa_diff a div qa_count a)
               in if pixels = 0 \<or> b > 255 \<or> qa_max a < qa_min a \<or> sh > 255 then None
                  else Some (Inr (\<lparr>brightness = word_of_nat b, contrast = word_of_nat con,
                         sharpness = word_of_nat sh, flags = quality_flags b con sh\<rparr>, Suc j))))"

section \<open>Accepted views are safe to read\<close>

definition view_wf :: "image_view \<Rightarrow> bool" where
  "view_wf v \<longleftrightarrow> 0 < unat (img_width v) \<and> unat (img_width v) \<le> 1920 \<and> 0 < unat (img_height v)
     \<and> unat (img_height v) \<le> 1080
     \<and> unat (img_width v) * unat (bytes_per_pixel (img_format v)) \<le> unat (img_stride v)
     \<and> length (img_bytes v) = unat (img_stride v) * unat (img_height v)
     \<and> length (img_bytes v) \<le> MAX_FRAME_BYTES"

lemma unat_pos: "w \<noteq> 0 \<longleftrightarrow> 0 < unat w" for w :: "'a::len word"
  by (metis bot_nat_0.not_eq_extremum unat_0 word_unat_eq_iff)

lemma image_view_new_wf: "image_view_new f w h s bs = Inr v \<Longrightarrow> view_wf v"
  by (auto simp: image_view_new_def view_wf_def rbind_eq_Inr ok_or_eq_Inr MAX_WIDTH_def MAX_HEIGHT_def
      word_le_nat_alt word_less_nat_alt unat_pos not_less dest!: checked_mul_SomeD split: if_splits)

lemma checked_mul_small:
  "unat a * unat b < 2 ^ LENGTH('a) \<Longrightarrow> checked_mul a b = Some (a * b) \<and> unat (a * b) = unat a * unat b"
  for a b :: "'a::len word"
  using checked_mul_SomeD [of a b "a * b"] by (simp add: checked_mul_def)

lemma unat_bytes_per_pixel: "unat (bytes_per_pixel f) \<le> 4" "0 < unat (bytes_per_pixel f)"
  by (cases f; simp)+

lemma image_view_new_complete:
  assumes "view_wf v"
  shows "image_view_new (img_format v) (img_width v) (img_height v) (img_stride v) (img_bytes v) = Inr v"
proof -
  have "unat (img_width v) * unat (bytes_per_pixel (img_format v)) \<le> 1920 * 4"
    using assms unat_bytes_per_pixel(1) [of "img_format v"] by (intro mult_le_mono) (simp_all add: view_wf_def)
  then have 1: "unat (img_width v) * unat (bytes_per_pixel (img_format v)) < 2 ^ LENGTH(32)" by simp
  have 2: "unat (img_stride v) * unat (img_height v) < 2 ^ LENGTH(32)"
    using assms by (simp add: view_wf_def MAX_FRAME_BYTES_def)
  have "\<not> img_stride v < img_width v * bytes_per_pixel (img_format v)"
    using assms checked_mul_small [OF 1] by (simp add: word_less_nat_alt view_wf_def)
  moreover have "img_width v \<noteq> 0" "img_height v \<noteq> 0" "\<not> MAX_WIDTH < img_width v" "\<not> MAX_HEIGHT < img_height v"
    using assms by (auto simp: view_wf_def unat_pos word_less_nat_alt MAX_WIDTH_def MAX_HEIGHT_def)
  ultimately show ?thesis
    using assms checked_mul_small [OF 1] checked_mul_small [OF 2]
    by (cases v) (simp add: image_view_new_def view_wf_def)
qed

text \<open>
  An image view is accepted exactly when its dimensions are within 1920 by 1080 and not zero, a row fits the
  stride, and the frame has exactly stride times height bytes, at most 8294400: no product wraps around on the way.
\<close>

theorem image_view_exact:
  "image_view_new f w h s bs = Inr v
     \<longleftrightarrow> view_wf v \<and> v = \<lparr>img_format = f, img_width = w, img_height = h, img_stride = s, img_bytes = bs\<rparr>"
proof
  assume a: "image_view_new f w h s bs = Inr v"
  then have "v = \<lparr>img_format = f, img_width = w, img_height = h, img_stride = s, img_bytes = bs\<rparr>"
    by (auto simp: image_view_new_def rbind_eq_Inr split: if_splits)
  with image_view_new_wf [OF a] show "view_wf v \<and> v = \<lparr>img_format = f, img_width = w, img_height = h, img_stride = s, img_bytes = bs\<rparr>"
    by simp
next
  assume "view_wf v \<and> v = \<lparr>img_format = f, img_width = w, img_height = h, img_stride = s, img_bytes = bs\<rparr>"
  then show "image_view_new f w h s bs = Inr v" using image_view_new_complete [of v] by auto
qed

section \<open>The metrics never panic\<close>

lemma unat_u8_le: "unat (b :: u8) \<le> 255"
proof -
  have "unat b < 2 ^ LENGTH(8)" by (rule unsigned_less)
  then show ?thesis by simp
qed

lemma pixel_luma_Some:
  assumes "unat (bytes_per_pixel f) \<le> length bs"
  shows "\<exists>l. pixel_luma f bs = Some l \<and> l \<le> 255"
proof (cases f)
  case Gray8
  then show ?thesis using assms unat_u8_le by auto
next
  case Rgb8
  have "(unat (bs ! 0) * 77 + unat (bs ! 1) * 150 + unat (bs ! 2) * 29) div 256 \<le> 255"
    using unat_u8_le [of "bs ! 0"] unat_u8_le [of "bs ! 1"] unat_u8_le [of "bs ! 2"] by linarith
  then show ?thesis using assms Rgb8 by (simp add: Let_def)
next
  case Rgba8
  have "(unat (bs ! 0) * 77 + unat (bs ! 1) * 150 + unat (bs ! 2) * 29) div 256 \<le> 255"
    using unat_u8_le [of "bs ! 0"] unat_u8_le [of "bs ! 1"] unat_u8_le [of "bs ! 2"] by linarith
  then show ?thesis using assms Rgba8 by (simp add: Let_def)
qed

text \<open>After \<open>k\<close> pixels.\<close>

definition acc_inv :: "nat \<Rightarrow> quality_acc \<Rightarrow> bool" where
  "acc_inv k a \<longleftrightarrow> qa_max a \<le> 255 \<and> k * qa_min a \<le> qa_sum a \<and> qa_sum a \<le> k * qa_max a
     \<and> (0 < k \<longrightarrow> qa_min a \<le> qa_max a) \<and> qa_diff a \<le> qa_count a * 255"

lemma acc_inv_start: "acc_inv 0 quality_start"
  by (simp add: acc_inv_def quality_start_def)

lemma acc_inv_pixel:
  assumes "acc_inv k a" "luma \<le> 255" "\<And>p. previous = Some p \<Longrightarrow> p \<le> 255"
  shows "acc_inv (Suc k) (quality_pixel a previous luma)"
proof -
  have i: "k * qa_min a \<le> qa_sum a" "qa_sum a \<le> k * qa_max a" "qa_max a \<le> 255" "qa_diff a \<le> qa_count a * 255"
    using assms(1) by (simp_all add: acc_inv_def)
  have "k * min (qa_min a) luma \<le> k * qa_min a" by (rule mult_le_mono2) simp
  moreover have "min (qa_min a) luma \<le> luma" by simp
  ultimately have lo: "Suc k * min (qa_min a) luma \<le> qa_sum a + luma" unfolding mult_Suc using i(1) by linarith
  have "k * qa_max a \<le> k * max (qa_max a) luma" by (rule mult_le_mono2) simp
  moreover have "luma \<le> max (qa_max a) luma" by simp
  ultimately have hi: "qa_sum a + luma \<le> Suc k * max (qa_max a) luma" unfolding mult_Suc using i(2) by linarith
  have "abs_diff luma p \<le> 255" if "previous = Some p" for p
    using assms(2) assms(3) [OF that] by (auto simp: abs_diff_def)
  then show ?thesis
    using lo hi i(3,4) assms(2) by (auto simp: acc_inv_def quality_pixel_def Let_def split: option.split)
qed

lemma quality_row_total:
  "\<lbrakk>off + n * unat (bytes_per_pixel (img_format img)) \<le> length (img_bytes img); acc_inv k a;
    \<And>p. previous = Some p \<Longrightarrow> p \<le> 255\<rbrakk>
   \<Longrightarrow> \<exists>a'. quality_row img n off previous a = Some a' \<and> acc_inv (k + n) a'"
proof (induction n arbitrary: off k a previous)
  case (Suc n)
  have "unat (bytes_per_pixel (img_format img)) \<le> length (drop off (img_bytes img))" using Suc.prems(1) by simp
  then obtain l where l: "pixel_luma (img_format img) (drop off (img_bytes img)) = Some l" "l \<le> 255"
    using pixel_luma_Some by blast
  have "\<exists>a'. quality_row img n (off + unat (bytes_per_pixel (img_format img))) (Some l) (quality_pixel a previous l)
      = Some a' \<and> acc_inv (Suc k + n) a'"
    using Suc.prems l(2) by (intro Suc.IH acc_inv_pixel) (auto simp: algebra_simps)
  then show ?case using l by simp
qed simp

lemma quality_rows_total:
  "\<lbrakk>view_wf img; y + n = unat (img_height img); acc_inv (y * unat (img_width img)) a\<rbrakk>
   \<Longrightarrow> \<exists>r. quality_rows img c i n y a = Some r
     \<and> (\<forall>a' j. r = Inr (a', j) \<longrightarrow> j = i + n \<and> acc_inv (unat (img_height img) * unat (img_width img)) a')"
proof (induction n arbitrary: i y a)
  case (Suc n)
  let ?w = "unat (img_width img)" and ?s = "unat (img_stride img)"
  have "(y + 1) * ?s \<le> unat (img_height img) * ?s" using Suc.prems(2) by (intro mult_le_mono1) simp
  then have "y * ?s + ?w * unat (bytes_per_pixel (img_format img)) \<le> length (img_bytes img)"
    using Suc.prems(1) by (simp add: view_wf_def algebra_simps)
  with quality_row_total [OF this Suc.prems(3), of None] obtain a' where
    a': "quality_row img ?w (y * ?s) None a = Some a'" "acc_inv (y * ?w + ?w) a'" by auto
  from Suc.IH [of "Suc y" a' "Suc i"] Suc.prems a'(2)
  have "\<exists>r. quality_rows img c (Suc i) n (Suc y) a' = Some r
     \<and> (\<forall>a' j. r = Inr (a', j) \<longrightarrow> j = Suc i + n \<and> acc_inv (unat (img_height img) * ?w) a')"
    by (simp add: algebra_simps)
  then show ?case using a'(1) by (cases "control_check c i") auto
qed simp

lemma quality_result:
  assumes "view_wf img" "acc_inv (unat (img_height img) * unat (img_width img)) a"
  shows "0 < unat (img_width img) * unat (img_height img)"
    "qa_sum a div (unat (img_width img) * unat (img_height img)) \<le> 255" "qa_min a \<le> qa_max a"
    "(if qa_count a = 0 then 0 else qa_diff a div qa_count a) \<le> 255"
proof -
  let ?n = "unat (img_width img) * unat (img_height img)"
  show n: "0 < ?n" using assms(1) by (simp add: view_wf_def)
  have i: "qa_sum a \<le> ?n * qa_max a" "qa_max a \<le> 255" "qa_diff a \<le> qa_count a * 255"
    using assms(2) by (simp_all add: acc_inv_def mult.commute)
  show "qa_min a \<le> qa_max a" using assms(2) n by (simp add: acc_inv_def mult.commute)
  have "qa_sum a \<le> ?n * 255" using i(1,2) by (meson le_trans mult_le_mono2)
  then show "qa_sum a div ?n \<le> 255" using div_le_mono [of "qa_sum a" "?n * 255" ?n] n by simp
  show "(if qa_count a = 0 then 0 else qa_diff a div qa_count a) \<le> 255"
    using div_le_mono [OF i(3), of "qa_count a"] by (auto split: if_splits)
qed

lemma quality_flags_zero: "quality_flags b con sh = 0 \<longleftrightarrow> 20 \<le> b \<and> b \<le> 220 \<and> 16 \<le> con \<and> 1 \<le> sh"
  by (auto simp: quality_flags_def QUALITY_TOO_DARK_def QUALITY_TOO_BRIGHT_def QUALITY_LOW_CONTRAST_def
      QUALITY_LOW_SHARPNESS_def)

lemma u8_of_nat_cmp:
  assumes "n \<le> 255"
  shows "(numeral k :: u8) \<le> word_of_nat n \<longleftrightarrow> unat (numeral k :: u8) \<le> n"
    "(1 :: u8) \<le> word_of_nat n \<longleftrightarrow> 1 \<le> n"
    "(word_of_nat n :: u8) \<le> numeral k \<longleftrightarrow> n \<le> unat (numeral k :: u8)"
  using assms by (simp_all add: word_le_nat_alt)


lemma calculate_quality_run:
  assumes wf: "view_wf img"
  shows "\<exists>r. calculate_quality img c i = Some r
    \<and> (\<forall>q j. r = Inr (q, j) \<longrightarrow>
         j = i + unat (img_height img) + 1
         \<and> (flags q = 0 \<longleftrightarrow> 20 \<le> brightness q \<and> brightness q \<le> 220 \<and> 16 \<le> contrast q \<and> 1 \<le> sharpness q))"
proof -
  let ?n = "unat (img_width img) * unat (img_height img)"
  from quality_rows_total [OF wf, of 0 "unat (img_height img)" quality_start c i] acc_inv_start
  obtain r where r: "quality_rows img c i (unat (img_height img)) 0 quality_start = Some r"
    "\<And>a j. r = Inr (a, j) \<Longrightarrow> j = i + unat (img_height img) \<and> acc_inv (unat (img_height img) * unat (img_width img)) a"
    by auto
  show ?thesis
  proof (cases r)
    case (Inl e)
    with r(1) show ?thesis by (simp add: calculate_quality_def)
  next
    case (Inr aj)
    obtain a j where aj: "aj = (a, j)" by (cases aj)
    with r(2) Inr have j: "j = i + unat (img_height img)"
      and inv: "acc_inv (unat (img_height img) * unat (img_width img)) a" by auto
    note q = quality_result [OF wf inv]
    define con where "con = qa_max a - qa_min a"
    define b where "b = qa_sum a div ?n"
    define sh where "sh = (if qa_count a = 0 then 0 else qa_diff a div qa_count a)"
    have le: "con \<le> 255" "b \<le> 255" "sh \<le> 255"
      using inv q by (auto simp: acc_inv_def con_def b_def sh_def)
    show ?thesis
    proof (cases "control_check c j")
      case (Inl e)
      with r(1) Inr aj show ?thesis by (simp add: calculate_quality_def)
    next
      case check: (Inr u)
      have "calculate_quality img c i = Some (Inr (\<lparr>brightness = word_of_nat b, contrast = word_of_nat con,
          sharpness = word_of_nat sh, flags = quality_flags b con sh\<rparr>, Suc j))"
        using r(1) Inr aj check q le unfolding con_def b_def sh_def
        by (simp add: calculate_quality_def Let_def not_less)
      then show ?thesis using le j by (simp add: quality_flags_zero u8_of_nat_cmp)
    qed
  qed
qed

text \<open>
  Claim C23: on an accepted image the quality computation never panics: no pixel access is out of range and no average
  leaves the range of a byte. It returns the first failed check, or metrics whose flags are clear exactly when the
  brightness is within 20 to 220, the contrast at least 16 and the sharpness at least 1.
\<close>

theorem calculate_quality_total:
  assumes "image_view_new f w h s bs = Inr img"
  shows "\<exists>r. calculate_quality img c i = Some r
    \<and> (\<forall>q j. r = Inr (q, j) \<longrightarrow>
         j = i + unat (img_height img) + 1
         \<and> (flags q = 0 \<longleftrightarrow> 20 \<le> brightness q \<and> brightness q \<le> 220 \<and> 16 \<le> contrast q \<and> 1 \<le> sharpness q))"
  by (rule calculate_quality_run [OF image_view_new_wf [OF assms]])

definition tiny_image :: image_view where
  "tiny_image = \<lparr>img_format = Gray8, img_width = 2, img_height = 1, img_stride = 2, img_bytes = [10, 200]\<rparr>"

lemma tiny_image_ok: "image_view_new Gray8 2 1 2 [10, 200] = Inr tiny_image"
  by (simp add: image_view_new_def tiny_image_def checked_mul_def MAX_WIDTH_def MAX_HEIGHT_def MAX_FRAME_BYTES_def)

theorem calculate_quality_total_witness:
  "\<exists>r. calculate_quality tiny_image \<lparr>ctl_deadline = 5, ctl_cancelled = (\<lambda>_. False), ctl_clock = (\<lambda>_. 1)\<rparr> 0 = Some r
    \<and> image_view_new Gray8 2 1 2 [10, 200] = Inr tiny_image"
  using calculate_quality_total [OF tiny_image_ok] tiny_image_ok by blast

end
