(* ===== verification/Soft_Float.thy ===== *)
theory Soft_Float
  imports Prelude Complex_Main
begin

text \<open>
  IEEE 754 binary32 and binary64 arithmetic as the Rust sources use it. A floating-point value is
  a NaN, a signed infinity, or a sign and a rational magnitude; every operation computes exactly
  and then rounds to nearest, ties to even, at the precision and the minimal exponent of its
  format. The rounding is proved monotone and exact on representable values, which is what the
  clients of this theory rest on. \<^verbatim>\<open>f32\<close> values are kept as their 32 bits.
\<close>

section \<open>Binary exponents\<close>

fun bit_len :: "nat \<Rightarrow> nat" where
  "bit_len n = (if n = 0 then 0 else Suc (bit_len (n div 2)))"

declare bit_len.simps [simp del]

lemma bit_len_bounds: "0 < n \<Longrightarrow> 0 < bit_len n \<and> 2 ^ (bit_len n - 1) \<le> n \<and> n < 2 ^ bit_len n"
proof (induction n rule: bit_len.induct)
  case (1 n)
  show ?case
  proof (cases "n div 2 = 0")
    case True
    with "1.prems" have "n = 1" by auto
    then show ?thesis by (simp add: bit_len.simps)
  next
    case False
    define k where "k = bit_len (n div 2)"
    from "1.IH" False "1.prems" have b: "0 < k" "2 ^ (k - 1) \<le> n div 2" "n div 2 < 2 ^ k"
      by (auto simp: k_def)
    have s: "bit_len n = Suc k" using "1.prems" by (subst bit_len.simps) (simp add: k_def)
    have "2 * (n div 2) \<le> n" "n < 2 * (n div 2) + 2" by simp_all
    moreover have "2 * 2 ^ (k - 1) = (2 :: nat) ^ k" using b(1) by (cases k) auto
    moreover have "2 * (n div 2) + 2 \<le> 2 * 2 ^ k" using b(3) by simp
    ultimately have "2 ^ k \<le> n" "n < 2 * 2 ^ k" using b(2) by linarith+
    with s show ?thesis by simp
  qed
qed

text \<open>\<open>ilog2 q\<close> is the exponent of the binade of a positive rational.\<close>

definition ilog2 :: "rat \<Rightarrow> int" where
  "ilog2 q =
     (let (a, b) = quotient_of q;
          k = int (bit_len (nat a)) - int (bit_len (nat b))
      in if 2 powi k \<le> q then k else k - 1)"

lemma powi_two_pos [simp]: "0 < (2 :: rat) powi k"
  by (rule zero_less_power_int) simp

lemma powi_two_mono: "a \<le> b \<Longrightarrow> (2 :: rat) powi a \<le> 2 powi b"
  by (rule power_int_increasing) simp_all

lemma powi_two_add: "(2 :: rat) powi (a + b) = 2 powi a * 2 powi b"
  by (rule power_int_add) simp

lemma powi_two_less_cancel: "(2 :: rat) powi a < 2 powi b \<Longrightarrow> a < b"
  by (metis linorder_not_le powi_two_mono)

lemma ilog2_bounds:
  assumes "0 < q"
  shows "2 powi ilog2 q \<le> q" "q < 2 powi (ilog2 q + 1)"
proof -
  obtain a b where ab: "quotient_of q = (a, b)" by fastforce
  have b: "0 < b" using quotient_of_denom_pos [OF ab] .
  have q: "q = of_int a / of_int b" using quotient_of_div [OF ab] .
  with assms b have a: "0 < a" by (simp add: zero_less_divide_iff)
  define la lb where "la = int (bit_len (nat a))" and "lb = int (bit_len (nat b))"
  have pw: "(2 :: rat) powi int n = of_nat (2 ^ n)" for n by simp
  have A: "2 powi (la - 1) \<le> (of_int a :: rat)" "(of_int a :: rat) < 2 powi la"
    if "0 < a" "la = int (bit_len (nat a))" for a la
  proof -
    note bl = bit_len_bounds [of "nat a"]
    have z: "0 < bit_len (nat a)" using bl that by simp
    have "la - 1 = int (bit_len (nat a) - 1)" using z that by simp
    then have "(2 :: rat) powi (la - 1) = of_nat (2 ^ (bit_len (nat a) - 1))" by (simp only: pw)
    also have "\<dots> \<le> of_nat (nat a)" using bl that by (simp only: of_nat_le_iff)
    finally show "2 powi (la - 1) \<le> (of_int a :: rat)" using that by simp
    have "(of_nat (nat a) :: rat) < of_nat (2 ^ bit_len (nat a))"
      using bl that by (simp only: of_nat_less_iff)
    then show "(of_int a :: rat) < 2 powi la" using that by (simp add: pw [symmetric])
  qed
  note Aa = A [OF a la_def] and Ab = A [OF b lb_def]
  have up: "q < 2 powi (la - lb + 1)"
  proof -
    have "(of_int a :: rat) < 2 powi la" using Aa by simp
    also have "(2 :: rat) powi la = 2 powi (la - lb + 1) * 2 powi (lb - 1)"
      by (simp add: powi_two_add [symmetric])
    also have "\<dots> \<le> 2 powi (la - lb + 1) * of_int b" using Ab(1) by (simp add: mult_left_mono)
    finally show ?thesis using b by (simp add: q divide_less_eq)
  qed
  have lo: "2 powi (la - lb - 1) \<le> q"
  proof -
    have "2 powi (la - lb - 1) * (of_int b :: rat) \<le> 2 powi (la - lb - 1) * 2 powi lb"
      using Ab(2) by (intro mult_left_mono) simp_all
    also have "\<dots> = 2 powi (la - 1)" by (simp add: powi_two_add [symmetric])
    also have "\<dots> \<le> of_int a" by (rule Aa(1))
    finally show ?thesis using b by (simp add: q le_divide_eq)
  qed
  have il: "ilog2 q = (if 2 powi (la - lb) \<le> q then la - lb else la - lb - 1)"
    by (simp add: ilog2_def ab la_def lb_def Let_def)
  show "2 powi ilog2 q \<le> q" using lo by (simp add: il)
  show "q < 2 powi (ilog2 q + 1)" using up by (simp add: il)
qed

lemma ilog2_mono: "0 < x \<Longrightarrow> x \<le> y \<Longrightarrow> ilog2 x \<le> ilog2 y"
  using ilog2_bounds [of x] ilog2_bounds [of y] powi_two_less_cancel [of "ilog2 x" "ilog2 y + 1"]
  by (simp add: order.strict_trans1 order.strict_trans2) 

section \<open>Rounding\<close>

definition round_half_even :: "rat \<Rightarrow> int" where
  "round_half_even q =
     (let f = \<lfloor>q\<rfloor>; r = q - of_int f in
      if r < 1 / 2 then f else if 1 / 2 < r then f + 1 else if even f then f else f + 1)"

lemma round_half_even_bounds:
  "\<lfloor>q\<rfloor> \<le> round_half_even q" "round_half_even q \<le> \<lfloor>q\<rfloor> + 1"
  by (simp_all add: round_half_even_def Let_def)

lemma round_half_even_of_int [simp]: "round_half_even (of_int n) = n"
  by (simp add: round_half_even_def)

lemma round_half_even_mono: "x \<le> y \<Longrightarrow> round_half_even x \<le> round_half_even y"
proof (cases "\<lfloor>x\<rfloor> = \<lfloor>y\<rfloor>")
  case True
  moreover assume "x \<le> y"
  ultimately show ?thesis by (auto simp: round_half_even_def Let_def)
next
  case False
  assume "x \<le> y"
  with False have "\<lfloor>x\<rfloor> + 1 \<le> \<lfloor>y\<rfloor>" using floor_mono [of x y] by linarith
  then show ?thesis
    using round_half_even_bounds(2) [of x] round_half_even_bounds(1) [of y] by linarith
qed

text \<open>Rounding a nonnegative rational at precision \<open>p\<close> with least exponent \<open>emin\<close>.\<close>

definition quantum :: "nat \<Rightarrow> int \<Rightarrow> rat \<Rightarrow> int" where
  "quantum p emin q = max (ilog2 q - (int p - 1)) emin"

definition rnd :: "nat \<Rightarrow> int \<Rightarrow> rat \<Rightarrow> rat" where
  "rnd p emin q =
     (if q = 0 then 0
      else let e = quantum p emin q in of_int (round_half_even (q / 2 powi e)) * 2 powi e)"

definition representable :: "nat \<Rightarrow> int \<Rightarrow> rat \<Rightarrow> bool" where
  "representable p emin v \<longleftrightarrow> (\<exists>(m :: nat) e. m < 2 ^ p \<and> emin \<le> e \<and> v = of_nat m * 2 powi e)"

lemma rnd_0 [simp]: "rnd p emin 0 = 0"
  by (simp add: rnd_def)

lemma rnd_upper:
  assumes "0 < x"
  shows "rnd p emin x \<le> 2 powi (int p + quantum p emin x)"
proof -
  let ?e = "quantum p emin x"
  have "x < 2 powi (ilog2 x + 1)" by (rule ilog2_bounds(2) [OF assms])
  also have "\<dots> \<le> 2 powi (int p + ?e)" by (rule powi_two_mono) (simp add: quantum_def)
  finally have "x / 2 powi ?e \<le> of_int (2 ^ p)"
    by (simp add: divide_le_eq powi_two_add)
  then have "round_half_even (x / 2 powi ?e) \<le> 2 ^ p"
    using round_half_even_mono [of "x / 2 powi ?e" "of_int (2 ^ p)"] by (simp only: round_half_even_of_int)
  then have "of_int (round_half_even (x / 2 powi ?e)) \<le> (of_int (2 ^ p) :: rat)"
    by (simp only: of_int_le_iff)
  then have "of_int (round_half_even (x / 2 powi ?e)) \<le> (2 :: rat) powi int p" by simp
  then show ?thesis using assms by (simp add: rnd_def Let_def powi_two_add mult_right_mono)
qed

lemma rnd_lower:
  assumes "0 < y" "0 < p" "quantum p emin y = ilog2 y - (int p - 1)"
  shows "2 powi ilog2 y \<le> rnd p emin y"
proof -
  let ?e = "quantum p emin y"
  have pw: "of_int (2 ^ (p - 1)) * (2 :: rat) powi ?e = 2 powi ilog2 y"
  proof -
    have "(of_int (2 ^ (p - 1)) :: rat) = 2 powi int (p - 1)" by simp
    also have "\<dots> * 2 powi ?e = 2 powi (int (p - 1) + ?e)" by (rule powi_two_add [symmetric])
    also have "int (p - 1) + ?e = ilog2 y" using assms(2) by (simp add: assms(3) of_nat_diff)
    finally show ?thesis .
  qed
  also have "\<dots> \<le> y" by (rule ilog2_bounds(1) [OF assms(1)])
  finally have "of_int (2 ^ (p - 1)) \<le> y / 2 powi ?e" by (simp add: le_divide_eq)
  then have "2 ^ (p - 1) \<le> round_half_even (y / 2 powi ?e)"
    using round_half_even_mono [of "of_int (2 ^ (p - 1))" "y / 2 powi ?e"]
    by (simp only: round_half_even_of_int)
  then have "(of_int (2 ^ (p - 1)) :: rat) \<le> of_int (round_half_even (y / 2 powi ?e))"
    by (simp only: of_int_le_iff)
  then have "of_int (2 ^ (p - 1)) * (2 :: rat) powi ?e \<le> rnd p emin y"
    using assms(1) by (simp add: rnd_def Let_def mult_right_mono)
  then show ?thesis using pw by simp
qed

lemma rnd_nonneg: "0 \<le> x \<Longrightarrow> 0 \<le> rnd p emin x"
proof -
  assume "0 \<le> x"
  then have "0 \<le> x / 2 powi quantum p emin x" by simp
  then have "0 \<le> round_half_even (x / 2 powi quantum p emin x)"
    using round_half_even_mono [of 0 "x / 2 powi quantum p emin x"] round_half_even_of_int [of 0] by simp
  then show ?thesis by (simp add: rnd_def Let_def)
qed

lemma rnd_mono:
  assumes "0 < p" "0 \<le> x" "x \<le> y"
  shows "rnd p emin x \<le> rnd p emin y"
proof (cases "x = 0")
  case True
  then show ?thesis using assms rnd_nonneg [of y p emin] by simp
next
  case False
  with assms have pos: "0 < x" "0 < y" by auto
  let ?ex = "quantum p emin x" and ?ey = "quantum p emin y"
  have le: "?ex \<le> ?ey" using ilog2_mono [OF pos(1) assms(3)] by (auto simp: quantum_def)
  show ?thesis
  proof (cases "?ex = ?ey")
    case True
    have "x / 2 powi ?ey \<le> y / 2 powi ?ey" using assms(3) by (simp add: divide_right_mono)
    with True pos show ?thesis
      by (simp add: rnd_def Let_def mult_right_mono round_half_even_mono)
  next
    case False
    with le have q: "?ey = ilog2 y - (int p - 1)" by (auto simp: quantum_def)
    have "rnd p emin x \<le> 2 powi (int p + ?ex)" by (rule rnd_upper [OF pos(1)])
    also have "\<dots> \<le> 2 powi ilog2 y" using False le q by (intro powi_two_mono) simp
    also have "\<dots> \<le> rnd p emin y" by (rule rnd_lower [OF pos(2) assms(1) q])
    finally show ?thesis .
  qed
qed

lemma rnd_representable:
  assumes "representable p emin v"
  shows "rnd p emin v = v"
proof (cases "v = 0")
  case False
  from assms obtain m :: nat and e where me: "m < 2 ^ p" "emin \<le> e" "v = of_nat m * 2 powi e"
    by (auto simp: representable_def)
  with False have pos: "0 < v" by (simp add: zero_less_mult_iff)
  have "(of_nat m :: rat) < of_nat (2 ^ p)" using me(1) by (simp only: of_nat_less_iff)
  then have "v < 2 powi (int p + e)" by (simp add: me(3) powi_two_add)
  with ilog2_bounds(1) [OF pos] have "ilog2 v < int p + e"
    by (meson le_less_trans powi_two_less_cancel)
  then have q: "quantum p emin v \<le> e" using me(2) by (simp add: quantum_def)
  let ?q = "quantum p emin v"
  have pw: "(2 :: rat) ^ nat (e - ?q) * 2 powi ?q = 2 powi e"
  proof -
    have "(2 :: rat) ^ nat (e - ?q) = 2 powi (e - ?q)" using q by (simp add: power_int_def)
    then show ?thesis by (simp add: powi_two_add [symmetric])
  qed
  have nz: "(2 :: rat) powi ?q \<noteq> 0" using powi_two_pos [of ?q] by simp
  have "v / 2 powi ?q = of_int (int m * 2 ^ nat (e - ?q))"
    using nz pw by (simp add: divide_eq_eq me(3) mult.assoc)
  then have "rnd p emin v = of_int (int m * 2 ^ nat (e - ?q)) * 2 powi ?q"
    using False by (simp only: rnd_def Let_def round_half_even_of_int if_False)
  then show ?thesis using pw by (simp add: me(3) mult.assoc)
qed simp

section \<open>Floating-point values and operations\<close>

text \<open>\<open>Fin s m\<close> has sign \<open>s\<close> (true for negative) and magnitude \<open>m\<close>, so that the two zeros differ.\<close>

datatype fl = NaN | Inf bool | Fin bool rat

fun fl_value :: "fl \<Rightarrow> rat" where
  "fl_value (Fin s m) = (if s then - m else m)"
| "fl_value _ = 0"

fun is_finite :: "fl \<Rightarrow> bool" where
  "is_finite (Fin s m) = True"
| "is_finite _ = False"

definition fin64 :: "bool \<Rightarrow> rat \<Rightarrow> fl" where
  "fin64 s m = (let r = rnd 53 (-1074) m in if 2 powi 1024 \<le> r then Inf s else Fin s r)"

definition fin32 :: "bool \<Rightarrow> rat \<Rightarrow> fl" where
  "fin32 s m = (let r = rnd 24 (-149) m in if 2 powi 128 \<le> r then Inf s else Fin s r)"

definition round64 :: "bool \<Rightarrow> rat \<Rightarrow> fl" where
  "round64 zero_sign q = (if q = 0 then Fin zero_sign 0 else fin64 (q < 0) \<bar>q\<bar>)"

text \<open>A decimal literal of the source denotes the nearest value.\<close>

definition lit64 :: "rat \<Rightarrow> fl" where
  "lit64 q = round64 False q"

fun f64_neg :: "fl \<Rightarrow> fl" where
  "f64_neg NaN = NaN"
| "f64_neg (Inf s) = Inf (\<not> s)"
| "f64_neg (Fin s m) = Fin (\<not> s) m"

fun f64_abs :: "fl \<Rightarrow> fl" where
  "f64_abs NaN = NaN"
| "f64_abs (Inf s) = Inf False"
| "f64_abs (Fin s m) = Fin False m"

fun f64_add :: "fl \<Rightarrow> fl \<Rightarrow> fl" where
  "f64_add NaN _ = NaN"
| "f64_add _ NaN = NaN"
| "f64_add (Inf s) (Inf t) = (if s = t then Inf s else NaN)"
| "f64_add (Inf s) (Fin _ _) = Inf s"
| "f64_add (Fin _ _) (Inf t) = Inf t"
| "f64_add (Fin s m) (Fin t n) = round64 (s \<and> t) (fl_value (Fin s m) + fl_value (Fin t n))"

definition f64_sub :: "fl \<Rightarrow> fl \<Rightarrow> fl" where
  "f64_sub a b = f64_add a (f64_neg b)"

fun f64_mul :: "fl \<Rightarrow> fl \<Rightarrow> fl" where
  "f64_mul NaN _ = NaN"
| "f64_mul _ NaN = NaN"
| "f64_mul (Inf s) (Inf t) = Inf (s \<noteq> t)"
| "f64_mul (Inf s) (Fin t n) = (if n = 0 then NaN else Inf (s \<noteq> t))"
| "f64_mul (Fin s m) (Inf t) = (if m = 0 then NaN else Inf (s \<noteq> t))"
| "f64_mul (Fin s m) (Fin t n) = fin64 (s \<noteq> t) (m * n)"

fun f64_div :: "fl \<Rightarrow> fl \<Rightarrow> fl" where
  "f64_div NaN _ = NaN"
| "f64_div _ NaN = NaN"
| "f64_div (Inf s) (Inf t) = NaN"
| "f64_div (Inf s) (Fin t n) = Inf (s \<noteq> t)"
| "f64_div (Fin s m) (Inf t) = Fin (s \<noteq> t) 0"
| "f64_div (Fin s m) (Fin t n) =
     (if n = 0 then (if m = 0 then NaN else Inf (s \<noteq> t)) else fin64 (s \<noteq> t) (m / n))"

text \<open>The comparison operators are false on a NaN.\<close>

fun f64_le :: "fl \<Rightarrow> fl \<Rightarrow> bool" where
  "f64_le NaN _ = False"
| "f64_le _ NaN = False"
| "f64_le (Inf s) (Inf t) = (s \<or> \<not> t)"
| "f64_le (Inf s) (Fin _ _) = s"
| "f64_le (Fin _ _) (Inf t) = (\<not> t)"
| "f64_le (Fin s m) (Fin t n) = (fl_value (Fin s m) \<le> fl_value (Fin t n))"

fun f64_lt :: "fl \<Rightarrow> fl \<Rightarrow> bool" where
  "f64_lt NaN _ = False"
| "f64_lt _ NaN = False"
| "f64_lt (Inf s) (Inf t) = (s \<and> \<not> t)"
| "f64_lt (Inf s) (Fin _ _) = s"
| "f64_lt (Fin _ _) (Inf t) = (\<not> t)"
| "f64_lt (Fin s m) (Fin t n) = (fl_value (Fin s m) < fl_value (Fin t n))"

definition f64_clamp :: "fl \<Rightarrow> fl \<Rightarrow> fl \<Rightarrow> fl" where
  "f64_clamp x lo hi = (if f64_lt x lo then lo else if f64_lt hi x then hi else x)"

text \<open>The single-precision operations the pose tracker uses.\<close>

definition round32 :: "bool \<Rightarrow> rat \<Rightarrow> fl" where
  "round32 zero_sign q = (if q = 0 then Fin zero_sign 0 else fin32 (q < 0) \<bar>q\<bar>)"

definition lit32 :: "rat \<Rightarrow> fl" where
  "lit32 q = round32 False q"

fun f32_add :: "fl \<Rightarrow> fl \<Rightarrow> fl" where
  "f32_add (Fin s m) (Fin t n) = round32 (s \<and> t) (fl_value (Fin s m) + fl_value (Fin t n))"
| "f32_add a b = f64_add a b"

definition f32_sub :: "fl \<Rightarrow> fl \<Rightarrow> fl" where
  "f32_sub a b = f32_add a (f64_neg b)"

fun f32_mul :: "fl \<Rightarrow> fl \<Rightarrow> fl" where
  "f32_mul (Fin s m) (Fin t n) = fin32 (s \<noteq> t) (m * n)"
| "f32_mul a b = f64_mul a b"

text \<open>\<^verbatim>\<open>Iterator::sum\<close> over \<^verbatim>\<open>f64\<close> folds from negative zero.\<close>

definition f64_sum :: "fl list \<Rightarrow> fl" where
  "f64_sum xs = foldl f64_add (Fin True 0) xs"

definition f64_midpoint :: "fl \<Rightarrow> fl \<Rightarrow> fl" where
  "f64_midpoint a b =
     (let two = Fin False 2;
          lo = Fin False (2 powi (-1021));
          hi = Fin False ((2 - 2 powi (-52)) * 2 powi 1022)
      in if f64_le (f64_abs a) hi \<and> f64_le (f64_abs b) hi then f64_div (f64_add a b) two
         else if f64_lt (f64_abs a) lo then f64_add a (f64_div b two)
         else if f64_lt (f64_abs b) lo then f64_add (f64_div a two) b
         else f64_add (f64_div a two) (f64_div b two))"

fun isqrt :: "nat \<Rightarrow> nat" where
  "isqrt n =
     (if n = 0 then 0
      else let r = 2 * isqrt (n div 4) in if (r + 1) * (r + 1) \<le> n then r + 1 else r)"

declare isqrt.simps [simp del]

definition sqrt_fin :: "rat \<Rightarrow> rat" where
  "sqrt_fin m =
     (let e = ilog2 m div 2 - 52;
          t = m / 2 powi (2 * e);
          r = isqrt (nat \<lfloor>t\<rfloor>);
          h = (of_nat r + 1 / 2) * (of_nat r + 1 / 2)
      in of_nat (if t < h then r else if h < t then r + 1 else if even r then r else r + 1)
           * 2 powi e)"

fun f64_sqrt :: "fl \<Rightarrow> fl" where
  "f64_sqrt NaN = NaN"
| "f64_sqrt (Inf s) = (if s then NaN else Inf False)"
| "f64_sqrt (Fin s m) = (if m = 0 then Fin s 0 else if s then NaN else Fin False (sqrt_fin m))"

text \<open>
  \<^verbatim>\<open>f64::total_cmp\<close> as a linear order: negative infinity, the finite values with the negative zero
  below the positive one, positive infinity. A NaN is placed on top; the lemmas of the clients
  show that none reaches a comparison.
\<close>

fun fl_rank :: "fl \<Rightarrow> int \<times> rat \<times> int" where
  "fl_rank (Inf s) = (if s then 0 else 2, 0, 0)"
| "fl_rank (Fin s m) = (1, fl_value (Fin s m), if s then 0 else 1)"
| "fl_rank NaN = (3, 0, 0)"

definition rank_le :: "int \<times> rat \<times> int \<Rightarrow> int \<times> rat \<times> int \<Rightarrow> bool" where
  "rank_le a b \<longleftrightarrow>
     (case (a, b) of ((i, q, z), (j, r, w)) \<Rightarrow> i < j \<or> i = j \<and> (q < r \<or> q = r \<and> z \<le> w))"

lemma fl_rank_inject: "fl_rank a = fl_rank b \<Longrightarrow> a = b"
  by (cases a; cases b) (auto split: if_splits)

instantiation fl :: linorder
begin

definition less_eq_fl :: "fl \<Rightarrow> fl \<Rightarrow> bool" where
  "less_eq_fl a b \<longleftrightarrow> rank_le (fl_rank a) (fl_rank b)"

definition less_fl :: "fl \<Rightarrow> fl \<Rightarrow> bool" where
  "less_fl a b \<longleftrightarrow> \<not> rank_le (fl_rank b) (fl_rank a)"

instance
proof
  fix x y z :: fl
  show "x \<le> x" by (simp add: less_eq_fl_def rank_le_def split: prod.split)
  show "(x < y) = (x \<le> y \<and> \<not> y \<le> x)"
    by (auto simp: less_eq_fl_def less_fl_def rank_le_def split: prod.split)
  show "x \<le> y \<Longrightarrow> y \<le> z \<Longrightarrow> x \<le> z"
    by (auto simp: less_eq_fl_def rank_le_def split: prod.splits)
  show "x \<le> y \<Longrightarrow> y \<le> x \<Longrightarrow> x = y"
    by (rule fl_rank_inject) (auto simp: less_eq_fl_def rank_le_def split: prod.splits)
  show "x \<le> y \<or> y \<le> x" by (auto simp: less_eq_fl_def rank_le_def split: prod.splits)
qed

end

section \<open>Binary32 values as bits\<close>

definition f32_decode :: "u32 \<Rightarrow> fl" where
  "f32_decode w =
     (let n = unat w; s = (2 ^ 31 \<le> n); ex = (n div 2 ^ 23) mod 256; m = n mod 2 ^ 23 in
      if ex = 255 then (if m = 0 then Inf s else NaN)
      else if ex = 0 then Fin s (of_nat m * 2 powi (-149))
      else Fin s (of_nat (2 ^ 23 + m) * 2 powi (int ex - 150)))"

definition f32_bits :: "bool \<Rightarrow> rat \<Rightarrow> u32" where
  "f32_bits s m =
     (let sign = (if s then 2 ^ 31 else 0) in
      if m = 0 then word_of_nat sign
      else let e = quantum 24 (-149) m; k = nat \<lfloor>m / 2 powi e\<rfloor> in
        word_of_nat (sign + (if k < 2 ^ 23 then k else nat (e + 150) * 2 ^ 23 + (k - 2 ^ 23))))"

fun f32_encode :: "fl \<Rightarrow> u32" where
  "f32_encode NaN = 0x7FC00000"
| "f32_encode (Inf s) = (if s then 0xFF800000 else 0x7F800000)"
| "f32_encode (Fin s m) = f32_bits s m"

text \<open>The cast \<^verbatim>\<open>x as f32\<close> of a binary64 value.\<close>

definition f64_as_f32 :: "fl \<Rightarrow> u32" where
  "f64_as_f32 x = f32_encode (case x of Fin s m \<Rightarrow> fin32 s m | y \<Rightarrow> y)"

section \<open>Values of rounded results\<close>

definition r64 :: "rat \<Rightarrow> rat" where
  "r64 q = (if 0 \<le> q then rnd 53 (-1074) q else - rnd 53 (-1074) (- q))"

definition rep64 :: "rat \<Rightarrow> bool" where
  "rep64 v \<longleftrightarrow> representable 53 (-1074) \<bar>v\<bar>"

lemma r64_mono: "x \<le> y \<Longrightarrow> r64 x \<le> r64 y"
  using rnd_mono [of 53 x y "-1074"] rnd_mono [of 53 "- y" "- x" "-1074"]
    rnd_nonneg [of y 53 "-1074"] rnd_nonneg [of "- x" 53 "-1074"]
  by (auto simp: r64_def)

lemma r64_rep: "rep64 v \<Longrightarrow> r64 v = v"
  using rnd_representable [of 53 "-1074" "\<bar>v\<bar>"]
  by (cases "0 \<le> v") (simp_all add: r64_def rep64_def)

lemma r64_between: "rep64 a \<Longrightarrow> rep64 b \<Longrightarrow> a \<le> q \<Longrightarrow> q \<le> b \<Longrightarrow> a \<le> r64 q \<and> r64 q \<le> b"
  using r64_mono [of a q] r64_mono [of q b] by (simp add: r64_rep)

lemma rep64_nat: "n < 2 ^ 53 \<Longrightarrow> rep64 (of_nat n)"
  by (auto simp: rep64_def representable_def intro!: exI [of _ n] exI [of _ "0 :: int"])

lemma rep64_minus [simp]: "rep64 (- v) \<longleftrightarrow> rep64 v"
  by (simp add: rep64_def)

lemma r64_abs_le: "rep64 b \<Longrightarrow> \<bar>q\<bar> \<le> b \<Longrightarrow> \<bar>r64 q\<bar> \<le> b"
  using r64_between [of "- b" b q] by (simp add: abs_le_iff)

lemma rep64_0_1 [simp]: "rep64 0" "rep64 1"
  using rep64_nat [of 0] rep64_nat [of 1] by simp_all

lemma rep64_numeral: "(numeral n :: nat) < 2 ^ 53 \<Longrightarrow> rep64 (numeral n)"
  using rep64_nat [of "numeral n"] by simp

lemma fin64_small:
  assumes "0 \<le> m" "m \<le> 2 powi 1000"
  shows "fin64 s m = Fin s (r64 m)"
proof -
  have "representable 53 (-1074) (2 powi 1000)"
    unfolding representable_def by (rule exI [of _ 1], rule exI [of _ 1000]) simp
  then have "rnd 53 (-1074) m \<le> 2 powi 1000"
    using rnd_mono [of 53 m "2 powi 1000" "-1074"] assms by (simp only: rnd_representable zero_less_numeral)
  also have "\<dots> < (2 :: rat) powi 1024" by (rule power_int_strict_increasing) simp_all
  finally show ?thesis using assms by (simp add: fin64_def Let_def r64_def)
qed

lemma r64_0 [simp]: "r64 0 = 0"
  by (simp add: r64_def)

lemma r64_minus: "r64 (- q) = - r64 q"
  by (cases "q = 0") (auto simp: r64_def)

lemma r64_sign: "0 \<le> q \<Longrightarrow> 0 \<le> r64 q"
  using r64_mono [of 0 q] by simp

lemma round64_small:
  "\<bar>q\<bar> \<le> 2 powi 1000 \<Longrightarrow> is_finite (round64 z q) \<and> fl_value (round64 z q) = r64 q"
  using r64_minus [of q] by (auto simp: round64_def fin64_small)

text \<open>
  Finite operands whose exact result is far from overflow: the value of the result is the exact
  result, rounded.
\<close>

lemma f64_add_value:
  assumes "is_finite a" "is_finite b" "\<bar>fl_value a + fl_value b\<bar> \<le> 2 powi 1000"
  shows "is_finite (f64_add a b) \<and> fl_value (f64_add a b) = r64 (fl_value a + fl_value b)"
proof -
  from assms obtain s m t n where ab: "a = Fin s m" "b = Fin t n" by (cases a; cases b) auto
  then have "f64_add a b = round64 (s \<and> t) (fl_value a + fl_value b)" by simp
  then show ?thesis using round64_small [OF assms(3)] by simp
qed

fun fl_nonneg :: "fl \<Rightarrow> bool" where
  "fl_nonneg (Fin s m) = (0 \<le> m)"
| "fl_nonneg _ = True"

lemma fl_value_abs: "fl_nonneg a \<Longrightarrow> is_finite a \<Longrightarrow> fl_value (f64_abs a) = \<bar>fl_value a\<bar>"
  by (cases a) auto

lemma fl_nonneg_round: "0 \<le> m \<Longrightarrow> fl_nonneg (fin64 s m)" "fl_nonneg (round64 z q)"
  by (auto simp: fin64_def round64_def Let_def rnd_nonneg)

lemma fl_nonneg_add: "fl_nonneg a \<Longrightarrow> fl_nonneg b \<Longrightarrow> fl_nonneg (f64_add a b)"
  by (cases a; cases b) (auto simp: fl_nonneg_round(2))

lemma f64_mul_value:
  assumes "is_finite a" "is_finite b" "fl_nonneg a" "fl_nonneg b"
    "\<bar>fl_value a * fl_value b\<bar> \<le> 2 powi 1000"
  shows "is_finite (f64_mul a b) \<and> fl_value (f64_mul a b) = r64 (fl_value a * fl_value b)
    \<and> fl_nonneg (f64_mul a b)"
proof -
  from assms obtain s m t n where ab: "a = Fin s m" "b = Fin t n" by (cases a; cases b) auto
  with assms have mn: "0 \<le> m" "0 \<le> n" "m * n \<le> 2 powi 1000"
    by (auto simp: abs_mult split: if_splits)
  then have "f64_mul a b = Fin (s \<noteq> t) (r64 (m * n))"
    by (simp add: ab fin64_small)
  then show ?thesis using r64_minus [of "m * n"] mn by (auto simp: ab r64_sign)
qed

lemma f64_le_finite: "is_finite a \<Longrightarrow> is_finite b \<Longrightarrow> f64_le a b \<longleftrightarrow> fl_value a \<le> fl_value b"
  by (cases a; cases b) simp_all

lemma f64_lt_finite: "is_finite a \<Longrightarrow> is_finite b \<Longrightarrow> f64_lt a b \<longleftrightarrow> fl_value a < fl_value b"
  by (cases a; cases b) simp_all

lemma less_eq_fl_value: "is_finite a \<Longrightarrow> is_finite b \<Longrightarrow> a \<le> b \<Longrightarrow> fl_value a \<le> fl_value b"
  by (cases a; cases b) (auto simp: less_eq_fl_def rank_le_def)

lemma f64_clamp_value:
  assumes "is_finite x" "is_finite lo" "is_finite hi" "fl_value lo \<le> fl_value hi"
  shows "is_finite (f64_clamp x lo hi)"
    "fl_value (f64_clamp x lo hi) = max (fl_value lo) (min (fl_value hi) (fl_value x))"
  using assms by (auto simp: f64_clamp_def f64_lt_finite)

text \<open>A running sum of terms in \<open>[-1, 1]\<close> stays within the number of its terms.\<close>

lemma f64_foldl_bounds:
  assumes "\<forall>x \<in> set xs. is_finite x \<and> \<bar>fl_value x\<bar> \<le> 1" "is_finite a" "\<bar>fl_value a\<bar> \<le> of_nat n"
    "n + length xs < 2 ^ 53"
  shows "is_finite (foldl f64_add a xs) \<and> \<bar>fl_value (foldl f64_add a xs)\<bar> \<le> of_nat (n + length xs)"
  using assms
proof (induction xs arbitrary: a n)
  case (Cons x xs)
  let ?v = "fl_value a + fl_value x"
  have b: "\<bar>?v\<bar> \<le> of_nat (Suc n)" using Cons.prems by (auto simp: abs_le_iff)
  have "(of_nat (Suc n) :: rat) \<le> of_nat (2 ^ 53)" using Cons.prems(4) by (simp only: of_nat_le_iff)
  also have "\<dots> \<le> 2 powi 1000" using powi_two_mono [of 53 1000] by simp
  finally have s: "\<bar>?v\<bar> \<le> 2 powi 1000" using b by linarith
  have rep: "rep64 (of_nat (Suc n))" using Cons.prems(4) by (intro rep64_nat) simp
  have "\<bar>r64 ?v\<bar> \<le> of_nat (Suc n)"
    by (rule r64_abs_le [OF rep b])
  with f64_add_value [OF _ _ s] Cons.prems
  have "is_finite (f64_add a x)" "\<bar>fl_value (f64_add a x)\<bar> \<le> of_nat (Suc n)" by auto
  with Cons.IH [of "f64_add a x" "Suc n"] Cons.prems show ?case by simp
qed simp

section \<open>Rounded values are representable\<close>

lemma representable_rnd:
  assumes "0 < p" "0 \<le> x"
  shows "representable p emin (rnd p emin x)"
proof (cases "x = 0")
  case True
  have "(0 :: nat) < 2 ^ p" "rnd p emin x = of_nat 0 * 2 powi emin" using True by simp_all
  then show ?thesis unfolding representable_def by blast
next
  case False
  with assms have pos: "0 < x" by simp
  let ?e = "quantum p emin x"
  define k where "k = nat (round_half_even (x / 2 powi ?e))"
  have "0 \<le> x / 2 powi ?e" using pos by simp
  then have "0 \<le> round_half_even (x / 2 powi ?e)"
    using round_half_even_mono [of 0 "x / 2 powi ?e"] round_half_even_of_int [of 0] by simp
  with False have r: "rnd p emin x = of_nat k * 2 powi ?e" by (simp add: rnd_def Let_def k_def)
  have e: "emin \<le> ?e" by (simp add: quantum_def)
  have "of_nat k * (2 :: rat) powi ?e \<le> 2 powi int p * 2 powi ?e"
    using rnd_upper [OF pos, of p emin] by (simp add: r powi_two_add)
  then have "(of_nat k :: rat) \<le> of_nat (2 ^ p)" by (simp add: mult_le_cancel_right)
  then have "k \<le> 2 ^ p" by (simp only: of_nat_le_iff)
  then consider "k < 2 ^ p" | "k = 2 ^ p" by linarith
  then show ?thesis
  proof cases
    case 1
    with r e show ?thesis unfolding representable_def by blast
  next
    case 2
    have "(2 :: rat) ^ p = 2 * 2 ^ (p - 1)" using assms(1) by (cases p) auto
    then have "rnd p emin x = of_nat (2 ^ (p - 1)) * 2 powi (?e + 1)"
      using r 2 by (simp add: powi_two_add)
    moreover have "(2 :: nat) ^ (p - 1) < 2 ^ p" using assms(1) by simp
    moreover have "emin \<le> ?e + 1" using e by simp
    ultimately show ?thesis unfolding representable_def by blast
  qed
qed

lemma rep64_r64: "rep64 (r64 q)"
  using representable_rnd [of 53 q "-1074"] representable_rnd [of 53 "- q" "-1074"]
    rnd_nonneg [of q 53 "-1074"] rnd_nonneg [of "- q" 53 "-1074"]
  by (auto simp: rep64_def r64_def)

lemma rep64_double: "rep64 v \<Longrightarrow> rep64 (2 * v)"
proof -
  assume "rep64 v"
  then obtain m :: nat and e where me: "m < 2 ^ 53" "-1074 \<le> e" "\<bar>v\<bar> = of_nat m * 2 powi e"
    by (auto simp: rep64_def representable_def)
  have "\<bar>2 * v\<bar> = of_nat m * 2 powi (e + 1)" by (simp add: abs_mult me(3) powi_two_add)
  moreover have "-1074 \<le> e + 1" using me(2) by simp
  ultimately show ?thesis using me(1) unfolding rep64_def representable_def by blast
qed

text \<open>The midpoint of two representable values of moderate size lies between them.\<close>

lemma f64_div_two:
  assumes "is_finite x" "fl_nonneg x" "\<bar>fl_value x\<bar> \<le> 4"
  shows "is_finite (f64_div x (Fin False 2)) \<and> fl_value (f64_div x (Fin False 2)) = r64 (fl_value x / 2)"
proof -
  from assms obtain s m where x: "x = Fin s m" by (cases x) auto
  with assms have m: "0 \<le> m" "m \<le> 4" by (auto split: if_splits)
  have "m / 2 \<le> 2 powi 1000" using m powi_two_mono [of 2 1000] by simp
  with m have "f64_div x (Fin False 2) = Fin s (r64 (m / 2))" by (simp add: x fin64_small)
  then show ?thesis using r64_minus [of "m / 2"] by (simp add: x)
qed

lemma f64_midpoint_value:
  assumes "is_finite a" "is_finite b" "fl_nonneg a" "fl_nonneg b" "\<bar>fl_value a\<bar> \<le> 1" "\<bar>fl_value b\<bar> \<le> 1"
  shows "is_finite (f64_midpoint a b)"
    "fl_value (f64_midpoint a b) = r64 (r64 (fl_value a + fl_value b) / 2)"
proof -
  define hi :: rat where "hi = (2 - 2 powi (-52)) * 2 powi 1022"
  have "(2 :: rat) powi (-52) \<le> 1" using powi_two_mono [of "-52" 0] by simp
  moreover have "(1 :: rat) \<le> 2 powi 1022" using powi_two_mono [of 0 1022] by simp
  ultimately have "1 * 1 \<le> hi" unfolding hi_def by (intro mult_mono) simp_all
  then have one: "1 \<le> hi" by simp
  have le: "f64_le (f64_abs x) (Fin False hi)" if "is_finite x" "fl_nonneg x" "\<bar>fl_value x\<bar> \<le> 1" for x
    using that one by (cases x) (auto split: if_splits)
  have mp: "f64_midpoint a b = f64_div (f64_add a b) (Fin False 2)"
    unfolding f64_midpoint_def Let_def hi_def [symmetric]
    using le [OF assms(1,3,5)] le [OF assms(2,4,6)] by (simp only: if_True simp_thms)
  have sm: "\<bar>fl_value a + fl_value b\<bar> \<le> 2" using assms(5,6) by (simp add: abs_le_iff)
  then have "\<bar>fl_value a + fl_value b\<bar> \<le> 2 powi 1000" using powi_two_mono [of 1 1000] by simp
  note add = f64_add_value [OF assms(1,2) this]
  have "\<bar>r64 (fl_value a + fl_value b)\<bar> \<le> 2" using sm by (intro r64_abs_le rep64_numeral) simp_all
  then show "is_finite (f64_midpoint a b)"
    "fl_value (f64_midpoint a b) = r64 (r64 (fl_value a + fl_value b) / 2)"
    using f64_div_two [of "f64_add a b"] add fl_nonneg_add [OF assms(3,4)] by (simp_all add: mp)
qed

lemma midpoint_ge: "rep64 t \<Longrightarrow> t \<le> x \<Longrightarrow> t \<le> y \<Longrightarrow> t \<le> r64 (r64 (x + y) / 2)"
proof -
  assume t: "rep64 t" "t \<le> x" "t \<le> y"
  then have "2 * t \<le> r64 (x + y)" using r64_mono [of "2 * t" "x + y"] by (simp add: r64_rep rep64_double)
  then show ?thesis using r64_mono [of t "r64 (x + y) / 2"] t by (simp add: r64_rep)
qed

lemma midpoint_le: "rep64 t \<Longrightarrow> x \<le> t \<Longrightarrow> y \<le> t \<Longrightarrow> r64 (r64 (x + y) / 2) \<le> t"
proof -
  assume t: "rep64 t" "x \<le> t" "y \<le> t"
  then have "r64 (x + y) \<le> 2 * t" using r64_mono [of "x + y" "2 * t"] by (simp add: r64_rep rep64_double)
  then show ?thesis using r64_mono [of "r64 (x + y) / 2" t] t by (simp add: r64_rep)
qed

lemma isqrt_square_le: "isqrt n * isqrt n \<le> n"
proof (induction n rule: isqrt.induct)
  case (1 n)
  show ?case
  proof (cases "n = 0")
    case False
    with "1.IH" have "4 * (isqrt (n div 4) * isqrt (n div 4)) \<le> 4 * (n div 4)" by simp
    also have "\<dots> \<le> n" by simp
    finally have "2 * isqrt (n div 4) * (2 * isqrt (n div 4)) \<le> n" by (simp add: algebra_simps)
    with False show ?thesis by (subst isqrt.simps, subst isqrt.simps) (simp add: Let_def)
  qed (simp add: isqrt.simps)
qed

end
