(* ===== verification/Liveness.thy ===== *)
theory Liveness
  imports Soft_Float
begin

text \<open>
  The presentation-attack analysis of \<^verbatim>\<open>engine/vision/src/liveness.rs\<close>: passive texture thresholds, the eye-blink state
  machine, the smoothed pose tracker, the challenges, and the detector that combines them over a stream of frames.
  The native texture and pose estimators are parameters: each step receives what they returned.
\<close>

section \<open>Decisions and challenges\<close>

definition MAX_BONA_FIDE_LBP_ENTROPY :: fl where "MAX_BONA_FIDE_LBP_ENTROPY = lit32 (735 / 100)"
definition MAX_BONA_FIDE_MOIRE_ENERGY :: fl where "MAX_BONA_FIDE_MOIRE_ENERGY = lit32 (85 / 10)"
definition MIN_NIR_REFLECTANCE_RATIO :: fl where "MIN_NIR_REFLECTANCE_RATIO = lit32 (25 / 100)"
definition MIN_BLINK_DURATION_MS :: nat where "MIN_BLINK_DURATION_MS = 100"
definition MAX_BLINK_DURATION_MS :: nat where "MAX_BLINK_DURATION_MS = 300"
definition PROMPT_DEADLINE_MS :: nat where "PROMPT_DEADLINE_MS = 1800"
definition TARGET_DEFLECTION_DEGREES :: fl where "TARGET_DEFLECTION_DEGREES = lit32 10"

datatype spoof_kind = PrintAttack | ScreenReplay | UnnaturalBlink | PoseChallengeFailed | LowNirReflectance

datatype pose_challenge = TiltLeft | TiltRight | NodUp | NodDown | TurnLeft | TurnRight | Blink

datatype liveness_decision = BonaFide | SpoofDetected spoof_kind | AwaitingChallenge pose_challenge
  | AnalysisFailed

record head_pose =
  yaw :: fl
  pitch :: fl
  roll :: fl

record texture_metrics =
  lbp_entropy :: fl
  moire_energy :: fl

fun is_satisfied :: "pose_challenge \<Rightarrow> head_pose \<Rightarrow> bool \<Rightarrow> bool" where
  "is_satisfied TiltLeft pose blink = f64_le TARGET_DEFLECTION_DEGREES (roll pose)"
| "is_satisfied TiltRight pose blink = f64_le (roll pose) (f64_neg TARGET_DEFLECTION_DEGREES)"
| "is_satisfied NodUp pose blink = f64_le TARGET_DEFLECTION_DEGREES (pitch pose)"
| "is_satisfied NodDown pose blink = f64_le (pitch pose) (f64_neg TARGET_DEFLECTION_DEGREES)"
| "is_satisfied TurnLeft pose blink = f64_le (f32_add TARGET_DEFLECTION_DEGREES (lit32 2)) (yaw pose)"
| "is_satisfied TurnRight pose blink = f64_le (yaw pose) (f64_neg (f32_add TARGET_DEFLECTION_DEGREES (lit32 2)))"
| "is_satisfied Blink pose blink = blink"

definition texture_evaluate :: "texture_metrics \<Rightarrow> spoof_kind option" where
  "texture_evaluate m =
     (if f64_lt MAX_BONA_FIDE_LBP_ENTROPY (lbp_entropy m) then Some PrintAttack
      else if f64_lt MAX_BONA_FIDE_MOIRE_ENERGY (moire_energy m) then Some ScreenReplay
      else None)"

section \<open>The blink tracker\<close>

datatype blink_state = Open | Closing | Closed | Opening

record blink_tracker =
  last_state :: blink_state
  state_start_ms :: nat
  closed_duration_ms :: nat
  blink_completed :: bool

definition blink_new :: blink_tracker where
  "blink_new = \<lparr>last_state = Open, state_start_ms = 0, closed_duration_ms = 0, blink_completed = False\<rparr>"

definition is_closed :: "fl \<Rightarrow> bool" where
  "is_closed openness \<longleftrightarrow> f64_le openness (lit32 (35 / 100))"

definition blink_classify :: "blink_state \<Rightarrow> fl \<Rightarrow> blink_state" where
  "blink_classify prev openness =
     (if is_closed openness then Closed
      else if f64_le (lit32 (65 / 100)) openness then Open
      else if prev = Open \<or> prev = Closing then Closing
      else Opening)"

text \<open>Timestamps are \<^verbatim>\<open>u64\<close> milliseconds; \<^verbatim>\<open>saturating_sub\<close> is truncated subtraction.\<close>

definition blink_update :: "nat \<times> fl \<Rightarrow> blink_tracker \<Rightarrow> blink_tracker" where
  "blink_update frame b =
     (case frame of (timestamp_ms, openness) \<Rightarrow>
        if blink_completed b then b
        else let current = blink_classify (last_state b) openness in
          if current = last_state b then b
          else
            let b' = (if last_state b = Closed then
                        (let d = timestamp_ms - state_start_ms b in
                         b\<lparr>closed_duration_ms := d,
                           blink_completed := (MIN_BLINK_DURATION_MS \<le> d \<and> d \<le> MAX_BLINK_DURATION_MS)\<rparr>)
                      else b)
            in b'\<lparr>last_state := current, state_start_ms := timestamp_ms\<rparr>)"

definition blink_run :: "(nat \<times> fl) list \<Rightarrow> blink_tracker" where
  "blink_run trace = fold blink_update trace blink_new"

lemma blink_classify_Closed: "blink_classify prev o' = Closed \<longleftrightarrow> is_closed o'"
  by (simp add: blink_classify_def)

text \<open>
  While no blink is complete and the eyes are closed, the frames seen so far end in a run of closed frames whose first
  timestamp the tracker remembers.
\<close>

definition closed_run :: "(nat \<times> fl) list \<Rightarrow> nat \<Rightarrow> bool" where
  "closed_run trace t \<longleftrightarrow> (\<exists>pre run. trace = pre @ run \<and> run \<noteq> [] \<and> fst (hd run) = t
     \<and> (\<forall>f \<in> set run. is_closed (snd f)))"

text \<open>A natural blink: closed frames over 100 to 300 ms, ended by a frame that is not closed.\<close>

definition natural_blink :: "(nat \<times> fl) list \<Rightarrow> bool" where
  "natural_blink trace \<longleftrightarrow> (\<exists>pre run t o' post. trace = pre @ run @ (t, o') # post \<and> run \<noteq> []
     \<and> (\<forall>f \<in> set run. is_closed (snd f)) \<and> \<not> is_closed o'
     \<and> MIN_BLINK_DURATION_MS \<le> t - fst (hd run) \<and> t - fst (hd run) \<le> MAX_BLINK_DURATION_MS)"

lemma blink_run_snoc: "blink_run (trace @ [f]) = blink_update f (blink_run trace)"
  by (simp add: blink_run_def)

lemma closed_run_snoc: "closed_run trace t \<Longrightarrow> is_closed o' \<Longrightarrow> closed_run (trace @ [(u, o')]) t"
  unfolding closed_run_def
proof (elim exE conjE)
  fix pre run
  assume "trace = pre @ run" "run \<noteq> []" "fst (hd run) = t" "\<forall>f \<in> set run. is_closed (snd f)" "is_closed o'"
  then show "\<exists>pre run. trace @ [(u, o')] = pre @ run \<and> run \<noteq> [] \<and> fst (hd run) = t \<and> (\<forall>f \<in> set run. is_closed (snd f))"
    by (intro exI [of _ pre] exI [of _ "run @ [(u, o')]"]) auto
qed

lemma closed_run_single: "is_closed o' \<Longrightarrow> closed_run (trace @ [(u, o')]) u"
  unfolding closed_run_def by (intro exI [of _ trace] exI [of _ "[(u, o')]"]) simp

lemma natural_blink_snoc: "natural_blink trace \<Longrightarrow> natural_blink (trace @ [f])"
  unfolding natural_blink_def by (elim exE conjE) (metis append.assoc append_Cons)

lemma natural_blink_end:
  assumes "closed_run trace s" "\<not> is_closed o'" "MIN_BLINK_DURATION_MS \<le> t - s" "t - s \<le> MAX_BLINK_DURATION_MS"
  shows "natural_blink (trace @ [(t, o')])"
proof -
  from assms(1) obtain pre run where "trace = pre @ run" "run \<noteq> []" "fst (hd run) = s"
    "\<forall>f \<in> set run. is_closed (snd f)" by (auto simp: closed_run_def)
  with assms show ?thesis unfolding natural_blink_def
    by (intro exI [of _ pre] exI [of _ run] exI [of _ t] exI [of _ o'] exI [of _ "[]"]) simp
qed

lemma blink_invariant:
  "(blink_completed (blink_run trace) \<longrightarrow> natural_blink trace)
   \<and> (\<not> blink_completed (blink_run trace) \<and> last_state (blink_run trace) = Closed
        \<longrightarrow> closed_run trace (state_start_ms (blink_run trace)))"
proof (induction trace rule: rev_induct)
  case Nil
  show ?case by (simp add: blink_run_def blink_new_def)
next
  case (snoc f trace)
  obtain t o' where f: "f = (t, o')" by (cases f)
  let ?b = "blink_run trace"
  show ?case
  proof (cases "blink_completed ?b")
    case True
    then show ?thesis using snoc natural_blink_snoc by (simp add: blink_run_snoc blink_update_def f)
  next
    case nc: False
    show ?thesis
    proof (cases "blink_classify (last_state ?b) o' = last_state ?b")
      case True
      then have "blink_run (trace @ [f]) = ?b" using nc by (simp add: blink_run_snoc blink_update_def f Let_def)
      with nc True snoc closed_run_snoc [of trace "state_start_ms ?b" o' t] show ?thesis
        by (auto simp: f blink_classify_Closed)
    next
      case ch: False
      show ?thesis
      proof (cases "last_state ?b = Closed")
        case True
        then have "\<not> is_closed o'" using ch by (metis blink_classify_Closed)
        with True ch nc snoc natural_blink_end [of trace "state_start_ms ?b" o' t] show ?thesis
          by (auto simp: blink_run_snoc blink_update_def f Let_def blink_classify_Closed)
      next
        case False
        with ch nc closed_run_single [of o' trace t] show ?thesis
          by (auto simp: blink_run_snoc blink_update_def f Let_def blink_classify_Closed)
      qed
    qed
  qed
qed

text \<open>
  The blink tracker reports a completed blink only after a run of frames with closed eyes, ended by a frame in
  which they are no longer closed, that spans 100 to 300 milliseconds.
\<close>

theorem blink_completed_natural:
  assumes "blink_completed (blink_run trace)"
  shows "natural_blink trace"
  using blink_invariant [of trace] assms by blast

section \<open>The pose tracker\<close>

record pose_tracker =
  current_pose :: head_pose
  pose_initialized :: bool
  alpha :: fl

definition pose_tracker_new :: "fl \<Rightarrow> pose_tracker" where
  "pose_tracker_new a = \<lparr>current_pose = \<lparr>yaw = Fin False 0, pitch = Fin False 0, roll = Fin False 0\<rparr>,
     pose_initialized = False, alpha = a\<rparr>"

definition ema :: "fl \<Rightarrow> fl \<Rightarrow> fl \<Rightarrow> fl" where
  "ema a raw cur = f32_add (f32_mul a raw) (f32_mul (f32_sub (Fin False 1) a) cur)"

definition pose_update :: "pose_tracker \<Rightarrow> head_pose \<Rightarrow> head_pose \<times> pose_tracker" where
  "pose_update t raw =
     (let p = (if pose_initialized t
               then \<lparr>yaw = ema (alpha t) (yaw raw) (yaw (current_pose t)),
                     pitch = ema (alpha t) (pitch raw) (pitch (current_pose t)),
                     roll = ema (alpha t) (roll raw) (roll (current_pose t))\<rparr>
               else raw)
      in (p, t\<lparr>current_pose := p, pose_initialized := True\<rparr>))"

section \<open>The detector\<close>

record pad =
  challenge :: pose_challenge
  pose_state :: pose_tracker
  blink_tracker_state :: blink_tracker
  session_start_ms :: "nat option"
  challenge_satisfied :: bool
  require_active_challenge :: bool

definition pad_new :: "pose_challenge \<Rightarrow> bool \<Rightarrow> pad" where
  "pad_new c active = \<lparr>challenge = c, pose_state = pose_tracker_new (lit32 (65 / 100)),
     blink_tracker_state = blink_new, session_start_ms = None, challenge_satisfied = False,
     require_active_challenge = active\<rparr>"

definition pad_with_seed :: "u64 \<Rightarrow> bool \<Rightarrow> pad" where
  "pad_with_seed seed active =
     (let challenges = [TurnLeft, TurnRight, TiltLeft, TiltRight, NodUp, NodDown, Blink]
      in pad_new (challenges ! (unat seed mod length challenges)) active)"

text \<open>\<open>texture\<close> is what the native texture analysis returned, \<open>None\<close> for an error.\<close>

definition evaluate_single_frame :: "texture_metrics option \<Rightarrow> fl option \<Rightarrow> liveness_decision" where
  "evaluate_single_frame texture nir =
     (case nir of
        Some ratio \<Rightarrow>
          if f64_lt ratio MIN_NIR_REFLECTANCE_RATIO then SpoofDetected LowNirReflectance
          else (case texture of
                  None \<Rightarrow> AnalysisFailed
                | Some m \<Rightarrow> (case texture_evaluate m of Some k \<Rightarrow> SpoofDetected k | None \<Rightarrow> BonaFide))
      | None \<Rightarrow>
          (case texture of
             None \<Rightarrow> AnalysisFailed
           | Some m \<Rightarrow> (case texture_evaluate m of Some k \<Rightarrow> SpoofDetected k | None \<Rightarrow> BonaFide)))"

text \<open>One frame of the stream: its timestamp, eye openness and what the native estimators returned.\<close>

record frame_input =
  fi_time :: nat
  fi_openness :: fl
  fi_texture :: "texture_metrics option"
  fi_nir :: "fl option"
  fi_pose :: "head_pose option"

definition pad_track :: "pad \<Rightarrow> frame_input \<Rightarrow> liveness_decision \<times> pad" where
  "pad_track d f =
     (let d1 = d\<lparr>blink_tracker_state := blink_update (fi_time f, fi_openness f) (blink_tracker_state d)\<rparr>
      in case fi_pose f of
           None \<Rightarrow> (AwaitingChallenge (challenge d1), d1)
         | Some raw \<Rightarrow>
             (case pose_update (pose_state d1) raw of
                (smoothed, tracker) \<Rightarrow>
                  let d2 = d1\<lparr>pose_state := tracker\<rparr> in
                  if is_satisfied (challenge d2) smoothed (blink_completed (blink_tracker_state d2))
                  then (BonaFide, d2\<lparr>challenge_satisfied := True\<rparr>)
                  else (AwaitingChallenge (challenge d2), d2)))"

fun passive_failed :: "liveness_decision \<Rightarrow> bool" where
  "passive_failed (SpoofDetected _) = True"
| "passive_failed AnalysisFailed = True"
| "passive_failed _ = False"

definition evaluate_stream_step :: "pad \<Rightarrow> frame_input \<Rightarrow> liveness_decision \<times> pad" where
  "evaluate_stream_step d f =
     (let start = (case session_start_ms d of None \<Rightarrow> fi_time f | Some t \<Rightarrow> t);
          d0 = d\<lparr>session_start_ms := Some start\<rparr>;
          passive = evaluate_single_frame (fi_texture f) (fi_nir f)
      in if passive_failed passive then (passive, d0)
         else if \<not> require_active_challenge d0 then (BonaFide, d0)
         else if challenge_satisfied d0 then (BonaFide, d0)
         else if fi_time f - start > PROMPT_DEADLINE_MS then (SpoofDetected PoseChallengeFailed, d0)
         else pad_track d0 f)"

fun pad_run :: "pad \<Rightarrow> frame_input list \<Rightarrow> liveness_decision list \<times> pad" where
  "pad_run d [] = ([], d)"
| "pad_run d (f # fs) =
     (let (v, d1) = evaluate_stream_step d f; (vs, d2) = pad_run d1 fs in (v # vs, d2))"

text \<open>What the passive analysis demands of a frame: a texture within both limits, and enough reflectance if it was measured.\<close>

definition passive_ok :: "frame_input \<Rightarrow> bool" where
  "passive_ok f \<longleftrightarrow>
     (\<exists>m. fi_texture f = Some m \<and> \<not> f64_lt MAX_BONA_FIDE_LBP_ENTROPY (lbp_entropy m)
        \<and> \<not> f64_lt MAX_BONA_FIDE_MOIRE_ENERGY (moire_energy m))
   \<and> (\<forall>ratio. fi_nir f = Some ratio \<longrightarrow> \<not> f64_lt ratio MIN_NIR_REFLECTANCE_RATIO)"

lemma passive_verdict: "evaluate_single_frame (fi_texture f) (fi_nir f) = BonaFide \<longleftrightarrow> passive_ok f"
  by (auto simp: evaluate_single_frame_def passive_ok_def texture_evaluate_def split: option.splits)

lemma passive_failed_verdict: "passive_failed (evaluate_single_frame (fi_texture f) (fi_nir f)) \<longleftrightarrow> \<not> passive_ok f"
  by (auto simp: passive_verdict [symmetric] evaluate_single_frame_def split: option.splits)

text \<open>
  The specification of an active challenge over a finite sequence of frames. The frames that count are those that pass
  the passive checks no later than 1800 ms after the first frame. Their poses are smoothed one after the other, their
  eye openness is what the blink tracker sees.
\<close>

definition tracked :: "nat \<Rightarrow> frame_input list \<Rightarrow> frame_input list" where
  "tracked t0 fs = filter (\<lambda>f. passive_ok f \<and> fi_time f - t0 \<le> PROMPT_DEADLINE_MS) fs"

definition eye_trace :: "frame_input list \<Rightarrow> (nat \<times> fl) list" where
  "eye_trace fs = map (\<lambda>f. (fi_time f, fi_openness f)) fs"

definition pose_run :: "frame_input list \<Rightarrow> pose_tracker" where
  "pose_run fs = fold (\<lambda>raw t. snd (pose_update t raw)) (map the (filter (\<lambda>p. p \<noteq> None) (map fi_pose fs)))
     (pose_tracker_new (lit32 (65 / 100)))"

text \<open>The \<open>j\<close>-th frame meets the challenge.\<close>

definition meets :: "pose_challenge \<Rightarrow> frame_input list \<Rightarrow> nat \<Rightarrow> bool" where
  "meets c fs j \<longleftrightarrow>
     (let seen = tracked (fi_time (fs ! 0)) (take (Suc j) fs) in
      j < length fs \<and> passive_ok (fs ! j) \<and> fi_time (fs ! j) - fi_time (fs ! 0) \<le> PROMPT_DEADLINE_MS
    \<and> fi_pose (fs ! j) \<noteq> None
    \<and> is_satisfied c (current_pose (pose_run seen)) (blink_completed (blink_run (eye_trace seen))))"

lemma pose_run_snoc:
  "pose_run (fs @ [f]) = (case fi_pose f of None \<Rightarrow> pose_run fs | Some raw \<Rightarrow> snd (pose_update (pose_run fs) raw))"
  by (simp add: pose_run_def split: option.split)

lemma pose_update_current: "pose_update t raw = (current_pose (snd (pose_update t raw)), snd (pose_update t raw))"
  by (simp add: pose_update_def Let_def)

lemma pad_run_snoc:
  "pad_run d (fs @ [f]) = (case pad_run d fs of (vs, d1) \<Rightarrow> case evaluate_stream_step d1 f of (v, d2) \<Rightarrow> (vs @ [v], d2))"
  by (induction fs arbitrary: d) (simp_all add: split_def Let_def)

lemma length_pad_run: "length (fst (pad_run d fs)) = length fs"
  by (induction fs arbitrary: d) (simp_all add: split_def Let_def)

lemma meets_prefix: "meets c (fs @ gs) j \<longleftrightarrow> meets c fs j" if "j < length fs"
proof -
  have "(fs @ gs) ! 0 = fs ! 0" "(fs @ gs) ! j = fs ! j" "take (Suc j) (fs @ gs) = take (Suc j) fs"
    using that by (auto simp: nth_append)
  with that show ?thesis by (simp add: meets_def)
qed

text \<open>What the detector's state stands for after the frames \<open>fs\<close> of a session.\<close>

definition session_inv :: "pose_challenge \<Rightarrow> frame_input list \<Rightarrow> pad \<Rightarrow> bool" where
  "session_inv c fs d \<longleftrightarrow> challenge d = c \<and> require_active_challenge d
     \<and> session_start_ms d = (if fs = [] then None else Some (fi_time (fs ! 0)))
     \<and> (challenge_satisfied d \<longleftrightarrow> (\<exists>j < length fs. meets c fs j))
     \<and> (\<not> challenge_satisfied d \<longrightarrow> pose_state d = pose_run (tracked (fi_time (fs ! 0)) fs)
          \<and> blink_tracker_state d = blink_run (eye_trace (tracked (fi_time (fs ! 0)) fs)))"

lemma session_inv_start: "session_inv c [] (pad_new c True)"
  by (simp add: session_inv_def pad_new_def tracked_def pose_run_def blink_run_def eye_trace_def)

lemma meets_last: "(\<exists>j < length (fs @ [f]). meets c (fs @ [f]) j) \<longleftrightarrow> (\<exists>j < length fs. meets c fs j) \<or> meets c (fs @ [f]) (length fs)"
  using meets_prefix [of _ fs c "[f]"] by (auto simp: less_Suc_eq)

lemma session_step:
  assumes "session_inv c fs d" "evaluate_stream_step d f = (v, d')"
  shows "session_inv c (fs @ [f]) d'" "v = BonaFide \<longleftrightarrow> passive_ok f \<and> (\<exists>j \<le> length fs. meets c (fs @ [f]) j)"
proof -
  define t0 where "t0 = fi_time ((fs @ [f]) ! 0)"
  have d: "challenge d = c" "require_active_challenge d" "challenge_satisfied d \<longleftrightarrow> (\<exists>j < length fs. meets c fs j)"
    and start: "(case session_start_ms d of None \<Rightarrow> fi_time f | Some t \<Rightarrow> t) = t0"
    and tr: "\<not> challenge_satisfied d \<Longrightarrow> pose_state d = pose_run (tracked t0 fs) \<and> blink_tracker_state d = blink_run (eye_trace (tracked t0 fs))"
    using assms(1) by (cases fs; auto simp: session_inv_def t0_def tracked_def)+
  let ?in = "passive_ok f \<and> fi_time f - t0 \<le> PROMPT_DEADLINE_MS"
  have snoc: "tracked t0 (fs @ [f]) = (if ?in then tracked t0 fs @ [f] else tracked t0 fs)" by (simp add: tracked_def)
  have m: "meets c (fs @ [f]) (length fs) \<longleftrightarrow> ?in \<and> fi_pose f \<noteq> None
      \<and> is_satisfied c (current_pose (pose_run (tracked t0 fs @ [f]))) (blink_completed (blink_run (eye_trace (tracked t0 fs @ [f]))))"
    using snoc by (auto simp: meets_def Let_def t0_def [symmetric])
  have le: "(\<exists>j \<le> length fs. meets c (fs @ [f]) j) \<longleftrightarrow> (\<exists>j < length fs. meets c fs j) \<or> meets c (fs @ [f]) (length fs)"
    using meets_last [of fs f c] by (simp add: less_Suc_eq_le)
  have "session_inv c (fs @ [f]) d' \<and> (v = BonaFide \<longleftrightarrow> passive_ok f \<and> (challenge_satisfied d \<or> meets c (fs @ [f]) (length fs)))"
  proof (cases "challenge_satisfied d \<or> \<not> ?in")
    case True
    then have "d' = d\<lparr>session_start_ms := Some t0\<rparr>" "v = BonaFide \<longleftrightarrow> passive_ok f \<and> challenge_satisfied d" "\<not> meets c (fs @ [f]) (length fs) \<or> challenge_satisfied d"
      using assms(2) d(2) m by (auto simp: evaluate_stream_step_def Let_def start passive_failed_verdict passive_verdict split: if_splits)
    then show ?thesis using True d tr snoc meets_last [of fs f c] by (auto simp: session_inv_def t0_def [symmetric])
  next
    case False
    then have run: "pad_track (d\<lparr>session_start_ms := Some t0\<rparr>) f = (v, d')"
      using assms(2) d(2) by (simp add: evaluate_stream_step_def Let_def start passive_failed_verdict)
    have b: "blink_update (fi_time f, fi_openness f) (blink_run (eye_trace (tracked t0 fs))) = blink_run (eye_trace (tracked t0 fs @ [f]))"
      by (simp add: eye_trace_def blink_run_snoc)
    show ?thesis
    proof (cases "fi_pose f")
      case None
      then show ?thesis using run False d tr snoc m b meets_last [of fs f c]
        by (auto simp: pad_track_def Let_def session_inv_def t0_def [symmetric] pose_run_snoc)
    next
      case (Some raw)
      have p: "pose_update (pose_run (tracked t0 fs)) raw
          = (current_pose (pose_run (tracked t0 fs @ [f])), pose_run (tracked t0 fs @ [f]))"
        using pose_update_current by (simp add: pose_run_snoc Some)
      show ?thesis using run False d tr snoc m b p Some meets_last [of fs f c]
        by (auto simp: pad_track_def Let_def session_inv_def t0_def [symmetric] split: if_splits)
    qed
  qed
  with d(3) le show "session_inv c (fs @ [f]) d'" "v = BonaFide \<longleftrightarrow> passive_ok f \<and> (\<exists>j \<le> length fs. meets c (fs @ [f]) j)" by auto
qed

lemma session_run:
  "session_inv c fs (snd (pad_run (pad_new c True) fs))
   \<and> (\<forall>i < length fs. fst (pad_run (pad_new c True) fs) ! i = BonaFide \<longleftrightarrow> passive_ok (fs ! i) \<and> (\<exists>j \<le> i. meets c fs j))"
proof (induction fs rule: rev_induct)
  case Nil
  then show ?case by (simp add: session_inv_start)
next
  case (snoc f fs)
  obtain vs d where r: "pad_run (pad_new c True) fs = (vs, d)" by fastforce
  obtain v d' where s: "evaluate_stream_step d f = (v, d')" by fastforce
  have l: "length vs = length fs" using length_pad_run [of "pad_new c True" fs] r by simp
  note st = session_step [OF _ s, of c fs]
  have "vs ! i = BonaFide \<longleftrightarrow> passive_ok (fs ! i) \<and> (\<exists>j \<le> i. meets c (fs @ [f]) j)" if "i < length fs" for i
    using snoc r that meets_prefix [of _ fs c "[f]"] by (auto dest: le_less_trans)
  with snoc st show ?case by (auto simp: pad_run_snoc r s l nth_append less_Suc_eq)
qed

text \<open>
  Claim C21: a detector that requires an active challenge answers BonaFide on a frame exactly if that frame passes the
  passive checks and it or an earlier frame met the challenge: a frame with a pose, passively clean and no later than 1800 ms
  after the first frame of the session, at which the smoothed pose of the clean frames so far has the demanded deflection,
  or the blink tracker has completed a blink. For the blink challenge the clean frames up to that one then contain closed
  eyes over 100 to 300 ms that open again.
\<close>

theorem pad_active_challenge:
  assumes "i < length fs"
  shows "(fst (pad_run (pad_new c True) fs) ! i = BonaFide \<longleftrightarrow> passive_ok (fs ! i) \<and> (\<exists>j \<le> i. meets c fs j))
    \<and> (fst (pad_run (pad_new Blink True) fs) ! i = BonaFide \<longrightarrow>
         (\<exists>j \<le> i. natural_blink (eye_trace (tracked (fi_time (fs ! 0)) (take (Suc j) fs)))))"
proof -
  have "\<exists>j \<le> i. natural_blink (eye_trace (tracked (fi_time (fs ! 0)) (take (Suc j) fs)))"
    if "\<exists>j \<le> i. meets Blink fs j" using that blink_invariant by (auto simp: meets_def Let_def)
  with session_run [of _ fs] assms show ?thesis by blast
qed

definition calm_texture :: texture_metrics where
  "calm_texture = \<lparr>lbp_entropy = Fin False 0, moire_energy = Fin False 0\<rparr>"

definition turned_frame :: frame_input where
  "turned_frame = \<lparr>fi_time = 5, fi_openness = Fin False 1, fi_texture = Some calm_texture, fi_nir = None,
     fi_pose = Some \<lparr>yaw = Inf False, pitch = Fin False 0, roll = Fin False 0\<rparr>\<rparr>"

lemma f64_lt_zero: "0 \<le> q \<Longrightarrow> \<not> f64_lt (lit32 q) (Fin False 0)"
  by (auto simp: lit32_def round32_def fin32_def Let_def rnd_nonneg not_less)

lemma calm_texture_ok: "texture_evaluate calm_texture = None"
  using f64_lt_zero [of "735 / 100"] f64_lt_zero [of "85 / 10"]
  by (simp add: texture_evaluate_def calm_texture_def MAX_BONA_FIDE_LBP_ENTROPY_def MAX_BONA_FIDE_MOIRE_ENERGY_def)

lemma turned_frame_ok: "fst (pad_run (pad_new TurnLeft True) [turned_frame]) ! 0 = BonaFide"
proof -
  note t = calm_texture_ok
  have y: "f64_le (f32_add TARGET_DEFLECTION_DEGREES (lit32 2)) (Inf False)"
  proof -
    have "\<exists>x. lit32 q = Fin False x \<or> lit32 q = Inf False" if "0 \<le> q" for q
      using that by (auto simp: lit32_def round32_def fin32_def Let_def)
    from this [of 10] this [of 2] show ?thesis unfolding TARGET_DEFLECTION_DEGREES_def
      by (auto simp: round32_def fin32_def Let_def)
  qed
  from t y show ?thesis
    by (simp add: evaluate_stream_step_def pad_new_def turned_frame_def evaluate_single_frame_def pad_track_def
        pose_update_def pose_tracker_new_def Let_def)
qed

theorem pad_active_challenge_witness:
  "fst (pad_run (pad_new TurnLeft True) [turned_frame]) ! 0 = BonaFide \<and> passive_ok turned_frame \<and> meets TurnLeft [turned_frame] 0"
  using pad_active_challenge [of 0 "[turned_frame]" TurnLeft] turned_frame_ok by simp

lemma closed_zero: "is_closed (Fin False 0)" "\<not> is_closed (Inf False)"
proof -
  have "\<exists>x. lit32 (35 / 100) = Fin False x \<and> 0 \<le> x \<and> x < 2 powi 128 \<or> lit32 (35 / 100) = Inf False"
    by (auto simp: lit32_def round32_def fin32_def Let_def rnd_nonneg)
  then show "is_closed (Fin False 0)" by (auto simp: is_closed_def)
  have "rnd 24 (-149) (35 / 100) \<le> rnd 24 (-149) 1" by (rule rnd_mono) simp_all
  also have "\<dots> = 1"
    by (rule rnd_representable) (auto simp: representable_def intro!: exI [of _ 1] exI [of _ "0 :: int"])
  also have "\<dots> < (2 :: rat) powi 128" using power_int_strict_increasing [of 0 128 "2 :: rat"] by simp
  finally have "\<exists>x. lit32 (35 / 100) = Fin False x"
    by (simp add: lit32_def round32_def fin32_def Let_def)
  then show "\<not> is_closed (Inf False)" by (auto simp: is_closed_def)
qed

lemma short_blink: "blink_completed (blink_run [(10, Fin False 0), (160, Inf False)])"
  using closed_zero
  by (simp add: blink_run_def blink_update_def blink_new_def blink_classify_def Let_def MIN_BLINK_DURATION_MS_def
      MAX_BLINK_DURATION_MS_def)

theorem blink_completed_natural_witness:
  "blink_completed (blink_run [(10, Fin False 0), (160, Inf False)])
    \<and> natural_blink [(10, Fin False 0), (160, Inf False)]"
  using blink_completed_natural [OF short_blink] short_blink by blast

end
