(* ===== verification/Identity_Types.thy ===== *)
theory Identity_Types
  imports Soft_Float
begin

text \<open>
  \<^verbatim>\<open>engine/identity-types/src/lib.rs\<close>: the normalized face embedding of 128 binary32 values, its
  two validating constructors and the cosine similarity of two embeddings, over the
  floating-point model of \<open>Soft_Float\<close>.
\<close>

section \<open>Embeddings\<close>

definition EMBEDDING_DIMENSION :: nat where
  "EMBEDDING_DIMENSION = 128"

definition NORMALIZATION_VERSION :: u16 where
  "NORMALIZATION_VERSION = 1"

definition DETECTOR_MODEL_ID :: string where
  "DETECTOR_MODEL_ID = ''yunet-2023mar-v1''"

definition EMBEDDING_MODEL_ID :: string where
  "EMBEDDING_MODEL_ID = ''sface-2021dec-fp32-v1''"

definition EMBEDDING_FORMAT_ID :: string where
  "EMBEDDING_FORMAT_ID = ''sface-f32-le-128-l2-v1''"

definition SFACE_MODEL_SHA256 :: string where
  "SFACE_MODEL_SHA256 = ''0ba9fbfa01b5270c96627c4ef784da859931e02f04419c829e83484087c34e79''"

definition MAXIMUM_RAW_ABSOLUTE_VALUE :: fl where
  "MAXIMUM_RAW_ABSOLUTE_VALUE = Fin False 32"

definition MINIMUM_NORM :: fl where
  "MINIMUM_NORM = lit64 (1 / 10 ^ 12)"

definition NORMALIZED_NORM_TOLERANCE :: fl where
  "NORMALIZED_NORM_TOLERANCE = lit64 (1 / 10 ^ 5)"

type_synonym f32 = u32

record embedding =
  emb_values :: "f32 list"

datatype embedding_error = EmbeddingError

definition square_sum :: "f32 list \<Rightarrow> fl" where
  "square_sum vs = f64_sum (map (\<lambda>v. f64_mul (f32_decode v) (f32_decode v)) vs)"

definition from_normalized :: "f32 list \<Rightarrow> embedding_error + embedding" where
  "from_normalized vs =
     (if \<exists>v \<in> set vs. \<not> is_finite (f32_decode v) \<or> f64_lt (Fin False 1) (f64_abs (f32_decode v))
      then Inl EmbeddingError
      else let norm = f64_sqrt (square_sum vs) in
        if \<not> is_finite norm
           \<or> f64_lt NORMALIZED_NORM_TOLERANCE (f64_abs (f64_sub norm (Fin False 1)))
        then Inl EmbeddingError
        else Inr \<lparr>emb_values = vs\<rparr>)"

definition from_raw :: "f32 list \<Rightarrow> embedding_error + embedding" where
  "from_raw vs =
     (if \<exists>v \<in> set vs. \<not> is_finite (f32_decode v)
           \<or> f64_lt MAXIMUM_RAW_ABSOLUTE_VALUE (f64_abs (f32_decode v))
      then Inl EmbeddingError
      else let norm_squared = square_sum vs in
        if \<not> is_finite norm_squared \<or> f64_le norm_squared MINIMUM_NORM then Inl EmbeddingError
        else let norm = f64_sqrt norm_squared in
          from_normalized (map (\<lambda>v. f64_as_f32 (f64_div (f32_decode v) norm)) vs))"

definition cosine_similarity :: "embedding \<Rightarrow> embedding \<Rightarrow> fl" where
  "cosine_similarity l r =
     f64_clamp
       (f64_sum (map (\<lambda>(a, b). f64_mul (f32_decode a) (f32_decode b)) (zip (emb_values l) (emb_values r))))
       (Fin True 1) (Fin False 1)"

text \<open>What the type's invariant promises: 128 values that passed \<^verbatim>\<open>from_normalized\<close>.\<close>

definition embedding_wf :: "embedding \<Rightarrow> bool" where
  "embedding_wf e \<longleftrightarrow> length (emb_values e) = EMBEDDING_DIMENSION \<and> from_normalized (emb_values e) = Inr e"

section \<open>Bounds of the similarity\<close>

lemma fl_nonneg_f32 [simp]: "fl_nonneg (f32_decode w)"
  by (simp add: f32_decode_def Let_def)

lemma embedding_component:
  assumes "embedding_wf e" "v \<in> set (emb_values e)"
  shows "is_finite (f32_decode v) \<and> \<bar>fl_value (f32_decode v)\<bar> \<le> 1"
proof -
  have "is_finite (f32_decode v)" "\<not> f64_lt (Fin False 1) (f64_abs (f32_decode v))"
    using assms by (auto simp: embedding_wf_def from_normalized_def split: if_splits)
  then show ?thesis
    using fl_nonneg_f32 [of v] by (cases "f32_decode v") auto
qed

lemma product_component:
  assumes "embedding_wf l" "embedding_wf r" "a \<in> set (emb_values l)" "b \<in> set (emb_values r)"
  shows "is_finite (f64_mul (f32_decode a) (f32_decode b))
    \<and> \<bar>fl_value (f64_mul (f32_decode a) (f32_decode b))\<bar> \<le> 1"
proof -
  note A = embedding_component [OF assms(1,3)] and B = embedding_component [OF assms(2,4)]
  have p: "\<bar>fl_value (f32_decode a) * fl_value (f32_decode b)\<bar> \<le> 1"
    using A B mult_mono [of "\<bar>fl_value (f32_decode a)\<bar>" 1 "\<bar>fl_value (f32_decode b)\<bar>" 1]
    by (simp add: abs_mult)
  then have s: "\<bar>fl_value (f32_decode a) * fl_value (f32_decode b)\<bar> \<le> 2 powi 1000"
    using powi_two_mono [of 0 1000] by simp
  show ?thesis
    using f64_mul_value [OF _ _ _ _ s] A B r64_abs_le [OF _ p] rep64_0_1(2) by simp
qed

lemma products_sum_finite:
  assumes "embedding_wf l" "embedding_wf r"
  shows "is_finite (f64_sum (map (\<lambda>(a, b). f64_mul (f32_decode a) (f32_decode b))
    (zip (emb_values l) (emb_values r))))"
proof -
  let ?xs = "map (\<lambda>(a, b). f64_mul (f32_decode a) (f32_decode b)) (zip (emb_values l) (emb_values r))"
  have "\<forall>x \<in> set ?xs. is_finite x \<and> \<bar>fl_value x\<bar> \<le> 1"
    using product_component [OF assms] by (auto dest: set_zip_leftD set_zip_rightD)
  moreover have "0 + length ?xs < 2 ^ 53"
    using assms by (simp add: embedding_wf_def EMBEDDING_DIMENSION_def)
  ultimately show ?thesis
    using f64_foldl_bounds [of ?xs "Fin True 0" 0] by (simp add: f64_sum_def)
qed

lemma cosine_bounds:
  assumes "embedding_wf l" "embedding_wf r"
  shows "is_finite (cosine_similarity l r)" "\<bar>fl_value (cosine_similarity l r)\<bar> \<le> 1"
  using f64_clamp_value [OF products_sum_finite [OF assms], of "Fin True 1" "Fin False 1"]
  by (simp_all add: cosine_similarity_def abs_le_iff)

lemma f64_mul_commute: "f64_mul a b = f64_mul b a"
proof (cases a; cases b)
  fix s m t n
  assume "a = Fin s m" "b = Fin t n"
  moreover have "(s \<noteq> t) = (t \<noteq> s)" by auto
  ultimately show ?thesis by (simp only: f64_mul.simps mult.commute)
qed auto

lemma cosine_commute: "cosine_similarity l r = cosine_similarity r l"
proof -
  have "map (\<lambda>(a, b). f64_mul (f32_decode a) (f32_decode b)) (zip xs ys)
      = map (\<lambda>(a, b). f64_mul (f32_decode a) (f32_decode b)) (zip ys xs)" for xs ys
    by (subst zip_commute) (auto simp: f64_mul_commute)
  then show ?thesis by (simp add: cosine_similarity_def)
qed

text \<open>The sum that is clamped is representable and carries a nonnegative magnitude.\<close>

lemma f64_foldl_rep:
  "\<lbrakk>\<forall>x \<in> set xs. is_finite x \<and> \<bar>fl_value x\<bar> \<le> 1; is_finite a; \<bar>fl_value a\<bar> \<le> of_nat n; rep64 (fl_value a);
    n + length xs < 2 ^ 53\<rbrakk> \<Longrightarrow> rep64 (fl_value (foldl f64_add a xs))"
proof (induction xs rule: rev_induct)
  case (snoc x xs)
  let ?s = "foldl f64_add a xs"
  have s: "is_finite ?s" "\<bar>fl_value ?s\<bar> \<le> of_nat (n + length xs)"
    using f64_foldl_bounds [of xs a n] snoc.prems by simp_all
  have "\<bar>fl_value ?s + fl_value x\<bar> \<le> of_nat (n + length xs) + 1"
    using s(2) snoc.prems(1) abs_triangle_ineq [of "fl_value ?s" "fl_value x"] by fastforce
  also have "\<dots> = of_nat (Suc (n + length xs))" by simp
  also have "\<dots> \<le> (of_nat (2 ^ 53) :: rat)" using snoc.prems(5) by (simp only: of_nat_le_iff) simp
  also have "\<dots> \<le> 2 powi 1000" using powi_two_mono [of 53 1000] by simp
  finally show ?case using f64_add_value [of ?s x] s(1) snoc.prems(1) rep64_r64 by simp
qed simp

lemma f64_foldl_nonneg:
  "\<forall>x \<in> set xs. fl_nonneg x \<Longrightarrow> fl_nonneg a \<Longrightarrow> fl_nonneg (foldl f64_add a xs)"
  by (induction xs arbitrary: a) (auto intro: fl_nonneg_add)

lemma fl_nonneg_mul: "fl_nonneg a \<Longrightarrow> fl_nonneg b \<Longrightarrow> fl_nonneg (f64_mul a b)"
  by (cases a; cases b) (auto intro: fl_nonneg_round)

lemma cosine_rep:
  assumes "embedding_wf l" "embedding_wf r"
  shows "rep64 (fl_value (cosine_similarity l r))" "fl_nonneg (cosine_similarity l r)"
proof -
  let ?xs = "map (\<lambda>(a, b). f64_mul (f32_decode a) (f32_decode b)) (zip (emb_values l) (emb_values r))"
  have x: "\<forall>x \<in> set ?xs. is_finite x \<and> \<bar>fl_value x\<bar> \<le> 1"
    using product_component [OF assms] by (auto dest: set_zip_leftD set_zip_rightD)
  have "rep64 (fl_value (f64_sum ?xs))"
    using f64_foldl_rep [OF x, of "Fin True 0" 0] assms rep64_0_1(1)
    by (simp add: f64_sum_def embedding_wf_def EMBEDDING_DIMENSION_def)
  moreover have "fl_nonneg (f64_sum ?xs)"
    unfolding f64_sum_def by (rule f64_foldl_nonneg) (auto intro: fl_nonneg_mul)
  ultimately show "rep64 (fl_value (cosine_similarity l r))" "fl_nonneg (cosine_similarity l r)"
    using rep64_0_1(2) by (auto simp: cosine_similarity_def f64_clamp_def)
qed

section \<open>Self similarity\<close>

lemma isqrt_floor_le: "0 \<le> t \<Longrightarrow> of_nat (isqrt (nat \<lfloor>t\<rfloor>)) * of_nat (isqrt (nat \<lfloor>t\<rfloor>)) \<le> (t :: rat)"
proof -
  assume t: "0 \<le> t"
  have "of_nat (isqrt (nat \<lfloor>t\<rfloor>) * isqrt (nat \<lfloor>t\<rfloor>)) \<le> (of_nat (nat \<lfloor>t\<rfloor>) :: rat)"
    by (simp only: of_nat_le_iff isqrt_square_le)
  also have "\<dots> \<le> t" using t by (simp add: of_nat_nat)
  finally show ?thesis by simp
qed

text \<open>A square root is at most one unit in the last place above the exact root.\<close>

lemma sqrt_fin_half:
  assumes "0 < m" "m < 1 / 2"
  shows "0 \<le> sqrt_fin m" "sqrt_fin m \<le> 3 / 4"
proof -
  define e where "e = ilog2 m div 2 - 52"
  define t where "t = m / 2 powi (2 * e)"
  define r where "r = isqrt (nat \<lfloor>t\<rfloor>)"
  define u :: rat where "u = 2 powi e"
  have u: "0 < u" by (simp add: u_def)
  have sq: "2 powi (2 * e) = u * u" by (simp add: u_def powi_two_add [symmetric])
  have "(2 :: rat) powi ilog2 m < 2 powi 0" using ilog2_bounds(1) [OF assms(1)] assms(2) by simp
  then have "ilog2 m < 0" by (rule powi_two_less_cancel)
  then have "e \<le> -53" by (simp add: e_def)
  then have u': "u \<le> 1 / 32" using powi_two_mono [of e "-5"] by (simp add: u_def power_int_minus)
  have "0 \<le> t" using assms by (simp add: t_def)
  then have "of_nat r * of_nat r \<le> t" unfolding r_def by (rule isqrt_floor_le)
  then have "of_nat r * of_nat r * (u * u) \<le> t * (u * u)" by (rule mult_right_mono) simp
  moreover have "t * (u * u) = m" using u by (simp add: t_def sq)
  ultimately have "(of_nat r * u) * (of_nat r * u) \<le> m" by (simp add: mult_ac)
  with assms(2) have "(of_nat r * u) * (of_nat r * u) < (23 / 32) * (23 / 32)" by simp
  then have "of_nat r * u < 23 / 32" using mult_mono' [of "23 / 32" "of_nat r * u" "23 / 32" "of_nat r * u"]
    by (meson divide_nonneg_nonneg linorder_not_le zero_le_numeral)
  then have "of_nat (r + 1) * u \<le> 3 / 4" using u' by (simp add: algebra_simps)
  moreover have "of_nat r * u \<le> of_nat (r + 1) * u" using u by (simp add: mult_right_mono)
  ultimately have k: "of_nat k * u \<le> 3 / 4" if "k = r \<or> k = r + 1" for k
    using that by (metis order_trans)
  define j where "j = (if t < (of_nat r + 1 / 2) * (of_nat r + 1 / 2) then r
    else if (of_nat r + 1 / 2) * (of_nat r + 1 / 2) < t then r + 1 else if even r then r else r + 1)"
  have "sqrt_fin m = of_nat j * u" unfolding sqrt_fin_def Let_def e_def t_def r_def u_def j_def ..
  moreover have "j = r \<or> j = r + 1" by (simp add: j_def)
  ultimately show "0 \<le> sqrt_fin m" "sqrt_fin m \<le> 3 / 4" using k u by simp_all
qed

lemma rep64_quarters: "rep64 (1 / 2)" "rep64 (1 / 4)"
proof -
  have "representable 53 (-1074) (1 / 2)" unfolding representable_def
    by (rule exI [of _ 1], rule exI [of _ "-1"]) (simp add: power_int_minus)
  moreover have "representable 53 (-1074) (1 / 4)" unfolding representable_def
    by (rule exI [of _ 1], rule exI [of _ "-2"]) (simp add: power_int_minus)
  ultimately show "rep64 (1 / 2)" "rep64 (1 / 4)" by (simp_all add: rep64_def)
qed

lemma lit64_value:
  "0 \<le> q \<Longrightarrow> q \<le> 1 \<Longrightarrow> is_finite (lit64 q) \<and> fl_value (lit64 q) = r64 q"
  using round64_small [of q False] powi_two_mono [of 0 1000] by (simp add: lit64_def)

lemma tolerance_le: "is_finite NORMALIZED_NORM_TOLERANCE" "fl_value NORMALIZED_NORM_TOLERANCE < 1 / 4"
proof -
  have "representable 53 (-1074) (1 / 8)" unfolding representable_def
    by (rule exI [of _ 1], rule exI [of _ "-3"]) (simp add: power_int_minus)
  then have "rep64 (1 / 8)" by (simp add: rep64_def)
  then have "r64 (1 / 10 ^ 5) \<le> 1 / 8" using r64_mono [of "1 / 10 ^ 5" "1 / 8"] by (simp add: r64_rep)
  then show "is_finite NORMALIZED_NORM_TOLERANCE" "fl_value NORMALIZED_NORM_TOLERANCE < 1 / 4"
    using lit64_value [of "1 / 10 ^ 5"] by (simp_all add: NORMALIZED_NORM_TOLERANCE_def)
qed

lemma small_norm_rejected:
  assumes "is_finite x" "0 \<le> fl_value x" "fl_value x \<le> 3 / 4"
  shows "f64_lt NORMALIZED_NORM_TOLERANCE (f64_abs (f64_sub x (Fin False 1)))"
proof -
  let ?d = "f64_sub x (Fin False 1)"
  have "\<bar>fl_value x + fl_value (Fin True 1)\<bar> \<le> 2 powi 1000"
    using assms powi_two_mono [of 0 1000] by simp
  from f64_add_value [OF assms(1) _ this]
  have d: "is_finite ?d" "fl_value ?d = r64 (fl_value x - 1)" by (simp_all add: f64_sub_def)
  have "r64 (fl_value x - 1) \<le> - (1 / 4)"
    using r64_mono [of "fl_value x - 1" "- (1 / 4)"] assms(3) rep64_quarters(2) r64_rep [of "- (1 / 4)"]
    by simp
  moreover have "fl_nonneg ?d"
  proof -
    obtain s m where "x = Fin s m" using assms(1) by (cases x) auto
    then show ?thesis by (simp add: f64_sub_def fl_nonneg_round(2))
  qed
  moreover have "is_finite (f64_abs ?d)" using d(1) by (cases ?d) auto
  ultimately show ?thesis
    using tolerance_le fl_value_abs [of ?d] d by (simp add: f64_lt_finite)
qed

lemma self_similarity:
  assumes "embedding_wf e"
  shows "1 / 2 \<le> fl_value (cosine_similarity e e)"
proof -
  have zz: "map (\<lambda>(a, b). f64_mul (f32_decode a) (f32_decode b)) (zip xs xs)
      = map (\<lambda>v. f64_mul (f32_decode v) (f32_decode v)) xs" for xs
    by (simp add: zip_same_conv_map)
  let ?n = "square_sum (emb_values e)"
  have fin: "is_finite ?n" using products_sum_finite [OF assms assms] by (simp add: square_sum_def zz)
  have nn: "fl_nonneg ?n" unfolding square_sum_def f64_sum_def
    by (rule f64_foldl_nonneg) (auto intro: fl_nonneg_mul)
  have acc: "is_finite (f64_sqrt ?n)"
    "\<not> f64_lt NORMALIZED_NORM_TOLERANCE (f64_abs (f64_sub (f64_sqrt ?n) (Fin False 1)))"
    using assms by (auto simp: embedding_wf_def from_normalized_def Let_def split: if_splits)
  from fin obtain s m where n: "?n = Fin s m" by (cases ?n) auto
  have m: "m \<noteq> 0"
  proof
    assume "m = 0"
    with acc(2) small_norm_rejected [of "Fin s 0"] show False by (simp add: n)
  qed
  with acc(1) have s: "\<not> s" by (auto simp: n)
  with m nn have pos: "0 < m" by (simp add: n)
  have "1 / 2 \<le> m"
  proof (rule ccontr)
    assume "\<not> 1 / 2 \<le> m"
    with sqrt_fin_half [OF pos] have "0 \<le> sqrt_fin m" "sqrt_fin m \<le> 3 / 4" by simp_all
    with acc(2) small_norm_rejected [of "Fin False (sqrt_fin m)"] s m show False by (simp add: n)
  qed
  with s have "1 / 2 \<le> fl_value ?n" by (simp add: n)
  moreover have "cosine_similarity e e = f64_clamp ?n (Fin True 1) (Fin False 1)"
    by (simp add: cosine_similarity_def square_sum_def zz)
  ultimately show ?thesis
    using f64_clamp_value [OF fin, of "Fin True 1" "Fin False 1"] by simp
qed

end
