(* ===== verification/Vision_Bridge.thy ===== *)
theory Vision_Bridge
  imports Liveness Identity_Types
begin

text \<open>
  The safe wrappers of \<^verbatim>\<open>engine/vision-opencv-sys/src/lib.rs\<close> around the native face detector, recognizer, texture and pose
  routines. The native library itself is a record of functions; each returns its status code with what it left in the
  caller's buffers, and a buffer is read at the length the Rust type gives it. A handle is named by the model bytes it was
  created from.
\<close>

section \<open>Statuses\<close>

datatype bridge_error = Bridge_InvalidArgument | Bridge_RuntimeFailure | Bridge_OutputTooLarge
  | Bridge_MalformedOutput | Bridge_HardeningFailure | Bridge_UnknownStatus

definition bridge_status_result :: "int \<Rightarrow> bridge_error + unit" where
  "bridge_status_result status =
     (if status = 0 then Inr ()
      else if status = 1 then Inl Bridge_InvalidArgument
      else if status = 2 then Inl Bridge_RuntimeFailure
      else if status = 3 then Inl Bridge_OutputTooLarge
      else if status = 4 then Inl Bridge_MalformedOutput
      else if status = 5 then Inl Bridge_HardeningFailure
      else Inl Bridge_UnknownStatus)"

datatype inference_backend = Cpu | OpenVino | Vulkan

definition backend_from_raw :: "int \<Rightarrow> inference_backend" where
  "backend_from_raw n = (if n = 1 then OpenVino else if n = 2 then Vulkan else Cpu)"

definition allows_drm_ioctl :: "inference_backend \<Rightarrow> bool" where
  "allows_drm_ioctl b = (b = Vulkan)"

datatype sandbox_status = Unavailable | Applied | AlreadyApplied

definition sandbox_result :: "int \<Rightarrow> bridge_error + sandbox_status" where
  "sandbox_result status =
     (if status = 0 then Inr Unavailable
      else if status = 1 then Inr Applied
      else if status = 2 then Inr AlreadyApplied
      else if status = 3 then Inl Bridge_HardeningFailure
      else Inl Bridge_UnknownStatus)"

section \<open>The native library\<close>

definition DETECTION_VALUES :: nat where "DETECTION_VALUES = 15"

record raw_detection =
  det_values :: "fl list"

text \<open>
  \<open>vn_detect\<close> reports status, detection rows (row and column number to value) and the row count; \<open>vn_features\<close> status, values
  and value count. Creating an object reports its status and whether the handle is not null.
\<close>

record vision_native =
  vn_yunet_create :: "bytes \<Rightarrow> int \<times> bool"
  vn_detect :: "bytes \<Rightarrow> bytes \<Rightarrow> int \<Rightarrow> int \<Rightarrow> nat \<Rightarrow> int \<Rightarrow> int \<Rightarrow> nat \<Rightarrow> int \<times> (nat \<Rightarrow> nat \<Rightarrow> f32) \<times> nat"
  vn_sface_create :: "bytes \<Rightarrow> int \<times> bool"
  vn_features :: "bytes \<Rightarrow> bytes \<Rightarrow> int \<Rightarrow> int \<Rightarrow> nat \<Rightarrow> raw_detection \<Rightarrow> int \<times> (nat \<Rightarrow> f32) \<times> nat"
  vn_texture :: "bytes \<Rightarrow> int \<Rightarrow> int \<Rightarrow> nat \<Rightarrow> raw_detection \<Rightarrow> int \<times> texture_metrics"
  vn_pose :: "raw_detection \<Rightarrow> int \<Rightarrow> int \<Rightarrow> int \<times> head_pose"

definition i32_try_from :: "nat \<Rightarrow> bridge_error + int" where
  "i32_try_from n = (if n < 2 ^ 31 then Inr (int n) else Inl Bridge_InvalidArgument)"

section \<open>Wrappers\<close>

definition detector_new :: "vision_native \<Rightarrow> bytes \<Rightarrow> u32 \<Rightarrow> u32 \<Rightarrow> nat \<Rightarrow> bridge_error + bytes" where
  "detector_new vn model width height top_k =
     rbind (i32_try_from (unat width)) (\<lambda>_.
     rbind (i32_try_from (unat height)) (\<lambda>_.
     rbind (i32_try_from top_k) (\<lambda>_.
     case vn_yunet_create vn model of (status, handle) \<Rightarrow>
       rbind (bridge_status_result status) (\<lambda>_.
       if handle then Inr model else Inl Bridge_RuntimeFailure))))"

definition detect_at_resolution ::
    "vision_native \<Rightarrow> bytes \<Rightarrow> bytes \<Rightarrow> u32 \<Rightarrow> u32 \<Rightarrow> nat \<Rightarrow> u32 \<times> u32 \<Rightarrow> nat \<Rightarrow> bridge_error + raw_detection list" where
  "detect_at_resolution vn handle bgr width height stride resolution maximum =
     rbind (i32_try_from (unat width)) (\<lambda>w.
     rbind (i32_try_from (unat height)) (\<lambda>h.
     rbind (i32_try_from (unat (fst resolution))) (\<lambda>iw.
     rbind (i32_try_from (unat (snd resolution))) (\<lambda>ih.
     if maximum = 0 \<or> maximum > 5000 then Inl Bridge_InvalidArgument
     else
       let full = (iw = w \<and> ih = h) in
       case vn_detect vn handle bgr w h stride (if full then 0 else iw) (if full then 0 else ih) maximum of
         (status, rows, count) \<Rightarrow>
           rbind (bridge_status_result status) (\<lambda>_.
           if count > maximum then Inl Bridge_MalformedOutput
           else Inr (map (\<lambda>r. \<lparr>det_values = map (\<lambda>k. f32_decode (rows r k)) [0..<DETECTION_VALUES]\<rparr>) [0..<count]))))))"

definition recognizer_new :: "vision_native \<Rightarrow> bytes \<Rightarrow> bridge_error + bytes" where
  "recognizer_new vn model =
     (case vn_sface_create vn model of (status, handle) \<Rightarrow>
        rbind (bridge_status_result status) (\<lambda>_.
        if handle then Inr model else Inl Bridge_RuntimeFailure))"

definition recognizer_extract ::
    "vision_native \<Rightarrow> bytes \<Rightarrow> bytes \<Rightarrow> u32 \<Rightarrow> u32 \<Rightarrow> nat \<Rightarrow> raw_detection \<Rightarrow> bridge_error + f32 list" where
  "recognizer_extract vn handle bgr width height stride d =
     rbind (i32_try_from (unat width)) (\<lambda>w.
     rbind (i32_try_from (unat height)) (\<lambda>h.
     case vn_features vn handle bgr w h stride d of (status, vals, count) \<Rightarrow>
       rbind (bridge_status_result status) (\<lambda>_.
       if count \<noteq> EMBEDDING_DIMENSION then Inl Bridge_MalformedOutput
       else Inr (map vals [0..<EMBEDDING_DIMENSION]))))"

definition analyze_texture ::
    "vision_native \<Rightarrow> bytes \<Rightarrow> u32 \<Rightarrow> u32 \<Rightarrow> nat \<Rightarrow> raw_detection \<Rightarrow> bridge_error + texture_metrics" where
  "analyze_texture vn bgr width height stride d =
     rbind (i32_try_from (unat width)) (\<lambda>w.
     rbind (i32_try_from (unat height)) (\<lambda>h.
     case vn_texture vn bgr w h stride d of (status, metrics) \<Rightarrow>
       rbind (bridge_status_result status) (\<lambda>_. Inr metrics)))"

definition estimate_head_pose :: "vision_native \<Rightarrow> raw_detection \<Rightarrow> u32 \<Rightarrow> u32 \<Rightarrow> bridge_error + head_pose" where
  "estimate_head_pose vn d width height =
     rbind (i32_try_from (unat width)) (\<lambda>w.
     rbind (i32_try_from (unat height)) (\<lambda>h.
     case vn_pose vn d w h of (status, pose) \<Rightarrow>
       rbind (bridge_status_result status) (\<lambda>_. Inr pose)))"

fun ok_option :: "'e + 'a \<Rightarrow> 'a option" where
  "ok_option (Inr x) = Some x"
| "ok_option (Inl _) = None"

text \<open>Whatever the native code reports, the wrapper's result has the shape its type promises.\<close>

lemma detect_at_resolution_shape:
  assumes "detect_at_resolution vn handle bgr width height stride resolution maximum = Inr ds"
  shows "length ds \<le> maximum" "\<And>d. d \<in> set ds \<Longrightarrow> length (det_values d) = 15 \<and> list_all fl_nonneg (det_values d)"
  using assms
  by (auto simp: detect_at_resolution_def rbind_eq_Inr Let_def DETECTION_VALUES_def split_def list_all_iff
      split: if_splits)

lemma recognizer_extract_shape:
  assumes "recognizer_extract vn handle bgr width height stride d = Inr vs"
  shows "length vs = EMBEDDING_DIMENSION"
  using assms by (auto simp: recognizer_extract_def rbind_eq_Inr split_def split: if_splits)

end
