(* ===== verification/Face_Detect.thy ===== *)
theory Face_Detect
  imports Vision_Image Vision_Bridge
begin

text \<open>
  The detector layer of \<^verbatim>\<open>engine/vision/src/yunet.rs\<close>: conversion of an accepted image to the BGR layout of the runtime, the
  validation of what the native detector returned, and the detection step. A result is \<open>None\<close> when the Rust code would
  panic, otherwise an error or a value with the number of control checks made so far.
\<close>

section \<open>Results that may panic\<close>

type_synonym 'a checked = "(vision_error + 'a) option"

definition cbind :: "('e + 'a) option \<Rightarrow> ('a \<Rightarrow> ('e + 'b) option) \<Rightarrow> ('e + 'b) option" where
  "cbind m f = (case m of None \<Rightarrow> None | Some (Inl e) \<Rightarrow> Some (Inl e) | Some (Inr x) \<Rightarrow> f x)"

lemma cbind_simps [simp]:
  "cbind None f = None" "cbind (Some (Inl e)) f = Some (Inl e)" "cbind (Some (Inr x)) f = f x"
  by (simp_all add: cbind_def)

lemma cbind_eq_Some_Inr:
  "cbind m f = Some (Inr y) \<longleftrightarrow> (\<exists>x. m = Some (Inr x) \<and> f x = Some (Inr y))"
  by (auto simp: cbind_def split: option.splits sum.splits)

lemma cbind_eq_None: "cbind m f = None \<longleftrightarrow> m = None \<or> (\<exists>x. m = Some (Inr x) \<and> f x = None)"
  by (auto simp: cbind_def split: option.splits sum.splits)

text \<open>A computation that does not panic, with the rules that show it step by step.\<close>

definition no_panic :: "'a option \<Rightarrow> bool" where
  "no_panic m \<longleftrightarrow> m \<noteq> None"

named_theorems no_panic_rules

lemma no_panic_Some [no_panic_rules]: "no_panic (Some x)"
  by (simp add: no_panic_def)

lemma no_panic_cbind [no_panic_rules]: "\<lbrakk>no_panic m; \<And>x. m = Some (Inr x) \<Longrightarrow> no_panic (f x)\<rbrakk> \<Longrightarrow> no_panic (cbind m f)"
  by (auto simp: no_panic_def cbind_eq_None)

lemma no_panic_if [no_panic_rules]: "\<lbrakk>b \<Longrightarrow> no_panic m; \<not> b \<Longrightarrow> no_panic n\<rbrakk> \<Longrightarrow> no_panic (if b then m else n)"
  by simp

lemma no_panic_case_prod [no_panic_rules]:
  "(\<And>a b. p = (a, b) \<Longrightarrow> no_panic (f a b)) \<Longrightarrow> no_panic (case p of (a, b) \<Rightarrow> f a b)"
  by (cases p) simp

section \<open>Constants and observations\<close>

definition YUNET_SCORE_THRESHOLD :: fl where "YUNET_SCORE_THRESHOLD = lit32 (7 / 10)"
definition SCORE_TOLERANCE :: fl where "SCORE_TOLERANCE = lit32 (1 / 10 ^ 5)"
definition YUNET_TOP_K :: nat where "YUNET_TOP_K = 5000"
definition YUNET_MINIMUM_RUNTIME_DIMENSION :: u32 where "YUNET_MINIMUM_RUNTIME_DIMENSION = 64"
definition TRACKING_WIDTH :: u32 where "TRACKING_WIDTH = 320"
definition TRACKING_HEIGHT :: u32 where "TRACKING_HEIGHT = 320"
definition MAX_FACES :: nat where "MAX_FACES = 8"

datatype inference_mode = Tracking | FullResolution

record face_rectangle =
  rect_x :: u16
  rect_y :: u16
  rect_width :: u16
  rect_height :: u16

record face_observation =
  obs_rectangle :: face_rectangle
  obs_landmarks :: "u16 list"

record vision_analysis =
  analysis_faces :: "face_observation list"
  analysis_quality :: quality_metrics

record runtime_input =
  ri_bytes :: bytes
  ri_width :: u32
  ri_height :: u32

section \<open>Conversion to BGR\<close>

text \<open>\<^verbatim>\<open>checked_mul\<close> and \<^verbatim>\<open>checked_add\<close> on \<^verbatim>\<open>usize\<close>.\<close>

definition usize_fits :: "nat \<Rightarrow> vision_error + nat" where
  "usize_fits n = (if n < 2 ^ 64 then Inr n else Inl InvalidRuntimeOutput)"

text \<open>The three bytes a pixel contributes, \<open>None\<close> for an index out of range.\<close>

fun bgr_pixel :: "pixel_format \<Rightarrow> bytes \<Rightarrow> nat \<Rightarrow> (u8 \<times> u8 \<times> u8) option" where
  "bgr_pixel Gray8 bs off = (if off < length bs then Some (bs ! off, bs ! off, bs ! off) else None)"
| "bgr_pixel _ bs off =
     (if off + 2 < length bs then Some (bs ! (off + 2), bs ! (off + 1), bs ! off) else None)"

fun bgr_row :: "image_view \<Rightarrow> nat \<Rightarrow> nat \<Rightarrow> nat \<Rightarrow> nat \<Rightarrow> bytes \<Rightarrow> bytes checked" where
  "bgr_row img source_row output_row 0 x out = Some (Inr out)"
| "bgr_row img source_row output_row (Suc n) x out =
     cbind (Some (usize_fits (source_row + x * unat (bytes_per_pixel (img_format img))))) (\<lambda>source.
     cbind (Some (usize_fits (output_row + x * 3))) (\<lambda>target.
     case bgr_pixel (img_format img) (img_bytes img) source of
       None \<Rightarrow> None
     | Some (b, g, r) \<Rightarrow>
         if target + 2 < length out
         then bgr_row img source_row output_row n (Suc x) (out[target := b, target + 1 := g, target + 2 := r])
         else None))"

fun bgr_rows :: "image_view \<Rightarrow> control \<Rightarrow> nat \<Rightarrow> nat \<Rightarrow> nat \<Rightarrow> nat \<Rightarrow> bytes \<Rightarrow> (bytes \<times> nat) checked" where
  "bgr_rows img c i runtime_width 0 y out = Some (Inr (out, i))"
| "bgr_rows img c i runtime_width (Suc n) y out =
     cbind (Some (control_check c i)) (\<lambda>_.
     cbind (Some (usize_fits (y * unat (img_stride img)))) (\<lambda>source_row.
     cbind (Some (usize_fits (y * runtime_width * 3))) (\<lambda>output_row.
     cbind (bgr_row img source_row output_row (unat (img_width img)) 0 out) (\<lambda>out'.
     bgr_rows img c (Suc i) runtime_width n (Suc y) out'))))"

definition convert_to_bgr :: "image_view \<Rightarrow> control \<Rightarrow> nat \<Rightarrow> (runtime_input \<times> nat) checked" where
  "convert_to_bgr img c i =
     (let runtime_width = max (img_width img) YUNET_MINIMUM_RUNTIME_DIMENSION;
          runtime_height = max (img_height img) YUNET_MINIMUM_RUNTIME_DIMENSION in
      cbind (Some (usize_fits (unat runtime_width * unat runtime_height))) (\<lambda>pixels.
      cbind (Some (usize_fits (pixels * 3))) (\<lambda>output_size.
      cbind (bgr_rows img c i (unat runtime_width) (unat (img_height img)) 0 (replicate output_size 0)) (\<lambda>(out, j).
      Some (Inr (\<lparr>ri_bytes = out, ri_width = runtime_width, ri_height = runtime_height\<rparr>, j))))))"

section \<open>Validation of detections\<close>

fun fl_floor :: "fl \<Rightarrow> fl" where
  "fl_floor (Fin s m) = Fin s \<bar>of_int \<lfloor>fl_value (Fin s m)\<rfloor>\<bar>"
| "fl_floor x = x"

fun fl_ceil :: "fl \<Rightarrow> fl" where
  "fl_ceil (Fin s m) = Fin s \<bar>of_int \<lceil>fl_value (Fin s m)\<rceil>\<bar>"
| "fl_ceil x = x"

text \<open>\<^verbatim>\<open>f32::round\<close> rounds half-way cases away from zero.\<close>

fun fl_round :: "fl \<Rightarrow> fl" where
  "fl_round (Fin s m) = Fin s (of_int \<lfloor>m + 1 / 2\<rfloor>)"
| "fl_round x = x"

text \<open>\<^verbatim>\<open>f32::max\<close> ignores a NaN; \<^verbatim>\<open>f32::clamp\<close> panics unless the bounds are ordered.\<close>

definition fl_max :: "fl \<Rightarrow> fl \<Rightarrow> fl" where
  "fl_max a b = (if a = NaN then b else if f64_lt a b then b else a)"

definition fl_clamp :: "fl \<Rightarrow> fl \<Rightarrow> fl \<Rightarrow> fl option" where
  "fl_clamp x lo hi = (if f64_le lo hi then Some (f64_clamp x lo hi) else None)"

abbreviation fl_zero :: fl where "fl_zero \<equiv> Fin False 0"

definition fl_of_u16 :: "nat \<Rightarrow> fl" where
  "fl_of_u16 n = Fin False (of_nat n)"

definition u16_try_from :: "u32 \<Rightarrow> vision_error + nat" where
  "u16_try_from w = (if unat w < 2 ^ 16 then Inr (unat w) else Inl InvalidRuntimeOutput)"

definition checked_u16 :: "fl \<Rightarrow> vision_error + u16" where
  "checked_u16 v =
     (if \<not> is_finite v \<or> f64_lt v fl_zero \<or> f64_lt (fl_of_u16 65535) v then Inl InvalidRuntimeOutput
      else Inr (word_of_nat (nat \<lfloor>fl_value v\<rfloor>)))"

text \<open>The landmarks of a row: values 4 to 13 in pairs.\<close>

definition landmark_pairs :: "raw_detection \<Rightarrow> (fl \<times> fl) list" where
  "landmark_pairs d = map (\<lambda>k. (det_values d ! (4 + 2 * k), det_values d ! (5 + 2 * k))) [0..<5]"

definition outside :: "fl \<Rightarrow> fl \<Rightarrow> fl \<Rightarrow> fl \<Rightarrow> fl \<times> fl \<Rightarrow> bool" where
  "outside l t r b p \<longleftrightarrow>
     f64_lt (fst p) l \<or> f64_le r (fst p) \<or> f64_lt (snd p) t \<or> f64_le b (snd p)"

record face_bounds =
  fb_left :: fl
  fb_top :: fl
  fb_right :: fl
  fb_bottom :: fl

text \<open>Everything the loop body checks of one detection, up to the integer bounds of its face.\<close>

definition check_detection :: "raw_detection \<Rightarrow> fl \<Rightarrow> fl \<Rightarrow> vision_error + face_bounds" where
  "check_detection d image_width image_height =
     (let x = det_values d ! 0; y = det_values d ! 1; width = det_values d ! 2; height = det_values d ! 3;
          r_edge = f32_add x width; b_edge = f32_add y height; score = det_values d ! 14 in
      if \<not> list_all is_finite (det_values d) then Inl InvalidRuntimeOutput
      else if f64_lt (f32_add score SCORE_TOLERANCE) YUNET_SCORE_THRESHOLD
           \<or> f64_lt (f32_add (Fin False 1) SCORE_TOLERANCE) score then Inl InvalidRuntimeOutput
      else if f64_le width fl_zero \<or> f64_le height fl_zero \<or> \<not> is_finite r_edge \<or> \<not> is_finite b_edge
      then Inl InvalidRuntimeOutput
      else if f64_lt x fl_zero \<or> f64_lt y fl_zero \<or> f64_lt image_width r_edge \<or> f64_lt image_height b_edge
      then (if f64_lt fl_zero r_edge \<and> f64_lt fl_zero b_edge \<and> f64_lt x image_width \<and> f64_lt y image_height
               \<and> f64_le width image_width \<and> f64_le height image_height
            then Inl FaceAtEdge else Inl InvalidRuntimeOutput)
      else if list_ex (outside fl_zero fl_zero image_width image_height) (landmark_pairs d)
      then Inl InvalidRuntimeOutput
      else
        let b = \<lparr>fb_left = fl_floor x, fb_top = fl_floor y, fb_right = fl_ceil r_edge, fb_bottom = fl_ceil b_edge\<rparr> in
        if f64_le (f32_sub (fb_right b) (fb_left b)) fl_zero \<or> f64_le (f32_sub (fb_bottom b) (fb_top b)) fl_zero
        then Inl InvalidRuntimeOutput
        else if list_ex (outside (fb_left b) (fb_top b) (fb_right b) (fb_bottom b)) (landmark_pairs d)
        then Inl InvalidRuntimeOutput
        else Inr b)"

definition observe_landmark :: "face_bounds \<Rightarrow> fl \<times> fl \<Rightarrow> (u16 \<times> u16) checked" where
  "observe_landmark b p =
     (case (fl_clamp (fl_round (fst p)) (fb_left b) (fl_max (f32_sub (fb_right b) (Fin False 1)) (fb_left b)),
            fl_clamp (fl_round (snd p)) (fb_top b) (fl_max (f32_sub (fb_bottom b) (Fin False 1)) (fb_top b))) of
        (Some cx, Some cy) \<Rightarrow>
          cbind (Some (checked_u16 cx)) (\<lambda>lx.
          cbind (Some (checked_u16 cy)) (\<lambda>ly. Some (Inr (lx, ly))))
      | _ \<Rightarrow> None)"

fun observe_landmarks :: "face_bounds \<Rightarrow> (fl \<times> fl) list \<Rightarrow> u16 list checked" where
  "observe_landmarks b [] = Some (Inr [])"
| "observe_landmarks b (p # ps) =
     cbind (observe_landmark b p) (\<lambda>(lx, ly).
     cbind (observe_landmarks b ps) (\<lambda>rest. Some (Inr (lx # ly # rest))))"

definition observe_face :: "raw_detection \<Rightarrow> face_bounds \<Rightarrow> face_observation checked" where
  "observe_face d b =
     cbind (observe_landmarks b (landmark_pairs d)) (\<lambda>points.
     cbind (Some (checked_u16 (fb_left b))) (\<lambda>x.
     cbind (Some (checked_u16 (fb_top b))) (\<lambda>y.
     cbind (Some (checked_u16 (f32_sub (fb_right b) (fb_left b)))) (\<lambda>w.
     cbind (Some (checked_u16 (f32_sub (fb_bottom b) (fb_top b)))) (\<lambda>h.
     Some (Inr \<lparr>obs_rectangle = \<lparr>rect_x = x, rect_y = y, rect_width = w, rect_height = h\<rparr>,
                obs_landmarks = points\<rparr>))))))"

fun validate_loop :: "fl \<Rightarrow> fl \<Rightarrow> raw_detection list \<Rightarrow> face_observation list \<Rightarrow> face_observation list checked" where
  "validate_loop iw ih [] faces = Some (Inr faces)"
| "validate_loop iw ih (d # ds) faces =
     cbind (Some (check_detection d iw ih)) (\<lambda>b.
     if length faces < MAX_FACES
     then cbind (observe_face d b) (\<lambda>f. validate_loop iw ih ds (faces @ [f]))
     else validate_loop iw ih ds faces)"

definition validate_detections :: "raw_detection list \<Rightarrow> u32 \<Rightarrow> u32 \<Rightarrow> face_observation list checked" where
  "validate_detections ds image_width image_height =
     (if length ds > YUNET_TOP_K then Some (Inl InvalidRuntimeOutput)
      else
        cbind (Some (u16_try_from image_width)) (\<lambda>iw.
        cbind (Some (u16_try_from image_height)) (\<lambda>ih.
        validate_loop (fl_of_u16 iw) (fl_of_u16 ih) ds [])))"

section \<open>Detection\<close>

fun map_bridge_error :: "bridge_error \<Rightarrow> vision_error" where
  "map_bridge_error Bridge_MalformedOutput = InvalidRuntimeOutput"
| "map_bridge_error Bridge_OutputTooLarge = InvalidRuntimeOutput"
| "map_bridge_error Bridge_InvalidArgument = InvalidRuntimeOutput"
| "map_bridge_error Bridge_RuntimeFailure = RuntimeFailure"
| "map_bridge_error Bridge_HardeningFailure = RuntimeFailure"
| "map_bridge_error Bridge_UnknownStatus = RuntimeFailure"

definition detect_raw :: "vision_native \<Rightarrow> bytes \<Rightarrow> image_view \<Rightarrow> control \<Rightarrow> nat \<Rightarrow> inference_mode
    \<Rightarrow> (runtime_input \<times> raw_detection list \<times> quality_metrics \<times> nat) checked" where
  "detect_raw vn handle img c i mode =
     cbind (Some (control_check c i)) (\<lambda>_.
     cbind (calculate_quality img c (Suc i)) (\<lambda>(quality, i1).
     cbind (convert_to_bgr img c i1) (\<lambda>(bgr, i2).
     cbind (Some (control_check c i2)) (\<lambda>_.
     cbind (Some (usize_fits (unat (ri_width bgr) * 3))) (\<lambda>stride.
     cbind (Some (map_err map_bridge_error
              (detect_at_resolution vn handle (ri_bytes bgr) (ri_width bgr) (ri_height bgr) stride
                (case mode of Tracking \<Rightarrow> (TRACKING_WIDTH, TRACKING_HEIGHT)
                 | FullResolution \<Rightarrow> (ri_width bgr, ri_height bgr)) YUNET_TOP_K))) (\<lambda>raw.
     cbind (Some (control_check c (Suc i2))) (\<lambda>_.
     cbind (validate_detections raw (img_width img) (img_height img)) (\<lambda>_.
     cbind (Some (control_check c (Suc (Suc i2)))) (\<lambda>_.
     Some (Inr (bgr, raw, quality, Suc (Suc (Suc i2)))))))))))))"

definition yunet_analyze ::
    "vision_native \<Rightarrow> bytes \<Rightarrow> image_view \<Rightarrow> control \<Rightarrow> nat \<Rightarrow> vision_analysis checked" where
  "yunet_analyze vn handle img c i =
     cbind (detect_raw vn handle img c i Tracking) (\<lambda>(_, raw, quality, j).
     cbind (validate_detections raw (img_width img) (img_height img)) (\<lambda>faces.
     cbind (Some (control_check c j)) (\<lambda>_.
     Some (Inr \<lparr>analysis_faces = faces, analysis_quality = quality\<rparr>))))"

section \<open>The conversion is exact\<close>

text \<open>The byte a BGR buffer holds for channel \<open>k\<close> of pixel \<open>(x, y)\<close>.\<close>

definition bgr_byte :: "image_view \<Rightarrow> nat \<Rightarrow> nat \<Rightarrow> nat \<Rightarrow> u8" where
  "bgr_byte img y x k =
     img_bytes img ! (y * unat (img_stride img) + x * unat (bytes_per_pixel (img_format img))
       + (if img_format img = Gray8 then 0 else 2 - k))"

lemma bgr_pixel_in_range:
  assumes "view_wf img" "y < unat (img_height img)" "x < unat (img_width img)"
  shows "bgr_pixel (img_format img) (img_bytes img)
      (y * unat (img_stride img) + x * unat (bytes_per_pixel (img_format img)))
    = Some (bgr_byte img y x 0, bgr_byte img y x 1, bgr_byte img y x 2)"
    "y * unat (img_stride img) + x * unat (bytes_per_pixel (img_format img)) < 2 ^ 64"
proof -
  let ?bpp = "unat (bytes_per_pixel (img_format img))"
  have s: "unat (img_width img) * ?bpp \<le> unat (img_stride img)"
    and l: "length (img_bytes img) = unat (img_stride img) * unat (img_height img)" "length (img_bytes img) \<le> 8294400"
    using assms(1) by (auto simp: view_wf_def MAX_FRAME_BYTES_def mult.commute)
  have "(x + 1) * ?bpp \<le> unat (img_width img) * ?bpp" using assms(3) by (intro mult_le_mono) simp_all
  moreover have "(y + 1) * unat (img_stride img) \<le> unat (img_height img) * unat (img_stride img)"
    using assms(2) by (intro mult_le_mono) simp_all
  ultimately have r: "y * unat (img_stride img) + x * ?bpp + ?bpp \<le> length (img_bytes img)"
    using s l(1) by (simp add: algebra_simps)
  then show "y * unat (img_stride img) + x * ?bpp < 2 ^ 64" using l(2) by simp
  show "bgr_pixel (img_format img) (img_bytes img) (y * unat (img_stride img) + x * ?bpp)
    = Some (bgr_byte img y x 0, bgr_byte img y x 1, bgr_byte img y x 2)"
    using r by (cases "img_format img") (simp_all add: bgr_byte_def)
qed

lemma bgr_row_exact:
  assumes "view_wf img" "y < unat (img_height img)" "x + n = unat (img_width img)"
    "orow + 3 * unat (img_width img) \<le> length out" "length out < 2 ^ 64"
  shows "\<exists>out'. bgr_row img (y * unat (img_stride img)) orow n x out = Some (Inr out') \<and> length out' = length out
    \<and> (\<forall>z k. x \<le> z \<longrightarrow> z < x + n \<longrightarrow> k < 3 \<longrightarrow> out' ! (orow + 3 * z + k) = bgr_byte img y z k)
    \<and> (\<forall>j. j < orow + 3 * x \<or> orow + 3 * (x + n) \<le> j \<longrightarrow> out' ! j = out ! j)"
  using assms(3-5)
proof (induction n arbitrary: x out)
  case 0
  then show ?case by auto
next
  case (Suc n)
  let ?o = "out[orow + 3 * x := bgr_byte img y x 0, orow + 3 * x + 1 := bgr_byte img y x 1, orow + 3 * x + 2 := bgr_byte img y x 2]"
  have x: "x < unat (img_width img)" using Suc.prems(1) by simp
  note px = bgr_pixel_in_range [OF assms(1,2) x]
  have t: "orow + 3 * x + 2 < length out" using x Suc.prems(2) by linarith
  have run: "bgr_row img (y * unat (img_stride img)) orow (Suc n) x out = bgr_row img (y * unat (img_stride img)) orow n (Suc x) ?o"
    using px t Suc.prems(3) by (simp add: usize_fits_def mult.commute)
  have IH: "\<exists>out'. bgr_row img (y * unat (img_stride img)) orow n (Suc x) ?o = Some (Inr out') \<and> length out' = length ?o
    \<and> (\<forall>z k. Suc x \<le> z \<longrightarrow> z < Suc x + n \<longrightarrow> k < 3 \<longrightarrow> out' ! (orow + 3 * z + k) = bgr_byte img y z k)
    \<and> (\<forall>j. j < orow + 3 * Suc x \<or> orow + 3 * (Suc x + n) \<le> j \<longrightarrow> out' ! j = ?o ! j)"
    using Suc.prems by (intro Suc.IH) simp_all
  then obtain out' where o:
    "bgr_row img (y * unat (img_stride img)) orow n (Suc x) ?o = Some (Inr out')" "length out' = length out"
    "\<And>z k. Suc x \<le> z \<Longrightarrow> z < Suc x + n \<Longrightarrow> k < 3 \<Longrightarrow> out' ! (orow + 3 * z + k) = bgr_byte img y z k"
    "\<And>j. j < orow + 3 * Suc x \<or> orow + 3 * (Suc x + n) \<le> j \<Longrightarrow> out' ! j = ?o ! j"
    unfolding length_list_update by blast
  have "out' ! (orow + 3 * z + k) = bgr_byte img y z k" if "x \<le> z" "z < x + Suc n" "k < 3" for z k
  proof (cases "z = x")
    case True
    have "k = 0 \<or> k = 1 \<or> k = 2" using that(3) by auto
    then show ?thesis using o(4) [of "orow + 3 * x + k"] True t that(3) by auto
  next
    case False
    then show ?thesis using o(3) that by simp
  qed
  moreover have "out' ! j = out ! j" if "j < orow + 3 * x \<or> orow + 3 * (x + Suc n) \<le> j" for j
    using o(4) [of j] that by auto
  ultimately show ?case using o(1,2) run by auto
qed

lemma bgr_rows_exact:
  assumes "view_wf img" "y + n = unat (img_height img)"
    "unat (img_width img) \<le> rw" "rw * unat (img_height img) * 3 \<le> length out" "length out < 2 ^ 64"
    "bgr_rows img c i rw n y out = Some (Inr (out', j))"
  shows "length out' = length out \<and> j = i + n
    \<and> (\<forall>v x k. y \<le> v \<longrightarrow> v < unat (img_height img) \<longrightarrow> x < rw \<longrightarrow> k < 3 \<longrightarrow>
         out' ! (3 * (v * rw + x) + k) = (if x < unat (img_width img) then bgr_byte img v x k else out ! (3 * (v * rw + x) + k)))
    \<and> (\<forall>m. m < 3 * (y * rw) \<or> 3 * (unat (img_height img) * rw) \<le> m \<longrightarrow> out' ! m = out ! m)"
  using assms(2,4-6)
proof (induction n arbitrary: i y out)
  case 0
  then show ?case by auto
next
  case (Suc n)
  let ?H = "unat (img_height img)" and ?W = "unat (img_width img)"
  have y: "y < ?H" using Suc.prems(1) by simp
  have "(y + 1) * rw \<le> ?H * rw" using y by (intro mult_le_mono1) simp
  then have fit: "y * rw * 3 + 3 * rw \<le> length out" using Suc.prems(2) by (simp add: algebra_simps)
  have "y * unat (img_stride img) < 2 ^ 64"
    using bgr_pixel_in_range(2) [OF assms(1) y, of 0] assms(1) by (simp add: view_wf_def)
  moreover have "y * rw * 3 < 2 ^ 64" using fit Suc.prems(3) by simp
  moreover obtain o1 where o1: "bgr_row img (y * unat (img_stride img)) (y * rw * 3) ?W 0 out = Some (Inr o1)"
    "length o1 = length out"
    "\<And>z k. z < ?W \<Longrightarrow> k < 3 \<Longrightarrow> o1 ! (y * rw * 3 + 3 * z + k) = bgr_byte img y z k"
    "\<And>m. m < y * rw * 3 \<or> y * rw * 3 + 3 * ?W \<le> m \<Longrightarrow> o1 ! m = out ! m"
    using bgr_row_exact [OF assms(1) y, of 0 ?W "y * rw * 3" out] fit assms(3) Suc.prems(3) by fastforce
  ultimately have run: "bgr_rows img c (Suc i) rw n (Suc y) o1 = Some (Inr (out', j))"
    using Suc.prems(4) by (auto simp: cbind_eq_Some_Inr usize_fits_def)
  have IH: "length out' = length o1" "j = Suc i + n"
    "\<And>v x k. Suc y \<le> v \<Longrightarrow> v < ?H \<Longrightarrow> x < rw \<Longrightarrow> k < 3 \<Longrightarrow>
       out' ! (3 * (v * rw + x) + k) = (if x < ?W then bgr_byte img v x k else o1 ! (3 * (v * rw + x) + k))"
    "\<And>m. m < 3 * (Suc y * rw) \<or> 3 * (?H * rw) \<le> m \<Longrightarrow> out' ! m = o1 ! m"
    using Suc.IH [of "Suc y" o1 "Suc i"] Suc.prems(1-3) run o1(2) by (simp_all, blast+)
  have "out' ! (3 * (v * rw + x) + k) = (if x < ?W then bgr_byte img v x k else out ! (3 * (v * rw + x) + k))"
    if "y \<le> v" "v < ?H" "x < rw" "k < 3" for v x k
  proof (cases "v = y")
    case True
    have "out' ! (3 * (y * rw + x) + k) = o1 ! (3 * (y * rw + x) + k)" using that by (intro IH(4)) simp
    then show ?thesis using True o1(3) [of x k] o1(4) [of "3 * (y * rw + x) + k"] that by (auto simp: algebra_simps)
  next
    case False
    have "Suc y * rw \<le> v * rw" using that False by (intro mult_le_mono1) simp
    then have "o1 ! (3 * (v * rw + x) + k) = out ! (3 * (v * rw + x) + k)"
      using assms(3) by (intro o1(4)) (simp add: algebra_simps)
    then show ?thesis using IH(3) [of v x k] that False by simp
  qed
  moreover have "out' ! m = out ! m" if "m < 3 * (y * rw) \<or> 3 * (?H * rw) \<le> m" for m
    using that IH(4) [of m] o1(4) [of m] \<open>(y + 1) * rw \<le> ?H * rw\<close> assms(3) by (auto simp: algebra_simps)
  ultimately show ?case using IH(1,2) o1(2) by simp
qed

definition check_errors :: "vision_error set" where
  "check_errors = {Cancelled, DeadlineExceeded}"

lemma control_check_Inl: "control_check c i = Inl e \<Longrightarrow> e \<in> check_errors"
  by (auto simp: control_check_def check_errors_def split: if_splits)

lemma triple_le: "a \<le> b \<Longrightarrow> 3 * a \<le> 3 * (b + x) + k" for a b x k :: nat
  by simp

lemma bgr_rows_total:
  assumes "view_wf img" "y + n = unat (img_height img)"
    "unat (img_width img) \<le> rw" "rw * unat (img_height img) * 3 \<le> length out" "length out < 2 ^ 64"
  shows "\<exists>r. bgr_rows img c i rw n y out = Some r \<and> (\<forall>e. r = Inl e \<longrightarrow> e \<in> check_errors)"
  using assms(2,4,5)
proof (induction n arbitrary: i y out)
  case (Suc n)
  let ?H = "unat (img_height img)" and ?W = "unat (img_width img)"
  have y: "y < ?H" using Suc.prems(1) by simp
  have "(y + 1) * rw \<le> ?H * rw" using y by (intro mult_le_mono1) simp
  then have fit: "y * rw * 3 + 3 * rw \<le> length out" using Suc.prems(2) by (simp add: algebra_simps)
  have s: "y * unat (img_stride img) < 2 ^ 64"
    using bgr_pixel_in_range(2) [OF assms(1) y, of 0] assms(1) by (simp add: view_wf_def)
  obtain o1 where o1: "bgr_row img (y * unat (img_stride img)) (y * rw * 3) ?W 0 out = Some (Inr o1)"
    "length o1 = length out"
    using bgr_row_exact [OF assms(1) y, of 0 ?W "y * rw * 3" out] fit assms(3) Suc.prems(3) by fastforce
  have IH: "\<exists>r. bgr_rows img c (Suc i) rw n (Suc y) o1 = Some r \<and> (\<forall>e. r = Inl e \<longrightarrow> e \<in> check_errors)"
    using Suc.prems o1(2) by (intro Suc.IH) simp_all
  show ?case
  proof (cases "control_check c i")
    case (Inl e)
    then show ?thesis using control_check_Inl [OF Inl] by simp
  next
    case (Inr u)
    then show ?thesis using IH o1(1) s fit Suc.prems(3) by (simp add: usize_fits_def)
  qed
qed auto

lemma convert_to_bgr_run:
  assumes "view_wf img"
  shows "\<exists>r. convert_to_bgr img c i = Some r
    \<and> (\<forall>e. r = Inl e \<longrightarrow> e \<in> check_errors)
    \<and> (\<forall>b j. r = Inr (b, j) \<longrightarrow>
         j = i + unat (img_height img)
       \<and> ri_width b = max (img_width img) 64 \<and> ri_height b = max (img_height img) 64
       \<and> length (ri_bytes b) = 3 * (unat (ri_width b) * unat (ri_height b))
       \<and> (\<forall>y x k. y < unat (ri_height b) \<longrightarrow> x < unat (ri_width b) \<longrightarrow> k < 3 \<longrightarrow>
            ri_bytes b ! (3 * (y * unat (ri_width b) + x) + k)
              = (if x < unat (img_width img) \<and> y < unat (img_height img) then bgr_byte img y x k else 0)))"
proof -
  let ?rw = "max (img_width img) YUNET_MINIMUM_RUNTIME_DIMENSION"
  let ?rh = "max (img_height img) YUNET_MINIMUM_RUNTIME_DIMENSION"
  let ?W = "unat (img_width img)" and ?H = "unat (img_height img)"
  let ?out = "replicate (unat ?rw * unat ?rh * 3) (0 :: u8)"
  have u: "unat ?rw = max ?W 64" "unat ?rh = max ?H 64"
    by (simp_all add: max_def word_le_nat_alt YUNET_MINIMUM_RUNTIME_DIMENSION_def)
  have wf: "?W \<le> 1920" "?H \<le> 1080" using assms by (simp_all add: view_wf_def)
  have p: "unat ?rw * unat ?rh \<le> 1920 * 1080" unfolding u using wf by (intro mult_le_mono) simp_all
  have le: "?W \<le> unat ?rw" "?H \<le> unat ?rh" by (simp_all add: u)
  have l: "unat ?rw * ?H * 3 \<le> length ?out" "length ?out < 2 ^ 64" using p le(2) by simp_all
  obtain r where r: "bgr_rows img c i (unat ?rw) ?H 0 ?out = Some r" "\<forall>e. r = Inl e \<longrightarrow> e \<in> check_errors"
    using bgr_rows_total [OF assms _ le(1) l, of 0 ?H c i] by auto
  have run: "convert_to_bgr img c i = cbind (Some r) (\<lambda>(out, j).
      Some (Inr (\<lparr>ri_bytes = out, ri_width = ?rw, ri_height = ?rh\<rparr>, j)))"
    using p r(1) by (simp add: convert_to_bgr_def Let_def usize_fits_def)
  show ?thesis
  proof (cases r)
    case (Inl e)
    then show ?thesis using run r(2) by simp
  next
    case (Inr oj)
    obtain out j where oj: "oj = (out, j)" by force
    have rows: "bgr_rows img c i (unat ?rw) ?H 0 ?out = Some (Inr (out, j))" using r(1) Inr oj by simp
    have ex: "length out = length ?out" "j = i + ?H"
      "\<And>v x k. v < ?H \<Longrightarrow> x < unat ?rw \<Longrightarrow> k < 3 \<Longrightarrow> out ! (3 * (v * unat ?rw + x) + k)
         = (if x < ?W then bgr_byte img v x k else ?out ! (3 * (v * unat ?rw + x) + k))"
      "\<And>m. 3 * (?H * unat ?rw) \<le> m \<Longrightarrow> out ! m = ?out ! m"
      using bgr_rows_exact [OF assms _ le(1) l rows] by auto
    have "out ! (3 * (y * unat ?rw + x) + k) = (if x < ?W \<and> y < ?H then bgr_byte img y x k else 0)"
      if h: "y < unat ?rh" "x < unat ?rw" "k < 3" for y x k
    proof -
      have "(y + 1) * unat ?rw \<le> unat ?rh * unat ?rw" using h(1) by (intro mult_le_mono1) simp
      then have i: "3 * (y * unat ?rw + x) + k < unat ?rw * unat ?rh * 3" using h(2,3) by (simp add: algebra_simps)
      show ?thesis
      proof (cases "y < ?H")
        case True
        then show ?thesis using ex(3) [OF True h(2,3)] i by simp
      next
        case False
        then have "?H * unat ?rw \<le> y * unat ?rw" by (intro mult_le_mono1) simp
        then have "3 * (?H * unat ?rw) \<le> 3 * (y * unat ?rw + x) + k" by (rule triple_le)
        from ex(4) [OF this] i False show ?thesis by simp
      qed
    qed
    then show ?thesis using run Inr oj ex(1,2) by (simp add: YUNET_MINIMUM_RUNTIME_DIMENSION_def mult.commute)
  qed
qed

text \<open>
  Claim C31: on an accepted image the conversion never panics and never overflows: it ends at a failed check, or yields a
  buffer of exactly three bytes per pixel of the runtime size (at least 64 in each direction) in which every pixel of the
  image appears with its channels in BGR order and everything else is zero.
\<close>

theorem convert_to_bgr_exact:
  assumes "image_view_new f w h s bs = Inr img"
  shows "\<exists>r. convert_to_bgr img c i = Some r
    \<and> (\<forall>e. r = Inl e \<longrightarrow> e \<in> check_errors)
    \<and> (\<forall>b j. r = Inr (b, j) \<longrightarrow>
         j = i + unat (img_height img)
       \<and> ri_width b = max (img_width img) 64 \<and> ri_height b = max (img_height img) 64
       \<and> length (ri_bytes b) = 3 * (unat (ri_width b) * unat (ri_height b))
       \<and> (\<forall>y x k. y < unat (ri_height b) \<longrightarrow> x < unat (ri_width b) \<longrightarrow> k < 3 \<longrightarrow>
            ri_bytes b ! (3 * (y * unat (ri_width b) + x) + k)
              = (if x < unat (img_width img) \<and> y < unat (img_height img) then bgr_byte img y x k else 0)))"
  by (rule convert_to_bgr_run [OF image_view_new_wf [OF assms]])

section \<open>Accepted faces lie within the image\<close>

text \<open>Finite integral values, on which the single-precision operations of the validation are exact.\<close>

definition int_fl :: "fl \<Rightarrow> int \<Rightarrow> bool" where
  "int_fl x n \<longleftrightarrow> is_finite x \<and> fl_nonneg x \<and> fl_value x = of_int n"

lemma int_flE:
  assumes "int_fl x n"
  obtains s m where "x = Fin s m" "0 \<le> m" "fl_value x = of_int n" "m = \<bar>of_int n\<bar>"
  using assms by (cases x) (auto simp: int_fl_def split: if_splits)

lemma int_fl_floor: "is_finite x \<Longrightarrow> fl_nonneg x \<Longrightarrow> 0 \<le> fl_value x \<Longrightarrow> int_fl (fl_floor x) \<lfloor>fl_value x\<rfloor>"
  by (cases x) (auto simp: int_fl_def split: if_splits)

lemma int_fl_ceil: "is_finite x \<Longrightarrow> fl_nonneg x \<Longrightarrow> 0 \<le> fl_value x \<Longrightarrow> int_fl (fl_ceil x) \<lceil>fl_value x\<rceil>"
  by (cases x) (auto simp: int_fl_def split: if_splits)

lemma int_fl_round: "is_finite x \<Longrightarrow> fl_nonneg x \<Longrightarrow> \<exists>n. int_fl (fl_round x) n"
proof (cases x)
  case (Fin s m)
  assume "fl_nonneg x"
  then show ?thesis
    using Fin by (auto simp: int_fl_def intro!: exI [of _ "if s then - \<lfloor>m + 1 / 2\<rfloor> else \<lfloor>m + 1 / 2\<rfloor>"])
qed auto

lemma int_fl_lt: "int_fl a m \<Longrightarrow> int_fl b n \<Longrightarrow> f64_lt a b \<longleftrightarrow> m < n"
  by (cases a; cases b) (auto simp: int_fl_def)

lemma int_fl_le: "int_fl a m \<Longrightarrow> int_fl b n \<Longrightarrow> f64_le a b \<longleftrightarrow> m \<le> n"
  by (cases a; cases b) (auto simp: int_fl_def)

lemma int_fl_consts: "int_fl (Fin False 1) 1" "int_fl fl_zero 0" "int_fl (fl_of_u16 n) (int n)"
  by (simp_all add: int_fl_def fl_of_u16_def)

lemma round32_int:
  assumes "\<bar>n\<bar> < 2 ^ 24"
  shows "int_fl (round32 z (of_int n)) n"
proof (cases "n = 0")
  case True
  then show ?thesis by (simp add: int_fl_def round32_def)
next
  case False
  have "representable 24 (-149) (of_nat (nat \<bar>n\<bar>))"
    unfolding representable_def using assms
    by (intro exI [of _ "nat \<bar>n\<bar>"] exI [of _ "0 :: int"]) (simp add: nat_less_iff)
  then have r: "rnd 24 (-149) \<bar>of_int n\<bar> = \<bar>of_int n\<bar>" using rnd_representable by fastforce
  have "\<bar>of_int n\<bar> < (2 :: rat) ^ 24" using assms by (metis of_int_abs of_int_less_iff of_int_numeral of_int_power)
  also have "\<dots> \<le> 2 powi 128" using powi_two_mono [of 24 128] by simp
  finally have "\<not> 2 powi 128 \<le> \<bar>of_int n :: rat\<bar>" by simp
  with r False show ?thesis by (auto simp: int_fl_def round32_def fin32_def Let_def)
qed

lemma int_fl_sub:
  assumes "int_fl a m" "int_fl b n" "\<bar>m - n\<bar> < 2 ^ 24"
  shows "int_fl (f32_sub a b) (m - n)"
proof -
  obtain s k where a: "a = Fin s k" "fl_value a = of_int m" using assms(1) by (elim int_flE)
  obtain t l where b: "b = Fin t l" "fl_value b = of_int n" using assms(2) by (elim int_flE)
  have "fl_value (Fin (\<not> t) l) = - of_int n" using b by (auto split: if_splits)
  then have "f32_sub a b = round32 (s \<and> \<not> t) (of_int (m - n))"
    using a b(1) by (simp add: f32_sub_def del: fl_value.simps)
  then show ?thesis using round32_int [OF assms(3)] by simp
qed

lemma int_fl_max: "int_fl a m \<Longrightarrow> int_fl b n \<Longrightarrow> int_fl (fl_max a b) (max m n)"
  using int_fl_lt [of a m b n] by (auto simp: fl_max_def int_fl_def max_def)

lemma int_fl_clamp:
  assumes "int_fl x k" "int_fl lo m" "int_fl hi n" "m \<le> n"
  shows "\<exists>c. fl_clamp x lo hi = Some c \<and> int_fl c (max m (min n k))"
  using assms int_fl_lt [OF assms(1,2)] int_fl_lt [OF assms(3,1)] int_fl_le [OF assms(2,3)]
  by (auto simp: fl_clamp_def f64_clamp_def)

lemma checked_u16_int:
  assumes "int_fl x n" "0 \<le> n" "n \<le> 65535"
  shows "checked_u16 x = Inr (word_of_nat (nat n))"
  using assms int_fl_lt [OF assms(1) int_fl_consts(2)] int_fl_lt [OF int_fl_consts(3) assms(1), of 65535]
  by (simp add: checked_u16_def int_fl_def)

lemma fl_nonneg_f32_add: "fl_nonneg (f32_add a b)"
  by (cases a; cases b) (auto simp: round32_def fin32_def Let_def rnd_nonneg)

definition bounds_ok :: "nat \<Rightarrow> nat \<Rightarrow> face_bounds \<Rightarrow> int \<Rightarrow> int \<Rightarrow> int \<Rightarrow> int \<Rightarrow> bool" where
  "bounds_ok iw ih b l t r u \<longleftrightarrow> int_fl (fb_left b) l \<and> int_fl (fb_top b) t \<and> int_fl (fb_right b) r \<and> int_fl (fb_bottom b) u
     \<and> 0 \<le> l \<and> l < r \<and> r \<le> int iw \<and> 0 \<le> t \<and> t < u \<and> u \<le> int ih"

definition detection_wf :: "raw_detection \<Rightarrow> bool" where
  "detection_wf d \<longleftrightarrow> length (det_values d) = 15 \<and> list_all fl_nonneg (det_values d)"

lemma f32_add_nonneg:
  assumes "is_finite (f32_add x w)" "\<not> f64_lt x fl_zero" "\<not> f64_le w fl_zero" "is_finite x" "is_finite w"
  shows "0 \<le> fl_value (f32_add x w)"
  using assms by (cases x; cases w) (auto simp: round32_def fin32_def Let_def rnd_nonneg split: if_splits)

lemma int_fl_sub_nonpos:
  assumes "int_fl a m" "int_fl b n" "m \<le> n"
  shows "f64_le (f32_sub a b) fl_zero"
proof -
  obtain s k where a: "a = Fin s k" "fl_value a = of_int m" using assms(1) by (elim int_flE)
  obtain t l where b: "b = Fin t l" "fl_value b = of_int n" using assms(2) by (elim int_flE)
  have "fl_value (Fin (\<not> t) l) = - of_int n" using b by (auto split: if_splits)
  then have "f32_sub a b = round32 (s \<and> \<not> t) (of_int (m - n))"
    using a b(1) by (simp add: f32_sub_def del: fl_value.simps)
  moreover have "of_int (m - n) \<le> (0 :: rat)" using assms(3) by (simp only: of_int_le_0_iff)
  ultimately show ?thesis by (auto simp: round32_def fin32_def Let_def rnd_nonneg simp del: of_int_diff)
qed

text \<open>One axis: an interval that starts at 0 or later and ends within the image has integer bounds within it.\<close>

lemma axis_bounds:
  assumes "is_finite x" "fl_nonneg x" "is_finite w" "is_finite (f32_add x w)"
    "\<not> f64_le w fl_zero" "\<not> f64_lt x fl_zero" "\<not> f64_lt (fl_of_u16 n) (f32_add x w)"
    "\<not> f64_le (f32_sub (fl_ceil (f32_add x w)) (fl_floor x)) fl_zero"
  shows "\<exists>l r. int_fl (fl_floor x) l \<and> int_fl (fl_ceil (f32_add x w)) r \<and> 0 \<le> l \<and> l < r \<and> r \<le> int n"
proof -
  let ?e = "f32_add x w"
  have x0: "0 \<le> fl_value x" using assms(1,6) by (cases x) auto
  have e: "fl_value ?e \<le> of_nat n" using assms(4,7) by (cases ?e) (auto simp: fl_of_u16_def)
  have e0: "0 \<le> fl_value ?e" by (rule f32_add_nonneg [OF assms(4,6,5,1,3)])
  note l = int_fl_floor [OF assms(1,2) x0] and r = int_fl_ceil [OF assms(4) fl_nonneg_f32_add e0]
  have "\<lceil>fl_value ?e\<rceil> \<le> int n" using e by (simp add: ceiling_le_iff)
  moreover have "\<lfloor>fl_value x\<rfloor> < \<lceil>fl_value ?e\<rceil>" using int_fl_sub_nonpos [OF r l] assms(8) by linarith
  moreover have "0 \<le> \<lfloor>fl_value x\<rfloor>" using x0 by simp
  ultimately show ?thesis using l r by blast
qed

lemma check_detection_bounds:
  assumes "detection_wf d" "check_detection d (fl_of_u16 iw) (fl_of_u16 ih) = Inr b"
  shows "\<exists>l t r u. bounds_ok iw ih b l t r u"
    and "\<And>p. p \<in> set (landmark_pairs d) \<Longrightarrow> is_finite (fst p) \<and> is_finite (snd p) \<and> fl_nonneg (fst p) \<and> fl_nonneg (snd p)"
proof -
  have len: "length (det_values d) = 15" and nn: "\<And>k. k < 15 \<Longrightarrow> fl_nonneg (det_values d ! k)"
    using assms(1) by (simp_all add: detection_wf_def list_all_length)
  have fin: "\<And>k. k < 15 \<Longrightarrow> is_finite (det_values d ! k)"
    using assms(2) len by (auto simp: check_detection_def Let_def list_all_length split: if_splits)
  show "is_finite (fst p) \<and> is_finite (snd p) \<and> fl_nonneg (fst p) \<and> fl_nonneg (snd p)"
    if "p \<in> set (landmark_pairs d)" for p
    using that fin nn by (auto simp: landmark_pairs_def)
  let ?x = "det_values d ! 0" and ?y = "det_values d ! 1" and ?w = "det_values d ! 2" and ?h = "det_values d ! 3"
  from assms(2) have c: "is_finite (f32_add ?x ?w)" "is_finite (f32_add ?y ?h)" "\<not> f64_le ?w fl_zero"
    "\<not> f64_le ?h fl_zero" "\<not> f64_lt ?x fl_zero" "\<not> f64_lt ?y fl_zero"
    "\<not> f64_lt (fl_of_u16 iw) (f32_add ?x ?w)" "\<not> f64_lt (fl_of_u16 ih) (f32_add ?y ?h)"
    "\<not> f64_le (f32_sub (fl_ceil (f32_add ?x ?w)) (fl_floor ?x)) fl_zero"
    "\<not> f64_le (f32_sub (fl_ceil (f32_add ?y ?h)) (fl_floor ?y)) fl_zero"
    "b = \<lparr>fb_left = fl_floor ?x, fb_top = fl_floor ?y, fb_right = fl_ceil (f32_add ?x ?w), fb_bottom = fl_ceil (f32_add ?y ?h)\<rparr>"
    by (auto simp: check_detection_def Let_def split: if_splits)
  show "\<exists>l t r u. bounds_ok iw ih b l t r u"
    using axis_bounds [of ?x ?w iw] axis_bounds [of ?y ?h ih] c fin nn
    by (simp add: bounds_ok_def) blast
qed

lemma uint_of_small_nat:
  assumes "0 \<le> k" "k \<le> 65535"
  shows "uint (word_of_nat (nat k) :: u16) = k"
proof -
  have "unat (word_of_nat (nat k) :: u16) = nat k" using assms by (simp add: unat_of_nat take_bit_nat_eq_self del: of_nat_nat)
  then show ?thesis using assms(1) by (metis int_nat_eq uint_nat)
qed

lemma observe_landmark_ok:
  assumes "bounds_ok iw ih b l t r u" "iw \<le> 65535" "ih \<le> 65535"
    "is_finite (fst p)" "is_finite (snd p)" "fl_nonneg (fst p)" "fl_nonneg (snd p)"
  shows "\<exists>lx ly. observe_landmark b p = Some (Inr (lx, ly)) \<and> l \<le> uint lx \<and> uint lx < r \<and> t \<le> uint ly \<and> uint ly < u"
proof -
  have B: "int_fl (fb_left b) l" "int_fl (fb_top b) t" "int_fl (fb_right b) r" "int_fl (fb_bottom b) u"
    "0 \<le> l" "l < r" "r \<le> int iw" "0 \<le> t" "t < u" "u \<le> int ih" using assms(1) by (simp_all add: bounds_ok_def)
  obtain m n where mn: "int_fl (fl_round (fst p)) m" "int_fl (fl_round (snd p)) n"
    using int_fl_round assms(4-7) by metis
  have hx: "int_fl (fl_max (f32_sub (fb_right b) (Fin False 1)) (fb_left b)) (r - 1)"
    using int_fl_max [OF int_fl_sub [OF B(3) int_fl_consts(1)] B(1)] B assms(2) by (simp add: max_absorb1)
  have hy: "int_fl (fl_max (f32_sub (fb_bottom b) (Fin False 1)) (fb_top b)) (u - 1)"
    using int_fl_max [OF int_fl_sub [OF B(4) int_fl_consts(1)] B(2)] B assms(3) by (simp add: max_absorb1)
  obtain cx where cx: "fl_clamp (fl_round (fst p)) (fb_left b) (fl_max (f32_sub (fb_right b) (Fin False 1)) (fb_left b)) = Some cx"
    "int_fl cx (max l (min (r - 1) m))" using int_fl_clamp [OF mn(1) B(1) hx] B by auto
  obtain cy where cy: "fl_clamp (fl_round (snd p)) (fb_top b) (fl_max (f32_sub (fb_bottom b) (Fin False 1)) (fb_top b)) = Some cy"
    "int_fl cy (max t (min (u - 1) n))" using int_fl_clamp [OF mn(2) B(2) hy] B by auto
  have "checked_u16 cx = Inr (word_of_nat (nat (max l (min (r - 1) m))))"
    "checked_u16 cy = Inr (word_of_nat (nat (max t (min (u - 1) n))))"
    using B assms(2,3) by (intro checked_u16_int [OF cx(2)] checked_u16_int [OF cy(2)]; linarith)+
  moreover have "uint (word_of_nat (nat (max l (min (r - 1) m))) :: u16) = max l (min (r - 1) m)"
    "uint (word_of_nat (nat (max t (min (u - 1) n))) :: u16) = max t (min (u - 1) n)"
    using B assms(2,3) by (intro uint_of_small_nat; linarith)+
  ultimately show ?thesis using cx(1) cy(1) B assms(2,3) by (simp add: observe_landmark_def min_def del: of_nat_nat)
qed

fun points_in :: "int \<Rightarrow> int \<Rightarrow> int \<Rightarrow> int \<Rightarrow> u16 list \<Rightarrow> bool" where
  "points_in l t r u (x # y # ps) \<longleftrightarrow> l \<le> uint x \<and> uint x < r \<and> t \<le> uint y \<and> uint y < u \<and> points_in l t r u ps"
| "points_in l t r u ps \<longleftrightarrow> ps = []"

lemma observe_landmarks_ok:
  assumes "bounds_ok iw ih b l t r u" "iw \<le> 65535" "ih \<le> 65535"
    "\<And>p. p \<in> set ps \<Longrightarrow> is_finite (fst p) \<and> is_finite (snd p) \<and> fl_nonneg (fst p) \<and> fl_nonneg (snd p)"
  shows "\<exists>pts. observe_landmarks b ps = Some (Inr pts) \<and> length pts = 2 * length ps \<and> points_in l t r u pts"
  using assms(4)
proof (induction ps)
  case (Cons p ps)
  then obtain pts where "observe_landmarks b ps = Some (Inr pts)" "length pts = 2 * length ps" "points_in l t r u pts"
    by auto
  moreover obtain lx ly where "observe_landmark b p = Some (Inr (lx, ly))" "l \<le> uint lx" "uint lx < r" "t \<le> uint ly" "uint ly < u"
    using observe_landmark_ok [OF assms(1-3), of p] Cons.prems by auto
  ultimately show ?case by simp
qed simp

text \<open>A face lies within an image, and its five landmarks within its rectangle.\<close>

definition face_in :: "nat \<Rightarrow> nat \<Rightarrow> face_observation \<Rightarrow> bool" where
  "face_in iw ih f \<longleftrightarrow>
     (let rect = obs_rectangle f; l = uint (rect_x rect); t = uint (rect_y rect);
          r = l + uint (rect_width rect); u = t + uint (rect_height rect) in
      0 < rect_width rect \<and> 0 < rect_height rect \<and> r \<le> int iw \<and> u \<le> int ih
    \<and> length (obs_landmarks f) = 10 \<and> points_in l t r u (obs_landmarks f))"

lemma observe_face_ok:
  assumes "detection_wf d" "check_detection d (fl_of_u16 iw) (fl_of_u16 ih) = Inr b" "iw \<le> 65535" "ih \<le> 65535"
  shows "\<exists>f. observe_face d b = Some (Inr f) \<and> face_in iw ih f"
proof -
  obtain l t r u where B: "bounds_ok iw ih b l t r u" using check_detection_bounds(1) [OF assms(1,2)] by blast
  then have b: "int_fl (fb_left b) l" "int_fl (fb_top b) t" "int_fl (fb_right b) r" "int_fl (fb_bottom b) u"
    "0 \<le> l" "l < r" "r \<le> int iw" "0 \<le> t" "t < u" "u \<le> int ih" by (simp_all add: bounds_ok_def)
  have len: "length (landmark_pairs d) = 5" by (simp add: landmark_pairs_def)
  obtain pts where pts: "observe_landmarks b (landmark_pairs d) = Some (Inr pts)" "length pts = 10" "points_in l t r u pts"
    using observe_landmarks_ok [OF B assms(3,4), of "landmark_pairs d"] check_detection_bounds(2) [OF assms(1,2)] len
    by auto
  have w: "int_fl (f32_sub (fb_right b) (fb_left b)) (r - l)" "int_fl (f32_sub (fb_bottom b) (fb_top b)) (u - t)"
    using b assms(3,4) by (auto intro!: int_fl_sub)
  have n: "0 \<le> r - l" "r - l \<le> 65535" "0 \<le> u - t" "u - t \<le> 65535" "l \<le> 65535" "t \<le> 65535" using b assms(3,4) by auto
  note cs = checked_u16_int [OF b(1) b(5) n(5)] checked_u16_int [OF b(2) b(8) n(6)]
    checked_u16_int [OF w(1) n(1,2)] checked_u16_int [OF w(2) n(3,4)]
  note us = uint_of_small_nat [OF b(5) n(5)] uint_of_small_nat [OF b(8) n(6)]
    uint_of_small_nat [OF n(1,2)] uint_of_small_nat [OF n(3,4)]
  have "0 < (word_of_nat (nat (r - l)) :: u16)" "0 < (word_of_nat (nat (u - t)) :: u16)"
    using us(3,4) b by (simp_all add: word_less_def)
  with pts cs us b show ?thesis by (simp add: observe_face_def face_in_def Let_def)
qed

lemma validate_loop_ok:
  assumes "\<And>d. d \<in> set ds \<Longrightarrow> detection_wf d" "iw \<le> 65535" "ih \<le> 65535"
    "length faces \<le> MAX_FACES" "list_all (face_in iw ih) faces"
  shows "\<exists>res. validate_loop (fl_of_u16 iw) (fl_of_u16 ih) ds faces = Some res
    \<and> (\<forall>fs. res = Inr fs \<longrightarrow> length fs = min MAX_FACES (length faces + length ds) \<and> list_all (face_in iw ih) fs
         \<and> (\<forall>d \<in> set ds. is_ok (check_detection d (fl_of_u16 iw) (fl_of_u16 ih))))"
  using assms(1,4,5)
proof (induction ds arbitrary: faces)
  case Nil
  then show ?case by simp
next
  case (Cons d ds)
  show ?case
  proof (cases "check_detection d (fl_of_u16 iw) (fl_of_u16 ih)")
    case (Inl e)
    then show ?thesis by simp
  next
    case (Inr b)
    obtain f where f: "observe_face d b = Some (Inr f)" "face_in iw ih f"
      using observe_face_ok [OF _ Inr assms(2,3)] Cons.prems(1) by auto
    show ?thesis
    proof (cases "length faces < MAX_FACES")
      case True
      then have "length (faces @ [f]) \<le> MAX_FACES" "list_all (face_in iw ih) (faces @ [f])"
        using Cons.prems f(2) by simp_all
      from Cons.IH [OF _ this] Cons.prems(1) show ?thesis using Inr f(1) True by auto
    next
      case False
      then show ?thesis using Cons.IH [of faces] Cons.prems Inr by auto
    qed
  qed
qed

lemma validate_detections_run:
  assumes "\<And>d. d \<in> set ds \<Longrightarrow> detection_wf d"
  shows "\<exists>res. validate_detections ds w h = Some res
    \<and> (\<forall>fs. res = Inr fs \<longrightarrow> length fs = min 8 (length ds) \<and> length ds \<le> 5000
         \<and> list_all (face_in (unat w) (unat h)) fs)"
  using validate_loop_ok [OF assms, of ds "unat w" "unat h" "[]"]
  by (auto simp: validate_detections_def YUNET_TOP_K_def u16_try_from_def MAX_FACES_def)

lemma detect_at_resolution_wf:
  "detect_at_resolution vn handle bgr w h stride resolution maximum = Inr ds \<Longrightarrow> d \<in> set ds \<Longrightarrow> detection_wf d"
  using detect_at_resolution_shape(2) by (auto simp: detection_wf_def)

text \<open>
  Claim C32: whatever rows the native detector returned, their validation never panics, and the faces it accepts are one
  per row up to eight, each a non-empty rectangle within the image whose five landmarks lie inside the rectangle.
\<close>

theorem validate_detections_sound:
  assumes "detect_at_resolution vn handle bgr bw bh stride resolution maximum = Inr ds"
  shows "\<exists>res. validate_detections ds w h = Some res
    \<and> (\<forall>fs. res = Inr fs \<longrightarrow> length fs = min 8 (length ds) \<and> length ds \<le> 5000
         \<and> list_all (face_in (unat w) (unat h)) fs)"
  by (rule validate_detections_run [OF detect_at_resolution_wf [OF assms]])

section \<open>Concrete inputs\<close>

definition free_control :: control where
  "free_control = \<lparr>ctl_deadline = 5, ctl_cancelled = (\<lambda>_. False), ctl_clock = (\<lambda>_. 1)\<rparr>"

theorem convert_to_bgr_exact_witness:
  "image_view_new Gray8 2 1 2 [10, 200] = Inr tiny_image \<and> convert_to_bgr tiny_image free_control 0 \<noteq> None"
  using convert_to_bgr_exact [OF tiny_image_ok, of free_control 0] tiny_image_ok by auto

text \<open>A native library that reports one centred face and succeeds at everything.\<close>

definition one_face_native :: vision_native where
  "one_face_native = \<lparr>vn_yunet_create = (\<lambda>_. (0, True)),
     vn_detect = (\<lambda>_ _ _ _ _ _ _ _. (0, \<lambda>_ k. f32_encode (Fin False
       ([100, 100, 200, 200, 150, 150, 250, 150, 200, 200, 160, 250, 240, 250, 1] ! k)), 1)),
     vn_sface_create = (\<lambda>_. (0, True)),
     vn_features = (\<lambda>_ _ _ _ _ _. (0, \<lambda>k. if k = 0 then 0x3F800000 else 0, 128)),
     vn_texture = (\<lambda>_ _ _ _ _. (0, \<lparr>lbp_entropy = Fin False 7, moire_energy = Fin False 1\<rparr>)),
     vn_pose = (\<lambda>_ _ _. (0, \<lparr>yaw = Fin False 0, pitch = Fin False 0, roll = Fin False 0\<rparr>))\<rparr>"

lemma one_face_detected:
  "\<exists>d. detect_at_resolution one_face_native model bgr 640 480 1920 (640, 480) 5000 = Inr [d]"
  by (simp add: detect_at_resolution_def one_face_native_def i32_try_from_def bridge_status_result_def)

theorem validate_detections_sound_witness:
  "\<exists>d. detect_at_resolution one_face_native [] [] 640 480 1920 (640, 480) 5000 = Inr [d]
    \<and> validate_detections [d] 640 480 \<noteq> None"
proof -
  obtain d where d: "detect_at_resolution one_face_native [] [] 640 480 1920 (640, 480) 5000 = Inr [d]"
    using one_face_detected by blast
  from validate_detections_sound [OF d, of 640 480] d show ?thesis by auto
qed

end
