(* ===== verification/Ordered_Map.thy ===== *)
theory Ordered_Map
  imports Main
begin

text \<open>
  The ordered maps of the sources (\<^verbatim>\<open>BTreeMap\<close>): key-sorted association lists, whose order is
  the iteration order the printing functions rely on. The locale states what their clients use.
\<close>

type_synonym ('k, 'v) omap = "('k \<times> 'v) list"

definition om_inv :: "('k::linorder, 'v) omap \<Rightarrow> bool" where
  "om_inv m \<longleftrightarrow> sorted_wrt (<) (map fst m)"

abbreviation om_get :: "('k, 'v) omap \<Rightarrow> 'k \<Rightarrow> 'v option" where
  "om_get \<equiv> map_of"

fun om_insert :: "'k::linorder \<Rightarrow> 'v \<Rightarrow> ('k, 'v) omap \<Rightarrow> ('k, 'v) omap" where
  "om_insert k v [] = [(k, v)]"
| "om_insert k v ((k', v') # m) =
     (if k < k' then (k, v) # (k', v') # m
      else if k = k' then (k, v) # m
      else (k', v') # om_insert k v m)"

definition om_remove :: "'k \<Rightarrow> ('k, 'v) omap \<Rightarrow> ('k, 'v) omap" where
  "om_remove k m = filter (\<lambda>e. fst e \<noteq> k) m"

locale ordered_map =
  fixes get :: "'m \<Rightarrow> 'k \<Rightarrow> 'v option"
    and put :: "'k \<Rightarrow> 'v \<Rightarrow> 'm \<Rightarrow> 'm"
    and del :: "'k \<Rightarrow> 'm \<Rightarrow> 'm"
    and inv :: "'m \<Rightarrow> bool"
  assumes get_put: "inv m \<Longrightarrow> get (put k v m) = (get m)(k \<mapsto> v)"
    and get_del: "get (del k m) = (get m)(k := None)"
    and inv_put: "inv m \<Longrightarrow> inv (put k v m)"
    and inv_del: "inv m \<Longrightarrow> inv (del k m)"
    and inv_ext: "inv m \<Longrightarrow> inv n \<Longrightarrow> get m = get n \<Longrightarrow> m = n"
begin

lemma put_get: "inv m \<Longrightarrow> get m k = Some v \<Longrightarrow> put k v m = m"
  by (rule inv_ext) (auto simp: get_put inv_put)

lemma put_put: "inv m \<Longrightarrow> put k v (put k w m) = put k v m"
  by (rule inv_ext) (auto simp: get_put inv_put)

lemma put_commute: "inv m \<Longrightarrow> k \<noteq> l \<Longrightarrow> put k v (put l w m) = put l w (put k v m)"
  by (rule inv_ext) (auto simp: get_put inv_put)

lemma del_put: "inv m \<Longrightarrow> get m k = None \<Longrightarrow> del k (put k v m) = m"
  by (rule inv_ext) (auto simp: get_put get_del inv_put inv_del)

end

lemma set_om_insert: "fst ` set (om_insert k v m) = insert k (fst ` set m)"
  by (induction k v m rule: om_insert.induct) (simp_all add: insert_commute)

lemma set_om_insert_subset: "set (om_insert k v m) \<subseteq> insert (k, v) (set m)"
  by (induction k v m rule: om_insert.induct) auto

lemma set_om_remove_subset: "set (om_remove k m) \<subseteq> set m"
  by (auto simp: om_remove_def)

lemma om_inv_Nil [simp]: "om_inv []"
  by (simp add: om_inv_def)

lemma om_inv_Cons [simp]: "om_inv ((k, v) # m) \<longleftrightarrow> (\<forall>x \<in> fst ` set m. k < x) \<and> om_inv m"
  by (auto simp: om_inv_def)

lemma om_inv_insert: "om_inv m \<Longrightarrow> om_inv (om_insert k v m)"
proof (induction m)
  case (Cons e m)
  then show ?case using set_om_insert [of k v m] by (cases e) auto
qed simp

lemma om_inv_remove: "om_inv m \<Longrightarrow> om_inv (om_remove k m)"
  by (induction m) (auto simp: om_remove_def)

lemma om_get_insert: "om_inv m \<Longrightarrow> om_get (om_insert k v m) = (om_get m)(k \<mapsto> v)"
proof (induction m)
  case (Cons e m)
  then show ?case by (cases e) (auto simp: fun_eq_iff)
qed simp

lemma om_get_remove: "om_get (om_remove k m) = (om_get m)(k := None)"
  by (induction m) (auto simp: om_remove_def fun_eq_iff)

lemma om_inv_distinct: "om_inv m \<Longrightarrow> distinct (map fst m)"
  by (auto simp: om_inv_def strict_sorted_iff)

lemma om_rebuild: "om_inv m \<Longrightarrow> m = map (\<lambda>k. (k, the (om_get m k))) (map fst m)"
proof -
  assume "om_inv m"
  then have "the (om_get m (fst e)) = snd e" if "e \<in> set m" for e
    using that om_inv_distinct [of m] by (cases e) (simp add: map_of_is_SomeI)
  then show ?thesis by (simp add: map_idI)
qed

lemma om_inv_ext: "om_inv m \<Longrightarrow> om_inv n \<Longrightarrow> om_get m = om_get n \<Longrightarrow> m = n"
proof -
  assume m: "om_inv m" and n: "om_inv n" and e: "om_get m = om_get n"
  have "set (map fst m) = dom (om_get m)" "set (map fst n) = dom (om_get n)"
    by (simp_all add: dom_map_of_conv_image_fst)
  with e m n have k: "map fst m = map fst n"
    by (intro strict_sorted_equal) (simp_all add: om_inv_def)
  show "m = n" using om_rebuild [OF m] om_rebuild [OF n] k e by metis
qed

interpretation btree: ordered_map om_get om_insert om_remove om_inv
  by unfold_locales
    (auto simp: om_get_insert om_get_remove om_inv_insert om_inv_remove intro: om_inv_ext)

text \<open>Appending a greater key at the end is an insertion: the order a printed map is read back.\<close>

lemma om_insert_snoc: "(\<forall>x \<in> fst ` set m. x < k) \<Longrightarrow> om_insert k v m = m @ [(k, v)]"
  by (induction m) auto

text \<open>The sum of the values, as counters kept in a map change it.\<close>

abbreviation om_count :: "('k, nat) omap \<Rightarrow> 'k \<Rightarrow> nat" where
  "om_count m k \<equiv> (case om_get m k of None \<Rightarrow> 0 | Some n \<Rightarrow> n)"

lemma sum_om_insert:
  "om_inv m \<Longrightarrow> sum_list (map snd (om_insert k v m)) + om_count m k = sum_list (map snd m) + v"
proof (induction m)
  case (Cons e m)
  obtain k' v' where e: "e = (k', v')" by (cases e)
  have "om_get m k = None" if "k < k'"
    using that Cons.prems by (force simp: e map_of_eq_None_iff)
  with Cons show ?case by (auto simp: e)
qed simp

lemma sum_om_remove:
  "om_inv m \<Longrightarrow> sum_list (map snd (om_remove k m)) + om_count m k = sum_list (map snd m)"
proof (induction m)
  case (Cons e m)
  obtain k' v' where e: "e = (k', v')" by (cases e)
  have "filter (\<lambda>e. fst e \<noteq> k') m = m"
    using Cons.prems by (force simp: e filter_id_conv)
  with Cons show ?case by (auto simp: e om_remove_def)
qed (simp add: om_remove_def)

end
