(* ===== verification/Daemon_Limits.thy ===== *)
theory Daemon_Limits
  imports Prelude Ordered_Map
begin

text \<open>
  The two admission controls of \<^verbatim>\<open>engine/daemon/src/lib.rs\<close>: the per-user limiter of authentication
  attempts (\<^verbatim>\<open>AuthRateLimiter\<close>) and the bounded connection slots (\<^verbatim>\<open>IngressState\<close> with its permits). Instants
  are nanoseconds of the monotonic clock. Both keep their state behind a mutex; a poisoned mutex is a flag.
\<close>

section \<open>The rate limiter\<close>

type_synonym instant = nat

definition SECOND :: nat where "SECOND = 10 ^ 9"
definition PAM_ATTEMPT_WINDOW :: nat where "PAM_ATTEMPT_WINDOW = 30 * SECOND"
definition PAM_ATTEMPTS_PER_WINDOW :: nat where "PAM_ATTEMPTS_PER_WINDOW = 3"

record rate_limiter =
  attempts :: "u32 \<Rightarrow> instant list option"
  limiter_poisoned :: bool

definition rate_limiter_default :: rate_limiter where
  "rate_limiter_default = \<lparr>attempts = Map.empty, limiter_poisoned = False\<rparr>"

text \<open>\<^verbatim>\<open>saturating_duration_since\<close> is truncated subtraction.\<close>

definition recent :: "instant \<Rightarrow> instant list \<Rightarrow> instant list" where
  "recent now tms = filter (\<lambda>at. now - at < PAM_ATTEMPT_WINDOW) tms"

definition retain_recent :: "instant \<Rightarrow> (u32 \<Rightarrow> instant list option) \<Rightarrow> (u32 \<Rightarrow> instant list option)" where
  "retain_recent now m =
     (\<lambda>uid. case m uid of
        None \<Rightarrow> None
      | Some tms \<Rightarrow> if recent now tms = [] then None else Some (recent now tms))"

definition allow_at :: "rate_limiter \<Rightarrow> u32 \<Rightarrow> instant \<Rightarrow> bool \<times> rate_limiter" where
  "allow_at l uid now =
     (if limiter_poisoned l then (False, l)
      else
        let kept = retain_recent now (attempts l);
            tms = (case kept uid of None \<Rightarrow> [] | Some ts \<Rightarrow> ts)
        in if length tms \<ge> PAM_ATTEMPTS_PER_WINDOW
           then (False, l\<lparr>attempts := kept(uid \<mapsto> tms)\<rparr>)
           else (True, l\<lparr>attempts := kept(uid \<mapsto> tms @ [now])\<rparr>))"

definition limiter_clear :: "rate_limiter \<Rightarrow> u32 \<Rightarrow> rate_limiter" where
  "limiter_clear l uid =
     (if limiter_poisoned l then l else l\<lparr>attempts := (attempts l)(uid := None)\<rparr>)"

section \<open>Histories of the limiter\<close>

text \<open>The calls the daemon makes: an attempt at an instant, and the reset after a success.\<close>

datatype limiter_call = Attempt u32 instant | Reset u32

fun limiter_step :: "rate_limiter \<Rightarrow> limiter_call \<Rightarrow> bool \<times> rate_limiter" where
  "limiter_step l (Attempt uid now) = allow_at l uid now"
| "limiter_step l (Reset uid) = (True, limiter_clear l uid)"

fun limiter_run :: "rate_limiter \<Rightarrow> limiter_call list \<Rightarrow> bool list \<times> rate_limiter" where
  "limiter_run l [] = ([], l)"
| "limiter_run l (c # cs) =
     (let (b, l') = limiter_step l c; (bs, l'') = limiter_run l' cs in (b # bs, l''))"

text \<open>
  The specification never forgets: it keeps every granted attempt since the user's last reset, and grants an
  attempt when fewer than three of them lie within the last thirty seconds.
\<close>

type_synonym grant_log = "u32 \<Rightarrow> instant list"

fun spec_step :: "grant_log \<Rightarrow> limiter_call \<Rightarrow> bool \<times> grant_log" where
  "spec_step h (Attempt uid now) =
     (if length (recent now (h uid)) < PAM_ATTEMPTS_PER_WINDOW then (True, h(uid := h uid @ [now]))
      else (False, h))"
| "spec_step h (Reset uid) = (True, h(uid := []))"

fun spec_run :: "grant_log \<Rightarrow> limiter_call list \<Rightarrow> bool list \<times> grant_log" where
  "spec_run h [] = ([], h)"
| "spec_run h (c # cs) = (let (b, h') = spec_step h c; (bs, h'') = spec_run h' cs in (b # bs, h''))"

fun call_times :: "limiter_call list \<Rightarrow> instant list" where
  "call_times [] = []"
| "call_times (Attempt uid now # cs) = now # call_times cs"
| "call_times (Reset uid # cs) = call_times cs"

text \<open>
  At instant \<open>now\<close> the limiter holds, for every user, a list with the same recent part as the log.
\<close>

definition limiter_rel :: "instant \<Rightarrow> rate_limiter \<Rightarrow> grant_log \<Rightarrow> bool" where
  "limiter_rel now l h \<longleftrightarrow> \<not> limiter_poisoned l
     \<and> (\<forall>uid. \<forall>t \<ge> now. recent t (case attempts l uid of None \<Rightarrow> [] | Some ts \<Rightarrow> ts) = recent t (h uid))"

lemma recent_recent: "now \<le> t \<Longrightarrow> recent t (recent now ts) = recent t ts"
  by (induction ts) (auto simp: recent_def)

lemma recent_append: "recent t (xs @ ys) = recent t xs @ recent t ys"
  by (simp add: recent_def)

lemma limiter_step_refines:
  assumes "limiter_rel now l h" "\<And>uid t. c = Attempt uid t \<Longrightarrow> now \<le> t"
  shows "fst (limiter_step l c) = fst (spec_step h c)"
    "limiter_rel (case c of Attempt uid t \<Rightarrow> t | Reset uid \<Rightarrow> now) (snd (limiter_step l c)) (snd (spec_step h c))"
proof -
  have rel: "\<not> limiter_poisoned l"
    "now \<le> t \<Longrightarrow> recent t (case attempts l uid of None \<Rightarrow> [] | Some ts \<Rightarrow> ts) = recent t (h uid)" for uid t
    using assms(1) by (auto simp: limiter_rel_def)
  have kept: "(case retain_recent t (attempts l) uid of None \<Rightarrow> [] | Some ts \<Rightarrow> ts) = recent t (h uid)"
    if "now \<le> t" for uid t
    using rel(2) [OF that, of uid] by (auto simp: retain_recent_def recent_def split: option.splits if_splits)
  have "fst (limiter_step l c) = fst (spec_step h c)
    \<and> limiter_rel (case c of Attempt uid t \<Rightarrow> t | Reset uid \<Rightarrow> now) (snd (limiter_step l c)) (snd (spec_step h c))"
  proof (cases c)
    case (Attempt uid t)
    then have t: "now \<le> t" using assms(2) by simp
    show ?thesis
      using rel(1) t kept [OF t]
      by (auto simp: Attempt allow_at_def Let_def limiter_rel_def recent_recent recent_append)
  next
    case (Reset uid)
    then show ?thesis using rel by (auto simp: limiter_clear_def limiter_rel_def recent_def)
  qed
  then show "fst (limiter_step l c) = fst (spec_step h c)"
    "limiter_rel (case c of Attempt uid t \<Rightarrow> t | Reset uid \<Rightarrow> now) (snd (limiter_step l c)) (snd (spec_step h c))"
    by auto
qed

lemma limiter_run_refines:
  "limiter_rel now l h \<Longrightarrow> sorted (now # call_times cs) \<Longrightarrow> fst (limiter_run l cs) = fst (spec_run h cs)"
proof (induction cs arbitrary: now l h)
  case (Cons c cs)
  let ?now = "case c of Attempt uid t \<Rightarrow> t | Reset uid \<Rightarrow> now"
  have le: "\<And>uid t. c = Attempt uid t \<Longrightarrow> now \<le> t" using Cons.prems(2) by auto
  note st = limiter_step_refines [OF Cons.prems(1) le]
  have "sorted (?now # call_times cs)" using Cons.prems(2) by (cases c) auto
  from Cons.IH [OF st(2) this] st(1) show ?case by (simp add: split_def Let_def)
qed simp

text \<open>\<open>spaced gs\<close>: among any four consecutive grants the last is at least a window after the first.\<close>

definition spaced :: "instant list \<Rightarrow> bool" where
  "spaced gs \<longleftrightarrow> (\<forall>i. i + PAM_ATTEMPTS_PER_WINDOW < length gs
     \<longrightarrow> gs ! i + PAM_ATTEMPT_WINDOW \<le> gs ! (i + PAM_ATTEMPTS_PER_WINDOW))"

lemma recent_suffix:
  assumes "sorted gs" "3 \<le> length gs" "length (recent now gs) < 3"
  shows "PAM_ATTEMPT_WINDOW \<le> now - gs ! (length gs - 3)"
proof (rule ccontr)
  assume r: "\<not> ?thesis"
  let ?k = "length gs - 3"
  have "now - g < PAM_ATTEMPT_WINDOW" if "g \<in> set (drop ?k gs)" for g
  proof -
    from that obtain j where "j < length (drop ?k gs)" "g = drop ?k gs ! j" by (auto simp: in_set_conv_nth)
    then have "gs ! ?k \<le> g" using assms(1) by (auto intro!: sorted_nth_mono)
    with r show ?thesis by linarith
  qed
  then have "recent now (drop ?k gs) = drop ?k gs" by (simp add: recent_def filter_id_conv)
  moreover have "recent now gs = recent now (take ?k gs) @ recent now (drop ?k gs)"
    by (simp add: recent_append [symmetric])
  ultimately show False using assms(2,3) by simp
qed

lemma spaced_snoc:
  assumes "sorted gs" "spaced gs" "length (recent now gs) < PAM_ATTEMPTS_PER_WINDOW"
  shows "spaced (gs @ [now])"
  unfolding spaced_def
proof (intro allI impI)
  fix i
  assume i: "i + PAM_ATTEMPTS_PER_WINDOW < length (gs @ [now])"
  show "(gs @ [now]) ! i + PAM_ATTEMPT_WINDOW \<le> (gs @ [now]) ! (i + PAM_ATTEMPTS_PER_WINDOW)"
  proof (cases "i + PAM_ATTEMPTS_PER_WINDOW < length gs")
    case True
    then show ?thesis using assms(2) by (simp add: spaced_def nth_append)
  next
    case False
    with i have e: "length gs = i + 3" by (simp add: PAM_ATTEMPTS_PER_WINDOW_def)
    have "0 < PAM_ATTEMPT_WINDOW" by (simp add: PAM_ATTEMPT_WINDOW_def SECOND_def)
    with recent_suffix [OF assms(1), of now] assms(3) e show ?thesis
      by (simp add: PAM_ATTEMPTS_PER_WINDOW_def nth_append)
  qed
qed

lemma spec_run_spaced:
  "\<lbrakk>sorted (now # call_times cs); \<forall>u. sorted (h u) \<and> (\<forall>g \<in> set (h u). g \<le> now) \<and> spaced (h u)\<rbrakk>
     \<Longrightarrow> spaced (snd (spec_run h cs) uid)"
proof (induction cs arbitrary: now h)
  case (Cons c cs)
  let ?now = "case c of Attempt u t \<Rightarrow> t | Reset u \<Rightarrow> now" and ?h = "snd (spec_step h c)"
  have s: "sorted (?now # call_times cs)" using Cons.prems(1) by (cases c) auto
  have "\<forall>u. sorted (?h u) \<and> (\<forall>g \<in> set (?h u). g \<le> ?now) \<and> spaced (?h u)"
  proof (cases c)
    case (Attempt u t)
    then have t: "now \<le> t" using Cons.prems(1) by simp
    with Cons.prems(2) have "\<forall>v. \<forall>g \<in> set (h v). g \<le> t" by (meson le_trans)
    then show ?thesis using Cons.prems(2) Attempt by (auto simp: sorted_append intro: spaced_snoc)
  next
    case (Reset u)
    then show ?thesis using Cons.prems(2) by (simp add: spaced_def)
  qed
  from Cons.IH [OF s this] show ?case by (simp add: split_def Let_def)
qed simp

text \<open>
  Claim C13: as long as the clock does not run backwards, the limiter, which forgets old attempts, decides every
  attempt of every history exactly as the full log of grants would: it grants an attempt of a user just when fewer than
  three attempts granted since that user's last reset lie within the last thirty seconds. In consequence the
  grants of a user between resets never put four within less than thirty seconds.
\<close>

theorem rate_limiter_window:
  assumes "sorted (call_times cs)"
  shows "fst (limiter_run rate_limiter_default cs) = fst (spec_run (\<lambda>_. []) cs)
    \<and> (\<forall>uid. spaced (snd (spec_run (\<lambda>_. []) cs) uid))"
proof -
  have s: "sorted (0 # call_times cs)" using assms by simp
  have "limiter_rel 0 rate_limiter_default (\<lambda>_. [])"
    by (simp add: limiter_rel_def rate_limiter_default_def)
  from limiter_run_refines [OF this s] spec_run_spaced [OF s, of "\<lambda>_. []"]
  show ?thesis by (simp add: spaced_def)
qed

theorem rate_limiter_window_witness:
  "sorted (call_times [Attempt 1000 0, Attempt 1000 5, Attempt 1000 9, Attempt 1000 10, Attempt 7 11])
    \<and> fst (limiter_run rate_limiter_default
        [Attempt 1000 0, Attempt 1000 5, Attempt 1000 9, Attempt 1000 10, Attempt 7 11])
      = [True, True, True, False, True]"
  using rate_limiter_window [of "[Attempt 1000 0, Attempt 1000 5, Attempt 1000 9, Attempt 1000 10, Attempt 7 11]"]
  by (simp add: recent_def PAM_ATTEMPTS_PER_WINDOW_def PAM_ATTEMPT_WINDOW_def SECOND_def)

section \<open>Connection slots\<close>

definition MAX_ACTIVE_CONNECTIONS :: nat where "MAX_ACTIVE_CONNECTIONS = 4"
definition MAX_CONNECTIONS_PER_PEER_UID :: nat where "MAX_CONNECTIONS_PER_PEER_UID = 2"

record ingress_state =
  active_by_uid :: "(u32, nat) omap"
  ingress_poisoned :: bool

definition ingress_default :: ingress_state where
  "ingress_default = \<lparr>active_by_uid = [], ingress_poisoned = False\<rparr>"

text \<open>A permit is the peer it was issued to.\<close>

definition try_acquire :: "ingress_state \<Rightarrow> u32 \<Rightarrow> u32 option \<times> ingress_state" where
  "try_acquire s peer =
     (if ingress_poisoned s then (None, s)
      else
        let total = sum_list (map snd (active_by_uid s));
            peer_count = (case om_get (active_by_uid s) peer of None \<Rightarrow> 0 | Some n \<Rightarrow> n)
        in if total \<ge> MAX_ACTIVE_CONNECTIONS \<or> peer_count \<ge> MAX_CONNECTIONS_PER_PEER_UID then (None, s)
           else (Some peer, s\<lparr>active_by_uid := om_insert peer (peer_count + 1) (active_by_uid s)\<rparr>))"

text \<open>The drop of a permit. The subtraction would panic on a zero count.\<close>

definition permit_drop :: "ingress_state \<Rightarrow> u32 \<Rightarrow> ingress_state" where
  "permit_drop s peer =
     (if ingress_poisoned s then s
      else case om_get (active_by_uid s) peer of
        None \<Rightarrow> s
      | Some n \<Rightarrow>
          if n - 1 = 0 then s\<lparr>active_by_uid := om_remove peer (active_by_uid s)\<rparr>
          else s\<lparr>active_by_uid := om_insert peer (n - 1) (active_by_uid s)\<rparr>)"

text \<open>
  The life of the slots together with the permits that are out: connections arrive in any order, and any outstanding
  permit may be dropped at any time.
\<close>

inductive ingress_step :: "ingress_state \<times> u32 list \<Rightarrow> ingress_state \<times> u32 list \<Rightarrow> bool" where
  admitted: "try_acquire s peer = (Some p, s') \<Longrightarrow> ingress_step (s, permits) (s', p # permits)"
| refused: "try_acquire s peer = (None, s') \<Longrightarrow> ingress_step (s, permits) (s', permits)"
| released: "p \<in> set permits \<Longrightarrow> ingress_step (s, permits) (permit_drop s p, remove1 p permits)"

inductive ingress_reachable :: "ingress_state \<Rightarrow> u32 list \<Rightarrow> bool" where
  start: "ingress_reachable ingress_default []"
| step: "ingress_reachable s permits \<Longrightarrow> ingress_step (s, permits) (s', permits') \<Longrightarrow> ingress_reachable s' permits'"

inductive_cases ingress_stepE: "ingress_step (s, permits) (s', permits')"

definition ingress_inv :: "ingress_state \<Rightarrow> u32 list \<Rightarrow> bool" where
  "ingress_inv s permits \<longleftrightarrow> \<not> ingress_poisoned s \<and> om_inv (active_by_uid s)
     \<and> (\<forall>u. om_get (active_by_uid s) u
          = (if count_list permits u = 0 then None else Some (count_list permits u)))
     \<and> sum_list (map snd (active_by_uid s)) = length permits
     \<and> length permits \<le> MAX_ACTIVE_CONNECTIONS
     \<and> (\<forall>u. count_list permits u \<le> MAX_CONNECTIONS_PER_PEER_UID)"

lemma count_list_remove1: "count_list (remove1 p xs) u = (if u = p then count_list xs u - 1 else count_list xs u)"
  by (induction xs) auto

lemma count_list_pos: "p \<in> set xs \<Longrightarrow> 0 < count_list xs p"
  by (induction xs) auto

lemma ingress_inv_acquire:
  assumes "ingress_inv s permits" "try_acquire s peer = (Some p, s')"
  shows "ingress_inv s' (p # permits)"
proof -
  have i: "\<not> ingress_poisoned s" "om_inv (active_by_uid s)"
    "\<And>u. om_get (active_by_uid s) u = (if count_list permits u = 0 then None else Some (count_list permits u))"
    "sum_list (map snd (active_by_uid s)) = length permits"
    "\<And>u. count_list permits u \<le> MAX_CONNECTIONS_PER_PEER_UID"
    using assms(1) by (auto simp: ingress_inv_def)
  have c: "om_count (active_by_uid s) peer = count_list permits peer" by (simp add: i(3))
  from assms(2) i(1) c have *: "p = peer" "length permits < MAX_ACTIVE_CONNECTIONS"
    "count_list permits peer < MAX_CONNECTIONS_PER_PEER_UID"
    "s' = s\<lparr>active_by_uid := om_insert peer (count_list permits peer + 1) (active_by_uid s)\<rparr>"
    by (auto simp: try_acquire_def Let_def i(4) split: if_splits)
  show ?thesis
    using i * om_inv_insert [OF i(2), of peer "count_list permits peer + 1"]
      sum_om_insert [OF i(2), of peer "count_list permits peer + 1"] c
    by (auto simp: ingress_inv_def om_get_insert)
qed

lemma ingress_inv_drop:
  assumes "ingress_inv s permits" "p \<in> set permits"
  shows "ingress_inv (permit_drop s p) (remove1 p permits)"
proof -
  have i: "\<not> ingress_poisoned s" "om_inv (active_by_uid s)"
    "\<And>u. om_get (active_by_uid s) u = (if count_list permits u = 0 then None else Some (count_list permits u))"
    "sum_list (map snd (active_by_uid s)) = length permits" "length permits \<le> MAX_ACTIVE_CONNECTIONS"
    "\<And>u. count_list permits u \<le> MAX_CONNECTIONS_PER_PEER_UID"
    using assms(1) by (auto simp: ingress_inv_def)
  have c: "0 < count_list permits p" "om_count (active_by_uid s) p = count_list permits p"
    using count_list_pos [OF assms(2)] by (simp_all add: i(3))
  have l: "length (remove1 p permits) = length permits - 1" "0 < length permits"
    using assms(2) by (auto simp: length_remove1)
  have u: "count_list (remove1 p permits) u \<le> MAX_CONNECTIONS_PER_PEER_UID" for u
    using i(6) [of u] by (auto simp: count_list_remove1 split: if_splits)
  show ?thesis
  proof (cases "count_list permits p - 1 = 0")
    case True
    with i c l u sum_om_remove [OF i(2), of p] om_inv_remove [OF i(2), of p] show ?thesis
      by (auto simp: ingress_inv_def permit_drop_def om_get_remove count_list_remove1)
  next
    case False
    with i c l u sum_om_insert [OF i(2), of p "count_list permits p - 1"]
      om_inv_insert [OF i(2), of p "count_list permits p - 1"] show ?thesis
      by (auto simp: ingress_inv_def permit_drop_def om_get_insert count_list_remove1)
  qed
qed

lemma ingress_inv_step:
  "ingress_step (s, permits) (s', permits') \<Longrightarrow> ingress_inv s permits \<Longrightarrow> ingress_inv s' permits'"
proof (elim ingress_stepE)
  fix peer
  assume "try_acquire s peer = (None, s')" "permits' = permits" "ingress_inv s permits"
  then show "ingress_inv s' permits'" by (auto simp: try_acquire_def Let_def split: if_splits)
qed (auto intro: ingress_inv_acquire ingress_inv_drop)

text \<open>
  Claim C15: in every reachable state of the connection slots the counters are exactly the outstanding permits, no more
  than four connections and no more than two of one peer are active, and no counter is zero, so that the
  subtraction in the drop of a permit cannot underflow. A peer below both limits is admitted.
\<close>

theorem ingress_bounded:
  assumes "ingress_reachable s permits"
  shows "(\<forall>u. om_count (active_by_uid s) u = count_list permits u)
    \<and> (\<forall>u. om_get (active_by_uid s) u \<noteq> Some 0)
    \<and> sum_list (map snd (active_by_uid s)) = length permits
    \<and> length permits \<le> MAX_ACTIVE_CONNECTIONS
    \<and> (\<forall>u. count_list permits u \<le> MAX_CONNECTIONS_PER_PEER_UID)
    \<and> (\<forall>u. length permits < MAX_ACTIVE_CONNECTIONS \<longrightarrow> count_list permits u < MAX_CONNECTIONS_PER_PEER_UID
         \<longrightarrow> fst (try_acquire s u) = Some u)"
proof -
  have "ingress_inv s permits"
    using assms
  proof (induction rule: ingress_reachable.induct)
    case start
    show ?case by (simp add: ingress_inv_def ingress_default_def)
  next
    case (step s permits s' permits')
    then show ?case using ingress_inv_step by blast
  qed
  then show ?thesis by (auto simp: ingress_inv_def try_acquire_def Let_def)
qed

theorem ingress_bounded_witness:
  "\<exists>s. ingress_reachable s [1000] \<and> length [1000 :: u32] \<le> MAX_ACTIVE_CONNECTIONS
    \<and> fst (try_acquire s 1000) = Some 1000"
proof -
  have "try_acquire ingress_default 1000 = (Some 1000, \<lparr>active_by_uid = [(1000, 1)], ingress_poisoned = False\<rparr>)"
    by (simp add: try_acquire_def ingress_default_def MAX_ACTIVE_CONNECTIONS_def
        MAX_CONNECTIONS_PER_PEER_UID_def)
  then have "ingress_step (ingress_default, [])
      (\<lparr>active_by_uid = [(1000, 1)], ingress_poisoned = False\<rparr>, [1000])" by (rule admitted)
  then have r: "ingress_reachable \<lparr>active_by_uid = [(1000, 1)], ingress_poisoned = False\<rparr> [1000]"
    using ingress_reachable.intros by blast
  from ingress_bounded [OF r] r show ?thesis
    by (auto simp: MAX_ACTIVE_CONNECTIONS_def MAX_CONNECTIONS_PER_PEER_UID_def)
qed

end
