(* ===== verification/Auth_Policy.thy ===== *)
theory Auth_Policy
  imports Text_Base Ordered_Map
begin

text \<open>
  The root-owned opt-in policy of \<^verbatim>\<open>engine/templates/src/auth_policy.rs\<close>: targets and modes, the
  per-user map with \<^verbatim>\<open>mode_for\<close> and \<^verbatim>\<open>set_mode\<close>, its JSON printer and the strict recursive
  descent parser. The parser's state is the unread suffix \<^verbatim>\<open>bytes[position..]\<close>. The lemmas show
  what the parser accepts, that it terminates, and that it inverts the printer.
\<close>

section \<open>Targets, modes and the policy map\<close>

datatype auth_target = Sddm | PlasmaLock

fun target_rank :: "auth_target \<Rightarrow> nat" where
  "target_rank Sddm = 0"
| "target_rank PlasmaLock = 1"

instantiation auth_target :: linorder
begin

definition less_eq_auth_target :: "auth_target \<Rightarrow> auth_target \<Rightarrow> bool" where
  "less_eq_auth_target a b \<longleftrightarrow> target_rank a \<le> target_rank b"

definition less_auth_target :: "auth_target \<Rightarrow> auth_target \<Rightarrow> bool" where
  "less_auth_target a b \<longleftrightarrow> target_rank a < target_rank b"

instance
proof
  fix a b :: auth_target
  show "a \<le> b \<Longrightarrow> b \<le> a \<Longrightarrow> a = b"
    by (cases a; cases b) (simp_all add: less_eq_auth_target_def)
qed (auto simp: less_eq_auth_target_def less_auth_target_def)

end

fun target_key :: "auth_target \<Rightarrow> string" where
  "target_key Sddm = ''sddm''"
| "target_key PlasmaLock = ''plasma-lock''"

fun pam_service :: "auth_target \<Rightarrow> string" where
  "pam_service Sddm = ''sddm-kfaceauth''"
| "pam_service PlasmaLock = ''kde-kfaceauth''"

datatype auth_policy_error = Policy_Invalid | Policy_UnsafeFilesystem | Policy_Io

definition target_parse :: "string \<Rightarrow> auth_policy_error + auth_target" where
  "target_parse v =
     (if v = ''sddm'' then Inr Sddm
      else if v = ''plasma-lock'' then Inr PlasmaLock
      else Inl Policy_Invalid)"

datatype auth_policy_mode = Off | OnActivity | Manual

fun mode_as_str :: "auth_policy_mode \<Rightarrow> string" where
  "mode_as_str Off = ''off''"
| "mode_as_str OnActivity = ''on-activity''"
| "mode_as_str Manual = ''manual''"

definition mode_parse :: "string \<Rightarrow> auth_policy_error + auth_policy_mode" where
  "mode_parse v =
     (if v = ''off'' then Inr Off
      else if v = ''on-activity'' then Inr OnActivity
      else if v = ''manual'' then Inr Manual
      else Inl Policy_Invalid)"

type_synonym targets_map = "(auth_target, auth_policy_mode) omap"

record auth_policy =
  users :: "(u32, targets_map) omap"

definition default_policy :: auth_policy where
  "default_policy = \<lparr>users = []\<rparr>"

definition mode_for :: "auth_policy \<Rightarrow> u32 \<Rightarrow> auth_target \<Rightarrow> auth_policy_mode" where
  "mode_for p uid target =
     (case om_get (users p) uid of
        None \<Rightarrow> Off
      | Some targets \<Rightarrow> (case om_get targets target of None \<Rightarrow> Off | Some m \<Rightarrow> m))"

definition set_mode ::
    "auth_policy \<Rightarrow> u32 \<Rightarrow> auth_target \<Rightarrow> auth_policy_mode \<Rightarrow> auth_policy_error + auth_policy" where
  "set_mode p uid target mode =
     (if uid = 0 then Inl Policy_Invalid
      else if mode = Off then
        (case om_get (users p) uid of
           None \<Rightarrow> Inr p
         | Some targets \<Rightarrow>
             (let targets' = om_remove target targets in
              if targets' = [] then Inr (p\<lparr>users := om_remove uid (users p)\<rparr>)
              else Inr (p\<lparr>users := om_insert uid targets' (users p)\<rparr>)))
      else
        (let targets = (case om_get (users p) uid of None \<Rightarrow> [] | Some ts \<Rightarrow> ts) in
         Inr (p\<lparr>users := om_insert uid (om_insert target mode targets) (users p)\<rparr>)))"

section \<open>The JSON printer\<close>

fun json_targets :: "bool \<Rightarrow> targets_map \<Rightarrow> string" where
  "json_targets first [] = []"
| "json_targets first ((target, mode) # ts) =
     (if first then [] else '','') @ quoted (target_key target) @ '':'' @ quoted (mode_as_str mode)
       @ json_targets False ts"

fun json_users :: "bool \<Rightarrow> (u32, targets_map) omap \<Rightarrow> string" where
  "json_users first [] = []"
| "json_users first ((uid, targets) # us) =
     (if first then [] else '','') @ quoted (u32_to_string uid) @ '':{'' @ json_targets True targets
       @ ''}'' @ json_users False us"

definition to_json :: "auth_policy \<Rightarrow> string" where
  "to_json p = ''{'' @ quoted ''version'' @ '':1,'' @ quoted ''users'' @ '':{''
     @ json_users True (users p) @ ''}}'' @ [CHR 0x0A]"

section \<open>The parser\<close>

definition skip_whitespace :: "string \<Rightarrow> string" where
  "skip_whitespace s = dropWhile is_ascii_whitespace s"

definition consume :: "char \<Rightarrow> string \<Rightarrow> string option" where
  "consume c s = (case s of [] \<Rightarrow> None | x # xs \<Rightarrow> if x = c then Some xs else None)"

definition expect :: "char \<Rightarrow> string \<Rightarrow> auth_policy_error + string" where
  "expect c s = ok_or Policy_Invalid (consume c (skip_whitespace s))"

fun string_body :: "string \<Rightarrow> string \<Rightarrow> auth_policy_error + string \<times> string" where
  "string_body acc [] = Inl Policy_Invalid"
| "string_body acc (c # s) =
     (if c = DQ then
        (if utf8_valid (map byte acc) then Inr (acc, s) else Inl Policy_Invalid)
      else if c = CHR 0x5C \<or> byte c < 0x20 then Inl Policy_Invalid
      else string_body (acc @ [c]) s)"

definition policy_string :: "string \<Rightarrow> auth_policy_error + string \<times> string" where
  "policy_string s = rbind (expect DQ (skip_whitespace s)) (string_body [])"

definition policy_number :: "string \<Rightarrow> auth_policy_error + u32 \<times> string" where
  "policy_number s =
     (let s1 = skip_whitespace s;
          digits = takeWhile is_ascii_digit s1;
          rest = dropWhile is_ascii_digit s1
      in if digits = [] \<or> length digits > 1 \<and> hd digits = CHR ''0'' then Inl Policy_Invalid
         else case (if utf8_valid (map byte digits) then parse_u32 digits else None) of
           None \<Rightarrow> Inl Policy_Invalid
         | Some n \<Rightarrow> Inr (n, rest))"

lemma length_skip_whitespace: "length (skip_whitespace s) \<le> length s"
  by (simp add: skip_whitespace_def length_dropWhile_le)

lemma consume_length: "consume c s = Some r \<Longrightarrow> length s = Suc (length r)"
  by (cases s) (auto simp: consume_def split: if_splits)

lemma expect_length: "expect c s = Inr r \<Longrightarrow> length r < length s"
  using consume_length [of c "skip_whitespace s" r] length_skip_whitespace [of s]
  by (auto simp: expect_def ok_or_eq_Inr)

lemma string_body_length: "string_body acc s = Inr (x, r) \<Longrightarrow> length r < length s"
  by (induction acc s rule: string_body.induct) (auto split: if_splits)

lemma policy_string_length: "policy_string s = Inr (x, r) \<Longrightarrow> length r < length s"
proof -
  assume "policy_string s = Inr (x, r)"
  then obtain t where "expect DQ (skip_whitespace s) = Inr t" "string_body [] t = Inr (x, r)"
    by (auto simp: policy_string_def rbind_eq_Inr)
  then show ?thesis
    using expect_length [of DQ "skip_whitespace s" t] string_body_length [of "[]" t x r]
      length_skip_whitespace [of s] by simp
qed

lemma policy_number_length: "policy_number s = Inr (n, r) \<Longrightarrow> length r \<le> length s"
  using length_skip_whitespace [of s] length_dropWhile_le [of is_ascii_digit "skip_whitespace s"]
  by (auto simp: policy_number_def Let_def split: if_splits option.splits)

text \<open>The comma rule shared by the three member loops: every member but the first is preceded by one.\<close>

definition separator :: "bool \<Rightarrow> string \<Rightarrow> auth_policy_error + string" where
  "separator first s = (if first then Inr s else expect CHR '','' s)"

lemma separator_length: "separator first s = Inr r \<Longrightarrow> length r \<le> length s"
  by (auto simp: separator_def split: if_splits dest: expect_length)

lemma rbind_cong [fundef_cong]:
  "r = r' \<Longrightarrow> (\<And>x. r' = Inr x \<Longrightarrow> f x = g x) \<Longrightarrow> rbind r f = rbind r' g"
  by (cases r') auto

function targets_loop ::
    "bool \<Rightarrow> targets_map \<Rightarrow> string \<Rightarrow> auth_policy_error + targets_map \<times> string" where
  "targets_loop first targets s =
     (let s1 = skip_whitespace s in
      case consume CHR ''}'' s1 of
        Some r \<Rightarrow> Inr (targets, r)
      | None \<Rightarrow>
          rbind (separator first s1) (\<lambda>s2.
          rbind (policy_string s2) (\<lambda>(name, s3).
          rbind (target_parse name) (\<lambda>target.
          rbind (expect CHR '':'' s3) (\<lambda>s4.
          rbind (policy_string s4) (\<lambda>(mname, s5).
          rbind (mode_parse mname) (\<lambda>mode.
          if mode = Off \<or> om_get targets target \<noteq> None then Inl Policy_Invalid
          else targets_loop False (om_insert target mode targets) s5)))))))"
  by pat_completeness auto
termination
proof (relation "measure (\<lambda>(first, targets, s). length s)")
  show "wf (measure (\<lambda>(first :: bool, targets :: targets_map, s :: string). length s))" by simp
  fix first targets and s :: string and s1 s2 a name s3 target s4 b mname s5 mode
  assume "s1 = skip_whitespace s" "separator first s1 = Inr s2" "policy_string s2 = Inr a"
    "(name, s3) = a" "expect CHR '':'' s3 = Inr s4" "policy_string s4 = Inr b" "(mname, s5) = b"
  then show "((False, om_insert target mode targets, s5), first, targets, s)
      \<in> measure (\<lambda>(first, targets, s). length s)"
    using length_skip_whitespace [of s] separator_length [of first s1 s2]
      policy_string_length [of s2 name s3] expect_length [of "CHR '':''" s3 s4]
      policy_string_length [of s4 mname s5] by simp
qed

definition parse_targets :: "string \<Rightarrow> auth_policy_error + targets_map \<times> string" where
  "parse_targets s = rbind (expect CHR ''{'' s) (targets_loop True [])"

declare targets_loop.simps [simp del]

lemma targets_loop_length: "targets_loop first ts s = Inr (m, r) \<Longrightarrow> length r < length s"
proof (induction first ts s rule: targets_loop.induct)
  case (1 first ts s)
  show ?case
  proof (cases "consume CHR ''}'' (skip_whitespace s)")
    case (Some t)
    with "1.prems" consume_length [OF Some] length_skip_whitespace [of s] show ?thesis
      by (subst (asm) targets_loop.simps) auto
  next
    case None
    with "1.prems" obtain s2 name s3 target s4 mname s5 mode where *:
      "separator first (skip_whitespace s) = Inr s2" "policy_string s2 = Inr (name, s3)"
      "target_parse name = Inr target" "expect CHR '':'' s3 = Inr s4"
      "policy_string s4 = Inr (mname, s5)" "mode_parse mname = Inr mode"
      "\<not> (mode = Off \<or> om_get ts target \<noteq> None)"
      "targets_loop False (om_insert target mode ts) s5 = Inr (m, r)"
      by (subst (asm) targets_loop.simps) (auto simp: rbind_eq_Inr split: if_splits)
    from "1.IH" [OF refl None *(1,2) refl *(3,4,5) refl *(6,7,8)] show ?thesis
      using length_skip_whitespace [of s] separator_length [OF *(1)]
        policy_string_length [OF *(2)] expect_length [OF *(4)] policy_string_length [OF *(5)]
      by simp
  qed
qed

lemma parse_targets_length: "parse_targets s = Inr (m, r) \<Longrightarrow> length r < length s"
  by (auto simp: parse_targets_def rbind_eq_Inr dest!: expect_length targets_loop_length)

function users_loop ::
    "bool \<Rightarrow> (u32, targets_map) omap \<Rightarrow> string
       \<Rightarrow> auth_policy_error + (u32, targets_map) omap \<times> string" where
  "users_loop first us s =
     (let s1 = skip_whitespace s in
      case consume CHR ''}'' s1 of
        Some r \<Rightarrow> Inr (us, r)
      | None \<Rightarrow>
          rbind (separator first s1) (\<lambda>s2.
          rbind (policy_string s2) (\<lambda>(uid_text, s3).
          rbind (ok_or Policy_Invalid (parse_u32 uid_text)) (\<lambda>uid.
          if uid = 0 \<or> u32_to_string uid \<noteq> uid_text then Inl Policy_Invalid
          else
            rbind (expect CHR '':'' s3) (\<lambda>s4.
            rbind (parse_targets s4) (\<lambda>(targets, s5).
            if om_get us uid \<noteq> None then Inl Policy_Invalid
            else users_loop False (om_insert uid targets us) s5))))))"
  by pat_completeness auto
termination
proof (relation "measure (\<lambda>(first, us, s). length s)")
  show "wf (measure (\<lambda>(first :: bool, us :: (u32, targets_map) omap, s :: string). length s))" by simp
  fix first us and s :: string and s1 s2 a name s3 uid s4 b targets s5
  assume "s1 = skip_whitespace s" "separator first s1 = Inr s2" "policy_string s2 = Inr a"
    "(name, s3) = a" "expect CHR '':'' s3 = Inr s4" "parse_targets s4 = Inr b" "(targets, s5) = b"
  then show "((False, om_insert uid targets us, s5), first, us, s)
      \<in> measure (\<lambda>(first, us, s). length s)"
    using length_skip_whitespace [of s] separator_length [of first s1 s2]
      policy_string_length [of s2 name s3] expect_length [of "CHR '':''" s3 s4]
      parse_targets_length [of s4 targets s5] by simp
qed

declare users_loop.simps [simp del]

definition parse_users :: "string \<Rightarrow> auth_policy_error + (u32, targets_map) omap \<times> string" where
  "parse_users s = rbind (expect CHR ''{'' s) (users_loop True [])"

lemma users_loop_length: "users_loop first us s = Inr (m, r) \<Longrightarrow> length r < length s"
proof (induction first us s rule: users_loop.induct)
  case (1 first us s)
  show ?case
  proof (cases "consume CHR ''}'' (skip_whitespace s)")
    case (Some t)
    with "1.prems" consume_length [OF Some] length_skip_whitespace [of s] show ?thesis
      by (subst (asm) users_loop.simps) auto
  next
    case None
    with "1.prems" obtain s2 name s3 uid s4 targets s5 where *:
      "separator first (skip_whitespace s) = Inr s2" "policy_string s2 = Inr (name, s3)"
      "ok_or Policy_Invalid (parse_u32 name) = Inr uid"
      "\<not> (uid = 0 \<or> u32_to_string uid \<noteq> name)" "expect CHR '':'' s3 = Inr s4"
      "parse_targets s4 = Inr (targets, s5)" "\<not> om_get us uid \<noteq> None"
      "users_loop False (om_insert uid targets us) s5 = Inr (m, r)"
      by (subst (asm) users_loop.simps) (auto simp: rbind_eq_Inr split: if_splits)
    from "1.IH" [OF refl None *(1,2) refl *(3,4,5,6) refl *(7,8)] show ?thesis
      using length_skip_whitespace [of s] separator_length [OF *(1)]
        policy_string_length [OF *(2)] expect_length [OF *(5)] parse_targets_length [OF *(6)]
      by simp
  qed
qed

lemma parse_users_length: "parse_users s = Inr (m, r) \<Longrightarrow> length r < length s"
  by (auto simp: parse_users_def rbind_eq_Inr dest!: expect_length users_loop_length)

text \<open>
  The member loop of the top-level object. Its state is \<^verbatim>\<open>version_seen\<close> and the optional users map.
\<close>

function policy_loop ::
    "bool \<Rightarrow> bool \<Rightarrow> (u32, targets_map) omap option \<Rightarrow> string
       \<Rightarrow> auth_policy_error + (bool \<times> (u32, targets_map) omap option) \<times> string" where
  "policy_loop first version_seen us s =
     (let s1 = skip_whitespace s in
      case consume CHR ''}'' s1 of
        Some r \<Rightarrow> Inr ((version_seen, us), r)
      | None \<Rightarrow>
          rbind (separator first s1) (\<lambda>s2.
          rbind (policy_string s2) (\<lambda>(key, s3).
          rbind (expect CHR '':'' s3) (\<lambda>s4.
          if key = ''version'' \<and> \<not> version_seen then
            rbind (policy_number s4) (\<lambda>(n, s5).
            if n \<noteq> 1 then Inl Policy_Invalid else policy_loop False True us s5)
          else if key = ''users'' \<and> us = None then
            rbind (parse_users s4) (\<lambda>(parsed, s5). policy_loop False version_seen (Some parsed) s5)
          else Inl Policy_Invalid))))"
  by pat_completeness auto
termination
proof (relation "measure (\<lambda>(first, version_seen, us, s). length s)")
  show "wf (measure (\<lambda>(first :: bool, v :: bool, us :: (u32, targets_map) omap option, s :: string).
      length s))" by simp
next
  fix first version_seen :: bool and us :: "(u32, targets_map) omap option" and s :: string
    and s1 s2 a key s3 s4 and b :: "u32 \<times> string" and n s5
  assume "s1 = skip_whitespace s" "separator first s1 = Inr s2" "policy_string s2 = Inr a"
    "(key, s3) = a" "expect CHR '':'' s3 = Inr s4" "policy_number s4 = Inr b" "(n, s5) = b"
  then show "((False, True, us, s5), first, version_seen, us, s)
      \<in> measure (\<lambda>(first, version_seen, us, s). length s)"
    using length_skip_whitespace [of s] separator_length [of first s1 s2]
      policy_string_length [of s2 key s3] expect_length [of "CHR '':''" s3 s4]
      policy_number_length [of s4 n s5] by simp
next
  fix first version_seen :: bool and us :: "(u32, targets_map) omap option" and s :: string
    and s1 s2 a key s3 s4 and b :: "(u32, targets_map) omap \<times> string" and parsed s5
  assume "s1 = skip_whitespace s" "separator first s1 = Inr s2" "policy_string s2 = Inr a"
    "(key, s3) = a" "expect CHR '':'' s3 = Inr s4" "parse_users s4 = Inr b" "(parsed, s5) = b"
  then show "((False, version_seen, Some parsed, s5), first, version_seen, us, s)
      \<in> measure (\<lambda>(first, version_seen, us, s). length s)"
    using length_skip_whitespace [of s] separator_length [of first s1 s2]
      policy_string_length [of s2 key s3] expect_length [of "CHR '':''" s3 s4]
      parse_users_length [of s4 parsed s5] by simp
qed

declare policy_loop.simps [simp del]

definition parse_policy :: "string \<Rightarrow> auth_policy_error + auth_policy \<times> string" where
  "parse_policy s =
     rbind (expect CHR ''{'' s) (\<lambda>s1.
     rbind (policy_loop True False None s1) (\<lambda>((version_seen, us), s2).
     if \<not> version_seen then Inl Policy_Invalid
     else rbind (ok_or Policy_Invalid us) (\<lambda>m. Inr (default_policy\<lparr>users := m\<rparr>, s2))))"

definition MAX_POLICY_BYTES :: nat where
  "MAX_POLICY_BYTES = 64 * 1024"

definition parse_json :: "string \<Rightarrow> auth_policy_error + auth_policy" where
  "parse_json s =
     (if length s > MAX_POLICY_BYTES \<or> \<not> is_ascii s then Inl Policy_Invalid
      else rbind (parse_policy s) (\<lambda>(policy, r).
        if skip_whitespace r \<noteq> [] then Inl Policy_Invalid else Inr policy))"

section \<open>Well-formed policies\<close>

definition targets_wf :: "targets_map \<Rightarrow> bool" where
  "targets_wf ts \<longleftrightarrow> om_inv ts \<and> (\<forall>e \<in> set ts. snd e \<noteq> Off)"

definition users_wf :: "(u32, targets_map) omap \<Rightarrow> bool" where
  "users_wf us \<longleftrightarrow> om_inv us \<and> (\<forall>e \<in> set us. fst e \<noteq> 0 \<and> targets_wf (snd e))"

definition policy_wf :: "auth_policy \<Rightarrow> bool" where
  "policy_wf p \<longleftrightarrow> users_wf (users p)"

lemma targets_wf_Nil [simp]: "targets_wf []"
  by (simp add: targets_wf_def)

lemma targets_wf_insert: "targets_wf ts \<Longrightarrow> m \<noteq> Off \<Longrightarrow> targets_wf (om_insert t m ts)"
  using set_om_insert_subset [of t m ts] by (auto simp: targets_wf_def om_inv_insert)

lemma targets_wf_remove: "targets_wf ts \<Longrightarrow> targets_wf (om_remove t ts)"
  using set_om_remove_subset [of t ts] by (auto simp: targets_wf_def om_inv_remove)

lemma users_wf_Nil [simp]: "users_wf []"
  by (simp add: users_wf_def)

lemma users_wf_insert: "users_wf us \<Longrightarrow> uid \<noteq> 0 \<Longrightarrow> targets_wf ts \<Longrightarrow> users_wf (om_insert uid ts us)"
  using set_om_insert_subset [of uid ts us] by (auto simp: users_wf_def om_inv_insert)

lemma users_wf_remove: "users_wf us \<Longrightarrow> users_wf (om_remove uid us)"
  using set_om_remove_subset [of uid us] by (auto simp: users_wf_def om_inv_remove)

lemma users_wf_get: "users_wf us \<Longrightarrow> om_get us uid = Some ts \<Longrightarrow> uid \<noteq> 0 \<and> targets_wf ts"
  by (auto simp: users_wf_def dest!: map_of_SomeD)

lemma targets_loop_wf: "targets_loop first ts s = Inr (m, r) \<Longrightarrow> targets_wf ts \<Longrightarrow> targets_wf m"
proof (induction first ts s rule: targets_loop.induct)
  case (1 first ts s)
  show ?case
  proof (cases "consume CHR ''}'' (skip_whitespace s)")
    case (Some t)
    with "1.prems" show ?thesis by (subst (asm) targets_loop.simps) auto
  next
    case None
    with "1.prems"(1) obtain s2 name s3 target s4 mname s5 mode where *:
      "separator first (skip_whitespace s) = Inr s2" "policy_string s2 = Inr (name, s3)"
      "target_parse name = Inr target" "expect CHR '':'' s3 = Inr s4"
      "policy_string s4 = Inr (mname, s5)" "mode_parse mname = Inr mode"
      "\<not> (mode = Off \<or> om_get ts target \<noteq> None)"
      "targets_loop False (om_insert target mode ts) s5 = Inr (m, r)"
      by (subst (asm) targets_loop.simps) (auto simp: rbind_eq_Inr split: if_splits)
    then have "targets_wf (om_insert target mode ts)"
      using "1.prems"(2) by (simp add: targets_wf_insert)
    then show ?thesis by (rule "1.IH" [OF refl None *(1,2) refl *(3,4,5) refl *(6,7,8)])
  qed
qed

lemma parse_targets_wf: "parse_targets s = Inr (m, r) \<Longrightarrow> targets_wf m"
  by (auto simp: parse_targets_def rbind_eq_Inr dest!: targets_loop_wf)

lemma users_loop_wf: "users_loop first us s = Inr (m, r) \<Longrightarrow> users_wf us \<Longrightarrow> users_wf m"
proof (induction first us s rule: users_loop.induct)
  case (1 first us s)
  show ?case
  proof (cases "consume CHR ''}'' (skip_whitespace s)")
    case (Some t)
    with "1.prems" show ?thesis by (subst (asm) users_loop.simps) auto
  next
    case None
    with "1.prems"(1) obtain s2 name s3 uid s4 targets s5 where *:
      "separator first (skip_whitespace s) = Inr s2" "policy_string s2 = Inr (name, s3)"
      "ok_or Policy_Invalid (parse_u32 name) = Inr uid"
      "\<not> (uid = 0 \<or> u32_to_string uid \<noteq> name)" "expect CHR '':'' s3 = Inr s4"
      "parse_targets s4 = Inr (targets, s5)" "\<not> om_get us uid \<noteq> None"
      "users_loop False (om_insert uid targets us) s5 = Inr (m, r)"
      by (subst (asm) users_loop.simps) (auto simp: rbind_eq_Inr split: if_splits)
    then have "users_wf (om_insert uid targets us)"
      using "1.prems"(2) parse_targets_wf [of s4] by (simp add: users_wf_insert)
    then show ?thesis by (rule "1.IH" [OF refl None *(1,2) refl *(3,4,5,6) refl *(7,8)])
  qed
qed

lemma parse_users_wf: "parse_users s = Inr (m, r) \<Longrightarrow> users_wf m"
  by (auto simp: parse_users_def rbind_eq_Inr dest!: users_loop_wf)

lemma policy_loop_wf:
  "policy_loop first v us s = Inr ((v', us'), r) \<Longrightarrow> (\<And>m. us = Some m \<Longrightarrow> users_wf m) \<Longrightarrow>
     us' = Some m' \<Longrightarrow> users_wf m'"
proof (induction first v us s rule: policy_loop.induct)
  case (1 first v us s)
  show ?case
  proof (cases "consume CHR ''}'' (skip_whitespace s)")
    case (Some t)
    with "1.prems" show ?thesis by (subst (asm) policy_loop.simps) auto
  next
    case None
    with "1.prems"(1) obtain s2 key s3 s4 where *:
      "separator first (skip_whitespace s) = Inr s2" "policy_string s2 = Inr (key, s3)"
      "expect CHR '':'' s3 = Inr s4"
      by (subst (asm) policy_loop.simps) (auto simp: rbind_eq_Inr split: if_splits)
    note IH = "1.IH" [OF refl None *(1,2) refl *(3)]
    show ?thesis
    proof (cases "key = ''version'' \<and> \<not> v")
      case True
      with None * "1.prems"(1) obtain n s5 where n: "policy_number s4 = Inr (n, s5)" "\<not> n \<noteq> 1"
        "policy_loop False True us s5 = Inr ((v', us'), r)"
        by (subst (asm) policy_loop.simps) (auto simp: rbind_eq_Inr split: if_splits)
      from IH(1) [OF True n(1) refl n(2,3)] "1.prems"(2,3) show ?thesis by blast
    next
      case False
      with None * "1.prems"(1) obtain parsed s5 where u: "key = ''users'' \<and> us = None"
        "parse_users s4 = Inr (parsed, s5)"
        "policy_loop False v (Some parsed) s5 = Inr ((v', us'), r)"
        by (subst (asm) policy_loop.simps) (auto simp: rbind_eq_Inr split: if_splits)
      from IH(2) [OF False u(1,2) refl u(3)] parse_users_wf [OF u(2)] "1.prems"(3)
      show ?thesis by blast
    qed
  qed
qed

lemma parse_json_wf: "parse_json s = Inr p \<Longrightarrow> policy_wf p"
  by (auto simp: parse_json_def parse_policy_def policy_wf_def default_policy_def rbind_eq_Inr
      ok_or_eq_Inr dest: policy_loop_wf split: if_splits)

section \<open>The parser inverts the printer\<close>

definition plain :: "string \<Rightarrow> bool" where
  "plain w \<longleftrightarrow> (\<forall>c \<in> set w. c \<noteq> DQ \<and> c \<noteq> CHR 0x5C \<and> 0x20 \<le> byte c \<and> byte c < 128)"

lemma string_body_plain:
  "plain w \<Longrightarrow> is_ascii acc \<Longrightarrow> string_body acc (w @ DQ # r) = Inr (acc @ w, r)"
  by (induction w arbitrary: acc) (auto simp: plain_def utf8_valid_is_ascii)

lemma is_ascii_whitespace_CHR [simp]:
  "\<not> is_ascii_whitespace DQ" "\<not> is_ascii_whitespace CHR '':''" "\<not> is_ascii_whitespace CHR '',''"
  "\<not> is_ascii_whitespace CHR ''{''" "\<not> is_ascii_whitespace CHR ''}''"
  "\<not> is_ascii_whitespace CHR ''1''" "is_ascii_whitespace CHR 0x0A"
  by (simp_all add: is_ascii_whitespace_def byte_def)

lemma skip_whitespace_simps [simp]:
  "skip_whitespace [] = []"
  "\<not> is_ascii_whitespace c \<Longrightarrow> skip_whitespace (c # s) = c # s"
  "is_ascii_whitespace c \<Longrightarrow> skip_whitespace (c # s) = skip_whitespace s"
  by (simp_all add: skip_whitespace_def)

lemma consume_Cons [simp]: "consume c (d # s) = (if d = c then Some s else None)"
  by (simp add: consume_def)

lemma expect_Cons [simp]: "\<not> is_ascii_whitespace c \<Longrightarrow> expect c (c # s) = Inr s"
  by (simp add: expect_def)

lemma policy_string_quoted [simp]:
  "plain w \<Longrightarrow> policy_string (DQ # w @ DQ # r) = Inr (w, r)"
  by (simp add: policy_string_def string_body_plain)

lemma quoted_append [simp]: "quoted w @ r = DQ # w @ DQ # r"
  by (simp add: quoted_def)

lemma plain_keys [simp]:
  "plain (target_key t)" "plain (mode_as_str m)" "plain (u32_to_string u)"
  "plain ''version''" "plain ''users''"
proof -
  show "plain (target_key t)" by (cases t) (simp_all add: plain_def byte_def)
  show "plain (mode_as_str m)" by (cases m) (simp_all add: plain_def byte_def)
  show "plain (u32_to_string u)"
    using u32_to_string_plain [of _ u] by (force simp: plain_def byte_def)
  show "plain ''version''" "plain ''users''" by (simp_all add: plain_def byte_def)
qed

lemma target_parse_key [simp]: "target_parse (target_key t) = Inr t"
  by (cases t) (simp_all add: target_parse_def)

lemma mode_parse_as_str [simp]: "mode_parse (mode_as_str m) = Inr m"
  by (cases m) (simp_all add: mode_parse_def)

lemma targets_loop_json:
  "targets_wf ts \<Longrightarrow> (\<forall>x \<in> fst ` set acc. \<forall>y \<in> fst ` set ts. x < y) \<Longrightarrow>
     (first \<longleftrightarrow> acc = []) \<Longrightarrow>
     targets_loop first acc (json_targets first ts @ CHR ''}'' # r) = Inr (acc @ ts, r)"
proof (induction ts arbitrary: first acc)
  case Nil
  then show ?case by (subst targets_loop.simps) simp
next
  case (Cons e ts)
  obtain t m where e: "e = (t, m)" by (cases e)
  with Cons.prems have *: "targets_wf ts" "m \<noteq> Off" "\<forall>x \<in> fst ` set acc. x < t"
    "\<forall>y \<in> fst ` set ts. t < y" by (auto simp: targets_wf_def)
  then have g: "om_get acc t = None" by (force simp: map_of_eq_None_iff)
  have "targets_loop False (acc @ [(t, m)]) (json_targets False ts @ CHR ''}'' # r)
      = Inr ((acc @ [(t, m)]) @ ts, r)"
    using Cons.prems * by (intro Cons.IH) (auto simp: e)
  with * g e show ?case
    by (subst targets_loop.simps) (simp add: separator_def om_insert_snoc)
qed

lemma users_loop_json:
  "users_wf us \<Longrightarrow> (\<forall>x \<in> fst ` set acc. \<forall>y \<in> fst ` set us. x < y) \<Longrightarrow>
     (first \<longleftrightarrow> acc = []) \<Longrightarrow>
     users_loop first acc (json_users first us @ CHR ''}'' # r) = Inr (acc @ us, r)"
proof (induction us arbitrary: first acc)
  case Nil
  then show ?case by (subst users_loop.simps) simp
next
  case (Cons e us)
  obtain u ts where e: "e = (u, ts)" by (cases e)
  with Cons.prems have *: "users_wf us" "targets_wf ts" "u \<noteq> 0" "\<forall>x \<in> fst ` set acc. x < u"
    "\<forall>y \<in> fst ` set us. u < y" by (auto simp: users_wf_def)
  then have g: "om_get acc u = None" by (force simp: map_of_eq_None_iff)
  have "users_loop False (acc @ [(u, ts)]) (json_users False us @ CHR ''}'' # r)
      = Inr ((acc @ [(u, ts)]) @ us, r)"
    using Cons.prems * by (intro Cons.IH) (auto simp: e)
  with * g e targets_loop_json [of ts "[]" True] show ?case
    by (subst users_loop.simps) (simp add: separator_def om_insert_snoc parse_targets_def)
qed

lemma policy_number_one: "policy_number (CHR ''1'' # CHR '','' # r) = Inr (1, CHR '','' # r)"
proof -
  have "is_ascii_digit CHR ''1''" "\<not> is_ascii_digit CHR '',''" "parse_u32 ''1'' = Some 1"
    by (simp_all add: is_ascii_digit_def byte_def parse_u32_def parse_unsigned_def)
  then show ?thesis by (simp add: policy_number_def byte_def)
qed

lemma parse_policy_json:
  assumes "policy_wf p"
  shows "parse_policy (to_json p) = Inr (p, [CHR 0x0A])"
proof -
  let ?tail = "CHR ''}'' # [CHR 0x0A]"
  let ?users = "json_users True (users p) @ CHR ''}'' # ?tail"
  have "users_loop True [] ?users = Inr (users p, ?tail)"
    using assms users_loop_json [of "users p" "[]" True] by (simp add: policy_wf_def)
  then have u: "parse_users (CHR ''{'' # ?users) = Inr (users p, ?tail)"
    by (simp add: parse_users_def)
  have "policy_loop False True (Some (users p)) ?tail = Inr ((True, Some (users p)), [CHR 0x0A])"
    by (subst policy_loop.simps) simp
  then have "policy_loop False True None (CHR '','' # quoted ''users'' @ CHR '':'' # CHR ''{'' # ?users)
      = Inr ((True, Some (users p)), [CHR 0x0A])"
    using u policy_string_quoted [of "''users''"]
    by (subst policy_loop.simps) (simp add: separator_def)
  then have "policy_loop True False None
       (quoted ''version'' @ CHR '':'' # CHR ''1'' # CHR '','' # quoted ''users'' @ CHR '':'' # CHR ''{'' # ?users)
      = Inr ((True, Some (users p)), [CHR 0x0A])"
    using policy_number_one policy_string_quoted [of "''version''"]
    by (subst policy_loop.simps) (simp add: separator_def)
  then show ?thesis by (simp add: parse_policy_def to_json_def default_policy_def)
qed

lemma is_ascii_plain: "plain w \<Longrightarrow> is_ascii w"
  by (auto simp: plain_def is_ascii_def)

lemma is_ascii_json: "is_ascii (json_targets b ts)" "is_ascii (json_users c us)" "is_ascii (to_json p)"
proof -
  show t: "is_ascii (json_targets b ts)" for b ts
    by (induction b ts rule: json_targets.induct) (auto simp: is_ascii_plain, auto simp: byte_def)
  show u: "is_ascii (json_users c us)" for c us
    by (induction c us rule: json_users.induct) (auto simp: is_ascii_plain t, auto simp: byte_def)
  show "is_ascii (to_json p)" using u by (simp add: to_json_def, simp add: byte_def)
qed

text \<open>
  Claim C19: on a well-formed policy (keys in order, no uid zero, no stored Off) the strict parser
  reads back exactly the policy that was printed, as long as the printed text fits the 64 KiB limit;
  a longer text is rejected.
\<close>

theorem policy_json_roundtrip:
  assumes "policy_wf p"
  shows "parse_json (to_json p)
    = (if length (to_json p) \<le> MAX_POLICY_BYTES then Inr p else Inl Policy_Invalid)"
  using parse_policy_json [OF assms] is_ascii_json(3) [of p]
  by (simp add: parse_json_def not_le [symmetric])

text \<open>
  Claim C20: whatever bytes the policy file holds, a policy the parser accepts is well formed: no
  entry for uid zero, no stored Off, no duplicate user or target.
\<close>

theorem parse_json_sound:
  assumes "parse_json s = Inr p"
  shows "policy_wf p \<and> length s \<le> MAX_POLICY_BYTES \<and> is_ascii s
    \<and> (\<forall>t. mode_for p 0 t = Off)"
proof -
  have wf: "policy_wf p" using parse_json_wf [OF assms] .
  then have "om_get (users p) 0 = None"
    using users_wf_get [of "users p" 0] by (cases "om_get (users p) 0") (auto simp: policy_wf_def)
  with wf assms show ?thesis
    by (auto simp: parse_json_def mode_for_def split: if_splits)
qed

lemma users_wf_inv: "users_wf us \<Longrightarrow> om_inv us"
  by (simp add: users_wf_def)

lemma targets_wf_inv: "targets_wf ts \<Longrightarrow> om_inv ts"
  by (simp add: targets_wf_def)

lemmas policy_map_laws = om_get_insert om_get_remove users_wf_inv targets_wf_inv

lemma set_mode_off:
  assumes "policy_wf p" "uid \<noteq> 0"
  shows "\<exists>q. set_mode p uid t Off = Inr q \<and> policy_wf q
    \<and> (\<forall>v s. mode_for q v s = (if v = uid \<and> s = t then Off else mode_for p v s))"
proof (cases "om_get (users p) uid")
  case None
  with assms show ?thesis by (auto simp: set_mode_def mode_for_def)
next
  case (Some ts)
  with assms have wf: "users_wf (users p)" "targets_wf ts" "targets_wf (om_remove t ts)"
    using users_wf_get [of "users p" uid ts] targets_wf_remove by (auto simp: policy_wf_def)
  show ?thesis
  proof (cases "om_remove t ts = []")
    case True
    then have e: "om_get ts s = None" if "s \<noteq> t" for s
      using that om_get_remove [of t ts] by (auto simp: fun_eq_iff split: if_splits)
    with True Some wf assms(2) show ?thesis
      by (auto simp: set_mode_def mode_for_def policy_wf_def users_wf_remove policy_map_laws)
  next
    case False
    with Some wf assms(2) show ?thesis
      by (auto simp: set_mode_def mode_for_def policy_wf_def users_wf_insert policy_map_laws)
  qed
qed

lemma set_mode_on:
  assumes "policy_wf p" "uid \<noteq> 0" "m \<noteq> Off"
  shows "\<exists>q. set_mode p uid t m = Inr q \<and> policy_wf q
    \<and> (\<forall>v s. mode_for q v s = (if v = uid \<and> s = t then m else mode_for p v s))"
proof -
  define ts where "ts = (case om_get (users p) uid of None \<Rightarrow> [] | Some ts \<Rightarrow> ts)"
  have wf: "users_wf (users p)" "targets_wf ts"
    using assms(1) users_wf_get [of "users p" uid]
    by (auto simp: policy_wf_def ts_def split: option.split)
  then have wf': "users_wf (om_insert uid (om_insert t m ts) (users p))"
    by (simp add: assms users_wf_insert targets_wf_insert)
  have g: "mode_for p uid s = (case om_get ts s of None \<Rightarrow> Off | Some m \<Rightarrow> m)" for s
    by (simp add: mode_for_def ts_def split: option.split)
  have "set_mode p uid t m = Inr (p\<lparr>users := om_insert uid (om_insert t m ts) (users p)\<rparr>)"
    using assms by (simp add: set_mode_def ts_def)
  then show ?thesis
    using wf wf' g by (auto simp: policy_wf_def mode_for_def policy_map_laws)
qed

text \<open>
  \<^verbatim>\<open>set_mode\<close> refuses uid zero and otherwise keeps the policy well formed and changes
  the effective mode of exactly one user and target.
\<close>

theorem set_mode_spec:
  assumes "policy_wf p"
  shows "set_mode p 0 t m = Inl Policy_Invalid
    \<and> (uid \<noteq> 0 \<longrightarrow> (\<exists>q. set_mode p uid t m = Inr q \<and> policy_wf q
         \<and> (\<forall>v s. mode_for q v s = (if v = uid \<and> s = t then m else mode_for p v s))))"
proof -
  have "set_mode p 0 t m = Inl Policy_Invalid" by (simp add: set_mode_def)
  then show ?thesis
    using set_mode_off [OF assms, of uid t] set_mode_on [OF assms, of uid m t] by blast
qed

definition sample_policy :: auth_policy where
  "sample_policy = \<lparr>users = [(1000, [(Sddm, Manual), (PlasmaLock, OnActivity)]), (1001, [(Sddm, Manual)])]\<rparr>"

lemma sample_policy_wf: "policy_wf sample_policy"
  by (simp add: sample_policy_def policy_wf_def users_wf_def targets_wf_def less_auth_target_def)

theorem policy_json_roundtrip_witness:
  "policy_wf sample_policy \<and> parse_json (to_json sample_policy)
    = (if length (to_json sample_policy) \<le> MAX_POLICY_BYTES then Inr sample_policy else Inl Policy_Invalid)"
  using policy_json_roundtrip [OF sample_policy_wf] sample_policy_wf by blast

lemma parse_json_default: "parse_json (to_json default_policy) = Inr default_policy"
proof -
  have "length (to_json default_policy) \<le> MAX_POLICY_BYTES" "is_ascii (to_json default_policy)"
    by (simp add: to_json_def default_policy_def quoted_def MAX_POLICY_BYTES_def) (rule is_ascii_json)
  moreover have "policy_wf default_policy" by (simp add: policy_wf_def default_policy_def)
  ultimately show ?thesis by (simp add: parse_json_def parse_policy_json)
qed

theorem parse_json_sound_witness:
  "parse_json (to_json default_policy) = Inr default_policy \<and> policy_wf default_policy
    \<and> length (to_json default_policy) \<le> MAX_POLICY_BYTES \<and> is_ascii (to_json default_policy)
    \<and> (\<forall>t. mode_for default_policy 0 t = Off)"
  using parse_json_sound [OF parse_json_default] parse_json_default by blast

theorem set_mode_spec_witness:
  "policy_wf sample_policy
    \<and> (\<exists>q. set_mode sample_policy 1001 Sddm Off = Inr q \<and> policy_wf q \<and> mode_for q 1001 Sddm = Off)"
proof -
  have "(1001 :: u32) \<noteq> 0" by simp
  then show ?thesis using set_mode_spec [OF sample_policy_wf, of Sddm Off 1001] sample_policy_wf by metis
qed

end
