(* ===== verification/Daemon_Protocol.thy ===== *)
theory Daemon_Protocol
  imports Text_Base Auth_Policy
begin

text \<open>
  The wire format of the system daemon (\<^verbatim>\<open>engine/daemon/src/lib.rs\<close>): request and status constants, the request
  decoder, the response encoder, the authorization rule and the private request of the authentication worker.
\<close>

section \<open>Constants and requests\<close>

definition DAEMON_PROTOCOL_VERSION :: u16 where [wire_defs]: "DAEMON_PROTOCOL_VERSION = 2"
definition FRESHNESS_PROTOCOL_VERSION :: u16 where [wire_defs]: "FRESHNESS_PROTOCOL_VERSION = 3"
definition MAX_DAEMON_REQUEST_BYTES :: nat where [wire_defs]: "MAX_DAEMON_REQUEST_BYTES = 14 + 255"
definition MAX_DAEMON_RESPONSE_BYTES :: nat where [wire_defs]: "MAX_DAEMON_RESPONSE_BYTES = 64 * 1024"
definition AUTH_WORKER_REQUEST_BYTES :: nat where [wire_defs]: "AUTH_WORKER_REQUEST_BYTES = 9"
definition DEFAULT_PAM_TIMEOUT_MS :: u32 where [wire_defs]: "DEFAULT_PAM_TIMEOUT_MS = 2000"
definition OP_PAM_AUTH :: u8 where [wire_defs]: "OP_PAM_AUTH = 0x10"
definition OP_STATUS :: u8 where [wire_defs]: "OP_STATUS = 0x11"
definition OP_FRESHNESS :: u8 where [wire_defs]: "OP_FRESHNESS = 0x12"
definition AUTH_TARGET_SDDM :: u8 where [wire_defs]: "AUTH_TARGET_SDDM = 1"
definition AUTH_TARGET_PLASMA_LOCK :: u8 where [wire_defs]: "AUTH_TARGET_PLASMA_LOCK = 2"
definition STATUS_SUCCESS :: u8 where [wire_defs]: "STATUS_SUCCESS = 0"
definition STATUS_AUTH_FAILED :: u8 where [wire_defs]: "STATUS_AUTH_FAILED = 1"
definition STATUS_ACCESS_DENIED :: u8 where [wire_defs]: "STATUS_ACCESS_DENIED = 2"
definition STATUS_NO_PROFILE :: u8 where [wire_defs]: "STATUS_NO_PROFILE = 3"
definition STATUS_TIMEOUT :: u8 where [wire_defs]: "STATUS_TIMEOUT = 4"
definition STATUS_DEVICE_BUSY :: u8 where [wire_defs]: "STATUS_DEVICE_BUSY = 5"
definition STATUS_INTERNAL_ERROR :: u8 where [wire_defs]: "STATUS_INTERNAL_ERROR = 6"
definition STATUS_SPOOF_DETECTED :: u8 where [wire_defs]: "STATUS_SPOOF_DETECTED = 7"
definition STATUS_RATE_LIMITED :: u8 where [wire_defs]: "STATUS_RATE_LIMITED = 8"
definition STATUS_CANCELLED :: u8 where [wire_defs]: "STATUS_CANCELLED = 9"
definition STATUS_PROGRESS_LOOKING_FOR_FACE :: u8 where
  [wire_defs]: "STATUS_PROGRESS_LOOKING_FOR_FACE = 0x80"

text \<open>The user name is kept as its UTF-8 bytes.\<close>

datatype daemon_request =
    PamAuth u32 u8 u32 bytes
  | StatusRequest u32
  | Freshness u32 bytes

fun target_uid :: "daemon_request \<Rightarrow> u32" where
  "target_uid (PamAuth uid _ _ _) = uid"
| "target_uid (StatusRequest uid) = uid"
| "target_uid (Freshness uid _) = uid"

text \<open>The error strings of the decoder, one constructor each.\<close>

datatype request_error = InvalidLength | UnsupportedProtocol | MalformedPam | InvalidAuthTarget
  | InvalidPamBounds | InvalidUsernameEncoding | InvalidUsername | UnknownOpcode

definition is_auth_target :: "u8 \<Rightarrow> bool" where
  "is_auth_target t \<longleftrightarrow> t = AUTH_TARGET_SDDM \<or> t = AUTH_TARGET_PLASMA_LOCK"

definition decode_pam_auth :: "bytes \<Rightarrow> u32 \<Rightarrow> request_error + daemon_request" where
  "decode_pam_auth payload uid =
     (if length payload < 14 then Inl MalformedPam
      else let auth_target = payload ! 3 in
        if \<not> is_auth_target auth_target then Inl InvalidAuthTarget
        else let timeout_ms = u32_from_be [payload ! 8, payload ! 9, payload ! 10, payload ! 11];
                 user_len = unat (u16_from_be [payload ! 12, payload ! 13])
          in if \<not> (1 \<le> timeout_ms \<and> timeout_ms \<le> DEFAULT_PAM_TIMEOUT_MS)
               \<or> \<not> (1 \<le> user_len \<and> user_len \<le> 255) \<or> length payload \<noteq> 14 + user_len
             then Inl InvalidPamBounds
             else let username = drop 14 payload in
               if \<not> utf8_valid (map unat username) then Inl InvalidUsernameEncoding
               else if 0 \<in> set username then Inl InvalidUsername
               else Inr (PamAuth uid auth_target timeout_ms username))"

definition decode_daemon_request :: "bytes \<Rightarrow> request_error + daemon_request" where
  "decode_daemon_request payload =
     (if length payload < 8 \<or> length payload > MAX_DAEMON_REQUEST_BYTES then Inl InvalidLength
      else let version = u16_from_be [payload ! 0, payload ! 1] in
        if version = FRESHNESS_PROTOCOL_VERSION \<and> length payload = 40 \<and> payload ! 2 = OP_FRESHNESS
          \<and> payload ! 3 = 0
        then Inr (Freshness (u32_from_be (bslice 4 8 payload)) (bslice 8 40 payload))
        else if version \<noteq> DAEMON_PROTOCOL_VERSION then Inl UnsupportedProtocol
        else let opcode = payload ! 2;
                 uid = u32_from_be [payload ! 4, payload ! 5, payload ! 6, payload ! 7]
          in if opcode = OP_PAM_AUTH then decode_pam_auth payload uid
             else if opcode = OP_STATUS \<and> length payload = 8 \<and> payload ! 3 = 0
             then Inr (StatusRequest uid)
             else Inl UnknownOpcode)"

definition encode_daemon_response :: "u8 \<Rightarrow> bytes \<Rightarrow> bytes" where
  "encode_daemon_response status_code extra = u16_be DAEMON_PROTOCOL_VERSION @ [status_code, 0] @ extra"

definition is_authorized :: "u32 \<Rightarrow> u32 \<Rightarrow> bool" where
  "is_authorized peer_uid target \<longleftrightarrow> peer_uid = target \<or> peer_uid = 0"

definition authentication_target :: "u8 \<Rightarrow> auth_target option" where
  "authentication_target t =
     (if t = AUTH_TARGET_SDDM then Some Sddm
      else if t = AUTH_TARGET_PLASMA_LOCK then Some PlasmaLock
      else None)"

section \<open>The format the decoder accepts\<close>

text \<open>The layout of a request, and the requests that have one.\<close>

fun request_bytes :: "daemon_request \<Rightarrow> bytes" where
  "request_bytes (PamAuth uid t ms user) =
     u16_be DAEMON_PROTOCOL_VERSION @ [OP_PAM_AUTH, t] @ u32_be uid @ u32_be ms
       @ u16_be (word_of_nat (length user)) @ user"
| "request_bytes (StatusRequest uid) = u16_be DAEMON_PROTOCOL_VERSION @ [OP_STATUS, 0] @ u32_be uid"
| "request_bytes (Freshness uid digest) =
     u16_be FRESHNESS_PROTOCOL_VERSION @ [OP_FRESHNESS, 0] @ u32_be uid @ digest"

fun request_valid :: "daemon_request \<Rightarrow> bool" where
  "request_valid (PamAuth uid t ms user) \<longleftrightarrow>
     is_auth_target t \<and> 1 \<le> ms \<and> ms \<le> DEFAULT_PAM_TIMEOUT_MS \<and> 1 \<le> length user \<and> length user \<le> 255
     \<and> utf8_valid (map unat user) \<and> 0 \<notin> set user"
| "request_valid (StatusRequest uid) \<longleftrightarrow> True"
| "request_valid (Freshness uid digest) \<longleftrightarrow> length digest = 32"

lemma decode_request_bytes:
  assumes "request_valid r"
  shows "decode_daemon_request (request_bytes r) = Inr r"
proof (cases r)
  case (PamAuth uid t ms user)
  obtain v0 v1 where v: "u16_be DAEMON_PROTOCOL_VERSION = [v0, v1]" "u16_from_be [v0, v1] = DAEMON_PROTOCOL_VERSION"
    by (rule u16_be_digits)
  obtain a b c d where u: "u32_be uid = [a, b, c, d]" "u32_from_be [a, b, c, d] = uid" by (rule u32_be_digits)
  obtain e f g h where m: "u32_be ms = [e, f, g, h]" "u32_from_be [e, f, g, h] = ms" by (rule u32_be_digits)
  obtain i j where n: "u16_be (word_of_nat (length user)) = [i, j]"
    "u16_from_be [i, j] = word_of_nat (length user)" by (rule u16_be_digits)
  have "unat (word_of_nat (length user) :: u16) = length user"
    using assms PamAuth by (simp add: unat_of_nat)
  then show ?thesis
    using assms v u m n
    by (simp add: PamAuth decode_daemon_request_def decode_pam_auth_def Let_def wire_defs
        eval_nat_numeral)
next
  case (StatusRequest uid)
  obtain v0 v1 where v: "u16_be DAEMON_PROTOCOL_VERSION = [v0, v1]" "u16_from_be [v0, v1] = DAEMON_PROTOCOL_VERSION"
    by (rule u16_be_digits)
  obtain a b c d where u: "u32_be uid = [a, b, c, d]" "u32_from_be [a, b, c, d] = uid" by (rule u32_be_digits)
  show ?thesis using v u
    by (simp add: StatusRequest decode_daemon_request_def Let_def wire_defs eval_nat_numeral)
next
  case (Freshness uid digest)
  obtain v0 v1 where v: "u16_be FRESHNESS_PROTOCOL_VERSION = [v0, v1]" "u16_from_be [v0, v1] = FRESHNESS_PROTOCOL_VERSION"
    by (rule u16_be_digits)
  obtain a b c d where u: "u32_be uid = [a, b, c, d]" "u32_from_be [a, b, c, d] = uid" by (rule u32_be_digits)
  show ?thesis using assms v u
    by (simp add: Freshness decode_daemon_request_def Let_def wire_defs)
qed

lemma eight_bytes:
  "8 \<le> length xs \<Longrightarrow> \<exists>a b c d e f g h r. xs = a # b # c # d # e # f # g # h # r"
  by (auto simp: eval_nat_numeral Suc_le_length_iff)

lemma six_bytes: "6 \<le> length xs \<Longrightarrow> \<exists>a b c d e f r. xs = a # b # c # d # e # f # r"
  by (auto simp: eval_nat_numeral Suc_le_length_iff)

lemma u16_be_eqI: "u16_from_be [a, b] = w \<Longrightarrow> u16_be w = [a, b]"
  using be_to_from(1) [of "[a, b]"] by simp

lemma u32_be_eqI: "u32_from_be [a, b, c, d] = w \<Longrightarrow> u32_be w = [a, b, c, d]"
  using be_to_from(2) [of "[a, b, c, d]"] by simp

lemma decode_pam_auth_exact:
  assumes "decode_pam_auth payload uid = Inr r" "payload = [v0, v1, OP_PAM_AUTH, t, a, b, c, d] @ rest"
    "u16_from_be [v0, v1] = DAEMON_PROTOCOL_VERSION" "u32_from_be [a, b, c, d] = uid"
  shows "request_valid r \<and> payload = request_bytes r"
proof -
  have "6 \<le> length rest" using assms(1,2) by (simp add: decode_pam_auth_def split: if_splits)
  then obtain e f g h i j user where rest: "rest = e # f # g # h # i # j # user"
    using six_bytes by blast
  from assms(1) have *: "is_auth_target t" "1 \<le> u32_from_be [e, f, g, h]"
    "u32_from_be [e, f, g, h] \<le> DEFAULT_PAM_TIMEOUT_MS" "1 \<le> unat (u16_from_be [i, j])"
    "unat (u16_from_be [i, j]) \<le> 255" "length user = unat (u16_from_be [i, j])"
    "utf8_valid (map unat user)" "0 \<notin> set user" "r = PamAuth uid t (u32_from_be [e, f, g, h]) user"
    by (auto simp: decode_pam_auth_def assms(2) rest Let_def eval_nat_numeral split: if_splits)
  have "u16_be (word_of_nat (length user)) = [i, j]" by (rule u16_be_eqI) (simp add: *(6))
  then show ?thesis
    using * u16_be_eqI [OF assms(3)] u32_be_eqI [OF assms(4)] u32_be_eqI [OF refl, of e f g h]
    by (simp add: assms(2) rest)
qed

lemma decode_daemon_request_exact:
  assumes "decode_daemon_request payload = Inr r"
  shows "request_valid r \<and> payload = request_bytes r"
proof -
  have "8 \<le> length payload" using assms by (auto simp: decode_daemon_request_def split: if_splits)
  then obtain v0 v1 op t a b c d rest where p: "payload = v0 # v1 # op # t # a # b # c # d # rest"
    using eight_bytes by blast
  have u: "u32_be (u32_from_be [a, b, c, d]) = [a, b, c, d]" by (rule u32_be_eqI) simp
  let ?version = "u16_from_be [v0, v1]"
  consider (fresh) "?version = FRESHNESS_PROTOCOL_VERSION" "length rest = 32" "op = OP_FRESHNESS" "t = 0"
      "r = Freshness (u32_from_be [a, b, c, d]) rest"
    | (pam) "?version = DAEMON_PROTOCOL_VERSION" "op = OP_PAM_AUTH"
      "decode_pam_auth payload (u32_from_be [a, b, c, d]) = Inr r"
    | (status) "?version = DAEMON_PROTOCOL_VERSION" "op = OP_STATUS" "rest = []" "t = 0"
      "r = StatusRequest (u32_from_be [a, b, c, d])"
    using assms by (auto simp: decode_daemon_request_def p Let_def eval_nat_numeral split: if_splits)
  then show ?thesis
  proof cases
    case fresh
    then show ?thesis using u16_be_eqI [OF fresh(1)] u by (simp add: p)
  next
    case pam
    then show ?thesis using decode_pam_auth_exact [OF pam(3) _ pam(1) refl] by (simp add: p)
  next
    case status
    then show ?thesis using u16_be_eqI [OF status(1)] u by (simp add: p)
  qed
qed

text \<open>
  Claim C14: the daemon decodes a frame to a request exactly when the frame is the layout of that request and the
  request is within its bounds: a known target, a timeout of 1 to 2000 ms, a user name of 1 to 255 bytes of UTF-8 without
  NUL, a 32-byte digest. No frame has two readings, none outside the format is accepted, and no index is out of range.
\<close>

theorem daemon_request_exact:
  "decode_daemon_request payload = Inr r \<longleftrightarrow> request_valid r \<and> payload = request_bytes r"
  using decode_daemon_request_exact decode_request_bytes by blast

section \<open>The worker's private request\<close>

text \<open>
  What \<^verbatim>\<open>supervise_auth_worker\<close> writes and \<^verbatim>\<open>serve_auth_worker\<close> reads: uid, timeout and target in nine bytes. \<open>None\<close> is
  the \<^verbatim>\<open>InvalidData\<close> error for a bad deadline or target.
\<close>

definition worker_request :: "u32 \<Rightarrow> u32 \<Rightarrow> u8 \<Rightarrow> bytes" where
  "worker_request uid timeout_ms auth_target = u32_be uid @ u32_be timeout_ms @ [auth_target]"

definition parse_worker_request :: "bytes \<Rightarrow> (u32 \<times> u32 \<times> u8) option" where
  "parse_worker_request input =
     (let uid = u32_from_be [input ! 0, input ! 1, input ! 2, input ! 3];
          timeout_ms = u32_from_be [input ! 4, input ! 5, input ! 6, input ! 7];
          auth_target = input ! 8
      in if \<not> (1 \<le> timeout_ms \<and> timeout_ms \<le> DEFAULT_PAM_TIMEOUT_MS) \<or> \<not> is_auth_target auth_target
         then None
         else Some (uid, timeout_ms, auth_target))"

lemma parse_worker_request_roundtrip:
  assumes "1 \<le> ms" "ms \<le> DEFAULT_PAM_TIMEOUT_MS" "is_auth_target t"
  shows "length (worker_request uid ms t) = AUTH_WORKER_REQUEST_BYTES
    \<and> parse_worker_request (worker_request uid ms t) = Some (uid, ms, t)"
proof -
  obtain a b c d where u: "u32_be uid = [a, b, c, d]" "u32_from_be [a, b, c, d] = uid" by (rule u32_be_digits)
  obtain e f g h where m: "u32_be ms = [e, f, g, h]" "u32_from_be [e, f, g, h] = ms" by (rule u32_be_digits)
  show ?thesis using assms u m
    by (simp add: worker_request_def parse_worker_request_def AUTH_WORKER_REQUEST_BYTES_def eval_nat_numeral)
qed

end
