(* ===== verification/Daemon_Supervisor.thy ===== *)
theory Daemon_Supervisor
  imports Daemon_Limits Daemon_Protocol
begin

text \<open>
  The daemon's supervision of one authentication worker (\<^verbatim>\<open>supervise_auth_worker\<close> and \<^verbatim>\<open>write_client_progress\<close> of
  \<^verbatim>\<open>engine/daemon/src/lib.rs\<close>): the slot for the one child process, the rate limit, the request, and the loop that forwards
  progress, collects the final status and ends at the worker's exit, the deadline or the client's disconnect.

  Whatever the daemon observes of its surroundings is a function of a counter: the \<open>n\<close>-th observation of a run is made at \<open>n\<close>,
  so clocks, files and sockets may change freely between two of them. Reads from the worker have a counter of their own, so
  that the reads up to a number are what the worker has written so far.
\<close>

section \<open>Time\<close>

definition PAM_RESPONSE_RESERVE :: nat where "PAM_RESPONSE_RESERVE = 100 * MILLISECOND"
definition MIN_REMAINING_TIMEOUT_MS :: nat where "MIN_REMAINING_TIMEOUT_MS = 1"

definition remaining_timeout_ms :: "instant \<Rightarrow> instant \<Rightarrow> nat option" where
  "remaining_timeout_ms deadline now =
     (if deadline \<le> now then None
      else Some (min (max ((deadline - now) div MILLISECOND) MIN_REMAINING_TIMEOUT_MS) (2 ^ 32 - 1)))"

definition expired :: "instant \<Rightarrow> instant \<Rightarrow> bool" where
  "expired deadline now \<longleftrightarrow> remaining_timeout_ms deadline now = None"

lemma expired_iff: "expired deadline now \<longleftrightarrow> deadline \<le> now"
  by (simp add: expired_def remaining_timeout_ms_def)

section \<open>The surroundings\<close>

datatype wait_result = WaitFailed | StillRunning | Exited bool

record session_env =
  se_now :: "nat \<Rightarrow> instant"
  se_lock :: "nat \<Rightarrow> bool"
  se_wait :: "nat \<Rightarrow> wait_result"
  se_spawn :: "nat \<Rightarrow> bool"
  se_stdin :: "nat \<Rightarrow> bytes \<Rightarrow> bool"
  se_nonblocking :: "nat \<Rightarrow> bool"
  se_worker_read :: "nat \<Rightarrow> io_kind + bytes"
  se_client_read :: "nat \<Rightarrow> io_kind + bytes"
  se_client_write :: "nat \<Rightarrow> bytes \<Rightarrow> io_kind + nat"

text \<open>The slot of the child: a killed child stays registered until it has been reaped.\<close>

datatype child_slot = NoChild | LiveChild | KilledChild

record daemon_state =
  ds_limiter :: rate_limiter
  ds_slot :: child_slot

definition client_disconnected :: "io_kind + bytes \<Rightarrow> bool" where
  "client_disconnected r \<longleftrightarrow> r \<noteq> Inl WouldBlock \<and> r \<noteq> Inl Interrupted"

section \<open>Progress frames\<close>

text \<open>
  \<open>None\<close> is exhausted fuel. A round looks at the clock, then writes; a write that would block sleeps and retries.
\<close>

fun progress_loop :: "nat \<Rightarrow> session_env \<Rightarrow> instant \<Rightarrow> nat \<Rightarrow> bytes \<Rightarrow> ((io_kind + unit) \<times> nat) option" where
  "progress_loop fuel env deadline i rest =
     (if rest = [] then Some (Inr (), i)
      else case fuel of
        0 \<Rightarrow> None
      | Suc f \<Rightarrow>
          if expired deadline (se_now env i) then Some (Inl TimedOut, Suc i)
          else case se_client_write env (Suc i) rest of
            Inr n \<Rightarrow> if n = 0 then Some (Inl WriteZero, i + 2) else progress_loop f env deadline (i + 2) (drop n rest)
          | Inl k \<Rightarrow>
              if k = WouldBlock \<or> k = Interrupted then progress_loop f env deadline (i + 2) rest
              else Some (Inl k, i + 2))"

declare progress_loop.simps [simp del]

definition write_client_progress ::
    "nat \<Rightarrow> session_env \<Rightarrow> instant \<Rightarrow> nat \<Rightarrow> bytes \<Rightarrow> ((io_kind + unit) \<times> nat) option" where
  "write_client_progress fuel env deadline i payload =
     (if length payload < 2 ^ 32
      then progress_loop fuel env deadline i (u32_be (word_of_nat (length payload)) @ payload)
      else Some (Inl InvalidInput, i))"

section \<open>The worker's output\<close>

definition worker_chunk :: "session_env \<Rightarrow> nat \<Rightarrow> bytes" where
  "worker_chunk env r = (case se_worker_read env r of Inr bs \<Rightarrow> take 32 bs | Inl _ \<Rightarrow> [])"

text \<open>Reading until there is nothing more for now, into a buffer of 32 bytes at a time.\<close>

fun drain :: "nat \<Rightarrow> session_env \<Rightarrow> nat \<Rightarrow> bytes \<Rightarrow> ((unit + bytes) \<times> nat) option" where
  "drain 0 env r buf = None"
| "drain (Suc f) env r buf =
     (case se_worker_read env r of
        Inr bs \<Rightarrow> if bs = [] then Some (Inr buf, Suc r) else drain f env (Suc r) (buf @ take 32 bs)
      | Inl k \<Rightarrow>
          if k = WouldBlock then Some (Inr buf, Suc r)
          else if k = Interrupted then drain f env (Suc r) buf
          else Some (Inl (), Suc r))"

text \<open>
  Every complete frame of four bytes is consumed: progress is forwarded to the client, one final status is kept, and
  anything else ends the attempt (the left result) with the given status.
\<close>

function take_frames ::
    "nat \<Rightarrow> session_env \<Rightarrow> instant \<Rightarrow> bool \<Rightarrow> nat \<Rightarrow> bytes \<Rightarrow> u8 option \<Rightarrow> ((u8 + bytes \<times> u8 option) \<times> nat) option" where
  "take_frames fuel env deadline client i buf final =
     (if length buf < 4 then Some (Inr (buf, final), i)
      else
        let frame = take 4 buf; rest = drop 4 buf; status = frame ! 2 in
        if take 2 frame \<noteq> u16_be DAEMON_PROTOCOL_VERSION \<or> frame ! 3 \<noteq> 0 then Some (Inl STATUS_INTERNAL_ERROR, i)
        else if status = STATUS_PROGRESS_LOOKING_FOR_FACE then
          (if final \<noteq> None then Some (Inl STATUS_INTERNAL_ERROR, i)
           else if client then
             (case write_client_progress fuel env deadline i frame of
                None \<Rightarrow> None
              | Some (Inl _, j) \<Rightarrow> Some (Inl STATUS_CANCELLED, j)
              | Some (Inr _, j) \<Rightarrow> take_frames fuel env deadline client j rest final)
           else take_frames fuel env deadline client i rest final)
        else if status \<le> STATUS_CANCELLED \<and> final = None then
          take_frames fuel env deadline client i rest (Some status)
        else Some (Inl STATUS_INTERNAL_ERROR, i))"
  by pat_completeness auto
termination
  by (relation "measure (\<lambda>(_, _, _, _, _, buf, _). length buf)") auto

declare take_frames.simps [simp del]

section \<open>Supervision\<close>

definition worker_exited ::
    "session_env \<Rightarrow> instant \<Rightarrow> bool \<Rightarrow> nat \<Rightarrow> bool \<Rightarrow> bytes \<Rightarrow> u8 option \<Rightarrow> u8 \<times> nat" where
  "worker_exited env deadline client i success rest final =
     (if client \<and> client_disconnected (se_client_read env i) then (STATUS_CANCELLED, i + 2)
      else if \<not> success \<or> rest \<noteq> [] then (STATUS_INTERNAL_ERROR, i + 2)
      else if expired deadline (se_now env (Suc i)) then (STATUS_TIMEOUT, i + 2)
      else (case final of None \<Rightarrow> STATUS_INTERNAL_ERROR | Some status \<Rightarrow> status, i + 2))"

text \<open>One round: disconnect, deadline, drain, frames, exit. The result is status, slot and counters.\<close>

fun supervise_loop ::
    "nat \<Rightarrow> session_env \<Rightarrow> instant \<Rightarrow> bool \<Rightarrow> nat \<Rightarrow> nat \<Rightarrow> bytes \<Rightarrow> u8 option \<Rightarrow> (u8 \<times> child_slot \<times> nat) option" where
  "supervise_loop 0 env deadline client i r buf final = None"
| "supervise_loop (Suc f) env deadline client i r buf final =
     (if client \<and> client_disconnected (se_client_read env i) then Some (STATUS_CANCELLED, KilledChild, Suc i)
      else if expired deadline (se_now env (Suc i)) then Some (STATUS_TIMEOUT, KilledChild, i + 2)
      else case drain f env r buf of
        None \<Rightarrow> None
      | Some (Inl _, _) \<Rightarrow> Some (STATUS_INTERNAL_ERROR, KilledChild, i + 2)
      | Some (Inr buf', r') \<Rightarrow>
          (case take_frames f env deadline client (i + 2) buf' final of
             None \<Rightarrow> None
           | Some (Inl status, j) \<Rightarrow> Some (status, KilledChild, j)
           | Some (Inr (rest, final'), j) \<Rightarrow>
               (case se_wait env j of
                  Exited success \<Rightarrow>
                    (case worker_exited env deadline client (Suc j) success rest final' of
                       (status, k) \<Rightarrow> Some (status, NoChild, k))
                | StillRunning \<Rightarrow> supervise_loop f env deadline client (Suc j) r' rest final'
                | WaitFailed \<Rightarrow> Some (STATUS_INTERNAL_ERROR, KilledChild, Suc j))))"

text \<open>
  \<open>None\<close> is exhausted fuel. When the slot is taken by another thread the attempt fails at once; an earlier child has to be
  reaped first.
\<close>

fun has_exited :: "wait_result \<Rightarrow> bool" where
  "has_exited (Exited _) = True"
| "has_exited _ = False"

definition slot_free :: "session_env \<Rightarrow> nat \<Rightarrow> child_slot \<Rightarrow> bool" where
  "slot_free env i slot \<longleftrightarrow> slot = NoChild \<or> has_exited (se_wait env i)"

definition supervise_auth_worker ::
    "nat \<Rightarrow> session_env \<Rightarrow> nat \<Rightarrow> daemon_state \<Rightarrow> u32 \<Rightarrow> u8 \<Rightarrow> u32 \<Rightarrow> instant \<Rightarrow> bool \<Rightarrow> (u8 \<times> daemon_state \<times> nat) option" where
  "supervise_auth_worker fuel env i ds uid auth_target timeout deadline client =
     (if \<not> se_lock env i then Some (STATUS_DEVICE_BUSY, ds, Suc i)
      else if \<not> slot_free env (Suc i) (ds_slot ds) then Some (STATUS_DEVICE_BUSY, ds, i + 2)
      else
        let ds1 = ds\<lparr>ds_slot := NoChild\<rparr> in
        if expired deadline (se_now env (i + 2)) then Some (STATUS_TIMEOUT, ds1, i + 3)
        else case allow_at (ds_limiter ds1) uid (se_now env (i + 3)) of
          (allowed, limiter) \<Rightarrow>
            let ds2 = ds1\<lparr>ds_limiter := limiter\<rparr> in
            if \<not> allowed then Some (STATUS_RATE_LIMITED, ds2, i + 4)
            else if \<not> se_spawn env (i + 4) then Some (STATUS_INTERNAL_ERROR, ds2, i + 5)
            else if \<not> se_stdin env (i + 5) (worker_request uid timeout auth_target) \<or> \<not> se_nonblocking env (i + 6)
            then Some (STATUS_INTERNAL_ERROR, ds2\<lparr>ds_slot := KilledChild\<rparr>, i + 7)
            else case supervise_loop fuel env deadline client (i + 7) 0 [] None of
              None \<Rightarrow> None
            | Some (status, slot, j) \<Rightarrow> Some (status, ds2\<lparr>ds_slot := slot\<rparr>, j))"

section \<open>What a success certifies\<close>

lemma drain_Inr:
  "drain f env r buf = Some (Inr buf', r') \<Longrightarrow> r < r' \<and> buf' = buf @ concat (map (worker_chunk env) [r..<r'])"
proof (induction f env r buf rule: drain.induct)
  case (2 f env r buf)
  show ?case
  proof (cases "se_worker_read env r")
    case (Inl k)
    with 2 show ?thesis by (auto simp: worker_chunk_def upt_conv_Cons split: if_splits)
  next
    case (Inr bs)
    with 2 show ?thesis by (auto simp: worker_chunk_def upt_conv_Cons split: if_splits)
  qed
qed simp

text \<open>What a final status and the unread rest stand for in the output.\<close>

definition pending :: "u8 option \<Rightarrow> bytes \<Rightarrow> bytes" where
  "pending final buf = (case final of None \<Rightarrow> [] | Some status \<Rightarrow> encode_daemon_response status []) @ buf"

abbreviation progress_frame :: bytes where
  "progress_frame \<equiv> encode_daemon_response STATUS_PROGRESS_LOOKING_FOR_FACE []"

lemma frame_split:
  assumes "\<not> length buf < 4" "take 2 (take 4 buf) = u16_be DAEMON_PROTOCOL_VERSION" "take 4 buf ! 3 = 0"
  shows "buf = encode_daemon_response (take 4 buf ! 2) [] @ drop 4 buf"
proof -
  obtain a b c d rest where "buf = a # b # c # d # rest"
    using assms(1) by (cases buf rule: list.exhaust; cases "tl buf" rule: list.exhaust;
      cases "tl (tl buf)" rule: list.exhaust; cases "tl (tl (tl buf))" rule: list.exhaust) auto
  with assms(2,3) show ?thesis by (simp add: encode_daemon_response_def eval_nat_numeral)
qed

lemma progress_loop_index: "progress_loop f env deadline i rest = Some (r, j) \<Longrightarrow> i \<le> j"
proof (induction f arbitrary: i rest)
  case 0
  then show ?case by (simp add: progress_loop.simps split: if_splits)
next
  case (Suc f)
  from Suc.prems show ?case
    by (subst (asm) progress_loop.simps) (fastforce split: if_splits sum.splits dest: Suc.IH)
qed

lemma write_client_progress_index: "write_client_progress f env deadline i payload = Some (r, j) \<Longrightarrow> i \<le> j"
  by (auto simp: write_client_progress_def split: if_splits dest: progress_loop_index)

lemma take_frames_Inr:
  "take_frames fuel env deadline client i buf final = Some (Inr (rest, final'), j)
    \<Longrightarrow> i \<le> j \<and> (\<exists>n. (final \<noteq> None \<longrightarrow> n = 0) \<and> pending final buf = concat (replicate n progress_frame) @ pending final' rest)"
proof (induction "length buf" arbitrary: i buf final rule: less_induct)
  case less
  let ?frame = "take 4 buf" and ?rest = "drop 4 buf"
  show ?case
  proof (cases "length buf < 4")
    case True
    then show ?thesis using less.prems by (subst (asm) take_frames.simps) (auto intro!: exI [of _ 0])
  next
    case False
    then have ok: "take 2 ?frame = u16_be DAEMON_PROTOCOL_VERSION" "?frame ! 3 = 0"
      using less.prems by (subst (asm) take_frames.simps, auto simp: Let_def split: if_splits)+
    note split = frame_split [OF False ok]
    have sh: "length ?rest < length buf" using False by simp
    consider (progress) k where "?frame ! 2 = STATUS_PROGRESS_LOOKING_FOR_FACE" "final = None" "i \<le> k"
        "take_frames fuel env deadline client k ?rest None = Some (Inr (rest, final'), j)"
      | (final) "final = None" "take_frames fuel env deadline client i ?rest (Some (?frame ! 2)) = Some (Inr (rest, final'), j)"
      using less.prems False ok
      by (subst (asm) take_frames.simps)
        (auto simp: Let_def split: if_splits option.splits sum.splits prod.splits dest: write_client_progress_index)
    then show ?thesis
    proof cases
      case progress
      obtain n where n: "k \<le> j" "pending None ?rest = concat (replicate n progress_frame) @ pending final' rest"
        using less.hyps [OF sh progress(4)] by blast
      have "pending final buf = concat (replicate (Suc n) progress_frame) @ pending final' rest"
        using split n(2) progress(1,2) by (simp add: pending_def)
      then show ?thesis using n(1) progress(2,3) by (intro conjI exI [of _ "Suc n"]) simp_all
    next
      case final
      obtain n where n: "i \<le> j" "n = 0" "pending (Some (?frame ! 2)) ?rest = concat (replicate n progress_frame) @ pending final' rest"
        using less.hyps [OF sh final(2)] by auto
      have "pending final buf = pending final' rest" using split n(2,3) final(1) by (simp add: pending_def)
      then show ?thesis using n(1) by (intro conjI exI [of _ 0]) simp_all
    qed
  qed
qed

lemma worker_exited_status:
  assumes "worker_exited env deadline client i success rest final = (status, j)"
    "status \<noteq> STATUS_CANCELLED" "status \<noteq> STATUS_INTERNAL_ERROR" "status \<noteq> STATUS_TIMEOUT"
  shows "success" "rest = []" "final = Some status" "se_now env (Suc i) < deadline"
  using assms by (auto simp: worker_exited_def expired_iff split: if_splits option.splits)

text \<open>Statuses other than the supervisor's own come from the worker.\<close>

definition own_status :: "u8 set" where
  "own_status = {STATUS_CANCELLED, STATUS_INTERNAL_ERROR, STATUS_TIMEOUT}"

lemma take_frames_Inl:
  "take_frames fuel env deadline client i buf final = Some (Inl status, j) \<Longrightarrow> status \<in> own_status"
proof (induction "length buf" arbitrary: i buf final rule: less_induct)
  case less
  have IH: "status \<in> own_status"
    if "\<not> length buf < 4" "take_frames fuel env deadline client k (drop 4 buf) fin = Some (Inl status, j)" for k fin
    using that by (intro less.hyps [OF _ that(2)]) simp
  have own: "STATUS_INTERNAL_ERROR \<in> own_status" "STATUS_CANCELLED \<in> own_status" by (simp_all add: own_status_def)
  from less.prems show ?case
    by (subst (asm) take_frames.simps)
      (auto simp: Let_def own split: if_splits option.splits sum.splits prod.splits intro: IH)
qed

text \<open>
  The worker ran to a successful exit before the deadline, and all it ever wrote is a number of progress frames followed by
  exactly one frame with the given status.
\<close>

definition worker_reported :: "session_env \<Rightarrow> instant \<Rightarrow> nat \<Rightarrow> nat \<Rightarrow> u8 \<Rightarrow> bool" where
  "worker_reported env deadline i j status \<longleftrightarrow>
     (\<exists>m n k. i < k \<and> k < j \<and> se_wait env k = Exited True \<and> se_now env (k + 2) < deadline
        \<and> concat (map (worker_chunk env) [0..<m]) = concat (replicate n progress_frame) @ encode_daemon_response status [])"

lemma worker_reported_earlier:
  assumes "worker_reported env deadline i j status" "i' \<le> i"
  shows "worker_reported env deadline i' j status"
  using assms unfolding worker_reported_def by (meson le_less_trans)

lemma supervise_loop_status:
  assumes "supervise_loop f env deadline client i r buf final = Some (status, slot, j)" "status \<notin> own_status"
    "concat (map (worker_chunk env) [0..<r]) = concat (replicate n0 progress_frame) @ pending final buf"
  shows "slot = NoChild \<and> worker_reported env deadline i j status"
  using assms
proof (induction f arbitrary: i r buf final n0)
  case (Suc f)
  have ns: "status \<noteq> STATUS_CANCELLED" "status \<noteq> STATUS_INTERNAL_ERROR" "status \<noteq> STATUS_TIMEOUT"
    using Suc.prems(2) by (auto simp: own_status_def)
  obtain buf' r' where d: "drain f env r buf = Some (Inr buf', r')"
    using Suc.prems(1) ns by (auto split: if_splits option.splits sum.splits prod.splits)
  then obtain res k where tf: "take_frames f env deadline client (i + 2) buf' final = Some (res, k)"
    using Suc.prems(1) ns by (auto split: if_splits option.splits sum.splits prod.splits)
  obtain rest final' where res: "res = Inr (rest, final')"
    using Suc.prems(1) ns d tf take_frames_Inl own_status_def Suc.prems(2)
    by (auto split: if_splits sum.splits prod.splits)
  note tk = take_frames_Inr [OF tf [unfolded res]]
  from tk obtain n where n: "pending final buf' = concat (replicate n progress_frame) @ pending final' rest" by blast
  have "concat (map (worker_chunk env) [0..<r']) = concat (map (worker_chunk env) [0..<r]) @ concat (map (worker_chunk env) [r..<r'])"
    using drain_Inr [OF d] upt_add_eq_append [of 0 r "r' - r"] by simp
  also have "\<dots> = concat (replicate n0 progress_frame) @ pending final buf'"
    using Suc.prems(3) drain_Inr [OF d] by (simp add: pending_def)
  also have "\<dots> = concat (replicate (n0 + n) progress_frame) @ pending final' rest"
    using n by (simp add: replicate_add)
  finally have out: "concat (map (worker_chunk env) [0..<r']) = concat (replicate (n0 + n) progress_frame) @ pending final' rest" .
  show ?case
  proof (cases "se_wait env k")
    case WaitFailed
    then show ?thesis using Suc.prems(1) ns d tf res by (auto split: if_splits)
  next
    case StillRunning
    then have "supervise_loop f env deadline client (Suc k) r' rest final' = Some (status, slot, j)"
      using Suc.prems(1) ns d tf res by (auto split: if_splits)
    from Suc.IH [OF this Suc.prems(2) out] tk show ?thesis
      by (auto elim!: worker_reported_earlier)
  next
    case (Exited success)
    then have w: "worker_exited env deadline client (Suc k) success rest final' = (status, j)" "slot = NoChild"
      using Suc.prems(1) ns d tf res by (auto split: if_splits prod.splits)
    note we = worker_exited_status [OF w(1) ns]
    have "j = k + 3" using w(1) by (auto simp: worker_exited_def split: if_splits)
    with we Exited out tk w(2) show ?thesis
      unfolding worker_reported_def
      by (intro conjI exI [of _ r'] exI [of _ "n0 + n"] exI [of _ k]) (auto simp: pending_def)
  qed
qed simp

text \<open>A final status is never the progress status.\<close>

lemma take_frames_final:
  "take_frames fuel env deadline client i buf final = Some (Inr (rest, final'), j)
    \<Longrightarrow> final \<noteq> Some STATUS_PROGRESS_LOOKING_FOR_FACE \<Longrightarrow> final' \<noteq> Some STATUS_PROGRESS_LOOKING_FOR_FACE"
proof (induction "length buf" arbitrary: i buf final rule: less_induct)
  case less
  have IH: "final' \<noteq> Some STATUS_PROGRESS_LOOKING_FOR_FACE"
    if "\<not> length buf < 4" "take_frames fuel env deadline client k (drop 4 buf) fin = Some (Inr (rest, final'), j)"
      "fin \<noteq> Some STATUS_PROGRESS_LOOKING_FOR_FACE" for k fin
    using that by (intro less.hyps [OF _ that(2)]) simp_all
  from less.prems show ?case
    by (subst (asm) take_frames.simps)
      (auto simp: Let_def split: if_splits option.splits sum.splits prod.splits dest!: IH)
qed

lemma supervise_loop_final:
  "supervise_loop f env deadline client i r buf final = Some (status, slot, j) \<Longrightarrow> status \<notin> own_status
    \<Longrightarrow> final \<noteq> Some STATUS_PROGRESS_LOOKING_FOR_FACE \<Longrightarrow> status \<noteq> STATUS_PROGRESS_LOOKING_FOR_FACE"
proof (induction f arbitrary: i r buf final)
  case (Suc f)
  have ns: "status \<noteq> STATUS_CANCELLED" "status \<noteq> STATUS_INTERNAL_ERROR" "status \<noteq> STATUS_TIMEOUT"
    using Suc.prems(2) by (auto simp: own_status_def)
  obtain buf' r' rest final' k where tf: "take_frames f env deadline client (i + 2) buf' final = Some (Inr (rest, final'), k)"
    "(case se_wait env k of
        Exited success \<Rightarrow> (case worker_exited env deadline client (Suc k) success rest final' of (status, n) \<Rightarrow> Some (status, NoChild, n))
      | StillRunning \<Rightarrow> supervise_loop f env deadline client (Suc k) r' rest final'
      | WaitFailed \<Rightarrow> Some (STATUS_INTERNAL_ERROR, KilledChild, Suc k)) = Some (status, slot, j)"
    using Suc.prems(1,2) ns by (auto split: if_splits option.splits sum.splits prod.splits dest: take_frames_Inl)
  note nf = take_frames_final [OF tf(1) Suc.prems(3)]
  show ?case
  proof (cases "se_wait env k")
    case WaitFailed
    then show ?thesis using tf(2) ns by simp
  next
    case StillRunning
    then show ?thesis using tf(2) Suc.IH [OF _ Suc.prems(2) nf] by simp
  next
    case (Exited success)
    then show ?thesis using tf(2) ns nf worker_exited_status(3) by (auto split: prod.splits)
  qed
qed simp

text \<open>The statuses with which the supervision may end on its own account.\<close>

definition supervisor_status :: "u8 set" where
  "supervisor_status = own_status \<union> {STATUS_DEVICE_BUSY, STATUS_RATE_LIMITED}"

lemma supervise_reported:
  assumes "supervise_auth_worker fuel env i ds uid target timeout deadline client = Some (status, ds', j)"
    "status \<notin> supervisor_status"
  shows "se_stdin env (i + 5) (worker_request uid timeout target)" "worker_reported env deadline i j status"
    "status \<noteq> STATUS_PROGRESS_LOOKING_FOR_FACE"
proof -
  have so: "status \<notin> own_status" "status \<noteq> STATUS_DEVICE_BUSY" "status \<noteq> STATUS_RATE_LIMITED"
    using assms(2) by (simp_all add: supervisor_status_def)
  obtain slot where l: "se_stdin env (i + 5) (worker_request uid timeout target)"
    "supervise_loop fuel env deadline client (i + 7) 0 [] None = Some (status, slot, j)"
    using assms(1) so unfolding supervise_auth_worker_def Let_def own_status_def
    by (auto split: if_splits option.splits prod.splits)
  have "concat (map (worker_chunk env) [0..<0]) = concat (replicate 0 progress_frame) @ pending None []"
    by (simp add: pending_def)
  from supervise_loop_status [OF l(2) so(1) this] supervise_loop_final [OF l(2) so(1)] l(1)
  show "se_stdin env (i + 5) (worker_request uid timeout target)" "worker_reported env deadline i j status"
    "status \<noteq> STATUS_PROGRESS_LOOKING_FOR_FACE" by (auto elim!: worker_reported_earlier)
qed

lemma supervise_success:
  assumes "supervise_auth_worker fuel env i ds uid target timeout deadline client = Some (STATUS_SUCCESS, ds', j)"
  shows "se_lock env i \<and> fst (allow_at (ds_limiter ds) uid (se_now env (i + 3)))
    \<and> ds_limiter ds' = snd (allow_at (ds_limiter ds) uid (se_now env (i + 3))) \<and> ds_slot ds' = NoChild
    \<and> se_stdin env (i + 5) (worker_request uid timeout target)
    \<and> worker_reported env deadline i j STATUS_SUCCESS"
proof -
  have so: "STATUS_SUCCESS \<notin> own_status" "STATUS_SUCCESS \<noteq> STATUS_DEVICE_BUSY" "STATUS_SUCCESS \<noteq> STATUS_RATE_LIMITED"
    by (simp_all add: own_status_def wire_defs)
  obtain slot where l: "se_lock env i" "fst (allow_at (ds_limiter ds) uid (se_now env (i + 3)))"
    "se_stdin env (i + 5) (worker_request uid timeout target)"
    "supervise_loop fuel env deadline client (i + 7) 0 [] None = Some (STATUS_SUCCESS, slot, j)"
    "ds' = ds\<lparr>ds_slot := slot, ds_limiter := snd (allow_at (ds_limiter ds) uid (se_now env (i + 3)))\<rparr>"
    using assms so unfolding supervise_auth_worker_def Let_def own_status_def
    by (auto split: if_splits option.splits prod.splits)
  have "concat (map (worker_chunk env) [0..<0]) = concat (replicate 0 progress_frame) @ pending None []"
    by (simp add: pending_def)
  from supervise_loop_status [OF l(4) so(1) this] l show ?thesis
    by (auto elim!: worker_reported_earlier)
qed

section \<open>Supervision ends\<close>

text \<open>More fuel never changes a result.\<close>

lemma progress_loop_fuel: "progress_loop f env deadline i rest = Some x \<Longrightarrow> f \<le> g \<Longrightarrow> progress_loop g env deadline i rest = Some x"
proof (induction f arbitrary: i rest g)
  case 0
  then show ?case by (simp add: progress_loop.simps split: if_splits)
next
  case (Suc f)
  then obtain h where g: "g = Suc h" "f \<le> h" by (cases g) auto
  have IH: "progress_loop f env deadline k xs = Some x \<Longrightarrow> progress_loop h env deadline k xs = Some x" for k xs
    using Suc.IH g(2) by blast
  from Suc.prems(1) show ?case
    unfolding g(1) by (subst (asm) progress_loop.simps, subst progress_loop.simps) (auto split: if_splits sum.splits intro: IH)
qed

lemma if_Some_mono:
  "(\<And>y. a = Some y \<Longrightarrow> a' = Some y) \<Longrightarrow> (if c then a else b) = Some x \<Longrightarrow> (if c then a' else b) = Some x"
  by (cases c) simp_all

lemma write_client_progress_fuel:
  "write_client_progress f env deadline i p = Some x \<Longrightarrow> f \<le> g \<Longrightarrow> write_client_progress g env deadline i p = Some x"
  unfolding write_client_progress_def by (rule if_Some_mono) (rule progress_loop_fuel)

lemma drain_fuel: "drain f env r buf = Some x \<Longrightarrow> f \<le> g \<Longrightarrow> drain g env r buf = Some x"
proof (induction f arbitrary: r buf g)
  case (Suc f)
  then obtain h where g: "g = Suc h" "f \<le> h" by (cases g) auto
  have IH: "drain f env k xs = Some x \<Longrightarrow> drain h env k xs = Some x" for k xs
    using Suc.IH g(2) by blast
  from Suc.prems(1) show ?case unfolding g(1) by (auto split: if_splits sum.splits intro: IH)
qed simp

lemma take_frames_fuel:
  assumes "f \<le> g"
  shows "take_frames f env deadline client i buf final = Some x \<Longrightarrow> take_frames g env deadline client i buf final = Some x"
proof (induction "length buf" arbitrary: client i buf final rule: less_induct)
  case less
  have IH: "take_frames f env deadline c k (drop 4 buf) fin = Some x \<Longrightarrow> \<not> length buf < 4
      \<Longrightarrow> take_frames g env deadline c k (drop 4 buf) fin = Some x" for c k fin
    using less.hyps [of "drop 4 buf" c k fin] by simp
  from less.prems show ?case
    by (subst (asm) take_frames.simps, subst take_frames.simps)
      (auto simp: Let_def write_client_progress_fuel [OF _ assms]
        split: if_splits option.splits sum.splits prod.splits intro: IH)
qed

lemma supervise_loop_fuel:
  "supervise_loop f env deadline client i r buf final = Some x \<Longrightarrow> f \<le> g
    \<Longrightarrow> supervise_loop g env deadline client i r buf final = Some x"
proof (induction f arbitrary: i r buf final g)
  case (Suc f)
  then obtain h where g: "g = Suc h" "f \<le> h" by (cases g) auto
  have IH: "supervise_loop f env deadline client k m b fin = Some x \<Longrightarrow> supervise_loop h env deadline client k m b fin = Some x"
    for k m b fin using Suc.IH g(2) by blast
  show ?case
  proof (cases "drain f env r buf")
    case None
    with Suc.prems(1) show ?thesis unfolding g(1) by (auto split: if_splits)
  next
    case (Some d)
    note D = drain_fuel [OF this g(2)]
    show ?thesis
    proof (cases d)
      case (Pair res r')
      show ?thesis
      proof (cases res)
        case (Inl u)
        with Suc.prems(1) Some Pair D show ?thesis unfolding g(1) by (auto split: if_splits)
      next
        case (Inr buf')
        show ?thesis
        proof (cases "take_frames f env deadline client (i + 2) buf' final")
          case None
          with Suc.prems(1) Some Pair D Inr show ?thesis unfolding g(1) by (auto split: if_splits)
        next
          case t: (Some t)
          from take_frames_fuel [OF g(2) t] t Suc.prems(1) Some Pair D Inr show ?thesis
            unfolding g(1) by (auto split: if_splits sum.splits prod.splits wait_result.splits intro: IH)
        qed
      qed
    qed
  qed
qed simp

text \<open>The clock passes the deadline for good, and the worker pauses again and again.\<close>

definition clock_passes :: "session_env \<Rightarrow> instant \<Rightarrow> nat \<Rightarrow> bool" where
  "clock_passes env deadline n \<longleftrightarrow> (\<forall>i \<ge> n. deadline \<le> se_now env i)"

fun pauses :: "io_kind + bytes \<Rightarrow> bool" where
  "pauses (Inr bs) = (bs = [])"
| "pauses (Inl k) = (k \<noteq> Interrupted)"

definition worker_pauses :: "session_env \<Rightarrow> bool" where
  "worker_pauses env \<longleftrightarrow> (\<forall>r. \<exists>s \<ge> r. pauses (se_worker_read env s))"

lemma drain_total:
  assumes "worker_pauses env"
  shows "\<exists>f x. drain f env r buf = Some x"
proof -
  obtain s where "r \<le> s" "pauses (se_worker_read env s)" using assms by (auto simp: worker_pauses_def)
  then show ?thesis
  proof (induction "s - r" arbitrary: r buf)
    case 0
    then have "pauses (se_worker_read env r)" by simp
    then have "\<exists>x. drain (Suc 0) env r buf = Some x" by (cases "se_worker_read env r") auto
    then show ?case by blast
  next
    case (Suc n)
    show ?case
    proof (cases "pauses (se_worker_read env r)")
      case True
      then have "\<exists>x. drain (Suc 0) env r buf = Some x" by (cases "se_worker_read env r") auto
      then show ?thesis by blast
    next
      case False
      have "n = s - Suc r" "Suc r \<le> s" using Suc.hyps(2) by simp_all
      from Suc.hyps(1) [OF this Suc.prems(2)] have "\<exists>f x. drain f env (Suc r) b = Some x" for b by blast
      then obtain f x where "drain f env (Suc r) (buf @ worker_chunk env r) = Some x" by blast
      with False have "drain (Suc f) env r buf = Some x"
        by (cases "se_worker_read env r") (auto simp: worker_chunk_def)
      then show ?thesis by blast
    qed
  qed
qed

lemma progress_loop_total:
  assumes "clock_passes env deadline n"
  shows "\<exists>f x. progress_loop f env deadline i rest = Some x"
proof (induction "n - i" arbitrary: i rest rule: less_induct)
  case less
  show ?case
  proof (cases "n \<le> i")
    case True
    then have "expired deadline (se_now env i)" using assms by (simp add: clock_passes_def expired_iff)
    then have "\<exists>x. progress_loop (Suc 0) env deadline i rest = Some x" by (subst progress_loop.simps) simp
    then show ?thesis by blast
  next
    case False
    have IH: "\<exists>f x. progress_loop f env deadline (i + 2) xs = Some x" for xs using less False by simp
    obtain f x where f: "progress_loop f env deadline (i + 2)
        (case se_client_write env (Suc i) rest of Inr k \<Rightarrow> drop k rest | Inl _ \<Rightarrow> rest) = Some x" using IH by blast
    then have "\<exists>x. progress_loop (Suc f) env deadline i rest = Some x"
      by (subst progress_loop.simps) (auto split: sum.splits)
    then show ?thesis by blast
  qed
qed

lemma take_frames_total:
  assumes "clock_passes env deadline n"
  shows "\<exists>f x. take_frames f env deadline client i buf final = Some x"
proof (induction "length buf" arbitrary: i buf final rule: less_induct)
  case less
  obtain fp p where p: "write_client_progress fp env deadline i (take 4 buf) = Some p"
    using progress_loop_total [OF assms] by (metis write_client_progress_def)
  have IH: "\<exists>f x. take_frames f env deadline client k (drop 4 buf) fin = Some x" if "\<not> length buf < 4" for k fin
    using less that by simp
  show ?case
  proof (cases "length buf < 4")
    case True
    then show ?thesis by (subst take_frames.simps) simp
  next
    case False
    obtain f1 x1 where 1: "take_frames f1 env deadline client (snd p) (drop 4 buf) None = Some x1" using IH [OF False] by blast
    obtain f2 x2 where 2: "take_frames f2 env deadline client i (drop 4 buf) None = Some x2" using IH [OF False] by blast
    obtain f3 x3 where 3: "take_frames f3 env deadline client i (drop 4 buf) (Some (take 4 buf ! 2)) = Some x3"
      using IH [OF False] by blast
    let ?f = "max fp (max f1 (max f2 f3))"
    have "write_client_progress ?f env deadline i (take 4 buf) = Some p"
      "take_frames ?f env deadline client (snd p) (drop 4 buf) None = Some x1"
      "take_frames ?f env deadline client i (drop 4 buf) None = Some x2"
      "take_frames ?f env deadline client i (drop 4 buf) (Some (take 4 buf ! 2)) = Some x3"
      using write_client_progress_fuel [OF p, of ?f] take_frames_fuel [OF _ 1, of ?f] take_frames_fuel [OF _ 2, of ?f]
        take_frames_fuel [OF _ 3, of ?f] by simp_all
    then have "\<exists>x. take_frames ?f env deadline client i buf final = Some x"
      by (subst take_frames.simps) (auto simp: Let_def split: sum.splits prod.splits)
    then show ?thesis by blast
  qed
qed

lemma supervise_loop_total:
  assumes "clock_passes env deadline n" "worker_pauses env"
  shows "\<exists>f x. supervise_loop f env deadline client i r buf final = Some x"
proof (induction "n - i" arbitrary: i r buf final rule: less_induct)
  case less
  show ?case
  proof (cases "n \<le> i")
    case True
    then have "expired deadline (se_now env (Suc i))" using assms(1) by (simp add: clock_passes_def expired_iff)
    then have "\<exists>x. supervise_loop (Suc 0) env deadline client i r buf final = Some x" by simp
    then show ?thesis by blast
  next
    case False
    obtain fd res r' where d: "drain fd env r buf = Some (res, r')" using drain_total [OF assms(2)] by fastforce
    define buf' where "buf' = (case res of Inr b \<Rightarrow> b | Inl _ \<Rightarrow> [])"
    obtain ft t j where t: "take_frames ft env deadline client (i + 2) buf' final = Some (t, j)"
      using take_frames_total [OF assms(1)] by fastforce
    define rest where "rest = (case t of Inr b \<Rightarrow> fst b | Inl _ \<Rightarrow> [])"
    define fin where "fin = (case t of Inr b \<Rightarrow> snd b | Inl _ \<Rightarrow> None)"
    define k where "k = max (Suc j) (Suc i)"
    obtain fl x where l: "supervise_loop fl env deadline client k r' rest fin = Some x"
      using less.hyps [of k r' rest fin] False unfolding k_def by fastforce
    let ?f = "max fd (max ft fl)"
    have "drain ?f env r buf = Some (res, r')" "take_frames ?f env deadline client (i + 2) buf' final = Some (t, j)"
      "supervise_loop ?f env deadline client k r' rest fin = Some x"
      using drain_fuel [OF d, of ?f] take_frames_fuel [OF _ t, of ?f] supervise_loop_fuel [OF l, of ?f] by simp_all
    moreover have "k = Suc j" if "t = Inr (a, b)" for a b
      using take_frames_Inr [of ft env deadline client "i + 2" buf' final a b j] t that by (simp add: k_def)
    ultimately have "\<exists>x. supervise_loop (Suc ?f) env deadline client i r buf final = Some x"
      by (cases x) (auto simp: buf'_def rest_def fin_def split: sum.splits prod.splits wait_result.splits)
    then show ?thesis by blast
  qed
qed

text \<open>
  Claim C27: the supervision of a worker returns: if the clock passes the deadline and the worker does not write without
  pause, some fuel is enough, and every larger amount gives the same result.
\<close>

theorem supervise_returns:
  assumes "clock_passes env deadline n" "worker_pauses env"
  shows "\<exists>fuel x. \<forall>more \<ge> fuel. supervise_auth_worker more env i ds uid target timeout deadline client = Some x"
proof -
  obtain f status slot j where f: "supervise_loop f env deadline client (i + 7) 0 [] None = Some (status, slot, j)"
    using supervise_loop_total [OF assms] by (metis prod.exhaust)
  have "\<exists>x. supervise_auth_worker f env i ds uid target timeout deadline client = Some x"
    using f by (simp add: supervise_auth_worker_def Let_def split: prod.splits if_split)
  then obtain x where x: "supervise_auth_worker f env i ds uid target timeout deadline client = Some x" ..
  have "supervise_auth_worker more env i ds uid target timeout deadline client = Some x" if "f \<le> more" for more
    using x unfolding supervise_auth_worker_def f supervise_loop_fuel [OF f that] .
  then show ?thesis by blast
qed

text \<open>
  The drain of the worker's output does not look at the deadline: as long as a worker keeps writing, the
  supervision does not return, however far the clock has passed the deadline.
\<close>

theorem drain_ignores_deadline:
  assumes "\<And>r. \<exists>bs. se_worker_read env r = Inr bs \<and> bs \<noteq> []" "se_now env (Suc i) < deadline"
    "\<not> (client \<and> client_disconnected (se_client_read env i))"
  shows "supervise_loop fuel env deadline client i r buf final = None"
proof -
  have d: "drain f env r buf = None" for f r buf
  proof (induction f arbitrary: r buf)
    case (Suc f)
    then show ?case using assms(1) [of r] by auto
  qed simp
  show ?thesis using assms(2,3) d by (cases fuel) (auto simp: expired_iff)
qed

definition exit_env :: session_env where
  "exit_env = \<lparr>se_now = (\<lambda>i. i), se_lock = (\<lambda>_. True), se_wait = (\<lambda>_. Exited True), se_spawn = (\<lambda>_. True),
     se_stdin = (\<lambda>_ _. True), se_nonblocking = (\<lambda>_. True),
     se_worker_read = (\<lambda>r. if r = 0 then Inr (encode_daemon_response STATUS_SUCCESS []) else Inl WouldBlock),
     se_client_read = (\<lambda>_. Inl WouldBlock), se_client_write = (\<lambda>_ bs. Inr (length bs))\<rparr>"

theorem supervise_returns_witness:
  "\<exists>fuel x. \<forall>more \<ge> fuel. supervise_auth_worker more exit_env 0 \<lparr>ds_limiter = rate_limiter_default, ds_slot = NoChild\<rparr>
     1000 1 5000 100 True = Some x"
proof (rule supervise_returns [of _ _ 100])
  show "clock_passes exit_env 100 100" by (simp add: clock_passes_def exit_env_def)
  have "pauses (se_worker_read exit_env (Suc r))" for r by (simp add: exit_env_def)
  then show "worker_pauses exit_env" unfolding worker_pauses_def by (meson le_SucI order_refl)
qed

theorem drain_ignores_deadline_witness:
  "supervise_loop 5 (exit_env\<lparr>se_worker_read := \<lambda>_. Inr [0]\<rparr>) 100 False 0 0 [] None = None"
  by (rule drain_ignores_deadline) (simp_all add: exit_env_def)

end
