(* ===== verification/File_System.thy ===== *)
theory File_System
  imports Text_Base
begin

text \<open>
  The part of a POSIX filesystem the sources act on, as a world that is passed from call to call:
  a map from paths to inodes, the identity of the process, and a script of injected failures. Every
  system call consumes one entry of the script, so a property that holds for every world holds
  for every point at which the machine may fail. A failed write may leave any prefix behind.
\<close>

section \<open>Inodes and metadata\<close>

datatype file_kind = Regular | Directory | Symlink bool

text \<open>\<open>Symlink b\<close> is a symbolic link; \<open>b\<close> tells whether its target resolves.\<close>

record inode =
  i_kind :: file_kind
  i_uid :: u32
  i_gid :: u32
  i_mode :: u32
  i_nlink :: nat
  i_dev :: u64
  i_ino :: u64
  i_stamp :: int
  i_data :: bytes

record metadata =
  md_kind :: file_kind
  md_uid :: u32
  md_gid :: u32
  md_mode :: u32
  md_nlink :: nat
  md_dev :: u64
  md_ino :: u64
  md_mtime :: int
  md_ctime :: int
  md_len :: nat

definition stat :: "inode \<Rightarrow> metadata" where
  "stat i = \<lparr>md_kind = i_kind i, md_uid = i_uid i, md_gid = i_gid i, md_mode = i_mode i,
     md_nlink = i_nlink i, md_dev = i_dev i, md_ino = i_ino i, md_mtime = i_stamp i,
     md_ctime = i_stamp i, md_len = length (i_data i)\<rparr>"

text \<open>Octal permission literals: \<open>oct3 7 5 0\<close> is \<^verbatim>\<open>0o750\<close>.\<close>

definition oct3 :: "nat \<Rightarrow> nat \<Rightarrow> nat \<Rightarrow> u32" where
  "oct3 a b c = word_of_nat (a * 64 + b * 8 + c)"

definition perm :: "metadata \<Rightarrow> u32" where
  "perm m = and (md_mode m) (oct3 7 7 7)"

definition is_symlink :: "metadata \<Rightarrow> bool" where
  "is_symlink m \<longleftrightarrow> (case md_kind m of Symlink _ \<Rightarrow> True | _ \<Rightarrow> False)"

section \<open>Paths\<close>

text \<open>\<^verbatim>\<open>Path::join\<close> of a directory that does not end in a slash and one name.\<close>

definition join :: "string \<Rightarrow> string \<Rightarrow> string" where
  "join dir name = dir @ ''/'' @ name"

lemma join_inject [simp]: "join d a = join d b \<longleftrightarrow> a = b"
  by (simp add: join_def)

lemma join_neq_dir [simp]: "join d a \<noteq> d" "d \<noteq> join d a"
  by (simp_all add: join_def)

section \<open>The world and its system calls\<close>

text \<open>\<open>Fault k n\<close> makes a call fail with kind \<open>k\<close>; \<open>n\<close> is how far it came: a failing write has written \<open>n\<close> bytes.\<close>

datatype fault = Fault io_kind nat

record world =
  nodes :: "string \<Rightarrow> inode option"
  euid :: u32
  egid :: u32
  umask :: u32
  group_ids :: "string \<Rightarrow> u32 option"
  next_ino :: u64
  stamp :: int
  script :: "fault option list"

type_synonym ('e, 'a) io = "world \<Rightarrow> ('e + 'a) \<times> world"

definition pop_fault :: "world \<Rightarrow> fault option \<times> world" where
  "pop_fault w = (case script w of [] \<Rightarrow> (None, w) | f # fs \<Rightarrow> (f, w\<lparr>script := fs\<rparr>))"

definition sys :: "(io_kind, 'a) io \<Rightarrow> (io_kind, 'a) io" where
  "sys act w =
     (case pop_fault w of
        (Some (Fault k n), w') \<Rightarrow> (Inl k, w')
      | (None, w') \<Rightarrow> act w')"

definition fs_lookup :: "string \<Rightarrow> (io_kind, inode) io" where
  "fs_lookup p w = (ok_or NotFound (nodes w p), w)"

definition symlink_metadata :: "string \<Rightarrow> (io_kind, metadata) io" where
  "symlink_metadata p = sys (\<lambda>w. (map_sum id stat (fst (fs_lookup p w)), w))"

text \<open>\<^verbatim>\<open>Path::exists\<close> follows links and treats every failure as absence.\<close>

definition path_exists :: "string \<Rightarrow> world \<Rightarrow> bool \<times> world" where
  "path_exists p w =
     (case pop_fault w of
        (Some _, w') \<Rightarrow> (False, w')
      | (None, w') \<Rightarrow>
          (case nodes w' p of
             None \<Rightarrow> (False, w')
           | Some i \<Rightarrow> (case i_kind i of Symlink b \<Rightarrow> (b, w') | _ \<Rightarrow> (True, w'))))"

text \<open>Opening without following links; the descriptor is named by its path.\<close>

definition open_nofollow :: "string \<Rightarrow> (io_kind, unit) io" where
  "open_nofollow p = sys (\<lambda>w.
     (case nodes w p of
        None \<Rightarrow> Inl NotFound
      | Some i \<Rightarrow> (case i_kind i of Symlink _ \<Rightarrow> Inl OtherIo | _ \<Rightarrow> Inr ()), w))"

definition fd_metadata :: "string \<Rightarrow> (io_kind, metadata) io" where
  "fd_metadata p = sys (\<lambda>w. (map_sum id stat (fst (fs_lookup p w)), w))"

text \<open>\<^verbatim>\<open>take(limit).read_to_end\<close>.\<close>

definition read_limited :: "string \<Rightarrow> nat \<Rightarrow> (io_kind, bytes) io" where
  "read_limited p limit = sys (\<lambda>w.
     (case nodes w p of
        None \<Rightarrow> Inl NotFound
      | Some i \<Rightarrow> if i_kind i = Regular then Inr (take limit (i_data i)) else Inl OtherIo, w))"

definition create_new :: "string \<Rightarrow> u32 \<Rightarrow> (io_kind, unit) io" where
  "create_new p mode = sys (\<lambda>w.
     case nodes w p of
       Some _ \<Rightarrow> (Inl AlreadyExists, w)
     | None \<Rightarrow>
         (Inr (),
          w\<lparr>nodes := (nodes w)(p \<mapsto>
              \<lparr>i_kind = Regular, i_uid = euid w, i_gid = egid w, i_mode = and mode (not (umask w)),
               i_nlink = 1, i_dev = 0, i_ino = next_ino w, i_stamp = stamp w, i_data = []\<rparr>),
            next_ino := next_ino w + 1, stamp := stamp w + 1\<rparr>))"

definition mkdir_all :: "string \<Rightarrow> u32 \<Rightarrow> (io_kind, unit) io" where
  "mkdir_all p mode = sys (\<lambda>w.
     case nodes w p of
       Some i \<Rightarrow> ((if i_kind i = Directory then Inr () else Inl AlreadyExists), w)
     | None \<Rightarrow>
         (Inr (),
          w\<lparr>nodes := (nodes w)(p \<mapsto>
              \<lparr>i_kind = Directory, i_uid = euid w, i_gid = egid w, i_mode = and mode (not (umask w)),
               i_nlink = 2, i_dev = 0, i_ino = next_ino w, i_stamp = stamp w, i_data = []\<rparr>),
            next_ino := next_ino w + 1, stamp := stamp w + 1\<rparr>))"

definition fs_update :: "string \<Rightarrow> (inode \<Rightarrow> inode) \<Rightarrow> world \<Rightarrow> world" where
  "fs_update p f w =
     (case nodes w p of
        None \<Rightarrow> w
      | Some i \<Rightarrow> w\<lparr>nodes := (nodes w)(p \<mapsto> (f i)\<lparr>i_stamp := stamp w\<rparr>), stamp := stamp w + 1\<rparr>)"

text \<open>
  \<^verbatim>\<open>set_fd_permissions\<close> resolves the group, changes owner and group of an open file and then its mode. A failure \<open>Fault k n\<close>
  with \<open>n \<noteq> 0\<close> is one of the mode change, after the owner was changed. Its callers map every failure to one error.
\<close>

definition set_fd_permissions :: "string \<Rightarrow> u32 \<Rightarrow> u32 \<Rightarrow> string \<Rightarrow> (io_kind, unit) io" where
  "set_fd_permissions p owner mode grp w =
     (case pop_fault w of
        (Some (Fault k n), w') \<Rightarrow>
          (Inl k, if n = 0 then w'
                  else case group_ids w' grp of
                    None \<Rightarrow> w'
                  | Some gid \<Rightarrow> fs_update p (\<lambda>i. i\<lparr>i_uid := owner, i_gid := gid\<rparr>) w')
      | (None, w') \<Rightarrow>
          (case group_ids w' grp of
             None \<Rightarrow> (Inl OtherIo, w')
           | Some gid \<Rightarrow> (Inr (), fs_update p (\<lambda>i. i\<lparr>i_uid := owner, i_gid := gid, i_mode := mode\<rparr>) w')))"

definition write_all_file :: "string \<Rightarrow> bytes \<Rightarrow> (io_kind, unit) io" where
  "write_all_file p bs w =
     (case pop_fault w of
        (Some (Fault k n), w') \<Rightarrow> (Inl k, fs_update p (\<lambda>i. i\<lparr>i_data := i_data i @ take n bs\<rparr>) w')
      | (None, w') \<Rightarrow> (Inr (), fs_update p (\<lambda>i. i\<lparr>i_data := i_data i @ bs\<rparr>) w'))"

definition sync_all :: "string \<Rightarrow> (io_kind, unit) io" where
  "sync_all p = sys (\<lambda>w. (Inr (), w))"

definition rename_file :: "string \<Rightarrow> string \<Rightarrow> (io_kind, unit) io" where
  "rename_file a b = sys (\<lambda>w.
     case nodes w a of
       None \<Rightarrow> (Inl NotFound, w)
     | Some i \<Rightarrow> (Inr (), w\<lparr>nodes := (nodes w)(a := None, b := Some i)\<rparr>))"

definition remove_file :: "string \<Rightarrow> (io_kind, unit) io" where
  "remove_file p = sys (\<lambda>w.
     case nodes w p of
       None \<Rightarrow> (Inl NotFound, w)
     | Some i \<Rightarrow> (if i_kind i = Directory then (Inl OtherIo, w)
                  else (Inr (), w\<lparr>nodes := (nodes w)(p := None)\<rparr>)))"

definition open_path :: "string \<Rightarrow> (io_kind, unit) io" where
  "open_path p = sys (\<lambda>w. (case nodes w p of None \<Rightarrow> Inl NotFound | Some _ \<Rightarrow> Inr (), w))"

section \<open>Sequencing\<close>

definition wreturn :: "'a \<Rightarrow> ('e, 'a) io" where
  "wreturn x w = (Inr x, w)"

definition wfail :: "'e \<Rightarrow> ('e, 'a) io" where
  "wfail e w = (Inl e, w)"

definition wbind :: "('e, 'a) io \<Rightarrow> ('a \<Rightarrow> ('e, 'b) io) \<Rightarrow> ('e, 'b) io" where
  "wbind m f w = (case m w of (Inl e, w') \<Rightarrow> (Inl e, w') | (Inr x, w') \<Rightarrow> f x w')"

definition wmap_err :: "('e \<Rightarrow> 'f) \<Rightarrow> ('e, 'a) io \<Rightarrow> ('f, 'a) io" where
  "wmap_err g m w = (case m w of (r, w') \<Rightarrow> (map_err g r, w'))"

text \<open>\<open>wfinally m c\<close> runs \<open>c\<close> after \<open>m\<close> whatever it returned, as the drop of a guard does.\<close>

definition wfinally :: "('e, 'a) io \<Rightarrow> (io_kind, unit) io \<Rightarrow> ('e, 'a) io" where
  "wfinally m c w = (case m w of (r, w') \<Rightarrow> (r, snd (c w')))"

text \<open>\<open>wcleanup m c\<close> runs \<open>c\<close> only if \<open>m\<close> failed: the drop of a guard that success disarms.\<close>

definition wcleanup :: "('e, 'a) io \<Rightarrow> (io_kind, unit) io \<Rightarrow> ('e, 'a) io" where
  "wcleanup m c w = (case m w of (Inl e, w') \<Rightarrow> (Inl e, snd (c w')) | (Inr x, w') \<Rightarrow> (Inr x, w'))"

definition wlift :: "'e + 'a \<Rightarrow> ('e, 'a) io" where
  "wlift r w = (r, w)"

section \<open>Frames\<close>

text \<open>\<open>keeps P m\<close>: whatever fails, the action leaves the inodes at the paths \<open>P\<close> as they were.\<close>

definition keeps :: "string set \<Rightarrow> ('e, 'a) io \<Rightarrow> bool" where
  "keeps P m \<longleftrightarrow> (\<forall>w. \<forall>p \<in> P. nodes (snd (m w)) p = nodes w p)"

named_theorems keeps_rules \<open>frame rules of the actions\<close>

lemma keepsI: "(\<And>w p. p \<in> P \<Longrightarrow> nodes (snd (m w)) p = nodes w p) \<Longrightarrow> keeps P m"
  by (simp add: keeps_def)

lemma keepsD: "keeps P m \<Longrightarrow> p \<in> P \<Longrightarrow> nodes (snd (m w)) p = nodes w p"
  by (simp add: keeps_def)

lemma nodes_pop_fault: "pop_fault w = (f, w') \<Longrightarrow> nodes w' = nodes w"
  by (auto simp: pop_fault_def split: list.splits)

lemma keeps_sys:
  assumes "\<And>w p. p \<in> P \<Longrightarrow> nodes (snd (act w)) p = nodes w p"
  shows "keeps P (sys act)"
proof (rule keepsI)
  fix w p
  assume p: "p \<in> P"
  obtain f w' where f: "pop_fault w = (f, w')" by fastforce
  show "nodes (snd (sys act w)) p = nodes w p"
    using nodes_pop_fault [OF f] assms [OF p, of w']
    by (simp add: sys_def f split: option.split fault.split)
qed

lemma nodes_fs_update: "p \<noteq> q \<Longrightarrow> nodes (fs_update q f w) p = nodes w p"
  by (simp add: fs_update_def split: option.split)

lemma keeps_wreturn [keeps_rules]: "keeps P (wreturn x)"
  by (simp add: keeps_def wreturn_def)

lemma keeps_wfail [keeps_rules]: "keeps P (wfail e)"
  by (simp add: keeps_def wfail_def)

lemma keeps_wlift [keeps_rules]: "keeps P (wlift r)"
  by (simp add: keeps_def wlift_def)

lemma keeps_wbind [keeps_rules]: "keeps P m \<Longrightarrow> (\<And>x. keeps P (f x)) \<Longrightarrow> keeps P (wbind m f)"
  by (auto simp: keeps_def wbind_def split: prod.split sum.split) (metis snd_conv)+

lemma keeps_wmap_err [keeps_rules]: "keeps P m \<Longrightarrow> keeps P (wmap_err g m)"
  by (auto simp: keeps_def wmap_err_def split: prod.split) (metis snd_conv)

lemma keeps_wfinally [keeps_rules]: "keeps P m \<Longrightarrow> keeps P c \<Longrightarrow> keeps P (wfinally m c)"
  by (auto simp: keeps_def wfinally_def split: prod.split) (metis snd_conv)

lemma keeps_wcleanup [keeps_rules]: "keeps P m \<Longrightarrow> keeps P c \<Longrightarrow> keeps P (wcleanup m c)"
  by (auto simp: keeps_def wcleanup_def split: prod.split sum.split) (metis snd_conv)+

lemma keeps_if [keeps_rules]: "keeps P a \<Longrightarrow> keeps P b \<Longrightarrow> keeps P (if c then a else b)"
  by simp

lemma keeps_wif [keeps_rules]: "keeps P a \<Longrightarrow> keeps P b \<Longrightarrow> keeps P (\<lambda>w. if c w then a w else b w)"
  by (simp add: keeps_def)

lemma keeps_open_path [keeps_rules]: "keeps P (open_path p)"
  by (auto simp: open_path_def intro!: keeps_sys)

lemma keeps_queries [keeps_rules]:
  "keeps P (symlink_metadata p)" "keeps P (open_nofollow p)" "keeps P (fd_metadata p)"
  "keeps P (read_limited p n)" "keeps P (sync_all p)"
  by (auto simp: symlink_metadata_def open_nofollow_def fd_metadata_def read_limited_def sync_all_def
      intro!: keeps_sys)

lemma keeps_create_new [keeps_rules]: "p \<notin> P \<Longrightarrow> keeps P (create_new p mode)"
  by (auto simp: create_new_def split: option.split intro!: keeps_sys)

lemma keeps_mkdir_all [keeps_rules]: "p \<notin> P \<Longrightarrow> keeps P (mkdir_all p mode)"
  by (auto simp: mkdir_all_def split: option.split intro!: keeps_sys)

lemma keeps_set_fd_permissions [keeps_rules]:
  assumes "p \<notin> P"
  shows "keeps P (set_fd_permissions p owner mode grp)"
proof (rule keepsI)
  fix w q
  assume "q \<in> P"
  with assms have "q \<noteq> p" by auto
  obtain f w' where f: "pop_fault w = (f, w')" by fastforce
  show "nodes (snd (set_fd_permissions p owner mode grp w)) q = nodes w q"
    using nodes_pop_fault [OF f] nodes_fs_update [OF \<open>q \<noteq> p\<close>, of _ w']
    by (simp add: set_fd_permissions_def f split: option.split fault.split)
qed

lemma keeps_remove_file [keeps_rules]: "p \<notin> P \<Longrightarrow> keeps P (remove_file p)"
  by (auto simp: remove_file_def split: option.split intro!: keeps_sys)

lemma keeps_rename_file [keeps_rules]: "a \<notin> P \<Longrightarrow> b \<notin> P \<Longrightarrow> keeps P (rename_file a b)"
  by (auto simp: rename_file_def split: option.split intro!: keeps_sys)

lemma keeps_write_all_file [keeps_rules]:
  assumes "p \<notin> P"
  shows "keeps P (write_all_file p bs)"
proof (rule keepsI)
  fix w q
  assume "q \<in> P"
  with assms have "q \<noteq> p" by auto
  obtain f w' where f: "pop_fault w = (f, w')" by fastforce
  show "nodes (snd (write_all_file p bs w)) q = nodes w q"
    using nodes_pop_fault [OF f] nodes_fs_update [OF \<open>q \<noteq> p\<close>, of _ w']
    by (simp add: write_all_file_def f split: option.split fault.split)
qed

lemma nodes_path_exists: "path_exists p w = (b, w') \<Longrightarrow> nodes w' = nodes w"
  by (auto simp: path_exists_def dest: nodes_pop_fault split: prod.splits option.splits
      file_kind.splits)

section \<open>What a successful call means\<close>

lemma sys_Inr: "sys act w = (Inr x, w') \<Longrightarrow> \<exists>v. nodes v = nodes w \<and> act v = (Inr x, w')"
proof -
  assume a: "sys act w = (Inr x, w')"
  obtain f v where f: "pop_fault w = (f, v)" by fastforce
  with a have "act v = (Inr x, w')" by (auto simp: sys_def split: option.splits fault.splits)
  then show ?thesis using nodes_pop_fault [OF f] by blast
qed

lemma wbind_Inr: "wbind m f w = (Inr y, w') \<longleftrightarrow> (\<exists>x v. m w = (Inr x, v) \<and> f x v = (Inr y, w'))"
  by (auto simp: wbind_def split: prod.split sum.split)

lemma wmap_err_Inr: "wmap_err g m w = (Inr x, w') \<longleftrightarrow> m w = (Inr x, w')"
  by (auto simp: wmap_err_def map_err_def split: prod.split sum.split)

lemma wreturn_Inr: "wreturn x w = (r, w') \<longleftrightarrow> r = Inr x \<and> w' = w"
  by (auto simp: wreturn_def)

lemma wfail_Inr: "wfail e w \<noteq> (Inr x, w')"
  by (simp add: wfail_def)

lemma wlift_Inr: "wlift r w = (r', w') \<longleftrightarrow> r = r' \<and> w = w'"
  by (auto simp: wlift_def)

lemmas io_success = wbind_Inr wmap_err_Inr wreturn_Inr wfail_Inr wlift_Inr

lemma create_new_Inr:
  assumes "create_new p mode w = (Inr u, w')"
  shows "nodes w p = None"
    "\<exists>i. nodes w' p = Some i \<and> i_data i = [] \<and> i_kind i = Regular \<and> i_nlink i = 1"
proof -
  have "nodes w p = None \<and> (\<exists>i. nodes w' p = Some i \<and> i_data i = [] \<and> i_kind i = Regular \<and> i_nlink i = 1)"
    using sys_Inr [OF assms [unfolded create_new_def]] by (auto split: option.splits)
  then show "nodes w p = None"
    "\<exists>i. nodes w' p = Some i \<and> i_data i = [] \<and> i_kind i = Regular \<and> i_nlink i = 1"
    by auto
qed

lemma set_fd_permissions_Inr:
  assumes "set_fd_permissions p owner mode grp w = (Inr u, w')" "nodes w p = Some i"
  shows "\<exists>j. nodes w' p = Some j \<and> i_data j = i_data i \<and> i_kind j = i_kind i
    \<and> i_uid j = owner \<and> i_mode j = mode \<and> i_nlink j = i_nlink i"
proof -
  obtain f v where f: "pop_fault w = (f, v)" by fastforce
  with assms nodes_pop_fault [OF f] show ?thesis
    by (auto simp: set_fd_permissions_def fs_update_def split: option.splits fault.splits)
qed

lemma write_all_file_Inr:
  assumes "write_all_file p bs w = (Inr u, w')" "nodes w p = Some i"
  shows "\<exists>j. nodes w' p = Some j \<and> i_data j = i_data i @ bs \<and> i_kind j = i_kind i \<and> i_nlink j = i_nlink i"
proof -
  obtain f v where f: "pop_fault w = (f, v)" by fastforce
  with assms nodes_pop_fault [OF f] show ?thesis
    by (auto simp: write_all_file_def fs_update_def split: option.splits fault.splits)
qed

lemma rename_file_Inr:
  "rename_file a b w = (Inr u, w') \<Longrightarrow> a \<noteq> b \<Longrightarrow> nodes w' = (nodes w)(a := None, b := nodes w a)"
proof -
  assume "rename_file a b w = (Inr u, w')"
  then show ?thesis unfolding rename_file_def by (auto dest!: sys_Inr split: option.splits)
qed

lemma rename_file_Inl: "rename_file a b w = (Inl e, w') \<Longrightarrow> nodes w' = nodes w"
proof -
  assume r: "rename_file a b w = (Inl e, w')"
  obtain f v where f: "pop_fault w = (f, v)" by fastforce
  with r nodes_pop_fault [OF f] show ?thesis
    by (auto simp: rename_file_def sys_def split: option.splits fault.splits)
qed

lemma read_limited_Inr:
  assumes "read_limited p n w = (Inr bs, w')"
  shows "nodes w' = nodes w" "\<exists>i. nodes w p = Some i \<and> bs = take n (i_data i) \<and> i_kind i = Regular"
proof -
  obtain v where "nodes v = nodes w" "w' = v"
    "\<exists>i. nodes v p = Some i \<and> bs = take n (i_data i) \<and> i_kind i = Regular"
    using sys_Inr [OF assms [unfolded read_limited_def]] by (auto split: option.splits if_splits)
  then show "nodes w' = nodes w" "\<exists>i. nodes w p = Some i \<and> bs = take n (i_data i) \<and> i_kind i = Regular"
    by simp_all
qed

lemma metadata_Inr:
  "symlink_metadata p w = (Inr m, w') \<Longrightarrow> \<exists>i. nodes w p = Some i \<and> m = stat i"
  "fd_metadata p w = (Inr m, w') \<Longrightarrow> \<exists>i. nodes w p = Some i \<and> m = stat i"
  unfolding symlink_metadata_def fd_metadata_def
  by (auto dest!: sys_Inr simp: fs_lookup_def ok_or_def split: option.splits)

lemma keeps_all_nodes: "keeps UNIV m \<Longrightarrow> nodes (snd (m w)) = nodes w"
  by (auto simp: keeps_def)

section \<open>All-or-nothing updates\<close>

text \<open>
  \<open>all_or_nothing n f ok m\<close>: started with the file \<open>f\<close> in state \<open>n\<close>, the action \<open>m\<close> leaves it so or in a state
  that satisfies \<open>ok\<close>, and success implies \<open>ok\<close>.
\<close>

definition all_or_nothing ::
    "inode option \<Rightarrow> string \<Rightarrow> (inode option \<Rightarrow> bool) \<Rightarrow> ('e, 'a) io \<Rightarrow> bool" where
  "all_or_nothing n f ok m \<longleftrightarrow>
     (\<forall>w r w'. nodes w f = n \<longrightarrow> m w = (r, w') \<longrightarrow>
        (is_ok r \<longrightarrow> ok (nodes w' f)) \<and> (nodes w' f = n \<or> ok (nodes w' f)))"

named_theorems aon_rules \<open>all-or-nothing updates\<close>

lemma aonD:
  "all_or_nothing n f ok m \<Longrightarrow> nodes w f = n \<Longrightarrow> m w = (r, w') \<Longrightarrow>
     (is_ok r \<longrightarrow> ok (nodes w' f)) \<and> (nodes w' f = n \<or> ok (nodes w' f))"
  by (auto simp: all_or_nothing_def)

lemma aon_wfail [aon_rules]: "all_or_nothing n f ok (wfail e)"
  by (simp add: all_or_nothing_def wfail_def)

lemma aon_wif [aon_rules]:
  "all_or_nothing n f ok a \<Longrightarrow> all_or_nothing n f ok b \<Longrightarrow> all_or_nothing n f ok (\<lambda>w. if c w then a w else b w)"
  by (simp add: all_or_nothing_def)

lemma aon_prefix:
  assumes "keeps {f} m" "\<And>x. all_or_nothing n f ok (g x)"
  shows "all_or_nothing n f ok (wbind m g)"
  unfolding all_or_nothing_def
proof (intro allI impI)
  fix w r w'
  assume n: "nodes w f = n" and a: "wbind m g w = (r, w')"
  obtain q v where m: "m w = (q, v)" by fastforce
  have v: "nodes v f = n" using keepsD [OF assms(1), of f w] m n by simp
  show "(is_ok r \<longrightarrow> ok (nodes w' f)) \<and> (nodes w' f = n \<or> ok (nodes w' f))"
  proof (cases q)
    case (Inl e)
    with a m v show ?thesis by (auto simp: wbind_def)
  next
    case (Inr x)
    with a m have "g x v = (r, w')" by (simp add: wbind_def)
    with aonD [OF assms(2) v] show ?thesis by metis
  qed
qed

lemma aon_wlift: "(\<And>x. r = Inr x \<Longrightarrow> all_or_nothing n f ok (g x)) \<Longrightarrow> all_or_nothing n f ok (wbind (wlift r) g)"
  by (cases r) (simp_all add: all_or_nothing_def wbind_def wlift_def)

lemma aon_suffix:
  assumes "all_or_nothing n f ok m" "keeps {f} c"
  shows "all_or_nothing n f ok (wbind m (\<lambda>_. c))"
  unfolding all_or_nothing_def
proof (intro allI impI)
  fix w r w'
  assume n: "nodes w f = n" and a: "wbind m (\<lambda>_. c) w = (r, w')"
  obtain q v where m: "m w = (q, v)" by fastforce
  note q = aonD [OF assms(1) n m]
  show "(is_ok r \<longrightarrow> ok (nodes w' f)) \<and> (nodes w' f = n \<or> ok (nodes w' f))"
  proof (cases q)
    case (Inl e)
    with a m q show ?thesis by (auto simp: wbind_def)
  next
    case (Inr x)
    with a m have "c v = (r, w')" by (simp add: wbind_def)
    with keepsD [OF assms(2), of f v] have "nodes w' f = nodes v f" by simp
    with q Inr show ?thesis by simp
  qed
qed

lemma aon_finally:
  assumes "all_or_nothing n f ok m" "keeps {f} c"
  shows "all_or_nothing n f ok (wfinally m c)"
  unfolding all_or_nothing_def
proof (intro allI impI)
  fix w r w'
  assume n: "nodes w f = n" and a: "wfinally m c w = (r, w')"
  obtain q v where m: "m w = (q, v)" by fastforce
  with a have "r = q" "w' = snd (c v)" by (auto simp: wfinally_def)
  with keepsD [OF assms(2), of f v] aonD [OF assms(1) n m]
  show "(is_ok r \<longrightarrow> ok (nodes w' f)) \<and> (nodes w' f = n \<or> ok (nodes w' f))" by simp
qed

lemma aon_cleanup:
  assumes "all_or_nothing n f ok m" "keeps {f} c"
  shows "all_or_nothing n f ok (wcleanup m c)"
  unfolding all_or_nothing_def
proof (intro allI impI)
  fix w r w'
  assume n: "nodes w f = n" and a: "wcleanup m c w = (r, w')"
  obtain q v where m: "m w = (q, v)" by fastforce
  note q = aonD [OF assms(1) n m]
  show "(is_ok r \<longrightarrow> ok (nodes w' f)) \<and> (nodes w' f = n \<or> ok (nodes w' f))"
    using a m q keepsD [OF assms(2), of f v] by (cases q) (auto simp: wcleanup_def)
qed

lemma aon_weaken: "all_or_nothing n f ok m \<Longrightarrow> (\<And>x. ok x \<Longrightarrow> ok' x) \<Longrightarrow> all_or_nothing n f ok' m"
  by (auto simp: all_or_nothing_def)

text \<open>
  What the tools rely on of a file that is replaced as a whole: \<open>store k x\<close> is the \<open>k\<close>-th write of a run, of the contents \<open>x\<close>,
  and \<open>holds x\<close> says that the file is there with these contents.
\<close>

locale atomic_store =
  fixes store :: "nat \<Rightarrow> 'a \<Rightarrow> ('e, unit) io" and final :: string and holds :: "'a \<Rightarrow> inode option \<Rightarrow> bool"
  assumes store_atomic: "all_or_nothing n final (holds x) (store k x)"
begin

lemma store_outcome:
  "store k x w = (r, w') \<Longrightarrow> holds x (nodes w' final) \<or> (nodes w' final = nodes w final \<and> \<not> is_ok r)"
  using aonD [OF store_atomic refl] by blast

lemma store_or_restore:
  assumes "store k x w = (r, w1)" "store j y w1 = (q, w2)"
  shows "nodes w2 final = nodes w final \<or> holds x (nodes w2 final) \<or> holds y (nodes w2 final)"
  using store_outcome [OF assms(1)] store_outcome [OF assms(2)] by metis

end

text \<open>The same with a fact about the world that holds when the action starts.\<close>

definition aon_from ::
    "(world \<Rightarrow> bool) \<Rightarrow> inode option \<Rightarrow> string \<Rightarrow> (inode option \<Rightarrow> bool) \<Rightarrow> ('e, 'a) io \<Rightarrow> bool" where
  "aon_from Q n f ok m \<longleftrightarrow>
     (\<forall>w r w'. Q w \<longrightarrow> nodes w f = n \<longrightarrow> m w = (r, w') \<longrightarrow>
        (is_ok r \<longrightarrow> ok (nodes w' f)) \<and> (nodes w' f = n \<or> ok (nodes w' f)))"

lemma aon_from_True: "aon_from (\<lambda>_. True) n f ok m \<longleftrightarrow> all_or_nothing n f ok m"
  by (simp add: aon_from_def all_or_nothing_def)

lemma aon_from_step:
  assumes "keeps {f} m" "\<And>w x v. Q w \<Longrightarrow> m w = (Inr x, v) \<Longrightarrow> R v" "\<And>x. aon_from R n f ok (g x)"
  shows "aon_from Q n f ok (wbind m g)"
  unfolding aon_from_def
proof (intro allI impI)
  fix w r w'
  assume q: "Q w" and n: "nodes w f = n" and a: "wbind m g w = (r, w')"
  obtain e v where m: "m w = (e, v)" by fastforce
  have v: "nodes v f = n" using keepsD [OF assms(1), of f w] m n by simp
  show "(is_ok r \<longrightarrow> ok (nodes w' f)) \<and> (nodes w' f = n \<or> ok (nodes w' f))"
  proof (cases e)
    case (Inl k)
    with a m v show ?thesis by (auto simp: wbind_def)
  next
    case (Inr x)
    with a m have "g x v = (r, w')" by (simp add: wbind_def)
    with assms(3) [of x] assms(2) [OF q, of x v] m Inr v show ?thesis by (simp add: aon_from_def)
  qed
qed

lemma aon_from_map_err: "aon_from Q n f ok m \<Longrightarrow> aon_from Q n f ok (wmap_err g m)"
  unfolding aon_from_def wmap_err_def
  by (auto simp: map_err_def is_ok_def split: prod.splits sum.splits)

lemma aon_from_cleanup:
  assumes "aon_from Q n f ok m" "keeps {f} c"
  shows "aon_from Q n f ok (wcleanup m c)"
  unfolding aon_from_def
proof (intro allI impI)
  fix w r w'
  assume q: "Q w" "nodes w f = n" and a: "wcleanup m c w = (r, w')"
  obtain e v where m: "m w = (e, v)" by fastforce
  from assms(1) q m have "(is_ok e \<longrightarrow> ok (nodes v f)) \<and> (nodes v f = n \<or> ok (nodes v f))"
    by (simp add: aon_from_def)
  with a m keepsD [OF assms(2), of f v]
  show "(is_ok r \<longrightarrow> ok (nodes w' f)) \<and> (nodes w' f = n \<or> ok (nodes w' f))"
    by (cases e) (auto simp: wcleanup_def)
qed

lemma aon_from_rename:
  assumes "a \<noteq> f" "\<And>w. Q w \<Longrightarrow> ok (nodes w a)" "keeps {f} c"
  shows "aon_from Q n f ok (wbind (rename_file a f) (\<lambda>_. c))"
  unfolding aon_from_def
proof (intro allI impI)
  fix w r w'
  assume q: "Q w" and n: "nodes w f = n" and e: "wbind (rename_file a f) (\<lambda>_. c) w = (r, w')"
  obtain x v where m: "rename_file a f w = (x, v)" by fastforce
  show "(is_ok r \<longrightarrow> ok (nodes w' f)) \<and> (nodes w' f = n \<or> ok (nodes w' f))"
  proof (cases x)
    case (Inl k)
    with e m rename_file_Inl [of a f w k v] n show ?thesis by (auto simp: wbind_def)
  next
    case (Inr u)
    with m rename_file_Inr [of a f w u v] assms(1,2) q have "ok (nodes v f)" by simp
    moreover have "nodes w' f = nodes v f" using e m Inr keepsD [OF assms(3), of f v] by (simp add: wbind_def)
    ultimately show ?thesis by simp
  qed
qed

section \<open>Runs without failures\<close>

text \<open>Without injected failures each call is its plain effect.\<close>

lemma clean_sys: "script w = [] \<Longrightarrow> sys act w = act w"
  by (simp add: sys_def pop_fault_def)

lemma clean_write_all_file:
  "script w = [] \<Longrightarrow> write_all_file p bs w = (Inr (), fs_update p (\<lambda>i. i\<lparr>i_data := i_data i @ bs\<rparr>) w)"
  by (simp add: write_all_file_def pop_fault_def)

lemma clean_path_exists:
  "script w = [] \<Longrightarrow> path_exists p w = ((case nodes w p of None \<Rightarrow> False
     | Some i \<Rightarrow> (case i_kind i of Symlink b \<Rightarrow> b | _ \<Rightarrow> True)), w)"
  by (auto simp: path_exists_def pop_fault_def split: option.split file_kind.split)

lemmas clean_calls = clean_write_all_file clean_path_exists clean_sys
lemmas call_defs = symlink_metadata_def open_nofollow_def fd_metadata_def read_limited_def create_new_def
  sync_all_def rename_file_def remove_file_def open_path_def fs_lookup_def
lemmas flow_defs = wbind_def wreturn_def wfail_def wmap_err_def wlift_def wfinally_def wcleanup_def

end
