(* ===== verification/Crypto_Bridge.thy ===== *)
theory Crypto_Bridge
  imports Text_Base
begin

text \<open>
  The safe wrappers of \<^verbatim>\<open>engine/crypto-openssl-sys/src/lib.rs\<close> around the native bridge: the mapping
  of status codes, the CSPRNG wrapper, AES-256-GCM encryption and decryption, SHA-256 and the key
  loader. The native calls are parameters: a record of functions from their inputs to the status
  they return and the buffers they fill. \<open>aead_exact\<close> names the documented behaviour of AES-GCM that
  the vault relies on.
\<close>

section \<open>Status codes and errors\<close>

datatype crypto_error = InvalidArgument | ProviderFailure | AuthenticationFailure | UnknownStatus

definition KEY_BYTES :: nat where "KEY_BYTES = 32"
definition NONCE_BYTES :: nat where "NONCE_BYTES = 12"
definition TAG_BYTES :: nat where "TAG_BYTES = 16"

definition status_result :: "int \<Rightarrow> crypto_error + unit" where
  "status_result status =
     (if status = 0 then Inr ()
      else if status = 1 then Inl InvalidArgument
      else if status = 2 then Inl ProviderFailure
      else if status = 3 then Inl AuthenticationFailure
      else Inl UnknownStatus)"

section \<open>The native bridge\<close>

text \<open>
  The arguments are key, nonce, associated data and text; the results are the returned status,
  the filled buffer, the reported size and, for encryption, the tag.
\<close>

record native =
  native_encrypt :: "bytes \<Rightarrow> bytes \<Rightarrow> bytes \<Rightarrow> bytes \<Rightarrow> int \<times> bytes \<times> nat \<times> bytes"
  native_decrypt :: "bytes \<Rightarrow> bytes \<Rightarrow> bytes \<Rightarrow> bytes \<Rightarrow> bytes \<Rightarrow> int \<times> bytes \<times> nat"
  native_sha256 :: "bytes \<Rightarrow> int \<times> bytes"

text \<open>
  \<^verbatim>\<open>random::<N>()\<close>. \<open>urandom\<close> is what reading at most \<open>n\<close> bytes of \<^verbatim>\<open>/dev/urandom\<close> gave, \<open>openssl\<close> the status
  and the bytes of the OpenSSL generator; the two are combined by exclusive or.
\<close>

definition random_bytes :: "nat \<Rightarrow> io_kind + bytes \<Rightarrow> int \<times> bytes \<Rightarrow> crypto_error + bytes" where
  "random_bytes n urandom openssl =
     (if n = 0 then Inl InvalidArgument
      else case urandom of
        Inl _ \<Rightarrow> Inl ProviderFailure
      | Inr bs \<Rightarrow>
          if length bs \<noteq> n then Inl ProviderFailure
          else rbind (status_result (fst openssl)) (\<lambda>_.
            Inr (map2 xor bs (snd openssl))))"

definition encrypt :: "native \<Rightarrow> bytes \<Rightarrow> bytes \<Rightarrow> bytes \<Rightarrow> bytes \<Rightarrow> crypto_error + bytes \<times> bytes" where
  "encrypt nv key nonce aad plaintext =
     (case native_encrypt nv key nonce aad plaintext of
        (status, ciphertext, ciphertext_size, tag) \<Rightarrow>
          rbind (status_result status) (\<lambda>_.
            if ciphertext_size \<noteq> length ciphertext then Inl ProviderFailure
            else Inr (ciphertext, tag)))"

definition decrypt :: "native \<Rightarrow> bytes \<Rightarrow> bytes \<Rightarrow> bytes \<Rightarrow> bytes \<Rightarrow> bytes \<Rightarrow> crypto_error + bytes" where
  "decrypt nv key nonce aad ciphertext tag =
     (case native_decrypt nv key nonce aad ciphertext tag of
        (status, plaintext, plaintext_size) \<Rightarrow>
          rbind (status_result status) (\<lambda>_.
            if plaintext_size \<noteq> length plaintext then Inl ProviderFailure
            else Inr plaintext))"

definition sha256 :: "native \<Rightarrow> bytes \<Rightarrow> crypto_error + bytes" where
  "sha256 nv input =
     (case native_sha256 nv input of
        (status, output) \<Rightarrow> rbind (status_result status) (\<lambda>_. Inr output))"

text \<open>
  \<^verbatim>\<open>load_master_key_for_uid\<close>: the directory is converted to a C string first (it must be UTF-8 and free
  of NUL bytes), then the native loader's status is mapped, with every unlisted status a provider
  failure. \<open>loader\<close> stands for the native loader.
\<close>

definition c_string_ok :: "bytes \<Rightarrow> bool" where
  "c_string_ok path \<longleftrightarrow> utf8_valid (map unat path) \<and> 0 \<notin> set path"

definition load_master_key_for_uid ::
    "(u32 \<Rightarrow> bytes option \<Rightarrow> int \<times> bytes) \<Rightarrow> u32 \<Rightarrow> bytes option \<Rightarrow> crypto_error + bytes" where
  "load_master_key_for_uid loader uid custom_keys_dir =
     (if \<exists>path \<in> set_option custom_keys_dir. \<not> c_string_ok path then Inl InvalidArgument
      else case loader uid custom_keys_dir of
        (status, key) \<Rightarrow>
          if status \<noteq> 0 then
            Inl (if status = 1 then InvalidArgument
                 else if status = 3 then AuthenticationFailure
                 else ProviderFailure)
          else Inr key)"

section \<open>What AES-GCM promises\<close>

text \<open>
  Encryption keeps the length and yields a 16-byte tag, and decryption succeeds on a ciphertext
  and tag exactly when they are the encryption of the plaintext it returns.
\<close>

definition aead_exact :: "native \<Rightarrow> bool" where
  "aead_exact nv \<longleftrightarrow>
     (\<forall>key nonce aad pt ct tag. encrypt nv key nonce aad pt = Inr (ct, tag)
        \<longrightarrow> length ct = length pt \<and> length tag = TAG_BYTES)
   \<and> (\<forall>key nonce aad pt ct tag. decrypt nv key nonce aad ct tag = Inr pt
        \<longleftrightarrow> encrypt nv key nonce aad pt = Inr (ct, tag))"

lemma aead_exactD:
  assumes "aead_exact nv"
  shows "encrypt nv key nonce aad pt = Inr (ct, tag) \<Longrightarrow> length ct = length pt \<and> length tag = TAG_BYTES"
    "decrypt nv key nonce aad ct tag = Inr pt \<longleftrightarrow> encrypt nv key nonce aad pt = Inr (ct, tag)"
  using assms unfolding aead_exact_def by blast+

lemma status_result_iff [simp]: "status_result s = Inr u \<longleftrightarrow> s = 0"
  by (simp add: status_result_def)

text \<open>A toy cipher with the shape of the bridge, to show that the laws can hold.\<close>

definition toy_tag :: "bytes \<Rightarrow> bytes \<Rightarrow> bytes" where
  "toy_tag key aad = [sum_list key + sum_list aad] @ replicate 15 0"

definition toy_native :: native where
  "toy_native =
     \<lparr>native_encrypt = (\<lambda>key nonce aad pt. (0, map (\<lambda>b. b + 1) pt, length pt, toy_tag key aad)),
      native_decrypt = (\<lambda>key nonce aad ct tag.
        if tag = toy_tag key aad then (0, map (\<lambda>b. b - 1) ct, length ct)
        else (3, replicate (length ct) 0, 0)),
      native_sha256 = (\<lambda>input. (0, replicate 31 0 @ [sum_list input]))\<rparr>"

lemma toy_native_exact: "aead_exact toy_native"
proof -
  have inv: "map (\<lambda>b :: u8. b - 1) ct = pt \<longleftrightarrow> ct = map (\<lambda>b. b + 1) pt" for ct pt
    by (auto simp: map_idI o_def)
  show ?thesis
    by (auto simp: aead_exact_def encrypt_def decrypt_def toy_native_def toy_tag_def TAG_BYTES_def
        status_result_def inv)
qed

end
