(* ===== verification/Sha256.thy ===== *)
theory Sha256
  imports Crypto_Bridge
begin

text \<open>
  \<^verbatim>\<open>engine/vision/src/sha256.rs\<close>: the digest of model artifacts. OpenSSL computes it when it can, the portable
  implementation otherwise. The portable one works on an array of 64 words and a tail buffer of two blocks; it is proved
  equal to the standard's definition: constants from the roots of the first primes, a message padded as a whole, the schedule as a
  recurrence.
\<close>

section \<open>The portable implementation\<close>

text \<open>A constant is written as the source groups its digits, in two halves.\<close>

definition hx :: "nat \<Rightarrow> nat \<Rightarrow> u32" where
  "hx high low = word_of_nat (high * 2 ^ 16 + low)"

definition INITIAL_STATE :: "u32 list" where
  "INITIAL_STATE =
    [hx 0x6a09 0xe667, hx 0xbb67 0xae85, hx 0x3c6e 0xf372, hx 0xa54f 0xf53a,
     hx 0x510e 0x527f, hx 0x9b05 0x688c, hx 0x1f83 0xd9ab, hx 0x5be0 0xcd19]"

definition ROUND_CONSTANTS :: "u32 list" where
  "ROUND_CONSTANTS =
    [hx 0x428a 0x2f98, hx 0x7137 0x4491, hx 0xb5c0 0xfbcf, hx 0xe9b5 0xdba5,
     hx 0x3956 0xc25b, hx 0x59f1 0x11f1, hx 0x923f 0x82a4, hx 0xab1c 0x5ed5,
     hx 0xd807 0xaa98, hx 0x1283 0x5b01, hx 0x2431 0x85be, hx 0x550c 0x7dc3,
     hx 0x72be 0x5d74, hx 0x80de 0xb1fe, hx 0x9bdc 0x06a7, hx 0xc19b 0xf174,
     hx 0xe49b 0x69c1, hx 0xefbe 0x4786, hx 0x0fc1 0x9dc6, hx 0x240c 0xa1cc,
     hx 0x2de9 0x2c6f, hx 0x4a74 0x84aa, hx 0x5cb0 0xa9dc, hx 0x76f9 0x88da,
     hx 0x983e 0x5152, hx 0xa831 0xc66d, hx 0xb003 0x27c8, hx 0xbf59 0x7fc7,
     hx 0xc6e0 0x0bf3, hx 0xd5a7 0x9147, hx 0x06ca 0x6351, hx 0x1429 0x2967,
     hx 0x27b7 0x0a85, hx 0x2e1b 0x2138, hx 0x4d2c 0x6dfc, hx 0x5338 0x0d13,
     hx 0x650a 0x7354, hx 0x766a 0x0abb, hx 0x81c2 0xc92e, hx 0x9272 0x2c85,
     hx 0xa2bf 0xe8a1, hx 0xa81a 0x664b, hx 0xc24b 0x8b70, hx 0xc76c 0x51a3,
     hx 0xd192 0xe819, hx 0xd699 0x0624, hx 0xf40e 0x3585, hx 0x106a 0xa070,
     hx 0x19a4 0xc116, hx 0x1e37 0x6c08, hx 0x2748 0x774c, hx 0x34b0 0xbcb5,
     hx 0x391c 0x0cb3, hx 0x4ed8 0xaa4a, hx 0x5b9c 0xca4f, hx 0x682e 0x6ff3,
     hx 0x748f 0x82ee, hx 0x78a5 0x636f, hx 0x84c8 0x7814, hx 0x8cc7 0x0208,
     hx 0x90be 0xfffa, hx 0xa450 0x6ceb, hx 0xbef9 0xa3f7, hx 0xc671 0x78f2]"

text \<open>\<^verbatim>\<open>chunks_exact\<close> and its \<^verbatim>\<open>remainder\<close>, and \<^verbatim>\<open>copy_from_slice\<close> into a range that starts at \<open>at\<close>.\<close>

definition chunks_exact :: "nat \<Rightarrow> 'a list \<Rightarrow> 'a list list" where
  "chunks_exact n xs = map (\<lambda>i. bslice (n * i) (n * i + n) xs) [0..<length xs div n]"

definition chunks_remainder :: "nat \<Rightarrow> 'a list \<Rightarrow> 'a list" where
  "chunks_remainder n xs = drop (n * (length xs div n)) xs"

definition copy_slice :: "nat \<Rightarrow> 'a list \<Rightarrow> 'a list \<Rightarrow> 'a list" where
  "copy_slice at source xs = take at xs @ source @ drop (at + length source) xs"

definition small_sigma0 :: "u32 \<Rightarrow> u32" where
  "small_sigma0 x = xor (xor (word_rotr 7 x) (word_rotr 18 x)) (drop_bit 3 x)"

definition small_sigma1 :: "u32 \<Rightarrow> u32" where
  "small_sigma1 x = xor (xor (word_rotr 17 x) (word_rotr 19 x)) (drop_bit 10 x)"

text \<open>The body of the second loop of \<^verbatim>\<open>compress\<close>, which fills the words 16 to 63.\<close>

definition expand_word :: "nat \<Rightarrow> u32 list \<Rightarrow> u32 list" where
  "expand_word index words =
     words[index := words ! (index - 16) + small_sigma0 (words ! (index - 15))
       + words ! (index - 7) + small_sigma1 (words ! (index - 2))]"

definition message_words :: "bytes \<Rightarrow> u32 list" where
  "message_words block =
     fold expand_word [16..<64]
       (copy_slice 0 (map u32_from_be (chunks_exact 4 block)) (replicate 64 0))"

text \<open>The body of the third loop, on the eight working variables.\<close>

fun sha_round :: "u32 list \<Rightarrow> nat \<Rightarrow> u32 list \<Rightarrow> u32 list" where
  "sha_round words index [a, b, c, d, e, f, g, h] =
     (let sum1 = xor (xor (word_rotr 6 e) (word_rotr 11 e)) (word_rotr 25 e);
          choice = xor (and e f) (and (not e) g);
          temporary1 = h + sum1 + choice + ROUND_CONSTANTS ! index + words ! index;
          sum0 = xor (xor (word_rotr 2 a) (word_rotr 13 a)) (word_rotr 22 a);
          majority = xor (xor (and a b) (and a c)) (and b c);
          temporary2 = sum0 + majority
      in [temporary1 + temporary2, a, b, c, d + temporary1, e, f, g])"
| "sha_round words index vs = vs"

definition compress :: "u32 list \<Rightarrow> bytes \<Rightarrow> u32 list" where
  "compress state block = map2 (+) state (fold (sha_round (message_words block)) [0..<64] state)"

definition sha_tail :: "bytes \<Rightarrow> u64 \<Rightarrow> bytes" where
  "sha_tail rest bit_length =
     (let tail = (copy_slice 0 rest (replicate 128 0))[length rest := 0x80];
          tail_length = (if length rest < 56 then 64 else 128)
      in take tail_length (copy_slice (tail_length - 8) (u64_be bit_length) tail))"

definition len_u64 :: "nat \<Rightarrow> u64" where
  "len_u64 n = (if n < 2 ^ 64 then word_of_nat n else - 1)"

definition digest_software :: "bytes \<Rightarrow> bytes" where
  "digest_software input =
     (let state = foldl compress INITIAL_STATE (chunks_exact 64 input);
          tail = sha_tail (chunks_remainder 64 input) (len_u64 (length input) * 8)
      in concat (map u32_be (foldl compress state (chunks_exact 64 tail))))"

definition digest :: "native \<Rightarrow> bytes \<Rightarrow> bytes" where
  "digest nv input = (case sha256 nv input of Inr d \<Rightarrow> d | Inl _ \<Rightarrow> digest_software input)"

definition HEX :: string where "HEX = ''0123456789abcdef''"

definition hex_of :: "bytes \<Rightarrow> string" where
  "hex_of bs = concat (map (\<lambda>b. [HEX ! unat (drop_bit 4 b), HEX ! unat (and b 0x0f)]) bs)"

definition digest_hex :: "native \<Rightarrow> bytes \<Rightarrow> string" where
  "digest_hex nv input = hex_of (digest nv input)"

section \<open>The standard\<close>

text \<open>
  The digest as the standard writes it, independent of the code: right rotation by shifts, the six logical functions, the
  constants as the first 32 bits of the fractional parts of the square and cube roots of the first primes, the schedule
  as a recurrence over the sixteen words of the block, and the message padded as a whole: a one bit, the
  fewest zeros that fill the last block, and the length in bits.
\<close>

definition rotr_std :: "nat \<Rightarrow> u32 \<Rightarrow> u32" where
  "rotr_std n x = or (drop_bit n x) (push_bit (32 - n) x)"

definition sigma0_std :: "u32 \<Rightarrow> u32" where
  "sigma0_std x = xor (rotr_std 7 x) (xor (rotr_std 18 x) (drop_bit 3 x))"

definition sigma1_std :: "u32 \<Rightarrow> u32" where
  "sigma1_std x = xor (rotr_std 17 x) (xor (rotr_std 19 x) (drop_bit 10 x))"

definition Sigma0_std :: "u32 \<Rightarrow> u32" where
  "Sigma0_std x = xor (rotr_std 2 x) (xor (rotr_std 13 x) (rotr_std 22 x))"

definition Sigma1_std :: "u32 \<Rightarrow> u32" where
  "Sigma1_std x = xor (rotr_std 6 x) (xor (rotr_std 11 x) (rotr_std 25 x))"

definition Ch_std :: "u32 \<Rightarrow> u32 \<Rightarrow> u32 \<Rightarrow> u32" where
  "Ch_std x y z = or (and x y) (and (not x) z)"

definition Maj_std :: "u32 \<Rightarrow> u32 \<Rightarrow> u32 \<Rightarrow> u32" where
  "Maj_std x y z = or (or (and x y) (and x z)) (and y z)"

definition first_primes :: "nat list" where
  "first_primes =
    [2, 3, 5, 7, 11, 13, 17, 19, 23, 29, 31, 37, 41, 43, 47, 53,
     59, 61, 67, 71, 73, 79, 83, 89, 97, 101, 103, 107, 109, 113, 127, 131,
     137, 139, 149, 151, 157, 163, 167, 173, 179, 181, 191, 193, 197, 199, 211, 223,
     227, 229, 233, 239, 241, 251, 257, 263, 269, 271, 277, 281, 283, 293, 307, 311]"

text \<open>The integer part of \<open>2\<^sup>3\<^sup>2\<close> times the \<open>k\<close>-th root of \<open>p\<close>; its low 32 bits are the leading bits of the fractional part.\<close>

definition root_bits :: "nat \<Rightarrow> nat \<Rightarrow> u32" where
  "root_bits k p = word_of_nat (GREATEST n. n ^ k \<le> p * (2 ^ 32) ^ k)"

definition K_std :: "u32 list" where
  "K_std = map (root_bits 3) first_primes"

definition H_std :: "u32 list" where
  "H_std = map (root_bits 2) (take 8 first_primes)"

fun schedule :: "bytes \<Rightarrow> nat \<Rightarrow> u32" where
  "schedule block t =
     (if t < 16 then u32_from_be (bslice (4 * t) (4 * t + 4) block)
      else sigma1_std (schedule block (t - 2)) + schedule block (t - 7)
         + sigma0_std (schedule block (t - 15)) + schedule block (t - 16))"

declare schedule.simps [simp del]

fun round_std :: "(nat \<Rightarrow> u32) \<Rightarrow> nat \<Rightarrow> u32 list \<Rightarrow> u32 list" where
  "round_std W t [a, b, c, d, e, f, g, h] =
     (let T1 = h + Sigma1_std e + Ch_std e f g + K_std ! t + W t; T2 = Sigma0_std a + Maj_std a b c
      in [T1 + T2, a, b, c, d + T1, e, f, g])"
| "round_std W t vs = vs"

definition reference_compress :: "u32 list \<Rightarrow> bytes \<Rightarrow> u32 list" where
  "reference_compress state block = map2 (+) state (fold (round_std (schedule block)) [0..<64] state)"

definition padded :: "bytes \<Rightarrow> bytes" where
  "padded input =
     input @ [0x80] @ replicate ((119 - length input mod 64) mod 64) 0 @ be_enc 8 (8 * length input)"

definition sha256_reference :: "bytes \<Rightarrow> bytes" where
  "sha256_reference input =
     concat (map u32_be (foldl reference_compress H_std (chunks_exact 64 (padded input))))"

section \<open>The implementation computes the standard\<close>

text \<open>The tables of the code are the constants of the standard: certificates bound each root from both sides.\<close>

lemma root_bits_certified:
  assumes "n ^ k \<le> p * (2 ^ 32) ^ k" "p * (2 ^ 32) ^ k < (n + 1) ^ k"
  shows "root_bits k p = word_of_nat n"
proof -
  have "(GREATEST n. n ^ k \<le> p * (2 ^ 32) ^ k) = n"
  proof (rule Greatest_equality, rule assms(1))
    fix m
    assume "m ^ k \<le> p * (2 ^ 32) ^ k"
    with assms(2) have "m ^ k < (n + 1) ^ k" by simp
    then have "m < n + 1" by (rule power_less_imp_less_base) simp
    then show "m \<le> n" by simp
  qed
  then show ?thesis by (simp only: root_bits_def)
qed

definition certified :: "nat \<Rightarrow> nat \<Rightarrow> nat \<Rightarrow> bool" where
  "certified k p n \<longleftrightarrow> n ^ k \<le> p * (2 ^ 32) ^ k \<and> p * (2 ^ 32) ^ k < (n + 1) ^ k"

lemma root_bits_map: "list_all2 (certified k) ps ns \<Longrightarrow> map (root_bits k) ps = map word_of_nat ns"
  by (induction ps ns rule: list_all2_induct) (auto simp: certified_def root_bits_certified)

definition cube_root_floors :: "nat list" where
  "cube_root_floors =
    [5411319704, 6194414737, 7344290767, 8215976869, 9551921755, 10098905585, 11043570340, 11460697813,
     12214315672, 13195500289, 13492127166, 14311783875, 14809980276, 15046980094, 15499789991, 16133124468,
     16720292289, 16907126662, 17444216262, 17784676812, 17950125167, 18429019306, 18734950876, 19175934170,
     19734090066, 20001703533, 20132865992, 20390182855, 20516441075, 20764397895, 21588763473, 21813078375,
     22141143685, 22248366392, 22769593852, 22871018771, 23170020180, 23461497531, 23651862830, 23931792517,
     24205322401, 24295138891, 24734567280, 24820601251, 24990902297, 25075189284, 25569408389, 26045227120,
     26200031510, 26276752392, 26428864332, 26653801653, 26727943347, 27092625994, 27306805839, 27517677555,
     27725365998, 27793908591, 27997534228, 28131656200, 28198240250, 28526537963, 28973835255, 29099129074]"

definition square_root_floors :: "nat list" where
  "square_root_floors =
    [6074000999, 7439101573, 9603838834, 11363415354, 14244795007, 15485724812, 17708603819, 18721328409]"

lemma K_std_eq: "K_std = ROUND_CONSTANTS"
proof -
  have "list_all2 (certified 3) first_primes cube_root_floors"
    by (simp add: first_primes_def cube_root_floors_def certified_def)
  moreover have "map word_of_nat cube_root_floors = ROUND_CONSTANTS"
    by (simp add: cube_root_floors_def ROUND_CONSTANTS_def hx_def)
  ultimately show ?thesis using root_bits_map [of 3 first_primes] by (simp add: K_std_def)
qed

lemma H_std_eq: "H_std = INITIAL_STATE"
proof -
  have "list_all2 (certified 2) (take 8 first_primes) square_root_floors"
    by (simp add: first_primes_def square_root_floors_def certified_def)
  moreover have "map word_of_nat square_root_floors = INITIAL_STATE"
    by (simp add: square_root_floors_def INITIAL_STATE_def hx_def)
  ultimately show ?thesis using root_bits_map [of 2 "take 8 first_primes"] by (simp add: H_std_def)
qed

lemma word_rotr_std: "0 < n \<Longrightarrow> n < 32 \<Longrightarrow> word_rotr n x = rotr_std n x"
proof (rule bit_word_eqI)
  fix i
  assume n: "0 < n" "n < 32" and i: "i < LENGTH(32)"
  show "bit (word_rotr n x) i \<longleftrightarrow> bit (rotr_std n x) i"
  proof (cases "i + n < 32")
    case True
    then have "\<not> 32 - n \<le> i" by simp
    with True show ?thesis using n i by (simp add: rotr_std_def bit_word_rotr_iff bit_or_iff bit_drop_bit_eq bit_push_bit_iff add.commute)
  next
    case False
    then have "(i + n) mod 32 = i - (32 - n)" "32 - n \<le> i" using n i by (simp_all add: mod_if)
    moreover have "\<not> bit x (n + i)" using False bit_imp_le_length [of x "n + i"] by auto
    ultimately show ?thesis using n i by (simp add: rotr_std_def bit_word_rotr_iff bit_or_iff bit_drop_bit_eq bit_push_bit_iff)
  qed
qed

lemma sigmas_std: "small_sigma0 = sigma0_std" "small_sigma1 = sigma1_std"
  by (simp_all add: fun_eq_iff small_sigma0_def small_sigma1_def sigma0_std_def sigma1_std_def word_rotr_std xor.assoc)

lemma choice_std: "xor (and e f) (and (not e) g) = Ch_std e f g"
  by (rule bit_word_eqI) (auto simp: Ch_std_def bit_or_iff bit_and_iff bit_xor_iff bit_not_iff)

lemma majority_std: "xor (xor (and a b) (and a c)) (and b c) = Maj_std a b c"
  by (rule bit_word_eqI) (auto simp: Maj_std_def bit_or_iff bit_and_iff bit_xor_iff)

lemma Sigmas_std:
  "xor (xor (word_rotr 2 x) (word_rotr 13 x)) (word_rotr 22 x) = Sigma0_std x"
  "xor (xor (word_rotr 6 x) (word_rotr 11 x)) (word_rotr 25 x) = Sigma1_std x"
  by (simp_all add: Sigma0_std_def Sigma1_std_def word_rotr_std xor.assoc)

lemma sha_round_std: "words ! t = W t \<Longrightarrow> sha_round words t vs = round_std W t vs"
  by (cases "(W, t, vs)" rule: round_std.cases) (simp_all add: Let_def choice_std majority_std Sigmas_std K_std_eq)

lemma length_expand_word [simp]: "length (expand_word i ws) = length ws"
  by (simp add: expand_word_def)

lemma chunks_exact_nth [simp]:
  "i < length xs div n \<Longrightarrow> chunks_exact n xs ! i = bslice (n * i) (n * i + n) xs"
  "length (chunks_exact n xs) = length xs div n"
  by (simp_all add: chunks_exact_def)

lemma length_chunk: "b \<in> set (chunks_exact n xs) \<Longrightarrow> length b = n"
proof -
  assume "b \<in> set (chunks_exact n xs)"
  then obtain i where i: "i < length xs div n" "b = bslice (n * i) (n * i + n) xs" by (auto simp: chunks_exact_def)
  then have "n * Suc i \<le> n * (length xs div n)" by (intro mult_le_mono2) simp
  also have "\<dots> \<le> length xs" by simp
  finally show ?thesis using i(2) by simp
qed

lemma fold_upt_snoc: "fold f [a..<a + Suc m] s = f (a + m) (fold f [a..<a + m] s)"
  by (simp add: upt_Suc_append)

lemma expand_words:
  assumes "length block = 64"
  shows "m \<le> 48 \<Longrightarrow> length (fold expand_word [16..<16 + m] ws) = length ws"
    and "m \<le> 48 \<Longrightarrow> length ws = 64 \<Longrightarrow> (\<And>t. t < 16 \<Longrightarrow> ws ! t = schedule block t)
      \<Longrightarrow> \<forall>t < 16 + m. fold expand_word [16..<16 + m] ws ! t = schedule block t"
proof -
  show len: "m \<le> 48 \<Longrightarrow> length (fold expand_word [16..<16 + m] ws) = length ws" for m
  proof (induction m)
    case (Suc m)
    then show ?case using fold_upt_snoc [of expand_word 16 m ws] by simp
  qed simp
  show "m \<le> 48 \<Longrightarrow> length ws = 64 \<Longrightarrow> (\<And>t. t < 16 \<Longrightarrow> ws ! t = schedule block t)
      \<Longrightarrow> \<forall>t < 16 + m. fold expand_word [16..<16 + m] ws ! t = schedule block t"
  proof (induction m)
    case (Suc m)
    let ?ws = "fold expand_word [16..<16 + m] ws"
    have l: "length ?ws = 64" using len [of m] Suc.prems by simp
    have IH: "?ws ! t = schedule block t" if "t < 16 + m" for t using Suc that by simp
    have "expand_word (16 + m) ?ws ! t = schedule block t" if t: "t < 16 + Suc m" for t
    proof (cases "t = 16 + m")
      case True
      then show ?thesis using l IH Suc.prems(1)
        by (subst schedule.simps) (simp add: expand_word_def sigmas_std add.commute add.left_commute)
    next
      case False
      with t IH show ?thesis by (simp add: expand_word_def)
    qed
    then show ?case using fold_upt_snoc [of expand_word 16 m ws] by simp
  qed simp
qed

lemma message_words_schedule:
  assumes "length block = 64"
  shows "message_words block = map (schedule block) [0..<64]"
proof -
  let ?ws = "copy_slice 0 (map u32_from_be (chunks_exact 4 block)) (replicate 64 0)"
  have l: "length ?ws = 64" using assms by (simp add: copy_slice_def)
  have s: "?ws ! t = schedule block t" if "t < 16" for t
    using that assms by (subst schedule.simps) (simp add: copy_slice_def nth_append)
  show ?thesis
    using expand_words [OF assms, of 48 ?ws] l s by (intro nth_equalityI) (simp_all add: message_words_def)
qed

lemma compress_reference: "length block = 64 \<Longrightarrow> compress state block = reference_compress state block"
  unfolding compress_def reference_compress_def
  by (rule arg_cong [where f = "map2 (+) state"], rule fold_cong)
    (simp_all add: message_words_schedule sha_round_std fun_eq_iff)

lemma foldl_compress: "(\<And>b. b \<in> set bs \<Longrightarrow> length b = 64) \<Longrightarrow> foldl compress s bs = foldl reference_compress s bs"
  by (induction bs arbitrary: s) (simp_all add: compress_reference)

lemma chunks_exact_append:
  assumes "0 < n" "length xs = n * q"
  shows "chunks_exact n (xs @ ys) = chunks_exact n xs @ chunks_exact n ys"
proof (rule nth_equalityI)
  show "length (chunks_exact n (xs @ ys)) = length (chunks_exact n xs @ chunks_exact n ys)" using assms by simp
  fix i assume "i < length (chunks_exact n (xs @ ys))"
  then have i: "i < q + length ys div n" using assms by simp
  show "chunks_exact n (xs @ ys) ! i = (chunks_exact n xs @ chunks_exact n ys) ! i"
  proof (cases "i < q")
    case True
    then have "n * i + n \<le> n * q" using mult_le_mono2 [of "Suc i" q n] by simp
    with True assms i show ?thesis by (simp add: nth_append)
  next
    case False
    then obtain j where j: "i = q + j" by (metis le_Suc_ex not_less)
    with i assms have "j < length ys div n" by simp
    with j i assms show ?thesis by (simp add: nth_append distrib_left)
  qed
qed

lemma chunks_split: "xs = take (n * (length xs div n)) xs @ chunks_remainder n xs"
  by (simp add: chunks_remainder_def)

lemma sha_tail_padding:
  assumes "length rest < 64"
  shows "sha_tail rest bits = rest @ [0x80] @ replicate ((119 - length rest) mod 64) 0 @ u64_be bits"
proof -
  let ?n = "length rest" and ?tail = "rest @ [0x80] @ replicate (127 - length rest) (0 :: u8)"
  have t: "(copy_slice 0 rest (replicate 128 0))[?n := 0x80] = ?tail"
  proof -
    have "128 - ?n = Suc (127 - ?n)" using assms by simp
    then have "replicate (128 - ?n) (0 :: u8) = 0 # replicate (127 - ?n) 0" by (simp only: replicate_Suc)
    then show ?thesis by (simp add: copy_slice_def)
  qed
  show ?thesis
  proof (cases "?n < 56")
    case True
    have "(119 - ?n) mod 64 = 55 - ?n"
    proof -
      have "119 - ?n = (55 - ?n) + 64" using True by simp
      then have "(119 - ?n) mod 64 = (55 - ?n) mod 64" by (simp only: mod_add_self2)
      then show ?thesis by simp
    qed
    with True show ?thesis unfolding sha_tail_def Let_def t
      by (auto simp: copy_slice_def min_def take_Cons')
  next
    case False
    then have "(119 - ?n) mod 64 = 119 - ?n" using assms by simp
    with False assms show ?thesis unfolding sha_tail_def Let_def t
      by (auto simp: copy_slice_def min_def take_Cons')
  qed
qed

lemma len_u64_bits: "n < 2 ^ 61 \<Longrightarrow> u64_be (len_u64 n * 8) = be_enc 8 (8 * n)"
proof -
  assume n: "n < 2 ^ 61"
  then have "(len_u64 n * 8 :: u64) = word_of_nat (8 * n)" by (simp add: len_u64_def)
  then have "unat (len_u64 n * 8) = 8 * n" using n by (simp only: unat_of_nat) simp
  then show ?thesis by (simp add: u64_be_def)
qed

lemma digest_software_run:
  assumes "length input < 2 ^ 61"
  shows "digest_software input = sha256_reference input"
proof -
  let ?q = "length input div 64"
  define full where "full = take (64 * ?q) input"
  define rest where "rest = chunks_remainder 64 input"
  define tail where "tail = sha_tail rest (len_u64 (length input) * 8)"
  have input: "input = full @ rest" unfolding full_def rest_def by (rule chunks_split)
  have lf: "length full = 64 * ?q" by (simp add: full_def)
  have lr: "length rest = length input mod 64" by (simp add: rest_def chunks_remainder_def minus_mult_div_eq_mod)
  have lt: "length rest < 64" using lr by simp
  have "padded input = full @ rest @ [0x80] @ replicate ((119 - length rest) mod 64) 0 @ be_enc 8 (8 * length input)"
    unfolding padded_def lr using input by (metis append.assoc)
  then have pad: "padded input = full @ tail"
    unfolding tail_def sha_tail_padding [OF lt] len_u64_bits [OF assms] .
  have "chunks_exact 64 (padded input) = chunks_exact 64 full @ chunks_exact 64 tail"
    unfolding pad by (rule chunks_exact_append [OF _ lf]) simp
  moreover have "chunks_exact 64 input = chunks_exact 64 full"
    using chunks_exact_append [OF _ lf, of rest] lr by (subst input) (simp add: chunks_exact_def)
  ultimately show ?thesis
    unfolding digest_software_def sha256_reference_def H_std_eq Let_def rest_def [symmetric] tail_def [symmetric]
    by (simp add: foldl_compress length_chunk)
qed

text \<open>
  Claim C28: the portable SHA-256 is the standard's: for every input whose length in bits fits 64 bits, the loop over whole
  blocks followed by the two-block tail buffer, with the schedule built in an array, gives the digest of the padded
  message. The standard is stated on its own: the code's tables are proved to be the bits of the roots of the first primes.
\<close>

theorem digest_software_standard:
  assumes "length input < 2 ^ 61"
  shows "digest_software input = sha256_reference input"
  by (rule digest_software_run [OF assms])

theorem digest_software_standard_witness:
  "digest_software [0x61, 0x62, 0x63] = sha256_reference [0x61, 0x62, 0x63]"
  by (rule digest_software_standard) simp

text \<open>Digests in hexadecimal are 64 lower-case digits when the digest has 32 bytes.\<close>

lemma length_compress [simp]: "length (fold (sha_round ws) is s) = length s"
proof (induction "is" arbitrary: s)
  case (Cons i "is")
  have "length (sha_round ws i s) = length s" by (cases "(ws, i, s)" rule: sha_round.cases) (simp_all add: Let_def)
  with Cons show ?case by simp
qed simp

lemma length_digest_software [simp]: "length (digest_software input) = 32"
proof -
  have "length s = 8 \<Longrightarrow> length (foldl compress s bs) = 8" for s bs
    by (induction bs arbitrary: s) (simp_all add: compress_def)
  then have "length (foldl compress (foldl compress INITIAL_STATE xs) ys) = 8" for xs ys by (simp add: INITIAL_STATE_def)
  moreover have "length (concat (map u32_be ws)) = 4 * length ws" for ws by (induction ws) simp_all
  ultimately show ?thesis by (simp add: digest_software_def Let_def)
qed

lemma HEX_nth: "n < 16 \<Longrightarrow> HEX ! n \<in> set HEX"
  by (rule nth_mem) (simp add: HEX_def)

lemma set_hex_of: "set (hex_of bs) \<subseteq> set HEX"
proof -
  have "HEX ! unat (drop_bit 4 b) \<in> set HEX" "HEX ! unat (and b 0x0f) \<in> set HEX" for b :: u8
  proof -
    have "unat (drop_bit 4 b) = unat b div 16" by (subst unat_drop_bit_eq) (simp add: drop_bit_eq_div)
    moreover have "unat b < 256" using unsigned_less [of b] by simp
    ultimately show "HEX ! unat (drop_bit 4 b) \<in> set HEX" by (intro HEX_nth) simp
    have "unat (and b 0x0f) \<le> 15" using word_and_le1 [of b "0x0f"] by (simp add: word_le_nat_alt)
    then show "HEX ! unat (and b 0x0f) \<in> set HEX" by (intro HEX_nth) simp
  qed
  then show ?thesis by (auto simp: hex_of_def)
qed

lemma length_hex_of: "length (hex_of bs) = 2 * length bs"
  by (induction bs) (simp_all add: hex_of_def)

end
