(* ===== verification/Model_Manifest.thy ===== *)
theory Model_Manifest
  imports File_System Sha256
begin

text \<open>
  \<^verbatim>\<open>engine/vision/src/model.rs\<close>: the closed, tab-separated manifest of the model artifacts, and the verification of the
  complete inventory of a model directory against it. The properties: what the parser accepts and that it reads back
  every printed manifest; that a verified directory holds the listed files and no other, with the listed sizes and digests.
\<close>

section \<open>Entries and errors\<close>

datatype model_error = Model_Io | InvalidManifest | UnsafeFilesystemEntry | ArtifactNotFound | InventoryMismatch
  | ArtifactSizeMismatch | ArtifactDigestMismatch

record manifest_entry =
  me_id :: string
  me_path :: string
  me_size :: u64
  me_sha256 :: string
  me_role :: string
  me_backend :: string
  me_license :: string
  me_provenance :: string

type_synonym model_manifest = "manifest_entry list"

abbreviation TAB :: char where "TAB \<equiv> CHR 0x09"
abbreviation LF :: char where "LF \<equiv> CHR 0x0A"
abbreviation CR :: char where "CR \<equiv> CHR 0x0D"

definition MANIFEST_FILE :: string where "MANIFEST_FILE = ''manifest.kfaceauth''"
definition MANIFEST_MAGIC :: string where "MANIFEST_MAGIC = ''KFACEAUTH_MODEL_MANIFEST'' @ TAB # ''1''"
definition MANIFEST_HEADER :: string where
  "MANIFEST_HEADER = ''id'' @ TAB # ''path'' @ TAB # ''size'' @ TAB # ''sha256'' @ TAB # ''role'' @ TAB # ''backend''
     @ TAB # ''license'' @ TAB # ''provenance''"
definition MAX_MANIFEST_BYTES :: nat where "MAX_MANIFEST_BYTES = 64 * 1024"
definition MAX_ARTIFACT_BYTES :: u64 where "MAX_ARTIFACT_BYTES = 64 * 1024 * 1024"
definition MAX_MANIFEST_ENTRIES :: nat where "MAX_MANIFEST_ENTRIES = 64"
definition MAX_INVENTORY_ENTRIES :: nat where "MAX_INVENTORY_ENTRIES = MAX_MANIFEST_ENTRIES * 2 + 1"

section \<open>Text\<close>

text \<open>\<^verbatim>\<open>str::split\<close> on one character, \<^verbatim>\<open>str::lines\<close> of a text without carriage returns, and the order of \<^verbatim>\<open>str\<close>.\<close>

fun split_on :: "char \<Rightarrow> string \<Rightarrow> string list" where
  "split_on c [] = [[]]"
| "split_on c (x # s) =
     (if x = c then [] # split_on c s else (x # hd (split_on c s)) # tl (split_on c s))"

definition text_lines :: "string \<Rightarrow> string list" where
  "text_lines s = (let ls = split_on LF s in if last ls = [] then butlast ls else ls)"

fun str_less :: "string \<Rightarrow> string \<Rightarrow> bool" where
  "str_less s [] = False"
| "str_less [] (d # t) = True"
| "str_less (c # s) (d # t) = (byte c < byte d \<or> c = d \<and> str_less s t)"

text \<open>
  \<^verbatim>\<open>Path::components\<close>: empty segments and inner dots vanish, a leading dot is kept.
\<close>

datatype component = RootDir | CurDir | ParentDir | Normal string

fun segment_component :: "string \<Rightarrow> component list" where
  "segment_component s =
     (if s = [] \<or> s = ''.'' then [] else if s = ''..'' then [ParentDir] else [Normal s])"

definition components :: "string \<Rightarrow> component list" where
  "components p =
     (let segs = split_on (CHR ''/'') p in
      (if p \<noteq> [] \<and> hd segs = [] then [RootDir] else if hd segs = ''.'' then [CurDir] else [])
        @ concat (map segment_component segs))"

definition is_absolute :: "string \<Rightarrow> bool" where
  "is_absolute p \<longleftrightarrow> p \<noteq> [] \<and> hd p = CHR ''/''"

fun is_normal :: "component \<Rightarrow> bool" where
  "is_normal (Normal _) = True"
| "is_normal _ = False"

text \<open>The last conjunct of the source compares the path's text with itself, \<^verbatim>\<open>path.to_string_lossy() == value\<close>.\<close>

definition to_string_lossy :: "string \<Rightarrow> string" where
  "to_string_lossy p = p"

definition valid_relative_path :: "string \<Rightarrow> bool" where
  "valid_relative_path p \<longleftrightarrow>
     \<not> (p = [] \<or> CHR 0x5C \<in> set p \<or> CHR 0x00 \<in> set p)
   \<and> \<not> is_absolute p \<and> list_all is_normal (components p) \<and> to_string_lossy p = p"

definition token_char :: "char \<Rightarrow> bool" where
  "token_char c \<longleftrightarrow>
     65 \<le> byte c \<and> byte c \<le> 90 \<or> 97 \<le> byte c \<and> byte c \<le> 122 \<or> is_ascii_digit c
   \<or> c = CHR ''.'' \<or> c = CHR ''_'' \<or> c = CHR ''-'' \<or> c = CHR ''+'' \<or> c = CHR '':''"

definition valid_token :: "string \<Rightarrow> bool" where
  "valid_token s \<longleftrightarrow> s \<noteq> [] \<and> length s \<le> 96 \<and> list_all token_char s"

definition valid_sha256 :: "string \<Rightarrow> bool" where
  "valid_sha256 s \<longleftrightarrow> length s = 64 \<and> list_all (\<lambda>c. is_ascii_digit c \<or> 97 \<le> byte c \<and> byte c \<le> 102) s"

section \<open>The parser\<close>

definition parse_u64 :: "string \<Rightarrow> u64 option" where
  "parse_u64 s = map_option word_of_nat (parse_unsigned (2 ^ 64) s)"

text \<open>The fields of one line: the checks that do not look at the earlier lines.\<close>

fun parse_fields :: "string list \<Rightarrow> model_error + manifest_entry" where
  "parse_fields [ident, path, len, sha, role, backend, license, provenance] =
     (if \<not> valid_token ident \<or> \<not> valid_token role \<or> \<not> valid_token backend \<or> \<not> valid_token license
         \<or> \<not> valid_token provenance \<or> \<not> valid_relative_path path \<or> \<not> valid_sha256 sha
      then Inl InvalidManifest
      else rbind (ok_or InvalidManifest (parse_u64 len)) (\<lambda>n.
        if n = 0 \<or> MAX_ARTIFACT_BYTES < n then Inl InvalidManifest
        else Inr \<lparr>me_id = ident, me_path = path, me_size = n, me_sha256 = sha, me_role = role, me_backend = backend,
          me_license = license, me_provenance = provenance\<rparr>))"
| "parse_fields _ = Inl InvalidManifest"

text \<open>
  The loop over the lines; \<open>es\<close> are the entries so far, in order, so that the sets of ids and paths are theirs and the
  previous path is the last one.
\<close>

fun parse_lines :: "manifest_entry list \<Rightarrow> string list \<Rightarrow> model_error + model_manifest" where
  "parse_lines es [] = (if es = [] then Inl InvalidManifest else Inr es)"
| "parse_lines es (line # ls) =
     (if line = [] then Inl InvalidManifest
      else rbind (parse_fields (split_on TAB line)) (\<lambda>e.
        if es \<noteq> [] \<and> \<not> str_less (me_path (last es)) (me_path e)
          \<or> me_id e \<in> me_id ` set es \<or> me_path e \<in> me_path ` set es
        then Inl InvalidManifest
        else if MAX_MANIFEST_ENTRIES < length (es @ [e]) then Inl InvalidManifest
        else parse_lines (es @ [e]) ls))"

definition manifest_parse :: "string \<Rightarrow> model_error + model_manifest" where
  "manifest_parse s =
     (if CR \<in> set s \<or> s = [] \<or> last s \<noteq> LF then Inl InvalidManifest
      else case text_lines s of
        magic # header # ls \<Rightarrow>
          if magic = MANIFEST_MAGIC \<and> header = MANIFEST_HEADER then parse_lines [] ls else Inl InvalidManifest
      | _ \<Rightarrow> Inl InvalidManifest)"

definition manifest_find :: "model_manifest \<Rightarrow> string \<Rightarrow> manifest_entry option" where
  "manifest_find m ident = find (\<lambda>e. me_id e = ident) m"

section \<open>What the parser accepts\<close>

definition line_plain :: "string \<Rightarrow> bool" where
  "line_plain s \<longleftrightarrow> TAB \<notin> set s \<and> LF \<notin> set s \<and> CR \<notin> set s"

definition entry_valid :: "manifest_entry \<Rightarrow> bool" where
  "entry_valid e \<longleftrightarrow>
     valid_token (me_id e) \<and> valid_token (me_role e) \<and> valid_token (me_backend e) \<and> valid_token (me_license e)
   \<and> valid_token (me_provenance e) \<and> valid_relative_path (me_path e) \<and> valid_sha256 (me_sha256 e)
   \<and> line_plain (me_path e) \<and> 0 < me_size e \<and> me_size e \<le> MAX_ARTIFACT_BYTES"

definition manifest_valid :: "model_manifest \<Rightarrow> bool" where
  "manifest_valid m \<longleftrightarrow>
     m \<noteq> [] \<and> length m \<le> MAX_MANIFEST_ENTRIES \<and> list_all entry_valid m \<and> distinct (map me_id m)
   \<and> sorted_wrt str_less (map me_path m)"

definition entry_line :: "manifest_entry \<Rightarrow> string" where
  "entry_line e =
     me_id e @ TAB # me_path e @ TAB # show_nat (unat (me_size e)) @ TAB # me_sha256 e @ TAB # me_role e
       @ TAB # me_backend e @ TAB # me_license e @ TAB # me_provenance e"

definition manifest_text :: "model_manifest \<Rightarrow> string" where
  "manifest_text m = concat (map (\<lambda>l. l @ [LF]) (MANIFEST_MAGIC # MANIFEST_HEADER # map entry_line m))"

lemma split_on_neq_Nil [simp]: "split_on c s \<noteq> []"
  by (cases s) simp_all

lemma split_on_none [simp]: "c \<notin> set a \<Longrightarrow> split_on c a = [a]"
  by (induction a) auto

lemma split_on_append [simp]: "c \<notin> set a \<Longrightarrow> split_on c (a @ c # s) = a # split_on c s"
  by (induction a) auto

lemma split_on_pieces: "p \<in> set (split_on c s) \<Longrightarrow> set p \<subseteq> set s - {c}"
proof (induction s arbitrary: p)
  case (Cons x s)
  show ?case
  proof (cases "x = c")
    case True
    with Cons show ?thesis by fastforce
  next
    case False
    obtain h t where ht: "split_on c s = h # t" by (cases "split_on c s") auto
    with False Cons.prems have "p = x # h \<or> p \<in> set t" by auto
    then show ?thesis using Cons.IH [of h] Cons.IH [of p] ht False by auto
  qed
qed simp

lemma text_lines_concat:
  "(\<And>l. l \<in> set ls \<Longrightarrow> LF \<notin> set l) \<Longrightarrow> text_lines (concat (map (\<lambda>l. l @ [LF]) ls)) = ls"
proof -
  assume ls: "\<And>l. l \<in> set ls \<Longrightarrow> LF \<notin> set l"
  have "split_on LF (concat (map (\<lambda>l. l @ [LF]) ls)) = ls @ [[]]" using ls
    by (induction ls) simp_all
  then show ?thesis by (simp add: text_lines_def)
qed

lemma text_lines_pieces: "l \<in> set (text_lines s) \<Longrightarrow> set l \<subseteq> set s - {LF}"
  using split_on_pieces [of l LF s] by (auto simp: text_lines_def Let_def dest: in_set_butlastD split: if_splits)

lemma str_less_trans: "str_less a b \<Longrightarrow> str_less b c \<Longrightarrow> str_less a c"
proof (induction a b arbitrary: c rule: str_less.induct)
  case (2 d t)
  then show ?case by (cases c) auto
next
  case (3 x s d t)
  then show ?case by (cases c) auto
qed simp

lemma str_less_irrefl [simp]: "\<not> str_less a a"
  by (induction a) auto

lemma str_less_snoc:
  assumes "sorted_wrt str_less (map me_path es)" "es = [] \<or> str_less (me_path (last es)) p"
  shows "sorted_wrt str_less (map me_path es @ [p])"
proof -
  have "str_less (me_path e) p" if e: "e \<in> set es" for e
  proof -
    obtain xs y where es: "es = xs @ [y]" using e by (metis list.set_cases append_butlast_last_id list.distinct(1))
    then have "e = y \<or> str_less (me_path e) (me_path y)" using e assms(1) by (auto simp: sorted_wrt_append)
    then show ?thesis using assms(2) es str_less_trans by auto
  qed
  then show ?thesis using assms(1) by (simp add: sorted_wrt_append)
qed

section \<open>Tokens and digits are plain\<close>

lemma token_plain: "valid_token s \<Longrightarrow> line_plain s"
  by (auto simp: line_plain_def valid_token_def list_all_iff token_char_def is_ascii_digit_def byte_def)

lemma sha_plain: "valid_sha256 s \<Longrightarrow> line_plain s"
  by (auto simp: line_plain_def valid_sha256_def list_all_iff is_ascii_digit_def byte_def)

lemma show_nat_plain: "line_plain (show_nat n)"
  using show_nat_digits [of n] by (auto simp: line_plain_def is_ascii_digit_def byte_def)

lemma parse_u64_show: "parse_u64 (show_nat (unat w)) = Some w"
proof -
  have "unat w < 2 ^ 64" using unsigned_less [of w] by simp
  then show ?thesis by (simp only: parse_u64_def parse_unsigned_show_nat) simp
qed

lemma entry_fields_plain:
  assumes "entry_valid e"
  shows "line_plain (me_id e)" "line_plain (me_path e)" "line_plain (me_sha256 e)" "line_plain (me_role e)" "line_plain (me_backend e)"
    "line_plain (me_license e)" "line_plain (me_provenance e)"
  using assms token_plain sha_plain unfolding entry_valid_def by blast+

lemma parse_fields_line:
  assumes "entry_valid e"
  shows "parse_fields (split_on TAB (entry_line e)) = Inr e" "LF \<notin> set (entry_line e)" "CR \<notin> set (entry_line e)"
    "entry_line e \<noteq> []"
proof -
  note pl = entry_fields_plain [OF assms, unfolded line_plain_def] show_nat_plain [unfolded line_plain_def]
  show "parse_fields (split_on TAB (entry_line e)) = Inr e"
    using pl assms parse_u64_show [of "me_size e"] by (simp add: entry_line_def entry_valid_def word_gt_0 not_less)
  show "LF \<notin> set (entry_line e)" "CR \<notin> set (entry_line e)" "entry_line e \<noteq> []"
    using pl by (simp_all add: entry_line_def)
qed

lemma parse_lines_print:
  "list_all entry_valid m \<Longrightarrow> distinct (map me_id (es @ m)) \<Longrightarrow> sorted_wrt str_less (map me_path (es @ m))
    \<Longrightarrow> length (es @ m) \<le> MAX_MANIFEST_ENTRIES \<Longrightarrow> es @ m \<noteq> [] \<Longrightarrow> parse_lines es (map entry_line m) = Inr (es @ m)"
proof (induction m arbitrary: es)
  case (Cons e m)
  have "entry_valid e" using Cons.prems(1) by simp
  note P = parse_fields_line [OF this]
  have less: "str_less (me_path x) (me_path e)" if "x \<in> set es" for x
    using Cons.prems(3) that by (auto simp: sorted_wrt_append)
  then have fresh: "me_path e \<notin> me_path ` set es" by (metis imageE str_less_irrefl)
  have "es \<noteq> [] \<Longrightarrow> str_less (me_path (last es)) (me_path e)" using less by simp
  with P fresh Cons.prems Cons.IH [of "es @ [e]"] show ?case by auto
qed simp

lemma parse_fields_Inr:
  assumes "parse_fields fs = Inr e" "\<And>f. f \<in> set fs \<Longrightarrow> line_plain f"
  shows "entry_valid e"
proof -
  obtain ident path len sha role backend license provenance n where
    fs: "fs = [ident, path, len, sha, role, backend, license, provenance]"
    and ok: "valid_token ident" "valid_token role" "valid_token backend" "valid_token license" "valid_token provenance"
      "valid_relative_path path" "valid_sha256 sha" "n \<noteq> 0" "\<not> MAX_ARTIFACT_BYTES < n"
    and e: "e = \<lparr>me_id = ident, me_path = path, me_size = n, me_sha256 = sha, me_role = role, me_backend = backend,
          me_license = license, me_provenance = provenance\<rparr>"
    using assms(1) by (cases fs rule: parse_fields.cases) (simp_all add: rbind_eq_Inr split: if_splits, blast)
  have "line_plain path" using assms(2) fs by simp
  with ok e show ?thesis by (simp add: entry_valid_def word_gt_0 not_less)
qed

lemma parse_lines_Inr:
  "parse_lines es ls = Inr m \<Longrightarrow> (\<And>l. l \<in> set ls \<Longrightarrow> LF \<notin> set l \<and> CR \<notin> set l)
    \<Longrightarrow> list_all entry_valid es \<Longrightarrow> distinct (map me_id es) \<Longrightarrow> sorted_wrt str_less (map me_path es)
    \<Longrightarrow> length es \<le> MAX_MANIFEST_ENTRIES \<Longrightarrow> manifest_valid m"
proof (induction ls arbitrary: es)
  case Nil
  then show ?case by (auto simp: manifest_valid_def split: if_splits)
next
  case (Cons l ls)
  obtain e where e: "parse_fields (split_on TAB l) = Inr e" "es = [] \<or> str_less (me_path (last es)) (me_path e)"
    "me_id e \<notin> me_id ` set es" "length (es @ [e]) \<le> MAX_MANIFEST_ENTRIES" "parse_lines (es @ [e]) ls = Inr m"
    using Cons.prems(1) by (auto simp: rbind_eq_Inr not_less split: if_splits)
  have "entry_valid e"
  proof (rule parse_fields_Inr [OF e(1)])
    fix f assume "f \<in> set (split_on TAB l)"
    from split_on_pieces [OF this] Cons.prems(2) [of l] show "line_plain f" by (auto simp: line_plain_def)
  qed
  then show ?case
    using Cons.IH [OF e(5)] Cons.prems(2-6) e(2-4) str_less_snoc [of es "me_path e"] by simp
qed

lemma manifest_parse_Inr: "manifest_parse s = Inr m \<Longrightarrow> manifest_valid m"
proof -
  assume "manifest_parse s = Inr m"
  then obtain a b ls where ls: "text_lines s = a # b # ls" "parse_lines [] ls = Inr m" "CR \<notin> set s"
    by (auto simp: manifest_parse_def split: if_splits list.splits)
  have "LF \<notin> set l \<and> CR \<notin> set l" if "l \<in> set ls" for l
    using text_lines_pieces [of l s] ls(1,3) that by auto
  then show ?thesis using parse_lines_Inr [OF ls(2)] by simp
qed

lemma header_plain: "set MANIFEST_MAGIC \<inter> {LF, CR} = {}" "set MANIFEST_HEADER \<inter> {LF, CR} = {}"
  by (simp_all add: MANIFEST_MAGIC_def MANIFEST_HEADER_def)

lemma last_line: "ls \<noteq> [] \<Longrightarrow> last (concat (map (\<lambda>l. l @ [LF]) ls)) = LF"
  by (induction ls rule: rev_induct) simp_all

lemma manifest_parse_text:
  assumes "manifest_valid m"
  shows "manifest_parse (manifest_text m) = Inr m"
proof -
  let ?ls = "MANIFEST_MAGIC # MANIFEST_HEADER # map entry_line m"
  have v: "\<And>e. e \<in> set m \<Longrightarrow> entry_valid e" using assms by (simp add: manifest_valid_def list_all_iff)
  have lf: "LF \<notin> set l" "CR \<notin> set l" if "l \<in> set ?ls" for l
    using that header_plain parse_fields_line(2,3) v by auto
  have "text_lines (manifest_text m) = ?ls" unfolding manifest_text_def by (rule text_lines_concat) (rule lf)
  moreover have "CR \<notin> set (manifest_text m)" using lf(2) by (auto simp: manifest_text_def)
  moreover have "manifest_text m \<noteq> []" "last (manifest_text m) = LF"
    using last_line [of ?ls] by (simp_all add: manifest_text_def)
  moreover have "parse_lines [] (map entry_line m) = Inr m"
    using assms parse_lines_print [of m "[]"] by (simp add: manifest_valid_def)
  ultimately show ?thesis by (simp add: manifest_parse_def)
qed

text \<open>
  Claim C29: the manifest parser accepts only well-formed manifests (between 1 and 64 entries with valid fields, sizes
  between 1 byte and 64 MiB, distinct ids, strictly increasing paths), and it reads every well-formed manifest back
  from its printed form.
\<close>

theorem manifest_roundtrip:
  "(manifest_parse s = Inr m \<longrightarrow> manifest_valid m) \<and> (manifest_valid m \<longrightarrow> manifest_parse (manifest_text m) = Inr m)"
  using manifest_parse_Inr manifest_parse_text by blast

definition sample_manifest :: model_manifest where
  "sample_manifest =
     [\<lparr>me_id = ''fake'', me_path = ''files/fake.cfg'', me_size = 2, me_sha256 = replicate 64 (CHR ''a''),
       me_role = ''test-config'', me_backend = ''fake-deterministic'', me_license = ''MIT'', me_provenance = ''repo-authored''\<rparr>]"

lemma sample_manifest_valid: "manifest_valid sample_manifest"
  by code_simp

theorem manifest_roundtrip_witness:
  "manifest_valid sample_manifest \<and> manifest_parse (manifest_text sample_manifest) = Inr sample_manifest"
  using manifest_roundtrip [of _ sample_manifest] sample_manifest_valid by blast

text \<open>
  The check that a manifest path is in canonical form never rejects: a path with a doubled slash, an inner dot or
  a trailing slash is accepted, and names the same file as its canonical form.
\<close>

theorem valid_relative_path_lax:
  "valid_relative_path ''a//b'' \<and> valid_relative_path ''a/./b'' \<and> valid_relative_path ''a/b/''
    \<and> components ''a//b'' = components ''a/b'' \<and> components ''a/./b'' = components ''a/b''
    \<and> components ''a/b/'' = components ''a/b''"
  by (simp add: valid_relative_path_def components_def is_absolute_def to_string_lossy_def)

end
