(* ===== verification/Model_Inventory.thy ===== *)
theory Model_Inventory
  imports Model_Manifest
begin

text \<open>
  The second half of \<^verbatim>\<open>engine/vision/src/model.rs\<close>: loading the manifest and verifying the complete inventory of a model
  directory against it. The order in which a directory is enumerated is the system's: it is the parameter \<open>listing\<close>, and
  \<open>listing_exact\<close> says that it names the entries of a directory, each once. The property is that a verified directory holds
  the listed files and nothing else, with the listed sizes and digests; the walk ends because its entries are counted.
\<close>

section \<open>Directories\<close>

type_synonym listing = "string \<Rightarrow> string list"

definition plain_name :: "string \<Rightarrow> bool" where
  "plain_name n \<longleftrightarrow> n \<noteq> [] \<and> n \<noteq> ''.'' \<and> n \<noteq> ''..'' \<and> CHR ''/'' \<notin> set n"

definition listing_exact :: "listing \<Rightarrow> world \<Rightarrow> bool" where
  "listing_exact ls w \<longleftrightarrow>
     (\<forall>d. map_option i_kind (nodes w d) = Some Directory \<longrightarrow>
        distinct (ls d) \<and> set (ls d) = {n. plain_name n \<and> nodes w (join d n) \<noteq> None})"

definition read_dir :: "listing \<Rightarrow> string \<Rightarrow> (io_kind, string list) io" where
  "read_dir ls d = sys (\<lambda>w.
     (case nodes w d of
        None \<Rightarrow> Inl NotFound
      | Some i \<Rightarrow> if i_kind i = Directory then Inr (ls d) else Inl OtherIo, w))"

text \<open>Fetching the next entry of an open directory may fail as any call.\<close>

definition next_entry :: "string \<Rightarrow> (io_kind, string) io" where
  "next_entry n = sys (\<lambda>w. (Inr n, w))"

abbreviation model_io :: "(io_kind, 'a) io \<Rightarrow> (model_error, 'a) io" where
  "model_io \<equiv> wmap_err (\<lambda>_. Model_Io)"

definition require_directory :: "string \<Rightarrow> (model_error, unit) io" where
  "require_directory p =
     wbind (model_io (symlink_metadata p)) (\<lambda>m.
     if md_kind m \<noteq> Directory \<or> is_symlink m then wfail UnsafeFilesystemEntry else wreturn ())"

section \<open>Loading the manifest\<close>

definition load_manifest :: "string \<Rightarrow> (model_error, model_manifest) io" where
  "load_manifest dir =
     wbind (require_directory dir) (\<lambda>_.
     wbind (model_io (symlink_metadata (join dir MANIFEST_FILE))) (\<lambda>m.
     if md_kind m \<noteq> Regular \<or> is_symlink m then wfail UnsafeFilesystemEntry
     else if md_len m = 0 \<or> MAX_MANIFEST_BYTES < md_len m then wfail InvalidManifest
     else
       wbind (model_io (open_path (join dir MANIFEST_FILE))) (\<lambda>_.
       wbind (model_io (read_limited (join dir MANIFEST_FILE) (MAX_MANIFEST_BYTES + 1))) (\<lambda>bs.
       if length bs \<noteq> md_len m then wfail InvalidManifest
       else if \<not> utf8_valid (map unat bs) then wfail InvalidManifest
       else wlift (manifest_parse (bytes_text bs))))))"

section \<open>One artifact\<close>

record verified_artifact =
  va_entry :: manifest_entry
  va_bytes :: bytes

fun segment_of :: "component \<Rightarrow> string" where
  "segment_of (Normal s) = s"
| "segment_of _ = []"

text \<open>The file that \<^verbatim>\<open>root.join(path)\<close> names, and whether the path insists on a directory by ending in a slash or a dot.\<close>

definition resolve :: "string \<Rightarrow> string \<Rightarrow> string" where
  "resolve dir p = foldl join dir (map segment_of (components p))"

definition names_directory :: "string \<Rightarrow> bool" where
  "names_directory p \<longleftrightarrow> last (split_on (CHR ''/'') p) \<in> {[], ''.''}"

definition artifact_metadata :: "string \<Rightarrow> string \<Rightarrow> (io_kind, metadata) io" where
  "artifact_metadata dir p =
     wbind (symlink_metadata (resolve dir p)) (\<lambda>m.
     if names_directory p \<and> md_kind m \<noteq> Directory then wfail OtherIo else wreturn m)"

fun reject_symlink_components :: "string \<Rightarrow> component list \<Rightarrow> (model_error, unit) io" where
  "reject_symlink_components current [] = wreturn ()"
| "reject_symlink_components current (Normal s # cs) =
     wbind (model_io (symlink_metadata (join current s))) (\<lambda>m.
     if is_symlink m then wfail UnsafeFilesystemEntry else reject_symlink_components (join current s) cs)"
| "reject_symlink_components current (_ # cs) = wfail InvalidManifest"

definition load_verified_entry :: "native \<Rightarrow> string \<Rightarrow> manifest_entry \<Rightarrow> (model_error, verified_artifact) io" where
  "load_verified_entry nv dir e =
     wbind (reject_symlink_components dir (components (me_path e))) (\<lambda>_.
     wbind (model_io (artifact_metadata dir (me_path e))) (\<lambda>m.
     if md_kind m \<noteq> Regular \<or> is_symlink m then wfail UnsafeFilesystemEntry
     else if md_len m \<noteq> unat (me_size e) then wfail ArtifactSizeMismatch
     else
       wbind (model_io (open_path (resolve dir (me_path e)))) (\<lambda>_.
       wbind (model_io (read_limited (resolve dir (me_path e)) (unat (me_size e) + 1))) (\<lambda>bs.
       if length bs \<noteq> unat (me_size e) then wfail ArtifactSizeMismatch
       else if digest_hex nv bs \<noteq> me_sha256 e then wfail ArtifactDigestMismatch
       else wreturn \<lparr>va_entry = e, va_bytes = bs\<rparr>))))"

definition load_verified_artifact :: "native \<Rightarrow> string \<Rightarrow> string \<Rightarrow> (model_error, verified_artifact) io" where
  "load_verified_artifact nv dir ident =
     wbind (load_manifest dir) (\<lambda>m.
     wbind (wlift (ok_or ArtifactNotFound (manifest_find m ident))) (load_verified_entry nv dir))"

section \<open>The inventory\<close>

text \<open>\<^verbatim>\<open>Path::strip_prefix\<close> for a prefix that does not end in a slash.\<close>

definition strip_prefix :: "string \<Rightarrow> string \<Rightarrow> string option" where
  "strip_prefix dir p =
     (if take (length dir + 1) p = dir @ ''/'' then Some (drop (length dir + 1) p) else None)"

text \<open>
  One pass over the entries of a directory, with the count of entries, the stack of directories and the files so far.
\<close>

fun scan_entries ::
    "string \<Rightarrow> string \<Rightarrow> string list \<Rightarrow> nat \<Rightarrow> string list \<Rightarrow> string list
      \<Rightarrow> (model_error, nat \<times> string list \<times> string list) io" where
  "scan_entries dir d [] count dirs files = wreturn (count, dirs, files)"
| "scan_entries dir d (n # ns) count dirs files =
     wbind (model_io (next_entry n)) (\<lambda>_.
     if MAX_INVENTORY_ENTRIES < count + 1 then wfail InventoryMismatch
     else
       wbind (model_io (symlink_metadata (join d n))) (\<lambda>m.
       if is_symlink m then wfail UnsafeFilesystemEntry
       else if md_kind m = Directory then scan_entries dir d ns (count + 1) (join d n # dirs) files
       else if md_kind m = Regular then
         wbind (wlift (ok_or UnsafeFilesystemEntry (strip_prefix dir (join d n)))) (\<lambda>relative.
         if components relative \<in> set (map components files) then wfail InventoryMismatch
         else scan_entries dir d ns (count + 1) dirs (files @ [relative]))
       else wfail UnsafeFilesystemEntry))"

definition scan_directory ::
    "listing \<Rightarrow> string \<Rightarrow> string \<Rightarrow> nat \<Rightarrow> string list \<Rightarrow> string list \<Rightarrow> (model_error, nat \<times> string list \<times> string list) io" where
  "scan_directory ls dir d count dirs files =
     wbind (model_io (read_dir ls d)) (\<lambda>names. scan_entries dir d names count dirs files)"

lemma scan_entries_bound:
  "scan_entries dir d ns count dirs files w = (Inr (count', dirs', files'), w')
    \<Longrightarrow> count' = count + length ns \<and> length dirs' \<le> length dirs + length ns \<and> (ns = [] \<or> count' \<le> MAX_INVENTORY_ENTRIES)"
proof (induction ns arbitrary: count dirs files w)
  case Nil
  then show ?case by (simp add: wreturn_def)
next
  case (Cons n ns)
  from Cons.prems have "count + 1 \<le> MAX_INVENTORY_ENTRIES"
    "\<exists>ds fs v. scan_entries dir d ns (count + 1) ds fs v = (Inr (count', dirs', files'), w') \<and> length ds \<le> length dirs + 1"
    by (auto simp: io_success split: if_splits) fastforce+
  with Cons.IH show ?case by fastforce
qed

lemma scan_directory_bound:
  assumes "scan_directory ls dir d count dirs files w = (Inr (count', dirs', files'), w')"
  shows "(MAX_INVENTORY_ENTRIES - count') + length dirs' \<le> (MAX_INVENTORY_ENTRIES - count) + length dirs"
proof -
  obtain ns v where "scan_entries dir d ns count dirs files v = (Inr (count', dirs', files'), w')"
    using assms by (auto simp: scan_directory_def io_success)
  from scan_entries_bound [OF this] show ?thesis by auto
qed

function inventory_loop ::
    "listing \<Rightarrow> string \<Rightarrow> nat \<Rightarrow> string list \<Rightarrow> string list \<Rightarrow> world \<Rightarrow> (model_error + string list) \<times> world" where
  "inventory_loop ls dir count [] files w = (Inr files, w)"
| "inventory_loop ls dir count (d # dirs) files w =
     (case scan_directory ls dir d count dirs files w of
        (Inl e, w') \<Rightarrow> (Inl e, w')
      | (Inr (count', dirs', files'), w') \<Rightarrow> inventory_loop ls dir count' dirs' files' w')"
  by pat_completeness auto
termination
  by (relation "measure (\<lambda>(_, _, count, dirs, _, _). (MAX_INVENTORY_ENTRIES - count) + length dirs)")
    (auto dest!: scan_directory_bound [OF sym])

definition regular_files :: "listing \<Rightarrow> string \<Rightarrow> (model_error, string list) io" where
  "regular_files ls dir = wbind (require_directory dir) (\<lambda>_. inventory_loop ls dir 0 [dir] [])"

fun load_entries :: "native \<Rightarrow> string \<Rightarrow> manifest_entry list \<Rightarrow> (model_error, verified_artifact list) io" where
  "load_entries nv dir [] = wreturn []"
| "load_entries nv dir (e # es) =
     wbind (load_verified_entry nv dir e) (\<lambda>a.
     wbind (load_entries nv dir es) (\<lambda>as. wreturn (a # as)))"

definition load_and_verify_model_inventory ::
    "native \<Rightarrow> listing \<Rightarrow> string \<Rightarrow> (model_error, model_manifest \<times> verified_artifact list) io" where
  "load_and_verify_model_inventory nv ls dir =
     wbind (load_manifest dir) (\<lambda>m.
     wbind (regular_files ls dir) (\<lambda>files.
     let present = set (map components files) - {components MANIFEST_FILE} in
     if present \<noteq> set (map (\<lambda>e. components (me_path e)) m) then wfail InventoryMismatch
     else wbind (load_entries nv dir m) (\<lambda>as. wreturn (m, as))))"

definition verify_model_root :: "native \<Rightarrow> listing \<Rightarrow> string \<Rightarrow> (model_error, model_manifest) io" where
  "verify_model_root nv ls dir =
     wbind (load_and_verify_model_inventory nv ls dir) (\<lambda>(m, _). wreturn m)"

section \<open>A verified directory is closed\<close>

lemma keeps_inventory_calls [keeps_rules]:
  "keeps P (read_dir ls d)" "keeps P (next_entry n)" "keeps P (require_directory p)" "keeps P (artifact_metadata dir p)"
  by (auto simp: read_dir_def next_entry_def require_directory_def artifact_metadata_def intro!: keeps_rules keeps_sys)

lemma keeps_reject_symlink_components [keeps_rules]: "keeps P (reject_symlink_components current cs)"
proof (induction cs arbitrary: current)
  case (Cons c cs)
  then show ?case by (cases c) (simp_all add: keeps_rules)
qed (simp add: keeps_rules)

lemma keeps_load_verified_entry [keeps_rules]: "keeps P (load_verified_entry nv dir e)"
  unfolding load_verified_entry_def by (intro keeps_rules)

lemma keeps_load_manifest [keeps_rules]: "keeps P (load_manifest dir)"
  unfolding load_manifest_def by (intro keeps_rules)

lemma keeps_scan_entries [keeps_rules]: "keeps P (scan_entries dir d ns count dirs files)"
proof (induction ns arbitrary: count dirs files)
  case (Cons n ns)
  show ?case unfolding scan_entries.simps by (intro keeps_rules Cons.IH)
qed (simp add: keeps_rules)

lemma keeps_scan_directory [keeps_rules]: "keeps P (scan_directory ls dir d count dirs files)"
  unfolding scan_directory_def by (intro keeps_rules)

lemma keeps_load_entries [keeps_rules]: "keeps P (load_entries nv dir es)"
  by (induction es) (simp_all add: keeps_rules)

lemma keeps_nodes: "keeps UNIV m \<Longrightarrow> m w = (r, w') \<Longrightarrow> nodes w' = nodes w"
  using keeps_all_nodes [of m w] by simp

lemma inventory_loop_nodes: "inventory_loop ls dir count dirs files w = (r, w') \<Longrightarrow> nodes w' = nodes w"
proof (induction ls dir count dirs files w rule: inventory_loop.induct)
  case (2 ls dir count d dirs files w)
  obtain x v where x: "scan_directory ls dir d count dirs files w = (x, v)" by fastforce
  have v: "nodes v = nodes w" by (rule keeps_nodes [OF keeps_scan_directory x])
  show ?case
  proof (cases x)
    case (Inl e)
    with 2 x v show ?thesis by simp
  next
    case (Inr y)
    with 2 x v show ?thesis by (cases y) auto
  qed
qed simp

lemma regular_files_nodes: "regular_files ls dir w = (r, w') \<Longrightarrow> nodes w' = nodes w"
proof -
  assume a: "regular_files ls dir w = (r, w')"
  obtain x v where x: "require_directory dir w = (x, v)" by fastforce
  have "nodes v = nodes w" by (rule keeps_nodes [OF keeps_inventory_calls(3) x])
  with a x show ?thesis by (cases x) (auto simp: regular_files_def wbind_def dest: inventory_loop_nodes simp del: inventory_loop.simps)
qed

text \<open>What one entry of a scanned directory turned into.\<close>

definition entry_seen :: "world \<Rightarrow> string \<Rightarrow> string \<Rightarrow> string list \<Rightarrow> string list \<Rightarrow> bool" where
  "entry_seen w dir p dirs files \<longleftrightarrow>
     (\<exists>i. nodes w p = Some i \<and> (i_kind i = Directory \<and> p \<in> set dirs
        \<or> i_kind i = Regular \<and> (\<exists>r \<in> set files. strip_prefix dir p = Some r)))"

lemma scan_entries_seen:
  "scan_entries dir d ns count dirs files w = (Inr (count', dirs', files'), w')
    \<Longrightarrow> set dirs \<subseteq> set dirs' \<and> set files \<subseteq> set files' \<and> (\<forall>n \<in> set ns. entry_seen w dir (join d n) dirs' files')
      \<and> (\<forall>p \<in> set dirs' - set dirs. map_option i_kind (nodes w p) = Some Directory)"
proof (induction ns arbitrary: count dirs files w)
  case Nil
  then show ?case by (simp add: wreturn_def)
next
  case (Cons n ns)
  obtain v1 m v2 where v: "next_entry n w = (Inr n, v1)" "symlink_metadata (join d n) v1 = (Inr m, v2)"
    and alt: "md_kind m = Directory \<and> scan_entries dir d ns (count + 1) (join d n # dirs) files v2 = (Inr (count', dirs', files'), w')
      \<or> md_kind m = Regular \<and> (\<exists>r. strip_prefix dir (join d n) = Some r
          \<and> scan_entries dir d ns (count + 1) dirs (files @ [r]) v2 = (Inr (count', dirs', files'), w'))"
    using Cons.prems
    by (auto simp: io_success ok_or_eq_Inr next_entry_def dest!: sys_Inr split: if_splits)
  have nv: "nodes v1 = nodes w" "nodes v2 = nodes w"
    using keeps_nodes [OF keeps_inventory_calls(2) v(1)] keeps_nodes [OF keeps_queries(1) v(2)] by simp_all
  obtain i where i: "nodes w (join d n) = Some i" "m = stat i" using metadata_Inr(1) [OF v(2)] nv by auto
  from alt show ?case
  proof (elim disjE conjE exE)
    assume k: "md_kind m = Directory"
      and s: "scan_entries dir d ns (count + 1) (join d n # dirs) files v2 = (Inr (count', dirs', files'), w')"
    from Cons.IH [OF s] i k nv show ?thesis by (auto simp: entry_seen_def stat_def)
  next
    fix r
    assume k: "md_kind m = Regular" "strip_prefix dir (join d n) = Some r"
      and s: "scan_entries dir d ns (count + 1) dirs (files @ [r]) v2 = (Inr (count', dirs', files'), w')"
    from Cons.IH [OF s] i k nv show ?thesis by (auto simp: entry_seen_def stat_def)
  qed
qed

text \<open>
  \<open>leads w d segs\<close>: following the names \<open>segs\<close> from \<open>d\<close> goes through directories to an existing entry.
\<close>

fun leads :: "world \<Rightarrow> string \<Rightarrow> string list \<Rightarrow> bool" where
  "leads w d [] = False"
| "leads w d [n] = (plain_name n \<and> nodes w (join d n) \<noteq> None)"
| "leads w d (n # ns) = (plain_name n \<and> map_option i_kind (nodes w (join d n)) = Some Directory \<and> leads w (join d n) ns)"

definition accounted :: "world \<Rightarrow> string \<Rightarrow> string list \<Rightarrow> string \<Rightarrow> bool" where
  "accounted w dir files p \<longleftrightarrow>
     (\<exists>i. nodes w p = Some i \<and> (i_kind i = Directory \<or> i_kind i = Regular \<and> (\<exists>r \<in> set files. strip_prefix dir p = Some r)))"

lemma leads_cong: "nodes v = nodes w \<Longrightarrow> leads v p ss \<longleftrightarrow> leads w p ss"
proof (induction ss arbitrary: p)
  case (Cons n ns)
  then show ?case by (cases ns) simp_all
qed simp

lemma leads_first: "leads w d (n # ns) \<Longrightarrow> plain_name n \<and> nodes w (join d n) \<noteq> None"
  by (cases ns) auto

lemma inventory_loop_accounts:
  "inventory_loop ls dir count dirs files w = (Inr result, w') \<Longrightarrow> listing_exact ls w
    \<Longrightarrow> (\<And>d. d \<in> set dirs \<Longrightarrow> map_option i_kind (nodes w d) = Some Directory)
    \<Longrightarrow> set files \<subseteq> set result \<and> (\<forall>d \<in> set dirs. \<forall>segs. leads w d segs \<longrightarrow> accounted w dir result (foldl join d segs))"
proof (induction ls dir count dirs files w rule: inventory_loop.induct)
  case (2 ls dir count d dirs files w)
  obtain count' dirs' files' v where s: "scan_directory ls dir d count dirs files w = (Inr (count', dirs', files'), v)"
    and l: "inventory_loop ls dir count' dirs' files' v = (Inr result, w')"
    using 2(2) by (auto split: prod.splits sum.splits)
  have nv: "nodes v = nodes w" by (rule keeps_nodes [OF keeps_scan_directory s])
  obtain ns u where ns: "read_dir ls d w = (Inr ns, u)" "scan_entries dir d ns count dirs files u = (Inr (count', dirs', files'), v)"
    using s by (auto simp: scan_directory_def io_success)
  have nu: "nodes u = nodes w" by (rule keeps_nodes [OF keeps_inventory_calls(1) ns(1)])
  have "ns = ls d" using ns(1) by (auto simp: read_dir_def dest!: sys_Inr split: option.splits if_splits)
  then have names: "n \<in> set ns \<longleftrightarrow> plain_name n \<and> nodes w (join d n) \<noteq> None" for n
    using 2(3) 2(4) [of d] by (auto simp: listing_exact_def)
  note seen = scan_entries_seen [OF ns(2)]
  have ex: "listing_exact ls v" using 2(3) nv by (simp add: listing_exact_def)
  have "map_option i_kind (nodes v e) = Some Directory" if "e \<in> set dirs'" for e
    using that seen 2(4) [of e] nv nu by (cases "e \<in> set dirs") auto
  note IH = 2(1) [OF s [symmetric] refl refl refl l ex this]
  show ?case
  proof (intro conjI ballI allI impI)
    show "set files \<subseteq> set result" using IH seen by blast
    fix e segs
    assume e: "e \<in> set (d # dirs)" and lead: "leads w e segs"
    note leads_v = leads_cong [OF nv]
    have acc: "accounted v dir result p \<longleftrightarrow> accounted w dir result p" for p by (simp add: accounted_def nv)
    show "accounted w dir result (foldl join e segs)"
    proof (cases "e \<in> set dirs")
      case True
      with IH lead seen show ?thesis unfolding leads_v acc by blast
    next
      case False
      with e have [simp]: "e = d" by simp
      obtain n rest where segs: "segs = n # rest" using lead by (cases segs) auto
      have "n \<in> set ns" using leads_first [of w d n rest] lead segs names by simp
      with seen have n: "entry_seen w dir (join d n) dirs' files'" by (simp add: entry_seen_def nu)
      show ?thesis
      proof (cases rest)
        case Nil
        with n segs IH show ?thesis by (auto simp: entry_seen_def accounted_def)
      next
        case (Cons k ks)
        with lead segs have "map_option i_kind (nodes w (join d n)) = Some Directory" "leads w (join d n) rest" by auto
        with n have "join d n \<in> set dirs'" "leads w (join d n) rest" by (auto simp: entry_seen_def)
        with IH segs show ?thesis unfolding leads_v acc by auto
      qed
    qed
  qed
qed simp


section \<open>Names and components\<close>

lemma foldl_join: "foldl join d segs = d @ concat (map (\<lambda>s. CHR ''/'' # s) segs)"
  by (induction segs arbitrary: d) (simp_all add: join_def)

lemma strip_prefix_join:
  "strip_prefix d (foldl join d (n # ns)) = Some (n @ concat (map (\<lambda>s. CHR ''/'' # s) ns))"
  by (simp only: foldl_join) (simp add: strip_prefix_def)

lemma split_on_segments:
  "CHR ''/'' \<notin> set n \<Longrightarrow> (\<And>s. s \<in> set ns \<Longrightarrow> CHR ''/'' \<notin> set s)
    \<Longrightarrow> split_on (CHR ''/'') (n @ concat (map (\<lambda>s. CHR ''/'' # s) ns)) = n # ns"
  by (induction ns arbitrary: n) simp_all

lemma components_segments:
  assumes "\<And>s. s \<in> set (n # ns) \<Longrightarrow> plain_name s"
  shows "components (n @ concat (map (\<lambda>s. CHR ''/'' # s) ns)) = map Normal (n # ns)"
proof -
  let ?p = "n @ concat (map (\<lambda>s. CHR ''/'' # s) ns)"
  have c: "(\<And>s. s \<in> set ss \<Longrightarrow> plain_name s) \<Longrightarrow> concat (map segment_component ss) = map Normal ss" for ss
    by (induction ss) (simp_all add: plain_name_def)
  have "split_on (CHR ''/'') ?p = n # ns"
    using assms by (intro split_on_segments) (auto simp: plain_name_def)
  moreover have n: "n \<noteq> []" "n \<noteq> ''.''" using assms [of n] by (auto simp: plain_name_def)
  ultimately have "components ?p = concat (map segment_component (n # ns))"
    unfolding components_def Let_def by (simp only: list.sel n simp_thms if_False append_Nil)
  also have "\<dots> = map Normal (n # ns)" using assms by (rule c)
  finally show ?thesis .
qed

lemma leads_plain: "leads w d segs \<Longrightarrow> s \<in> set segs \<Longrightarrow> plain_name s"
proof (induction segs arbitrary: d)
  case (Cons n ns)
  then show ?case by (cases ns) auto
qed simp

lemma components_MANIFEST_FILE: "components MANIFEST_FILE = [Normal MANIFEST_FILE]"
proof -
  have "plain_name MANIFEST_FILE" by code_simp
  then show ?thesis using components_segments [of MANIFEST_FILE "[]"] by simp
qed

section \<open>Verified artifacts\<close>

definition artifact_verified :: "native \<Rightarrow> world \<Rightarrow> string \<Rightarrow> verified_artifact \<Rightarrow> bool" where
  "artifact_verified nv w dir a \<longleftrightarrow>
     (\<exists>i. nodes w (resolve dir (me_path (va_entry a))) = Some i \<and> i_kind i = Regular \<and> va_bytes a = i_data i)
   \<and> length (va_bytes a) = unat (me_size (va_entry a)) \<and> digest_hex nv (va_bytes a) = me_sha256 (va_entry a)"

lemma load_verified_entry_Inr:
  assumes "load_verified_entry nv dir e w = (Inr a, w')"
  shows "va_entry a = e" "artifact_verified nv w dir a"
proof -
  let ?p = "resolve dir (me_path e)"
  obtain v1 m v2 v3 bs v4 where s: "reject_symlink_components dir (components (me_path e)) w = (Inr (), v1)"
    "artifact_metadata dir (me_path e) v1 = (Inr m, v2)" "open_path ?p v2 = (Inr (), v3)"
    "read_limited ?p (unat (me_size e) + 1) v3 = (Inr bs, v4)"
    "length bs = unat (me_size e)" "digest_hex nv bs = me_sha256 e" "a = \<lparr>va_entry = e, va_bytes = bs\<rparr>"
    using assms by (auto simp: load_verified_entry_def io_success split: if_splits)
  have "nodes v3 = nodes w"
    using keeps_nodes [OF keeps_reject_symlink_components s(1)] keeps_nodes [OF keeps_inventory_calls(4) s(2)]
      keeps_nodes [OF keeps_open_path s(3)] by simp
  then obtain i where i: "nodes w ?p = Some i" "bs = take (unat (me_size e) + 1) (i_data i)" "i_kind i = Regular"
    using read_limited_Inr(2) [OF s(4)] by auto
  have "length (i_data i) \<le> unat (me_size e)" using i(2) s(5) by (simp add: min_def split: if_splits)
  then have "bs = i_data i" using i(2) by simp
  with i s show "va_entry a = e" "artifact_verified nv w dir a" by (auto simp: artifact_verified_def)
qed

lemma load_entries_Inr:
  "load_entries nv dir es w = (Inr as, w') \<Longrightarrow> map va_entry as = es \<and> list_all (artifact_verified nv w dir) as"
proof (induction es arbitrary: as w)
  case Nil
  then show ?case by (simp add: wreturn_def)
next
  case (Cons e es)
  obtain a v as' where a: "load_verified_entry nv dir e w = (Inr a, v)" "load_entries nv dir es v = (Inr as', w')" "as = a # as'"
    using Cons.prems by (auto simp: io_success)
  have "nodes v = nodes w" by (rule keeps_nodes [OF keeps_load_verified_entry a(1)])
  then have "artifact_verified nv v dir = artifact_verified nv w dir" by (simp add: fun_eq_iff artifact_verified_def)
  with Cons.IH [OF a(2)] load_verified_entry_Inr [OF a(1)] a(3) show ?case by simp
qed

lemma load_manifest_Inr: "load_manifest dir w = (Inr m, w') \<Longrightarrow> manifest_valid m"
  unfolding load_manifest_def by (auto simp: io_success split: if_splits intro: manifest_parse_Inr)

lemma require_directory_Inr:
  assumes "require_directory p w = (Inr u, w')"
  shows "map_option i_kind (nodes w p) = Some Directory"
proof -
  obtain m where m: "symlink_metadata p w = (Inr m, w')" "md_kind m = Directory"
    using assms by (auto simp: require_directory_def io_success split: if_splits)
  then show ?thesis using metadata_Inr(1) [OF m(1)] by (auto simp: stat_def)
qed

text \<open>
  Claim C17: a model directory that passes verification is closed: whatever a chain of names leads to from its root is a
  directory, the manifest itself, or a regular file listed in the well-formed manifest; and every listed artifact was
  read in full from its regular file, with the listed size and the listed SHA-256 digest.
\<close>

theorem inventory_closed:
  assumes "listing_exact ls w" "load_and_verify_model_inventory nv ls dir w = (Inr (m, as), w')"
  shows "manifest_valid m \<and> map va_entry as = m \<and> list_all (artifact_verified nv w dir) as
    \<and> (\<forall>segs. leads w dir segs \<longrightarrow>
         (\<exists>i. nodes w (foldl join dir segs) = Some i
            \<and> (i_kind i = Directory
               \<or> i_kind i = Regular \<and> (segs = [MANIFEST_FILE] \<or> map Normal segs \<in> set (map (\<lambda>e. components (me_path e)) m)))))"
proof (intro conjI allI impI)
  obtain v1 files v2 where s: "load_manifest dir w = (Inr m, v1)" "regular_files ls dir v1 = (Inr files, v2)"
    "set (map components files) - {components MANIFEST_FILE} = set (map (\<lambda>e. components (me_path e)) m)"
    "load_entries nv dir m v2 = (Inr as, w')"
    using assms(2) by (auto simp: load_and_verify_model_inventory_def io_success Let_def split: if_splits)
  have n1: "nodes v1 = nodes w" by (rule keeps_nodes [OF keeps_load_manifest s(1)])
  have n2: "nodes v2 = nodes w" using regular_files_nodes [OF s(2)] n1 by simp
  show "manifest_valid m" by (rule load_manifest_Inr [OF s(1)])
  have "artifact_verified nv v2 dir = artifact_verified nv w dir" by (simp add: fun_eq_iff artifact_verified_def n2)
  with load_entries_Inr [OF s(4)] show "map va_entry as = m" "list_all (artifact_verified nv w dir) as" by simp_all
  fix segs
  assume lead: "leads w dir segs"
  obtain u v where r: "require_directory dir v1 = (Inr u, v)" "inventory_loop ls dir 0 [dir] [] v = (Inr files, v2)"
    using s(2) unfolding regular_files_def wbind_Inr by blast
  have nv: "nodes v = nodes w" using keeps_nodes [OF keeps_inventory_calls(3) r(1)] n1 by simp
  have "listing_exact ls v" using assms(1) nv by (simp add: listing_exact_def)
  moreover have "map_option i_kind (nodes v dir) = Some Directory" using require_directory_Inr [OF r(1)] n1 nv by simp
  ultimately have "accounted v dir files (foldl join dir segs)"
    using inventory_loop_accounts [OF r(2)] lead leads_cong [OF nv] by simp
  then obtain i where i: "nodes w (foldl join dir segs) = Some i" "i_kind i = Directory
      \<or> i_kind i = Regular \<and> (\<exists>f \<in> set files. strip_prefix dir (foldl join dir segs) = Some f)"
    by (auto simp: accounted_def nv)
  obtain n ns where segs: "segs = n # ns" using lead by (cases segs) auto
  have "map Normal segs \<in> set (map components files)"
    if "f \<in> set files" "strip_prefix dir (foldl join dir segs) = Some f" for f
  proof -
    have "components f = map Normal segs"
      using that(2) components_segments [of n ns] leads_plain [OF lead] unfolding segs strip_prefix_join by simp
    with that(1) show ?thesis by (metis image_eqI set_map)
  qed
  then have "i_kind i = Directory \<or> i_kind i = Regular
      \<and> (segs = [MANIFEST_FILE] \<or> map Normal segs \<in> set (map (\<lambda>e. components (me_path e)) m))"
    using i(2) s(3) components_MANIFEST_FILE by auto
  with i(1) show "\<exists>i. nodes w (foldl join dir segs) = Some i
      \<and> (i_kind i = Directory
         \<or> i_kind i = Regular \<and> (segs = [MANIFEST_FILE] \<or> map Normal segs \<in> set (map (\<lambda>e. components (me_path e)) m)))"
    by blast
qed

section \<open>A concrete directory\<close>

lemma unat_text_bytes: "map unat (text_bytes s) = map byte s"
  by (induction s) (simp_all add: text_bytes_def)

lemma length_text_bytes [simp]: "length (text_bytes s) = length s"
  by (simp add: text_bytes_def)

definition toy_model :: model_manifest where
  "toy_model =
     [\<lparr>me_id = ''fake'', me_path = ''a'', me_size = 2, me_sha256 = replicate 63 (CHR ''0'') @ ''3'',
       me_role = ''test'', me_backend = ''fake'', me_license = ''MIT'', me_provenance = ''repo''\<rparr>]"

definition plain_inode :: "file_kind \<Rightarrow> bytes \<Rightarrow> inode" where
  "plain_inode k bs = \<lparr>i_kind = k, i_uid = 0, i_gid = 0, i_mode = oct3 6 4 4, i_nlink = 1, i_dev = 0, i_ino = 0,
     i_stamp = 0, i_data = bs\<rparr>"

definition model_world :: world where
  "model_world = \<lparr>nodes = [''/m'' \<mapsto> plain_inode Directory [],
      join ''/m'' MANIFEST_FILE \<mapsto> plain_inode Regular (text_bytes (manifest_text toy_model)),
      ''/m/a'' \<mapsto> plain_inode Regular [1, 2]],
    euid = 0, egid = 0, umask = 0, group_ids = Map.empty, next_ino = 1, stamp = 0, script = []\<rparr>"

definition model_listing :: listing where
  "model_listing d = (if d = ''/m'' then [''a'', MANIFEST_FILE] else [])"

lemma toy_model_valid: "manifest_valid toy_model"
  by code_simp

lemma toy_model_text: "utf8_valid (map byte (manifest_text toy_model))" "length (manifest_text toy_model) \<le> 300"
  "manifest_text toy_model \<noteq> []"
  by code_simp+

lemma toy_digest: "digest_hex toy_native [1, 2] = replicate 63 (CHR ''0'') @ ''3''"
  by code_simp

lemma model_world_lookup:
  "nodes model_world ''/m'' = Some (plain_inode Directory [])"
  "nodes model_world (join ''/m'' MANIFEST_FILE) = Some (plain_inode Regular (text_bytes (manifest_text toy_model)))"
  "nodes model_world ''/m/a'' = Some (plain_inode Regular [1, 2])"
  "script model_world = []"
  by (simp_all add: model_world_def join_def MANIFEST_FILE_def)

lemma model_listing_exact: "listing_exact model_listing model_world"
proof -
  have p: "plain_name ''a''" "plain_name MANIFEST_FILE" "MANIFEST_FILE \<noteq> ''a''" by code_simp+
  have "nodes model_world (join ''/m'' n) \<noteq> None \<longleftrightarrow> n = ''a'' \<or> n = MANIFEST_FILE" for n
    by (simp add: model_world_def) (simp add: join_def)
  moreover have "d = ''/m''" if "map_option i_kind (nodes model_world d) = Some Directory" for d
    using that by (auto simp: model_world_def plain_inode_def split: if_splits)
  ultimately show ?thesis using p by (auto simp: listing_exact_def model_listing_def)
qed

lemma model_load_manifest: "load_manifest ''/m'' model_world = (Inr toy_model, model_world)"
  using toy_model_text model_world_lookup
  by (simp add: load_manifest_def require_directory_def flow_defs call_defs clean_sys stat_def plain_inode_def is_symlink_def
      unat_text_bytes manifest_parse_text [OF toy_model_valid] MAX_MANIFEST_BYTES_def)


lemmas model_run_simps = model_world_lookup flow_defs call_defs clean_sys stat_def plain_inode_def is_symlink_def

lemma model_regular_files: "regular_files model_listing ''/m'' model_world = (Inr [''a'', MANIFEST_FILE], model_world)"
proof -
  have a: "strip_prefix ''/m'' (join ''/m'' n) = Some n" for n by (simp add: strip_prefix_def join_def)
  have "components MANIFEST_FILE \<noteq> components ''a''" by code_simp
  moreover have "nodes model_world (join ''/m'' ''a'') = Some (plain_inode Regular [1, 2])"
    using model_world_lookup(3) by (simp add: join_def)
  ultimately show ?thesis
    by (simp add: regular_files_def require_directory_def scan_directory_def read_dir_def next_entry_def model_listing_def
      a MAX_INVENTORY_ENTRIES_def MAX_MANIFEST_ENTRIES_def model_run_simps del: segment_component.simps)
qed

lemma model_load_entries:
  "load_entries toy_native ''/m'' toy_model model_world = (Inr [\<lparr>va_entry = hd toy_model, va_bytes = [1, 2]\<rparr>], model_world)"
proof -
  have a: "components ''a'' = [Normal ''a'']" "\<not> names_directory ''a''" by code_simp+
  have "nodes model_world (join ''/m'' ''a'') = Some (plain_inode Regular [1, 2])"
    using model_world_lookup(3) by (simp add: join_def)
  then show ?thesis
    by (simp add: toy_model_def load_verified_entry_def artifact_metadata_def resolve_def a toy_digest model_run_simps)
qed

lemma model_inventory_run:
  "load_and_verify_model_inventory toy_native model_listing ''/m'' model_world
    = (Inr (toy_model, [\<lparr>va_entry = hd toy_model, va_bytes = [1, 2]\<rparr>]), model_world)"
proof -
  have a: "components ''a'' = [Normal ''a'']" "MANIFEST_FILE \<noteq> ''a''" by code_simp+
  have "set (map components [''a'', MANIFEST_FILE]) - {components MANIFEST_FILE} = set (map (\<lambda>e. components (me_path e)) toy_model)"
    using a by (auto simp: toy_model_def components_MANIFEST_FILE)
  then show ?thesis
    by (simp only: load_and_verify_model_inventory_def wbind_def model_load_manifest model_regular_files model_load_entries
        wreturn_def Let_def prod.case sum.case if_False simp_thms)
qed

theorem inventory_closed_witness:
  "list_all (artifact_verified toy_native model_world ''/m'') [\<lparr>va_entry = hd toy_model, va_bytes = [1, 2]\<rparr>]"
  using inventory_closed [OF model_listing_exact model_inventory_run] by blast

end
