(* ===== verification/Face_Profile.thy ===== *)
theory Face_Profile
  imports Identity_Types "HOL-Library.Multiset"
begin

text \<open>
  The enrolled profile of \<^verbatim>\<open>engine/templates/src/lib.rs\<close>: its bounded constructor and the median
  verification policy. The lemmas state the decision in terms of how many enrolled samples reach
  the match threshold.
\<close>

section \<open>The profile and its verification policy\<close>

definition MINIMUM_PROFILE_SAMPLES :: nat where
  "MINIMUM_PROFILE_SAMPLES = 3"

definition MAXIMUM_PROFILE_SAMPLES :: nat where
  "MAXIMUM_PROFILE_SAMPLES = 8"

definition PROVISIONAL_MATCH_THRESHOLD :: fl where
  "PROVISIONAL_MATCH_THRESHOLD = lit64 (45 / 100)"

definition PROVISIONAL_AMBIGUITY_MARGIN :: fl where
  "PROVISIONAL_AMBIGUITY_MARGIN = lit64 (4 / 100)"

record profile =
  samples :: "embedding list"

datatype verification_result = Match | NoMatch | Ambiguous

text \<open>\<open>None\<close> is the \<^verbatim>\<open>ProfileBounds\<close> error, the only one the constructor has.\<close>

definition profile_new :: "embedding list \<Rightarrow> profile option" where
  "profile_new es =
     (if MINIMUM_PROFILE_SAMPLES \<le> length es \<and> length es \<le> MAXIMUM_PROFILE_SAMPLES
      then Some \<lparr>samples = es\<rparr> else None)"

definition sample_count :: "profile \<Rightarrow> nat" where
  "sample_count p = length (samples p)"

definition profile_scores :: "profile \<Rightarrow> embedding \<Rightarrow> fl list" where
  "profile_scores p candidate = map (\<lambda>sample. cosine_similarity sample candidate) (samples p)"

definition median :: "fl list \<Rightarrow> fl" where
  "median scores =
     (let sorted_scores = sort scores; n = length scores in
      if n mod 2 = 0 then f64_midpoint (sorted_scores ! (n div 2 - 1)) (sorted_scores ! (n div 2))
      else sorted_scores ! (n div 2))"

definition verify :: "profile \<Rightarrow> embedding \<Rightarrow> verification_result" where
  "verify p candidate =
     (let m = median (profile_scores p candidate) in
      if f64_le PROVISIONAL_MATCH_THRESHOLD m then Match
      else if f64_le (f64_sub PROVISIONAL_MATCH_THRESHOLD PROVISIONAL_AMBIGUITY_MARGIN) m
      then Ambiguous
      else NoMatch)"

definition profile_wf :: "profile \<Rightarrow> bool" where
  "profile_wf p \<longleftrightarrow> profile_new (samples p) = Some p \<and> (\<forall>e \<in> set (samples p). embedding_wf e)"

section \<open>Medians\<close>

lemma sorted_count:
  "sorted xs \<Longrightarrow> i < length xs \<Longrightarrow>
     t \<le> xs ! i \<longleftrightarrow> length xs \<le> i + length (filter (\<lambda>x. t \<le> x) xs)" for t :: "'a::linorder"
proof (induction xs arbitrary: i)
  case (Cons x xs)
  show ?case
  proof (cases "t \<le> x")
    case True
    with Cons.prems(1) have "filter (\<lambda>x. t \<le> x) xs = xs" by (auto simp: filter_id_conv)
    with True Cons.prems show ?thesis by (cases i) (auto dest: order_trans [OF True] nth_mem)
  next
    case False
    then show ?thesis
    proof (cases i)
      case 0
      have "length (filter (\<lambda>x. t \<le> x) xs) \<le> length xs" by simp
      with 0 False show ?thesis by (simp del: length_filter_le)
    next
      case (Suc j)
      with Cons.IH [of j] Cons.prems False show ?thesis by simp
    qed
  qed
qed simp

lemma length_filter_sort: "length (filter P (sort xs)) = length (filter P xs)"
  by (metis mset_filter mset_sort size_mset)

definition scores_ok :: "fl list \<Rightarrow> bool" where
  "scores_ok xs \<longleftrightarrow>
     (\<forall>x \<in> set xs. is_finite x \<and> fl_nonneg x \<and> \<bar>fl_value x\<bar> \<le> 1 \<and> rep64 (fl_value x))"

definition reaching :: "rat \<Rightarrow> fl list \<Rightarrow> nat" where
  "reaching t xs = length (filter (\<lambda>x. t \<le> fl_value x) xs)"

lemma sorted_values: "scores_ok xs \<Longrightarrow> sorted (map fl_value (sort xs))"
  by (auto simp: sorted_wrt_map scores_ok_def intro!: sorted_wrt_mono_rel [OF _ sorted_sort]
      intro: less_eq_fl_value)

lemma sort_reaching:
  assumes "scores_ok xs" "i < length xs"
  shows "t \<le> fl_value (sort xs ! i) \<longleftrightarrow> length xs \<le> i + reaching t xs"
proof -
  have "length (filter (\<lambda>x. t \<le> x) (map fl_value (sort xs))) = reaching t xs"
    using length_filter_sort [of "\<lambda>x. t \<le> fl_value x" xs] by (simp add: filter_map o_def reaching_def)
  with sorted_count [OF sorted_values [OF assms(1)], of i t] assms(2) show ?thesis by simp
qed

lemma sort_nth_ok: "scores_ok xs \<Longrightarrow> i < length xs \<Longrightarrow> scores_ok [sort xs ! i]"
  using nth_mem [of i "sort xs"] by (simp add: scores_ok_def)

lemma half_index:
  assumes "xs \<noteq> []"
  shows "length xs div 2 < length xs" "length xs div 2 - 1 < length xs"
proof -
  have "0 < length xs" using assms by simp
  then show "length xs div 2 < length xs" "length xs div 2 - 1 < length xs" by linarith+
qed

lemma median_finite:
  assumes "scores_ok xs" "xs \<noteq> []"
  shows "is_finite (median xs)"
proof (cases "length xs mod 2 = 0")
  case True
  with sort_nth_ok [OF assms(1)] half_index [OF assms(2)] show ?thesis
    by (simp add: median_def Let_def scores_ok_def f64_midpoint_value(1))
next
  case False
  with sort_nth_ok [OF assms(1), of "length xs div 2"] assms(2) show ?thesis
    by (simp add: median_def Let_def scores_ok_def)
qed

text \<open>A median that reaches \<open>t\<close> has at least half of the scores reaching \<open>t\<close>.\<close>

lemma median_ge_half:
  assumes "scores_ok xs" "xs \<noteq> []" "t \<le> fl_value (median xs)"
  shows "length xs \<le> 2 * reaching t xs"
proof (cases "length xs mod 2 = 0")
  case True
  let ?k = "length xs div 2" and ?s = "sort xs"
  from True half_index [OF assms(2)] have k: "?k < length xs" "?k - 1 < length xs" "2 * ?k = length xs" by auto
  have ok: "scores_ok [?s ! ?k]" "scores_ok [?s ! (?k - 1)]" using sort_nth_ok [OF assms(1)] k by auto
  have "fl_value (?s ! (?k - 1)) \<le> fl_value (?s ! ?k)"
    using sorted_nth_mono [OF sorted_values [OF assms(1)], of "?k - 1" ?k] k by simp
  then have "fl_value (median xs) \<le> fl_value (?s ! ?k)"
    using True ok by (simp add: median_def Let_def scores_ok_def f64_midpoint_value(2) midpoint_le)
  with assms(3) have "t \<le> fl_value (?s ! ?k)" by simp
  with sort_reaching [OF assms(1) k(1), of t] k(3) show ?thesis by simp
next
  case False
  with assms have "length xs \<le> length xs div 2 + reaching t xs"
    using sort_reaching [OF assms(1), of "length xs div 2" t] by (simp add: median_def Let_def)
  with False show ?thesis by presburger
qed

text \<open>Conversely, once more than half of the scores reach a representable \<open>t\<close>, so does the median.\<close>

lemma majority_median_ge:
  assumes "scores_ok xs" "rep64 t" "length xs < 2 * reaching t xs"
  shows "t \<le> fl_value (median xs)"
proof -
  have ne: "xs \<noteq> []" using assms(3) by (auto simp: reaching_def)
  let ?k = "length xs div 2" and ?s = "sort xs"
  have at: "t \<le> fl_value (?s ! i)" if "length xs \<le> i + reaching t xs" "i < length xs" for i
    using sort_reaching [OF assms(1) that(2), of t] that by simp
  show ?thesis
  proof (cases "length xs mod 2 = 0")
    case True
    with assms(3) have "length xs \<le> (?k - 1) + reaching t xs" by presburger
    with at half_index [OF ne] have ge: "t \<le> fl_value (?s ! (?k - 1))" "t \<le> fl_value (?s ! ?k)" by auto
    have "scores_ok [?s ! ?k]" "scores_ok [?s ! (?k - 1)]"
      using sort_nth_ok [OF assms(1)] half_index [OF ne] by auto
    with True ge assms(2) show ?thesis
      by (simp add: median_def Let_def scores_ok_def f64_midpoint_value(2) midpoint_ge)
  next
    case False
    with ne assms(3) have "length xs \<le> ?k + reaching t xs" "?k < length xs" by auto
    with at False show ?thesis by (simp add: median_def Let_def)
  qed
qed

section \<open>The verification decision\<close>

lemma profile_scores_ok:
  "profile_wf p \<Longrightarrow> embedding_wf c \<Longrightarrow> scores_ok (profile_scores p c)"
  by (auto simp: profile_wf_def scores_ok_def profile_scores_def cosine_bounds cosine_rep)

lemma profile_scores_nonempty: "profile_wf p \<Longrightarrow> profile_scores p c \<noteq> []"
  by (auto simp: profile_wf_def profile_new_def profile_scores_def MINIMUM_PROFILE_SAMPLES_def
      split: if_splits)

lemma length_profile_scores [simp]: "length (profile_scores p c) = sample_count p"
  by (simp add: profile_scores_def sample_count_def)

lemma threshold_value:
  "is_finite PROVISIONAL_MATCH_THRESHOLD" "rep64 (fl_value PROVISIONAL_MATCH_THRESHOLD)"
  "fl_value PROVISIONAL_MATCH_THRESHOLD \<le> 1 / 2"
  using lit64_value [of "45 / 100"] rep64_r64 r64_mono [of "45 / 100" "1 / 2"] r64_rep [OF rep64_quarters(1)]
  by (simp_all add: PROVISIONAL_MATCH_THRESHOLD_def)

definition matching :: "profile \<Rightarrow> embedding \<Rightarrow> nat" where
  "matching p c = reaching (fl_value PROVISIONAL_MATCH_THRESHOLD) (profile_scores p c)"

lemma verify_Match_iff:
  assumes "profile_wf p" "embedding_wf c"
  shows "verify p c = Match
    \<longleftrightarrow> fl_value PROVISIONAL_MATCH_THRESHOLD \<le> fl_value (median (profile_scores p c))"
  using median_finite [OF profile_scores_ok [OF assms] profile_scores_nonempty [OF assms(1)]]
  by (simp add: verify_def Let_def f64_le_finite threshold_value(1))

lemma majority_verifies:
  assumes "profile_wf p" "embedding_wf c" "sample_count p < 2 * matching p c"
  shows "verify p c = Match"
  using majority_median_ge [OF profile_scores_ok [OF assms(1,2)] threshold_value(2)] assms
  by (simp add: verify_Match_iff matching_def)

text \<open>
  Claim C8: the verification answers Match only if at least half of the enrolled samples (more
  than half when their number is odd) reach the match threshold against the candidate, and it
  always answers Match when more than half of them do.
\<close>

theorem verify_majority:
  assumes "profile_wf p" "embedding_wf c"
  shows "(verify p c = Match \<longrightarrow> sample_count p \<le> 2 * matching p c)
    \<and> (sample_count p < 2 * matching p c \<longrightarrow> verify p c = Match)"
  using median_ge_half [OF profile_scores_ok [OF assms] profile_scores_nonempty [OF assms(1)]]
    majority_verifies [OF assms]
  by (simp add: verify_Match_iff [OF assms] matching_def)

lemma median_mset: "mset xs = mset ys \<Longrightarrow> median xs = median ys"
  using properties_for_sort [of "sort ys" xs] mset_eq_length [of xs ys] by (simp add: median_def)

lemma matching_enrolled:
  assumes "embedding_wf c"
  shows "count (mset (samples p)) c \<le> matching p c"
proof -
  have "fl_value PROVISIONAL_MATCH_THRESHOLD \<le> fl_value (cosine_similarity c c)"
    using threshold_value(3) self_similarity [OF assms] by simp
  then have "count (mset xs) c
      \<le> length (filter (\<lambda>e. fl_value PROVISIONAL_MATCH_THRESHOLD \<le> fl_value (cosine_similarity e c)) xs)"
    for xs by (induction xs) auto
  then show ?thesis by (simp add: matching_def reaching_def profile_scores_def filter_map o_def)
qed

text \<open>
  An embedding that makes up more than half of an enrolled profile verifies against
  it, in whatever order the samples are stored; the order never matters.
\<close>

theorem verify_enrolled:
  assumes "profile_wf p" "c \<in> set (samples p)" "sample_count p < 2 * count (mset (samples p)) c"
  shows "verify p c = Match
    \<and> (\<forall>q. mset (samples q) = mset (samples p) \<longrightarrow> verify q c = Match)"
proof -
  have c: "embedding_wf c" using assms(1,2) by (simp add: profile_wf_def)
  have "count (mset (samples p)) c \<le> matching p c" by (rule matching_enrolled [OF c])
  with assms have v: "verify p c = Match" by (intro majority_verifies) (simp_all add: c)
  have "verify q c = verify p c" if "mset (samples q) = mset (samples p)" for q
  proof -
    have "mset (profile_scores q c) = mset (profile_scores p c)"
      using that by (simp add: profile_scores_def mset_map)
    then have "median (profile_scores q c) = median (profile_scores p c)" by (rule median_mset)
    then show ?thesis by (simp only: verify_def)
  qed
  with v show ?thesis by metis
qed

section \<open>A concrete profile\<close>

definition unit_embedding :: embedding where
  "unit_embedding = \<lparr>emb_values = 0x3F800000 # replicate 127 0\<rparr>"

lemma isqrt_power4: "isqrt (4 ^ k) = 2 ^ k"
proof (induction k)
  case 0
  then show ?case by (simp add: isqrt.simps)
next
  case (Suc k)
  have "(2 * 2 ^ k) * (2 * 2 ^ k) = (4 :: nat) * 4 ^ k" by (simp add: power_mult_distrib [symmetric])
  then show ?case using Suc by (subst isqrt.simps) (simp add: Let_def)
qed

lemma sqrt_fin_1: "sqrt_fin 1 = 1"
proof -
  have "isqrt (4 ^ 52) = 2 ^ 52" by (rule isqrt_power4)
  then show ?thesis by (simp add: sqrt_fin_def Let_def ilog2_def bit_len.simps power_int_minus)
qed

lemma unit_norm: "square_sum (emb_values unit_embedding) = Fin False 1"
proof -
  have d: "f32_decode 0x3F800000 = Fin False 1" "f32_decode 0 = Fin False 0"
    by (simp_all add: f32_decode_def Let_def power_int_minus)
  have r: "r64 1 = 1" by (rule r64_rep) simp
  have "fin64 False 1 = Fin False 1" "fin64 False 0 = Fin False 0"
    using fin64_small [of 1 False] fin64_small [of 0 False] powi_two_mono [of 0 1000] r by simp_all
  moreover have "round64 False 1 = Fin False 1"
    using calculation(1) by (simp add: round64_def)
  moreover have "foldl f64_add (Fin False 1) (replicate n (Fin False 0)) = Fin False 1" for n
    using calculation(3) by (induction n) simp_all
  ultimately show ?thesis
    by (simp add: square_sum_def unit_embedding_def f64_sum_def d)
qed

lemma unit_embedding_wf: "embedding_wf unit_embedding"
proof -
  have "is_finite NORMALIZED_NORM_TOLERANCE" "0 \<le> fl_value NORMALIZED_NORM_TOLERANCE"
    using lit64_value [of "1 / 10 ^ 5"] r64_sign [of "1 / 10 ^ 5"]
    by (simp_all add: NORMALIZED_NORM_TOLERANCE_def)
  then have "\<not> f64_lt NORMALIZED_NORM_TOLERANCE (Fin False 0)" by (simp add: f64_lt_finite)
  moreover have "f32_decode 0x3F800000 = Fin False 1" "f32_decode 0 = Fin False 0"
    by (simp_all add: f32_decode_def Let_def power_int_minus)
  ultimately show ?thesis
    using unit_norm by (simp add: embedding_wf_def from_normalized_def EMBEDDING_DIMENSION_def
        unit_embedding_def sqrt_fin_1 f64_sub_def round64_def)
qed

definition unit_profile :: profile where
  "unit_profile = \<lparr>samples = [unit_embedding, unit_embedding, unit_embedding]\<rparr>"

lemma unit_profile_wf: "profile_wf unit_profile"
  by (simp add: profile_wf_def unit_profile_def profile_new_def unit_embedding_wf
      MINIMUM_PROFILE_SAMPLES_def MAXIMUM_PROFILE_SAMPLES_def)

theorem verify_majority_witness:
  "verify unit_profile unit_embedding = Match
    \<and> sample_count unit_profile \<le> 2 * matching unit_profile unit_embedding"
proof -
  have "sample_count unit_profile < 2 * matching unit_profile unit_embedding"
    using matching_enrolled [OF unit_embedding_wf, of unit_profile]
    by (simp add: unit_profile_def sample_count_def)
  then show ?thesis using verify_majority [OF unit_profile_wf unit_embedding_wf] by blast
qed

theorem verify_enrolled_witness: "verify unit_profile unit_embedding = Match"
proof -
  have "unit_embedding \<in> set (samples unit_profile)"
    "sample_count unit_profile < 2 * count (mset (samples unit_profile)) unit_embedding"
    by (simp_all add: unit_profile_def sample_count_def)
  then show ?thesis using verify_enrolled [OF unit_profile_wf] by blast
qed

end
