(* ===== verification/Sample_Face.thy ===== *)
theory Sample_Face
  imports Face_Detect Face_Profile
begin

text \<open>
  A concrete frame that passes every check of the pipeline: a striped image of 128 by 128 pixels and a native library that finds one
  face in its middle, with the unit vector as its features. The lemmas evaluate the quality metrics by an invariant of the
  pixel loops, the validation of the detection, and the detection step.
\<close>

section \<open>A striped image\<close>

definition tone :: "nat \<Rightarrow> u8" where
  "tone k = (if even k then 60 else 180)"

definition stripes :: "nat \<Rightarrow> bytes" where
  "stripes n = map tone [0..<n]"

lemma stripes_simps [simp]: "length (stripes n) = n" "k < n \<Longrightarrow> stripes n ! k = tone k"
  by (simp_all add: stripes_def)

definition striped_image :: image_view where
  "striped_image = \<lparr>img_format = Gray8, img_width = 128, img_height = 128, img_stride = 128, img_bytes = stripes 16384\<rparr>"

lemma striped_fields [simp]:
  "img_format striped_image = Gray8" "img_width striped_image = 128" "img_height striped_image = 128"
  "img_stride striped_image = 128" "img_bytes striped_image = stripes 16384"
  by (simp_all add: striped_image_def)

lemma striped_wf: "view_wf striped_image"
  by (simp add: view_wf_def MAX_FRAME_BYTES_def)

lemma striped_image_ok: "image_view_new Gray8 128 128 128 (stripes 16384) = Inr striped_image"
  using image_view_new_complete [OF striped_wf] by simp

lemma stripe_luma: "off < 16384 \<Longrightarrow> pixel_luma Gray8 (drop off (stripes 16384)) = Some (unat (tone off))"
  by simp

text \<open>The accumulators from the second pixel on.\<close>

definition striped_acc :: "nat \<Rightarrow> quality_acc \<Rightarrow> bool" where
  "striped_acc k a \<longleftrightarrow> qa_min a = 60 \<and> qa_max a = 180 \<and> 60 * k \<le> qa_sum a \<and> qa_sum a \<le> 180 * k
     \<and> qa_diff a = 120 * qa_count a \<and> 0 < qa_count a"

definition stripe_before :: "nat \<Rightarrow> nat option \<Rightarrow> bool" where
  "stripe_before off previous \<longleftrightarrow> previous = None \<or> (0 < off \<and> previous = Some (unat (tone (off - 1))))"

lemma striped_acc_pixel:
  "striped_acc k a \<Longrightarrow> stripe_before off previous \<Longrightarrow> striped_acc (Suc k) (quality_pixel a previous (unat (tone off)))"
  by (auto simp: striped_acc_def stripe_before_def quality_pixel_def Let_def tone_def abs_diff_def)

lemma striped_row:
  "\<lbrakk>off + n \<le> 16384; striped_acc k a; stripe_before off previous\<rbrakk>
   \<Longrightarrow> \<exists>a'. quality_row striped_image n off previous a = Some a' \<and> striped_acc (k + n) a'"
proof (induction n arbitrary: off k a previous)
  case (Suc n)
  have "stripe_before (Suc off) (Some (unat (tone off)))" by (simp add: stripe_before_def)
  with Suc.IH [of "Suc off" "Suc k" "quality_pixel a previous (unat (tone off))" "Some (unat (tone off))"]
    striped_acc_pixel [OF Suc.prems(2,3)] Suc.prems(1) stripe_luma [of off]
  show ?case by simp
qed simp

lemma striped_first_row: "\<exists>a. quality_row striped_image 128 0 None quality_start = Some a \<and> striped_acc 128 a"
proof -
  let ?a = "quality_pixel (quality_pixel quality_start None 60) (Some 60) 180"
  have t: "unat (tone 0) = 60" "unat (tone 1) = 180" by (simp_all add: tone_def)
  have "quality_row striped_image (Suc (Suc m)) 0 None quality_start = quality_row striped_image m 2 (Some 180) ?a" for m
    using stripe_luma [of 0] stripe_luma [of 1] t by (simp add: numeral_2_eq_2)
  from this [of 126]
  have "quality_row striped_image 128 0 None quality_start = quality_row striped_image 126 2 (Some 180) ?a" by simp
  moreover have "striped_acc 2 ?a"
    by (simp add: striped_acc_def quality_pixel_def quality_start_def Let_def abs_diff_def)
  moreover have "stripe_before 2 (Some 180)" by (simp add: stripe_before_def tone_def)
  ultimately show ?thesis using striped_row [of 2 126 2 ?a "Some 180"] by simp
qed

lemma striped_rows:
  "\<lbrakk>\<And>i. control_check c i = Inr (); y + n = 128; striped_acc (y * 128) a\<rbrakk>
   \<Longrightarrow> \<exists>a'. quality_rows striped_image c i n y a = Some (Inr (a', i + n)) \<and> striped_acc 16384 a'"
proof (induction n arbitrary: i y a)
  case (Suc n)
  obtain a' where a: "quality_row striped_image 128 (y * 128) None a = Some a'" "striped_acc (y * 128 + 128) a'"
    using striped_row [of "y * 128" 128 "y * 128" a None] Suc.prems by (auto simp: stripe_before_def)
  have "quality_rows striped_image c i (Suc n) y a = quality_rows striped_image c (Suc i) n (Suc y) a'"
    using a(1) Suc.prems(1) by simp
  with Suc.IH [of "Suc y" a' "Suc i"] Suc.prems a(2) show ?case by (simp only: mult_Suc add_Suc_shift add.commute [of 128])
qed simp

lemma striped_quality:
  assumes "\<And>i. control_check c i = Inr ()"
  shows "\<exists>q. calculate_quality striped_image c i = Some (Inr (q, i + 129)) \<and> flags q = 0"
proof -
  obtain a0 where a0: "quality_row striped_image 128 0 None quality_start = Some a0" "striped_acc 128 a0"
    using striped_first_row by blast
  obtain a where a: "quality_rows striped_image c (Suc i) 127 1 a0 = Some (Inr (a, Suc i + 127))" "striped_acc 16384 a"
    using striped_rows [OF assms, of 1 127 a0 "Suc i"] a0(2) by auto
  have "quality_rows striped_image c i (Suc n) 0 quality_start = quality_rows striped_image c (Suc i) n 1 a0" for n
    using a0(1) assms by simp
  from this [of 127] a(1) have "quality_rows striped_image c i 128 0 quality_start = Some (Inr (a, i + 128))" by simp
  moreover have "60 \<le> qa_sum a div 16384" "qa_sum a div 16384 \<le> 180"
    using a(2) unfolding striped_acc_def by linarith+
  moreover from this have "quality_flags (qa_sum a div 16384) 120 120 = 0" by (simp add: quality_flags_zero)
  ultimately show ?thesis
    using a(2) assms by (simp add: calculate_quality_def striped_acc_def Let_def)
qed

section \<open>A native library that finds a face in it\<close>

definition face_row :: "f32 list" where
  "face_row = [0x41800000, 0x41800000, 0x42C00000, 0x42C00000] @ replicate 10 0x42800000 @ [0x3F800000]"

definition face_native :: vision_native where
  "face_native = \<lparr>vn_yunet_create = (\<lambda>_. (0, True)), vn_detect = (\<lambda>_ _ _ _ _ _ _ _. (0, \<lambda>_ k. face_row ! k, 1)),
     vn_sface_create = (\<lambda>_. (0, True)), vn_features = (\<lambda>_ _ _ _ _ _. (0, (!) (emb_values unit_embedding), 128)),
     vn_texture = (\<lambda>_ _ _ _ _. (0, calm_texture)),
     vn_pose = (\<lambda>_ _ _. (0, \<lparr>yaw = Fin False 0, pitch = Fin False 0, roll = Fin False 0\<rparr>))\<rparr>"

definition sample_face :: raw_detection where
  "sample_face = \<lparr>det_values = [Fin False 16, Fin False 16, Fin False 96, Fin False 96] @ replicate 10 (Fin False 64) @ [Fin False 1]\<rparr>"

lemma sample_face_detected:
  assumes "unat w < 2 ^ 31" "unat h < 2 ^ 31" "unat (fst resolution) < 2 ^ 31" "unat (snd resolution) < 2 ^ 31"
  shows "detect_at_resolution face_native model bgr w h stride resolution 5000 = Inr [sample_face]"
proof -
  have d: "f32_decode 0x41800000 = Fin False 16" "f32_decode 0x42C00000 = Fin False 96" "f32_decode 0x42800000 = Fin False 64"
    "f32_decode 0x3F800000 = Fin False 1"
    by (simp_all add: f32_decode_def Let_def power_int_minus)
  have "map (\<lambda>k. f32_decode (face_row ! k)) [0..<15] = det_values sample_face"
    by (simp add: upt_rec face_row_def sample_face_def d nth_append eval_nat_numeral)
  then show ?thesis using assms
    by (simp add: detect_at_resolution_def face_native_def i32_try_from_def bridge_status_result_def DETECTION_VALUES_def Let_def)
qed

lemma rnd32_1: "rnd 24 (-149) 1 = 1"
  using round32_int [of 1 False] by (auto simp: round32_def fin32_def int_fl_def Let_def split: if_splits)

lemma lit32_unit:
  assumes "0 \<le> q" "q \<le> 1"
  shows "\<exists>y. lit32 q = Fin False y \<and> 0 \<le> y \<and> y \<le> 1"
proof -
  have "0 \<le> rnd 24 (-149) q" "rnd 24 (-149) q \<le> 1"
    using assms rnd_nonneg [of q 24 "-149"] rnd_mono [where p = 24 and emin = "-149" and x = q and y = 1] rnd32_1 by simp_all
  moreover have "(1 :: rat) < 2 powi 128" by simp
  ultimately show ?thesis using assms by (auto simp: lit32_def round32_def fin32_def Let_def)
qed

lemma one_as_f32: "f64_as_f32 (Fin False 1) = 0x3F800000" "f64_as_f32 (Fin False 0) = 0"
proof -
  have "fin32 False 1 = Fin False 1" "fin32 False 0 = Fin False 0" using rnd32_1 by (simp_all add: fin32_def Let_def)
  moreover have "f32_bits False 1 = 0x3F800000" "f32_bits False 0 = 0"
    by (simp_all add: f32_bits_def Let_def quantum_def ilog2_def bit_len.simps power_int_minus)
  ultimately show "f64_as_f32 (Fin False 1) = 0x3F800000" "f64_as_f32 (Fin False 0) = 0" by (simp_all add: f64_as_f32_def)
qed

text \<open>A score of one passes the threshold with its tolerance on both sides.\<close>

lemma unit_score:
  "\<not> f64_lt (f32_add (Fin False 1) SCORE_TOLERANCE) YUNET_SCORE_THRESHOLD"
  "\<not> f64_lt (f32_add (Fin False 1) SCORE_TOLERANCE) (Fin False 1)"
proof -
  obtain t where t: "SCORE_TOLERANCE = Fin False t" "0 \<le> t"
    using lit32_unit [of "1 / 10 ^ 5"] by (auto simp: SCORE_TOLERANCE_def)
  obtain y where y: "YUNET_SCORE_THRESHOLD = Fin False y" "y \<le> 1"
    using lit32_unit [of "7 / 10"] by (auto simp: YUNET_SCORE_THRESHOLD_def)
  have "1 \<le> rnd 24 (-149) (1 + t)"
    using t(2) rnd_mono [where p = 24 and emin = "-149" and x = 1 and y = "1 + t"] rnd32_1 by simp
  then show "\<not> f64_lt (f32_add (Fin False 1) SCORE_TOLERANCE) YUNET_SCORE_THRESHOLD"
    "\<not> f64_lt (f32_add (Fin False 1) SCORE_TOLERANCE) (Fin False 1)"
    using y(2) t(2) by (auto simp: t(1) y(1) round32_def fin32_def Let_def)
qed

lemma edge: "f32_add (Fin False 16) (Fin False 96) = Fin False 112"
  by code_simp

lemma sample_face_checked: "is_ok (check_detection sample_face (fl_of_u16 128) (fl_of_u16 128))"
proof -
  have p: "landmark_pairs sample_face = replicate 5 (Fin False 64, Fin False 64)"
    by code_simp
  have s: "f32_sub (Fin False 112) (Fin False 16) = Fin False 96" by code_simp
  have nth: "det_values sample_face ! 0 = Fin False 16" "det_values sample_face ! 1 = Fin False 16" "det_values sample_face ! 2 = Fin False 96"
    "det_values sample_face ! 3 = Fin False 96" "det_values sample_face ! 14 = Fin False 1"
    by code_simp+
  have "list_all is_finite (det_values sample_face)" by code_simp
  with p s edge unit_score nth show ?thesis
    by (simp add: check_detection_def Let_def fl_of_u16_def outside_def list_ex_iff)
qed

lemma unit_embedding_from_raw: "from_raw (emb_values unit_embedding) = Inr unit_embedding"
proof -
  have d: "f32_decode 0x3F800000 = Fin False 1" "f32_decode 0 = Fin False 0"
    by (simp_all add: f32_decode_def Let_def power_int_minus)
  have r: "r64 1 = 1" by (rule r64_rep) simp
  have f: "fin64 False 1 = Fin False 1" "fin64 False 0 = Fin False 0"
    using fin64_small [of 1 False] fin64_small [of 0 False] powi_two_mono [of 0 1000] r by simp_all
  have "r64 (1 / 10 ^ 12) \<le> 1 / 2" using r64_mono [of "1 / 10 ^ 12" "1 / 2"] r64_rep [OF rep64_quarters(1)] by simp
  then have "\<not> f64_le (Fin False 1) MINIMUM_NORM"
    using lit64_value [of "1 / 10 ^ 12"] by (simp add: MINIMUM_NORM_def f64_le_finite)
  moreover have "map (\<lambda>v. f64_as_f32 (f64_div (f32_decode v) (Fin False 1))) (emb_values unit_embedding) = emb_values unit_embedding"
    by (simp add: unit_embedding_def d f one_as_f32)
  moreover have "f64_sqrt (square_sum (emb_values unit_embedding)) = Fin False 1" by (simp add: unit_norm sqrt_fin_1)
  moreover have "\<forall>v \<in> set (emb_values unit_embedding). is_finite (f32_decode v) \<and> \<not> f64_lt MAXIMUM_RAW_ABSOLUTE_VALUE (f64_abs (f32_decode v))"
    by (simp add: unit_embedding_def d MAXIMUM_RAW_ABSOLUTE_VALUE_def)
  ultimately show ?thesis
    using unit_embedding_wf by (simp add: from_raw_def Let_def unit_norm embedding_wf_def)
qed

section \<open>The detection step\<close>

lemma bgr_row_Inl: "bgr_row img source_row output_row n x out = Some (Inl e) \<Longrightarrow> e = InvalidRuntimeOutput"
  by (induction img source_row output_row n x out rule: bgr_row.induct)
    (auto simp: cbind_def usize_fits_def split: if_splits option.splits prod.splits)

lemma bgr_rows_Inl:
  "\<lbrakk>bgr_rows img c i rw n y out = Some (Inl e); \<And>i. control_check c i = Inr ()\<rbrakk> \<Longrightarrow> e = InvalidRuntimeOutput"
proof (induction n arbitrary: i y out)
  case (Suc n)
  then show ?case
    by (auto simp: cbind_def usize_fits_def dest: bgr_row_Inl split: if_splits option.splits sum.splits)
qed simp

lemma striped_bgr:
  assumes "\<And>i. control_check c i = Inr ()"
  shows "\<exists>b. convert_to_bgr striped_image c i = Some (Inr (b, i + 128)) \<and> ri_width b = 128 \<and> ri_height b = 128"
proof -
  obtain r where r: "convert_to_bgr striped_image c i = Some r" "\<And>e. r = Inl e \<Longrightarrow> e \<in> check_errors"
    "\<And>b j. r = Inr (b, j) \<Longrightarrow> j = i + 128 \<and> ri_width b = 128 \<and> ri_height b = 128"
    using convert_to_bgr_run [OF striped_wf, of c i] by (auto simp: max_def)
  have "r \<noteq> Inl e" for e
  proof
    assume e: "r = Inl e"
    with r(1) have "e = InvalidRuntimeOutput"
      by (auto simp: convert_to_bgr_def Let_def cbind_def usize_fits_def dest: bgr_rows_Inl [OF _ assms] split: if_splits option.splits sum.splits)
    with r(2) [OF e] show False by (simp add: check_errors_def)
  qed
  then obtain b j where "r = Inr (b, j)" by (cases r) auto
  with r show ?thesis by blast
qed

lemma striped_detected:
  assumes "\<And>i. control_check c i = Inr ()"
  shows "\<exists>b q j. detect_raw face_native model striped_image c i FullResolution = Some (Inr (b, [sample_face], q, j))
    \<and> flags q = 0 \<and> ri_width b = 128 \<and> ri_height b = 128"
proof -
  obtain q where q: "calculate_quality striped_image c (Suc i) = Some (Inr (q, Suc i + 129))" "flags q = 0"
    using striped_quality [OF assms] by blast
  obtain b where b: "convert_to_bgr striped_image c (Suc i + 129) = Some (Inr (b, Suc i + 129 + 128))" "ri_width b = 128" "ri_height b = 128"
    using striped_bgr [OF assms] by blast
  have d: "detect_at_resolution face_native model (ri_bytes b) 128 128 384 (128, 128) YUNET_TOP_K = Inr [sample_face]"
    using sample_face_detected [of 128 128 "(128, 128)"] by (simp add: YUNET_TOP_K_def)
  obtain fb where fb: "check_detection sample_face (fl_of_u16 128) (fl_of_u16 128) = Inr fb" using sample_face_checked by (auto simp: is_ok_iff)
  obtain f where "observe_face sample_face fb = Some (Inr f)"
    using observe_face_ok [OF detect_at_resolution_wf [OF d] fb] by auto
  then have "validate_detections [sample_face] 128 128 = Some (Inr [f])"
    using fb by (simp add: validate_detections_def YUNET_TOP_K_def u16_try_from_def MAX_FACES_def)
  with q b d assms show ?thesis by (simp add: detect_raw_def usize_fits_def)
qed

end
