(* ===== verification/Identity_Extract.thy ===== *)
theory Identity_Extract
  imports Sample_Face
begin

text \<open>
  \<^verbatim>\<open>engine/vision/src/identity.rs\<close>: extraction of one normalized embedding from exactly one acceptable face. The property
  is what an extracted embedding certifies: a single detection, clean quality, geometry within the margins, a passed
  presentation check when the purpose is authentication, and a well-formed embedding.
\<close>

section \<open>Purposes and errors\<close>

datatype extraction_purpose = LocalProfile | ExperimentalAuth

datatype identity_error = ID_Cancelled | ID_DeadlineExceeded | ID_NoFace | ID_MultipleFaces | ID_PoorQuality
  | ID_FaceGeometry | ID_LivenessUnavailable | ID_InvalidEmbedding | ID_SpoofDetected spoof_kind
  | ID_Runtime bridge_error

fun identity_error_from :: "vision_error \<Rightarrow> identity_error" where
  "identity_error_from Cancelled = ID_Cancelled"
| "identity_error_from DeadlineExceeded = ID_DeadlineExceeded"
| "identity_error_from FaceAtEdge = ID_FaceGeometry"
| "identity_error_from RuntimeFailure = ID_Runtime Bridge_RuntimeFailure"
| "identity_error_from InvalidRuntimeOutput = ID_InvalidEmbedding"

definition MINIMUM_FACE_EDGE :: fl where "MINIMUM_FACE_EDGE = Fin False 80"
definition EDGE_MARGIN :: fl where "EDGE_MARGIN = Fin False 4"

text \<open>The decision is passed as a function of unit: a local profile never asks for it.\<close>

definition require_presentation_policy ::
    "extraction_purpose \<Rightarrow> (unit \<Rightarrow> liveness_decision) \<Rightarrow> identity_error + unit" where
  "require_presentation_policy purpose analyze =
     (if purpose = LocalProfile then Inr ()
      else case analyze () of
        SpoofDetected spoof \<Rightarrow> Inl (ID_SpoofDetected spoof)
      | AnalysisFailed \<Rightarrow> Inl ID_LivenessUnavailable
      | BonaFide \<Rightarrow> Inr ()
      | AwaitingChallenge _ \<Rightarrow> Inr ())"

section \<open>Extraction\<close>

record identity_provider =
  ip_detector :: bytes
  ip_recognizer :: bytes

definition lift_vision :: "'a checked \<Rightarrow> (identity_error + 'a) option" where
  "lift_vision m = map_option (map_err identity_error_from) m"

definition face_geometry_rejected :: "raw_detection \<Rightarrow> fl \<Rightarrow> fl \<Rightarrow> bool" where
  "face_geometry_rejected d image_width image_height \<longleftrightarrow>
     (let x = det_values d ! 0; y = det_values d ! 1; width = det_values d ! 2; height = det_values d ! 3 in
      f64_lt width MINIMUM_FACE_EDGE \<or> f64_lt height MINIMUM_FACE_EDGE
    \<or> f64_lt x EDGE_MARGIN \<or> f64_lt y EDGE_MARGIN
    \<or> f64_lt (f32_sub image_width EDGE_MARGIN) (f32_add x width)
    \<or> f64_lt (f32_sub image_height EDGE_MARGIN) (f32_add y height))"

text \<open>The detections: full resolution first, the tracking size when that finds nothing.\<close>

definition detect_once ::
    "vision_native \<Rightarrow> identity_provider \<Rightarrow> image_view \<Rightarrow> control \<Rightarrow> nat
      \<Rightarrow> (identity_error + runtime_input \<times> raw_detection list \<times> quality_metrics \<times> nat) option" where
  "detect_once vn prov img c i =
     cbind (lift_vision (detect_raw vn (ip_detector prov) img c i FullResolution)) (\<lambda>(bgr, ds, quality, i1).
     if ds = [] then
       cbind (lift_vision (detect_raw vn (ip_detector prov) img c i1 Tracking)) (\<lambda>(_, ts, _, i2).
       Some (Inr (bgr, ts, quality, i2)))
     else Some (Inr (bgr, ds, quality, i1)))"

definition features_of ::
    "vision_native \<Rightarrow> identity_provider \<Rightarrow> control \<Rightarrow> nat \<Rightarrow> extraction_purpose \<Rightarrow> runtime_input \<Rightarrow> raw_detection
      \<Rightarrow> (identity_error + embedding \<times> nat) option" where
  "features_of vn prov c i purpose bgr d =
     cbind (lift_vision (Some (control_check c i))) (\<lambda>_.
     cbind (Some (map_err (\<lambda>_. ID_InvalidEmbedding) (usize_fits (unat (ri_width bgr) * 3)))) (\<lambda>stride.
     cbind (Some (require_presentation_policy purpose (\<lambda>_.
              evaluate_single_frame
                (ok_option (analyze_texture vn (ri_bytes bgr) (ri_width bgr) (ri_height bgr) stride d)) None))) (\<lambda>_.
     cbind (Some (map_err ID_Runtime
              (recognizer_extract vn (ip_recognizer prov) (ri_bytes bgr) (ri_width bgr) (ri_height bgr) stride d))) (\<lambda>raw.
     cbind (lift_vision (Some (control_check c (Suc i)))) (\<lambda>_.
     cbind (Some (map_err (\<lambda>_. ID_InvalidEmbedding) (from_raw raw))) (\<lambda>embedding.
     cbind (lift_vision (Some (control_check c (Suc (Suc i))))) (\<lambda>_.
     Some (Inr (embedding, Suc (Suc (Suc i)))))))))))"

definition extract_embedding ::
    "vision_native \<Rightarrow> identity_provider \<Rightarrow> image_view \<Rightarrow> control \<Rightarrow> nat \<Rightarrow> extraction_purpose
      \<Rightarrow> (identity_error + embedding \<times> nat) option" where
  "extract_embedding vn prov img c i purpose =
     cbind (detect_once vn prov img c i) (\<lambda>(bgr, ds, quality, j).
     if ds = [] then Some (Inl ID_NoFace)
     else if length ds \<noteq> 1 then Some (Inl ID_MultipleFaces)
     else if flags quality \<noteq> 0 then Some (Inl ID_PoorQuality)
     else
       cbind (Some (map_err (\<lambda>_. ID_InvalidEmbedding) (u16_try_from (img_width img)))) (\<lambda>iw.
       cbind (Some (map_err (\<lambda>_. ID_InvalidEmbedding) (u16_try_from (img_height img)))) (\<lambda>ih.
       if face_geometry_rejected (ds ! 0) (fl_of_u16 iw) (fl_of_u16 ih) then Some (Inl ID_FaceGeometry)
       else features_of vn prov c j purpose bgr (ds ! 0))))"

section \<open>What an embedding certifies\<close>

lemma lift_vision_simps [simp]:
  "lift_vision None = None" "lift_vision (Some (Inl e)) = Some (Inl (identity_error_from e))"
  "lift_vision (Some (Inr x)) = Some (Inr x)"
  by (simp_all add: lift_vision_def)

lemma lift_vision_eq_None [simp]: "lift_vision m = None \<longleftrightarrow> m = None"
  by (simp add: lift_vision_def)

lemma lift_vision_eq_Inr: "lift_vision m = Some (Inr x) \<longleftrightarrow> m = Some (Inr x)"
  by (auto simp: lift_vision_def map_err_eq_Inr)

lemma from_raw_wf:
  assumes "from_raw vs = Inr e" "length vs = EMBEDDING_DIMENSION"
  shows "embedding_wf e"
proof -
  define ws where "ws = map (\<lambda>v. f64_as_f32 (f64_div (f32_decode v) (f64_sqrt (square_sum vs)))) vs"
  have n: "from_normalized ws = Inr e"
    using assms(1) by (auto simp: from_raw_def ws_def Let_def split: if_splits)
  then have "emb_values e = ws" by (auto simp: from_normalized_def Let_def split: if_splits)
  with n assms(2) show ?thesis by (simp add: embedding_wf_def ws_def)
qed

lemma detect_raw_wf:
  assumes "detect_raw vn handle img c i mode = Some (Inr (bgr, ds, q, j))"
  shows "list_all detection_wf ds" "is_ok (control_check c i)" "\<exists>k. calculate_quality img c (Suc i) = Some (Inr (q, k))"
  using assms
  by (auto simp: detect_raw_def cbind_eq_Some_Inr map_err_eq_Inr list_all_iff detection_wf_def is_ok_iff
      dest: detect_at_resolution_shape(2))

lemma no_panic_lift_vision [no_panic_rules]: "no_panic m \<Longrightarrow> no_panic (lift_vision m)"
  by (simp add: no_panic_def)

lemma no_panic_detect_raw [no_panic_rules]:
  assumes "view_wf img"
  shows "no_panic (detect_raw vn handle img c i mode)"
proof -
  have q: "no_panic (calculate_quality img c k)" for k using calculate_quality_run [OF assms, of c k] by (auto simp: no_panic_def)
  have b: "no_panic (convert_to_bgr img c k)" for k using convert_to_bgr_run [OF assms, of c k] by (auto simp: no_panic_def)
  have v: "no_panic (validate_detections ds w h)"
    if "Some (map_err map_bridge_error (detect_at_resolution vn m bgr bw bh stride resolution maximum)) = Some (Inr ds)"
    for m bgr bw bh stride resolution maximum ds w h
  proof -
    have "detect_at_resolution vn m bgr bw bh stride resolution maximum = Inr ds"
      using that by (simp add: map_err_eq_Inr)
    from validate_detections_run [OF detect_at_resolution_wf [OF this], where w = w and h = h]
    show ?thesis by (auto simp: no_panic_def)
  qed
  show ?thesis
    unfolding detect_raw_def by (intro no_panic_rules q b v)
qed

lemma no_panic_detect_once [no_panic_rules]: "view_wf img \<Longrightarrow> no_panic (detect_once vn prov img c i)"
  unfolding detect_once_def by (intro no_panic_rules)

lemma no_panic_features_of [no_panic_rules]: "no_panic (features_of vn prov c i purpose bgr d)"
  unfolding features_of_def by (intro no_panic_rules)

lemma no_panic_extract: "view_wf img \<Longrightarrow> no_panic (extract_embedding vn prov img c i purpose)"
  unfolding extract_embedding_def by (intro no_panic_rules)

lemma detect_once_quality:
  assumes "detect_once vn prov img c i = Some (Inr (bgr, ds, q, j))"
  shows "\<exists>k. calculate_quality img c (Suc i) = Some (Inr (q, k))"
  using assms detect_raw_wf(3)
  by (fastforce simp: detect_once_def cbind_eq_Some_Inr lift_vision_eq_Inr split: if_splits)

definition bona_fide_texture :: "vision_native \<Rightarrow> runtime_input \<Rightarrow> raw_detection \<Rightarrow> bool" where
  "bona_fide_texture vn bgr d \<longleftrightarrow>
     (\<exists>m. analyze_texture vn (ri_bytes bgr) (ri_width bgr) (ri_height bgr) (unat (ri_width bgr) * 3) d = Inr m
        \<and> texture_evaluate m = None)"

lemma presentation_policy_ok:
  "require_presentation_policy purpose (\<lambda>_. evaluate_single_frame (ok_option t) None) = Inr u
    \<Longrightarrow> purpose = ExperimentalAuth \<Longrightarrow> \<exists>m. t = Inr m \<and> texture_evaluate m = None"
  by (cases t) (auto simp: require_presentation_policy_def evaluate_single_frame_def split: option.splits)

lemma features_of_Inr:
  assumes "features_of vn prov c i purpose bgr d = Some (Inr (e, j))"
  shows "embedding_wf e" "purpose = ExperimentalAuth \<longrightarrow> bona_fide_texture vn bgr d" "j = i + 3"
    "is_ok (control_check c (j - 1))"
proof -
  obtain stride raw u where f: "usize_fits (unat (ri_width bgr) * 3) = Inr stride"
    "require_presentation_policy purpose (\<lambda>_. evaluate_single_frame
       (ok_option (analyze_texture vn (ri_bytes bgr) (ri_width bgr) (ri_height bgr) stride d)) None) = Inr u"
    "recognizer_extract vn (ip_recognizer prov) (ri_bytes bgr) (ri_width bgr) (ri_height bgr) stride d = Inr raw"
    "from_raw raw = Inr e" "is_ok (control_check c (Suc (Suc i)))" "j = i + 3"
    using assms by (auto simp: features_of_def cbind_eq_Some_Inr map_err_eq_Inr lift_vision_eq_Inr is_ok_iff)
  then show "embedding_wf e" "j = i + 3" "is_ok (control_check c (j - 1))"
    using from_raw_wf recognizer_extract_shape by (auto simp: numeral_3_eq_3)
  have "stride = unat (ri_width bgr) * 3" using f(1) by (simp add: usize_fits_def split: if_splits)
  with presentation_policy_ok [OF f(2)] show "purpose = ExperimentalAuth \<longrightarrow> bona_fide_texture vn bgr d"
    by (auto simp: bona_fide_texture_def)
qed

text \<open>
  Claim C30: extraction never panics on an accepted image, and an embedding it returns is well formed (128 normalized values)
  and certifies that exactly one face was detected in an image of clean quality, large enough and clear of the edges,
  that for authentication the passive presentation check passed, and that at its last check the attempt was neither
  cancelled nor past its deadline.
\<close>

theorem extract_certifies:
  assumes "image_view_new f w h s bs = Inr img"
  shows "extract_embedding vn prov img c i purpose \<noteq> None
    \<and> (\<forall>e j. extract_embedding vn prov img c i purpose = Some (Inr (e, j)) \<longrightarrow>
         embedding_wf e \<and> \<not> ctl_cancelled c (j - 1) \<and> ctl_clock c (j - 1) < ctl_deadline c
       \<and> (\<exists>bgr d q k. detect_once vn prov img c i = Some (Inr (bgr, [d], q, k))
            \<and> 20 \<le> brightness q \<and> brightness q \<le> 220 \<and> 16 \<le> contrast q \<and> 1 \<le> sharpness q
            \<and> \<not> face_geometry_rejected d (fl_of_u16 (unat w)) (fl_of_u16 (unat h))
            \<and> (purpose = ExperimentalAuth \<longrightarrow> bona_fide_texture vn bgr d)))"
proof (intro conjI allI impI)
  have wf: "view_wf img" by (rule image_view_new_wf [OF assms])
  have dims: "img_width img = w" "img_height img = h"
    using assms by (auto simp: image_view_new_def rbind_eq_Inr split: if_splits)
  show "extract_embedding vn prov img c i purpose \<noteq> None"
    using no_panic_extract [OF wf] by (simp add: no_panic_def)
  fix e j
  assume "extract_embedding vn prov img c i purpose = Some (Inr (e, j))"
  then obtain bgr ds q k where d: "detect_once vn prov img c i = Some (Inr (bgr, ds, q, k))" "ds \<noteq> []" "length ds = 1"
    "flags q = 0" "\<not> face_geometry_rejected (ds ! 0) (fl_of_u16 (unat w)) (fl_of_u16 (unat h))"
    "features_of vn prov c k purpose bgr (ds ! 0) = Some (Inr (e, j))"
    by (auto simp: extract_embedding_def cbind_eq_Some_Inr map_err_eq_Inr u16_try_from_def dims split: if_splits)
  note F = features_of_Inr [OF d(6)]
  show "embedding_wf e" by (rule F(1))
  show "\<not> ctl_cancelled c (j - 1)" "ctl_clock c (j - 1) < ctl_deadline c"
    using F(4) by (auto simp: is_ok_iff control_check_def split: if_splits)
  obtain k' where "calculate_quality img c (Suc i) = Some (Inr (q, k'))" using detect_once_quality [OF d(1)] by blast
  then have q: "20 \<le> brightness q \<and> brightness q \<le> 220 \<and> 16 \<le> contrast q \<and> 1 \<le> sharpness q"
    using calculate_quality_run [OF wf, of c "Suc i"] d(4) by auto
  obtain x where "ds = [x]" using d(2,3) by (cases ds) auto
  with d F(2) q show "\<exists>bgr d q k. detect_once vn prov img c i = Some (Inr (bgr, [d], q, k))
            \<and> 20 \<le> brightness q \<and> brightness q \<le> 220 \<and> 16 \<le> contrast q \<and> 1 \<le> sharpness q
            \<and> \<not> face_geometry_rejected d (fl_of_u16 (unat w)) (fl_of_u16 (unat h))
            \<and> (purpose = ExperimentalAuth \<longrightarrow> bona_fide_texture vn bgr d)"
    by (intro exI [of _ bgr] exI [of _ x] exI [of _ q] exI [of _ k]) simp
qed

text \<open>The striped image goes through for both purposes, with the unit vector as its embedding.\<close>

lemma striped_extracted:
  assumes "\<And>i. control_check c i = Inr ()"
  shows "\<exists>j. extract_embedding face_native prov striped_image c i purpose = Some (Inr (unit_embedding, j))"
proof -
  obtain b q j where d: "detect_raw face_native (ip_detector prov) striped_image c i FullResolution = Some (Inr (b, [sample_face], q, j))"
    "flags q = 0" "ri_width b = 128" "ri_height b = 128" using striped_detected [OF assms] by blast
  then have once: "detect_once face_native prov striped_image c i = Some (Inr (b, [sample_face], q, j))" by (simp add: detect_once_def)
  have g: "\<not> face_geometry_rejected sample_face (fl_of_u16 128) (fl_of_u16 128)"
    unfolding fl_of_u16_def of_nat_numeral by code_simp
  have "map ((!) (emb_values unit_embedding)) [0..<EMBEDDING_DIMENSION] = emb_values unit_embedding"
    using map_nth [of "emb_values unit_embedding"] unit_embedding_wf by (simp add: embedding_wf_def)
  then have r: "recognizer_extract face_native (ip_recognizer prov) (ri_bytes b) 128 128 384 sample_face = Inr (emb_values unit_embedding)"
    by (simp add: recognizer_extract_def face_native_def i32_try_from_def bridge_status_result_def) (simp add: EMBEDDING_DIMENSION_def)
  have "analyze_texture face_native (ri_bytes b) 128 128 384 sample_face = Inr calm_texture"
    by (simp add: analyze_texture_def face_native_def i32_try_from_def bridge_status_result_def)
  then have "features_of face_native prov c j purpose b sample_face = Some (Inr (unit_embedding, Suc (Suc (Suc j))))"
    using r assms d(3,4) unit_embedding_from_raw calm_texture_ok
    by (simp add: features_of_def usize_fits_def require_presentation_policy_def evaluate_single_frame_def)
  with once g d(2) show ?thesis by (simp add: extract_embedding_def u16_try_from_def)
qed

lemma free_control_passes: "control_check free_control i = Inr ()"
  by (simp add: control_check_def free_control_def)

theorem extract_certifies_witness:
  "\<exists>j. extract_embedding face_native \<lparr>ip_detector = [], ip_recognizer = []\<rparr> striped_image free_control 0 ExperimentalAuth
      = Some (Inr (unit_embedding, j))
    \<and> image_view_new Gray8 128 128 128 (stripes 16384) = Inr striped_image \<and> embedding_wf unit_embedding
    \<and> (\<exists>bgr d q k. detect_once face_native \<lparr>ip_detector = [], ip_recognizer = []\<rparr> striped_image free_control 0
          = Some (Inr (bgr, [d], q, k)) \<and> 16 \<le> contrast q \<and> bona_fide_texture face_native bgr d)"
proof -
  obtain j where j: "extract_embedding face_native \<lparr>ip_detector = [], ip_recognizer = []\<rparr> striped_image free_control 0 ExperimentalAuth
      = Some (Inr (unit_embedding, j))" using striped_extracted [OF free_control_passes] by blast
  from extract_certifies [OF striped_image_ok, of face_native "\<lparr>ip_detector = [], ip_recognizer = []\<rparr>" free_control 0 ExperimentalAuth]
    j striped_image_ok show ?thesis by blast
qed

end
