(* ===== verification/Model_Loader.thy ===== *)
theory Model_Loader
  imports Model_Inventory Identity_Extract
begin

text \<open>
  Loading the two networks: \<^verbatim>\<open>YuNetProvider::from_model_root\<close> of \<^verbatim>\<open>engine/vision/src/yunet.rs\<close> and
  \<^verbatim>\<open>IdentityProvider::from_model_root\<close> of \<^verbatim>\<open>engine/vision/src/identity.rs\<close>. Both verify the complete inventory and then
  insist on the exact metadata the program was built for; the lemmas show that the bytes handed to the runtime are pinned by
  the digests compiled into it.
\<close>

section \<open>The expected artifacts\<close>

definition YUNET_ARTIFACT_ID :: string where "YUNET_ARTIFACT_ID = ''yunet-2023mar''"
definition YUNET_MODEL_PATH :: string where "YUNET_MODEL_PATH = ''files/face_detection_yunet_2023mar.onnx''"
definition YUNET_MODEL_SIZE :: u64 where "YUNET_MODEL_SIZE = 232589"
definition YUNET_MODEL_SHA256 :: string where
  "YUNET_MODEL_SHA256 = ''8f2383e4dd3cfbb4553ea8718107fc0423210dc964f9f4280604804ed2552fa4''"
definition INITIAL_WIDTH :: u32 where "INITIAL_WIDTH = 320"
definition INITIAL_HEIGHT :: u32 where "INITIAL_HEIGHT = 320"

definition SFACE_ARTIFACT_ID :: string where "SFACE_ARTIFACT_ID = ''sface-2021dec''"
definition SFACE_MODEL_PATH :: string where "SFACE_MODEL_PATH = ''files/face_recognition_sface_2021dec.onnx''"
definition SFACE_MODEL_SIZE :: u64 where "SFACE_MODEL_SIZE = 38696353"

datatype provider_load_error = PL_Model model_error | PL_UnexpectedModelMetadata | PL_Runtime bridge_error

datatype identity_load_error = IL_Model model_error | IL_Detector provider_load_error | IL_UnexpectedModelMetadata
  | IL_Runtime bridge_error

text \<open>Paths are compared as \<^verbatim>\<open>Path\<close>, by their components.\<close>

definition yunet_require_expected_metadata :: "manifest_entry \<Rightarrow> provider_load_error + unit" where
  "yunet_require_expected_metadata e =
     (if me_id e \<noteq> YUNET_ARTIFACT_ID \<or> components (me_path e) \<noteq> components YUNET_MODEL_PATH
         \<or> me_size e \<noteq> YUNET_MODEL_SIZE \<or> me_sha256 e \<noteq> YUNET_MODEL_SHA256 \<or> me_role e \<noteq> ''detector''
         \<or> me_backend e \<noteq> ''opencv-facedetectoryn'' \<or> me_license e \<noteq> ''MIT'' \<or> me_provenance e \<noteq> ''opencv-zoo-47534e27''
      then Inl PL_UnexpectedModelMetadata else Inr ())"

definition sface_require_expected_metadata :: "manifest_entry \<Rightarrow> identity_load_error + unit" where
  "sface_require_expected_metadata e =
     (if me_id e \<noteq> SFACE_ARTIFACT_ID \<or> components (me_path e) \<noteq> components SFACE_MODEL_PATH
         \<or> me_size e \<noteq> SFACE_MODEL_SIZE \<or> me_sha256 e \<noteq> SFACE_MODEL_SHA256 \<or> me_role e \<noteq> ''embedding''
         \<or> me_backend e \<noteq> ''opencv-facerecognizersf'' \<or> me_license e \<noteq> ''Apache-2.0''
         \<or> me_provenance e \<noteq> ''opencv-zoo-47534e27''
      then Inl IL_UnexpectedModelMetadata else Inr ())"

section \<open>Providers\<close>

definition yunet_from_verified_artifact :: "vision_native \<Rightarrow> verified_artifact \<Rightarrow> provider_load_error + bytes" where
  "yunet_from_verified_artifact vn a =
     rbind (yunet_require_expected_metadata (va_entry a)) (\<lambda>_.
     map_err PL_Runtime (detector_new vn (va_bytes a) INITIAL_WIDTH INITIAL_HEIGHT YUNET_TOP_K))"

definition artifact_find :: "verified_artifact list \<Rightarrow> string \<Rightarrow> verified_artifact option" where
  "artifact_find as ident = find (\<lambda>a. me_id (va_entry a) = ident) as"

definition yunet_from_model_root ::
    "vision_native \<Rightarrow> native \<Rightarrow> listing \<Rightarrow> string \<Rightarrow> (provider_load_error, bytes) io" where
  "yunet_from_model_root vn nv ls dir =
     wbind (wmap_err PL_Model (load_and_verify_model_inventory nv ls dir)) (\<lambda>(m, as).
     wlift (
       rbind (ok_or PL_UnexpectedModelMetadata (manifest_find m YUNET_ARTIFACT_ID)) (\<lambda>e.
       rbind (yunet_require_expected_metadata e) (\<lambda>_.
       rbind (ok_or PL_UnexpectedModelMetadata (artifact_find as YUNET_ARTIFACT_ID)) (yunet_from_verified_artifact vn)))))"

definition identity_from_model_root ::
    "vision_native \<Rightarrow> native \<Rightarrow> listing \<Rightarrow> string \<Rightarrow> (identity_load_error, identity_provider) io" where
  "identity_from_model_root vn nv ls dir =
     wbind (wmap_err IL_Model (load_and_verify_model_inventory nv ls dir)) (\<lambda>(m, as).
     wlift (
       rbind (ok_or IL_UnexpectedModelMetadata (manifest_find m SFACE_ARTIFACT_ID)) (\<lambda>e.
       rbind (sface_require_expected_metadata e) (\<lambda>_.
       rbind (ok_or IL_UnexpectedModelMetadata (artifact_find as YUNET_ARTIFACT_ID)) (\<lambda>ya.
       rbind (map_err (\<lambda>_. IL_UnexpectedModelMetadata) (yunet_from_verified_artifact vn ya)) (\<lambda>detector.
       rbind (ok_or IL_UnexpectedModelMetadata (artifact_find as SFACE_ARTIFACT_ID)) (\<lambda>sa.
       rbind (sface_require_expected_metadata (va_entry sa)) (\<lambda>_.
       rbind (map_err IL_Runtime (recognizer_new vn (va_bytes sa))) (\<lambda>recognizer.
       Inr \<lparr>ip_detector = detector, ip_recognizer = recognizer\<rparr>)))))))))"

section \<open>The networks are pinned\<close>

lemma detector_new_Inr: "detector_new vn model width height top_k = Inr d \<Longrightarrow> d = model"
  by (auto simp: detector_new_def result_iffs split: prod.splits if_splits)

lemma recognizer_new_Inr: "recognizer_new vn model = Inr r \<Longrightarrow> r = model"
  by (auto simp: recognizer_new_def result_iffs split: prod.splits if_splits)

lemma inventory_artifacts:
  assumes "load_and_verify_model_inventory nv ls dir w = (Inr (m, as), w')"
  shows "list_all (\<lambda>a. digest_hex nv (va_bytes a) = me_sha256 (va_entry a) \<and> length (va_bytes a) = unat (me_size (va_entry a))) as"
proof -
  obtain v where "load_entries nv dir m v = (Inr as, w')"
    using assms by (auto simp: load_and_verify_model_inventory_def io_success Let_def split: if_splits)
  from load_entries_Inr [OF this] show ?thesis by (auto simp: list_all_iff artifact_verified_def)
qed

text \<open>What a provider was built from: bytes with the digests and sizes that the program names.\<close>

definition provider_pinned :: "native \<Rightarrow> identity_provider \<Rightarrow> bool" where
  "provider_pinned nv prov \<longleftrightarrow>
     digest_hex nv (ip_detector prov) = YUNET_MODEL_SHA256 \<and> length (ip_detector prov) = unat YUNET_MODEL_SIZE
   \<and> digest_hex nv (ip_recognizer prov) = SFACE_MODEL_SHA256 \<and> length (ip_recognizer prov) = unat SFACE_MODEL_SIZE"

lemma identity_from_model_root_pinned:
  assumes "identity_from_model_root vn nv ls dir w = (Inr prov, w')"
  shows "provider_pinned nv prov"
proof -
  obtain m as ya sa where inv: "load_and_verify_model_inventory nv ls dir w = (Inr (m, as), w')"
    and y: "artifact_find as YUNET_ARTIFACT_ID = Some ya" "yunet_from_verified_artifact vn ya = Inr (ip_detector prov)"
    and s: "artifact_find as SFACE_ARTIFACT_ID = Some sa" "sface_require_expected_metadata (va_entry sa) = Inr ()"
      "recognizer_new vn (va_bytes sa) = Inr (ip_recognizer prov)"
    using assms by (auto simp: identity_from_model_root_def io_success result_iffs)
  have "yunet_require_expected_metadata (va_entry ya) = Inr ()" "va_bytes ya = ip_detector prov"
    using y(2) by (auto simp: yunet_from_verified_artifact_def result_iffs dest: detector_new_Inr)
  moreover have "ya \<in> set as" "sa \<in> set as"
    using y(1) s(1) by (auto simp: artifact_find_def find_Some_iff)
  moreover have "va_bytes sa = ip_recognizer prov" using recognizer_new_Inr [OF s(3)] by simp
  ultimately show ?thesis using inventory_artifacts [OF inv] s(2)
    by (auto simp: provider_pinned_def list_all_iff yunet_require_expected_metadata_def sface_require_expected_metadata_def
        split: if_splits)
qed

end
