(* ===== verification/Vault_Codec.thy ===== *)
theory Vault_Codec
  imports Face_Profile Crypto_Bridge
begin

text \<open>
  The two layers of the vault file of \<^verbatim>\<open>engine/templates/src/lib.rs\<close>: the profile plaintext
  (\<^verbatim>\<open>encode_profile\<close>, \<^verbatim>\<open>decode_profile\<close> over a \<^verbatim>\<open>Cursor\<close>, whose state here is the unread suffix) and the
  authenticated envelope around it (\<^verbatim>\<open>associated_data\<close>, \<^verbatim>\<open>encode_vault\<close>, \<^verbatim>\<open>decode_vault\<close>). Both layers are
  shown to be exact: a file decodes to a profile just when it is an encoding of that profile.
\<close>

section \<open>Errors and constants\<close>

text \<open>\<open>V_Panic\<close> stands for the abort of a failed \<^verbatim>\<open>expect\<close>.\<close>

datatype key_provider_error = KP_Locked | KP_Cancelled | KP_Unavailable

datatype vault_error =
    V_Io io_kind
  | V_Crypto crypto_error
  | V_KeyProvider key_provider_error
  | V_Unavailable
  | V_NotFound
  | V_UnsafeFilesystem
  | V_LockTimeout
  | V_Oversized
  | V_Corrupt
  | V_UnknownSchema
  | V_WrongUid
  | V_ModelMismatch
  | V_ProfileBounds
  | V_InvalidEmbedding
  | V_Panic

definition io_vault_error :: "io_kind \<Rightarrow> vault_error" where
  "io_vault_error k = (if k = NotFound then V_NotFound else V_Io k)"

definition str_bytes :: "string \<Rightarrow> bytes" where
  "str_bytes s = map (\<lambda>c. word_of_nat (byte c)) s"

definition VAULT_MAGIC :: bytes where "VAULT_MAGIC = str_bytes ''KFAVLT04''"
definition PROFILE_MAGIC :: bytes where "PROFILE_MAGIC = str_bytes ''KFAIDP01''"
definition VAULT_SCHEMA :: u16 where "VAULT_SCHEMA = 1"
definition PROFILE_SCHEMA :: u16 where "PROFILE_SCHEMA = 1"

definition OUTER_HEADER_BYTES :: nat where
  "OUTER_HEADER_BYTES = 8 + 2 + NONCE_BYTES + 4 + TAG_BYTES"

definition MAXIMUM_VAULT_BYTES :: nat where
  "MAXIMUM_VAULT_BYTES = 16 * 1024"

section \<open>The profile plaintext\<close>

definition push_string :: "string \<Rightarrow> vault_error + bytes" where
  "push_string s =
     (if length s < 256 then Inr (word_of_nat (length s) # str_bytes s) else Inl V_Corrupt)"

definition embedding_bytes :: "embedding \<Rightarrow> bytes" where
  "embedding_bytes e = concat (map u32_le (emb_values e))"

definition encode_profile :: "profile \<Rightarrow> u32 \<Rightarrow> vault_error + bytes" where
  "encode_profile p uid =
     rbind (push_string DETECTOR_MODEL_ID) (\<lambda>s1.
     rbind (push_string EMBEDDING_MODEL_ID) (\<lambda>s2.
     rbind (push_string SFACE_MODEL_SHA256) (\<lambda>s3.
     rbind (push_string EMBEDDING_FORMAT_ID) (\<lambda>s4.
     if sample_count p > 255 then Inl V_Panic
     else Inr (PROFILE_MAGIC @ u16_be PROFILE_SCHEMA @ u32_be uid @ s1 @ s2 @ s3 @ s4
       @ u16_be (word_of_nat EMBEDDING_DIMENSION) @ u16_be NORMALIZATION_VERSION
       @ [word_of_nat (sample_count p)] @ concat (map embedding_bytes (samples p)))))))"

definition cur_take :: "nat \<Rightarrow> bytes \<Rightarrow> vault_error + bytes \<times> bytes" where
  "cur_take n s = (if n \<le> length s then Inr (take n s, drop n s) else Inl V_Corrupt)"

definition cur_u8 :: "bytes \<Rightarrow> vault_error + u8 \<times> bytes" where
  "cur_u8 s = rbind (cur_take 1 s) (\<lambda>(bs, r). Inr (hd bs, r))"

definition cur_u16 :: "bytes \<Rightarrow> vault_error + u16 \<times> bytes" where
  "cur_u16 s = rbind (cur_take 2 s) (\<lambda>(bs, r). Inr (u16_from_be bs, r))"

definition cur_u32 :: "bytes \<Rightarrow> vault_error + u32 \<times> bytes" where
  "cur_u32 s = rbind (cur_take 4 s) (\<lambda>(bs, r). Inr (u32_from_be bs, r))"

definition cur_string :: "bytes \<Rightarrow> vault_error + bytes \<times> bytes" where
  "cur_string s =
     rbind (cur_u8 s) (\<lambda>(n, r).
     rbind (cur_take (unat n) r) (\<lambda>(bs, r').
     if utf8_valid (map unat bs) then Inr (bs, r') else Inl V_Corrupt))"

fun read_values :: "nat \<Rightarrow> bytes \<Rightarrow> vault_error + f32 list \<times> bytes" where
  "read_values 0 s = Inr ([], s)"
| "read_values (Suc n) s =
     rbind (cur_take 4 s) (\<lambda>(bs, r).
     rbind (read_values n r) (\<lambda>(vs, r'). Inr (u32_from_le bs # vs, r')))"

fun read_samples :: "nat \<Rightarrow> bytes \<Rightarrow> vault_error + embedding list \<times> bytes" where
  "read_samples 0 s = Inr ([], s)"
| "read_samples (Suc n) s =
     rbind (read_values EMBEDDING_DIMENSION s) (\<lambda>(vs, r).
     rbind (map_err (\<lambda>_. V_InvalidEmbedding) (from_normalized vs)) (\<lambda>e.
     rbind (read_samples n r) (\<lambda>(es, r'). Inr (e # es, r'))))"

text \<open>The model identity check, read and compared field by field, stopping at the first mismatch.\<close>

definition expect_string :: "string \<Rightarrow> bytes \<Rightarrow> vault_error + bytes" where
  "expect_string expected s =
     rbind (cur_string s) (\<lambda>(v, r). if v \<noteq> str_bytes expected then Inl V_ModelMismatch else Inr r)"

definition decode_identity :: "bytes \<Rightarrow> vault_error + bytes" where
  "decode_identity s =
     rbind (expect_string DETECTOR_MODEL_ID s) (\<lambda>s1.
     rbind (expect_string EMBEDDING_MODEL_ID s1) (\<lambda>s2.
     rbind (expect_string SFACE_MODEL_SHA256 s2) (\<lambda>s3.
     rbind (expect_string EMBEDDING_FORMAT_ID s3) (\<lambda>s4.
     rbind (cur_u16 s4) (\<lambda>(dim, s5).
     if unat dim \<noteq> EMBEDDING_DIMENSION then Inl V_ModelMismatch
     else rbind (cur_u16 s5) (\<lambda>(version, s6).
       if version \<noteq> NORMALIZATION_VERSION then Inl V_ModelMismatch else Inr s6))))))"

definition decode_profile :: "bytes \<Rightarrow> u32 \<Rightarrow> vault_error + profile" where
  "decode_profile plaintext expected_uid =
     rbind (cur_take 8 plaintext) (\<lambda>(magic, s1).
     if magic \<noteq> PROFILE_MAGIC then Inl V_Corrupt
     else rbind (cur_u16 s1) (\<lambda>(schema, s2).
     if schema \<noteq> PROFILE_SCHEMA then Inl V_UnknownSchema
     else rbind (cur_u32 s2) (\<lambda>(uid, s3).
     if uid \<noteq> expected_uid then Inl V_WrongUid
     else rbind (decode_identity s3) (\<lambda>s4.
     rbind (cur_u8 s4) (\<lambda>(count, s5).
     let sample_count = unat count in
     if \<not> (MINIMUM_PROFILE_SAMPLES \<le> sample_count \<and> sample_count \<le> MAXIMUM_PROFILE_SAMPLES)
     then Inl V_ProfileBounds
     else if length s5 \<noteq> sample_count * EMBEDDING_DIMENSION * 4 then Inl V_Corrupt
     else rbind (read_samples sample_count s5) (\<lambda>(es, _).
       ok_or V_ProfileBounds (profile_new es)))))))"

section \<open>The authenticated envelope\<close>

definition associated_data :: "u32 \<Rightarrow> bytes" where
  "associated_data uid =
     str_bytes ''io.github.loofiboss_bit.KFaceAuth/user-session-vault'' @ u16_be VAULT_SCHEMA
       @ u32_be uid @ str_bytes DETECTOR_MODEL_ID @ [0] @ str_bytes EMBEDDING_MODEL_ID @ [0]
       @ str_bytes SFACE_MODEL_SHA256 @ [0] @ str_bytes EMBEDDING_FORMAT_ID
       @ u16_be (word_of_nat EMBEDDING_DIMENSION) @ u16_be NORMALIZATION_VERSION"

text \<open>\<open>nonce\<close> is what \<^verbatim>\<open>random::<NONCE_BYTES>()\<close> returned.\<close>

definition encode_vault ::
    "native \<Rightarrow> crypto_error + bytes \<Rightarrow> profile \<Rightarrow> bytes \<Rightarrow> u32 \<Rightarrow> vault_error + bytes" where
  "encode_vault nv nonce_result p key uid =
     rbind (encode_profile p uid) (\<lambda>plaintext.
     rbind (map_err V_Crypto nonce_result) (\<lambda>nonce.
     rbind (map_err V_Crypto (encrypt nv key nonce (associated_data uid) plaintext))
       (\<lambda>(ciphertext, tag).
     if \<not> length ciphertext < 2 ^ 32 then Inl V_Oversized
     else let output = VAULT_MAGIC @ u16_be VAULT_SCHEMA @ nonce
            @ u32_be (word_of_nat (length ciphertext)) @ tag @ ciphertext
       in if length output > MAXIMUM_VAULT_BYTES then Inl V_Oversized else Inr output)))"

definition decode_vault :: "native \<Rightarrow> bytes \<Rightarrow> bytes \<Rightarrow> u32 \<Rightarrow> vault_error + profile" where
  "decode_vault nv bs key uid =
     (if length bs < OUTER_HEADER_BYTES \<or> length bs > MAXIMUM_VAULT_BYTES then Inl V_Corrupt
      else if bslice 0 8 bs \<noteq> VAULT_MAGIC then Inl V_Corrupt
      else if u16_from_be (bslice 8 10 bs) \<noteq> VAULT_SCHEMA then Inl V_UnknownSchema
      else
        let nonce = bslice 10 (10 + NONCE_BYTES) bs;
            length_offset = 10 + NONCE_BYTES;
            ciphertext_length = unat (u32_from_be (bslice length_offset (length_offset + 4) bs));
            tag_offset = length_offset + 4;
            tag = bslice tag_offset (tag_offset + TAG_BYTES) bs;
            ciphertext_offset = tag_offset + TAG_BYTES
        in if ciphertext_length = 0 \<or> ciphertext_offset + ciphertext_length \<noteq> length bs
           then Inl V_Corrupt
           else rbind (map_err V_Crypto
                  (decrypt nv key nonce (associated_data uid) (drop ciphertext_offset bs) tag))
             (\<lambda>plaintext. decode_profile plaintext uid))"

section \<open>The cursor reads what the encoder writes\<close>

text \<open>Each reader succeeds exactly on its encoding, and leaves the rest.\<close>

lemma cur_take_iff: "cur_take n s = Inr (a, r) \<longleftrightarrow> length a = n \<and> s = a @ r"
  by (auto simp: cur_take_def)

lemma cur_u8_iff: "cur_u8 s = Inr (b, r) \<longleftrightarrow> s = b # r"
proof
  assume "cur_u8 s = Inr (b, r)"
  then obtain bs where "length bs = 1" "s = bs @ r" "b = hd bs"
    by (auto simp: cur_u8_def rbind_eq_Inr cur_take_iff)
  then show "s = b # r" by (cases bs) auto
qed (simp add: cur_u8_def cur_take_def)

lemma cur_u16_iff: "cur_u16 s = Inr (w, r) \<longleftrightarrow> s = u16_be w @ r"
  by (auto simp: cur_u16_def rbind_eq_Inr cur_take_iff be_to_from
      intro!: exI [of _ "u16_be w"])

lemma cur_u32_iff: "cur_u32 s = Inr (w, r) \<longleftrightarrow> s = u32_be w @ r"
  by (auto simp: cur_u32_def rbind_eq_Inr cur_take_iff be_to_from
      intro!: exI [of _ "u32_be w"])

lemma length_str_bytes [simp]: "length (str_bytes s) = length s"
  by (simp add: str_bytes_def)

lemma utf8_valid_str_bytes: "is_ascii s \<Longrightarrow> utf8_valid (map unat (str_bytes s))"
  using utf8_valid_is_ascii [of s] by (simp add: str_bytes_def o_def)

lemma expect_string_iff:
  assumes "is_ascii e" "length e < 256"
  shows "expect_string e s = Inr r \<longleftrightarrow> s = word_of_nat (length e) # str_bytes e @ r"
proof
  assume "expect_string e s = Inr r"
  then obtain n t where n: "cur_u8 s = Inr (n, t)" "cur_take (unat n) t = Inr (str_bytes e, r)"
    by (auto simp: expect_string_def cur_string_def rbind_eq_Inr split: if_splits)
  then have "length e = unat n" by (auto simp: cur_take_iff)
  then have "n = word_of_nat (length e)" by simp
  with n show "s = word_of_nat (length e) # str_bytes e @ r" by (auto simp: cur_u8_iff cur_take_iff)
next
  assume s: "s = word_of_nat (length e) # str_bytes e @ r"
  then have "cur_u8 s = Inr (word_of_nat (length e), str_bytes e @ r)" by (simp add: cur_u8_iff)
  moreover have "cur_take (length e) (str_bytes e @ r) = Inr (str_bytes e, r)"
    by (simp add: cur_take_iff)
  ultimately show "expect_string e s = Inr r"
    using assms utf8_valid_str_bytes [of e] by (simp add: expect_string_def cur_string_def)
qed

lemma model_ids [simp]:
  "is_ascii DETECTOR_MODEL_ID" "is_ascii EMBEDDING_MODEL_ID" "is_ascii SFACE_MODEL_SHA256"
  "is_ascii EMBEDDING_FORMAT_ID" "length DETECTOR_MODEL_ID = 16" "length EMBEDDING_MODEL_ID = 21"
  "length SFACE_MODEL_SHA256 = 64" "length EMBEDDING_FORMAT_ID = 22"
  by (simp_all add: DETECTOR_MODEL_ID_def EMBEDDING_MODEL_ID_def SFACE_MODEL_SHA256_def
      EMBEDDING_FORMAT_ID_def byte_def)

definition identity_bytes :: bytes where
  "identity_bytes = (16 # str_bytes DETECTOR_MODEL_ID) @ (21 # str_bytes EMBEDDING_MODEL_ID)
     @ (64 # str_bytes SFACE_MODEL_SHA256) @ (22 # str_bytes EMBEDDING_FORMAT_ID)
     @ u16_be (word_of_nat EMBEDDING_DIMENSION) @ u16_be NORMALIZATION_VERSION"

lemma decode_identity_iff: "decode_identity s = Inr r \<longleftrightarrow> s = identity_bytes @ r"
proof -
  have d: "unat w = EMBEDDING_DIMENSION \<longleftrightarrow> w = word_of_nat EMBEDDING_DIMENSION" for w :: u16
    by (auto simp: EMBEDDING_DIMENSION_def word_unat_eq_iff)
  have "decode_identity s = Inr r \<longleftrightarrow> (\<exists>s1 s2 s3 s4 s5.
      s = 16 # str_bytes DETECTOR_MODEL_ID @ s1 \<and> s1 = 21 # str_bytes EMBEDDING_MODEL_ID @ s2
    \<and> s2 = 64 # str_bytes SFACE_MODEL_SHA256 @ s3 \<and> s3 = 22 # str_bytes EMBEDDING_FORMAT_ID @ s4
    \<and> s4 = u16_be (word_of_nat EMBEDDING_DIMENSION) @ s5 \<and> s5 = u16_be NORMALIZATION_VERSION @ r)"
    by (auto simp: decode_identity_def rbind_eq_Inr expect_string_iff cur_u16_iff d split: if_splits)
  then show ?thesis by (simp add: identity_bytes_def)
qed

lemma read_values_iff:
  "read_values n s = Inr (vs, r) \<longleftrightarrow> length vs = n \<and> s = concat (map u32_le vs) @ r"
proof (induction n arbitrary: s vs)
  case (Suc n)
  have "read_values (Suc n) s = Inr (vs, r)
      \<longleftrightarrow> (\<exists>bs t ws. length bs = 4 \<and> s = bs @ t \<and> read_values n t = Inr (ws, r) \<and> vs = u32_from_le bs # ws)"
    by (auto simp: rbind_eq_Inr cur_take_iff)
  also have "\<dots> \<longleftrightarrow> (\<exists>w ws. vs = w # ws \<and> length ws = n \<and> s = u32_le w @ concat (map u32_le ws) @ r)"
    using Suc.IH le_to_from by (metis be_roundtrip(4) length_codecs(4))
  also have "\<dots> \<longleftrightarrow> length vs = Suc n \<and> s = concat (map u32_le vs) @ r"
    by (auto simp: length_Suc_conv)
  finally show ?case .
qed auto

lemma from_normalized_values: "from_normalized vs = Inr e \<Longrightarrow> emb_values e = vs"
  by (auto simp: from_normalized_def Let_def split: if_splits)

lemma read_samples_iff:
  "read_samples n s = Inr (es, r)
     \<longleftrightarrow> length es = n \<and> (\<forall>e \<in> set es. embedding_wf e) \<and> s = concat (map embedding_bytes es) @ r"
proof (induction n arbitrary: s es)
  case (Suc n)
  have "read_samples (Suc n) s = Inr (es, r)
      \<longleftrightarrow> (\<exists>vs t e fs. length vs = EMBEDDING_DIMENSION \<and> s = concat (map u32_le vs) @ t
            \<and> from_normalized vs = Inr e \<and> read_samples n t = Inr (fs, r) \<and> es = e # fs)"
    by (auto simp: rbind_eq_Inr map_err_eq_Inr read_values_iff)
  also have "\<dots> \<longleftrightarrow> (\<exists>e fs. es = e # fs \<and> embedding_wf e \<and> length fs = n
      \<and> (\<forall>e \<in> set fs. embedding_wf e) \<and> s = embedding_bytes e @ concat (map embedding_bytes fs) @ r)"
    unfolding Suc.IH embedding_wf_def embedding_bytes_def
    by (auto dest: from_normalized_values)
  also have "\<dots> \<longleftrightarrow> length es = Suc n \<and> (\<forall>e \<in> set es. embedding_wf e)
      \<and> s = concat (map embedding_bytes es) @ r"
    by (auto simp: length_Suc_conv)
  finally show ?case .
qed auto

section \<open>The profile codec is exact\<close>

lemma length_u32_le_concat: "length (concat (map u32_le vs)) = 4 * length vs"
  by (induction vs) auto

lemma length_embeddings:
  "\<forall>e \<in> set es. embedding_wf e \<Longrightarrow> length (concat (map embedding_bytes es)) = length es * EMBEDDING_DIMENSION * 4"
  by (induction es) (auto simp: embedding_bytes_def length_u32_le_concat embedding_wf_def)

lemma encode_profile_eq:
  "sample_count p \<le> 255 \<Longrightarrow> encode_profile p uid = Inr (PROFILE_MAGIC @ u16_be PROFILE_SCHEMA
     @ u32_be uid @ identity_bytes @ word_of_nat (sample_count p) # concat (map embedding_bytes (samples p)))"
  by (simp add: encode_profile_def push_string_def identity_bytes_def)

lemma length_magics [simp]: "length PROFILE_MAGIC = 8" "length VAULT_MAGIC = 8"
  by (simp_all add: PROFILE_MAGIC_def VAULT_MAGIC_def)

lemma profile_wf_count: "profile_wf p \<Longrightarrow> 3 \<le> sample_count p \<and> sample_count p \<le> 8"
  by (auto simp: profile_wf_def profile_new_def sample_count_def MINIMUM_PROFILE_SAMPLES_def
      MAXIMUM_PROFILE_SAMPLES_def split: if_splits)

lemma decode_encode_profile:
  assumes "profile_wf p" "encode_profile p uid = Inr s"
  shows "decode_profile s uid = Inr p"
proof -
  let ?t = "concat (map embedding_bytes (samples p))"
  have c: "3 \<le> sample_count p" "sample_count p \<le> 8" using profile_wf_count [OF assms(1)] by auto
  have wf: "\<forall>e \<in> set (samples p). embedding_wf e" "profile_new (samples p) = Some p"
    using assms(1) by (auto simp: profile_wf_def)
  have s: "s = PROFILE_MAGIC @ u16_be PROFILE_SCHEMA @ u32_be uid @ identity_bytes
      @ word_of_nat (sample_count p) # ?t"
    using assms(2) c encode_profile_eq [of p uid] by simp
  have 1: "cur_take 8 s = Inr (PROFILE_MAGIC, drop 8 s)" by (simp add: s cur_take_iff)
  have 2: "cur_u16 (drop 8 s) = Inr (PROFILE_SCHEMA, drop 10 s)"
    and 3: "cur_u32 (drop 10 s) = Inr (uid, drop 14 s)"
    and 4: "decode_identity (drop 14 s) = Inr (word_of_nat (sample_count p) # ?t)"
    by (simp_all add: s cur_u16_iff cur_u32_iff decode_identity_iff)
  have 5: "cur_u8 (word_of_nat (sample_count p) # ?t) = Inr (word_of_nat (sample_count p), ?t)"
    by (simp add: cur_u8_iff)
  have 6: "read_samples (sample_count p) ?t = Inr (samples p, [])"
    using wf by (simp add: read_samples_iff sample_count_def)
  show ?thesis
    using c wf length_embeddings [OF wf(1)]
    by (simp add: decode_profile_def 1 2 3 4 5 6 sample_count_def [symmetric]
        MINIMUM_PROFILE_SAMPLES_def MAXIMUM_PROFILE_SAMPLES_def)
qed

lemma encode_decode_profile:
  assumes "decode_profile s uid = Inr p"
  shows "profile_wf p \<and> encode_profile p uid = Inr s"
proof -
  from assms obtain s1 s2 s3 s4 count s5 es r where *:
    "cur_take 8 s = Inr (PROFILE_MAGIC, s1)" "cur_u16 s1 = Inr (PROFILE_SCHEMA, s2)"
    "cur_u32 s2 = Inr (uid, s3)" "decode_identity s3 = Inr s4" "cur_u8 s4 = Inr (count, s5)"
    "length s5 = unat count * EMBEDDING_DIMENSION * 4"
    "read_samples (unat count) s5 = Inr (es, r)" "profile_new es = Some p"
    by (auto simp: decode_profile_def rbind_eq_Inr ok_or_eq_Inr Let_def split: if_splits)
  then have es: "length es = unat count" "\<forall>e \<in> set es. embedding_wf e"
    "s5 = concat (map embedding_bytes es) @ r" by (simp_all add: read_samples_iff)
  with *(6) length_embeddings [OF es(2)] have "r = []" by simp
  moreover have p: "p = \<lparr>samples = es\<rparr>" using *(8) by (auto simp: profile_new_def split: if_splits)
  then have wf: "profile_wf p" using *(8) es(2) by (simp add: profile_wf_def)
  moreover have "word_of_nat (sample_count p) = count"
    using es(1) by (simp add: p sample_count_def)
  ultimately show ?thesis
    using * es(3) profile_wf_count [OF wf] encode_profile_eq [of p uid]
    by (simp add: cur_take_iff cur_u16_iff cur_u32_iff cur_u8_iff decode_identity_iff p)
qed

text \<open>
  A plaintext decodes to a profile for a uid exactly when it is the encoding of that
  well-formed profile for that uid: the codec loses nothing, accepts no second spelling, and
  never yields an embedding that is not normalized.
\<close>

theorem profile_codec_exact:
  "decode_profile s uid = Inr p \<longleftrightarrow> profile_wf p \<and> encode_profile p uid = Inr s"
  using decode_encode_profile encode_decode_profile by blast

section \<open>The vault codec is exact\<close>

lemma vault_slices:
  assumes "length nonce = 12" "length tag = 16"
    and "bs = VAULT_MAGIC @ u16_be schema @ nonce @ u32_be n @ tag @ ct"
  shows "bslice 0 8 bs = VAULT_MAGIC" "u16_from_be (bslice 8 10 bs) = schema"
    "bslice 10 22 bs = nonce" "u32_from_be (bslice 22 26 bs) = n"
    "bslice 26 42 bs = tag" "drop 42 bs = ct" "length bs = 42 + length ct"
  using assms by simp_all

lemma vault_bytes_split:
  assumes "42 \<le> length bs"
  shows "bs = bslice 0 8 bs @ bslice 8 10 bs @ bslice 10 22 bs @ bslice 22 26 bs
    @ bslice 26 42 bs @ drop 42 bs"
proof -
  have "drop 0 bs = bslice 0 8 bs @ bslice 8 10 bs @ bslice 10 22 bs @ bslice 22 26 bs
    @ bslice 26 42 bs @ drop 42 bs"
    by (simp only: bslice_drop)
  then show ?thesis by simp
qed

text \<open>
  The envelope without its codec wrapper: what \<^verbatim>\<open>encode_vault\<close> writes for a given nonce.
\<close>

lemma encode_vault_iff:
  "encode_vault nv (Inr nonce) p key uid = Inr bs \<longleftrightarrow>
     (\<exists>pt ct tag. encode_profile p uid = Inr pt \<and> encrypt nv key nonce (associated_data uid) pt = Inr (ct, tag)
       \<and> length ct < 2 ^ 32 \<and> length bs \<le> MAXIMUM_VAULT_BYTES
       \<and> bs = VAULT_MAGIC @ u16_be VAULT_SCHEMA @ nonce @ u32_be (word_of_nat (length ct)) @ tag @ ct)"
  by (fastforce simp: encode_vault_def rbind_eq_Inr map_err_eq_Inr Let_def split: if_splits)

lemma decode_vault_iff:
  "decode_vault nv bs key uid = Inr p \<longleftrightarrow>
     42 \<le> length bs \<and> length bs \<le> MAXIMUM_VAULT_BYTES \<and> bslice 0 8 bs = VAULT_MAGIC
     \<and> u16_from_be (bslice 8 10 bs) = VAULT_SCHEMA
     \<and> unat (u32_from_be (bslice 22 26 bs)) \<noteq> 0
     \<and> 42 + unat (u32_from_be (bslice 22 26 bs)) = length bs
     \<and> (\<exists>pt. decrypt nv key (bslice 10 22 bs) (associated_data uid) (drop 42 bs) (bslice 26 42 bs) = Inr pt
          \<and> decode_profile pt uid = Inr p)"
  by (auto simp: decode_vault_def OUTER_HEADER_BYTES_def NONCE_BYTES_def TAG_BYTES_def Let_def
      rbind_eq_Inr map_err_eq_Inr)

lemma profile_size:
  assumes "profile_wf p" "encode_profile p uid = Inr pt"
  shows "0 < length pt" "length pt \<le> 4300"
proof -
  have "sample_count p \<le> 8" using profile_wf_count [OF assms(1)] by simp
  moreover have "length (concat (map embedding_bytes (samples p))) = sample_count p * 512"
    using assms(1) length_embeddings [of "samples p"]
    by (simp add: profile_wf_def sample_count_def EMBEDDING_DIMENSION_def)
  moreover have "length identity_bytes = 131" by (simp add: identity_bytes_def)
  ultimately show "0 < length pt" "length pt \<le> 4300"
    using assms(2) encode_profile_eq [of p uid] by auto
qed

lemma encode_decode_vault:
  assumes "aead_exact nv" "decode_vault nv bs key uid = Inr p"
  shows "profile_wf p \<and> (\<exists>nonce. length nonce = NONCE_BYTES \<and> encode_vault nv (Inr nonce) p key uid = Inr bs)"
proof -
  let ?n = "u32_from_be (bslice 22 26 bs)" and ?ct = "drop 42 bs"
  from assms(2) obtain pt where *: "42 \<le> length bs" "length bs \<le> MAXIMUM_VAULT_BYTES"
    "bslice 0 8 bs = VAULT_MAGIC" "u16_from_be (bslice 8 10 bs) = VAULT_SCHEMA"
    "42 + unat ?n = length bs"
    "decrypt nv key (bslice 10 22 bs) (associated_data uid) ?ct (bslice 26 42 bs) = Inr pt"
    "decode_profile pt uid = Inr p"
    by (auto simp: decode_vault_iff)
  have ct: "length ?ct = unat ?n" using *(1,5) by simp
  have "encrypt nv key (bslice 10 22 bs) (associated_data uid) pt = Inr (?ct, bslice 26 42 bs)"
    using aead_exactD(2) [OF assms(1)] *(6) by blast
  moreover have "bs = VAULT_MAGIC @ u16_be VAULT_SCHEMA @ bslice 10 22 bs
      @ u32_be (word_of_nat (length ?ct)) @ bslice 26 42 bs @ ?ct"
  proof -
    have "u16_be VAULT_SCHEMA = bslice 8 10 bs" using *(1,4) be_to_from(1) [of "bslice 8 10 bs"] by simp
    moreover have "u32_be (word_of_nat (length ?ct)) = bslice 22 26 bs"
      using *(1) be_to_from(2) [of "bslice 22 26 bs"] by (simp only: ct) simp
    ultimately show ?thesis using vault_bytes_split [OF *(1)] by (simp only: *(3))
  qed
  moreover have "length ?ct < 2 ^ 32" using *(2) by (simp add: MAXIMUM_VAULT_BYTES_def)
  moreover have "profile_wf p" "encode_profile p uid = Inr pt"
    using encode_decode_profile [OF *(7)] by auto
  moreover have "length (bslice 10 22 bs) = NONCE_BYTES" using *(1) by (simp add: NONCE_BYTES_def)
  ultimately show ?thesis using *(2) unfolding encode_vault_iff by blast
qed

lemma decode_encode_vault:
  assumes "aead_exact nv" "profile_wf p" "length nonce = NONCE_BYTES"
    "encode_vault nv (Inr nonce) p key uid = Inr bs"
  shows "decode_vault nv bs key uid = Inr p"
proof -
  from assms(4) obtain pt ct tag where e: "encode_profile p uid = Inr pt"
    "encrypt nv key nonce (associated_data uid) pt = Inr (ct, tag)" "length ct < 2 ^ 32"
    "length bs \<le> MAXIMUM_VAULT_BYTES"
    "bs = VAULT_MAGIC @ u16_be VAULT_SCHEMA @ nonce @ u32_be (word_of_nat (length ct)) @ tag @ ct"
    by (auto simp: encode_vault_iff)
  have l: "length tag = 16" "length ct = length pt"
    using aead_exactD(1) [OF assms(1) e(2)] by (simp_all add: TAG_BYTES_def)
  have "length nonce = 12" using assms(3) by (simp add: NONCE_BYTES_def)
  note sl = vault_slices [OF this l(1) e(5)]
  have "decrypt nv key nonce (associated_data uid) ct tag = Inr pt"
    using aead_exactD(2) [OF assms(1)] e(2) by blast
  moreover have "unat (word_of_nat (length ct) :: u32) = length ct"
    using e(3) by (simp add: unat_of_nat)
  ultimately show ?thesis
    using decode_encode_profile [OF assms(2) e(1)] profile_size [OF assms(2) e(1)] e(4) l(2)
    unfolding decode_vault_iff sl by simp
qed

lemma encode_vault_succeeds:
  assumes "aead_exact nv" "profile_wf p" "length nonce = NONCE_BYTES"
    "encode_profile p uid = Inr pt" "is_ok (encrypt nv key nonce (associated_data uid) pt)"
  shows "\<exists>out. encode_vault nv (Inr nonce) p key uid = Inr out"
proof -
  from assms(5) obtain ct tag where e: "encrypt nv key nonce (associated_data uid) pt = Inr (ct, tag)"
    by (auto simp: is_ok_iff)
  have "length ct = length pt" "length tag = 16"
    using aead_exactD(1) [OF assms(1) e] by (simp_all add: TAG_BYTES_def)
  with profile_size [OF assms(2,4)] assms(3,4) e show ?thesis
    by (simp add: encode_vault_def MAXIMUM_VAULT_BYTES_def NONCE_BYTES_def)
qed

text \<open>
  Claim C6: given an AES-GCM provider, a vault file opens to a profile under a key and a uid
  exactly when it is an envelope that \<^verbatim>\<open>encode_vault\<close> writes for that profile, key and uid with some
  12-byte nonce. Encoding with any nonce the provider accepts succeeds, within the size limit.
\<close>

theorem vault_codec_exact:
  assumes "aead_exact nv"
  shows "(decode_vault nv bs key uid = Inr p \<longleftrightarrow>
      profile_wf p \<and> (\<exists>nonce. length nonce = NONCE_BYTES \<and> encode_vault nv (Inr nonce) p key uid = Inr bs))
    \<and> (profile_wf p \<longrightarrow> (\<forall>pt. encode_profile p uid = Inr pt \<longrightarrow>
        is_ok (encrypt nv key nonce (associated_data uid) pt) \<longrightarrow> length nonce = NONCE_BYTES \<longrightarrow>
        (\<exists>out. encode_vault nv (Inr nonce) p key uid = Inr out)))"
  using encode_decode_vault [OF assms] decode_encode_vault [OF assms] encode_vault_succeeds [OF assms]
  by metis

lemma toy_encrypt_ok: "is_ok (encrypt toy_native key nonce aad pt)"
  by (simp add: encrypt_def toy_native_def status_result_def)

theorem vault_codec_exact_witness:
  "\<exists>out. encode_vault toy_native (Inr (replicate 12 7)) unit_profile (replicate 32 1) 1000 = Inr out
    \<and> decode_vault toy_native out (replicate 32 1) 1000 = Inr unit_profile"
proof -
  note exact = vault_codec_exact [OF toy_native_exact, of _ "replicate 32 1" 1000 unit_profile]
  have n: "length (replicate 12 (7 :: u8)) = NONCE_BYTES" by (simp add: NONCE_BYTES_def)
  obtain pt where "encode_profile unit_profile 1000 = Inr pt"
    using encode_profile_eq [of unit_profile 1000] by (simp add: unit_profile_def sample_count_def)
  then obtain out where "encode_vault toy_native (Inr (replicate 12 7)) unit_profile (replicate 32 1) 1000 = Inr out"
    using exact unit_profile_wf toy_encrypt_ok n by blast
  then show ?thesis using exact unit_profile_wf n by blast
qed

end
