(* ===== verification/Vault_Store.thy ===== *)
theory Vault_Store
  imports Vault_Codec File_System
begin

text \<open>
  The vault operations of \<^verbatim>\<open>engine/templates/src/lib.rs\<close> on the filesystem model: directory and file
  validation, the reading of a secure file, the lock file, the verified atomic write, and on top of them
  status, opening, committing, key rotation, deletion, reset and migration. Every operation runs under an
  arbitrary script of failures; the properties say what may have happened to the stored profile.
\<close>

section \<open>Vaults\<close>

datatype vault_kind = UserSession | System

record vault =
  v_root :: string
  v_uid :: u32
  v_kind :: vault_kind

record profile_summary =
  enrolled :: bool
  summary_count :: u8

datatype vault_state = VS_Absent | VS_Ready profile_summary | VS_Corrupt | VS_ModelMismatch | VS_Unavailable

text \<open>
  What an operation needs besides the filesystem: the crypto bridge, the instants the lock loop reads
  (in nanoseconds) with a bound on its rounds, and the random nonce and file suffix.
\<close>

record vault_env =
  ve_native :: native
  ve_clock :: "nat \<Rightarrow> nat"
  ve_fuel :: nat
  ve_nonce :: "crypto_error + bytes"
  ve_suffix :: "crypto_error + bytes"

definition PRODUCT_DIRECTORY :: string where "PRODUCT_DIRECTORY = ''kfaceauth''"
definition VAULT_FILE :: string where "VAULT_FILE = ''identity.vault''"
definition LOCK_FILE :: string where "LOCK_FILE = ''identity.lock''"
definition LOCK_TIMEOUT :: nat where "LOCK_TIMEOUT = 2 * 10 ^ 9"
definition LOCK_RETRY :: nat where "LOCK_RETRY = 10 * 10 ^ 6"

definition system_with_root :: "string \<Rightarrow> u32 \<Rightarrow> vault" where
  "system_with_root base uid = \<lparr>v_root = join base (u32_to_string uid), v_uid = uid, v_kind = System\<rparr>"

definition user_session_with_root :: "string \<Rightarrow> u32 \<Rightarrow> vault" where
  "user_session_with_root base uid = \<lparr>v_root = base, v_uid = uid, v_kind = UserSession\<rparr>"

abbreviation vault_path :: "vault \<Rightarrow> string" where
  "vault_path v \<equiv> join (v_root v) VAULT_FILE"

abbreviation lock_path :: "vault \<Rightarrow> string" where
  "lock_path v \<equiv> join (v_root v) LOCK_FILE"

fun dir_mode :: "vault_kind \<Rightarrow> u32" where
  "dir_mode UserSession = oct3 7 0 0"
| "dir_mode System = oct3 7 5 0"

fun file_mode :: "vault_kind \<Rightarrow> u32" where
  "file_mode UserSession = oct3 6 0 0"
| "file_mode System = oct3 6 4 0"

section \<open>Validation and reading\<close>

fun is_owner_valid :: "world \<Rightarrow> metadata \<Rightarrow> u32 \<Rightarrow> vault_kind \<Rightarrow> bool" where
  "is_owner_valid w m target_uid UserSession = (md_uid m = target_uid)"
| "is_owner_valid w m target_uid System = (md_uid m = 0 \<and> group_ids w ''kfaceauth'' = Some (md_gid m))"

definition validate_directory :: "string \<Rightarrow> u32 \<Rightarrow> vault_kind \<Rightarrow> (vault_error, unit) io" where
  "validate_directory p uid kind =
     wbind (wmap_err io_vault_error (symlink_metadata p)) (\<lambda>m w.
       if md_kind m \<noteq> Directory \<or> is_symlink m \<or> \<not> is_owner_valid w m uid kind
         \<or> perm m \<noteq> dir_mode kind
       then wfail V_UnsafeFilesystem w
       else wreturn () w)"

definition validate_secure_path :: "string \<Rightarrow> u32 \<Rightarrow> vault_kind \<Rightarrow> (vault_error, metadata) io" where
  "validate_secure_path p uid kind =
     wbind (wmap_err io_vault_error (symlink_metadata p)) (\<lambda>m w.
       if md_kind m \<noteq> Regular \<or> is_symlink m \<or> \<not> is_owner_valid w m uid kind \<or> md_nlink m \<noteq> 1
         \<or> perm m \<noteq> file_mode kind
       then wfail V_UnsafeFilesystem w
       else wreturn m w)"

definition read_secure_file :: "string \<Rightarrow> u32 \<Rightarrow> vault_kind \<Rightarrow> (vault_error, bytes) io" where
  "read_secure_file p uid kind =
     wbind (validate_secure_path p uid kind) (\<lambda>before.
     if md_len before > MAXIMUM_VAULT_BYTES then wfail V_Oversized
     else wbind (wmap_err io_vault_error (open_nofollow p)) (\<lambda>_.
     wbind (wmap_err io_vault_error (fd_metadata p)) (\<lambda>after w.
     if md_dev before \<noteq> md_dev after \<or> md_ino before \<noteq> md_ino after
       \<or> \<not> is_owner_valid w after uid kind \<or> perm after \<noteq> file_mode kind \<or> md_nlink after \<noteq> 1
     then wfail V_UnsafeFilesystem w
     else wbind (wmap_err io_vault_error (read_limited p (MAXIMUM_VAULT_BYTES + 1))) (\<lambda>bs.
       if length bs > MAXIMUM_VAULT_BYTES then wfail V_Oversized else wreturn bs) w)))"

definition ensure_directory :: "string \<Rightarrow> u32 \<Rightarrow> vault_kind \<Rightarrow> (vault_error, unit) io" where
  "ensure_directory p uid kind w =
     (case path_exists p w of
        (True, w') \<Rightarrow> validate_directory p uid kind w'
      | (False, w') \<Rightarrow>
          wbind (wmap_err io_vault_error (mkdir_all p (dir_mode kind))) (\<lambda>_.
          wbind (if kind = System then
                   wbind (wmap_err (\<lambda>_. V_UnsafeFilesystem) (open_nofollow p)) (\<lambda>_.
                   wmap_err (\<lambda>_. V_UnsafeFilesystem)
                     (set_fd_permissions p 0 (dir_mode kind) ''kfaceauth''))
                 else wreturn ()) (\<lambda>_.
          validate_directory p uid kind)) w')"

section \<open>The lock file\<close>

text \<open>
  One round of \<^verbatim>\<open>VaultLock::acquire\<close> creates the file exclusively; when it exists already the next instant
  is compared with the deadline and the loop sleeps and retries. \<open>V_Panic\<close> marks exhausted fuel.
\<close>

definition lock_created :: "vault \<Rightarrow> (vault_error, unit) io" where
  "lock_created v =
     wbind (if v_kind v = System then
              wmap_err (\<lambda>_. V_UnsafeFilesystem)
                (set_fd_permissions (lock_path v) 0 (file_mode System) ''kfaceauth'')
            else wreturn ()) (\<lambda>_.
     wbind (wmap_err io_vault_error (fd_metadata (lock_path v))) (\<lambda>m w.
     if \<not> is_owner_valid w m (v_uid v) (v_kind v) \<or> perm m \<noteq> file_mode (v_kind v) \<or> md_nlink m \<noteq> 1
     then (Inl V_UnsafeFilesystem, snd (remove_file (lock_path v) w))
     else wmap_err io_vault_error (sync_all (lock_path v)) w))"

fun lock_loop :: "nat \<Rightarrow> (nat \<Rightarrow> nat) \<Rightarrow> nat \<Rightarrow> nat \<Rightarrow> vault \<Rightarrow> (vault_error, unit) io" where
  "lock_loop 0 clock i deadline v w = wfail V_Panic w"
| "lock_loop (Suc fuel) clock i deadline v w =
     (case create_new (lock_path v) (file_mode (v_kind v)) w of
        (Inr _, w') \<Rightarrow> lock_created v w'
      | (Inl k, w') \<Rightarrow>
          if k = AlreadyExists then
            (if deadline \<le> clock i then wfail V_LockTimeout w'
             else lock_loop fuel clock (Suc i) deadline v w')
          else wfail (V_Io k) w')"

definition lock_acquire :: "vault_env \<Rightarrow> vault \<Rightarrow> (vault_error, unit) io" where
  "lock_acquire env v =
     wbind (validate_directory (v_root v) (v_uid v) (v_kind v)) (\<lambda>_.
     lock_loop (ve_fuel env) (ve_clock env) 1 (ve_clock env 0 + LOCK_TIMEOUT) v)"

text \<open>A critical section: the lock is removed when it ends, however it ends.\<close>

definition with_lock :: "vault_env \<Rightarrow> vault \<Rightarrow> (vault_error, 'a) io \<Rightarrow> (vault_error, 'a) io" where
  "with_lock env v body =
     wbind (lock_acquire env v) (\<lambda>_. wfinally body (remove_file (lock_path v)))"

section \<open>The verified atomic write\<close>

definition hex_digit :: "nat \<Rightarrow> char" where
  "hex_digit d = char_of (if d < 10 then 48 + d else 87 + d)"

definition hex_suffix :: "bytes \<Rightarrow> string" where
  "hex_suffix bs = concat (map (\<lambda>b. [hex_digit (unat b div 16), hex_digit (unat b mod 16)]) bs)"

definition sync_directory :: "string \<Rightarrow> (vault_error, unit) io" where
  "sync_directory p = wmap_err io_vault_error (wbind (open_path p) (\<lambda>_. sync_all p))"

definition temporary_path :: "string \<Rightarrow> bytes \<Rightarrow> string" where
  "temporary_path dir suffix = join dir (''.identity.vault.'' @ hex_suffix suffix @ ''.tmp'')"

text \<open>Everything up to the point where the temporary file is verified.\<close>

definition stage_verified ::
    "native \<Rightarrow> string \<Rightarrow> bytes \<Rightarrow> bytes \<Rightarrow> u32 \<Rightarrow> vault_kind \<Rightarrow> (vault_error, unit) io" where
  "stage_verified nv tmp bs key uid kind =
     wbind (wmap_err io_vault_error (create_new tmp (file_mode kind))) (\<lambda>_.
     wbind (if kind = System then
              wmap_err (\<lambda>_. V_UnsafeFilesystem)
                (set_fd_permissions tmp 0 (file_mode kind) ''kfaceauth'')
            else wreturn ()) (\<lambda>_.
     wbind (wmap_err io_vault_error (write_all_file tmp bs)) (\<lambda>_.
     wbind (wmap_err io_vault_error (sync_all tmp)) (\<lambda>_.
     wbind (read_secure_file tmp uid kind) (\<lambda>verified.
     wbind (wlift (decode_vault nv verified key uid)) (\<lambda>_. wreturn ()))))))"

definition write_verified_atomic ::
    "vault_env \<Rightarrow> string \<Rightarrow> string \<Rightarrow> bytes \<Rightarrow> bytes \<Rightarrow> u32 \<Rightarrow> vault_kind \<Rightarrow> (vault_error, unit) io" where
  "write_verified_atomic env dir final_path bs key uid kind =
     (if bs = [] \<or> length bs > MAXIMUM_VAULT_BYTES then wfail V_Oversized
      else wbind (wlift (map_err V_Crypto (ve_suffix env))) (\<lambda>suffix.
        let tmp = temporary_path dir suffix in
        wbind (wcleanup
                 (wbind (stage_verified (ve_native env) tmp bs key uid kind) (\<lambda>_.
                  wmap_err io_vault_error (rename_file tmp final_path)))
                 (remove_file tmp)) (\<lambda>_.
        sync_directory dir)))"

section \<open>Vault operations\<close>

definition open_profile_snapshot :: "native \<Rightarrow> vault \<Rightarrow> bytes \<Rightarrow> (vault_error, profile \<times> bytes) io" where
  "open_profile_snapshot nv v key =
     wbind (validate_directory (v_root v) (v_uid v) (v_kind v)) (\<lambda>_.
     wbind (read_secure_file (vault_path v) (v_uid v) (v_kind v)) (\<lambda>bs.
     wbind (wlift (decode_vault nv bs key (v_uid v))) (\<lambda>p.
     wbind (wlift (map_err V_Crypto (sha256 nv bs))) (\<lambda>digest.
     wreturn (p, digest)))))"

definition open_profile :: "native \<Rightarrow> vault \<Rightarrow> bytes \<Rightarrow> (vault_error, profile) io" where
  "open_profile nv v key = wbind (open_profile_snapshot nv v key) (\<lambda>(p, _). wreturn p)"

fun status_of_error :: "vault_error \<Rightarrow> vault_state" where
  "status_of_error V_NotFound = VS_Absent"
| "status_of_error V_ModelMismatch = VS_ModelMismatch"
| "status_of_error (V_Crypto AuthenticationFailure) = VS_Corrupt"
| "status_of_error V_Corrupt = VS_Corrupt"
| "status_of_error V_UnknownSchema = VS_Corrupt"
| "status_of_error _ = VS_Unavailable"

definition vault_status :: "native \<Rightarrow> vault \<Rightarrow> bytes option \<Rightarrow> world \<Rightarrow> vault_state \<times> world" where
  "vault_status nv v key w =
     (case path_exists (v_root v) w of
        (False, w1) \<Rightarrow> (VS_Absent, w1)
      | (True, w1) \<Rightarrow>
          (case validate_directory (v_root v) (v_uid v) (v_kind v) w1 of
             (Inl _, w2) \<Rightarrow> (VS_Unavailable, w2)
           | (Inr _, w2) \<Rightarrow>
               (case path_exists (vault_path v) w2 of
                  (False, w3) \<Rightarrow> (VS_Absent, w3)
                | (True, w3) \<Rightarrow>
                    (case key of
                       None \<Rightarrow> (VS_Unavailable, w3)
                     | Some k \<Rightarrow>
                         (case open_profile nv v k w3 of
                            (Inr p, w4) \<Rightarrow>
                              (if sample_count p < 256
                               then (VS_Ready \<lparr>enrolled = True, summary_count = word_of_nat (sample_count p)\<rparr>, w4)
                               else (VS_Unavailable, w4))
                          | (Inl e, w4) \<Rightarrow> (status_of_error e, w4))))))"

text \<open>
  The check of an existing vault at the start of a commit: it has to open under the same key.
\<close>

definition check_existing :: "native \<Rightarrow> vault \<Rightarrow> bytes \<Rightarrow> (vault_error, unit) io" where
  "check_existing nv v key w =
     (case path_exists (vault_path v) w of
        (False, w') \<Rightarrow> wreturn () w'
      | (True, w') \<Rightarrow>
          wbind (read_secure_file (vault_path v) (v_uid v) (v_kind v)) (\<lambda>bs.
          wbind (wlift (decode_vault nv bs key (v_uid v))) (\<lambda>_. wreturn ())) w')"

definition commit_profile :: "vault_env \<Rightarrow> vault \<Rightarrow> bytes \<Rightarrow> profile \<Rightarrow> (vault_error, unit) io" where
  "commit_profile env v key p =
     wbind (ensure_directory (v_root v) (v_uid v) (v_kind v)) (\<lambda>_.
     with_lock env v
       (wbind (check_existing (ve_native env) v key) (\<lambda>_.
        wbind (wlift (encode_vault (ve_native env) (ve_nonce env) p key (v_uid v))) (\<lambda>encoded.
        write_verified_atomic env (v_root v) (vault_path v) encoded key (v_uid v) (v_kind v)))))"

definition rotate_key :: "vault_env \<Rightarrow> vault \<Rightarrow> bytes \<Rightarrow> bytes \<Rightarrow> (vault_error, unit) io" where
  "rotate_key env v old_key new_key =
     wbind (validate_directory (v_root v) (v_uid v) (v_kind v)) (\<lambda>_.
     with_lock env v
       (wbind (read_secure_file (vault_path v) (v_uid v) (v_kind v)) (\<lambda>old_bytes.
        wbind (wlift (decode_vault (ve_native env) old_bytes old_key (v_uid v))) (\<lambda>p.
        wbind (wlift (encode_vault (ve_native env) (ve_nonce env) p new_key (v_uid v))) (\<lambda>new_bytes.
        write_verified_atomic env (v_root v) (vault_path v) new_bytes new_key (v_uid v) (v_kind v))))))"

definition delete_profile :: "vault_env \<Rightarrow> vault \<Rightarrow> bytes \<Rightarrow> (vault_error, unit) io" where
  "delete_profile env v key =
     wbind (validate_directory (v_root v) (v_uid v) (v_kind v)) (\<lambda>_.
     with_lock env v
       (wbind (read_secure_file (vault_path v) (v_uid v) (v_kind v)) (\<lambda>bs.
        wbind (wlift (decode_vault (ve_native env) bs key (v_uid v))) (\<lambda>_.
        wbind (wmap_err io_vault_error (remove_file (vault_path v))) (\<lambda>_.
        sync_directory (v_root v))))))"

definition reset_unreadable :: "vault_env \<Rightarrow> vault \<Rightarrow> (vault_error, unit) io" where
  "reset_unreadable env v =
     wbind (validate_directory (v_root v) (v_uid v) (v_kind v)) (\<lambda>_.
     with_lock env v
       (wbind (validate_secure_path (vault_path v) (v_uid v) (v_kind v)) (\<lambda>_.
        wbind (wmap_err io_vault_error (remove_file (vault_path v))) (\<lambda>_.
        sync_directory (v_root v)))))"

definition validate_integrity :: "native \<Rightarrow> vault \<Rightarrow> bytes \<Rightarrow> (vault_error, profile_summary) io" where
  "validate_integrity nv v key =
     wbind (open_profile nv v key) (\<lambda>p.
     if sample_count p < 256
     then wreturn \<lparr>enrolled = True, summary_count = word_of_nat (sample_count p)\<rparr>
     else wfail V_ProfileBounds)"

definition migrate_legacy_vault_with_separate_key ::
    "vault_env \<Rightarrow> vault \<Rightarrow> vault \<Rightarrow> bytes \<Rightarrow> bytes \<Rightarrow> (vault_error, profile_summary) io" where
  "migrate_legacy_vault_with_separate_key env legacy sysvault user_key system_key =
     wbind (open_profile (ve_native env) legacy user_key) (\<lambda>p.
     wbind (commit_profile env sysvault system_key p) (\<lambda>_.
     validate_integrity (ve_native env) sysvault system_key))"

definition migrate_legacy_vault ::
    "vault_env \<Rightarrow> vault \<Rightarrow> vault \<Rightarrow> bytes \<Rightarrow> (vault_error, profile_summary) io" where
  "migrate_legacy_vault env legacy sysvault key =
     wbind (open_profile (ve_native env) legacy key) (\<lambda>p.
     wbind (commit_profile env sysvault key p) (\<lambda>_.
     validate_integrity (ve_native env) sysvault key))"

text \<open>
  \<^verbatim>\<open>open_anchored_profile_snapshot\<close> reads through an open directory and compares the identity of the
  file before and after; opening a child fails with the bridge's error.
\<close>

definition open_anchored_profile_snapshot ::
    "native \<Rightarrow> vault \<Rightarrow> bytes \<Rightarrow> (vault_error, profile \<times> bytes) io" where
  "open_anchored_profile_snapshot nv v key =
     wbind (wmap_err io_vault_error (fd_metadata (v_root v))) (\<lambda>d w.
     if md_kind d \<noteq> Directory \<or> \<not> is_owner_valid w d (v_uid v) (v_kind v) \<or> perm d \<noteq> dir_mode (v_kind v)
     then wfail V_UnsafeFilesystem w
     else wbind (wmap_err (\<lambda>_. V_Crypto ProviderFailure) (open_nofollow (vault_path v))) (\<lambda>_.
     wbind (wmap_err io_vault_error (fd_metadata (vault_path v))) (\<lambda>before w.
     if md_kind before \<noteq> Regular \<or> \<not> is_owner_valid w before (v_uid v) (v_kind v)
       \<or> perm before \<noteq> file_mode (v_kind v) \<or> md_nlink before \<noteq> 1 \<or> md_len before > MAXIMUM_VAULT_BYTES
     then wfail V_UnsafeFilesystem w
     else wbind (wmap_err io_vault_error (read_limited (vault_path v) (MAXIMUM_VAULT_BYTES + 1))) (\<lambda>bs.
     wbind (wmap_err io_vault_error (fd_metadata (vault_path v))) (\<lambda>after.
     wbind (wmap_err (\<lambda>_. V_Crypto ProviderFailure) (open_nofollow (vault_path v))) (\<lambda>_.
     wbind (wmap_err io_vault_error (fd_metadata (vault_path v))) (\<lambda>current.
     if length bs > MAXIMUM_VAULT_BYTES \<or> md_dev before \<noteq> md_dev current \<or> md_ino before \<noteq> md_ino current
       \<or> md_len before \<noteq> md_len after \<or> md_mtime before \<noteq> md_mtime after \<or> md_ctime before \<noteq> md_ctime after
     then wfail V_UnsafeFilesystem
     else wbind (wlift (decode_vault nv bs key (v_uid v))) (\<lambda>p.
          wbind (wlift (map_err V_Crypto (sha256 nv bs))) (\<lambda>digest.
          wreturn (p, digest))))))) w)) w)"

section \<open>Frames of the building blocks\<close>

lemma keeps_readers [keeps_rules]:
  "keeps P (validate_directory p uid kind)" "keeps P (validate_secure_path p uid kind)"
  "keeps P (read_secure_file p uid kind)" "keeps P (sync_directory p)"
  unfolding validate_directory_def validate_secure_path_def read_secure_file_def sync_directory_def
  by (intro keeps_rules)+

lemma keeps_ensure_directory [keeps_rules]:
  assumes "p \<notin> P"
  shows "keeps P (ensure_directory p uid kind)"
proof (rule keepsI)
  fix w q
  assume q: "q \<in> P"
  obtain b w' where b: "path_exists p w = (b, w')" by fastforce
  have "keeps P (wbind (wmap_err io_vault_error (mkdir_all p (dir_mode kind))) (\<lambda>_.
      wbind (if kind = System then
               wbind (wmap_err (\<lambda>_. V_UnsafeFilesystem) (open_nofollow p)) (\<lambda>_.
               wmap_err (\<lambda>_. V_UnsafeFilesystem) (set_fd_permissions p 0 (dir_mode kind) ''kfaceauth''))
             else wreturn ()) (\<lambda>_. validate_directory p uid kind)))"
    by (intro keeps_rules assms)
  with keeps_readers(1) [of P p uid kind] q nodes_path_exists [OF b]
  show "nodes (snd (ensure_directory p uid kind w)) q = nodes w q"
    by (cases b) (simp_all add: ensure_directory_def b keepsD)
qed

lemma keeps_lock_created [keeps_rules]:
  assumes "lock_path v \<notin> P"
  shows "keeps P (lock_created v)"
proof -
  have "keeps P (\<lambda>w. (Inl V_UnsafeFilesystem :: vault_error + unit, snd (remove_file (lock_path v) w)))"
    using keeps_remove_file [OF assms] by (simp add: keeps_def)
  then show ?thesis unfolding lock_created_def by (intro keeps_rules assms)
qed

lemma keeps_lock_loop: "lock_path v \<notin> P \<Longrightarrow> keeps P (lock_loop fuel clock i deadline v)"
proof (induction fuel arbitrary: i)
  case 0
  then show ?case by (simp add: keeps_def wfail_def)
next
  case (Suc fuel)
  show ?case
  proof (rule keepsI)
    fix w q
    assume q: "q \<in> P"
    obtain r w' where r: "create_new (lock_path v) (file_mode (v_kind v)) w = (r, w')" by fastforce
    have "nodes w' q = nodes w q"
      using keepsD [OF keeps_create_new [OF Suc.prems] q, of "file_mode (v_kind v)" w] r by simp
    with keepsD [OF keeps_lock_created [OF Suc.prems] q, of w'] keepsD [OF Suc.IH [OF Suc.prems] q]
    show "nodes (snd (lock_loop (Suc fuel) clock i deadline v w)) q = nodes w q"
      by (cases r) (simp_all add: r wfail_def)
  qed
qed

lemma keeps_with_lock [keeps_rules]:
  "lock_path v \<notin> P \<Longrightarrow> keeps P body \<Longrightarrow> keeps P (with_lock env v body)"
  unfolding with_lock_def lock_acquire_def by (intro keeps_rules keeps_lock_loop)

lemma keeps_stage_verified [keeps_rules]: "tmp \<notin> P \<Longrightarrow> keeps P (stage_verified nv tmp bs key uid kind)"
  unfolding stage_verified_def by (intro keeps_rules)

lemma keeps_check_existing [keeps_rules]: "keeps P (check_existing nv v key)"
proof (rule keepsI)
  fix w q
  assume q: "q \<in> P"
  obtain b w' where b: "path_exists (vault_path v) w = (b, w')" by fastforce
  have "keeps P (wbind (read_secure_file (vault_path v) (v_uid v) (v_kind v)) (\<lambda>bs.
      wbind (wlift (decode_vault nv bs key (v_uid v))) (\<lambda>_. wreturn ())))"
    by (intro keeps_rules)
  with q nodes_path_exists [OF b] show "nodes (snd (check_existing nv v key w)) q = nodes w q"
    by (cases b) (simp_all add: check_existing_def b keepsD wreturn_def)
qed

lemma keeps_open_profile [keeps_rules]: "keeps P (open_profile nv v key)"
  unfolding open_profile_def open_profile_snapshot_def
  by (intro keeps_rules) (simp add: split_def keeps_rules)

section \<open>Path names\<close>

lemma file_names_differ [simp]:
  "VAULT_FILE \<noteq> LOCK_FILE" "LOCK_FILE \<noteq> VAULT_FILE"
  "temporary_path d s \<noteq> join d VAULT_FILE" "temporary_path d s \<noteq> join d LOCK_FILE"
  "join d VAULT_FILE \<noteq> temporary_path d s" "temporary_path d s \<noteq> d" "d \<noteq> temporary_path d s"
  by (simp_all add: VAULT_FILE_def LOCK_FILE_def temporary_path_def)

section \<open>All-or-nothing updates of the vault file\<close>

lemma aon_with_lock:
  assumes "all_or_nothing n f ok body" "f \<noteq> lock_path v"
  shows "all_or_nothing n f ok (with_lock env v body)"
  unfolding with_lock_def lock_acquire_def
  by (intro aon_prefix aon_finally assms keeps_rules keeps_lock_loop) (use assms(2) in auto)

lemma read_secure_file_Inr:
  assumes "read_secure_file p uid kind w = (Inr bs, w')"
  shows "nodes w' = nodes w"
    "\<exists>i. nodes w p = Some i \<and> bs = i_data i \<and> i_kind i = Regular \<and> length bs \<le> MAXIMUM_VAULT_BYTES"
proof -
  show n: "nodes w' = nodes w"
    using keeps_all_nodes [OF keeps_readers(3), of p uid kind w] assms by simp
  from assms obtain v where "read_limited p (MAXIMUM_VAULT_BYTES + 1) v = (Inr bs, w')"
    "length bs \<le> MAXIMUM_VAULT_BYTES"
    by (auto simp: read_secure_file_def io_success split: if_splits)
  with read_limited_Inr [of p "MAXIMUM_VAULT_BYTES + 1" v bs w'] n
  show "\<exists>i. nodes w p = Some i \<and> bs = i_data i \<and> i_kind i = Regular \<and> length bs \<le> MAXIMUM_VAULT_BYTES"
    by (auto simp: min_def split: if_splits)
qed

lemma aon_read:
  assumes "\<And>i. n = Some i \<Longrightarrow> all_or_nothing n f ok (g (i_data i))"
  shows "all_or_nothing n f ok (wbind (read_secure_file f uid kind) g)"
  unfolding all_or_nothing_def
proof (intro allI impI)
  fix w r w'
  assume n: "nodes w f = n" and a: "wbind (read_secure_file f uid kind) g w = (r, w')"
  obtain q v where m: "read_secure_file f uid kind w = (q, v)" by fastforce
  show "(is_ok r \<longrightarrow> ok (nodes w' f)) \<and> (nodes w' f = n \<or> ok (nodes w' f))"
  proof (cases q)
    case (Inl e)
    with a m keepsD [OF keeps_readers(3) [of "{f}"], of f f uid kind w] n show ?thesis
      by (auto simp: wbind_def)
  next
    case (Inr bs)
    with read_secure_file_Inr [of f uid kind w bs v] m n
    have "\<exists>i. n = Some i \<and> bs = i_data i" "nodes v f = n" by auto
    moreover have "g bs v = (r, w')" using a m Inr by (simp add: wbind_def)
    ultimately show ?thesis using aonD [OF assms] by metis
  qed
qed

lemma stage_verified_Inr:
  assumes "stage_verified nv tmp bs key uid kind w = (Inr u, w')"
  shows "\<exists>i. nodes w' tmp = Some i \<and> i_data i = bs \<and> is_ok (decode_vault nv bs key uid)"
proof -
  from assms obtain w1 w2 w3 w4 verified where s:
    "create_new tmp (file_mode kind) w = (Inr (), w1)"
    "(if kind = System then wmap_err (\<lambda>_. V_UnsafeFilesystem)
        (set_fd_permissions tmp 0 (file_mode kind) ''kfaceauth'') else wreturn ()) w1 = (Inr (), w2)"
    "write_all_file tmp bs w2 = (Inr (), w3)" "sync_all tmp w3 = (Inr (), w4)"
    "read_secure_file tmp uid kind w4 = (Inr verified, w')" "is_ok (decode_vault nv verified key uid)"
    by (auto simp: stage_verified_def io_success is_ok_iff)
  obtain i where i: "nodes w1 tmp = Some i" "i_data i = []" using create_new_Inr(2) [OF s(1)] by auto
  obtain j where j: "nodes w2 tmp = Some j" "i_data j = []"
    using s(2) i set_fd_permissions_Inr [of tmp 0 "file_mode kind" "''kfaceauth''" w1 "()" w2 i]
    by (auto simp: io_success split: if_splits)
  obtain k where k: "nodes w3 tmp = Some k" "i_data k = bs"
    using write_all_file_Inr [OF s(3) j(1)] j(2) by auto
  have "nodes w4 = nodes w3" using keeps_all_nodes [OF keeps_queries(5), of tmp w3] s(4) by simp
  with read_secure_file_Inr [OF s(5)] k s(6) show ?thesis by auto
qed

text \<open>Staging followed by the rename, with the temporary file removed on failure.\<close>

lemma aon_stage_rename:
  assumes "tmp \<noteq> final"
    and ok: "\<And>i. is_ok (decode_vault nv bs key uid) \<Longrightarrow> i_data i = bs \<Longrightarrow> ok (Some i)"
  shows "all_or_nothing n final ok (wcleanup
      (wbind (stage_verified nv tmp bs key uid kind) (\<lambda>_. wmap_err io_vault_error (rename_file tmp final)))
      (remove_file tmp))" (is "all_or_nothing n final ok (wcleanup ?m _)")
  unfolding all_or_nothing_def
proof (intro allI impI)
  fix w r w'
  assume n: "nodes w final = n" and a: "wcleanup ?m (remove_file tmp) w = (r, w')"
  have kc: "keeps {final} (remove_file tmp)" using assms(1) by (intro keeps_rules) auto
  obtain q v where q: "stage_verified nv tmp bs key uid kind w = (q, v)" by fastforce
  have v: "nodes v final = n"
    using n keepsD [OF keeps_stage_verified [of tmp "{final}" nv bs key uid kind], of final w] assms(1) q
    by simp
  obtain e x where e: "rename_file tmp final v = (e, x)" by fastforce
  consider (stage) k where "q = Inl k" | (rename) u k where "q = Inr u" "e = Inl k"
    | (moved) u u' where "q = Inr u" "e = Inr u'" by (cases q; cases e) auto
  then show "(is_ok r \<longrightarrow> ok (nodes w' final)) \<and> (nodes w' final = n \<or> ok (nodes w' final))"
  proof cases
    case stage
    with a q have "r = Inl k" "w' = snd (remove_file tmp v)" by (auto simp: wcleanup_def wbind_def)
    with keepsD [OF kc, of final v] v show ?thesis by simp
  next
    case rename
    with a q e have "w' = snd (remove_file tmp x)" "\<not> is_ok r"
      by (auto simp: wcleanup_def wbind_def wmap_err_def)
    with keepsD [OF kc, of final x] rename_file_Inl [of tmp final v k x] rename e v show ?thesis by simp
  next
    case moved
    with a q e have "w' = x" by (auto simp: wcleanup_def wbind_def wmap_err_def)
    moreover obtain i where i: "nodes v tmp = Some i" "i_data i = bs" "is_ok (decode_vault nv bs key uid)"
      using stage_verified_Inr [of nv tmp bs key uid kind w u v] q moved by auto
    ultimately have "nodes w' final = Some i"
      using rename_file_Inr [of tmp final v u' x] moved e assms(1) by simp
    with ok [OF i(3,2)] show ?thesis by simp
  qed
qed

lemma aon_write_verified_atomic:
  assumes "final = join dir VAULT_FILE"
    and "\<And>i. is_ok (decode_vault (ve_native env) bs key uid) \<Longrightarrow> i_data i = bs \<Longrightarrow> ok (Some i)"
  shows "all_or_nothing n final ok (write_verified_atomic env dir final bs key uid kind)"
  using assms unfolding write_verified_atomic_def Let_def
  by (auto intro!: aon_wfail aon_wlift aon_suffix aon_stage_rename keeps_rules)

section \<open>What the operations do to the stored profile\<close>

text \<open>The profile a vault holds: nothing, or what its file decodes to under a key.\<close>

definition stored :: "native \<Rightarrow> vault \<Rightarrow> bytes \<Rightarrow> inode option \<Rightarrow> (vault_error + profile) option" where
  "stored nv v key n = map_option (\<lambda>i. decode_vault nv (i_data i) key (v_uid v)) n"

lemma commit_profile_aon:
  assumes "aead_exact (ve_native env)" "profile_wf p" "ve_nonce env = Inr nonce" "length nonce = NONCE_BYTES"
  shows "all_or_nothing n (vault_path v) (\<lambda>n. stored (ve_native env) v key n = Some (Inr p)) (commit_profile env v key p)"
proof -
  let ?ok = "\<lambda>n. stored (ve_native env) v key n = Some (Inr p)"
  have ok: "?ok (Some i)" if "encode_vault (ve_native env) (ve_nonce env) p key (v_uid v) = Inr bs" "i_data i = bs"
    for bs i
    using that decode_encode_vault [OF assms(1,2,4)] assms(3) by (simp add: stored_def)
  show ?thesis
    unfolding commit_profile_def
    by (intro aon_prefix aon_with_lock aon_wlift aon_write_verified_atomic keeps_rules refl)
      (auto intro: ok)
qed

text \<open>
  The commit up to the moment it looks for an existing vault: directory and lock. The look itself,
  \<^verbatim>\<open>final_path.exists()\<close>, answers no when its status call fails, which is the case \<open>look_failed\<close>.
\<close>

definition commit_look :: "vault_env \<Rightarrow> vault \<Rightarrow> (vault_error, unit) io" where
  "commit_look env v = wbind (ensure_directory (v_root v) (v_uid v) (v_kind v)) (\<lambda>_. lock_acquire env v)"

definition look_failed :: "vault_env \<Rightarrow> vault \<Rightarrow> world \<Rightarrow> bool" where
  "look_failed env v w \<longleftrightarrow> fst (pop_fault (snd (commit_look env v w))) \<noteq> None"

definition no_vault :: "inode option \<Rightarrow> bool" where
  "no_vault n \<longleftrightarrow> (case n of None \<Rightarrow> True | Some i \<Rightarrow> i_kind i = Symlink False)"

lemma keeps_commit_look: "keeps {vault_path v} (commit_look env v)"
  unfolding commit_look_def lock_acquire_def by (intro keeps_rules keeps_lock_loop) auto

lemma path_exists_False:
  "path_exists p w = (False, w') \<Longrightarrow> fst (pop_fault w) \<noteq> None \<or> no_vault (nodes w p)"
  by (auto simp: path_exists_def no_vault_def dest: nodes_pop_fault split: prod.splits option.splits file_kind.splits)

lemma check_existing_Inr:
  assumes "check_existing nv v key w = (Inr u, w')"
  shows "fst (pop_fault w) \<noteq> None \<or> no_vault (nodes w (vault_path v))
    \<or> (\<exists>q. stored nv v key (nodes w (vault_path v)) = Some (Inr q))"
proof -
  obtain b w1 where b: "path_exists (vault_path v) w = (b, w1)" by fastforce
  show ?thesis
  proof (cases b)
    case True
    with assms b obtain bs w2 q where "read_secure_file (vault_path v) (v_uid v) (v_kind v) w1 = (Inr bs, w2)"
      "decode_vault nv bs key (v_uid v) = Inr q"
      by (auto simp: check_existing_def io_success)
    with read_secure_file_Inr(2) nodes_path_exists [OF b] show ?thesis by (fastforce simp: stored_def)
  next
    case False
    with path_exists_False [of "vault_path v" w w1] b show ?thesis by auto
  qed
qed

lemma commit_replaces_authenticated:
  assumes "commit_profile env v key p w = (r, w')" "nodes w' (vault_path v) \<noteq> nodes w (vault_path v)"
  shows "look_failed env v w \<or> no_vault (nodes w (vault_path v))
    \<or> (\<exists>q. stored (ve_native env) v key (nodes w (vault_path v)) = Some (Inr q))"
proof -
  let ?f = "vault_path v"
  let ?store = "wbind (wlift (encode_vault (ve_native env) (ve_nonce env) p key (v_uid v))) (\<lambda>encoded.
      write_verified_atomic env (v_root v) ?f encoded key (v_uid v) (v_kind v))"
  obtain l w1 where l: "commit_look env v w = (l, w1)" by fastforce
  have n1: "nodes w1 ?f = nodes w ?f" using keepsD [OF keeps_commit_look, of ?f v env w] l by simp
  obtain c w2 where c: "check_existing (ve_native env) v key w1 = (c, w2)" by fastforce
  have n2: "nodes w2 ?f = nodes w1 ?f" using keepsD [OF keeps_check_existing [of "{?f}"], of ?f "ve_native env" v key w1] c by simp
  have split: "commit_profile env v key p = wbind (commit_look env v)
      (\<lambda>_. wfinally (wbind (check_existing (ve_native env) v key) (\<lambda>_. ?store)) (remove_file (lock_path v)))"
    by (simp add: commit_profile_def with_lock_def commit_look_def fun_eq_iff wbind_def split: prod.split sum.split)
  have rm: "nodes (snd (remove_file (lock_path v) x)) ?f = nodes x ?f" for x
    by (rule keepsD [of "{?f}"]) (auto intro!: keeps_rules)
  have "is_ok l \<and> is_ok c"
    using assms l c n1 n2 rm by (cases l; cases c) (auto simp: split wbind_def wfinally_def split: prod.splits)
  with check_existing_Inr c n1 l show ?thesis by (fastforce simp: look_failed_def is_ok_iff)
qed

text \<open>
  Claim C3: whatever system call fails during a commit, the vault file afterwards is the inode it was
  before or a complete vault that opens to the committed profile under the key; a commit that reports
  success has stored the profile. The file is replaced only if there was none (nothing at the path, or a
  link that leads nowhere), if the file that was there opens under the presented key, or if the very status call that looks
  for it failed.
\<close>

theorem commit_profile_atomic:
  assumes "aead_exact (ve_native env)" "profile_wf p"
    "ve_nonce env = Inr nonce" "length nonce = NONCE_BYTES"
    "commit_profile env v key p w = (r, w')"
  shows "(is_ok r \<longrightarrow> stored (ve_native env) v key (nodes w' (vault_path v)) = Some (Inr p))
    \<and> (nodes w' (vault_path v) = nodes w (vault_path v)
       \<or> stored (ve_native env) v key (nodes w' (vault_path v)) = Some (Inr p))
    \<and> (nodes w' (vault_path v) \<noteq> nodes w (vault_path v)
       \<longrightarrow> no_vault (nodes w (vault_path v))
         \<or> (\<exists>q. stored (ve_native env) v key (nodes w (vault_path v)) = Some (Inr q))
         \<or> look_failed env v w)"
  using aonD [OF commit_profile_aon [OF assms(1-4)] refl assms(5)] commit_replaces_authenticated [OF assms(5)] by blast

text \<open>
  Whatever fails during a key rotation, the vault file is the old inode or a complete vault that
  opens under the new key to the very profile the old file held under the old key; success implies the latter.
\<close>

theorem rotate_key_atomic:
  assumes "aead_exact (ve_native env)" "ve_nonce env = Inr nonce" "length nonce = NONCE_BYTES"
    "rotate_key env v old_key new_key w = (r, w')"
  shows "(is_ok r \<longrightarrow> (\<exists>p. stored (ve_native env) v old_key (nodes w (vault_path v)) = Some (Inr p)
              \<and> stored (ve_native env) v new_key (nodes w' (vault_path v)) = Some (Inr p)))
    \<and> (nodes w' (vault_path v) = nodes w (vault_path v)
       \<or> (\<exists>p. stored (ve_native env) v old_key (nodes w (vault_path v)) = Some (Inr p)
              \<and> stored (ve_native env) v new_key (nodes w' (vault_path v)) = Some (Inr p)))"
proof -
  let ?n = "nodes w (vault_path v)"
  let ?ok = "\<lambda>n. \<exists>p. stored (ve_native env) v old_key ?n = Some (Inr p)
      \<and> stored (ve_native env) v new_key n = Some (Inr p)"
  have ok: "?ok (Some j)" if "?n = Some i" "decode_vault (ve_native env) (i_data i) old_key (v_uid v) = Inr p"
    "encode_vault (ve_native env) (ve_nonce env) p new_key (v_uid v) = Inr bs" "i_data j = bs" for i j p bs
    using that decode_encode_vault [OF assms(1) _ assms(3)] encode_decode_vault [OF assms(1) that(2)] assms(2)
    by (simp add: stored_def)
  have "all_or_nothing ?n (vault_path v) ?ok (rotate_key env v old_key new_key)"
    unfolding rotate_key_def
    by (rule aon_prefix [OF keeps_readers(1)], rule aon_with_lock, rule aon_read, rule aon_wlift,
        rule aon_wlift, rule aon_write_verified_atomic [OF refl], erule (3) ok) auto
  from aonD [OF this refl assms(4)] show ?thesis .
qed

lemma aon_remove:
  assumes "ok None"
  shows "all_or_nothing n f ok (wmap_err io_vault_error (remove_file f))"
  unfolding all_or_nothing_def
proof (intro allI impI)
  fix w r w'
  assume n: "nodes w f = n" and a: "wmap_err io_vault_error (remove_file f) w = (r, w')"
  obtain flt v where p: "pop_fault w = (flt, v)" by fastforce
  from a assms n nodes_pop_fault [OF p]
  show "(is_ok r \<longrightarrow> ok (nodes w' f)) \<and> (nodes w' f = n \<or> ok (nodes w' f))"
    by (auto simp: wmap_err_def remove_file_def sys_def p split: option.splits fault.splits if_splits)
qed

text \<open>
  Deleting a profile removes the vault file only if that file opens under the presented key;
  in every other case, failures included, the file stays as it was. A successful deletion leaves no file.
\<close>

theorem delete_profile_authenticated:
  assumes "delete_profile env v key w = (r, w')"
  shows "(is_ok r \<longrightarrow> nodes w' (vault_path v) = None)
    \<and> (nodes w' (vault_path v) \<noteq> nodes w (vault_path v)
        \<longrightarrow> nodes w' (vault_path v) = None
          \<and> (\<exists>p. stored (ve_native env) v key (nodes w (vault_path v)) = Some (Inr p)))"
proof -
  let ?n = "nodes w (vault_path v)"
  let ?ok = "\<lambda>n. n = None \<and> (\<exists>p. stored (ve_native env) v key ?n = Some (Inr p))"
  have "all_or_nothing ?n (vault_path v) ?ok (delete_profile env v key)"
    unfolding delete_profile_def
    by (rule aon_prefix [OF keeps_readers(1)], rule aon_with_lock, rule aon_read, rule aon_wlift,
        rule aon_suffix, rule aon_remove) (auto simp: stored_def intro: keeps_rules)
  from aonD [OF this refl assms] show ?thesis by blast
qed

section \<open>A commit on a healthy filesystem\<close>

text \<open>An owner-only regular file and an owner-only directory, as the user-session vault demands them.\<close>

definition private_file :: "u32 \<Rightarrow> inode \<Rightarrow> bool" where
  "private_file uid i \<longleftrightarrow> i_kind i = Regular \<and> i_uid i = uid \<and> i_nlink i = 1
     \<and> and (i_mode i) (oct3 7 7 7) = oct3 6 0 0"

definition private_dir :: "u32 \<Rightarrow> inode \<Rightarrow> bool" where
  "private_dir uid i \<longleftrightarrow> i_kind i = Directory \<and> i_uid i = uid \<and> and (i_mode i) (oct3 7 7 7) = oct3 7 0 0"

lemma clean_validate_directory:
  assumes "script w = []" "nodes w p = Some i" "private_dir uid i"
  shows "validate_directory p uid UserSession w = (Inr (), w)"
  using assms
  by (simp add: validate_directory_def flow_defs call_defs clean_calls stat_def perm_def is_symlink_def
      private_dir_def)

lemma clean_read_secure_file:
  assumes "script w = []" "nodes w p = Some i" "private_file uid i" "length (i_data i) \<le> MAXIMUM_VAULT_BYTES"
  shows "read_secure_file p uid UserSession w = (Inr (i_data i), w)"
  using assms
  by (simp add: read_secure_file_def validate_secure_path_def flow_defs call_defs clean_calls stat_def
      perm_def is_symlink_def private_file_def)

definition created :: "world \<Rightarrow> inode" where
  "created w = \<lparr>i_kind = Regular, i_uid = euid w, i_gid = egid w,
     i_mode = and (oct3 6 0 0) (not (umask w)), i_nlink = 1, i_dev = 0, i_ino = next_ino w,
     i_stamp = stamp w, i_data = []\<rparr>"

lemma clean_create_new:
  assumes "script w = []" "nodes w p = None"
  shows "create_new p (oct3 6 0 0) w = (Inr (), w\<lparr>nodes := (nodes w)(p \<mapsto> created w),
     next_ino := next_ino w + 1, stamp := stamp w + 1\<rparr>)"
  using assms by (simp add: create_new_def clean_sys created_def)

text \<open>What an operation needs to go through: no failures, a private directory, no lock, no stale file.\<close>

definition quiet :: "vault_env \<Rightarrow> vault \<Rightarrow> bytes \<Rightarrow> world \<Rightarrow> bool" where
  "quiet env v suffix w \<longleftrightarrow>
     script w = [] \<and> v_kind v = UserSession \<and> euid w = v_uid v \<and> 0 < ve_fuel env
   \<and> (\<exists>d. nodes w (v_root v) = Some d \<and> private_dir (v_uid v) d)
   \<and> nodes w (lock_path v) = None
   \<and> ve_suffix env = Inr suffix \<and> nodes w (temporary_path (v_root v) suffix) = None
   \<and> and (oct3 6 0 0) (not (umask w)) = oct3 6 0 0"

definition healthy :: "vault_env \<Rightarrow> vault \<Rightarrow> bytes \<Rightarrow> world \<Rightarrow> bool" where
  "healthy env v suffix w \<longleftrightarrow> quiet env v suffix w \<and> nodes w (vault_path v) = None"

lemma oct_masks: "and (oct3 6 0 0) (oct3 7 7 7) = oct3 6 0 0"
  by (simp add: oct3_def)

lemma private_created:
  "and (oct3 6 0 0) (not (umask w)) = oct3 6 0 0 \<Longrightarrow> private_file (euid w) (created w)"
  by (simp add: private_file_def created_def oct_masks)

lemma clean_lock:
  assumes "quiet env v suffix w"
  shows "\<exists>w1 l. lock_acquire env v w = (Inr (), w1) \<and> nodes w1 = (nodes w)(lock_path v \<mapsto> l)
    \<and> script w1 = [] \<and> euid w1 = euid w \<and> umask w1 = umask w \<and> i_kind l = Regular"
proof -
  have h: "script w = []" "v_kind v = UserSession" "euid w = v_uid v" "nodes w (lock_path v) = None"
    "and (oct3 6 0 0) (not (umask w)) = oct3 6 0 0" using assms by (simp_all add: quiet_def)
  obtain d where "nodes w (v_root v) = Some d" "private_dir (v_uid v) d"
    using assms by (auto simp: quiet_def)
  note vd = clean_validate_directory [OF h(1) this]
  obtain fuel where fuel: "ve_fuel env = Suc fuel" using assms gr0_conv_Suc by (auto simp: quiet_def)
  have pf: "private_file (v_uid v) (created w)" using private_created [OF h(5)] h(3) by simp
  define w1 where "w1 = w\<lparr>nodes := (nodes w)(lock_path v \<mapsto> created w),
     next_ino := next_ino w + 1, stamp := stamp w + 1\<rparr>"
  have w1: "script w1 = []" "nodes w1 (lock_path v) = Some (created w)" using h(1) by (simp_all add: w1_def)
  have "lock_created v w1 = (Inr (), w1)"
    using h(2) w1 pf
    by (simp add: lock_created_def wbind_def wreturn_def fd_metadata_def sync_all_def clean_sys fs_lookup_def
        wmap_err_def private_file_def stat_def perm_def)
  then have "lock_acquire env v w = (Inr (), w1)"
    using h(1,2,4) vd fuel by (simp add: lock_acquire_def wbind_def clean_create_new w1_def)
  then show ?thesis using pf w1(1) by (auto simp: w1_def private_file_def)
qed

lemma clean_stage:
  assumes "script w = []" "nodes w tmp = None" "and (oct3 6 0 0) (not (umask w)) = oct3 6 0 0"
    "length bs \<le> MAXIMUM_VAULT_BYTES" "is_ok (decode_vault nv bs key (euid w))"
  shows "\<exists>w2 t. stage_verified nv tmp bs key (euid w) UserSession w = (Inr (), w2) \<and> script w2 = []
    \<and> nodes w2 = (nodes w)(tmp \<mapsto> t) \<and> private_file (euid w) t \<and> i_data t = bs"
proof -
  define t where "t = (created w)\<lparr>i_data := bs, i_stamp := stamp w + 1\<rparr>"
  define w2 where "w2 = w\<lparr>nodes := (nodes w)(tmp \<mapsto> t), next_ino := next_ino w + 1, stamp := stamp w + 2\<rparr>"
  have t: "private_file (euid w) t" "i_data t = bs"
    using private_created [OF assms(3)] by (simp_all add: t_def private_file_def)
  have "read_secure_file tmp (euid w) UserSession w2 = (Inr bs, w2)"
    using clean_read_secure_file [of w2 tmp t "euid w"] t assms(1,4) by (simp add: w2_def)
  moreover obtain q where "decode_vault nv bs key (euid w) = Inr q" using assms(5) by (auto simp: is_ok_iff)
  moreover have "fs_update tmp (\<lambda>i. i\<lparr>i_data := i_data i @ bs\<rparr>)
      (w\<lparr>nodes := (nodes w)(tmp \<mapsto> created w), next_ino := next_ino w + 1, stamp := stamp w + 1\<rparr>) = w2"
    by (simp add: fs_update_def w2_def t_def created_def)
  moreover have "sync_all tmp w2 = (Inr (), w2)" using assms(1) by (simp add: sync_all_def clean_sys w2_def)
  ultimately have "stage_verified nv tmp bs key (euid w) UserSession w = (Inr (), w2)"
    using assms(1,2)
    by (simp add: stage_verified_def wbind_def wmap_err_def clean_create_new wreturn_def clean_write_all_file
        wlift_def)
  then show ?thesis using t assms(1) by (auto simp: w2_def)
qed

lemma clean_write:
  assumes "script w = []" "nodes w (temporary_path dir suffix) = None" "ve_suffix env = Inr suffix"
    "and (oct3 6 0 0) (not (umask w)) = oct3 6 0 0" "nodes w dir = Some d"
    "bs \<noteq> []" "length bs \<le> MAXIMUM_VAULT_BYTES" "is_ok (decode_vault (ve_native env) bs key (euid w))"
  shows "\<exists>w2 t. write_verified_atomic env dir (join dir VAULT_FILE) bs key (euid w) UserSession w = (Inr (), w2)
    \<and> script w2 = [] \<and> private_file (euid w) t \<and> i_data t = bs
    \<and> nodes w2 = (nodes w)(join dir VAULT_FILE \<mapsto> t)"
proof -
  let ?tmp = "temporary_path dir suffix"
  obtain w1 t where s: "stage_verified (ve_native env) ?tmp bs key (euid w) UserSession w = (Inr (), w1)"
    "script w1 = []" "nodes w1 = (nodes w)(?tmp \<mapsto> t)" "private_file (euid w) t" "i_data t = bs"
    using clean_stage [OF assms(1,2,4,7,8)] by blast
  define w2 where "w2 = w1\<lparr>nodes := (nodes w1)(?tmp := None, join dir VAULT_FILE := Some t)\<rparr>"
  have "rename_file ?tmp (join dir VAULT_FILE) w1 = (Inr (), w2)"
    using s by (simp add: rename_file_def clean_sys w2_def)
  moreover have "nodes w2 = (nodes w)(join dir VAULT_FILE \<mapsto> t)"
    using assms(2) by (auto simp: w2_def s(3) fun_eq_iff)
  moreover have "sync_directory dir w2 = (Inr (), w2)"
    using s(2,3) assms(5) by (simp add: w2_def sync_directory_def open_path_def sync_all_def clean_sys
        wbind_def wmap_err_def)
  moreover have "script w2 = []" using s(2) by (simp add: w2_def)
  ultimately show ?thesis using s assms(3,6,7)
    by (simp add: write_verified_atomic_def wbind_def wlift_def wcleanup_def wmap_err_def Let_def) blast
qed

lemma commit_healthy:
  assumes "aead_exact (ve_native env)" "profile_wf p" "healthy env v suffix w"
    "ve_nonce env = Inr nonce" "length nonce = NONCE_BYTES"
    "encode_vault (ve_native env) (Inr nonce) p key (v_uid v) = Inr bs"
  shows "\<exists>w' t. commit_profile env v key p w = (Inr (), w') \<and> script w' = []
    \<and> nodes w' = (nodes w)(vault_path v \<mapsto> t) \<and> private_file (v_uid v) t \<and> i_data t = bs"
proof -
  have h: "script w = []" "v_kind v = UserSession" "euid w = v_uid v" "nodes w (vault_path v) = None"
    "ve_suffix env = Inr suffix" "nodes w (temporary_path (v_root v) suffix) = None"
    "and (oct3 6 0 0) (not (umask w)) = oct3 6 0 0" "nodes w (lock_path v) = None"
    using assms(3) by (simp_all add: healthy_def quiet_def)
  obtain d where d: "nodes w (v_root v) = Some d" "private_dir (v_uid v) d"
    using assms(3) by (auto simp: healthy_def quiet_def)
  obtain w1 l where l: "lock_acquire env v w = (Inr (), w1)" "nodes w1 = (nodes w)(lock_path v \<mapsto> l)"
    "script w1 = []" "euid w1 = euid w" "umask w1 = umask w" "i_kind l = Regular"
    using clean_lock [of env v suffix w] assms(3) by (auto simp: healthy_def)
  have dec: "decode_vault (ve_native env) bs key (v_uid v) = Inr p"
    by (rule decode_encode_vault [OF assms(1,2,5,6)])
  have bs: "bs \<noteq> []" "length bs \<le> MAXIMUM_VAULT_BYTES" using dec by (auto simp: decode_vault_iff)
  obtain w2 t where wr: "write_verified_atomic env (v_root v) (vault_path v) bs key (v_uid v) UserSession w1 = (Inr (), w2)"
    "script w2 = []" "private_file (v_uid v) t" "i_data t = bs" "nodes w2 = (nodes w1)(vault_path v \<mapsto> t)"
    using clean_write [of w1 "v_root v" suffix env d bs key] l h d dec bs by auto
  define w3 where "w3 = w2\<lparr>nodes := (nodes w2)(lock_path v := None)\<rparr>"
  have rm: "remove_file (lock_path v) w2 = (Inr (), w3)"
    using wr l(2,6) by (simp add: remove_file_def clean_sys w3_def)
  have "ensure_directory (v_root v) (v_uid v) UserSession w = (Inr (), w)"
    using clean_validate_directory [OF h(1) d] d by (simp add: ensure_directory_def clean_path_exists h(1) private_dir_def)
  moreover have "check_existing (ve_native env) v key w1 = (Inr (), w1)"
    using h(4) l by (simp add: check_existing_def clean_path_exists wreturn_def)
  ultimately have "commit_profile env v key p w = (Inr (), w3)"
    using l(1) wr(1) rm assms(4,6) h(2)
    by (simp add: commit_profile_def with_lock_def wbind_def wfinally_def wlift_def)
  moreover have "nodes w3 = (nodes w)(vault_path v \<mapsto> t)"
    using h(8) by (auto simp: w3_def wr(5) l(2) fun_eq_iff)
  ultimately show ?thesis using wr by (auto simp: w3_def)
qed

text \<open>
  On a healthy filesystem a commit succeeds, creates exactly the vault file and removes its lock, and
  opening the vault afterwards returns the committed profile, for which the status is Ready with its sample count.
\<close>

theorem commit_then_open:
  assumes "aead_exact (ve_native env)" "profile_wf p" "healthy env v suffix w"
    "ve_nonce env = Inr nonce" "length nonce = NONCE_BYTES"
    "encode_vault (ve_native env) (Inr nonce) p key (v_uid v) = Inr bs"
    "is_ok (sha256 (ve_native env) bs)"
  shows "\<exists>w' t. commit_profile env v key p w = (Inr (), w')
    \<and> nodes w' = (nodes w)(vault_path v \<mapsto> t)
    \<and> fst (open_profile (ve_native env) v key w') = Inr p
    \<and> fst (vault_status (ve_native env) v (Some key) w')
        = VS_Ready \<lparr>enrolled = True, summary_count = word_of_nat (sample_count p)\<rparr>"
proof -
  obtain w' t where c: "commit_profile env v key p w = (Inr (), w')" "script w' = []"
    "nodes w' = (nodes w)(vault_path v \<mapsto> t)" "private_file (v_uid v) t" "i_data t = bs"
    using commit_healthy [OF assms(1-6)] by blast
  obtain d where d: "nodes w' (v_root v) = Some d" "private_dir (v_uid v) d"
    using assms(3) c(3) by (auto simp: healthy_def quiet_def)
  have k: "v_kind v = UserSession" using assms(3) by (simp add: healthy_def quiet_def)
  have dec: "decode_vault (ve_native env) bs key (v_uid v) = Inr p"
    by (rule decode_encode_vault [OF assms(1,2,5,6)])
  then have len: "length bs \<le> MAXIMUM_VAULT_BYTES" by (simp add: decode_vault_iff)
  have "nodes w' (vault_path v) = Some t" using c(3) by simp
  note rd = clean_read_secure_file [OF c(2) this c(4)]
  obtain digest where "sha256 (ve_native env) bs = Inr digest" using assms(7) by (auto simp: is_ok_iff)
  with clean_validate_directory [OF c(2) d] rd dec len c(5) k
  have o: "open_profile (ve_native env) v key w' = (Inr p, w')"
    by (simp add: open_profile_def open_profile_snapshot_def wbind_def wlift_def wreturn_def)
  have "sample_count p < 256" using profile_wf_count [OF assms(2)] by simp
  with clean_validate_directory [OF c(2) d] o c d k
  have "fst (vault_status (ve_native env) v (Some key) w')
      = VS_Ready \<lparr>enrolled = True, summary_count = word_of_nat (sample_count p)\<rparr>"
    by (simp add: vault_status_def clean_path_exists private_dir_def private_file_def)
  with c o show ?thesis by auto
qed

text \<open>A stored vault: an owner-only file that opens under the key.\<close>

definition holds :: "vault_env \<Rightarrow> vault \<Rightarrow> bytes \<Rightarrow> profile \<Rightarrow> world \<Rightarrow> bool" where
  "holds env v key p w \<longleftrightarrow> (\<exists>t. nodes w (vault_path v) = Some t \<and> private_file (v_uid v) t
     \<and> decode_vault (ve_native env) (i_data t) key (v_uid v) = Inr p)"

lemma with_lock_clean:
  assumes "quiet env v suffix w"
    and "\<And>w1 l. \<lbrakk>nodes w1 = (nodes w)(lock_path v \<mapsto> l); script w1 = []; euid w1 = euid w; umask w1 = umask w;
           i_kind l = Regular\<rbrakk>
         \<Longrightarrow> \<exists>w2. body w1 = (Inr x, w2) \<and> script w2 = [] \<and> nodes w2 (lock_path v) = Some l"
  shows "\<exists>w'. with_lock env v body w = (Inr x, w')"
proof -
  obtain w1 l where l: "lock_acquire env v w = (Inr (), w1)" "nodes w1 = (nodes w)(lock_path v \<mapsto> l)"
    "script w1 = []" "euid w1 = euid w" "umask w1 = umask w" "i_kind l = Regular"
    using clean_lock [OF assms(1)] by blast
  from assms(2) [OF l(2-6)] obtain w2 where
    "body w1 = (Inr x, w2)" "script w2 = []" "nodes w2 (lock_path v) = Some l" by blast
  with l show ?thesis by (simp add: with_lock_def wbind_def wfinally_def remove_file_def clean_sys)
qed

lemma wbind_run: "m w = (Inr x, w1) \<Longrightarrow> wbind m f w = f x w1"
  by (simp add: wbind_def)

lemma delete_quiet:
  assumes "quiet env v suffix w" "holds env v key p w"
  shows "\<exists>w'. delete_profile env v key w = (Inr (), w')"
proof -
  have h: "script w = []" "v_kind v = UserSession" using assms(1) by (simp_all add: quiet_def)
  obtain d where d: "nodes w (v_root v) = Some d" "private_dir (v_uid v) d"
    using assms(1) by (auto simp: quiet_def)
  obtain t where t: "nodes w (vault_path v) = Some t" "private_file (v_uid v) t"
    "decode_vault (ve_native env) (i_data t) key (v_uid v) = Inr p"
    using assms(2) by (auto simp: holds_def)
  have len: "length (i_data t) \<le> MAXIMUM_VAULT_BYTES" using t(3) by (simp add: decode_vault_iff)
  show ?thesis
    unfolding delete_profile_def wbind_run [where m = "validate_directory _ _ _", OF clean_validate_directory [OF h(1) d, folded h(2)]]
    using t(3) h(2) clean_read_secure_file [OF _ _ t(2) len]
    by (intro with_lock_clean [OF assms(1)])
      (simp add: t t(2) [unfolded private_file_def] d wlift_def remove_file_def clean_sys wmap_err_def
        sync_directory_def open_path_def sync_all_def wbind_def)
qed

lemma rotate_quiet:
  assumes "aead_exact (ve_native env)" "profile_wf p" "quiet env v suffix w" "holds env v old_key p w"
    "ve_nonce env = Inr nonce" "length nonce = NONCE_BYTES"
    "encode_vault (ve_native env) (Inr nonce) p new_key (v_uid v) = Inr bs"
  shows "\<exists>w'. rotate_key env v old_key new_key w = (Inr (), w')"
proof -
  have h: "script w = []" "v_kind v = UserSession" "euid w = v_uid v" "ve_suffix env = Inr suffix"
    "nodes w (temporary_path (v_root v) suffix) = None" "and (oct3 6 0 0) (not (umask w)) = oct3 6 0 0"
    using assms(3) by (simp_all add: quiet_def)
  obtain d where d: "nodes w (v_root v) = Some d" "private_dir (v_uid v) d"
    using assms(3) by (auto simp: quiet_def)
  obtain t where t: "nodes w (vault_path v) = Some t" "private_file (v_uid v) t"
    "decode_vault (ve_native env) (i_data t) old_key (v_uid v) = Inr p"
    using assms(4) by (auto simp: holds_def)
  have len: "length (i_data t) \<le> MAXIMUM_VAULT_BYTES" using t(3) by (simp add: decode_vault_iff)
  have dec: "decode_vault (ve_native env) bs new_key (v_uid v) = Inr p"
    by (rule decode_encode_vault [OF assms(1,2,6,7)])
  have bs: "bs \<noteq> []" "length bs \<le> MAXIMUM_VAULT_BYTES" using dec by (auto simp: decode_vault_iff)
  show ?thesis
    unfolding rotate_key_def wbind_run [where m = "validate_directory _ _ _", OF clean_validate_directory [OF h(1) d, folded h(2)]]
  proof (rule with_lock_clean [OF assms(3)], goal_cases)
    case (1 w1 l)
    then obtain w2 t2 where "write_verified_atomic env (v_root v) (vault_path v) bs new_key (v_uid v) UserSession w1 = (Inr (), w2)"
      "script w2 = []" "nodes w2 = (nodes w1)(vault_path v \<mapsto> t2)"
      using clean_write [of w1 "v_root v" suffix env d bs new_key] h d dec bs by auto
    then show ?case
      using clean_read_secure_file [OF 1(2) _ t(2) len] t assms(5,7) h(2) 1(1) by (simp add: wlift_def wbind_def)
  qed
qed

lemma open_quiet:
  assumes "quiet env v suffix w" "holds env v key p w" "\<And>bs. is_ok (sha256 (ve_native env) bs)"
  shows "open_profile (ve_native env) v key w = (Inr p, w)"
proof -
  have h: "script w = []" "v_kind v = UserSession" using assms(1) by (simp_all add: quiet_def)
  obtain d where d: "nodes w (v_root v) = Some d" "private_dir (v_uid v) d"
    using assms(1) by (auto simp: quiet_def)
  obtain t where t: "nodes w (vault_path v) = Some t" "private_file (v_uid v) t"
    "decode_vault (ve_native env) (i_data t) key (v_uid v) = Inr p"
    using assms(2) by (auto simp: holds_def)
  have len: "length (i_data t) \<le> MAXIMUM_VAULT_BYTES" using t(3) by (simp add: decode_vault_iff)
  obtain digest where "sha256 (ve_native env) (i_data t) = Inr digest" using assms(3) by (auto simp: is_ok_iff)
  with clean_validate_directory [OF h(1) d] clean_read_secure_file [OF h(1) t(1,2) len] t(3) h(2) show ?thesis
    by (simp add: open_profile_def open_profile_snapshot_def wbind_def wlift_def wreturn_def)
qed

lemma commit_quiet:
  assumes "aead_exact (ve_native env)" "profile_wf p" "quiet env v suffix w" "holds env v key q w"
    "ve_nonce env = Inr nonce" "length nonce = NONCE_BYTES"
    "encode_vault (ve_native env) (Inr nonce) p key (v_uid v) = Inr bs"
  shows "\<exists>w'. commit_profile env v key p w = (Inr (), w')"
proof -
  have h: "script w = []" "v_kind v = UserSession" "euid w = v_uid v" "ve_suffix env = Inr suffix"
    "nodes w (temporary_path (v_root v) suffix) = None" "and (oct3 6 0 0) (not (umask w)) = oct3 6 0 0"
    using assms(3) by (simp_all add: quiet_def)
  obtain d where d: "nodes w (v_root v) = Some d" "private_dir (v_uid v) d"
    using assms(3) by (auto simp: quiet_def)
  obtain t where t: "nodes w (vault_path v) = Some t" "private_file (v_uid v) t"
    "decode_vault (ve_native env) (i_data t) key (v_uid v) = Inr q"
    using assms(4) by (auto simp: holds_def)
  have len: "length (i_data t) \<le> MAXIMUM_VAULT_BYTES" using t(3) by (simp add: decode_vault_iff)
  have dec: "decode_vault (ve_native env) bs key (v_uid v) = Inr p"
    by (rule decode_encode_vault [OF assms(1,2,6,7)])
  have bs: "bs \<noteq> []" "length bs \<le> MAXIMUM_VAULT_BYTES" using dec by (auto simp: decode_vault_iff)
  have e: "ensure_directory (v_root v) (v_uid v) (v_kind v) w = (Inr (), w)"
    using clean_validate_directory [OF h(1) d] d h(2)
    by (simp add: ensure_directory_def clean_path_exists h(1) private_dir_def)
  show ?thesis
    unfolding commit_profile_def wbind_run [where m = "ensure_directory _ _ _", OF e]
  proof (intro with_lock_clean [OF assms(3)], goal_cases)
    case (1 w1 l)
    have "check_existing (ve_native env) v key w1 = (Inr (), w1)"
      using clean_read_secure_file [OF 1(2) _ t(2) len] t h(2) 1
      by (simp add: check_existing_def clean_path_exists private_file_def wlift_def wbind_def wreturn_def)
    moreover from 1 obtain w2 t2 where
      "write_verified_atomic env (v_root v) (vault_path v) bs key (v_uid v) UserSession w1 = (Inr (), w2)"
      "script w2 = []" "nodes w2 = (nodes w1)(vault_path v \<mapsto> t2)"
      using clean_write [of w1 "v_root v" suffix env d bs key] h d dec bs by auto
    ultimately show ?case using assms(5,7) h(2) 1(1) by (simp add: wlift_def wbind_def)
  qed
qed

section \<open>A concrete vault\<close>

definition sample_vault :: vault where
  "sample_vault = user_session_with_root ''/home/u/.local/share/kfaceauth'' 1000"

definition sample_env :: vault_env where
  "sample_env = \<lparr>ve_native = toy_native, ve_clock = (\<lambda>i. i * LOCK_RETRY), ve_fuel = 202,
     ve_nonce = Inr (replicate 12 7), ve_suffix = Inr (replicate 8 5)\<rparr>"

definition sample_world :: world where
  "sample_world = \<lparr>nodes = [v_root sample_vault \<mapsto> \<lparr>i_kind = Directory, i_uid = 1000, i_gid = 1000,
        i_mode = oct3 7 0 0, i_nlink = 2, i_dev = 0, i_ino = 1, i_stamp = 0, i_data = []\<rparr>],
     euid = 1000, egid = 1000, umask = 0, group_ids = Map.empty, next_ino = 2, stamp = 1, script = []\<rparr>"

lemma sample_healthy: "healthy sample_env sample_vault (replicate 8 5) sample_world"
  by (simp add: healthy_def quiet_def sample_env_def sample_vault_def user_session_with_root_def sample_world_def
      private_dir_def oct3_def)

lemma sample_env_simps:
  "ve_native sample_env = toy_native" "ve_nonce sample_env = Inr (replicate 12 7)" "v_uid sample_vault = 1000"
  by (simp_all add: sample_env_def sample_vault_def user_session_with_root_def)

lemma toy_vault_encodes:
  "\<exists>bs. encode_vault toy_native (Inr (replicate 12 7)) unit_profile key 1000 = Inr bs"
proof -
  obtain pt where "encode_profile unit_profile 1000 = Inr pt"
    using encode_profile_eq [of unit_profile 1000] by (simp add: unit_profile_def sample_count_def)
  with encode_vault_succeeds [OF toy_native_exact unit_profile_wf _ this toy_encrypt_ok] show ?thesis
    by (simp add: NONCE_BYTES_def)
qed

theorem commit_then_open_witness:
  "\<exists>w'. commit_profile sample_env sample_vault [1] unit_profile sample_world = (Inr (), w')
    \<and> fst (open_profile toy_native sample_vault [1] w') = Inr unit_profile"
proof -
  obtain bs where b: "encode_vault toy_native (Inr (replicate 12 7)) unit_profile [1] 1000 = Inr bs"
    using toy_vault_encodes by blast
  have "is_ok (sha256 toy_native bs)" by (simp add: sha256_def toy_native_def status_result_def)
  with commit_then_open [OF _ unit_profile_wf sample_healthy, of "replicate 12 7" "[1]" bs] b
  show ?thesis by (auto simp: sample_env_simps toy_native_exact NONCE_BYTES_def)
qed

text \<open>The sample directory with a vault file in it.\<close>

definition stored_world :: "bytes \<Rightarrow> world" where
  "stored_world bs = sample_world\<lparr>nodes := (nodes sample_world)(vault_path sample_vault \<mapsto>
     \<lparr>i_kind = Regular, i_uid = 1000, i_gid = 1000, i_mode = oct3 6 0 0, i_nlink = 1, i_dev = 0, i_ino = 9,
      i_stamp = 0, i_data = bs\<rparr>)\<rparr>"

lemma stored_world_holds:
  "\<exists>bs. quiet sample_env sample_vault (replicate 8 5) (stored_world bs)
    \<and> holds sample_env sample_vault [1] unit_profile (stored_world bs)"
proof -
  obtain bs where b: "encode_vault toy_native (Inr (replicate 12 7)) unit_profile [1] 1000 = Inr bs"
    using toy_vault_encodes by blast
  have "decode_vault toy_native bs [1] 1000 = Inr unit_profile"
    by (rule decode_encode_vault [OF toy_native_exact unit_profile_wf _ b]) (simp add: NONCE_BYTES_def)
  then have "holds sample_env sample_vault [1] unit_profile (stored_world bs)"
    by (simp add: holds_def stored_world_def sample_env_simps private_file_def oct_masks)
  moreover have "quiet sample_env sample_vault (replicate 8 5) (stored_world bs)"
    using sample_healthy by (auto simp: healthy_def quiet_def stored_world_def)
  ultimately show ?thesis by blast
qed

text \<open>The witness replaces a readable vault: the profile that was there opens under the key of the commit.\<close>

theorem commit_profile_atomic_witness:
  "\<exists>bs w'. commit_profile sample_env sample_vault [1] unit_profile (stored_world bs) = (Inr (), w')
    \<and> stored toy_native sample_vault [1] (nodes w' (vault_path sample_vault)) = Some (Inr unit_profile)
    \<and> (nodes w' (vault_path sample_vault) \<noteq> nodes (stored_world bs) (vault_path sample_vault)
       \<longrightarrow> no_vault (nodes (stored_world bs) (vault_path sample_vault))
         \<or> (\<exists>q. stored toy_native sample_vault [1] (nodes (stored_world bs) (vault_path sample_vault)) = Some (Inr q))
         \<or> look_failed sample_env sample_vault (stored_world bs))"
proof -
  obtain bs where b: "quiet sample_env sample_vault (replicate 8 5) (stored_world bs)"
    "holds sample_env sample_vault [1] unit_profile (stored_world bs)" using stored_world_holds by blast
  obtain ebs where "encode_vault toy_native (Inr (replicate 12 7)) unit_profile [1] 1000 = Inr ebs"
    using toy_vault_encodes by blast
  then obtain w' where c: "commit_profile sample_env sample_vault [1] unit_profile (stored_world bs) = (Inr (), w')"
    using commit_quiet [OF _ unit_profile_wf b, of "replicate 12 7" ebs]
    by (auto simp: sample_env_simps toy_native_exact NONCE_BYTES_def)
  from commit_profile_atomic [OF _ unit_profile_wf _ _ c, of "replicate 12 7"] c show ?thesis
    by (intro exI [of _ bs] exI [of _ w']) (simp add: sample_env_simps toy_native_exact NONCE_BYTES_def)
qed

theorem rotate_key_atomic_witness:
  "\<exists>bs p. stored toy_native sample_vault [2]
     (nodes (snd (rotate_key sample_env sample_vault [1] [2] (stored_world bs))) (vault_path sample_vault))
       = Some (Inr p)"
proof -
  obtain bs where b: "quiet sample_env sample_vault (replicate 8 5) (stored_world bs)"
    "holds sample_env sample_vault [1] unit_profile (stored_world bs)" using stored_world_holds by blast
  obtain ebs where e: "encode_vault toy_native (Inr (replicate 12 7)) unit_profile [2] 1000 = Inr ebs"
    using toy_vault_encodes by blast
  then obtain w' where r: "rotate_key sample_env sample_vault [1] [2] (stored_world bs) = (Inr (), w')"
    using rotate_quiet [OF _ unit_profile_wf b, of "replicate 12 7" "[2]" ebs]
    by (auto simp: sample_env_simps toy_native_exact NONCE_BYTES_def)
  with rotate_key_atomic [OF _ _ _ this, of "replicate 12 7"] show ?thesis
    by (fastforce simp: sample_env_simps toy_native_exact NONCE_BYTES_def intro!: exI [of _ bs])
qed

theorem delete_profile_authenticated_witness:
  "\<exists>bs. nodes (snd (delete_profile sample_env sample_vault [1] (stored_world bs))) (vault_path sample_vault) = None"
proof -
  obtain bs where b: "quiet sample_env sample_vault (replicate 8 5) (stored_world bs)"
    "holds sample_env sample_vault [1] unit_profile (stored_world bs)" using stored_world_holds by blast
  from delete_quiet [OF b] obtain w' where "delete_profile sample_env sample_vault [1] (stored_world bs) = (Inr (), w')"
    by blast
  with delete_profile_authenticated [OF this] show ?thesis by (auto intro!: exI [of _ bs])
qed

end
