(* ===== verification/Policy_Store.thy ===== *)
theory Policy_Store
  imports Auth_Policy File_System
begin

text \<open>
  How the opt-in policy is loaded and replaced on disk (\<^verbatim>\<open>engine/templates/src/auth_policy.rs\<close>): the metadata checks of
  the configuration directory and of \<^verbatim>\<open>policy.json\<close>, the attempt-scoped snapshot with its file identity, and the atomic
  write. Directories and files are named by their paths.
\<close>

section \<open>Loading\<close>

definition AUTH_POLICY_FILE :: string where "AUTH_POLICY_FILE = ''policy.json''"

definition child :: "string \<Rightarrow> string \<Rightarrow> string" where
  "child dir name = dir @ ''/'' @ name"

abbreviation policy_path :: "string \<Rightarrow> string" where
  "policy_path dir \<equiv> child dir AUTH_POLICY_FILE"

type_synonym file_identity = "u64 \<times> u64 \<times> int \<times> int \<times> nat"

definition policy_identity :: "metadata \<Rightarrow> file_identity" where
  "policy_identity m = (md_dev m, md_ino m, md_mtime m, md_ctime m, md_len m)"

record policy_snapshot =
  snap_policy :: auth_policy
  snap_file :: string
  snap_identity :: file_identity

definition full_mode :: "metadata \<Rightarrow> u32" where
  "full_mode m = and (md_mode m) 0xFFF"

definition validate_root_directory :: "string \<Rightarrow> bool \<Rightarrow> (auth_policy_error, unit) io" where
  "validate_root_directory dir require_config_mode =
     wbind (wmap_err (\<lambda>_. Policy_UnsafeFilesystem) (fd_metadata dir)) (\<lambda>m.
     if md_kind m \<noteq> Directory \<or> md_uid m \<noteq> 0 \<or> md_gid m \<noteq> 0 \<or> full_mode m \<noteq> perm m
       \<or> (require_config_mode \<and> perm m \<noteq> oct3 7 5 5)
     then wfail Policy_UnsafeFilesystem
     else wreturn ())"

definition policy_metadata_ok :: "metadata \<Rightarrow> bool" where
  "policy_metadata_ok m \<longleftrightarrow> md_kind m = Regular \<and> md_uid m = 0 \<and> md_gid m = 0
     \<and> full_mode m = oct3 6 4 4 \<and> md_nlink m = 1 \<and> md_len m \<le> MAX_POLICY_BYTES"

definition snapshot_load_from_directory :: "string \<Rightarrow> (auth_policy_error, policy_snapshot) io" where
  "snapshot_load_from_directory dir =
     wbind (validate_root_directory dir True) (\<lambda>_.
     wbind (wmap_err (\<lambda>_. Policy_Io) (symlink_metadata (policy_path dir))) (\<lambda>entry.
     if md_kind entry \<noteq> Regular \<or> is_symlink entry then wfail Policy_UnsafeFilesystem
     else wbind (wmap_err (\<lambda>_. Policy_UnsafeFilesystem) (open_nofollow (policy_path dir))) (\<lambda>_.
     wbind (wmap_err (\<lambda>_. Policy_Io) (fd_metadata (policy_path dir))) (\<lambda>m.
     if \<not> policy_metadata_ok m then wfail Policy_UnsafeFilesystem
     else wbind (wmap_err (\<lambda>_. Policy_Io) (read_limited (policy_path dir) (MAX_POLICY_BYTES + 1))) (\<lambda>bs.
     wbind (wlift (parse_json (bytes_text bs))) (\<lambda>policy.
     wbind (wmap_err (\<lambda>_. Policy_Io) (fd_metadata (policy_path dir))) (\<lambda>m'.
     if policy_identity m' \<noteq> policy_identity m then wfail Policy_UnsafeFilesystem
     else wreturn \<lparr>snap_policy = policy, snap_file = policy_path dir, snap_identity = policy_identity m\<rparr>)))))))"

text \<open>\<^verbatim>\<open>same_file_as\<close> looks at its own descriptor again before comparing the two identities.\<close>

definition same_file_as :: "policy_snapshot \<Rightarrow> policy_snapshot \<Rightarrow> world \<Rightarrow> bool \<times> world" where
  "same_file_as snap current w =
     (case fd_metadata (snap_file snap) w of
        (Inl _, w') \<Rightarrow> (False, w')
      | (Inr m, w') \<Rightarrow>
          (md_dev m = fst (snap_identity snap) \<and> md_ino m = fst (snd (snap_identity snap))
             \<and> snap_identity snap = snap_identity current, w'))"

definition open_policy_directory :: "string \<Rightarrow> (auth_policy_error, string option) io" where
  "open_policy_directory etc w =
     (case symlink_metadata (child etc ''kfaceauth'') w of
        (Inl k, w') \<Rightarrow> (if k = NotFound then Inr None else Inl Policy_Io, w')
      | (Inr m, w') \<Rightarrow>
          if md_kind m \<noteq> Directory \<or> is_symlink m then (Inl Policy_UnsafeFilesystem, w')
          else wbind (wmap_err (\<lambda>_. Policy_UnsafeFilesystem) (open_nofollow (child etc ''kfaceauth''))) (\<lambda>_.
            wreturn (Some (child etc ''kfaceauth''))) w')"

definition open_etc :: "(auth_policy_error, string) io" where
  "open_etc =
     wbind (wmap_err (\<lambda>_. Policy_UnsafeFilesystem) (open_nofollow ''/etc'')) (\<lambda>_.
     wbind (validate_root_directory ''/etc'' False) (\<lambda>_. wreturn ''/etc''))"

definition snapshot_load_system :: "(auth_policy_error, policy_snapshot) io" where
  "snapshot_load_system =
     wbind open_etc (\<lambda>etc.
     wbind (open_policy_directory etc) (\<lambda>config.
     wbind (wlift (ok_or Policy_Io config)) snapshot_load_from_directory))"

definition policy_load_from_directory :: "string \<Rightarrow> (auth_policy_error, auth_policy) io" where
  "policy_load_from_directory dir =
     wbind (validate_root_directory dir True) (\<lambda>_ w.
     case symlink_metadata (policy_path dir) w of
       (Inl k, w') \<Rightarrow> if k = NotFound then wreturn default_policy w' else wfail Policy_Io w'
     | (Inr m, w') \<Rightarrow>
         if md_kind m \<noteq> Regular \<or> is_symlink m then wfail Policy_UnsafeFilesystem w'
         else wbind (snapshot_load_from_directory dir) (\<lambda>s. wreturn (snap_policy s)) w')"

definition policy_load_system :: "(auth_policy_error, auth_policy) io" where
  "policy_load_system =
     wbind open_etc (\<lambda>etc.
     wbind (open_policy_directory etc) (\<lambda>config.
     case config of
       Some dir \<Rightarrow> policy_load_from_directory dir
     | None \<Rightarrow> wreturn default_policy))"

section \<open>Replacing\<close>

definition staging_path :: "string \<Rightarrow> nat \<Rightarrow> nat \<Rightarrow> string" where
  "staging_path dir pid nonce =
     child dir (''.policy.json.'' @ show_nat pid @ ''.'' @ show_nat nonce @ ''.tmp'')"

text \<open>\<open>nonce\<close> is the time since the epoch in nanoseconds, if the clock is not before it.\<close>

definition write_atomic :: "auth_policy \<Rightarrow> nat \<Rightarrow> nat option \<Rightarrow> string \<Rightarrow> (auth_policy_error, unit) io" where
  "write_atomic p pid nonce dir =
     wbind (validate_root_directory dir True) (\<lambda>_ w.
     if euid w \<noteq> 0 then wfail Policy_UnsafeFilesystem w
     else wbind (wlift (ok_or Policy_Io nonce)) (\<lambda>n.
       let staging = staging_path dir pid n in
       wbind (wmap_err (\<lambda>_. Policy_Io) (create_new staging (oct3 6 0 0))) (\<lambda>_.
       wcleanup (wmap_err (\<lambda>_. Policy_Io)
           (wbind (write_all_file staging (text_bytes (to_json p))) (\<lambda>_.
            wbind (sync_all staging) (\<lambda>_.
            wbind (set_fd_permissions staging 0 (oct3 6 4 4) ''root'') (\<lambda>_.
            wbind (rename_file staging (policy_path dir)) (\<lambda>_.
            sync_all dir))))))
         (remove_file staging))) w)"

section \<open>What a load certifies\<close>

lemma keeps_validate_root_directory [keeps_rules]: "keeps P (validate_root_directory dir b)"
  unfolding validate_root_directory_def by (intro keeps_rules)

lemma keeps_snapshot_load [keeps_rules]: "keeps P (snapshot_load_from_directory dir)"
  unfolding snapshot_load_from_directory_def by (intro keeps_rules)

lemma snapshot_load_Inr:
  assumes "snapshot_load_from_directory dir w = (Inr s, w')"
  shows "nodes w' = nodes w"
    "\<exists>i. nodes w (policy_path dir) = Some i \<and> policy_metadata_ok (stat i)
       \<and> parse_json (bytes_text (i_data i)) = Inr (snap_policy s) \<and> snap_identity s = policy_identity (stat i)"
proof -
  show n: "nodes w' = nodes w" using keeps_all_nodes [OF keeps_snapshot_load, of dir w] assms by simp
  let ?f = "policy_path dir"
  from assms obtain v1 v2 v3 m v4 bs v5 m' where s:
    "validate_root_directory dir True w = (Inr (), v1)" "open_nofollow ?f v2 = (Inr (), v3)"
    "nodes v2 = nodes v1"
    "fd_metadata ?f v3 = (Inr m, v4)" "policy_metadata_ok m"
    "read_limited ?f (MAX_POLICY_BYTES + 1) v4 = (Inr bs, v5)" "parse_json (bytes_text bs) = Inr (snap_policy s)"
    "snap_identity s = policy_identity m"
    using keeps_all_nodes [OF keeps_queries(1)]
    by (auto simp: snapshot_load_from_directory_def io_success split: if_splits) (metis snd_conv)
  have e: "nodes v1 = nodes w" "nodes v3 = nodes v2" "nodes v4 = nodes v3"
    using keeps_all_nodes [OF keeps_validate_root_directory, of dir True w] s(1)
      keeps_all_nodes [OF keeps_queries(2), of ?f v2] s(2)
      keeps_all_nodes [OF keeps_queries(3), of ?f v3] s(4) by simp_all
  obtain i where i: "nodes v3 ?f = Some i" "m = stat i" using metadata_Inr(2) [OF s(4)] by auto
  have "length (i_data i) \<le> MAX_POLICY_BYTES" using s(5) i(2) by (simp add: policy_metadata_ok_def stat_def)
  with read_limited_Inr(2) [OF s(6)] i(1) e(3) have "bs = i_data i" by auto
  with i s e show "\<exists>i. nodes w (policy_path dir) = Some i \<and> policy_metadata_ok (stat i)
       \<and> parse_json (bytes_text (i_data i)) = Inr (snap_policy s) \<and> snap_identity s = policy_identity (stat i)"
    by auto
qed

text \<open>
  Claim C12: a snapshot of the policy is only ever taken of a root-owned regular file with mode 0644, one link and at most 64
  KiB, its policy is the parse of that file's whole contents, and it grants uid zero nothing. This holds whatever calls
  fail on the way, and loading changes no file.
\<close>

theorem snapshot_load_safe:
  assumes "snapshot_load_from_directory dir w = (Inr s, w')"
  shows "nodes w' = nodes w \<and> policy_wf (snap_policy s) \<and> (\<forall>t. mode_for (snap_policy s) 0 t = Off)
    \<and> (\<exists>i. nodes w (policy_path dir) = Some i \<and> i_kind i = Regular \<and> i_uid i = 0 \<and> i_gid i = 0
         \<and> i_nlink i = 1 \<and> and (i_mode i) 0xFFF = oct3 6 4 4
         \<and> parse_json (bytes_text (i_data i)) = Inr (snap_policy s))"
proof -
  obtain i where i: "nodes w (policy_path dir) = Some i" "policy_metadata_ok (stat i)"
    "parse_json (bytes_text (i_data i)) = Inr (snap_policy s)"
    using snapshot_load_Inr(2) [OF assms] by auto
  have wf: "policy_wf (snap_policy s)" by (rule parse_json_wf [OF i(3)])
  then have "om_get (users (snap_policy s)) 0 = None"
    using users_wf_get [of "users (snap_policy s)" 0]
    by (cases "om_get (users (snap_policy s)) 0") (auto simp: policy_wf_def)
  with snapshot_load_Inr(1) [OF assms] wf i show ?thesis
    by (auto simp: policy_metadata_ok_def stat_def full_mode_def mode_for_def)
qed

lemma staging_neq [simp]: "staging_path dir pid n \<noteq> policy_path dir" "policy_path dir \<noteq> staging_path dir pid n"
  by (simp_all add: staging_path_def child_def AUTH_POLICY_FILE_def)

definition policy_written :: "auth_policy \<Rightarrow> inode option \<Rightarrow> bool" where
  "policy_written p n \<longleftrightarrow> (\<exists>i. n = Some i \<and> i_data i = text_bytes (to_json p) \<and> i_kind i = Regular
     \<and> i_uid i = 0 \<and> i_mode i = oct3 6 4 4 \<and> i_nlink i = 1)"

text \<open>The staged steps up to the rename, run on a freshly created file.\<close>

lemma aon_policy_stage:
  assumes "tmp \<noteq> final"
  shows "all_or_nothing n final (policy_written p)
    (wbind (wmap_err (\<lambda>_. Policy_Io) (create_new tmp (oct3 6 0 0))) (\<lambda>_.
     wcleanup (wmap_err (\<lambda>_. Policy_Io)
       (wbind (write_all_file tmp (text_bytes (to_json p))) (\<lambda>_.
        wbind (sync_all tmp) (\<lambda>_.
        wbind (set_fd_permissions tmp 0 (oct3 6 4 4) ''root'') (\<lambda>_.
        wbind (rename_file tmp final) (\<lambda>_. sync_all dir))))))
     (remove_file tmp)))"
proof -
  let ?at = "\<lambda>P w. \<exists>i. nodes w tmp = Some i \<and> i_kind i = Regular \<and> i_nlink i = 1 \<and> P i"
  let ?full = "\<lambda>i. i_data i = text_bytes (to_json p)"
  have kf: "keeps {final} (create_new tmp m)" "keeps {final} (write_all_file tmp bs)"
    "keeps {final} (set_fd_permissions tmp 0 m g)" "keeps {final} (remove_file tmp)" for m bs g
    using assms by (auto intro!: keeps_rules)
  have ren: "aon_from (?at (\<lambda>i. ?full i \<and> i_uid i = 0 \<and> i_mode i = oct3 6 4 4)) n final (policy_written p)
      (wbind (rename_file tmp final) (\<lambda>_. sync_all dir))"
    using assms by (intro aon_from_rename keeps_rules) (auto simp: policy_written_def)
  have perm: "aon_from (?at ?full) n final (policy_written p)
      (wbind (set_fd_permissions tmp 0 (oct3 6 4 4) ''root'') (\<lambda>_.
       wbind (rename_file tmp final) (\<lambda>_. sync_all dir)))"
    by (rule aon_from_step [OF kf(3) _ ren]) (auto dest!: set_fd_permissions_Inr)
  have sync: "aon_from (?at ?full) n final (policy_written p)
      (wbind (sync_all tmp) (\<lambda>_. wbind (set_fd_permissions tmp 0 (oct3 6 4 4) ''root'') (\<lambda>_.
       wbind (rename_file tmp final) (\<lambda>_. sync_all dir))))"
    by (rule aon_from_step [OF keeps_queries(5) _ perm])
      (metis keeps_all_nodes [OF keeps_queries(5)] snd_conv)
  have body: "aon_from (?at (\<lambda>i. i_data i = [])) n final (policy_written p)
      (wbind (write_all_file tmp (text_bytes (to_json p))) (\<lambda>_. wbind (sync_all tmp) (\<lambda>_.
       wbind (set_fd_permissions tmp 0 (oct3 6 4 4) ''root'') (\<lambda>_.
       wbind (rename_file tmp final) (\<lambda>_. sync_all dir)))))"
    by (rule aon_from_step [OF kf(2) _ sync]) (auto dest!: write_all_file_Inr)
  show ?thesis
    unfolding aon_from_True [symmetric]
    by (rule aon_from_step [OF keeps_wmap_err [OF kf(1)] _ aon_from_cleanup [OF aon_from_map_err [OF body] kf(4)]])
      (auto simp: wmap_err_Inr dest!: create_new_Inr(2))
qed

lemma aon_write_atomic:
  "all_or_nothing n (policy_path dir) (policy_written p) (write_atomic p pid nonce dir)"
  unfolding write_atomic_def Let_def
  by (rule aon_prefix [OF keeps_validate_root_directory]) (simp add: aon_wif aon_wfail aon_wlift aon_policy_stage)

interpretation policy_file: atomic_store "\<lambda>k p. write_atomic p pid (clock k) dir" "policy_path dir" policy_written
  for pid :: nat and clock :: "nat \<Rightarrow> nat option" and dir
  by unfold_locales (rule aon_write_atomic)

lemma policy_written_parse:
  assumes "policy_wf p" "policy_written p (Some i)"
  shows "parse_json (bytes_text (i_data i)) = (if length (to_json p) \<le> MAX_POLICY_BYTES then Inr p else Inl Policy_Invalid)"
  using assms parse_policy_json [of p] is_ascii_json(3) [of p]
  by (simp add: policy_written_def parse_json_def not_le [symmetric])

text \<open>
  Claim C18: whatever fails while the policy is replaced, \<^verbatim>\<open>policy.json\<close> afterwards is the inode it was before or a
  root-owned file of mode 0644 that holds the complete new policy; success implies the latter. If the policy is well
  formed and prints within 64 KiB, the new file parses back to it.
\<close>

theorem write_atomic_all_or_nothing:
  assumes "write_atomic p pid nonce dir w = (r, w')"
  shows "(is_ok r \<longrightarrow> policy_written p (nodes w' (policy_path dir)))
    \<and> (nodes w' (policy_path dir) = nodes w (policy_path dir) \<or> policy_written p (nodes w' (policy_path dir)))
    \<and> (policy_wf p \<longrightarrow> length (to_json p) \<le> MAX_POLICY_BYTES \<longrightarrow>
        (\<forall>i. policy_written p (Some i) \<longrightarrow> parse_json (bytes_text (i_data i)) = Inr p))"
  using aonD [OF aon_write_atomic refl assms] policy_written_parse [of p] by auto

section \<open>A concrete configuration\<close>

definition root_inode :: "file_kind \<Rightarrow> u32 \<Rightarrow> nat \<Rightarrow> bytes \<Rightarrow> inode" where
  "root_inode kind mode links bs = \<lparr>i_kind = kind, i_uid = 0, i_gid = 0, i_mode = mode, i_nlink = links,
     i_dev = 0, i_ino = 1, i_stamp = 0, i_data = bs\<rparr>"

definition policy_world :: world where
  "policy_world = \<lparr>nodes = [''/etc/kfaceauth'' \<mapsto> root_inode Directory (oct3 7 5 5) 2 [],
        policy_path ''/etc/kfaceauth'' \<mapsto> root_inode Regular (oct3 6 4 4) 1 (text_bytes (to_json default_policy))],
     euid = 0, egid = 0, umask = 0, group_ids = [''root'' \<mapsto> 0], next_ino = 2, stamp = 1, script = []\<rparr>"

lemma policy_world_loads:
  "\<exists>s. snapshot_load_from_directory ''/etc/kfaceauth'' policy_world = (Inr s, policy_world)
    \<and> snap_policy s = default_policy"
proof -
  have d: "nodes policy_world ''/etc/kfaceauth'' = Some (root_inode Directory (oct3 7 5 5) 2 [])"
    "nodes policy_world (policy_path ''/etc/kfaceauth'')
      = Some (root_inode Regular (oct3 6 4 4) 1 (text_bytes (to_json default_policy)))"
    "script policy_world = []"
    by (simp_all add: policy_world_def child_def)
  have len: "length (text_bytes (to_json default_policy)) \<le> MAX_POLICY_BYTES"
    by (simp add: text_bytes_def to_json_def default_policy_def quoted_def MAX_POLICY_BYTES_def)
  have m: "and (oct3 6 4 4) 0xFFF = oct3 6 4 4" "and (oct3 7 5 5) 0xFFF = oct3 7 5 5"
    "and (oct3 7 5 5) (oct3 7 7 7) = oct3 7 5 5" by (simp_all add: oct3_def)
  show ?thesis
    using d len m parse_json_default
    by (simp add: snapshot_load_from_directory_def validate_root_directory_def flow_defs call_defs clean_sys
        stat_def root_inode_def policy_metadata_ok_def full_mode_def perm_def is_symlink_def)
qed

theorem snapshot_load_safe_witness:
  "\<exists>s. snapshot_load_from_directory ''/etc/kfaceauth'' policy_world = (Inr s, policy_world)
    \<and> policy_wf (snap_policy s)"
  using policy_world_loads snapshot_load_safe [of "''/etc/kfaceauth''" policy_world _ policy_world] by metis

theorem write_atomic_all_or_nothing_witness:
  "policy_written sample_policy
     (nodes (snd (write_atomic sample_policy 7 (Some 9) ''/etc/kfaceauth'' policy_world)) (policy_path ''/etc/kfaceauth''))"
proof -
  have "is_ok (fst (write_atomic sample_policy 7 (Some 9) ''/etc/kfaceauth'' policy_world))" by code_simp
  then show ?thesis
    using write_atomic_all_or_nothing [OF prod.collapse [symmetric],
      of sample_policy 7 "Some 9" "''/etc/kfaceauth''" policy_world] by blast
qed

end
