(* ===== verification/Auth_Worker.thy ===== *)
theory Auth_Worker
  imports Daemon_Supervisor Model_Loader Vault_Store Policy_Store
begin

text \<open>
  The private worker of the daemon (\<^verbatim>\<open>serve_auth_worker\<close>, \<^verbatim>\<open>handle_pam_request\<close> and \<^verbatim>\<open>verify_frame_against_vault\<close> of
  \<^verbatim>\<open>engine/daemon/src/lib.rs\<close>): one authentication attempt from the policy check to the comparison with the enrolled
  profile. The properties: exactly when an attempt reports success, and that an attempt never panics.

  The surroundings are functions of a counter, as for the supervisor: each call of the file system starts in a world of its
  own, so files may change between any two of them.
\<close>

section \<open>Configuration and surroundings\<close>

record daemon_config =
  cfg_model_root :: string
  cfg_keys_dir :: "bytes option"
  cfg_vault_root :: "string option"
  cfg_camera_device :: "string option"
  cfg_test_frame_path :: "string option"
  cfg_max_timeout_ms :: u32

text \<open>The environment of a process: the value of a variable, if it is set.\<close>

type_synonym environment = "string \<Rightarrow> string option"

definition config_from_env :: "environment \<Rightarrow> daemon_config" where
  "config_from_env env =
     \<lparr>cfg_model_root = (case env ''KFACEAUTH_MODEL_DIR'' of None \<Rightarrow> ''/usr/share/kfaceauth/models'' | Some p \<Rightarrow> p),
      cfg_keys_dir = map_option text_bytes (env ''KFACEAUTH_KEYS_DIR''),
      cfg_vault_root = env ''KFACEAUTH_SYSTEM_VAULT_DIR'',
      cfg_camera_device = Option.bind (env ''KFACEAUTH_CAMERA_DEVICE'')
        (\<lambda>d. if utf8_valid (map byte d) then Some d else None),
      cfg_test_frame_path = env ''KFACEAUTH_TEST_FRAME'',
      cfg_max_timeout_ms = DEFAULT_PAM_TIMEOUT_MS\<rparr>"

text \<open>The environment that \<^verbatim>\<open>spawn_auth_worker\<close> builds for the worker: cleared, then the configuration.\<close>

definition worker_environment :: "daemon_config \<Rightarrow> environment" where
  "worker_environment cfg =
     Map.empty(''KFACEAUTH_MODEL_DIR'' \<mapsto> cfg_model_root cfg,
       ''KFACEAUTH_KEYS_DIR'' := map_option bytes_text (cfg_keys_dir cfg),
       ''KFACEAUTH_SYSTEM_VAULT_DIR'' := cfg_vault_root cfg,
       ''KFACEAUTH_CAMERA_DEVICE'' := cfg_camera_device cfg,
       ''KFACEAUTH_TEST_FRAME'' := cfg_test_frame_path cfg)"

record attempt_env =
  ae_now :: "nat \<Rightarrow> instant"
  ae_fs :: "nat \<Rightarrow> world"
  ae_native :: native
  ae_vision :: vision_native
  ae_listing :: listing
  ae_keys :: "u32 \<Rightarrow> bytes option \<Rightarrow> int \<times> bytes"
  ae_camera :: "string option \<Rightarrow> u32 \<Rightarrow> int \<times> (nat \<Rightarrow> u8) \<times> u32 \<times> u32 \<times> u32"
  ae_clock :: "nat \<Rightarrow> nat"
  ae_vault_dir :: "string option"

definition DEFAULT_SYSTEM_VAULT_ROOT :: string where "DEFAULT_SYSTEM_VAULT_ROOT = ''/var/lib/kfaceauth''"

definition system_vault_root :: "string option \<Rightarrow> string" where
  "system_vault_root dir =
     (case dir of Some p \<Rightarrow> if is_absolute p then p else DEFAULT_SYSTEM_VAULT_ROOT | None \<Rightarrow> DEFAULT_SYSTEM_VAULT_ROOT)"

definition open_vault_for_uid :: "attempt_env \<Rightarrow> u32 \<Rightarrow> daemon_config \<Rightarrow> vault" where
  "open_vault_for_uid env uid cfg =
     (case cfg_vault_root cfg of
        Some dir \<Rightarrow> system_with_root dir uid
      | None \<Rightarrow> system_with_root (system_vault_root (ae_vault_dir env)) uid)"

definition authentication_target_enabled :: "world \<Rightarrow> u32 \<Rightarrow> u8 \<Rightarrow> bool" where
  "authentication_target_enabled w uid auth_target =
     (case authentication_target auth_target of
        None \<Rightarrow> False
      | Some target \<Rightarrow>
          (case fst (snapshot_load_system w) of
             Inl _ \<Rightarrow> False
           | Inr s \<Rightarrow> mode_for (snap_policy s) uid target \<noteq> Off))"

section \<open>Frames\<close>

record captured_frame =
  cf_width :: u32
  cf_height :: u32
  cf_stride :: u32
  cf_format :: u8
  cf_bytes :: bytes

text \<open>The frame of a test configuration. A link at the path is not followed by the model: it counts as a failed open.\<close>

definition load_test_frame :: "world \<Rightarrow> string \<Rightarrow> u8 + captured_frame" where
  "load_test_frame w path =
     rbind (map_err (\<lambda>_. STATUS_DEVICE_BUSY)
       (fst (wbind (open_path path) (\<lambda>_. read_limited path (MAX_FRAME_BYTES + 14)) w))) (\<lambda>bs.
     if length bs > MAX_FRAME_BYTES + 13 then Inl STATUS_DEVICE_BUSY
     else if length bs < 13 then Inl STATUS_DEVICE_BUSY
     else Inr \<lparr>cf_width = u32_from_be (bslice 0 4 bs), cf_height = u32_from_be (bslice 4 8 bs),
       cf_stride = u32_from_be (bslice 8 12 bs), cf_format = bs ! 12, cf_bytes = drop 13 bs\<rparr>)"

text \<open>
  \<^verbatim>\<open>v4l2_capture\<close> of \<^verbatim>\<open>crypto-openssl-sys\<close>; the camera reports status, buffer contents, width, height and format.
\<close>

definition v4l2_capture ::
    "(string option \<Rightarrow> u32 \<Rightarrow> int \<times> (nat \<Rightarrow> u8) \<times> u32 \<times> u32 \<times> u32) \<Rightarrow> string option \<Rightarrow> u32
      \<Rightarrow> crypto_error + u32 \<times> u32 \<times> u32 \<times> (nat \<Rightarrow> u8)" where
  "v4l2_capture camera device timeout =
     (if (\<exists>d \<in> set_option device. CHR 0x00 \<in> set d) then Inl InvalidArgument
      else case camera device timeout of (status, buffer, width, height, format) \<Rightarrow>
        if status \<noteq> 0 then Inl ProviderFailure else Inr (width, height, format, buffer))"

definition capture_bpp :: "u8 \<Rightarrow> u32" where
  "capture_bpp format = (if format = 3 then 1 else if format = 2 then 4 else 3)"

definition capture_camera_frame ::
    "(string option \<Rightarrow> u32 \<Rightarrow> int \<times> (nat \<Rightarrow> u8) \<times> u32 \<times> u32 \<times> u32) \<Rightarrow> string option \<Rightarrow> u32 \<Rightarrow> u8 + captured_frame" where
  "capture_camera_frame camera device timeout =
     map_err (\<lambda>_. STATUS_DEVICE_BUSY) (
       rbind (map_err (\<lambda>_. ()) (v4l2_capture camera device timeout)) (\<lambda>(width, height, format, buffer).
       rbind (if unat format < 256 then Inr (ucast format :: u8) else Inl ()) (\<lambda>format_u8.
       rbind (ok_or () (checked_mul width (capture_bpp format_u8))) (\<lambda>stride.
       rbind (ok_or () (checked_mul stride height)) (\<lambda>expected.
       if MAX_FRAME_BYTES < unat expected then Inl ()
       else Inr \<lparr>cf_width = width, cf_height = height, cf_stride = stride, cf_format = format_u8,
         cf_bytes = map buffer [0..<unat expected]\<rparr>)))))"

section \<open>Verification\<close>

text \<open>
  The result is a status; \<open>None\<close> would be a panic. Counter \<open>i\<close> numbers the observations of the clock, \<open>j\<close> those of the file
  system.
\<close>

definition attempt_control :: "attempt_env \<Rightarrow> instant \<Rightarrow> nat \<Rightarrow> control" where
  "attempt_control env now timeout_ms =
     \<lparr>ctl_deadline = now + timeout_ms * MILLISECOND, ctl_cancelled = (\<lambda>_. False), ctl_clock = ae_clock env\<rparr>"

definition compare_with_profile :: "attempt_env \<Rightarrow> nat \<Rightarrow> nat \<Rightarrow> vault \<Rightarrow> bytes \<Rightarrow> instant \<Rightarrow> embedding \<Rightarrow> u8" where
  "compare_with_profile env i j v key deadline embedding =
     (if expired deadline (ae_now env i) then STATUS_TIMEOUT
      else case fst (open_profile (ae_native env) v key (ae_fs env j)) of
        Inl _ \<Rightarrow> STATUS_AUTH_FAILED
      | Inr profile \<Rightarrow>
          if expired deadline (ae_now env (i + 1)) then STATUS_TIMEOUT
          else if verify profile embedding = Match then STATUS_SUCCESS else STATUS_AUTH_FAILED)"

definition verify_frame_against_vault ::
    "attempt_env \<Rightarrow> nat \<Rightarrow> nat \<Rightarrow> vault \<Rightarrow> bytes \<Rightarrow> captured_frame \<Rightarrow> instant \<Rightarrow> string \<Rightarrow> u8 option" where
  "verify_frame_against_vault env i j v key frame deadline model_root =
     (case pixel_format_try_from (cf_format frame) of
        Inl _ \<Rightarrow> Some STATUS_AUTH_FAILED
      | Inr format \<Rightarrow>
     (case image_view_new format (cf_width frame) (cf_height frame) (cf_stride frame) (cf_bytes frame) of
        Inl _ \<Rightarrow> Some STATUS_AUTH_FAILED
      | Inr img \<Rightarrow>
     if expired deadline (ae_now env i) then Some STATUS_TIMEOUT
     else
     (case fst (identity_from_model_root (ae_vision env) (ae_native env) (ae_listing env) model_root (ae_fs env j)) of
        Inl _ \<Rightarrow> Some STATUS_INTERNAL_ERROR
      | Inr provider \<Rightarrow>
     (case remaining_timeout_ms deadline (ae_now env (i + 1)) of
        None \<Rightarrow> Some STATUS_TIMEOUT
      | Some timeout_ms \<Rightarrow>
     (case extract_embedding (ae_vision env) provider img
             (attempt_control env (ae_now env (i + 2)) timeout_ms) 0 ExperimentalAuth of
        None \<Rightarrow> None
      | Some (Inl (ID_SpoofDetected _)) \<Rightarrow> Some STATUS_SPOOF_DETECTED
      | Some (Inl _) \<Rightarrow> Some STATUS_AUTH_FAILED
      | Some (Inr (embedding, _)) \<Rightarrow>
          Some (compare_with_profile env (i + 3) (j + 1) v key deadline embedding))))))"

section \<open>One attempt\<close>

definition request_deadline :: "daemon_config \<Rightarrow> u32 \<Rightarrow> instant \<Rightarrow> instant \<Rightarrow> instant" where
  "request_deadline cfg timeout_ms now connection_deadline =
     min (now + unat (min (min timeout_ms (cfg_max_timeout_ms cfg)) DEFAULT_PAM_TIMEOUT_MS) * MILLISECOND) connection_deadline"

fun profile_ready :: "vault_state \<Rightarrow> bool" where
  "profile_ready (VS_Ready s) = (enrolled s \<and> 0 < summary_count s)"
| "profile_ready _ = False"

definition take_frame :: "attempt_env \<Rightarrow> nat \<Rightarrow> daemon_config \<Rightarrow> u32 \<Rightarrow> u8 + captured_frame" where
  "take_frame env j cfg timeout =
     (case cfg_test_frame_path cfg of
        Some path \<Rightarrow> load_test_frame (ae_fs env j) path
      | None \<Rightarrow> capture_camera_frame (ae_camera env) (cfg_camera_device cfg) timeout)"

text \<open>
  \<open>looking\<close> is what the progress callback returns; the second component tells whether it was called.
\<close>

definition handle_pam_request ::
    "attempt_env \<Rightarrow> u32 \<Rightarrow> u8 \<Rightarrow> u32 \<Rightarrow> instant \<Rightarrow> daemon_config \<Rightarrow> bool \<Rightarrow> (u8 \<times> bool) option" where
  "handle_pam_request env uid auth_target timeout_ms connection_deadline cfg looking =
     (let deadline = request_deadline cfg timeout_ms (ae_now env 0) connection_deadline in
      if expired deadline (ae_now env 1) then Some (STATUS_TIMEOUT, False)
      else if \<not> authentication_target_enabled (ae_fs env 0) uid auth_target then Some (STATUS_ACCESS_DENIED, False)
      else case load_master_key_for_uid (ae_keys env) uid (cfg_keys_dir cfg) of
        Inl _ \<Rightarrow> Some (STATUS_AUTH_FAILED, False)
      | Inr key \<Rightarrow>
          if expired deadline (ae_now env 2) then Some (STATUS_TIMEOUT, False)
          else
            let v = open_vault_for_uid env uid cfg in
            if \<not> profile_ready (fst (vault_status (ae_native env) v (Some key) (ae_fs env 1)))
            then Some (STATUS_NO_PROFILE, False)
            else case remaining_timeout_ms deadline (ae_now env 3) of
              None \<Rightarrow> Some (STATUS_TIMEOUT, False)
            | Some capture_timeout_ms \<Rightarrow>
                (case take_frame env 2 cfg (word_of_nat capture_timeout_ms) of
                   Inl status \<Rightarrow> Some (status, False)
                 | Inr frame \<Rightarrow>
                     if \<not> looking then Some (STATUS_INTERNAL_ERROR, True)
                     else if expired deadline (ae_now env 4) then Some (STATUS_TIMEOUT, True)
                     else case verify_frame_against_vault env 5 3 v key frame deadline (cfg_model_root cfg) of
                       None \<Rightarrow> None
                     | Some status \<Rightarrow>
                         Some (if expired deadline (ae_now env 10) then STATUS_TIMEOUT else status, True)))"

text \<open>
  \<^verbatim>\<open>serve_auth_worker\<close>: \<open>input\<close> is all that standard input delivers until its end, \<open>Inl\<close> a failed read. A write to standard
  output fails after a number of bytes when \<open>stdout\<close> says so. The result pairs the outcome with the bytes written.
\<close>

definition write_out :: "(io_kind \<times> nat) option \<Rightarrow> bytes \<Rightarrow> (io_kind + unit) \<times> bytes" where
  "write_out fate bs = (case fate of None \<Rightarrow> (Inr (), bs) | Some (k, n) \<Rightarrow> (Inl k, take n bs))"

definition serve_auth_worker ::
    "attempt_env \<Rightarrow> environment \<Rightarrow> io_kind + bytes \<Rightarrow> instant \<Rightarrow> (nat \<Rightarrow> (io_kind \<times> nat) option)
      \<Rightarrow> ((io_kind + unit) \<times> bytes) option" where
  "serve_auth_worker env vars input now stdout =
     (case input of
        Inl k \<Rightarrow> Some (Inl k, [])
      | Inr bs \<Rightarrow>
          if length bs < AUTH_WORKER_REQUEST_BYTES then Some (Inl UnexpectedEof, [])
          else if length bs \<noteq> AUTH_WORKER_REQUEST_BYTES then Some (Inl InvalidData, [])
          else case parse_worker_request bs of
            None \<Rightarrow> Some (Inl InvalidData, [])
          | Some (uid, timeout_ms, auth_target) \<Rightarrow>
              (let progress = write_out (stdout 0) progress_frame in
               case handle_pam_request env uid auth_target timeout_ms (now + unat timeout_ms * MILLISECOND)
                      (config_from_env vars) (is_ok (fst progress)) of
                 None \<Rightarrow> None
               | Some (status, asked) \<Rightarrow>
                   (case write_out (stdout 1) (encode_daemon_response status []) of
                      (r, out) \<Rightarrow> Some (r, (if asked then snd progress else []) @ out))))"

section \<open>When an attempt succeeds\<close>

lemma status_distinct:
  "STATUS_SUCCESS \<noteq> STATUS_AUTH_FAILED" "STATUS_SUCCESS \<noteq> STATUS_ACCESS_DENIED" "STATUS_SUCCESS \<noteq> STATUS_NO_PROFILE"
  "STATUS_SUCCESS \<noteq> STATUS_TIMEOUT" "STATUS_SUCCESS \<noteq> STATUS_DEVICE_BUSY" "STATUS_SUCCESS \<noteq> STATUS_INTERNAL_ERROR"
  "STATUS_SUCCESS \<noteq> STATUS_SPOOF_DETECTED" "STATUS_SUCCESS \<noteq> STATUS_PROGRESS_LOOKING_FOR_FACE"
  by (simp_all add: wire_defs)

lemma remaining_timeout_None: "remaining_timeout_ms deadline now = None \<longleftrightarrow> deadline \<le> now"
  by (simp add: remaining_timeout_ms_def)

lemma compare_success:
  "compare_with_profile env i j v key deadline e = STATUS_SUCCESS \<longleftrightarrow>
     ae_now env i < deadline \<and> ae_now env (i + 1) < deadline
   \<and> (\<exists>p. fst (open_profile (ae_native env) v key (ae_fs env j)) = Inr p \<and> verify p e = Match)"
  using status_distinct by (auto simp: compare_with_profile_def expired_iff split: sum.splits)

lemma extract_total: "image_view_new f w h s bs = Inr img \<Longrightarrow> extract_embedding vn prov img c k purpose = None \<Longrightarrow> False"
  using no_panic_extract [OF image_view_new_wf, of f w h s bs img vn prov c k purpose] by (simp add: no_panic_def)

lemma verify_frame_no_panic: "verify_frame_against_vault env i j v key frame deadline model_root \<noteq> None"
  by (auto simp: verify_frame_against_vault_def split: sum.splits option.splits identity_error.splits dest: extract_total)

definition frame_accepted ::
    "attempt_env \<Rightarrow> nat \<Rightarrow> nat \<Rightarrow> vault \<Rightarrow> bytes \<Rightarrow> captured_frame \<Rightarrow> instant \<Rightarrow> string \<Rightarrow> bool" where
  "frame_accepted env i j v key frame deadline model_root \<longleftrightarrow>
     (\<exists>format img prov ms e k p.
        pixel_format_try_from (cf_format frame) = Inr format
      \<and> image_view_new format (cf_width frame) (cf_height frame) (cf_stride frame) (cf_bytes frame) = Inr img
      \<and> fst (identity_from_model_root (ae_vision env) (ae_native env) (ae_listing env) model_root (ae_fs env j)) = Inr prov
      \<and> provider_pinned (ae_native env) prov
      \<and> remaining_timeout_ms deadline (ae_now env (i + 1)) = Some ms
      \<and> extract_embedding (ae_vision env) prov img (attempt_control env (ae_now env (i + 2)) ms) 0 ExperimentalAuth
          = Some (Inr (e, k))
      \<and> fst (open_profile (ae_native env) v key (ae_fs env (j + 1))) = Inr p \<and> verify p e = Match
      \<and> ae_now env i < deadline \<and> ae_now env (i + 3) < deadline \<and> ae_now env (i + 4) < deadline)"

lemma identity_pinned_fst:
  "fst (identity_from_model_root vn nv ls dir w) = Inr prov \<Longrightarrow> provider_pinned nv prov"
  using identity_from_model_root_pinned by (metis prod.collapse)

lemma verify_frame_success:
  "verify_frame_against_vault env i j v key frame deadline model_root = Some STATUS_SUCCESS
    \<longleftrightarrow> frame_accepted env i j v key frame deadline model_root"
proof
  assume a: "verify_frame_against_vault env i j v key frame deadline model_root = Some STATUS_SUCCESS"
  obtain format img prov ms e k where s: "pixel_format_try_from (cf_format frame) = Inr format"
    "image_view_new format (cf_width frame) (cf_height frame) (cf_stride frame) (cf_bytes frame) = Inr img"
    "fst (identity_from_model_root (ae_vision env) (ae_native env) (ae_listing env) model_root (ae_fs env j)) = Inr prov"
    "remaining_timeout_ms deadline (ae_now env (i + 1)) = Some ms"
    "extract_embedding (ae_vision env) prov img (attempt_control env (ae_now env (i + 2)) ms) 0 ExperimentalAuth = Some (Inr (e, k))"
    "\<not> expired deadline (ae_now env i)" "compare_with_profile env (i + 3) (j + 1) v key deadline e = STATUS_SUCCESS"
    using a status_distinct unfolding verify_frame_against_vault_def
    by (auto split: sum.splits option.splits if_splits identity_error.splits)
  moreover have "provider_pinned (ae_native env) prov" by (rule identity_pinned_fst [OF s(3)])
  moreover have "ae_now env (i + 3) < deadline" "ae_now env (i + 4) < deadline"
    "\<exists>p. fst (open_profile (ae_native env) v key (ae_fs env (j + 1))) = Inr p \<and> verify p e = Match"
    using s(7) by (simp_all add: compare_success numeral_eq_Suc)
  ultimately show "frame_accepted env i j v key frame deadline model_root"
    unfolding frame_accepted_def expired_iff not_le by blast
next
  assume "frame_accepted env i j v key frame deadline model_root"
  then obtain format img prov ms e k p where
    "pixel_format_try_from (cf_format frame) = Inr format"
    "image_view_new format (cf_width frame) (cf_height frame) (cf_stride frame) (cf_bytes frame) = Inr img"
    "fst (identity_from_model_root (ae_vision env) (ae_native env) (ae_listing env) model_root (ae_fs env j)) = Inr prov"
    "remaining_timeout_ms deadline (ae_now env (i + 1)) = Some ms"
    "extract_embedding (ae_vision env) prov img (attempt_control env (ae_now env (i + 2)) ms) 0 ExperimentalAuth = Some (Inr (e, k))"
    "fst (open_profile (ae_native env) v key (ae_fs env (j + 1))) = Inr p" "verify p e = Match"
    "ae_now env i < deadline" "ae_now env (i + 3) < deadline" "ae_now env (i + 4) < deadline"
    unfolding frame_accepted_def by blast
  moreover from this have "compare_with_profile env (i + 3) (j + 1) v key deadline e = STATUS_SUCCESS"
    by (simp add: compare_success add.commute)
  ultimately show "verify_frame_against_vault env i j v key frame deadline model_root = Some STATUS_SUCCESS"
    unfolding verify_frame_against_vault_def by (simp add: expired_iff)
qed


lemma handle_pam_no_panic: "handle_pam_request env uid auth_target timeout_ms connection_deadline cfg looking \<noteq> None"
  by (auto simp: handle_pam_request_def Let_def verify_frame_no_panic split: sum.splits option.splits
      dest: notE [OF verify_frame_no_panic])

lemma handle_pam_success:
  "handle_pam_request env uid auth_target timeout_ms connection_deadline cfg looking = Some (STATUS_SUCCESS, asked) \<longleftrightarrow>
     asked \<and> looking \<and> authentication_target_enabled (ae_fs env 0) uid auth_target
   \<and> (\<exists>deadline key ms frame.
        deadline = request_deadline cfg timeout_ms (ae_now env 0) connection_deadline
      \<and> load_master_key_for_uid (ae_keys env) uid (cfg_keys_dir cfg) = Inr key
      \<and> profile_ready (fst (vault_status (ae_native env) (open_vault_for_uid env uid cfg) (Some key) (ae_fs env 1)))
      \<and> remaining_timeout_ms deadline (ae_now env 3) = Some ms
      \<and> take_frame env 2 cfg (word_of_nat ms) = Inr frame
      \<and> frame_accepted env 5 3 (open_vault_for_uid env uid cfg) key frame deadline (cfg_model_root cfg)
      \<and> ae_now env 1 < deadline \<and> ae_now env 2 < deadline \<and> ae_now env 4 < deadline \<and> ae_now env 10 < deadline)"
proof -
  have "take_frame env 2 cfg ms \<noteq> Inl STATUS_SUCCESS" for ms
    using status_distinct
    by (auto simp: take_frame_def load_test_frame_def capture_camera_frame_def map_err_def rbind_def
        split: option.splits sum.splits if_splits)
  then show ?thesis
    using status_distinct unfolding handle_pam_request_def Let_def expired_iff not_le
    by (auto simp: verify_frame_success [symmetric] split: sum.splits option.splits if_splits)
qed


text \<open>
  Claim C2: one attempt of the worker never panics, and it reports success exactly when its whole chain of checks passes
  before the deadline: the target is enabled for the user in the verified policy, the user's master key is there, the vault
  holds an enrolled profile, a frame was taken and announced, the networks carry the pinned digests, exactly one live face
  was extracted from the frame for authentication, and its embedding matches the profile that opens under the key.
\<close>

theorem pam_attempt_exact:
  "handle_pam_request env uid auth_target timeout_ms connection_deadline cfg looking \<noteq> None
   \<and> (handle_pam_request env uid auth_target timeout_ms connection_deadline cfg looking = Some (STATUS_SUCCESS, asked) \<longleftrightarrow>
        asked \<and> looking \<and> authentication_target_enabled (ae_fs env 0) uid auth_target
      \<and> (\<exists>deadline key ms frame.
           deadline = request_deadline cfg timeout_ms (ae_now env 0) connection_deadline
         \<and> load_master_key_for_uid (ae_keys env) uid (cfg_keys_dir cfg) = Inr key
         \<and> profile_ready (fst (vault_status (ae_native env) (open_vault_for_uid env uid cfg) (Some key) (ae_fs env 1)))
         \<and> remaining_timeout_ms deadline (ae_now env 3) = Some ms
         \<and> take_frame env 2 cfg (word_of_nat ms) = Inr frame
         \<and> frame_accepted env 5 3 (open_vault_for_uid env uid cfg) key frame deadline (cfg_model_root cfg)
         \<and> ae_now env 1 < deadline \<and> ae_now env 2 < deadline \<and> ae_now env 4 < deadline \<and> ae_now env 10 < deadline))"
  by (rule conjI [OF handle_pam_no_panic handle_pam_success])

text \<open>
  The worker runs under the daemon's configuration: what the daemon read from its environment is what the worker
  reads from the environment the daemon gives it, and nothing else of the daemon's environment reaches it.
\<close>

theorem worker_configuration:
  "config_from_env (worker_environment (config_from_env vars)) = config_from_env vars
   \<and> dom (worker_environment cfg) \<subseteq> {''KFACEAUTH_MODEL_DIR'', ''KFACEAUTH_KEYS_DIR'', ''KFACEAUTH_SYSTEM_VAULT_DIR'',
       ''KFACEAUTH_CAMERA_DEVICE'', ''KFACEAUTH_TEST_FRAME''}"
proof
  have "map_option text_bytes (map_option bytes_text (map_option text_bytes x)) = map_option text_bytes x" for x
    by (cases x) simp_all
  then show "config_from_env (worker_environment (config_from_env vars)) = config_from_env vars"
    by (cases "vars ''KFACEAUTH_CAMERA_DEVICE''") (auto simp: config_from_env_def worker_environment_def split: option.splits)
  show "dom (worker_environment cfg) \<subseteq> {''KFACEAUTH_MODEL_DIR'', ''KFACEAUTH_KEYS_DIR'', ''KFACEAUTH_SYSTEM_VAULT_DIR'',
       ''KFACEAUTH_CAMERA_DEVICE'', ''KFACEAUTH_TEST_FRAME''}"
    by (auto simp: worker_environment_def dom_def split: if_splits)
qed

section \<open>From the worker to the supervisor\<close>

lemma response_bytes: "encode_daemon_response status [] = [0, 2, status, 0]"
proof -
  have "u16_be DAEMON_PROTOCOL_VERSION = [0, 2]" by code_simp
  then show ?thesis by (simp add: encode_daemon_response_def)
qed

lemma length_response: "length (encode_daemon_response status []) = 4"
  by (simp add: response_bytes)

lemma write_out_prefix:
  "\<exists>a. snd (write_out fate bs) = take a bs \<and> (a < length bs \<longrightarrow> \<not> is_ok (fst (write_out fate bs)))"
  by (cases fate) (auto simp: write_out_def intro: exI [of _ "length bs"])

lemma asked_status:
  "handle_pam_request env uid target ms deadline cfg False = Some (status, True) \<Longrightarrow> status = STATUS_INTERNAL_ERROR"
  by (auto simp: handle_pam_request_def Let_def split: if_splits sum.splits option.splits)

text \<open>
  What a reader can take for a report in the output of one attempt: the beginnings of an announcement, possibly cut short,
  and of the final frame.
\<close>

lemma report_is_final:
  assumes "concat (replicate n progress_frame) @ encode_daemon_response status [] @ rest
      = (if asked then take a progress_frame else []) @ take b (encode_daemon_response final [])"
    "status \<noteq> STATUS_PROGRESS_LOOKING_FOR_FACE" "asked \<Longrightarrow> a < 4 \<Longrightarrow> final = STATUS_INTERNAL_ERROR"
  shows "status = final"
proof -
  have len: "4 * n + 4 + length rest = (if asked then min a 4 else 0) + min b 4"
  proof -
    have "length (concat (replicate n progress_frame)) = 4 * n" by (induction n) (simp_all add: length_response)
    then show ?thesis using arg_cong [OF assms(1), of length] by (cases asked) (auto simp: length_response min_def split: if_splits)
  qed
  show ?thesis
  proof (cases asked)
    case False
    with len have "n = 0" "4 \<le> b" by (simp_all add: min_def split: if_splits)
    with assms(1) False show ?thesis by (simp add: response_bytes)
  next
    case True
    show ?thesis
    proof (cases "n = 0")
      case n: True
      consider "a = 0" | "a = 1" | "a = 2" | "a = 3" | "4 \<le> a" by linarith
      then show ?thesis
        using assms True n by cases (auto simp: response_bytes take_Cons' split: if_splits)
    next
      case False
      with True len have "n = 1" "4 \<le> a" "4 \<le> b" by (auto simp: min_def split: if_splits)
      with assms(1) True show ?thesis by (simp add: response_bytes)
    qed
  qed
qed


text \<open>
  Claim C7: the status the supervisor answers is the status of the attempt. When the worker was given the supervisor's
  request and whatever the supervisor reads is a beginning of what the worker writes, a supervision that ends with a status
  other than its own (busy slot, rate limit, cancellation, timeout, internal error) delivered the request for this user,
  target and timeout, saw the worker exit successfully before the deadline after progress frames and exactly one final
  frame, and the status is the one with which the attempt for that user, target and timeout ended, even when a write of
  the worker is cut short.
\<close>

theorem reported_status_is_attempt_status:
  assumes "serve_auth_worker aenv vars (Inr (worker_request uid ms target)) now stdout = Some (r, out)"
    "1 \<le> ms" "ms \<le> DEFAULT_PAM_TIMEOUT_MS" "is_auth_target target"
    "\<And>m. \<exists>rest. concat (map (worker_chunk env) [0..<m]) @ rest = out"
    "supervise_auth_worker fuel env i ds uid target ms deadline client = Some (status, ds', j)"
    "status \<notin> supervisor_status"
  shows "(\<exists>asked. handle_pam_request aenv uid target ms (now + unat ms * MILLISECOND) (config_from_env vars)
        (is_ok (fst (write_out (stdout 0) progress_frame))) = Some (status, asked))
    \<and> se_stdin env (i + 5) (worker_request uid ms target) \<and> worker_reported env deadline i j status"
proof -
  let ?h = "handle_pam_request aenv uid target ms (now + unat ms * MILLISECOND) (config_from_env vars)
      (is_ok (fst (write_out (stdout 0) progress_frame)))"
  note rep = supervise_reported [OF assms(6,7)]
  obtain final asked where h: "?h = Some (final, asked)" using handle_pam_no_panic by (metis not_None_eq prod.exhaust)
  obtain a where a: "snd (write_out (stdout 0) progress_frame) = take a progress_frame"
    "a < 4 \<longrightarrow> \<not> is_ok (fst (write_out (stdout 0) progress_frame))"
    using write_out_prefix [of "stdout 0" progress_frame] length_response by metis
  obtain b where b: "snd (write_out (stdout 1) (encode_daemon_response final [])) = take b (encode_daemon_response final [])"
    using write_out_prefix by blast
  have out: "out = (if asked then take a progress_frame else []) @ take b (encode_daemon_response final [])"
    using assms(1) h a b parse_worker_request_roundtrip [OF assms(2-4), of uid]
    by (auto simp: serve_auth_worker_def Let_def split: prod.splits)
  obtain m n where "concat (map (worker_chunk env) [0..<m]) = concat (replicate n progress_frame) @ encode_daemon_response status []"
    using rep(2) unfolding worker_reported_def by blast
  with assms(5) [of m] obtain rest where
    "concat (replicate n progress_frame) @ encode_daemon_response status [] @ rest = out" by auto
  moreover have "final = STATUS_INTERNAL_ERROR" if "asked" "a < 4"
    using asked_status [of aenv uid target ms _ _ final] h a(2) that by simp
  ultimately have "status = final" using report_is_final [OF _ rep(3)] out by metis
  with h rep show ?thesis by simp
qed

text \<open>A worker that finds no policy, and the supervision of it.\<close>

definition bare_world :: world where
  "bare_world = \<lparr>nodes = Map.empty, euid = 0, egid = 0, umask = 0, group_ids = Map.empty, next_ino = 1, stamp = 0, script = []\<rparr>"

definition denied_attempt :: attempt_env where
  "denied_attempt = \<lparr>ae_now = (\<lambda>_. 0), ae_fs = (\<lambda>_. bare_world), ae_native = toy_native, ae_vision = one_face_native,
     ae_listing = (\<lambda>_. []), ae_keys = (\<lambda>_ _. (2, [])), ae_camera = (\<lambda>_ _. (1, \<lambda>_. 0, 0, 0, 0)), ae_clock = (\<lambda>_. 0),
     ae_vault_dir = None\<rparr>"

definition denied_session :: session_env where
  "denied_session = exit_env\<lparr>se_worker_read := (\<lambda>r. if r = 0 then Inr (encode_daemon_response STATUS_ACCESS_DENIED []) else Inl WouldBlock)\<rparr>"

lemma denied_attempt_run:
  "serve_auth_worker denied_attempt Map.empty (Inr (worker_request 1000 1 1)) 0 (\<lambda>_. None)
    = Some (Inr (), encode_daemon_response STATUS_ACCESS_DENIED [])"
proof -
  have "\<not> authentication_target_enabled bare_world 1000 1" by code_simp
  moreover have "\<not> expired (request_deadline (config_from_env Map.empty) 1 0 (unat (1 :: u32) * MILLISECOND)) 0"
    by (simp add: expired_iff request_deadline_def config_from_env_def MILLISECOND_def wire_defs min_def)
  ultimately show ?thesis
    using parse_worker_request_roundtrip [of 1 1 1000]
    by (simp add: serve_auth_worker_def handle_pam_request_def Let_def denied_attempt_def write_out_def wire_defs is_auth_target_def)
qed

lemma denied_session_output:
  "concat (map (worker_chunk denied_session) [0..<m]) = (if m = 0 then [] else encode_daemon_response STATUS_ACCESS_DENIED [])"
proof (induction m)
  case (Suc m)
  then show ?case by (simp add: worker_chunk_def denied_session_def response_bytes)
qed simp

lemma denied_session_supervised:
  "\<exists>ds'. supervise_auth_worker 3 denied_session 0 \<lparr>ds_limiter = rate_limiter_default, ds_slot = NoChild\<rparr> 1000 1 1 100 False
     = Some (STATUS_ACCESS_DENIED, ds', 12)"
proof -
  have "fst (allow_at rate_limiter_default 1000 3)" by code_simp
  then obtain l where l: "allow_at rate_limiter_default 1000 3 = (True, l)" by (cases "allow_at rate_limiter_default 1000 3") simp
  have u: "u16_be 2 = [0, 2]" by code_simp
  have t: "take_frames 2 denied_session 100 False 9 (encode_daemon_response STATUS_ACCESS_DENIED []) None
      = Some (Inr ([], Some STATUS_ACCESS_DENIED), 9)"
    by (subst take_frames.simps, simp add: response_bytes wire_defs u, subst take_frames.simps, simp add: u)
  have env: "se_now denied_session i = i" "se_lock denied_session i" "se_wait denied_session i = Exited True"
    "se_spawn denied_session i" "se_stdin denied_session i request" "se_nonblocking denied_session i"
    "se_worker_read denied_session r = (if r = 0 then Inr (encode_daemon_response STATUS_ACCESS_DENIED []) else Inl WouldBlock)"
    for i r request by (simp_all add: denied_session_def exit_env_def)
  have d: "drain 2 denied_session 0 [] = Some (Inr (encode_daemon_response STATUS_ACCESS_DENIED []), 2)"
    by (simp add: numeral_2_eq_2 env response_bytes)
  have "supervise_loop (Suc 2) denied_session 100 False 7 0 [] None = Some (STATUS_ACCESS_DENIED, NoChild, 12)"
    unfolding supervise_loop.simps by (simp add: env d t expired_iff worker_exited_def)
  with l show ?thesis
    by (simp add: supervise_auth_worker_def slot_free_def Let_def expired_iff env numeral_3_eq_3 numeral_2_eq_2)
qed

theorem reported_status_is_attempt_status_witness:
  "(\<exists>asked. handle_pam_request denied_attempt 1000 1 1 (0 + unat (1 :: u32) * MILLISECOND) (config_from_env Map.empty)
      (is_ok (fst (write_out None progress_frame))) = Some (STATUS_ACCESS_DENIED, asked))
   \<and> (\<exists>ds'. supervise_auth_worker 3 denied_session 0 \<lparr>ds_limiter = rate_limiter_default, ds_slot = NoChild\<rparr> 1000 1 1 100 False
        = Some (STATUS_ACCESS_DENIED, ds', 12))"
proof -
  obtain ds' where s: "supervise_auth_worker 3 denied_session 0 \<lparr>ds_limiter = rate_limiter_default, ds_slot = NoChild\<rparr> 1000 1 1 100 False
      = Some (STATUS_ACCESS_DENIED, ds', 12)" using denied_session_supervised by blast
  have o: "\<exists>rest. concat (map (worker_chunk denied_session) [0..<m]) @ rest = encode_daemon_response STATUS_ACCESS_DENIED []" for m
    by (simp add: denied_session_output)
  have "STATUS_ACCESS_DENIED \<notin> supervisor_status" by (simp add: supervisor_status_def own_status_def wire_defs)
  from reported_status_is_attempt_status [OF denied_attempt_run _ _ _ o s this] s show ?thesis
    by (auto simp: wire_defs is_auth_target_def)
qed

end
