(* ===== verification/Freshness.thy ===== *)
theory Freshness
  imports Vault_Store
begin

text \<open>
  \<^verbatim>\<open>engine/templates/src/freshness.rs\<close>: the metadata file that records from which local profile an installed system vault
  was made, and the check that compares it with a caller's digest. A directory handle is named by its path.
\<close>

section \<open>Definitions\<close>

datatype freshness_error = FreshnessError

datatype freshness_state = FR_Unknown | FR_Current | FR_Stale

fun freshness_byte :: "freshness_state \<Rightarrow> u8" where
  "freshness_byte FR_Unknown = 0"
| "freshness_byte FR_Current = 1"
| "freshness_byte FR_Stale = 2"

definition FRESHNESS_MAGIC :: bytes where "FRESHNESS_MAGIC = map (word_of_nat \<circ> of_char) ''KFAFRS01''"
definition METADATA_FILE :: string where "METADATA_FILE = ''identity.freshness''"
definition METADATA_BYTES :: nat where "METADATA_BYTES = 78"
definition MAX_VAULT_BYTES :: nat where "MAX_VAULT_BYTES = 16 * 1024"

abbreviation fresh_err :: "('e, 'a) io \<Rightarrow> (freshness_error, 'a) io" where
  "fresh_err \<equiv> wmap_err (\<lambda>_. FreshnessError)"

definition group_id :: "string \<Rightarrow> (io_kind, u32) io" where
  "group_id g = sys (\<lambda>w. (ok_or NotFound (group_ids w g), w))"

definition read_protected :: "string \<Rightarrow> string \<Rightarrow> nat \<Rightarrow> (freshness_error, bytes) io" where
  "read_protected dir name maximum =
     (let p = join dir name in
      wbind (fresh_err (open_nofollow p)) (\<lambda>_.
      wbind (fresh_err (fd_metadata p)) (\<lambda>before.
      wbind (fresh_err (group_id ''kfaceauth'')) (\<lambda>gid.
      if md_kind before \<noteq> Regular \<or> md_uid before \<noteq> 0 \<or> md_gid before \<noteq> gid \<or> perm before \<noteq> oct3 6 4 0
         \<or> md_nlink before \<noteq> 1 \<or> md_len before = 0 \<or> md_len before > maximum
      then wfail FreshnessError
      else
        wbind (fresh_err (read_limited p (maximum + 1))) (\<lambda>bs.
        wbind (fresh_err (fd_metadata p)) (\<lambda>after.
        wbind (fresh_err (open_nofollow p)) (\<lambda>_.
        wbind (fresh_err (fd_metadata p)) (\<lambda>current.
        if length bs > maximum \<or> md_len before \<noteq> md_len after \<or> md_mtime before \<noteq> md_mtime after
           \<or> md_ctime before \<noteq> md_ctime after \<or> md_dev before \<noteq> md_dev current \<or> md_ino before \<noteq> md_ino current
        then wfail FreshnessError
        else wreturn bs))))))))"

definition freshness_decode :: "bytes \<Rightarrow> u32 \<Rightarrow> freshness_error + bytes \<times> bytes" where
  "freshness_decode bs uid =
     (if length bs \<noteq> METADATA_BYTES \<or> bslice 0 8 bs \<noteq> FRESHNESS_MAGIC \<or> bslice 8 10 bs \<noteq> u16_be 1
        \<or> bslice 10 14 bs \<noteq> u32_be uid
      then Inl FreshnessError
      else Inr (bslice 14 46 bs, bslice 46 78 bs))"

definition metadata_bytes :: "u32 \<Rightarrow> bytes \<Rightarrow> bytes \<Rightarrow> bytes" where
  "metadata_bytes uid source installed = FRESHNESS_MAGIC @ u16_be 1 @ u32_be uid @ source @ installed"

definition write_staged_metadata :: "native \<Rightarrow> string \<Rightarrow> u32 \<Rightarrow> bytes \<Rightarrow> (freshness_error, unit) io" where
  "write_staged_metadata nv dir uid source =
     (let p = join dir METADATA_FILE in
      wbind (read_protected dir VAULT_FILE MAX_VAULT_BYTES) (\<lambda>vault.
      wbind (fresh_err (wlift (sha256 nv vault))) (\<lambda>installed.
      let bs = metadata_bytes uid source installed in
      wbind (fresh_err (create_new p (oct3 6 0 0))) (\<lambda>_.
      wbind (fresh_err (write_all_file p bs)) (\<lambda>_.
      wbind (fresh_err (set_fd_permissions p 0 (oct3 6 4 0) ''kfaceauth'')) (\<lambda>_.
      wbind (fresh_err (sync_all p)) (\<lambda>_.
      wbind (fresh_err (sync_all dir)) (\<lambda>_.
      wbind (read_protected dir METADATA_FILE METADATA_BYTES) (\<lambda>back.
      if back \<noteq> bs then wfail FreshnessError else wreturn ())))))))))"

definition verified_source_at :: "native \<Rightarrow> string \<Rightarrow> u32 \<Rightarrow> (freshness_error, bytes) io" where
  "verified_source_at nv rootdir uid =
     (let dir = join rootdir (u32_to_string uid) in
      wbind (fresh_err (open_nofollow dir)) (\<lambda>_.
      wbind (fresh_err (fd_metadata dir)) (\<lambda>before.
      wbind (fresh_err (group_id ''kfaceauth'')) (\<lambda>gid.
      if md_kind before \<noteq> Directory \<or> md_uid before \<noteq> 0 \<or> md_gid before \<noteq> gid \<or> perm before \<noteq> oct3 7 5 0
      then wfail FreshnessError
      else
        wbind (read_protected dir METADATA_FILE METADATA_BYTES) (\<lambda>metadata.
        wbind (wlift (freshness_decode metadata uid)) (\<lambda>(source, expected).
        wbind (read_protected dir VAULT_FILE MAX_VAULT_BYTES) (\<lambda>vault.
        wbind (fresh_err (wlift (sha256 nv vault))) (\<lambda>actual.
        if actual \<noteq> expected then wfail FreshnessError
        else
          wbind (read_protected dir METADATA_FILE METADATA_BYTES) (\<lambda>again.
          if again \<noteq> metadata then wfail FreshnessError
          else
            wbind (fresh_err (open_nofollow dir)) (\<lambda>_.
            wbind (fresh_err (fd_metadata dir)) (\<lambda>after.
            if md_dev before \<noteq> md_dev after \<or> md_ino before \<noteq> md_ino after \<or> md_ctime before \<noteq> md_ctime after
               \<or> md_mtime before \<noteq> md_mtime after
            then wfail FreshnessError
            else wreturn source)))))))))))"

definition profile_freshness :: "native \<Rightarrow> string \<Rightarrow> u32 \<Rightarrow> bytes \<Rightarrow> world \<Rightarrow> freshness_state \<times> world" where
  "profile_freshness nv rootdir uid local w =
     (case wbind (fresh_err (open_nofollow rootdir)) (\<lambda>_. verified_source_at nv rootdir uid) w of
        (Inr source, w') \<Rightarrow> (if source = local then FR_Current else FR_Stale, w')
      | (Inl _, w') \<Rightarrow> (FR_Unknown, w'))"

section \<open>The metadata codec is exact\<close>

lemma length_FRESHNESS_MAGIC [simp]: "length FRESHNESS_MAGIC = 8"
  by (simp add: FRESHNESS_MAGIC_def)

lemma freshness_decode_exact:
  "freshness_decode bs uid = Inr (s, d) \<longleftrightarrow> bs = metadata_bytes uid s d \<and> length s = 32 \<and> length d = 32"
proof
  assume a: "freshness_decode bs uid = Inr (s, d)"
  then have l: "length bs = 78" and sl: "bslice 0 8 bs = FRESHNESS_MAGIC" "bslice 8 10 bs = u16_be 1"
    "bslice 10 14 bs = u32_be uid" "s = bslice 14 46 bs" "d = bslice 46 78 bs"
    by (auto simp: freshness_decode_def METADATA_BYTES_def split: if_splits)
  have "bs = bslice 0 8 bs @ bslice 8 10 bs @ bslice 10 14 bs @ bslice 14 46 bs @ bslice 46 78 bs"
    using l by (simp add: bslice_split bslice_all)
  then show "bs = metadata_bytes uid s d \<and> length s = 32 \<and> length d = 32"
    using l sl by (simp add: metadata_bytes_def)
next
  assume "bs = metadata_bytes uid s d \<and> length s = 32 \<and> length d = 32"
  then show "freshness_decode bs uid = Inr (s, d)"
    by (simp add: freshness_decode_def metadata_bytes_def METADATA_BYTES_def bslice_def)
qed

section \<open>What a freshness answer certifies\<close>

definition protected_file :: "world \<Rightarrow> nat \<Rightarrow> inode \<Rightarrow> bool" where
  "protected_file w maximum i \<longleftrightarrow> i_kind i = Regular \<and> i_uid i = 0 \<and> group_ids w ''kfaceauth'' = Some (i_gid i)
     \<and> and (i_mode i) (oct3 7 7 7) = oct3 6 4 0 \<and> i_nlink i = 1 \<and> i_data i \<noteq> [] \<and> length (i_data i) \<le> maximum"

text \<open>Calls that only look: they keep the files and the groups.\<close>

definition looks :: "('e, 'a) io \<Rightarrow> bool" where
  "looks m \<longleftrightarrow> (\<forall>w. nodes (snd (m w)) = nodes w \<and> group_ids (snd (m w)) = group_ids w)"

lemma looksD: "looks m \<Longrightarrow> m w = (r, w') \<Longrightarrow> nodes w' = nodes w \<and> group_ids w' = group_ids w"
  by (auto simp: looks_def dest!: spec [of _ w])

named_theorems looks_rules

lemma looks_sys:
  assumes "\<And>w. snd (act w) = w"
  shows "looks (sys act)"
  using assms by (auto simp: looks_def sys_def pop_fault_def split: list.splits option.splits fault.splits)

lemma looks_queries [looks_rules]:
  "looks (open_nofollow p)" "looks (fd_metadata p)" "looks (read_limited p n)" "looks (group_id g)" "looks (sync_all p)"
  unfolding open_nofollow_def fd_metadata_def read_limited_def group_id_def sync_all_def
  by (rule looks_sys, simp)+

lemma looks_flow [looks_rules]:
  "looks (wreturn x)" "looks (wfail e)" "looks (wlift r)" "looks m \<Longrightarrow> looks (wmap_err g m)"
  "looks m \<Longrightarrow> (\<And>x. looks (f x)) \<Longrightarrow> looks (wbind m f)"
  "looks m \<Longrightarrow> looks n \<Longrightarrow> looks (if b then m else n)"
  "(\<And>x y. looks (g2 x y)) \<Longrightarrow> looks (case q of (x, y) \<Rightarrow> g2 x y)"
  by (auto simp: looks_def wreturn_def wfail_def wlift_def wmap_err_def wbind_def split: prod.splits sum.splits)
    (metis snd_conv)+

lemma looks_read_protected [looks_rules]: "looks (read_protected dir name maximum)"
  unfolding read_protected_def Let_def by (intro looks_rules)

lemma looks_verified_source_at [looks_rules]: "looks (verified_source_at nv rootdir uid)"
  unfolding verified_source_at_def Let_def by (intro looks_rules)

lemma group_id_Inr: "group_id g w = (Inr gid, w') \<Longrightarrow> group_ids w g = Some gid"
  unfolding group_id_def by (auto simp: sys_def pop_fault_def ok_or_def split: list.splits option.splits fault.splits)

lemma read_protected_Inr:
  assumes "read_protected dir name maximum w = (Inr bs, w')"
  shows "\<exists>i. nodes w (join dir name) = Some i \<and> i_data i = bs \<and> protected_file w maximum i"
proof -
  let ?p = "join dir name"
  obtain w1 w2 w3 w4 b g where st: "fresh_err (open_nofollow ?p) w = (Inr (), w1)"
    "fresh_err (fd_metadata ?p) w1 = (Inr b, w2)" "fresh_err (group_id ''kfaceauth'') w2 = (Inr g, w3)"
    "\<not> (md_kind b \<noteq> Regular \<or> md_uid b \<noteq> 0 \<or> md_gid b \<noteq> g \<or> perm b \<noteq> oct3 6 4 0
         \<or> md_nlink b \<noteq> 1 \<or> md_len b = 0 \<or> md_len b > maximum)"
    "fresh_err (read_limited ?p (maximum + 1)) w3 = (Inr bs, w4)" "length bs \<le> maximum"
    using assms unfolding read_protected_def Let_def
    by (fastforce simp: wbind_Inr wreturn_def wfail_def split: if_splits)
  have n: "nodes w1 = nodes w" "nodes w2 = nodes w" "nodes w3 = nodes w" "group_ids w2 = group_ids w"
    using looksD [OF looks_flow(4) [OF looks_queries(1)] st(1)] looksD [OF looks_flow(4) [OF looks_queries(2)] st(2)]
      looksD [OF looks_flow(4) [OF looks_queries(4)] st(3)] by simp_all
  obtain i where i: "nodes w ?p = Some i" "b = stat i"
    using metadata_Inr(2) st(2) n(1) by (fastforce simp: wmap_err_Inr)
  have g: "group_ids w ''kfaceauth'' = Some g" using group_id_Inr st(3) n(4) by (fastforce simp: wmap_err_Inr)
  have "bs = take (maximum + 1) (i_data i)"
    using read_limited_Inr(2) st(5) n(3) i(1) by (fastforce simp: wmap_err_Inr)
  then have "bs = i_data i" using st(4) i(2) by (simp add: stat_def)
  with i g st(4) show ?thesis by (auto simp: protected_file_def stat_def perm_def)
qed

lemma verified_source_at_Inr:
  assumes "verified_source_at nv rootdir uid w = (Inr source, w')"
  shows "\<exists>m v digest. nodes w (join (join rootdir (u32_to_string uid)) METADATA_FILE) = Some m
    \<and> protected_file w METADATA_BYTES m \<and> i_data m = metadata_bytes uid source digest \<and> length source = 32
    \<and> nodes w (join (join rootdir (u32_to_string uid)) VAULT_FILE) = Some v \<and> protected_file w MAX_VAULT_BYTES v
    \<and> sha256 nv (i_data v) = Inr digest"
proof -
  let ?d = "join rootdir (u32_to_string uid)"
  obtain w1 w2 w3 w4 w5 b g bs vb digest where st: "fresh_err (open_nofollow ?d) w = (Inr (), w1)"
    "fresh_err (fd_metadata ?d) w1 = (Inr b, w2)" "fresh_err (group_id ''kfaceauth'') w2 = (Inr g, w3)"
    "read_protected ?d METADATA_FILE METADATA_BYTES w3 = (Inr bs, w4)"
    "freshness_decode bs uid = Inr (source, digest)"
    "read_protected ?d VAULT_FILE MAX_VAULT_BYTES w4 = (Inr vb, w5)" "sha256 nv vb = Inr digest"
    using assms unfolding verified_source_at_def Let_def
    by (fastforce simp: wbind_Inr wreturn_def wfail_def wlift_def wmap_err_Inr split: if_splits prod.splits)
  have n: "nodes w3 = nodes w" "group_ids w3 = group_ids w"
    using looksD [OF looks_flow(4) [OF looks_queries(1)] st(1)] looksD [OF looks_flow(4) [OF looks_queries(2)] st(2)]
      looksD [OF looks_flow(4) [OF looks_queries(4)] st(3)] by simp_all
  then have n4: "nodes w4 = nodes w" "group_ids w4 = group_ids w"
    using looksD [OF looks_read_protected st(4)] by simp_all
  show ?thesis
    using read_protected_Inr [OF st(4)] read_protected_Inr [OF st(6)] st(5,7) n n4
    by (auto simp: protected_file_def freshness_decode_exact)
qed

text \<open>
  Claim C33: a freshness answer other than unknown certifies that the user's directory holds a root-owned metadata file of
  mode 0640 that was written for this uid and records the digest of the installed vault, itself protected the same way;
  the answer is current exactly when the recorded source digest is the caller's. Asking changes no file.
\<close>

theorem profile_freshness_certifies:
  assumes "profile_freshness nv rootdir uid local w = (v, w')" "v \<noteq> FR_Unknown"
  shows "nodes w' = nodes w \<and> (\<exists>m i source digest.
      nodes w (join (join rootdir (u32_to_string uid)) METADATA_FILE) = Some m
    \<and> protected_file w METADATA_BYTES m \<and> i_data m = metadata_bytes uid source digest \<and> length source = 32
    \<and> nodes w (join (join rootdir (u32_to_string uid)) VAULT_FILE) = Some i \<and> protected_file w MAX_VAULT_BYTES i
    \<and> sha256 nv (i_data i) = Inr digest
    \<and> (v = FR_Current \<longleftrightarrow> source = local))"
proof -
  obtain source w1 where st: "fresh_err (open_nofollow rootdir) w = (Inr (), w1)"
    "verified_source_at nv rootdir uid w1 = (Inr source, w')" "v = (if source = local then FR_Current else FR_Stale)"
    using assms unfolding profile_freshness_def
    by (auto simp: wbind_def split: prod.splits sum.splits)
  have n: "nodes w1 = nodes w" "group_ids w1 = group_ids w"
    using looksD [OF looks_flow(4) [OF looks_queries(1)] st(1)] by simp_all
  moreover have "nodes w' = nodes w1" using looksD [OF looks_verified_source_at st(2)] by simp
  ultimately show ?thesis
    using verified_source_at_Inr [OF st(2)] st(3) by (fastforce simp: protected_file_def)
qed

section \<open>Staged metadata is accepted\<close>

lemma clean_read_protected:
  assumes "script w = []" "nodes w (join dir name) = Some i" "protected_file w maximum i"
  shows "read_protected dir name maximum w = (Inr (i_data i), w)"
  using assms
  by (simp add: read_protected_def Let_def flow_defs call_defs clean_calls group_id_def stat_def perm_def protected_file_def
      ok_or_def)

lemma clean_verified_source_at:
  assumes "script w = []" "nodes w (join rootdir (u32_to_string uid)) = Some d" "i_kind d = Directory" "i_uid d = 0"
    "group_ids w ''kfaceauth'' = Some (i_gid d)" "and (i_mode d) (oct3 7 7 7) = oct3 7 5 0"
    "nodes w (join (join rootdir (u32_to_string uid)) METADATA_FILE) = Some m" "protected_file w METADATA_BYTES m"
    "nodes w (join (join rootdir (u32_to_string uid)) VAULT_FILE) = Some v" "protected_file w MAX_VAULT_BYTES v"
    "i_data m = metadata_bytes uid source digest" "length source = 32" "length digest = 32" "sha256 nv (i_data v) = Inr digest"
  shows "verified_source_at nv rootdir uid w = (Inr source, w)"
proof -
  have "freshness_decode (i_data m) uid = Inr (source, digest)" using assms by (simp add: freshness_decode_exact)
  then show ?thesis
    using assms clean_read_protected [OF assms(1,7,8)] clean_read_protected [OF assms(1,9,10)]
    by (simp add: verified_source_at_def Let_def flow_defs call_defs clean_sys group_id_def stat_def perm_def ok_or_def)
qed

lemma group_ids_fs_update [simp]: "group_ids (fs_update p f w) = group_ids w"
  by (simp add: fs_update_def split: option.splits)

lemma keeps_groups:
  "create_new p mode w = (r, w') \<Longrightarrow> group_ids w' = group_ids w"
  "write_all_file p bs w = (r, w') \<Longrightarrow> group_ids w' = group_ids w"
  "set_fd_permissions p owner mode grp w = (r, w') \<Longrightarrow> group_ids w' = group_ids w"
  by (auto simp: create_new_def write_all_file_def set_fd_permissions_def sys_def pop_fault_def
      split: list.splits option.splits fault.splits)

lemma write_staged_metadata_Inr:
  assumes "write_staged_metadata nv dir uid source w = (Inr (), w')"
  shows "\<exists>m v digest. nodes w' (join dir METADATA_FILE) = Some m \<and> protected_file w' METADATA_BYTES m
    \<and> i_data m = metadata_bytes uid source digest
    \<and> nodes w' (join dir VAULT_FILE) = Some v \<and> protected_file w' MAX_VAULT_BYTES v \<and> sha256 nv (i_data v) = Inr digest"
    "group_ids w' = group_ids w"
proof -
  let ?p = "join dir METADATA_FILE" and ?v = "join dir VAULT_FILE"
  obtain w1 w2 w3 w4 w5 w6 vb digest where st: "read_protected dir VAULT_FILE MAX_VAULT_BYTES w = (Inr vb, w1)"
    "sha256 nv vb = Inr digest"
    "create_new ?p (oct3 6 0 0) w1 = (Inr (), w2)" "write_all_file ?p (metadata_bytes uid source digest) w2 = (Inr (), w3)"
    "set_fd_permissions ?p 0 (oct3 6 4 0) ''kfaceauth'' w3 = (Inr (), w4)"
    "sync_all ?p w4 = (Inr (), w5)" "sync_all dir w5 = (Inr (), w6)"
    "read_protected dir METADATA_FILE METADATA_BYTES w6 = (Inr (metadata_bytes uid source digest), w')"
    using assms unfolding write_staged_metadata_def Let_def
    by (fastforce simp: wbind_Inr wreturn_def wfail_def wlift_def wmap_err_Inr split: if_splits)
  have neq: "?p \<noteq> ?v" by (simp add: METADATA_FILE_def VAULT_FILE_def)
  have kv: "nodes w2 ?v = nodes w1 ?v" "nodes w3 ?v = nodes w2 ?v" "nodes w4 ?v = nodes w3 ?v"
    using keepsD [OF keeps_create_new [of ?p "{?v}"], where p = ?v and w = w1]
      keepsD [OF keeps_write_all_file [of ?p "{?v}"], where p = ?v and w = w2]
      keepsD [OF keeps_set_fd_permissions [of ?p "{?v}"], where p = ?v and w = w3] st(3-5) neq
    by (metis singleton_iff snd_conv)+
  note l = looksD [OF looks_read_protected st(1)] looksD [OF looks_queries(5) st(6)] looksD [OF looks_queries(5) st(7)]
    looksD [OF looks_read_protected st(8)]
  show g: "group_ids w' = group_ids w" using l keeps_groups(1) [OF st(3)] keeps_groups(2) [OF st(4)] keeps_groups(3) [OF st(5)]
    by simp
  obtain v where v: "nodes w ?v = Some v" "i_data v = vb" "protected_file w MAX_VAULT_BYTES v"
    using read_protected_Inr [OF st(1)] by blast
  obtain m where "nodes w6 ?p = Some m" "i_data m = metadata_bytes uid source digest" "protected_file w6 METADATA_BYTES m"
    using read_protected_Inr [OF st(8)] by blast
  moreover have "nodes w' ?v = Some v" using v(1) kv l by simp
  ultimately show "\<exists>m v digest. nodes w' ?p = Some m \<and> protected_file w' METADATA_BYTES m
    \<and> i_data m = metadata_bytes uid source digest
    \<and> nodes w' ?v = Some v \<and> protected_file w' MAX_VAULT_BYTES v \<and> sha256 nv (i_data v) = Inr digest"
    using v st(2) l g by (auto simp: protected_file_def)
qed

lemma staged_metadata_run:
  assumes "write_staged_metadata nv (join rootdir (u32_to_string uid)) uid source w = (Inr (), w')" "script w' = []"
    "length source = 32" "\<And>bs d. sha256 nv bs = Inr d \<Longrightarrow> length d = 32"
    "nodes w' rootdir = Some r" "i_kind r = Directory"
    "nodes w' (join rootdir (u32_to_string uid)) = Some d" "i_kind d = Directory" "i_uid d = 0"
    "group_ids w' ''kfaceauth'' = Some (i_gid d)" "and (i_mode d) (oct3 7 7 7) = oct3 7 5 0"
  shows "fst (profile_freshness nv rootdir uid local w') = (if local = source then FR_Current else FR_Stale)"
proof -
  let ?dir = "join rootdir (u32_to_string uid)"
  obtain m v digest where f: "nodes w' (join ?dir METADATA_FILE) = Some m" "protected_file w' METADATA_BYTES m"
    "i_data m = metadata_bytes uid source digest" "nodes w' (join ?dir VAULT_FILE) = Some v"
    "protected_file w' MAX_VAULT_BYTES v" "sha256 nv (i_data v) = Inr digest"
    using write_staged_metadata_Inr(1) [OF assms(1)] by blast
  have "verified_source_at nv rootdir uid w' = (Inr source, w')"
    by (rule clean_verified_source_at [OF assms(2,7,8,9,10,11) f(1,2,4,5,3) assms(3) assms(4) [OF f(6)] f(6)])
  moreover have "fresh_err (open_nofollow rootdir) w' = (Inr (), w')"
    using assms(2,5,6) by (simp add: wmap_err_def open_nofollow_def clean_sys)
  ultimately show ?thesis by (auto simp: profile_freshness_def wbind_def)
qed

text \<open>
  Whatever happened on the way, metadata that was staged successfully is accepted by the freshness check once its
  directory is installed: the check answers current for the recorded source digest and stale for every other one.
\<close>

theorem staged_metadata_fresh:
  assumes "write_staged_metadata nv (join rootdir (u32_to_string uid)) uid source w = (Inr (), w')" "script w' = []"
    "length source = 32" "\<And>bs d. sha256 nv bs = Inr d \<Longrightarrow> length d = 32"
    "nodes w' rootdir = Some r" "i_kind r = Directory"
    "nodes w' (join rootdir (u32_to_string uid)) = Some d" "i_kind d = Directory" "i_uid d = 0"
    "group_ids w' ''kfaceauth'' = Some (i_gid d)" "and (i_mode d) (oct3 7 7 7) = oct3 7 5 0"
  shows "fst (profile_freshness nv rootdir uid local w') = (if local = source then FR_Current else FR_Stale)"
  using staged_metadata_run [OF assms] .

section \<open>A concrete installation\<close>

definition install_world :: world where
  "install_world = \<lparr>nodes = [
       ''/v'' \<mapsto> \<lparr>i_kind = Directory, i_uid = 0, i_gid = 0, i_mode = oct3 7 5 5, i_nlink = 2, i_dev = 0, i_ino = 1, i_stamp = 0,
         i_data = []\<rparr>,
       ''/v/7'' \<mapsto> \<lparr>i_kind = Directory, i_uid = 0, i_gid = 99, i_mode = oct3 7 5 0, i_nlink = 2, i_dev = 0, i_ino = 2,
         i_stamp = 0, i_data = []\<rparr>,
       ''/v/7/identity.vault'' \<mapsto> \<lparr>i_kind = Regular, i_uid = 0, i_gid = 99, i_mode = oct3 6 4 0, i_nlink = 1, i_dev = 0,
         i_ino = 3, i_stamp = 0, i_data = [1, 2, 3]\<rparr>],
     euid = 0, egid = 0, umask = 0, group_ids = [''kfaceauth'' \<mapsto> 99], next_ino = 4, stamp = 1, script = []\<rparr>"

lemma install_world_staged:
  "is_ok (fst (write_staged_metadata toy_native ''/v/7'' 7 (replicate 32 5) install_world))"
  by code_simp

lemma install_world_script:
  "script (snd (write_staged_metadata toy_native ''/v/7'' 7 (replicate 32 5) install_world)) = []"
  by code_simp

lemma keeps_write_staged_metadata [keeps_rules]:
  "join dir METADATA_FILE \<notin> P \<Longrightarrow> keeps P (write_staged_metadata nv dir uid source)"
  unfolding write_staged_metadata_def read_protected_def group_id_def Let_def
  by (intro keeps_rules keeps_sys) simp_all

lemma install_world_after:
  "nodes (snd (write_staged_metadata toy_native ''/v/7'' 7 (replicate 32 5) install_world)) ''/v'' = nodes install_world ''/v''"
  "nodes (snd (write_staged_metadata toy_native ''/v/7'' 7 (replicate 32 5) install_world)) ''/v/7'' = nodes install_world ''/v/7''"
  by (rule keepsD [OF keeps_write_staged_metadata [where P = "{''/v'', ''/v/7''}"]], simp_all add: join_def METADATA_FILE_def)+

lemma toy_digest_length: "sha256 toy_native bs = Inr d \<Longrightarrow> length d = 32"
  by (auto simp: sha256_def toy_native_def rbind_eq_Inr)

lemma user_directory: "join ''/v'' (u32_to_string 7) = ''/v/7''"
  by code_simp

lemma install_world_run:
  "write_staged_metadata toy_native (join ''/v'' (u32_to_string 7)) 7 (replicate 32 5) install_world
    = (Inr (), snd (write_staged_metadata toy_native ''/v/7'' 7 (replicate 32 5) install_world))"
  using install_world_staged by (auto simp: user_directory is_ok_iff prod_eq_iff)

lemma install_world_groups:
  "group_ids (snd (write_staged_metadata toy_native ''/v/7'' 7 (replicate 32 5) install_world)) ''kfaceauth'' = Some 99"
  using write_staged_metadata_Inr(2) [OF install_world_run] by (simp add: install_world_def)

lemmas install_world_facts = user_directory install_world_after install_world_groups

theorem staged_metadata_fresh_witness:
  "fst (profile_freshness toy_native ''/v'' 7 (replicate 32 5)
     (snd (write_staged_metadata toy_native ''/v/7'' 7 (replicate 32 5) install_world))) = FR_Current"
  by (subst staged_metadata_fresh [OF install_world_run install_world_script, where local = "replicate 32 5"
        and r = "the (nodes install_world ''/v'')" and d = "the (nodes install_world ''/v/7'')"])
    (simp_all add: install_world_facts, simp_all add: install_world_def oct3_def toy_digest_length)

theorem profile_freshness_certifies_witness:
  "\<exists>m. nodes (snd (write_staged_metadata toy_native ''/v/7'' 7 (replicate 32 5) install_world))
      (join (join ''/v'' (u32_to_string 7)) METADATA_FILE) = Some m"
proof -
  let ?w = "snd (write_staged_metadata toy_native ''/v/7'' 7 (replicate 32 5) install_world)"
  have "fst (profile_freshness toy_native ''/v'' 7 (replicate 32 5) ?w) \<noteq> FR_Unknown"
    by (subst staged_metadata_run [OF install_world_run install_world_script, where local = "replicate 32 5"
          and r = "the (nodes install_world ''/v'')" and d = "the (nodes install_world ''/v/7'')"])
      (simp_all add: install_world_facts, simp_all add: install_world_def oct3_def toy_digest_length)
  with profile_freshness_certifies [OF prod.collapse [symmetric], of toy_native "''/v''" 7 "replicate 32 5" ?w]
  show ?thesis by blast
qed

end
