(* ===== verification/Daemon_Session.thy ===== *)
theory Daemon_Session
  imports Auth_Worker Freshness Wire_Protocol
begin

text \<open>
  One client connection of the daemon (\<^verbatim>\<open>dispatch_request_until_with_client\<close> and \<^verbatim>\<open>handle_client_stream_with_peer\<close> of
  \<^verbatim>\<open>engine/daemon/src/lib.rs\<close>): reading one request under a deadline, authorizing the peer, the three operations, and the
  response. The properties: what a positive answer to an authentication request certifies, and that a peer learns nothing about
  other users.
\<close>

section \<open>Surroundings\<close>

text \<open>
  \<open>de_fs\<close> numbers the observations of the file system; the third one of an authentication is what the descriptor held
  since the start of the attempt sees.
\<close>

record dispatch_env =
  de_session :: session_env
  de_fs :: "nat \<Rightarrow> world"
  de_native :: native
  de_keys :: "u32 \<Rightarrow> bytes option \<Rightarrow> int \<times> bytes"
  de_vault_dir :: "string option"

definition authentication_policy :: "world \<Rightarrow> policy_snapshot option" where
  "authentication_policy w = (case fst (snapshot_load_system w) of Inl _ \<Rightarrow> None | Inr s \<Rightarrow> Some s)"

definition policy_enables :: "policy_snapshot \<Rightarrow> u32 \<Rightarrow> u8 \<Rightarrow> bool" where
  "policy_enables s uid auth_target =
     (case authentication_target auth_target of
        None \<Rightarrow> False
      | Some target \<Rightarrow> mode_for (snap_policy s) uid target \<noteq> Off)"

definition policy_is_current :: "world \<Rightarrow> policy_snapshot \<Rightarrow> policy_snapshot option \<Rightarrow> bool" where
  "policy_is_current w start current =
     (case current of None \<Rightarrow> False | Some s \<Rightarrow> fst (same_file_as start s w))"

section \<open>Operations\<close>

definition daemon_vault :: "dispatch_env \<Rightarrow> u32 \<Rightarrow> daemon_config \<Rightarrow> vault" where
  "daemon_vault env uid cfg =
     (case cfg_vault_root cfg of
        Some dir \<Rightarrow> system_with_root dir uid
      | None \<Rightarrow> system_with_root (system_vault_root (de_vault_dir env)) uid)"

definition dispatch_freshness :: "dispatch_env \<Rightarrow> u32 \<Rightarrow> u32 \<Rightarrow> bytes \<Rightarrow> daemon_config \<Rightarrow> instant \<Rightarrow> bytes" where
  "dispatch_freshness env peer uid local_digest cfg deadline =
     (let freshness =
        (if peer = uid \<and> \<not> expired deadline (se_now (de_session env) 0)
         then fst (profile_freshness (de_native env)
                (case cfg_vault_root cfg of Some dir \<Rightarrow> dir | None \<Rightarrow> system_vault_root (de_vault_dir env))
                uid local_digest (de_fs env 0))
         else FR_Unknown)
      in [0, 3, if peer = uid then STATUS_SUCCESS else STATUS_ACCESS_DENIED, 0, freshness_byte freshness])"

definition dispatch_status :: "dispatch_env \<Rightarrow> u32 \<Rightarrow> daemon_config \<Rightarrow> u8 \<times> bytes" where
  "dispatch_status env uid cfg =
     (case load_master_key_for_uid (de_keys env) uid (cfg_keys_dir cfg) of
        Inl _ \<Rightarrow> (STATUS_INTERNAL_ERROR, [])
      | Inr key \<Rightarrow>
          (case fst (vault_status (de_native env) (daemon_vault env uid cfg) (Some key) (de_fs env 0)) of
             VS_Ready s \<Rightarrow> (STATUS_SUCCESS, [if enrolled s then 1 else 0, summary_count s])
           | VS_Absent \<Rightarrow> (STATUS_SUCCESS, [0, 0])
           | _ \<Rightarrow> (STATUS_NO_PROFILE, [0, 0])))"

text \<open>The timeout an attempt gets, and its deadline less the reserve for the response.\<close>

definition granted_timeout :: "daemon_config \<Rightarrow> u32 \<Rightarrow> u32" where
  "granted_timeout cfg timeout_ms = min (min timeout_ms (cfg_max_timeout_ms cfg)) DEFAULT_PAM_TIMEOUT_MS"

text \<open>
  The time left for the worker. Instants count from the first one the clock can represent, so the checked subtraction of the
  reserve fails exactly below it.
\<close>

definition processing_deadline :: "u32 \<Rightarrow> instant \<Rightarrow> instant \<Rightarrow> instant option" where
  "processing_deadline timeout now deadline =
     (let requested_deadline = min (now + unat timeout * MILLISECOND) deadline in
      if requested_deadline < PAM_RESPONSE_RESERVE then None else Some (requested_deadline - PAM_RESPONSE_RESERVE))"

text \<open>
  An authentication; \<open>None\<close> is exhausted fuel. The verified policy is loaded before the worker starts and, when it reports
  success, once more, and the two have to be the same file.
\<close>

definition dispatch_pam_auth ::
    "nat \<Rightarrow> dispatch_env \<Rightarrow> u32 \<Rightarrow> u8 \<Rightarrow> u32 \<Rightarrow> daemon_config \<Rightarrow> instant \<Rightarrow> bool \<Rightarrow> daemon_state \<Rightarrow> (u8 \<times> daemon_state) option" where
  "dispatch_pam_auth fuel env uid auth_target timeout_ms cfg deadline client ds =
     (case authentication_policy (de_fs env 0) of
        None \<Rightarrow> Some (STATUS_ACCESS_DENIED, ds)
      | Some start_policy \<Rightarrow>
          if \<not> policy_enables start_policy uid auth_target then Some (STATUS_ACCESS_DENIED, ds)
          else
            let timeout = granted_timeout cfg timeout_ms in
            case processing_deadline timeout (se_now (de_session env) 0) deadline of
              None \<Rightarrow> Some (STATUS_TIMEOUT, ds)
            | Some limit \<Rightarrow>
                (case supervise_auth_worker fuel (de_session env) 1 ds uid auth_target timeout limit client of
                   None \<Rightarrow> None
                 | Some (status, ds', _) \<Rightarrow>
                     if status = STATUS_SUCCESS
                       \<and> \<not> policy_is_current (de_fs env 2) start_policy (authentication_policy (de_fs env 1))
                     then Some (STATUS_ACCESS_DENIED, ds')
                     else if status = STATUS_SUCCESS
                     then Some (status, ds'\<lparr>ds_limiter := limiter_clear (ds_limiter ds') uid\<rparr>)
                     else Some (status, ds')))"

fun dispatch_request_until_with_client ::
    "nat \<Rightarrow> dispatch_env \<Rightarrow> daemon_request \<Rightarrow> u32 \<Rightarrow> daemon_config \<Rightarrow> instant \<Rightarrow> bool \<Rightarrow> daemon_state
      \<Rightarrow> (bytes \<times> daemon_state) option" where
  "dispatch_request_until_with_client fuel env (Freshness uid local_digest) peer cfg deadline client ds =
     Some (dispatch_freshness env peer uid local_digest cfg deadline, ds)"
| "dispatch_request_until_with_client fuel env (PamAuth uid auth_target timeout_ms username) peer cfg deadline client ds =
     (if \<not> is_authorized peer uid then Some (encode_daemon_response STATUS_ACCESS_DENIED [], ds)
      else case dispatch_pam_auth fuel env uid auth_target timeout_ms cfg deadline client ds of
        None \<Rightarrow> None
      | Some (status, ds') \<Rightarrow> Some (encode_daemon_response status [], ds'))"
| "dispatch_request_until_with_client fuel env (StatusRequest uid) peer cfg deadline client ds =
     (if \<not> is_authorized peer uid then Some (encode_daemon_response STATUS_ACCESS_DENIED [], ds)
      else case dispatch_status env uid cfg of (status, extra) \<Rightarrow> Some (encode_daemon_response status extra, ds))"

text \<open>\<^verbatim>\<open>dispatch_request\<close> has no client to watch and takes its deadline from the configuration.\<close>

definition connection_deadline :: "daemon_config \<Rightarrow> instant \<Rightarrow> instant" where
  "connection_deadline cfg now = now + unat (min (cfg_max_timeout_ms cfg) DEFAULT_PAM_TIMEOUT_MS) * MILLISECOND"

definition dispatch_request ::
    "nat \<Rightarrow> dispatch_env \<Rightarrow> daemon_request \<Rightarrow> u32 \<Rightarrow> daemon_config \<Rightarrow> instant \<Rightarrow> daemon_state \<Rightarrow> (bytes \<times> daemon_state) option" where
  "dispatch_request fuel env request peer cfg now ds =
     dispatch_request_until_with_client fuel env request peer cfg (connection_deadline cfg now) False ds"

section \<open>One connection\<close>

text \<open>
  Reading through a \<^verbatim>\<open>DeadlineStream\<close>: each read comes with the time at which it starts, and is refused from the
  deadline on.
\<close>

definition remaining_duration :: "instant \<Rightarrow> instant \<Rightarrow> io_kind + nat" where
  "remaining_duration deadline now = (if deadline \<le> now then Inl TimedOut else Inr (deadline - now))"

definition deadline_reader :: "instant \<Rightarrow> (instant \<times> read_event) list \<Rightarrow> reader" where
  "deadline_reader deadline evs =
     map (\<lambda>(now, ev). case remaining_duration deadline now of Inl k \<Rightarrow> ReadErr k | Inr _ \<Rightarrow> ev) evs"

fun is_pam_auth :: "request_error + daemon_request \<Rightarrow> bool" where
  "is_pam_auth (Inr (PamAuth _ _ _ _)) = True"
| "is_pam_auth _ = False"

text \<open>
  \<open>nonblocking\<close> tells which of the two changes of the socket's mode succeed; a write refused by the deadline is one of the failures
  of the writer.
\<close>

definition handle_client_stream_with_peer ::
    "nat \<Rightarrow> dispatch_env \<Rightarrow> (instant \<times> read_event) list \<Rightarrow> writer \<Rightarrow> bool \<times> bool \<Rightarrow> u32 \<Rightarrow> daemon_config \<Rightarrow> instant \<Rightarrow> daemon_state
      \<Rightarrow> ((io_kind + unit) \<times> writer \<times> daemon_state) option" where
  "handle_client_stream_with_peer fuel env evs wr nonblocking peer cfg deadline ds =
     (case fst (read_frame (deadline_reader deadline evs) MAX_DAEMON_REQUEST_BYTES) of
        Inl _ \<Rightarrow> Some (Inl InvalidData, wr, ds)
      | Inr payload \<Rightarrow>
          let request = decode_daemon_request payload; monitor = is_pam_auth request in
          if monitor \<and> \<not> fst nonblocking then Some (Inl OtherIo, wr, ds)
          else case (case request of
                Inl _ \<Rightarrow> Some (encode_daemon_response STATUS_INTERNAL_ERROR [], ds)
              | Inr r \<Rightarrow> dispatch_request_until_with_client fuel env r peer cfg deadline monitor ds) of
            None \<Rightarrow> None
          | Some (response, ds') \<Rightarrow>
              if monitor \<and> \<not> snd nonblocking then Some (Inl OtherIo, wr, ds')
              else case write_frame wr response MAX_DAEMON_RESPONSE_BYTES of
                (r, wr') \<Rightarrow> Some (map_err (\<lambda>_. TimedOut) r, wr', ds'))"

text \<open>\<^verbatim>\<open>reap_auth_child\<close>: the slot is cleared when it can be locked and its child has exited.\<close>

definition reap_auth_child :: "session_env \<Rightarrow> nat \<Rightarrow> daemon_state \<Rightarrow> daemon_state" where
  "reap_auth_child env i ds =
     (if se_lock env i \<and> ds_slot ds \<noteq> NoChild \<and> has_exited (se_wait env (i + 1)) then ds\<lparr>ds_slot := NoChild\<rparr> else ds)"

section \<open>What an answer certifies\<close>

lemma dispatch_pam_success:
  assumes "dispatch_pam_auth fuel env uid target timeout_ms cfg deadline client ds = Some (STATUS_SUCCESS, ds')"
  shows "\<exists>start current limit i. authentication_policy (de_fs env 0) = Some start \<and> policy_enables start uid target
     \<and> authentication_policy (de_fs env 1) = Some current \<and> snap_identity current = snap_identity start
     \<and> fst (allow_at (ds_limiter ds) uid (se_now (de_session env) 4))
     \<and> processing_deadline (granted_timeout cfg timeout_ms) (se_now (de_session env) 0) deadline = Some limit
     \<and> worker_reported (de_session env) limit 1 i STATUS_SUCCESS
     \<and> ds_slot ds' = NoChild
     \<and> ds_limiter ds' = limiter_clear (snd (allow_at (ds_limiter ds) uid (se_now (de_session env) 4))) uid"
proof -
  obtain start d1 i limit where s: "authentication_policy (de_fs env 0) = Some start" "policy_enables start uid target"
    "supervise_auth_worker fuel (de_session env) 1 ds uid target (granted_timeout cfg timeout_ms) limit client
      = Some (STATUS_SUCCESS, d1, i)"
    "policy_is_current (de_fs env 2) start (authentication_policy (de_fs env 1))"
    "ds' = d1\<lparr>ds_limiter := limiter_clear (ds_limiter d1) uid\<rparr>"
    "processing_deadline (granted_timeout cfg timeout_ms) (se_now (de_session env) 0) deadline = Some limit"
    using assms status_distinct unfolding dispatch_pam_auth_def Let_def
    by (auto split: option.splits if_splits prod.splits)
  obtain current where c: "authentication_policy (de_fs env 1) = Some current" "fst (same_file_as start current (de_fs env 2))"
    using s(4) by (auto simp: policy_is_current_def split: option.splits)
  then have "snap_identity current = snap_identity start" by (auto simp: same_file_as_def split: prod.splits sum.splits)
  moreover have "(1 :: nat) + 3 = 4" by simp
  note supervise_success [OF s(3), unfolded this]
  ultimately show ?thesis using s c(1) by (intro exI [of _ start] exI [of _ current] exI [of _ limit] exI [of _ i]) simp
qed


text \<open>
  Claim C1: a positive answer to an authentication request certifies that the peer is root or the target user, that the
  verified policy enabled the target before the attempt and is still the same file after it, that the rate limit granted
  the attempt, and that the worker exited successfully before the processing deadline after writing exactly the report
  of success; the user's attempts are then forgotten and the slot is free again.
\<close>

theorem authentication_certified:
  assumes "dispatch_request_until_with_client fuel env (PamAuth uid target timeout_ms username) peer cfg deadline client ds
      = Some (encode_daemon_response STATUS_SUCCESS [], ds')"
  shows "is_authorized peer uid
     \<and> (\<exists>start current limit i. authentication_policy (de_fs env 0) = Some start \<and> policy_enables start uid target
        \<and> authentication_policy (de_fs env 1) = Some current \<and> snap_identity current = snap_identity start
        \<and> fst (allow_at (ds_limiter ds) uid (se_now (de_session env) 4))
        \<and> processing_deadline (granted_timeout cfg timeout_ms) (se_now (de_session env) 0) deadline = Some limit
        \<and> worker_reported (de_session env) limit 1 i STATUS_SUCCESS
        \<and> ds_slot ds' = NoChild
        \<and> ds_limiter ds' = limiter_clear (snd (allow_at (ds_limiter ds) uid (se_now (de_session env) 4))) uid)"
proof -
  have enc: "encode_daemon_response a [] = encode_daemon_response b [] \<longleftrightarrow> a = b" for a b by (simp add: response_bytes)
  have "is_authorized peer uid" "dispatch_pam_auth fuel env uid target timeout_ms cfg deadline client ds = Some (STATUS_SUCCESS, ds')"
    using assms status_distinct(2) by (auto simp: enc split: if_splits option.splits prod.splits)
  with dispatch_pam_success show ?thesis by blast
qed

section \<open>A concrete session\<close>

definition session_world :: world where
  "session_world = \<lparr>nodes = [''/etc'' \<mapsto> root_inode Directory (oct3 7 5 5) 2 [],
        ''/etc/kfaceauth'' \<mapsto> root_inode Directory (oct3 7 5 5) 2 [],
        policy_path ''/etc/kfaceauth'' \<mapsto> root_inode Regular (oct3 6 4 4) 1 (text_bytes (to_json sample_policy))],
     euid = 0, egid = 0, umask = 0, group_ids = Map.empty, next_ino = 2, stamp = 1, script = []\<rparr>"

lemma sample_policy_text: "length (to_json sample_policy) \<le> 400"
  by code_simp

lemma session_world_loads:
  "\<exists>s. snapshot_load_system session_world = (Inr s, session_world) \<and> snap_policy s = sample_policy
    \<and> fst (same_file_as s s session_world)"
proof -
  have d: "nodes session_world ''/etc'' = Some (root_inode Directory (oct3 7 5 5) 2 [])"
    "nodes session_world (child ''/etc'' ''kfaceauth'') = Some (root_inode Directory (oct3 7 5 5) 2 [])"
    "nodes session_world (policy_path (child ''/etc'' ''kfaceauth''))
      = Some (root_inode Regular (oct3 6 4 4) 1 (text_bytes (to_json sample_policy)))"
    "script session_world = []"
    by (simp_all add: session_world_def child_def AUTH_POLICY_FILE_def)
  have len: "length (to_json sample_policy) \<le> MAX_POLICY_BYTES" using sample_policy_text by (simp add: MAX_POLICY_BYTES_def)
  have m: "and (oct3 6 4 4) 0xFFF = oct3 6 4 4" "and (oct3 7 5 5) 0xFFF = oct3 7 5 5"
    "and (oct3 7 5 5) (oct3 7 7 7) = oct3 7 5 5" by (simp_all add: oct3_def)
  have p: "parse_json (to_json sample_policy) = Inr sample_policy"
    using len is_ascii_json(3) [of sample_policy] parse_policy_json [OF sample_policy_wf] by (simp add: parse_json_def)
  show ?thesis
    using d len m p
    by (simp add: snapshot_load_system_def open_etc_def open_policy_directory_def snapshot_load_from_directory_def
        validate_root_directory_def same_file_as_def flow_defs call_defs clean_sys stat_def root_inode_def policy_metadata_ok_def
        full_mode_def perm_def is_symlink_def policy_identity_def)
qed

definition fresh_state :: daemon_state where
  "fresh_state = \<lparr>ds_limiter = rate_limiter_default, ds_slot = NoChild\<rparr>"

definition sample_session :: dispatch_env where
  "sample_session = \<lparr>de_session = exit_env, de_fs = (\<lambda>_. session_world), de_native = toy_native, de_keys = (\<lambda>_ _. (2, [])),
     de_vault_dir = None\<rparr>"

lemma exit_env_simps:
  "se_now exit_env i = i" "se_lock exit_env i" "se_wait exit_env i = Exited True" "se_spawn exit_env i" "se_stdin exit_env i bs"
  "se_nonblocking exit_env i"
  "se_worker_read exit_env r = (if r = 0 then Inr (encode_daemon_response STATUS_SUCCESS []) else Inl WouldBlock)"
  by (simp_all add: exit_env_def)

lemma take_success_frame:
  "take_frames f env limit client i (encode_daemon_response STATUS_SUCCESS []) None = Some (Inr ([], Some STATUS_SUCCESS), i)"
proof -
  have v: "u16_be DAEMON_PROTOCOL_VERSION = [0, 2]" by code_simp
  have "take_frames f env limit client i [] (Some STATUS_SUCCESS) = Some (Inr ([], Some STATUS_SUCCESS), i)"
    by (subst take_frames.simps) simp
  then show ?thesis
    by (subst take_frames.simps) (simp add: response_bytes v Let_def wire_defs)
qed

lemma sample_supervision:
  "\<exists>j. supervise_loop (Suc 2) exit_env 900000000 False i 0 [] None = Some (STATUS_SUCCESS, NoChild, j)" if "i \<le> 100"
proof -
  have "drain 2 exit_env 0 [] = Some (Inr (encode_daemon_response STATUS_SUCCESS []), 2)"
    by (simp add: eval_nat_numeral exit_env_simps response_bytes)
  then show ?thesis using that
    unfolding supervise_loop.simps by (simp add: expired_iff exit_env_simps take_success_frame worker_exited_def)
qed


lemma sample_session_dispatch:
  "\<exists>ds'. dispatch_request_until_with_client (Suc 2) sample_session (PamAuth 1000 AUTH_TARGET_SDDM 2000 [97]) 1000 (config_from_env Map.empty)
      1000000000 False fresh_state = Some (encode_daemon_response STATUS_SUCCESS [], ds')"
proof -
  obtain s where s: "snapshot_load_system session_world = (Inr s, session_world)" "snap_policy s = sample_policy"
    "fst (same_file_as s s session_world)" using session_world_loads by blast
  have enabled: "policy_enables s 1000 AUTH_TARGET_SDDM"
    by (simp add: policy_enables_def s(2) authentication_target_def wire_defs mode_for_def sample_policy_def)
  have t: "granted_timeout (config_from_env Map.empty) 2000 = 2000"
    by (simp add: granted_timeout_def config_from_env_def wire_defs)
  have limit: "processing_deadline 2000 0 1000000000 = Some 900000000"
    by (simp add: processing_deadline_def MILLISECOND_def PAM_RESPONSE_RESERVE_def)
  obtain j where j: "supervise_loop (Suc 2) exit_env 900000000 False 8 0 [] None = Some (STATUS_SUCCESS, NoChild, j)"
    using sample_supervision [of 8] by auto
  obtain l where l: "allow_at (ds_limiter fresh_state) 1000 4 = (True, l)"
    by (simp add: allow_at_def fresh_state_def rate_limiter_default_def retain_recent_def PAM_ATTEMPTS_PER_WINDOW_def)
  have "\<exists>ds'. supervise_auth_worker (Suc 2) exit_env 1 fresh_state 1000 AUTH_TARGET_SDDM 2000 900000000 False = Some (STATUS_SUCCESS, ds', j)"
    using j l by (simp add: supervise_auth_worker_def slot_free_def expired_iff exit_env_simps fresh_state_def)
  then show ?thesis
    using s enabled t limit
    by (auto simp: sample_session_def dispatch_pam_auth_def authentication_policy_def exit_env_simps policy_is_current_def
        is_authorized_def)
qed

theorem authentication_certified_witness:
  "\<exists>ds'. is_authorized 1000 1000 \<and> ds_slot ds' = NoChild \<and> dispatch_request_until_with_client (Suc 2) sample_session (PamAuth 1000 AUTH_TARGET_SDDM 2000 [97])
      1000 (config_from_env Map.empty) 1000000000 False fresh_state = Some (encode_daemon_response STATUS_SUCCESS [], ds')"
proof -
  obtain ds' where d: "dispatch_request_until_with_client (Suc 2) sample_session (PamAuth 1000 AUTH_TARGET_SDDM 2000 [97]) 1000
      (config_from_env Map.empty) 1000000000 False fresh_state = Some (encode_daemon_response STATUS_SUCCESS [], ds')"
    using sample_session_dispatch by blast
  from authentication_certified [OF d] d show ?thesis by blast
qed

section \<open>Isolation of users\<close>

text \<open>
  Claim C34: a peer that is neither root nor the target gets the same denial whatever the state of the target's profile,
  policy, keys and files, and the daemon's state does not change; the freshness query is bound to the caller even
  for root and reveals nothing about another user.
\<close>

theorem peers_are_isolated:
  assumes "peer \<noteq> target_uid request" "peer \<noteq> 0 \<or> (\<exists>uid local. request = Freshness uid local)"
  shows "dispatch_request_until_with_client fuel env request peer cfg deadline client ds
    = Some (case request of Freshness _ _ \<Rightarrow> [0, 3, STATUS_ACCESS_DENIED, 0, freshness_byte FR_Unknown]
        | _ \<Rightarrow> encode_daemon_response STATUS_ACCESS_DENIED [], ds)"
  using assms by (cases request) (auto simp: is_authorized_def dispatch_freshness_def)

theorem peers_are_isolated_witness:
  "dispatch_request_until_with_client (Suc 2) sample_session (StatusRequest 1001) 1000 (config_from_env Map.empty) 5 False fresh_state
    = Some (encode_daemon_response STATUS_ACCESS_DENIED [], fresh_state)"
  using peers_are_isolated [of 1000 "StatusRequest 1001"] by simp

end
