(* ===== verification/Daemon_Pool.thy ===== *)
theory Daemon_Pool
  imports Daemon_Limits Daemon_Supervisor "HOL-Library.Multiset"
begin

text \<open>
  The daemon's bounded worker pool (\<^verbatim>\<open>run_daemon_loop_until\<close>, \<^verbatim>\<open>spawn_workers\<close>, \<^verbatim>\<open>worker_loop\<close> and \<^verbatim>\<open>reject_busy\<close> of
  \<^verbatim>\<open>engine/daemon/src/lib.rs\<close>): the accept loop hands admitted connections to four threads over a bounded queue. What the pool
  needs of the connection slots is stated as a locale and discharged for the slots of the daemon. The property is that an
  admitted connection always finds room in the queue, that permits are exactly the queued and running jobs, and that no
  job is stuck behind an idle worker.
\<close>

section \<open>The slots as an interface\<close>

locale connection_slots =
  fixes acquire :: "'s \<Rightarrow> 'p \<Rightarrow> 'p option \<times> 's"
    and release :: "'s \<Rightarrow> 'p \<Rightarrow> 's"
    and slots_inv :: "'s \<Rightarrow> 'p list \<Rightarrow> bool"
    and limit :: nat
  assumes acquire_admits: "slots_inv s ps \<Longrightarrow> acquire s p = (Some q, s') \<Longrightarrow> slots_inv s' (q # ps)"
    and acquire_refuses: "slots_inv s ps \<Longrightarrow> acquire s p = (None, s') \<Longrightarrow> slots_inv s' ps"
    and release_frees: "slots_inv s ps \<Longrightarrow> q \<in> set ps \<Longrightarrow> slots_inv (release s q) (remove1 q ps)"
    and order_irrelevant: "slots_inv s ps \<Longrightarrow> mset ps = mset qs \<Longrightarrow> slots_inv s qs"
    and within_limit: "slots_inv s ps \<Longrightarrow> length ps \<le> limit"
begin

lemma admitted_below_limit:
  assumes "slots_inv s ps" "acquire s p = (Some q, s')"
  shows "length ps < limit"
  using within_limit [OF acquire_admits [OF assms]] by simp

lemma admit_queued:
  assumes "slots_inv s (queue @ running)" "acquire s p = (Some q, s')"
  shows "slots_inv s' ((queue @ [q]) @ running)" "length queue < limit"
  using order_irrelevant [OF acquire_admits [OF assms]] admitted_below_limit [OF assms] by simp_all

lemma admit_release:
  assumes "slots_inv s ps" "acquire s p = (Some q, s')"
  shows "slots_inv (release s' q) ps"
  using release_frees [OF acquire_admits [OF assms], of q] by simp

lemma start_job: "slots_inv s ((q # queue) @ running) \<Longrightarrow> slots_inv s (queue @ q # running)"
  by (erule order_irrelevant) simp

lemma finish_job:
  assumes "slots_inv s (queue @ running)" "q \<in> set running"
  shows "slots_inv (release s q) (queue @ remove1 q running)"
proof -
  have "slots_inv (release s q) (remove1 q (queue @ running))" using assms by (intro release_frees) simp_all
  moreover have "mset (remove1 q (queue @ running)) = mset (queue @ remove1 q running)"
    using multiset_diff_union_assoc [of "{#q#}" "mset running" "mset queue"] assms(2) by simp
  ultimately show ?thesis by (rule order_irrelevant)
qed

lemma discard_queue: "slots_inv s (queue @ running) \<Longrightarrow> slots_inv (foldl release s queue) running"
proof (induction queue arbitrary: s)
  case (Cons q queue)
  have "slots_inv (release s q) (queue @ running)" using release_frees [OF Cons.prems, of q] by simp
  then show ?case using Cons.IH by simp
qed simp

end

lemma count_list_mset: "count_list xs x = count (mset xs) x"
  by (induction xs) auto

interpretation ingress: connection_slots try_acquire permit_drop ingress_inv MAX_ACTIVE_CONNECTIONS
proof
  fix s ps p q s'
  assume i: "ingress_inv s ps"
  show "try_acquire s p = (Some q, s') \<Longrightarrow> ingress_inv s' (q # ps)" using i by (rule ingress_inv_acquire)
  show "try_acquire s p = (None, s') \<Longrightarrow> ingress_inv s' ps"
    using i by (auto simp: try_acquire_def Let_def split: if_splits)
  show "q \<in> set ps \<Longrightarrow> ingress_inv (permit_drop s q) (remove1 q ps)" using i by (rule ingress_inv_drop)
  show "length ps \<le> MAX_ACTIVE_CONNECTIONS" using i by (simp add: ingress_inv_def)
next
  fix s ps qs
  assume i: "ingress_inv s ps" and m: "mset ps = mset qs"
  have "count_list qs u = count_list ps u" for u by (simp add: count_list_mset m)
  moreover have "length qs = length ps" using m by (metis size_mset)
  ultimately show "ingress_inv s qs" using i by (simp add: ingress_inv_def)
qed

section \<open>The pool\<close>

text \<open>
  A job is named by its peer. \<open>pl_workers\<close> counts the threads that are alive: a panic in a handler ends its thread, and
  unwinding drops the permit. \<open>pl_rejected\<close> records the peers that were answered with \<^verbatim>\<open>STATUS_DEVICE_BUSY\<close>.
\<close>

record pool =
  pl_ingress :: ingress_state
  pl_queue :: "u32 list"
  pl_running :: "u32 list"
  pl_workers :: nat
  pl_rejected :: "u32 list"

definition spawn_workers :: pool where
  "spawn_workers = \<lparr>pl_ingress = ingress_default, pl_queue = [], pl_running = [], pl_workers = MAX_ACTIVE_CONNECTIONS,
     pl_rejected = []\<rparr>"

text \<open>\<^verbatim>\<open>SyncSender::try_send\<close>: refused when the queue is full or every receiver is gone.\<close>

datatype try_send_error = Full u32 | Disconnected u32

definition try_send :: "pool \<Rightarrow> u32 \<Rightarrow> try_send_error + pool" where
  "try_send p job =
     (if pl_workers p = 0 then Inl (Disconnected job)
      else if length (pl_queue p) \<ge> MAX_ACTIVE_CONNECTIONS then Inl (Full job)
      else Inr (p\<lparr>pl_queue := pl_queue p @ [job]\<rparr>))"

definition reject_busy :: "pool \<Rightarrow> u32 \<Rightarrow> pool" where
  "reject_busy p peer = p\<lparr>pl_rejected := peer # pl_rejected p\<rparr>"

text \<open>What one call of \<^verbatim>\<open>accept\<close> gives; a connection whose peer credentials cannot be read has no peer.\<close>

datatype accept_event = Accepted "u32 option" | AcceptErr io_kind

fun accept_round :: "pool \<Rightarrow> accept_event \<Rightarrow> io_kind + pool" where
  "accept_round p (Accepted None) = Inr p"
| "accept_round p (Accepted (Some peer)) =
     (case try_acquire (pl_ingress p) peer of
        (None, s) \<Rightarrow> Inr (reject_busy (p\<lparr>pl_ingress := s\<rparr>) peer)
      | (Some permit, s) \<Rightarrow>
          (case try_send (p\<lparr>pl_ingress := s\<rparr>) peer of
             Inr p' \<Rightarrow> Inr p'
           | Inl _ \<Rightarrow> Inr ((reject_busy p peer)\<lparr>pl_ingress := permit_drop s permit\<rparr>)))"
| "accept_round p (AcceptErr k) = (if k = WouldBlock \<or> k = Interrupted then Inr p else Inl k)"

text \<open>
  The accept loop and the worker threads interleave freely. A worker takes the oldest job; the permit goes when the
  job ends, whether the handler returns or panics. The receiver is shared by the workers and goes with the last of them,
  and the waiting jobs and their permits go with it.
\<close>

definition worker_gone :: "pool \<Rightarrow> u32 \<Rightarrow> pool" where
  "worker_gone p job =
     (let s = permit_drop (pl_ingress p) job;
          p' = p\<lparr>pl_running := remove1 job (pl_running p), pl_ingress := s, pl_workers := pl_workers p - 1\<rparr> in
      if pl_workers p' = 0 then p'\<lparr>pl_queue := [], pl_ingress := foldl permit_drop s (pl_queue p)\<rparr> else p')"

inductive pool_step :: "pool \<Rightarrow> pool \<Rightarrow> bool" where
  accepts: "accept_round p ev = Inr p' \<Longrightarrow> pool_step p p'"
| takes: "pl_queue p = job # rest \<Longrightarrow> length (pl_running p) < pl_workers p
    \<Longrightarrow> pool_step p (p\<lparr>pl_queue := rest, pl_running := job # pl_running p\<rparr>)"
| ends: "job \<in> set (pl_running p)
    \<Longrightarrow> pool_step p (p\<lparr>pl_running := remove1 job (pl_running p), pl_ingress := permit_drop (pl_ingress p) job\<rparr>)"
| panics: "job \<in> set (pl_running p) \<Longrightarrow> pool_step p (worker_gone p job)"

inductive pool_reachable :: "pool \<Rightarrow> bool" where
  initially: "pool_reachable spawn_workers"
| onward: "pool_reachable p \<Longrightarrow> pool_step p p' \<Longrightarrow> pool_reachable p'"

inductive_cases pool_stepE: "pool_step p p'"

definition pool_inv :: "pool \<Rightarrow> bool" where
  "pool_inv p \<longleftrightarrow> ingress_inv (pl_ingress p) (pl_queue p @ pl_running p)
     \<and> length (pl_running p) \<le> pl_workers p \<and> pl_workers p \<le> MAX_ACTIVE_CONNECTIONS
     \<and> (pl_workers p = 0 \<longrightarrow> pl_queue p = [])"

lemma accept_round_inv:
  assumes "pool_inv p" "accept_round p ev = Inr p'"
  shows "pool_inv p'"
proof (cases "(p, ev)" rule: accept_round.cases)
  case (2 q peer)
  have i: "ingress_inv (pl_ingress p) (pl_queue p @ pl_running p)" using assms(1) by (simp add: pool_inv_def)
  obtain r s where t: "try_acquire (pl_ingress p) peer = (r, s)" by fastforce
  show ?thesis
  proof (cases r)
    case None
    with 2 t assms ingress.acquire_refuses [OF i] show ?thesis by (auto simp: pool_inv_def reject_busy_def)
  next
    case (Some permit)
    then have [simp]: "permit = peer" using t by (auto simp: try_acquire_def Let_def split: if_splits)
    note t' = t [unfolded Some]
    show ?thesis
      using 2 Some t' assms ingress.admit_queued [OF i t'] ingress.admit_release [OF i t']
      by (auto simp: pool_inv_def reject_busy_def try_send_def split: if_splits)
  qed
qed (use assms in \<open>auto split: if_splits\<close>)

lemma pool_step_inv: "pool_step p p' \<Longrightarrow> pool_inv p \<Longrightarrow> pool_inv p'"
proof (induction rule: pool_step.induct)
  case (accepts p ev p')
  then show ?case using accept_round_inv by blast
next
  case (takes p job rest)
  then show ?case using ingress.start_job [of "pl_ingress p" job rest "pl_running p"] by (simp add: pool_inv_def)
next
  case (ends job p)
  then show ?case using ingress.finish_job [of "pl_ingress p" "pl_queue p" "pl_running p" job]
    by (auto simp: pool_inv_def length_remove1)
next
  case (panics job p)
  then have f: "ingress_inv (permit_drop (pl_ingress p) job) (pl_queue p @ remove1 job (pl_running p))"
    using ingress.finish_job by (simp add: pool_inv_def)
  show ?case using panics f ingress.discard_queue [OF f]
    by (auto simp: pool_inv_def worker_gone_def Let_def length_remove1)
qed

lemma pool_reachable_inv: "pool_reachable p \<Longrightarrow> pool_inv p"
proof (induction rule: pool_reachable.induct)
  case initially
  show ?case by (simp add: pool_inv_def spawn_workers_def ingress_inv_def ingress_default_def)
next
  case (onward p p')
  then show ?case using pool_step_inv by blast
qed

text \<open>
  Claim C9: in every reachable state of the pool, under every interleaving and with handlers that may panic, the permits
  that are out are exactly those of the queued and the running jobs, at most four; a connection that got a permit is never
  turned away because the queue is full; and no job is stranded: while one waits, a worker is alive that can take it
  or will be free when a running job ends.
\<close>

theorem pool_bounded:
  assumes "pool_reachable p"
  shows "ingress_inv (pl_ingress p) (pl_queue p @ pl_running p)
    \<and> length (pl_queue p) + length (pl_running p) \<le> MAX_ACTIVE_CONNECTIONS
    \<and> (\<forall>peer permit s. try_acquire (pl_ingress p) peer = (Some permit, s) \<longrightarrow>
         try_send (p\<lparr>pl_ingress := s\<rparr>) peer \<noteq> Inl (Full peer))
    \<and> (pl_queue p \<noteq> [] \<longrightarrow> length (pl_running p) < pl_workers p \<or> pl_running p \<noteq> [])"
proof -
  have i: "pool_inv p" by (rule pool_reachable_inv [OF assms])
  then have s: "ingress_inv (pl_ingress p) (pl_queue p @ pl_running p)" by (simp add: pool_inv_def)
  have "try_send (p\<lparr>pl_ingress := s'\<rparr>) peer \<noteq> Inl (Full peer)"
    if "try_acquire (pl_ingress p) peer = (Some permit, s')" for peer permit s'
    using ingress.admit_queued(2) [OF s that] by (simp add: try_send_def)
  with i s ingress.within_limit [OF s] show ?thesis by (auto simp: pool_inv_def)
qed

theorem pool_bounded_witness:
  "\<exists>p :: pool. pl_queue p = [1000] \<and> ingress_inv (pl_ingress p) (pl_queue p @ pl_running p)"
proof -
  obtain s where "try_acquire ingress_default 1000 = (Some 1000, s)"
    by (simp add: try_acquire_def ingress_default_def MAX_ACTIVE_CONNECTIONS_def MAX_CONNECTIONS_PER_PEER_UID_def)
  then have a: "accept_round spawn_workers (Accepted (Some 1000)) = Inr (spawn_workers\<lparr>pl_ingress := s, pl_queue := [1000]\<rparr>)"
    by (simp add: spawn_workers_def try_send_def MAX_ACTIVE_CONNECTIONS_def)
  let ?p = "spawn_workers\<lparr>pl_ingress := s, pl_queue := [1000]\<rparr>"
  have "pl_queue ?p = [1000] \<and> ingress_inv (pl_ingress ?p) (pl_queue ?p @ pl_running ?p)"
    using pool_bounded [OF onward [OF initially accepts [OF a]]] by simp
  then show ?thesis by blast
qed

section \<open>Shutdown\<close>

text \<open>
  After the loop the child is killed and reaped until a deadline: \<open>exited i\<close> tells whether the \<open>i\<close>-th look finds it
  gone, \<open>clock i\<close> the time of the \<open>i\<close>-th check.
\<close>

fun reap_loop :: "nat \<Rightarrow> (nat \<Rightarrow> instant) \<Rightarrow> (nat \<Rightarrow> bool) \<Rightarrow> instant \<Rightarrow> nat \<Rightarrow> child_slot \<Rightarrow> child_slot option" where
  "reap_loop 0 clock exited deadline i slot = None"
| "reap_loop (Suc f) clock exited deadline i slot =
     (if deadline \<le> clock i then Some slot
      else
        let slot' = (if slot \<noteq> NoChild \<and> exited i then NoChild else slot) in
        if slot' = NoChild then Some NoChild else reap_loop f clock exited deadline (Suc i) slot')"

definition kill_child :: "child_slot \<Rightarrow> child_slot" where
  "kill_child slot = (if slot = NoChild then NoChild else KilledChild)"

lemma reap_loop_ends:
  assumes "deadline \<le> clock (i + n)"
  shows "\<exists>s. reap_loop (Suc n) clock exited deadline i slot = Some s"
  using assms
proof (induction n arbitrary: i slot)
  case (Suc n)
  then show ?case by (auto simp: Let_def)
qed auto

end
