(* ===== verification/Identity_Protocol.thy ===== *)
theory Identity_Protocol
  imports Vault_Codec Vision_Image Wire_Protocol
begin

text \<open>
  The protocol of the identity worker (\<^verbatim>\<open>parse_request\<close> and the \<^verbatim>\<open>encode_\<close> functions of \<^verbatim>\<open>engine/identity/src/lib.rs\<close>).
  Keys are plain byte lists, and an image in a request is a view of the request's own bytes. The property is that the
  parser accepts exactly the layouts of valid requests.
\<close>

section \<open>Constants and codes\<close>

definition WORKER_PROTOCOL_VERSION :: u16 where [wire_defs]: "WORKER_PROTOCOL_VERSION = 1"
definition IDENTITY_PROTOCOL_VERSION :: u16 where [wire_defs]: "IDENTITY_PROTOCOL_VERSION = WORKER_PROTOCOL_VERSION"
definition MAX_IDENTITY_REQUEST_BYTES :: nat where
  "MAX_IDENTITY_REQUEST_BYTES = 64 + MAX_FRAME_BYTES + MAXIMUM_PROFILE_SAMPLES * EMBEDDING_DIMENSION * 4"
definition MAX_IDENTITY_RESPONSE_BYTES :: nat where "MAX_IDENTITY_RESPONSE_BYTES = 64 + EMBEDDING_DIMENSION * 4"
definition MIN_TIMEOUT_MS :: u32 where [wire_defs]: "MIN_TIMEOUT_MS = 1"
definition MAX_TIMEOUT_MS :: u32 where [wire_defs]: "MAX_TIMEOUT_MS = 10000"

definition ID_OP_STATUS :: u8 where [wire_defs]: "ID_OP_STATUS = 1"
definition OP_EXTRACT_ENROLLMENT_SAMPLE :: u8 where [wire_defs]: "OP_EXTRACT_ENROLLMENT_SAMPLE = 2"
definition OP_COMMIT_ENROLLMENT :: u8 where [wire_defs]: "OP_COMMIT_ENROLLMENT = 3"
definition OP_LIST_PROFILE_SUMMARY :: u8 where [wire_defs]: "OP_LIST_PROFILE_SUMMARY = 4"
definition OP_VERIFY_ONE_FRAME :: u8 where [wire_defs]: "OP_VERIFY_ONE_FRAME = 5"
definition OP_DELETE_PROFILE :: u8 where [wire_defs]: "OP_DELETE_PROFILE = 6"
definition OP_ROTATE_VAULT_KEY :: u8 where [wire_defs]: "OP_ROTATE_VAULT_KEY = 7"
definition OP_VALIDATE_VAULT :: u8 where [wire_defs]: "OP_VALIDATE_VAULT = 8"
definition OP_RESET_UNREADABLE :: u8 where [wire_defs]: "OP_RESET_UNREADABLE = 9"
definition OP_GENERATE_KEY :: u8 where [wire_defs]: "OP_GENERATE_KEY = 10"

definition ID_RESPONSE_STATUS :: u8 where [wire_defs]: "ID_RESPONSE_STATUS = 0x81"
definition RESPONSE_SAMPLE :: u8 where [wire_defs]: "RESPONSE_SAMPLE = 0x82"
definition RESPONSE_ACK :: u8 where [wire_defs]: "RESPONSE_ACK = 0x83"
definition RESPONSE_VERIFICATION :: u8 where [wire_defs]: "RESPONSE_VERIFICATION = 0x84"
definition RESPONSE_KEY :: u8 where [wire_defs]: "RESPONSE_KEY = 0x85"
definition ID_RESPONSE_ERROR :: u8 where [wire_defs]: "ID_RESPONSE_ERROR = 0xff"

definition COMMON_HEADER_BYTES :: nat where "COMMON_HEADER_BYTES = 16"
definition IMAGE_HEADER_BYTES :: nat where "IMAGE_HEADER_BYTES = 8"

datatype worker_error_code = IW_InvalidRequest | IW_UnsupportedVersion | IW_UnsupportedOperation | IW_InvalidGeneration
  | IW_InvalidTimeout | IW_InvalidFrame | IW_NoFace | IW_MultipleFaces | IW_PoorQuality | IW_FaceGeometry
  | IW_DuplicateSample | IW_ProfileBounds | IW_NoProfile | IW_VaultLocked | IW_VaultCorrupt | IW_ModelMismatch
  | IW_KeyUnavailable | IW_Cancelled | IW_DeadlineExceeded | IW_ModelUnavailable | IW_RateLimited | IW_InternalFailure
  | IW_SpoofDetected

fun worker_code :: "worker_error_code \<Rightarrow> u8" where
  "worker_code IW_InvalidRequest = 1"
| "worker_code IW_UnsupportedVersion = 2"
| "worker_code IW_UnsupportedOperation = 3"
| "worker_code IW_InvalidGeneration = 4"
| "worker_code IW_InvalidTimeout = 5"
| "worker_code IW_InvalidFrame = 6"
| "worker_code IW_NoFace = 7"
| "worker_code IW_MultipleFaces = 8"
| "worker_code IW_PoorQuality = 9"
| "worker_code IW_FaceGeometry = 10"
| "worker_code IW_DuplicateSample = 11"
| "worker_code IW_ProfileBounds = 12"
| "worker_code IW_NoProfile = 13"
| "worker_code IW_VaultLocked = 14"
| "worker_code IW_VaultCorrupt = 15"
| "worker_code IW_ModelMismatch = 16"
| "worker_code IW_KeyUnavailable = 17"
| "worker_code IW_Cancelled = 18"
| "worker_code IW_DeadlineExceeded = 19"
| "worker_code IW_ModelUnavailable = 20"
| "worker_code IW_RateLimited = 21"
| "worker_code IW_InternalFailure = 22"
| "worker_code IW_SpoofDetected = 23"

section \<open>Requests\<close>

datatype identity_request =
    IR_Status "bytes option"
  | IR_Extract "embedding list" image_view
  | IR_Commit bytes "embedding list"
  | IR_Summary bytes
  | IR_Verify bytes image_view
  | IR_Delete bytes
  | IR_Rotate bytes bytes
  | IR_Validate bytes
  | IR_ResetUnreadable
  | IR_GenerateKey

record parsed_request =
  pr_generation :: u64
  pr_timeout_ms :: u32
  pr_request :: identity_request

record request_failure =
  rf_code :: worker_error_code
  rf_generation :: u64

definition map_image_error :: "image_error \<Rightarrow> worker_error_code" where
  "map_image_error e = IW_InvalidFrame"

text \<open>The count is a byte, so none of the checked products of the size can overflow.\<close>

definition parse_embeddings :: "bytes \<Rightarrow> worker_error_code + embedding list" where
  "parse_embeddings data =
     (case data of
        [] \<Rightarrow> Inl IW_InvalidRequest
      | c # encoded \<Rightarrow>
          if unat c > MAXIMUM_PROFILE_SAMPLES then Inl IW_ProfileBounds
          else if length data \<noteq> 1 + unat c * EMBEDDING_DIMENSION * 4 then Inl IW_InvalidRequest
          else rbind (map_err (\<lambda>_. IW_InvalidRequest) (read_samples (unat c) encoded)) (\<lambda>(es, _). Inr es))"

definition parse_image :: "bytes \<Rightarrow> worker_error_code + image_view" where
  "parse_image data =
     (if length data < IMAGE_HEADER_BYTES then Inl IW_InvalidFrame
      else rbind (map_err map_image_error (pixel_format_try_from (data ! 0))) (\<lambda>format.
        if data ! 1 \<noteq> 0 then Inl IW_InvalidFrame
        else
          let width = ucast (u16_from_be (bslice 2 4 data));
              height = ucast (u16_from_be (bslice 4 6 data));
              stride = ucast (u16_from_be (bslice 6 8 data))
          in map_err map_image_error (image_view_new format width height stride (drop IMAGE_HEADER_BYTES data))))"

definition parse_enrollment_image :: "bytes \<Rightarrow> worker_error_code + embedding list \<times> image_view" where
  "parse_enrollment_image data =
     (case data of
        [] \<Rightarrow> Inl IW_InvalidRequest
      | c # _ \<Rightarrow>
          if unat c \<ge> MAXIMUM_PROFILE_SAMPLES then Inl IW_ProfileBounds
          else
            let image_offset = 1 + unat c * EMBEDDING_DIMENSION * 4 in
            if length data \<le> image_offset then Inl IW_InvalidRequest
            else
              rbind (parse_embeddings (word_of_nat (unat c) # bslice 1 image_offset data)) (\<lambda>prior.
              rbind (parse_image (drop image_offset data)) (\<lambda>img. Inr (prior, img))))"

text \<open>The match on the operation: the guarded arms in their order, then the two catch-all arms.\<close>

definition parse_operation :: "u8 \<Rightarrow> u8 \<Rightarrow> bytes \<Rightarrow> worker_error_code + identity_request" where
  "parse_operation op flag data =
     (if op = ID_OP_STATUS \<and> flag \<le> 1 then
        (if flag = 0 \<and> data = [] then Inr (IR_Status None)
         else if flag = 1 \<and> length data = KEY_BYTES then Inr (IR_Status (Some data))
         else Inl IW_InvalidRequest)
      else if op = OP_EXTRACT_ENROLLMENT_SAMPLE \<and> flag = 0 then
        rbind (parse_enrollment_image data) (\<lambda>(prior, img). Inr (IR_Extract prior img))
      else if op = OP_COMMIT_ENROLLMENT \<and> flag = 0 then
        (if length data < KEY_BYTES + 1 then Inl IW_InvalidRequest
         else rbind (parse_embeddings (drop KEY_BYTES data)) (\<lambda>es. Inr (IR_Commit (take KEY_BYTES data) es)))
      else if op = OP_LIST_PROFILE_SUMMARY \<and> flag = 0 \<and> length data = KEY_BYTES then Inr (IR_Summary data)
      else if op = OP_VERIFY_ONE_FRAME \<and> flag = 0 \<and> length data > KEY_BYTES then
        rbind (parse_image (drop KEY_BYTES data)) (\<lambda>img. Inr (IR_Verify (take KEY_BYTES data) img))
      else if op = OP_DELETE_PROFILE \<and> flag = 0 \<and> length data = KEY_BYTES then Inr (IR_Delete data)
      else if op = OP_ROTATE_VAULT_KEY \<and> flag = 0 \<and> length data = KEY_BYTES * 2 then
        Inr (IR_Rotate (take KEY_BYTES data) (drop KEY_BYTES data))
      else if op = OP_VALIDATE_VAULT \<and> flag = 0 \<and> length data = KEY_BYTES then Inr (IR_Validate data)
      else if op = OP_RESET_UNREADABLE \<and> flag = 0 \<and> data = [] then Inr IR_ResetUnreadable
      else if op = OP_GENERATE_KEY \<and> flag = 0 \<and> data = [] then Inr IR_GenerateKey
      else if op \<in> {ID_OP_STATUS, OP_EXTRACT_ENROLLMENT_SAMPLE, OP_COMMIT_ENROLLMENT, OP_LIST_PROFILE_SUMMARY,
          OP_VERIFY_ONE_FRAME, OP_DELETE_PROFILE, OP_ROTATE_VAULT_KEY, OP_VALIDATE_VAULT, OP_RESET_UNREADABLE,
          OP_GENERATE_KEY}
      then Inl IW_InvalidRequest
      else Inl IW_UnsupportedOperation)"

definition request_generation :: "bytes \<Rightarrow> u64" where
  "request_generation payload = (case get_slice 4 12 payload of None \<Rightarrow> 0 | Some bs \<Rightarrow> u64_from_be bs)"

definition parse_identity_request :: "bytes \<Rightarrow> request_failure + parsed_request" where
  "parse_identity_request payload =
     (let generation = request_generation payload;
          invalid = (\<lambda>code. \<lparr>rf_code = code, rf_generation = generation\<rparr>) in
      if length payload < COMMON_HEADER_BYTES then Inl (invalid IW_InvalidRequest)
      else if u16_from_be (bslice 0 2 payload) \<noteq> IDENTITY_PROTOCOL_VERSION then Inl (invalid IW_UnsupportedVersion)
      else if generation = 0 then Inl (invalid IW_InvalidGeneration)
      else
        let timeout_ms = u32_from_be (bslice 12 16 payload) in
        if \<not> (MIN_TIMEOUT_MS \<le> timeout_ms \<and> timeout_ms \<le> MAX_TIMEOUT_MS) then Inl (invalid IW_InvalidTimeout)
        else
          rbind (map_err invalid (parse_operation (payload ! 2) (payload ! 3) (drop COMMON_HEADER_BYTES payload))) (\<lambda>r.
          Inr \<lparr>pr_generation = generation, pr_timeout_ms = timeout_ms, pr_request = r\<rparr>))"

section \<open>The layout of requests\<close>

fun format_byte :: "pixel_format \<Rightarrow> u8" where
  "format_byte Rgb8 = 1"
| "format_byte Rgba8 = 2"
| "format_byte Gray8 = 3"

definition embeddings_data :: "embedding list \<Rightarrow> bytes" where
  "embeddings_data es = word_of_nat (length es) # concat (map embedding_bytes es)"

definition image_data :: "image_view \<Rightarrow> bytes" where
  "image_data v = [format_byte (img_format v), 0] @ u16_be (ucast (img_width v)) @ u16_be (ucast (img_height v))
     @ u16_be (ucast (img_stride v)) @ img_bytes v"

definition sendable :: "image_view \<Rightarrow> bool" where
  "sendable v \<longleftrightarrow> view_wf v \<and> unat (img_stride v) < 2 ^ 16"

fun request_op :: "identity_request \<Rightarrow> u8" where
  "request_op (IR_Status _) = ID_OP_STATUS"
| "request_op (IR_Extract _ _) = OP_EXTRACT_ENROLLMENT_SAMPLE"
| "request_op (IR_Commit _ _) = OP_COMMIT_ENROLLMENT"
| "request_op (IR_Summary _) = OP_LIST_PROFILE_SUMMARY"
| "request_op (IR_Verify _ _) = OP_VERIFY_ONE_FRAME"
| "request_op (IR_Delete _) = OP_DELETE_PROFILE"
| "request_op (IR_Rotate _ _) = OP_ROTATE_VAULT_KEY"
| "request_op (IR_Validate _) = OP_VALIDATE_VAULT"
| "request_op IR_ResetUnreadable = OP_RESET_UNREADABLE"
| "request_op IR_GenerateKey = OP_GENERATE_KEY"

fun request_flag :: "identity_request \<Rightarrow> u8" where
  "request_flag (IR_Status (Some _)) = 1"
| "request_flag _ = 0"

fun request_data :: "identity_request \<Rightarrow> bytes" where
  "request_data (IR_Status None) = []"
| "request_data (IR_Status (Some key)) = key"
| "request_data (IR_Extract prior img) = embeddings_data prior @ image_data img"
| "request_data (IR_Commit key es) = key @ embeddings_data es"
| "request_data (IR_Summary key) = key"
| "request_data (IR_Verify key img) = key @ image_data img"
| "request_data (IR_Delete key) = key"
| "request_data (IR_Rotate old_key new_key) = old_key @ new_key"
| "request_data (IR_Validate key) = key"
| "request_data IR_ResetUnreadable = []"
| "request_data IR_GenerateKey = []"

fun identity_request_valid :: "identity_request \<Rightarrow> bool" where
  "identity_request_valid (IR_Status None) \<longleftrightarrow> True"
| "identity_request_valid (IR_Status (Some key)) \<longleftrightarrow> length key = KEY_BYTES"
| "identity_request_valid (IR_Extract prior img) \<longleftrightarrow>
     length prior < MAXIMUM_PROFILE_SAMPLES \<and> list_all embedding_wf prior \<and> sendable img"
| "identity_request_valid (IR_Commit key es) \<longleftrightarrow>
     length key = KEY_BYTES \<and> length es \<le> MAXIMUM_PROFILE_SAMPLES \<and> list_all embedding_wf es"
| "identity_request_valid (IR_Summary key) \<longleftrightarrow> length key = KEY_BYTES"
| "identity_request_valid (IR_Verify key img) \<longleftrightarrow> length key = KEY_BYTES \<and> sendable img"
| "identity_request_valid (IR_Delete key) \<longleftrightarrow> length key = KEY_BYTES"
| "identity_request_valid (IR_Rotate old_key new_key) \<longleftrightarrow> length old_key = KEY_BYTES \<and> length new_key = KEY_BYTES"
| "identity_request_valid (IR_Validate key) \<longleftrightarrow> length key = KEY_BYTES"
| "identity_request_valid IR_ResetUnreadable \<longleftrightarrow> True"
| "identity_request_valid IR_GenerateKey \<longleftrightarrow> True"

definition identity_request_bytes :: "parsed_request \<Rightarrow> bytes" where
  "identity_request_bytes p = u16_be IDENTITY_PROTOCOL_VERSION @ [request_op (pr_request p), request_flag (pr_request p)]
     @ u64_be (pr_generation p) @ u32_be (pr_timeout_ms p) @ request_data (pr_request p)"

section \<open>The parser is exact\<close>

lemma parse_embeddings_iff:
  "parse_embeddings data = Inr es
     \<longleftrightarrow> length es \<le> MAXIMUM_PROFILE_SAMPLES \<and> list_all embedding_wf es \<and> data = embeddings_data es"
proof
  assume "parse_embeddings data = Inr es"
  then obtain c enc r where d: "data = c # enc" "unat c \<le> MAXIMUM_PROFILE_SAMPLES" "read_samples (unat c) enc = Inr (es, r)"
      "length enc = unat c * EMBEDDING_DIMENSION * 4"
    by (auto simp: parse_embeddings_def result_iffs split: list.splits if_splits)
  then have e: "length es = unat c" "\<forall>e \<in> set es. embedding_wf e" "enc = concat (map embedding_bytes es) @ r"
    by (auto simp: read_samples_iff)
  with d(4) length_embeddings [OF e(2)] have "r = []" by simp
  with d e show "length es \<le> MAXIMUM_PROFILE_SAMPLES \<and> list_all embedding_wf es \<and> data = embeddings_data es"
    by (simp add: embeddings_data_def list_all_iff)
next
  assume a: "length es \<le> MAXIMUM_PROFILE_SAMPLES \<and> list_all embedding_wf es \<and> data = embeddings_data es"
  then have u: "unat (word_of_nat (length es) :: u8) = length es" and wf: "\<forall>e \<in> set es. embedding_wf e"
    by (simp_all add: unat_of_nat MAXIMUM_PROFILE_SAMPLES_def list_all_iff)
  have "read_samples (length es) (concat (map embedding_bytes es)) = Inr (es, [])"
    using wf by (simp add: read_samples_iff)
  with a u length_embeddings [OF wf] show "parse_embeddings data = Inr es"
    by (simp add: parse_embeddings_def embeddings_data_def)
qed

lemma pixel_format_iff: "pixel_format_try_from b = Inr f \<longleftrightarrow> b = format_byte f"
  by (cases f) (auto simp: pixel_format_try_from_def split: if_splits)

lemma ucast_u16_u32: "unat (ucast (w :: u16) :: u32) = unat w"
proof -
  have "unat w < 2 ^ 16" using unsigned_less [of w] by simp
  then show ?thesis by (simp add: unsigned_ucast_eq take_bit_nat_eq_self)
qed

lemma ucast_u16_round: "ucast (ucast (w :: u16) :: u32) = w"
  by (rule word_unat_eq_iff [THEN iffD2]) (simp add: unsigned_ucast_eq unsigned_take_bit_eq take_bit_word_eq_self)

lemma ucast_u32_u16: "unat (w :: u32) < 2 ^ 16 \<Longrightarrow> ucast (ucast w :: u16) = w"
  by (rule word_unat_eq_iff [THEN iffD2]) (simp add: unsigned_ucast_eq unsigned_take_bit_eq take_bit_nat_eq_self)

text \<open>The eight bytes before the pixels, cut as the parser cuts them.\<close>

lemma image_header_split:
  assumes "8 \<le> length data"
  shows "data = [data ! 0, data ! 1] @ bslice 2 4 data @ bslice 4 6 data @ bslice 6 8 data @ drop 8 data"
proof -
  have "bslice 0 2 data = [data ! 0, data ! 1]" using assms by (simp add: bslice_nth_Cons) (simp add: bslice_def)
  moreover have "data = bslice 0 8 data @ drop 8 data" using bslice_drop [of 0 8 data] by simp
  moreover have "bslice 0 8 data = bslice 0 6 data @ bslice 6 8 data" "bslice 0 6 data = bslice 0 4 data @ bslice 4 6 data"
    "bslice 0 4 data = bslice 0 2 data @ bslice 2 4 data"
    by (rule bslice_split [symmetric]; simp)+
  ultimately show ?thesis by (metis append.assoc)
qed

lemma parse_image_iff: "parse_image data = Inr v \<longleftrightarrow> sendable v \<and> data = image_data v"
proof
  assume a: "parse_image data = Inr v"
  let ?w = "u16_from_be (bslice 2 4 data)" and ?h = "u16_from_be (bslice 4 6 data)" and ?s = "u16_from_be (bslice 6 8 data)"
  from a obtain f where f: "8 \<le> length data" "data ! 0 = format_byte f" "data ! 1 = 0"
      "image_view_new f (ucast ?w) (ucast ?h) (ucast ?s) (drop 8 data) = Inr v"
    by (auto simp: parse_image_def result_iffs pixel_format_iff IMAGE_HEADER_BYTES_def Let_def split: if_splits)
  then have v: "v = \<lparr>img_format = f, img_width = ucast ?w, img_height = ucast ?h, img_stride = ucast ?s, img_bytes = drop 8 data\<rparr>"
    by (auto simp: image_view_new_def rbind_eq_Inr split: if_splits)
  have "unat ?s < 2 ^ 16" using unsigned_less [of ?s] by simp
  with image_view_new_wf [OF f(4)] v have "sendable v" by (simp add: sendable_def ucast_u16_u32)
  moreover have "image_data v = data"
    using image_header_split [OF f(1)] f v by (simp add: image_data_def ucast_u16_round be_to_from)
  ultimately show "sendable v \<and> data = image_data v" by simp
next
  assume a: "sendable v \<and> data = image_data v"
  then have wf: "view_wf v" "unat (img_stride v) < 2 ^ 16" by (simp_all add: sendable_def)
  then have "unat (img_width v) < 2 ^ 16" "unat (img_height v) < 2 ^ 16" by (simp_all add: view_wf_def)
  note u = ucast_u32_u16 [OF wf(2)] this [THEN ucast_u32_u16]
  show "parse_image data = Inr v"
    using a u image_view_new_complete [OF wf(1)]
    by (simp add: parse_image_def image_data_def IMAGE_HEADER_BYTES_def pixel_format_iff [THEN iffD2, OF refl] Let_def)
qed

lemma parse_enrollment_iff:
  "parse_enrollment_image data = Inr (prior, v)
     \<longleftrightarrow> length prior < MAXIMUM_PROFILE_SAMPLES \<and> list_all embedding_wf prior \<and> sendable v
       \<and> data = embeddings_data prior @ image_data v"
proof
  assume "parse_enrollment_image data = Inr (prior, v)"
  then obtain c d where d: "data = c # d" "unat c < MAXIMUM_PROFILE_SAMPLES"
      "parse_embeddings (c # bslice 1 (1 + unat c * EMBEDDING_DIMENSION * 4) data) = Inr prior"
      "parse_image (drop (1 + unat c * EMBEDDING_DIMENSION * 4) data) = Inr v"
    by (auto simp: parse_enrollment_image_def result_iffs Let_def split: list.splits if_splits)
  then have e: "c # bslice 1 (1 + unat c * EMBEDDING_DIMENSION * 4) data = embeddings_data prior" "list_all embedding_wf prior"
      "length prior \<le> MAXIMUM_PROFILE_SAMPLES"
    by (simp_all add: parse_embeddings_iff)
  from e(1) have "unat c = length prior" using e(3)
    by (simp add: embeddings_data_def unat_of_nat MAXIMUM_PROFILE_SAMPLES_def)
  moreover have "data = embeddings_data prior @ image_data v"
    using d(1,4) bslice_drop [of 1 "1 + unat c * EMBEDDING_DIMENSION * 4" data] unfolding e(1) [symmetric]
    by (simp add: parse_image_iff)
  ultimately show "length prior < MAXIMUM_PROFILE_SAMPLES \<and> list_all embedding_wf prior \<and> sendable v
      \<and> data = embeddings_data prior @ image_data v"
    using d e by (simp add: parse_image_iff)
next
  assume a: "length prior < MAXIMUM_PROFILE_SAMPLES \<and> list_all embedding_wf prior \<and> sendable v
      \<and> data = embeddings_data prior @ image_data v"
  let ?c = "word_of_nat (length prior) :: u8" and ?e = "concat (map embedding_bytes prior)"
  have u: "unat ?c = length prior" using a by (simp add: unat_of_nat MAXIMUM_PROFILE_SAMPLES_def)
  have l: "length ?e = length prior * EMBEDDING_DIMENSION * 4"
    using a by (intro length_embeddings) (simp add: list_all_iff)
  have d: "data = ?c # ?e @ image_data v" using a by (simp add: embeddings_data_def)
  have "parse_embeddings (?c # ?e) = Inr prior" using a by (simp add: parse_embeddings_iff embeddings_data_def)
  moreover have "parse_image (image_data v) = Inr v" using a by (simp add: parse_image_iff)
  moreover have "image_data v \<noteq> []" by (simp add: image_data_def)
  ultimately show "parse_enrollment_image data = Inr (prior, v)"
    using a u l by (simp add: parse_enrollment_image_def d Let_def)
qed

lemma parse_operation_sound:
  assumes "parse_operation op flag data = Inr r"
  shows "identity_request_valid r \<and> op = request_op r \<and> flag = request_flag r \<and> data = request_data r"
  using assms
  by (auto simp: parse_operation_def result_iffs parse_enrollment_iff parse_embeddings_iff parse_image_iff
      split: if_splits dest!: sym [of "drop KEY_BYTES data"])

lemma parse_operation_complete:
  assumes "identity_request_valid r"
  shows "parse_operation (request_op r) (request_flag r) (request_data r) = Inr r"
proof (cases r)
  case (IR_Status k)
  with assms show ?thesis by (cases k) (simp_all add: parse_operation_def)
next
  case (IR_Extract prior img)
  with assms have "parse_enrollment_image (request_data r) = Inr (prior, img)" by (simp add: parse_enrollment_iff)
  with IR_Extract show ?thesis by (simp add: parse_operation_def wire_defs)
next
  case (IR_Commit key es)
  with assms have "parse_embeddings (embeddings_data es) = Inr es" by (simp add: parse_embeddings_iff)
  with IR_Commit assms show ?thesis by (simp add: parse_operation_def wire_defs embeddings_data_def)
next
  case (IR_Verify key img)
  with assms have "parse_image (image_data img) = Inr img" by (simp add: parse_image_iff)
  moreover have "image_data img \<noteq> []" by (simp add: image_data_def)
  ultimately show ?thesis using IR_Verify assms by (simp add: parse_operation_def wire_defs)
qed (use assms in \<open>auto simp: parse_operation_def wire_defs\<close>)

lemma identity_header_split:
  assumes "16 \<le> length payload"
  shows "payload = bslice 0 2 payload @ [payload ! 2, payload ! 3] @ bslice 4 12 payload @ bslice 12 16 payload @ drop 16 payload"
proof -
  have "bslice 2 4 payload = [payload ! 2, payload ! 3]" using assms by (simp add: bslice_nth_Cons)
  moreover have "payload = bslice 0 16 payload @ drop 16 payload" using bslice_drop [of 0 16 payload] by simp
  moreover have "bslice 0 16 payload = bslice 0 12 payload @ bslice 12 16 payload"
    "bslice 0 12 payload = bslice 0 4 payload @ bslice 4 12 payload"
    "bslice 0 4 payload = bslice 0 2 payload @ bslice 2 4 payload"
    by (rule bslice_split [symmetric]; simp)+
  ultimately show ?thesis by (metis append.assoc)
qed

definition parsed_valid :: "parsed_request \<Rightarrow> bool" where
  "parsed_valid p \<longleftrightarrow> pr_generation p \<noteq> 0 \<and> MIN_TIMEOUT_MS \<le> pr_timeout_ms p \<and> pr_timeout_ms p \<le> MAX_TIMEOUT_MS
     \<and> identity_request_valid (pr_request p)"

lemma request_generation_bytes: "12 \<le> length payload \<Longrightarrow> request_generation payload = u64_from_be (bslice 4 12 payload)"
  by (simp add: request_generation_def get_slice_def)

lemma parse_identity_request_complete:
  assumes "parsed_valid p"
  shows "parse_identity_request (identity_request_bytes p) = Inr p"
proof -
  define payload where "payload = identity_request_bytes p"
  let ?r = "pr_request p"
  have b: "payload = u16_be IDENTITY_PROTOCOL_VERSION @ [request_op ?r, request_flag ?r] @ u64_be (pr_generation p)
      @ u32_be (pr_timeout_ms p) @ request_data ?r"
    by (simp add: payload_def identity_request_bytes_def)
  have s: "bslice 0 2 payload = u16_be IDENTITY_PROTOCOL_VERSION" "bslice 4 12 payload = u64_be (pr_generation p)"
    "bslice 12 16 payload = u32_be (pr_timeout_ms p)" "drop 16 payload = request_data ?r" "16 \<le> length payload"
    "payload ! 2 = request_op ?r" "payload ! 3 = request_flag ?r"
    by (simp_all add: b nth_append)
  from assms have "parse_operation (request_op ?r) (request_flag ?r) (request_data ?r) = Inr ?r"
    by (simp add: parsed_valid_def parse_operation_complete)
  with assms s show ?thesis
    by (simp add: payload_def [symmetric] parse_identity_request_def request_generation_bytes COMMON_HEADER_BYTES_def parsed_valid_def Let_def not_less)
qed

text \<open>
  The identity worker accepts a frame exactly when it is the layout of a request within its bounds: the version,
  a nonzero generation, a timeout of 1 to 10000 milliseconds, keys of 32 bytes, at most eight normalized embeddings, an
  image that is consistent with its header, and not a byte more.
\<close>

theorem identity_request_exact:
  "parse_identity_request payload = Inr p \<longleftrightarrow> parsed_valid p \<and> payload = identity_request_bytes p"
proof
  assume a: "parse_identity_request payload = Inr p"
  then have l: "16 \<le> length payload" "u16_from_be (bslice 0 2 payload) = IDENTITY_PROTOCOL_VERSION"
    and p: "pr_generation p = u64_from_be (bslice 4 12 payload)" "pr_generation p \<noteq> 0"
      "pr_timeout_ms p = u32_from_be (bslice 12 16 payload)" "MIN_TIMEOUT_MS \<le> pr_timeout_ms p" "pr_timeout_ms p \<le> MAX_TIMEOUT_MS"
      "parse_operation (payload ! 2) (payload ! 3) (drop 16 payload) = Inr (pr_request p)"
    by (auto simp: parse_identity_request_def result_iffs Let_def COMMON_HEADER_BYTES_def request_generation_bytes split: if_splits)
  have v: "u16_be IDENTITY_PROTOCOL_VERSION = bslice 0 2 payload" using l be_to_from(1) [of "bslice 0 2 payload"] by simp
  show "parsed_valid p \<and> payload = identity_request_bytes p"
    using parse_operation_sound [OF p(6)] p identity_header_split [OF l(1)] l(1)
    by (simp add: parsed_valid_def identity_request_bytes_def v be_to_from)
next
  assume "parsed_valid p \<and> payload = identity_request_bytes p"
  then show "parse_identity_request payload = Inr p" by (simp add: parse_identity_request_complete)
qed

section \<open>Responses\<close>

definition response_header :: "u8 \<Rightarrow> u8 \<Rightarrow> u64 \<Rightarrow> bytes" where
  "response_header kind code generation = u16_be IDENTITY_PROTOCOL_VERSION @ [kind, code] @ u64_be generation"

definition encode_error :: "worker_error_code \<Rightarrow> u64 \<Rightarrow> bytes" where
  "encode_error code generation = response_header ID_RESPONSE_ERROR (worker_code code) generation"

definition encode_sample :: "u64 \<Rightarrow> embedding \<Rightarrow> bytes" where
  "encode_sample generation e = response_header RESPONSE_SAMPLE 0 generation @ concat (map u32_le (emb_values e))"

definition encode_ack :: "u64 \<Rightarrow> bytes" where
  "encode_ack generation = response_header RESPONSE_ACK 0 generation"

fun verification_code :: "verification_result \<Rightarrow> u8" where
  "verification_code Match = 1"
| "verification_code NoMatch = 2"
| "verification_code Ambiguous = 3"

definition encode_verification :: "u64 \<Rightarrow> verification_result \<Rightarrow> bytes" where
  "encode_verification generation result = response_header RESPONSE_VERIFICATION (verification_code result) generation"

definition encode_key :: "u64 \<Rightarrow> bytes \<Rightarrow> bytes" where
  "encode_key generation key = response_header RESPONSE_KEY 0 generation @ key"

end
