(* ===== verification/Identity_Worker.thy ===== *)
theory Identity_Worker
  imports Identity_Protocol Model_Loader Vault_Store
begin

text \<open>
  The identity worker (\<^verbatim>\<open>process_request_with_cache\<close>, \<^verbatim>\<open>serve_once\<close> and \<^verbatim>\<open>serve_session\<close> of \<^verbatim>\<open>engine/identity/src/lib.rs\<close>):
  the operations on the user's vault over frames, with the networks cached across a session. The properties: every
  valid request is answered, with its generation and within the bounds of a response; and what the positive answers certify.
\<close>

section \<open>Surroundings\<close>

definition DUPLICATE_COSINE_THRESHOLD :: fl where "DUPLICATE_COSINE_THRESHOLD = lit64 (995 / 1000)"

record worker_env =
  we_vars :: "string \<Rightarrow> string option"
  we_vision :: vision_native
  we_listing :: listing
  we_vault :: vault_env
  we_clock :: "nat \<Rightarrow> nat"
  we_random :: "crypto_error + bytes"

abbreviation we_native :: "worker_env \<Rightarrow> native" where
  "we_native env \<equiv> ve_native (we_vault env)"

text \<open>\<^verbatim>\<open>Vault::production\<close>: the vault of the calling user below the XDG data directory.\<close>

definition vault_production :: "(string \<Rightarrow> string option) \<Rightarrow> u32 \<Rightarrow> vault_error + vault" where
  "vault_production vars uid =
     rbind (case vars ''XDG_DATA_HOME'' of
              Some p \<Rightarrow> if is_absolute p then Inr p else Inl V_Unavailable
            | None \<Rightarrow>
                (case vars ''HOME'' of
                   Some h \<Rightarrow> if is_absolute h then Inr (join h ''.local/share'') else Inl V_Unavailable
                 | None \<Rightarrow> Inl V_Unavailable)) (\<lambda>base.
     Inr \<lparr>v_root = join base PRODUCT_DIRECTORY, v_uid = uid, v_kind = UserSession\<rparr>)"

section \<open>Errors and answers\<close>

definition map_load_error :: "identity_load_error \<Rightarrow> worker_error_code" where
  "map_load_error e = IW_ModelUnavailable"

fun map_identity_error :: "identity_error \<Rightarrow> worker_error_code" where
  "map_identity_error ID_Cancelled = IW_Cancelled"
| "map_identity_error ID_DeadlineExceeded = IW_DeadlineExceeded"
| "map_identity_error ID_NoFace = IW_NoFace"
| "map_identity_error ID_MultipleFaces = IW_MultipleFaces"
| "map_identity_error ID_PoorQuality = IW_PoorQuality"
| "map_identity_error ID_FaceGeometry = IW_FaceGeometry"
| "map_identity_error ID_LivenessUnavailable = IW_InternalFailure"
| "map_identity_error (ID_SpoofDetected _) = IW_SpoofDetected"
| "map_identity_error ID_InvalidEmbedding = IW_InternalFailure"
| "map_identity_error (ID_Runtime _) = IW_InternalFailure"

text \<open>\<open>V_Panic\<close> is not an error of the source, and has no code.\<close>

fun map_vault_error :: "vault_error \<Rightarrow> worker_error_code option" where
  "map_vault_error V_NotFound = Some IW_NoProfile"
| "map_vault_error (V_Crypto _) = Some IW_VaultCorrupt"
| "map_vault_error V_Corrupt = Some IW_VaultCorrupt"
| "map_vault_error V_UnknownSchema = Some IW_VaultCorrupt"
| "map_vault_error V_WrongUid = Some IW_VaultCorrupt"
| "map_vault_error V_InvalidEmbedding = Some IW_VaultCorrupt"
| "map_vault_error V_ModelMismatch = Some IW_ModelMismatch"
| "map_vault_error V_ProfileBounds = Some IW_ProfileBounds"
| "map_vault_error (V_KeyProvider _) = Some IW_KeyUnavailable"
| "map_vault_error (V_Io _) = Some IW_InternalFailure"
| "map_vault_error V_Unavailable = Some IW_InternalFailure"
| "map_vault_error V_UnsafeFilesystem = Some IW_InternalFailure"
| "map_vault_error V_LockTimeout = Some IW_InternalFailure"
| "map_vault_error V_Oversized = Some IW_InternalFailure"
| "map_vault_error V_Panic = None"

definition encode_identity_status :: "u64 \<Rightarrow> vault_state \<Rightarrow> bytes" where
  "encode_identity_status generation status =
     (case (case status of
              VS_Absent \<Rightarrow> (0, 0)
            | VS_Ready summary \<Rightarrow> (1, summary_count summary)
            | VS_Corrupt \<Rightarrow> (2, 0)
            | VS_ModelMismatch \<Rightarrow> (3, 0)
            | VS_Unavailable \<Rightarrow> (4, 0)) of
        (st, n) \<Rightarrow> response_header ID_RESPONSE_STATUS st generation @ [n])"

definition vault_reply :: "u64 \<Rightarrow> vault_error + bytes \<Rightarrow> bytes option" where
  "vault_reply g r = (case r of Inr bs \<Rightarrow> Some bs | Inl e \<Rightarrow> map_option (\<lambda>code. encode_error code g) (map_vault_error e))"

section \<open>Processing a request\<close>

definition get_provider ::
    "worker_env \<Rightarrow> string \<Rightarrow> identity_provider option \<Rightarrow> world \<Rightarrow> (identity_load_error + identity_provider) \<times> identity_provider option \<times> world" where
  "get_provider env model_root cache w =
     (case cache of
        Some prov \<Rightarrow> (Inr prov, cache, w)
      | None \<Rightarrow>
          (case identity_from_model_root (we_vision env) (we_native env) (we_listing env) model_root w of
             (Inl e, w') \<Rightarrow> (Inl e, None, w')
           | (Inr prov, w') \<Rightarrow> (Inr prov, Some prov, w')))"

text \<open>An operation on the production vault that does not touch the networks.\<close>

definition on_vault :: "worker_env \<Rightarrow> u64 \<Rightarrow> (vault \<Rightarrow> (vault_error, bytes) io) \<Rightarrow> world \<Rightarrow> bytes option \<times> world" where
  "on_vault env g act w =
     (case vault_production (we_vars env) (euid w) of
        Inl e \<Rightarrow> (vault_reply g (Inl e), w)
      | Inr v \<Rightarrow> (case act v w of (r, w') \<Rightarrow> (vault_reply g r, w')))"

definition worker_control :: "worker_env \<Rightarrow> u32 \<Rightarrow> control" where
  "worker_control env timeout_ms =
     \<lparr>ctl_deadline = we_clock env 0 + unat timeout_ms * MILLISECOND, ctl_cancelled = (\<lambda>_. False), ctl_clock = we_clock env\<rparr>"

definition status_io :: "native \<Rightarrow> vault \<Rightarrow> bytes option \<Rightarrow> (vault_error, vault_state) io" where
  "status_io nv v key w = (case vault_status nv v key w of (s, w') \<Rightarrow> (Inr s, w'))"

definition acknowledge :: "u64 \<Rightarrow> (vault_error, unit) io \<Rightarrow> (vault_error, bytes) io" where
  "acknowledge g act = wbind act (\<lambda>_. wreturn (encode_ack g))"

definition is_duplicate :: "embedding list \<Rightarrow> embedding \<Rightarrow> bool" where
  "is_duplicate prior sample \<longleftrightarrow>
     list_ex (\<lambda>existing. f64_le DUPLICATE_COSINE_THRESHOLD (cosine_similarity existing sample)) prior"

text \<open>The answer, the cache and the world after the request; no answer is a panic.\<close>

fun process_operation ::
    "worker_env \<Rightarrow> string \<Rightarrow> u64 \<Rightarrow> control \<Rightarrow> identity_request \<Rightarrow> identity_provider option \<Rightarrow> world
      \<Rightarrow> bytes option \<times> identity_provider option \<times> world" where
  "process_operation env dir g c (IR_Status key) cache w =
     (case get_provider env dir cache w of
        (Inl e, cache', w1) \<Rightarrow> (Some (encode_error (map_load_error e) g), cache', w1)
      | (Inr _, cache', w1) \<Rightarrow>
          (case on_vault env g (\<lambda>v. wbind (status_io (we_native env) v key) (\<lambda>s. wreturn (encode_identity_status g s))) w1 of
             (r, w2) \<Rightarrow> (r, cache', w2)))"
| "process_operation env dir g c (IR_Extract prior img) cache w =
     (case get_provider env dir cache w of
        (Inl e, cache', w1) \<Rightarrow> (Some (encode_error (map_load_error e) g), cache', w1)
      | (Inr prov, cache', w1) \<Rightarrow>
          (case extract_embedding (we_vision env) prov img c 1 LocalProfile of
             None \<Rightarrow> (None, cache', w1)
           | Some (Inr (sample, _)) \<Rightarrow>
               (Some (if is_duplicate prior sample then encode_error IW_DuplicateSample g else encode_sample g sample), cache', w1)
           | Some (Inl e) \<Rightarrow> (Some (encode_error (map_identity_error e) g), cache', w1)))"
| "process_operation env dir g c (IR_Commit key es) cache w =
     (case profile_new es of
        None \<Rightarrow> (vault_reply g (Inl V_ProfileBounds), cache, w)
      | Some p \<Rightarrow>
          (case on_vault env g (\<lambda>v. acknowledge g (commit_profile (we_vault env) v key p)) w of
             (r, w') \<Rightarrow> (r, cache, w')))"
| "process_operation env dir g c (IR_Summary key) cache w =
     (case on_vault env g (\<lambda>v. wbind (status_io (we_native env) v (Some key)) (\<lambda>s. wreturn (encode_identity_status g s))) w of
        (r, w') \<Rightarrow> (r, cache, w'))"
| "process_operation env dir g c (IR_Verify key img) cache w =
     (case vault_production (we_vars env) (euid w) of
        Inl e \<Rightarrow> (vault_reply g (Inl e), cache, w)
      | Inr v \<Rightarrow>
          (case open_profile (we_native env) v key w of
             (Inl e, w1) \<Rightarrow> (vault_reply g (Inl e), cache, w1)
           | (Inr p, w1) \<Rightarrow>
               (case get_provider env dir cache w1 of
                  (Inl e, cache', w2) \<Rightarrow> (Some (encode_error (map_load_error e) g), cache', w2)
                | (Inr prov, cache', w2) \<Rightarrow>
                    (case extract_embedding (we_vision env) prov img c 1 LocalProfile of
                       None \<Rightarrow> (None, cache', w2)
                     | Some (Inr (candidate, _)) \<Rightarrow> (Some (encode_verification g (verify p candidate)), cache', w2)
                     | Some (Inl e) \<Rightarrow> (Some (encode_error (map_identity_error e) g), cache', w2)))))"
| "process_operation env dir g c (IR_Delete key) cache w =
     (case on_vault env g (\<lambda>v. acknowledge g (delete_profile (we_vault env) v key)) w of (r, w') \<Rightarrow> (r, cache, w'))"
| "process_operation env dir g c (IR_Rotate old_key new_key) cache w =
     (case on_vault env g (\<lambda>v. acknowledge g (rotate_key (we_vault env) v old_key new_key)) w of (r, w') \<Rightarrow> (r, cache, w'))"
| "process_operation env dir g c (IR_Validate key) cache w =
     (case on_vault env g (\<lambda>v. wbind (validate_integrity (we_native env) v key) (\<lambda>s.
          wreturn (encode_identity_status g (VS_Ready s)))) w of
        (r, w') \<Rightarrow> (r, cache, w'))"
| "process_operation env dir g c IR_ResetUnreadable cache w =
     (case on_vault env g (\<lambda>v. acknowledge g (reset_unreadable (we_vault env) v)) w of (r, w') \<Rightarrow> (r, cache, w'))"
| "process_operation env dir g c IR_GenerateKey cache w =
     (vault_reply g (case we_random env of Inl e \<Rightarrow> Inl (V_Crypto e) | Inr key \<Rightarrow> Inr (encode_key g key)), cache, w)"

definition process_request_with_cache ::
    "worker_env \<Rightarrow> string \<Rightarrow> parsed_request \<Rightarrow> identity_provider option \<Rightarrow> world
      \<Rightarrow> bytes option \<times> identity_provider option \<times> world" where
  "process_request_with_cache env dir request cache w =
     process_operation env dir (pr_generation request) (worker_control env (pr_timeout_ms request)) (pr_request request) cache w"

definition answer_payload ::
    "worker_env \<Rightarrow> string \<Rightarrow> bytes \<Rightarrow> identity_provider option \<Rightarrow> world \<Rightarrow> bytes option \<times> identity_provider option \<times> world" where
  "answer_payload env dir payload cache w =
     (case parse_identity_request payload of
        Inr request \<Rightarrow> process_request_with_cache env dir request cache w
      | Inl f \<Rightarrow> (Some (encode_error (rf_code f) (rf_generation f)), cache, w))"

section \<open>Serving\<close>

datatype identity_worker_error = IWE_Io io_kind | IWE_EmptyFrame | IWE_FrameTooLarge | IWE_TrailingData

fun worker_error_from :: "frame_error \<Rightarrow> identity_worker_error" where
  "worker_error_from (Frame_Io k) = IWE_Io k"
| "worker_error_from EmptyFrame = IWE_EmptyFrame"
| "worker_error_from (FrameTooLarge _ _) = IWE_FrameTooLarge"
| "worker_error_from TrailingData = IWE_TrailingData"

text \<open>The result, the output and the world; no result is a panic.\<close>

definition identity_serve_once ::
    "worker_env \<Rightarrow> string \<Rightarrow> reader \<Rightarrow> writer \<Rightarrow> world \<Rightarrow> (identity_worker_error + unit) option \<times> writer \<times> world" where
  "identity_serve_once env dir rd wr w =
     (case read_frame rd MAX_IDENTITY_REQUEST_BYTES of
        (Inl e, _) \<Rightarrow> (Some (Inl (worker_error_from e)), wr, w)
      | (Inr payload, rd') \<Rightarrow>
          (case require_eof rd' of
             (Inl e, _) \<Rightarrow> (Some (Inl (worker_error_from e)), wr, w)
           | (Inr _, _) \<Rightarrow>
               (case answer_payload env dir payload None w of
                  (None, _, w') \<Rightarrow> (None, wr, w')
                | (Some response, _, w') \<Rightarrow>
                    (case write_frame wr response MAX_IDENTITY_RESPONSE_BYTES of
                       (r, wr') \<Rightarrow> (Some (map_err worker_error_from r), wr', w')))))"

text \<open>\<open>env i\<close> are the surroundings of the \<open>i\<close>-th request.\<close>

function identity_serve_session ::
    "(nat \<Rightarrow> worker_env) \<Rightarrow> nat \<Rightarrow> string \<Rightarrow> identity_provider option \<Rightarrow> reader \<Rightarrow> writer \<Rightarrow> world
      \<Rightarrow> (identity_worker_error + unit) option \<times> writer \<times> world" where
  "identity_serve_session env i dir cache rd wr w =
     (case read_frame_or_eof rd MAX_IDENTITY_REQUEST_BYTES of
        (Inl e, _) \<Rightarrow> (Some (Inl (worker_error_from e)), wr, w)
      | (Inr None, _) \<Rightarrow> (Some (Inr ()), wr, w)
      | (Inr (Some payload), rd') \<Rightarrow>
          (case answer_payload (env i) dir payload cache w of
             (None, _, w') \<Rightarrow> (None, wr, w')
           | (Some response, cache', w') \<Rightarrow>
               (case write_frame wr response MAX_IDENTITY_RESPONSE_BYTES of
                  (Inl e, wr') \<Rightarrow> (Some (Inl (worker_error_from e)), wr', w')
                | (Inr _, wr') \<Rightarrow> identity_serve_session env (Suc i) dir cache' rd' wr' w')))"
  by pat_completeness auto
termination
  by (relation "measure (\<lambda>(env, i, dir, cache, rd, wr, w). reader_size rd)")
    (auto dest!: sym [of _ "read_frame_or_eof _ _"] dest: read_frame_or_eof_less)

declare identity_serve_session.simps [simp del]

section \<open>Errors that do not occur\<close>

definition never :: "'e \<Rightarrow> ('e, 'a) io \<Rightarrow> bool" where
  "never e m \<longleftrightarrow> (\<forall>w. fst (m w) \<noteq> Inl e)"

named_theorems never_rules \<open>actions that do not fail with an error\<close>

lemma neverD: "never e m \<Longrightarrow> m w = (r, w') \<Longrightarrow> r \<noteq> Inl e"
  by (metis never_def fst_conv)

lemma never_wreturn [never_rules]: "never e (wreturn x)"
  by (simp add: never_def wreturn_def)

lemma never_wfail [never_rules]: "d \<noteq> e \<Longrightarrow> never e (wfail d)"
  by (simp add: never_def wfail_def)

lemma never_wlift: "r \<noteq> Inl e \<Longrightarrow> never e (wlift r)"
  by (simp add: never_def wlift_def)

lemma never_wbind [never_rules]: "never e m \<Longrightarrow> (\<And>x. never e (f x)) \<Longrightarrow> never e (wbind m f)"
  by (auto simp: never_def wbind_def split: prod.split sum.split) (metis fst_conv)

lemma never_lifted: "r \<noteq> Inl e \<Longrightarrow> (\<And>x. r = Inr x \<Longrightarrow> never e (f x)) \<Longrightarrow> never e (wbind (wlift r) f)"
  by (cases r) (simp_all add: never_def wbind_def wlift_def)

lemma never_wmap_err [never_rules]: "(\<And>k. g k \<noteq> e) \<Longrightarrow> never e (wmap_err g m)"
  by (auto simp: never_def wmap_err_def map_err_def split: prod.split sum.split)

lemma never_wfinally [never_rules]: "never e m \<Longrightarrow> never e (wfinally m c)"
  by (auto simp: never_def wfinally_def split: prod.split) (metis fst_conv)

lemma never_wcleanup [never_rules]: "never e m \<Longrightarrow> never e (wcleanup m c)"
  by (auto simp: never_def wcleanup_def split: prod.split sum.split) (metis fst_conv)

lemma never_if [never_rules]: "(b \<Longrightarrow> never e m) \<Longrightarrow> (\<not> b \<Longrightarrow> never e n) \<Longrightarrow> never e (if b then m else n)"
  by simp

lemma never_wif [never_rules]: "never e m \<Longrightarrow> never e n \<Longrightarrow> never e (\<lambda>w. if b w then m w else n w)"
  by (simp add: never_def)

lemma io_vault_error_no_panic [never_rules]: "io_vault_error k \<noteq> V_Panic"
  by (simp add: io_vault_error_def)

lemma decode_profile_no_panic: "decode_profile bs uid \<noteq> Inl V_Panic"
proof -
  have t: "cur_take n s \<noteq> Inl V_Panic" for n s by (simp add: cur_take_def)
  then have u: "cur_u8 s \<noteq> Inl V_Panic" "cur_u16 s \<noteq> Inl V_Panic" "cur_u32 s \<noteq> Inl V_Panic" for s
    by (auto simp: cur_u8_def cur_u16_def cur_u32_def rbind_eq_Inl)
  then have e: "expect_string x s \<noteq> Inl V_Panic" for x s using t by (auto simp: expect_string_def cur_string_def rbind_eq_Inl)
  have v: "read_values n s \<noteq> Inl V_Panic" for n s using t by (induction n s rule: read_values.induct) (auto simp: rbind_eq_Inl)
  have s: "read_samples n s \<noteq> Inl V_Panic" for n s
    using v by (induction n s rule: read_samples.induct) (auto simp: rbind_eq_Inl map_err_def split: sum.splits)
  have "decode_identity s \<noteq> Inl V_Panic" for s using e u by (auto simp: decode_identity_def rbind_eq_Inl)
  then show ?thesis using t u s
    by (auto simp: decode_profile_def rbind_eq_Inl Let_def ok_or_def split: option.splits)
qed

lemma decode_vault_no_panic: "decode_vault nv bs key uid \<noteq> Inl V_Panic"
  using decode_profile_no_panic by (auto simp: decode_vault_def rbind_eq_Inl Let_def map_err_def split: sum.splits)

lemma decode_vault_bounded: "decode_vault nv bs key uid = Inr p \<Longrightarrow> sample_count p \<le> 8"
  by (auto simp: decode_vault_iff decode_profile_def result_iffs Let_def profile_new_def sample_count_def
      MAXIMUM_PROFILE_SAMPLES_def split: if_splits)

lemma encode_vault_no_panic: "sample_count p \<le> 255 \<Longrightarrow> encode_vault nv nonce p key uid \<noteq> Inl V_Panic"
  by (auto simp: encode_vault_def encode_profile_def push_string_def rbind_eq_Inl Let_def map_err_def split: sum.splits if_splits)

lemma map_err_V_Crypto_no_panic: "map_err V_Crypto r \<noteq> Inl V_Panic"
  by (cases r) auto

lemmas never_crypto [never_rules] = decode_vault_no_panic [THEN never_wlift] map_err_V_Crypto_no_panic [THEN never_wlift]

text \<open>The clock passes the deadline of the lock within the rounds that the model allows it.\<close>

definition lock_bounded :: "vault_env \<Rightarrow> bool" where
  "lock_bounded env \<longleftrightarrow> (\<exists>i < ve_fuel env. ve_clock env 0 + LOCK_TIMEOUT \<le> ve_clock env (Suc i))"

lemma lock_created_no_panic: "never V_Panic (lock_created v)"
proof -
  have "never V_Panic (\<lambda>w. (Inl V_UnsafeFilesystem, snd (remove_file (lock_path v) w)) :: (vault_error + unit) \<times> world)"
    by (simp add: never_def)
  then show ?thesis unfolding lock_created_def by (intro never_rules) simp_all
qed

lemma lock_loop_returns:
  "\<exists>j < fuel. deadline \<le> clock (i + j) \<Longrightarrow> fst (lock_loop fuel clock i deadline v w) \<noteq> Inl V_Panic"
proof (induction fuel arbitrary: i w)
  case (Suc fuel)
  obtain r w1 where c: "create_new (lock_path v) (file_mode (v_kind v)) w = (r, w1)" by fastforce
  show ?case
  proof (cases "r = Inl AlreadyExists \<and> clock i < deadline")
    case True
    obtain j where j: "j < Suc fuel" "deadline \<le> clock (i + j)" using Suc.prems by blast
    with True obtain k where "j = Suc k" by (cases j) auto
    with j have "\<exists>k < fuel. deadline \<le> clock (Suc i + k)" by auto
    from Suc.IH [OF this] True c show ?thesis by simp
  next
    case False
    then show ?thesis using c lock_created_no_panic [of v]
      by (auto simp: wfail_def never_def split: sum.splits if_splits)
  qed
qed simp

lemma validate_no_panic [never_rules]:
  "never V_Panic (validate_directory p uid kind)" "never V_Panic (validate_secure_path p uid kind)"
  "never V_Panic (read_secure_file p uid kind)"
  unfolding validate_directory_def validate_secure_path_def read_secure_file_def by (intro never_rules; simp)+

lemma with_lock_no_panic:
  assumes "lock_bounded env" "never V_Panic body"
  shows "never V_Panic (with_lock env v body)"
proof -
  have "never V_Panic (lock_loop (ve_fuel env) (ve_clock env) 1 (ve_clock env 0 + LOCK_TIMEOUT) v)"
    using assms(1) by (auto simp: never_def lock_bounded_def intro!: lock_loop_returns)
  then show ?thesis unfolding with_lock_def lock_acquire_def by (intro never_rules assms(2))
qed

lemma write_verified_no_panic [never_rules]: "never V_Panic (write_verified_atomic env dir path bs key uid kind)"
  unfolding write_verified_atomic_def stage_verified_def sync_directory_def Let_def by (intro never_rules; simp)

lemma open_profile_no_panic: "never V_Panic (open_profile nv v key)"
proof -
  have "never V_Panic (case x of (p, d) \<Rightarrow> wreturn p)" for x :: "profile \<times> bytes" by (cases x) (simp add: never_wreturn)
  then show ?thesis unfolding open_profile_def open_profile_snapshot_def by (intro never_rules; simp?)
qed

lemma ensure_directory_no_panic: "never V_Panic (ensure_directory p uid kind)"
proof -
  let ?make = "wbind (wmap_err io_vault_error (mkdir_all p (dir_mode kind))) (\<lambda>_.
      wbind (if kind = System then wbind (wmap_err (\<lambda>_. V_UnsafeFilesystem) (open_nofollow p)) (\<lambda>_.
               wmap_err (\<lambda>_. V_UnsafeFilesystem) (set_fd_permissions p 0 (dir_mode kind) ''kfaceauth'')) else wreturn ())
        (\<lambda>_. validate_directory p uid kind))"
  have "never V_Panic ?make" by (intro never_rules; simp)
  then show ?thesis using validate_no_panic(1) [of p uid kind]
    by (auto simp: never_def ensure_directory_def split: prod.split bool.split)
qed

lemma check_existing_no_panic: "never V_Panic (check_existing nv v key)"
proof -
  have "never V_Panic (wbind (read_secure_file (vault_path v) (v_uid v) (v_kind v)) (\<lambda>bs.
      wbind (wlift (decode_vault nv bs key (v_uid v))) (\<lambda>_. wreturn ())))"
    by (intro never_rules)
  then show ?thesis by (auto simp: never_def check_existing_def wreturn_def split: prod.split bool.split)
qed

lemma vault_operations_return:
  assumes "lock_bounded env"
  shows "sample_count p \<le> 255 \<Longrightarrow> never V_Panic (commit_profile env v key p)"
    and "never V_Panic (rotate_key env v old_key new_key)"
    and "never V_Panic (delete_profile env v key)"
    and "never V_Panic (reset_unreadable env v)"
    and "never V_Panic (validate_integrity nv v key)"
proof -
  show "never V_Panic (commit_profile env v key p)" if "sample_count p \<le> 255"
    unfolding commit_profile_def
    by (rule never_wbind [OF ensure_directory_no_panic], intro with_lock_no_panic assms, rule never_wbind [OF check_existing_no_panic],
        intro never_lifted encode_vault_no_panic [OF that] write_verified_no_panic)
  have "never V_Panic (wbind (wlift (encode_vault (ve_native env) (ve_nonce env) q new_key (v_uid v))) (\<lambda>new_bytes.
      write_verified_atomic env (v_root v) (vault_path v) new_bytes new_key (v_uid v) (v_kind v)))"
    if "decode_vault (ve_native env) bs old_key (v_uid v) = Inr q" for q bs
    using decode_vault_bounded [OF that] by (intro never_lifted encode_vault_no_panic write_verified_no_panic) simp
  note encode = this
  show "never V_Panic (rotate_key env v old_key new_key)"
    unfolding rotate_key_def
    by (rule never_wbind [OF validate_no_panic(1)], rule with_lock_no_panic [OF assms], rule never_wbind [OF validate_no_panic(3)],
        rule never_lifted [OF decode_vault_no_panic], erule encode)
  show "never V_Panic (delete_profile env v key)" "never V_Panic (reset_unreadable env v)"
    unfolding delete_profile_def reset_unreadable_def sync_directory_def
    by (intro with_lock_no_panic assms never_rules; simp)+
  show "never V_Panic (validate_integrity nv v key)"
    unfolding validate_integrity_def by (intro never_rules open_profile_no_panic) simp
qed

section \<open>Every request is answered\<close>

text \<open>An answer to the request of a generation: a header with that generation and a body within its bounds.\<close>

definition response_to :: "u64 \<Rightarrow> bytes \<Rightarrow> bool" where
  "response_to g bs \<longleftrightarrow> (\<exists>kind code body. bs = response_header kind code g @ body \<and> length body \<le> EMBEDDING_DIMENSION * 4)"

lemma response_to_body: "length body \<le> EMBEDDING_DIMENSION * 4 \<Longrightarrow> response_to g (response_header kind code g @ body)"
  by (auto simp: response_to_def)

lemmas response_toI = response_to_body response_to_body [of "[]", simplified]

lemma response_to_intros:
  "response_to g (encode_error code g)" "response_to g (encode_ack g)" "response_to g (encode_verification g r)"
  "response_to g (encode_identity_status g s)" "length key \<le> EMBEDDING_DIMENSION * 4 \<Longrightarrow> response_to g (encode_key g key)"
  "embedding_wf e \<Longrightarrow> response_to g (encode_sample g e)"
  by (auto simp: encode_error_def encode_ack_def encode_verification_def encode_identity_status_def encode_key_def
      encode_sample_def length_u32_le_concat embedding_wf_def EMBEDDING_DIMENSION_def
      split: vault_state.split prod.split intro!: response_toI)

lemma response_to_bounds: "response_to g bs \<Longrightarrow> bs \<noteq> [] \<and> length bs \<le> MAX_IDENTITY_RESPONSE_BYTES \<and> bslice 4 12 bs = u64_be g"
  by (auto simp: response_to_def response_header_def MAX_IDENTITY_RESPONSE_BYTES_def)

lemma map_vault_error_None: "map_vault_error e = None \<longleftrightarrow> e = V_Panic"
  by (cases e) auto

lemma vault_reply_answers:
  "r \<noteq> Inl V_Panic \<Longrightarrow> (\<And>bs. r = Inr bs \<Longrightarrow> response_to g bs) \<Longrightarrow> \<exists>bs. vault_reply g r = Some bs \<and> response_to g bs"
  by (cases r) (auto simp: vault_reply_def response_to_intros(1) map_vault_error_None [symmetric])

definition answered :: "u64 \<Rightarrow> bytes option \<times> identity_provider option \<times> world \<Rightarrow> bool" where
  "answered g out \<longleftrightarrow> (\<exists>bs. fst out = Some bs \<and> response_to g bs)"

lemma answered_Some [simp]: "answered g (Some bs, cache, w) \<longleftrightarrow> response_to g bs"
  by (simp add: answered_def)

lemma vault_reply_answered:
  "r \<noteq> Inl V_Panic \<Longrightarrow> (\<And>bs. r = Inr bs \<Longrightarrow> response_to g bs) \<Longrightarrow> answered g (vault_reply g r, cache, w)"
  using vault_reply_answers [of r g] by (auto simp: answered_def)

lemma production_no_panic: "vault_production vars uid \<noteq> Inl V_Panic"
  by (auto simp: vault_production_def rbind_eq_Inl split: option.splits if_splits)

lemma on_vault_answered:
  assumes "\<And>v. never V_Panic (act v)" "\<And>v w bs w'. act v w = (Inr bs, w') \<Longrightarrow> response_to g bs"
  shows "answered g (case on_vault env g act w of (r, w') \<Rightarrow> (r, cache, w'))"
proof (cases "vault_production (we_vars env) (euid w)")
  case (Inl e)
  with production_no_panic [of "we_vars env" "euid w"] show ?thesis
    by (simp add: on_vault_def) (rule vault_reply_answered, auto)
next
  case (Inr v)
  obtain r w' where r: "act v w = (r, w')" by fastforce
  have "answered g (vault_reply g r, cache, w')"
    using neverD [OF assms(1) r] assms(2) r by (intro vault_reply_answered) auto
  with Inr r show ?thesis by (simp add: on_vault_def)
qed

lemma acknowledge_answered:
  assumes "\<And>v. never V_Panic (act v)"
  shows "answered g (case on_vault env g (\<lambda>v. acknowledge g (act v)) w of (r, w') \<Rightarrow> (r, cache, w'))"
  using assms by (intro on_vault_answered) (auto simp: acknowledge_def io_success response_to_intros(2) intro!: never_rules)

lemma status_answered:
  "answered g (case on_vault env g (\<lambda>v. wbind (status_io nv v key) (\<lambda>s. wreturn (encode_identity_status g s))) w of
     (r, w') \<Rightarrow> (r, cache, w'))"
  by (rule on_vault_answered)
    (auto simp: never_def status_io_def wbind_def wreturn_def response_to_intros(4) split: prod.splits)

lemma local_extract_total:
  assumes "view_wf img"
  obtains e j where "extract_embedding vn prov img c i LocalProfile = Some (Inr (e, j))" "embedding_wf e"
  | e where "extract_embedding vn prov img c i LocalProfile = Some (Inl e)"
proof -
  have "extract_embedding vn prov img c i LocalProfile \<noteq> None"
    using no_panic_extract [OF assms] by (simp add: no_panic_def)
  then obtain r where r: "extract_embedding vn prov img c i LocalProfile = Some r" by blast
  show thesis
  proof (cases r)
    case (Inr x)
    then obtain e j where e: "extract_embedding vn prov img c i LocalProfile = Some (Inr (e, j))" using r by (cases x) simp
    then have "embedding_wf e"
      by (auto simp: extract_embedding_def cbind_eq_Some_Inr split: if_splits dest: features_of_Inr(1))
    with e show thesis by (rule that(1))
  qed (use r that(2) in simp)
qed

lemma process_answered:
  assumes "identity_request_valid req" "lock_bounded (we_vault env)" "\<And>key. we_random env = Inr key \<Longrightarrow> length key = KEY_BYTES"
  shows "answered g (process_operation env dir g c req cache w)"
proof (cases req)
  case (IR_Status key)
  obtain r cache' w1 where g: "get_provider env dir cache w = (r, cache', w1)" by (cases "get_provider env dir cache w") auto
  then show ?thesis by (cases r) (simp_all add: IR_Status response_to_intros(1) status_answered)
next
  case (IR_Summary key)
  then show ?thesis by (simp add: status_answered)
next
  case (IR_Commit key es)
  show ?thesis
  proof (cases "profile_new es")
    case (Some p)
    then have "sample_count p \<le> 255"
      by (auto simp: profile_new_def sample_count_def MAXIMUM_PROFILE_SAMPLES_def split: if_splits)
    with Some show ?thesis
      using vault_operations_return(1) [OF assms(2)] by (auto simp: IR_Commit intro!: acknowledge_answered)
  qed (auto simp: IR_Commit intro!: vault_reply_answered)
next
  case (IR_Extract prior img)
  obtain r cache' w1 where g: "get_provider env dir cache w = (r, cache', w1)" by (cases "get_provider env dir cache w") auto
  have wf: "view_wf img" using assms(1) by (simp add: IR_Extract sendable_def)
  show ?thesis
  proof (cases r)
    case (Inr prov)
    show ?thesis
      by (rule local_extract_total [OF wf, of "we_vision env" prov c 1])
        (simp_all add: IR_Extract g Inr response_to_intros)
  qed (simp add: IR_Extract g response_to_intros)
next
  case (IR_Verify key img)
  have wf: "view_wf img" using assms(1) by (simp add: IR_Verify sendable_def)
  show ?thesis
  proof (cases "vault_production (we_vars env) (euid w)")
    case (Inl e)
    with production_no_panic [of "we_vars env" "euid w"] show ?thesis by (simp add: IR_Verify) (rule vault_reply_answered, auto)
  next
    case v: (Inr v)
    obtain r w1 where o: "open_profile (we_native env) v key w = (r, w1)" by fastforce
    obtain l cache' w2 where g: "get_provider env dir cache w1 = (l, cache', w2)" by (cases "get_provider env dir cache w1") auto
    show ?thesis
    proof (cases r)
      case (Inl e)
      with neverD [OF open_profile_no_panic o] v o show ?thesis by (auto simp: IR_Verify intro!: vault_reply_answered)
    next
      case p: (Inr p)
      show ?thesis
      proof (cases l)
        case (Inr prov)
        show ?thesis
          by (rule local_extract_total [OF wf, of "we_vision env" prov c 1])
            (simp_all add: IR_Verify v o p g Inr response_to_intros)
      qed (simp add: IR_Verify v o p g response_to_intros)
    qed
  qed
next
  case (IR_Validate key)
  show ?thesis
    by (auto simp: IR_Validate io_success response_to_intros(4)
        intro!: on_vault_answered never_rules vault_operations_return(5) [OF assms(2)])
next
  case IR_GenerateKey
  show ?thesis
    using assms(3) by (auto simp: IR_GenerateKey KEY_BYTES_def EMBEDDING_DIMENSION_def split: sum.split
        intro!: vault_reply_answered response_to_intros(5))
qed (auto intro!: acknowledge_answered vault_operations_return assms(2))

lemma parsed_generation:
  "parse_identity_request payload = Inr p \<Longrightarrow> pr_generation p = request_generation payload \<and> identity_request_valid (pr_request p)"
  "parse_identity_request payload = Inl f \<Longrightarrow> rf_generation f = request_generation payload"
  by (auto simp: parse_identity_request_def result_iffs Let_def map_err_def dest: parse_operation_sound
      split: if_splits sum.splits)

definition worker_ready :: "worker_env \<Rightarrow> bool" where
  "worker_ready env \<longleftrightarrow> lock_bounded (we_vault env) \<and> (\<forall>key. we_random env = Inr key \<longrightarrow> length key = KEY_BYTES)"

lemma payload_answered:
  assumes "worker_ready env"
  shows "answered (request_generation payload) (answer_payload env dir payload cache w)"
proof (cases "parse_identity_request payload")
  case (Inl f)
  then show ?thesis using parsed_generation(2) [OF Inl] response_to_intros(1) by (simp add: answer_payload_def)
next
  case (Inr p)
  then show ?thesis using parsed_generation(1) [OF Inr] assms process_answered [of "pr_request p" env]
    by (simp add: answer_payload_def process_request_with_cache_def worker_ready_def)
qed

lemma identity_session_returns:
  "(\<And>j. worker_ready (env j)) \<Longrightarrow> fst (identity_serve_session env i dir cache rd wr w) \<noteq> None"
proof (induction env i dir cache rd wr w rule: identity_serve_session.induct)
  case (1 env i dir cache rd wr w)
  obtain x rd' where rd: "read_frame_or_eof rd MAX_IDENTITY_REQUEST_BYTES = (x, rd')" by fastforce
  show ?case
  proof (cases "\<exists>payload. x = Inr (Some payload)")
    case True
    then obtain payload where x: "x = Inr (Some payload)" by blast
    obtain o' cache' w' where a: "answer_payload (env i) dir payload cache w = (o', cache', w')"
      by (cases "answer_payload (env i) dir payload cache w") auto
    then obtain bs where o: "o' = Some bs"
      using payload_answered [OF 1(2) [of i], of payload dir cache w] by (auto simp: answered_def)
    obtain y wr' where y: "write_frame wr bs MAX_IDENTITY_RESPONSE_BYTES = (y, wr')" by fastforce
    show ?thesis
    proof (cases y)
      case (Inr u)
      have "fst (identity_serve_session env (Suc i) dir cache' rd' wr' w') \<noteq> None"
        by (rule 1(1) [OF rd [symmetric] x refl a [symmetric] o refl y [symmetric] Inr 1(2)])
      then show ?thesis using rd x a o y Inr by (subst identity_serve_session.simps) simp
    qed (use rd x a o y in \<open>subst identity_serve_session.simps, simp\<close>)
  next
    case False
    then show ?thesis using rd by (subst identity_serve_session.simps) (auto split: sum.split option.split)
  qed
qed

text \<open>
  Claim C37: the identity worker answers every frame, malformed ones included, with a single response that carries the
  generation of the request and fits the bound of a response; no request makes it panic, and a session on a finite input
  ends. The lock of the vault is the only wait, and its clock passes the deadline within the rounds of the model.
\<close>

theorem identity_worker_answers:
  assumes "\<And>j. worker_ready (env j)"
  shows "(\<exists>bs cache' w'. answer_payload (env i) dir payload cache w = (Some bs, cache', w')
      \<and> bs \<noteq> [] \<and> length bs \<le> MAX_IDENTITY_RESPONSE_BYTES \<and> bslice 4 12 bs = u64_be (request_generation payload))
    \<and> fst (identity_serve_session env i dir cache rd wr w) \<noteq> None"
proof -
  have "answered (request_generation payload) (answer_payload (env i) dir payload cache w)"
    by (rule payload_answered [OF assms])
  then show ?thesis using identity_session_returns [OF assms] response_to_bounds
    by (cases "answer_payload (env i) dir payload cache w") (auto simp: answered_def)
qed

section \<open>What answers certify\<close>

lemma response_header_inj:
  "response_header k c g @ b = response_header k' c' g' @ b' \<longleftrightarrow> k = k' \<and> c = c' \<and> g = g' \<and> b = b'"
proof -
  have "u64_be g = u64_be g' \<longleftrightarrow> g = g'" by (metis be_roundtrip(3))
  then show ?thesis by (auto simp: response_header_def)
qed

definition response_kind :: "bytes \<Rightarrow> u8" where
  "response_kind bs = bs ! 2"

lemma response_kinds [simp]:
  "response_kind (encode_error code g) = ID_RESPONSE_ERROR" "response_kind (encode_ack g) = RESPONSE_ACK"
  "response_kind (encode_verification g r) = RESPONSE_VERIFICATION"
  "response_kind (encode_identity_status g s) = ID_RESPONSE_STATUS" "response_kind (encode_key g key) = RESPONSE_KEY"
  "response_kind (encode_sample g e) = RESPONSE_SAMPLE"
  by (auto simp: response_kind_def response_header_def encode_error_def encode_ack_def encode_verification_def
      encode_identity_status_def encode_key_def encode_sample_def nth_append split: prod.split)

definition cache_pinned :: "native \<Rightarrow> identity_provider option \<Rightarrow> bool" where
  "cache_pinned nv cache \<longleftrightarrow> (\<forall>prov. cache = Some prov \<longrightarrow> provider_pinned nv prov)"

lemma get_provider_pinned:
  assumes "get_provider env dir cache w = (r, cache', w')" "cache_pinned (we_native env) cache"
  shows "cache_pinned (we_native env) cache'" "\<And>prov. r = Inr prov \<Longrightarrow> provider_pinned (we_native env) prov"
  using assms by (auto simp: get_provider_def cache_pinned_def split: option.splits prod.splits sum.splits
      dest: identity_from_model_root_pinned)


lemma on_vault_kind:
  assumes "on_vault env g act w = (Some bs, w')" "\<And>v u. act v w = (Inr bs, u) \<Longrightarrow> response_kind bs \<noteq> kind" "kind \<noteq> ID_RESPONSE_ERROR"
  shows "response_kind bs \<noteq> kind"
  using assms by (fastforce simp: on_vault_def vault_reply_def split: sum.splits prod.splits)

lemma answer_cache_pinned:
  assumes "answer_payload env dir payload cache w = (out, cache', w')" "cache_pinned (we_native env) cache"
  shows "cache_pinned (we_native env) cache'"
proof -
  have p: "cache_pinned (we_native env) (fst (snd (process_operation env dir g c req cache w)))" for g c req
    using assms(2) get_provider_pinned(1) [OF _ assms(2)]
    by (cases req) (auto split: prod.split sum.split option.split)
  show ?thesis
  proof (cases "parse_identity_request payload")
    case (Inr q)
    then show ?thesis
      using assms(1) p [of "pr_generation q" "worker_control env (pr_timeout_ms q)" "pr_request q"]
      by (simp add: answer_payload_def process_request_with_cache_def)
  qed (use assms in \<open>auto simp: answer_payload_def\<close>)
qed

lemma only_verify_verifies:
  assumes "process_operation env dir g c req cache w = (Some bs, cache', w')" "response_kind bs = RESPONSE_VERIFICATION"
  shows "\<exists>key img. req = IR_Verify key img"
proof (rule ccontr)
  assume n: "\<nexists>key img. req = IR_Verify key img"
  have k: "RESPONSE_VERIFICATION \<noteq> ID_RESPONSE_ERROR" "RESPONSE_VERIFICATION \<noteq> ID_RESPONSE_STATUS" "RESPONSE_VERIFICATION \<noteq> RESPONSE_ACK"
    "RESPONSE_VERIFICATION \<noteq> RESPONSE_KEY" "RESPONSE_VERIFICATION \<noteq> RESPONSE_SAMPLE"
    by (simp_all add: wire_defs)
  have ov: False if "on_vault env g act u = (Some bs, u')" "\<And>v x. act v u = (Inr bs, x) \<Longrightarrow> response_kind bs \<noteq> RESPONSE_VERIFICATION"
    for act u u'
    using on_vault_kind [OF that(1), of RESPONSE_VERIFICATION] that(2) k(1) assms(2) by blast
  have "on_vault env g (\<lambda>v. wbind (status_io nv v key) (\<lambda>s. wreturn (encode_identity_status g s))) u \<noteq> (Some bs, u')" for nv key u u'
    using ov k(2) by (fastforce simp: io_success)
  moreover have "on_vault env g (\<lambda>v. acknowledge g (act v)) u \<noteq> (Some bs, u')" for act u u'
    using ov k(3) by (fastforce simp: acknowledge_def io_success)
  moreover have "on_vault env g (\<lambda>v. wbind (validate_integrity nv v key) (\<lambda>s. wreturn (encode_identity_status g (VS_Ready s)))) u
      \<noteq> (Some bs, u')" for nv key u u'
    using ov k(2) by (fastforce simp: io_success)
  ultimately show False
    using assms n k
    by (cases req) (auto simp: vault_reply_def split: prod.splits sum.splits option.splits if_splits)
qed

lemma match_processed:
  assumes "process_operation env dir g c req cache w = (Some (encode_verification g' Match), cache', w')"
    "cache_pinned (we_native env) cache"
  shows "g' = g \<and> (\<exists>key img v p prov e j. req = IR_Verify key img
      \<and> vault_production (we_vars env) (euid w) = Inr v \<and> fst (open_profile (we_native env) v key w) = Inr p
      \<and> provider_pinned (we_native env) prov \<and> extract_embedding (we_vision env) prov img c 1 LocalProfile = Some (Inr (e, j))
      \<and> verify p e = Match)"
proof -
  obtain key img where req: "req = IR_Verify key img" using only_verify_verifies [OF assms(1)] by auto
  have k: "encode_verification g' Match \<noteq> encode_error code g" for code
  proof
    assume "encode_verification g' Match = encode_error code g"
    from arg_cong [OF this, of response_kind] show False by (simp add: wire_defs)
  qed
  have vc: "verification_code r = 1 \<Longrightarrow> r = Match" for r by (cases r) auto
  obtain v p w1 prov w2 e j where r: "vault_production (we_vars env) (euid w) = Inr v" "open_profile (we_native env) v key w = (Inr p, w1)"
    "get_provider env dir cache w1 = (Inr prov, cache', w2)" "extract_embedding (we_vision env) prov img c 1 LocalProfile = Some (Inr (e, j))"
    "encode_verification g (verify p e) = encode_verification g' Match"
    using assms(1) unfolding req
    by (auto simp: k [THEN not_sym] vault_reply_def split: sum.splits prod.splits option.splits)
  then have "g = g'" "verification_code (verify p e) = 1"
    using response_header_inj [of _ _ g "[]" _ _ g' "[]"] by (auto simp: encode_verification_def)
  moreover have "provider_pinned (we_native env) prov" by (rule get_provider_pinned(2) [OF r(3) assms(2) refl])
  ultimately show ?thesis using req r(1,2,4) vc
    by (intro conjI exI [of _ key] exI [of _ img] exI [of _ v] exI [of _ p] exI [of _ prov] exI [of _ e] exI [of _ j]) simp_all
qed

text \<open>
  Claim C36: a match reported by the identity worker certifies that the request asked to verify an image under a key,
  that the user's own vault opened under this key, that the networks have the pinned digests whether they were cached
  or not, and that the embedding they extracted from the image verifies against the enrolled profile. The cache holds
  pinned networks only, from one request to the next.
\<close>

theorem identity_match_certified:
  assumes "answer_payload env dir payload cache w = (out, cache', w')" "cache_pinned (we_native env) cache"
  shows "cache_pinned (we_native env) cache'
    \<and> (out = Some (encode_verification g Match) \<longrightarrow>
       (\<exists>p key img v profile prov e j. parse_identity_request payload = Inr p \<and> pr_generation p = g \<and> pr_request p = IR_Verify key img
          \<and> vault_production (we_vars env) (euid w) = Inr v \<and> fst (open_profile (we_native env) v key w) = Inr profile
          \<and> provider_pinned (we_native env) prov
          \<and> extract_embedding (we_vision env) prov img (worker_control env (pr_timeout_ms p)) 1 LocalProfile = Some (Inr (e, j))
          \<and> verify profile e = Match))"
proof (intro conjI impI)
  show "cache_pinned (we_native env) cache'" by (rule answer_cache_pinned [OF assms])
  assume out: "out = Some (encode_verification g Match)"
  show "\<exists>p key img v profile prov e j. parse_identity_request payload = Inr p \<and> pr_generation p = g \<and> pr_request p = IR_Verify key img
          \<and> vault_production (we_vars env) (euid w) = Inr v \<and> fst (open_profile (we_native env) v key w) = Inr profile
          \<and> provider_pinned (we_native env) prov
          \<and> extract_embedding (we_vision env) prov img (worker_control env (pr_timeout_ms p)) 1 LocalProfile = Some (Inr (e, j))
          \<and> verify profile e = Match"
  proof (cases "parse_identity_request payload")
    case (Inl f)
    then have "encode_error (rf_code f) (rf_generation f) = encode_verification g Match"
      using assms(1) out by (simp add: answer_payload_def)
    from arg_cong [OF this, of response_kind] show ?thesis by (simp add: wire_defs)
  next
    case (Inr p)
    have "process_operation env dir (pr_generation p) (worker_control env (pr_timeout_ms p)) (pr_request p) cache w
        = (Some (encode_verification g Match), cache', w')"
      using assms(1) out Inr by (simp add: answer_payload_def process_request_with_cache_def)
    from match_processed [OF this assms(2)] Inr show ?thesis by blast
  qed
qed

text \<open>
  Claim C35: an acknowledged enrollment is stored: the user's own vault then holds exactly the samples of the request, encrypted
  under its key. Whatever fails, the vault file is the one from before or the complete new one.
\<close>

theorem enrollment_acknowledged:
  assumes "aead_exact (we_native env)" "ve_nonce (we_vault env) = Inr nonce" "length nonce = NONCE_BYTES"
    "parse_identity_request payload = Inr p" "pr_request p = IR_Commit key es"
    "answer_payload env dir payload cache w = (Some bs, cache', w')"
    "vault_production (we_vars env) (euid w) = Inr v"
  shows "(response_kind bs = RESPONSE_ACK \<longrightarrow> stored (we_native env) v key (nodes w' (vault_path v)) = Some (Inr \<lparr>samples = es\<rparr>))
    \<and> (nodes w' (vault_path v) = nodes w (vault_path v)
       \<or> stored (we_native env) v key (nodes w' (vault_path v)) = Some (Inr \<lparr>samples = es\<rparr>))"
proof (cases "profile_new es")
  case None
  then show ?thesis using assms
    by (auto simp: answer_payload_def process_request_with_cache_def vault_reply_def wire_defs)
next
  case (Some q)
  let ?g = "pr_generation p"
  have q: "q = \<lparr>samples = es\<rparr>" using Some by (auto simp: profile_new_def split: if_splits)
  have "list_all embedding_wf es" using parsed_generation(1) [OF assms(4)] assms(5) by simp
  with Some q have wf: "profile_wf q" by (simp add: profile_wf_def list_all_iff)
  obtain r w1 where c: "commit_profile (we_vault env) v key q w = (r, w1)" by fastforce
  then have out: "vault_reply ?g (map_sum id (\<lambda>_. encode_ack ?g) r) = Some bs" "w' = w1"
    using assms(4-7) Some
    by (auto simp: answer_payload_def process_request_with_cache_def on_vault_def acknowledge_def wbind_def wreturn_def split: sum.splits)
  have "response_kind bs = RESPONSE_ACK \<Longrightarrow> is_ok r"
    using out by (cases r) (auto simp: vault_reply_def wire_defs)
  with aonD [OF commit_profile_aon [OF assms(1) wf assms(2,3)] refl c] out(2) show ?thesis by (auto simp: q)
qed

section \<open>A concrete worker\<close>

definition sample_worker :: worker_env where
  "sample_worker = \<lparr>we_vars = [''HOME'' \<mapsto> ''/home/u''], we_vision = one_face_native, we_listing = (\<lambda>_. []), we_vault = sample_env,
     we_clock = (\<lambda>_. 0), we_random = Inr (replicate 32 9)\<rparr>"

definition sample_commit :: parsed_request where
  "sample_commit = \<lparr>pr_generation = 7, pr_timeout_ms = 1000, pr_request = IR_Commit (replicate 32 1) (samples unit_profile)\<rparr>"

lemma sample_worker_ready: "worker_ready sample_worker"
  by (auto simp: worker_ready_def sample_worker_def lock_bounded_def sample_env_def LOCK_TIMEOUT_def LOCK_RETRY_def KEY_BYTES_def
      intro!: exI [of _ 200])

lemma sample_commit_parses: "parse_identity_request (identity_request_bytes sample_commit) = Inr sample_commit"
  using unit_profile_wf
  by (intro parse_identity_request_complete)
    (auto simp: parsed_valid_def sample_commit_def wire_defs KEY_BYTES_def profile_wf_def profile_new_def list_all_iff split: if_splits)

lemma sample_production: "vault_production (we_vars sample_worker) 1000 = Inr sample_vault"
  by (simp add: vault_production_def sample_worker_def is_absolute_def sample_vault_def user_session_with_root_def join_def
      PRODUCT_DIRECTORY_def)

theorem identity_worker_answers_witness:
  "\<exists>bs cache' w'. answer_payload sample_worker ''/models'' (identity_request_bytes sample_commit) None sample_world = (Some bs, cache', w')
     \<and> length bs \<le> MAX_IDENTITY_RESPONSE_BYTES"
proof -
  have "\<And>j. worker_ready ((\<lambda>_. sample_worker) j)" by (simp add: sample_worker_ready)
  from identity_worker_answers [OF this, where payload = "identity_request_bytes sample_commit" and dir = "''/models''" and cache = None
      and w = sample_world] show ?thesis by blast
qed

theorem enrollment_acknowledged_witness:
  "\<exists>bs cache' w'. answer_payload sample_worker ''/models'' (identity_request_bytes sample_commit) None sample_world = (Some bs, cache', w')
     \<and> response_kind bs = RESPONSE_ACK
     \<and> stored toy_native sample_vault (replicate 32 1) (nodes w' (vault_path sample_vault)) = Some (Inr unit_profile)"
proof -
  have n: "we_native sample_worker = toy_native" "ve_nonce (we_vault sample_worker) = Inr (replicate 12 7)" "we_vault sample_worker = sample_env"
    by (simp_all add: sample_worker_def sample_env_simps)
  have e: "euid sample_world = 1000" by (simp add: sample_world_def)
  have u: "profile_new (samples unit_profile) = Some unit_profile" using unit_profile_wf by (simp add: profile_wf_def)
  obtain bs where b: "encode_vault toy_native (Inr (replicate 12 7)) unit_profile (replicate 32 1) 1000 = Inr bs"
    using toy_vault_encodes by blast
  then obtain w' where c: "commit_profile sample_env sample_vault (replicate 32 1) unit_profile sample_world = (Inr (), w')"
    using commit_healthy [OF _ unit_profile_wf sample_healthy, of "replicate 12 7" "replicate 32 1" bs]
    by (auto simp: sample_env_simps toy_native_exact NONCE_BYTES_def)
  then have a: "answer_payload sample_worker ''/models'' (identity_request_bytes sample_commit) None sample_world
      = (Some (encode_ack 7), None, w')"
    using u by (simp add: answer_payload_def sample_commit_parses process_request_with_cache_def on_vault_def e sample_production
        acknowledge_def wbind_def wreturn_def vault_reply_def n) (simp add: sample_commit_def u acknowledge_def wbind_def wreturn_def
        on_vault_def e sample_production n c vault_reply_def)
  have "stored toy_native sample_vault (replicate 32 1) (nodes w' (vault_path sample_vault)) = Some (Inr \<lparr>samples = samples unit_profile\<rparr>)"
    using enrollment_acknowledged [OF _ n(2) _ sample_commit_parses _ a, of "replicate 32 1" "samples unit_profile" sample_vault]
    by (simp add: n sample_env_simps toy_native_exact NONCE_BYTES_def sample_commit_def e sample_production)
  with a show ?thesis by simp
qed

text \<open>
  A worker that answers a verification with a match: the vault holds the unit profile, the networks are in the cache, and the image is the
  striped one. Its native library computes the pinned digests for inputs of the two model sizes, and is the toy cipher otherwise.
\<close>

definition yunet_digest :: bytes where
  "yunet_digest = [0x8F, 0x23, 0x83, 0xE4, 0xDD, 0x3C, 0xFB, 0xB4, 0x55, 0x3E, 0xA8, 0x71, 0x81, 0x07, 0xFC, 0x04, 0x23, 0x21, 0x0D, 0xC9, 0x64, 0xF9, 0xF4, 0x28, 0x06, 0x04, 0x80, 0x4E, 0xD2, 0x55, 0x2F, 0xA4]"

definition sface_digest :: bytes where
  "sface_digest = [0x0B, 0xA9, 0xFB, 0xFA, 0x01, 0xB5, 0x27, 0x0C, 0x96, 0x62, 0x7C, 0x4E, 0xF7, 0x84, 0xDA, 0x85, 0x99, 0x31, 0xE0, 0x2F, 0x04, 0x41, 0x9C, 0x82, 0x9E, 0x83, 0x48, 0x40, 0x87, 0xC3, 0x4E, 0x79]"

definition pinned_native :: native where
  "pinned_native = toy_native\<lparr>native_sha256 := (\<lambda>input.
     (0, if length input = 232589 then yunet_digest else if length input = 38696353 then sface_digest else replicate 32 0))\<rparr>"

definition blank_model :: "nat \<Rightarrow> bytes" where
  "blank_model n = replicate n 0"

lemma length_blank_model [simp]: "length (blank_model n) = n"
  by (simp add: blank_model_def)

definition cached_provider :: identity_provider where
  "cached_provider = \<lparr>ip_detector = blank_model 232589, ip_recognizer = blank_model 38696353\<rparr>"

lemma pinned_native_seals:
  "encrypt pinned_native = encrypt toy_native" "decrypt pinned_native = decrypt toy_native"
  by (simp_all add: fun_eq_iff encrypt_def decrypt_def pinned_native_def)

lemma pinned_native_exact: "aead_exact pinned_native"
  using toy_native_exact by (simp add: aead_exact_def pinned_native_seals)

lemma pinned_digests: "hex_of yunet_digest = YUNET_MODEL_SHA256" "hex_of sface_digest = SFACE_MODEL_SHA256"
  by code_simp+

lemma cached_provider_pinned: "provider_pinned pinned_native cached_provider"
  using pinned_digests
  by (simp add: provider_pinned_def cached_provider_def digest_hex_def digest_def sha256_def pinned_native_def status_result_def
      YUNET_MODEL_SIZE_def SFACE_MODEL_SIZE_def)

definition matching_worker :: worker_env where
  "matching_worker = sample_worker\<lparr>we_vision := face_native, we_vault := sample_env\<lparr>ve_native := pinned_native\<rparr>\<rparr>"

lemma matching_worker_simps:
  "we_vars matching_worker = we_vars sample_worker" "we_vision matching_worker = face_native" "we_native matching_worker = pinned_native"
  "we_clock matching_worker = (\<lambda>_. 0)"
  by (simp_all add: matching_worker_def sample_worker_def)

definition sample_verify :: parsed_request where
  "sample_verify = \<lparr>pr_generation = 7, pr_timeout_ms = 1000, pr_request = IR_Verify (replicate 32 1) striped_image\<rparr>"

lemma sample_verify_parses: "parse_identity_request (identity_request_bytes sample_verify) = Inr sample_verify"
  using striped_wf
  by (intro parse_identity_request_complete) (simp add: parsed_valid_def sample_verify_def wire_defs KEY_BYTES_def sendable_def)

lemma pinned_vault_opens:
  "\<exists>bs. open_profile pinned_native sample_vault (replicate 32 1) (stored_world bs) = (Inr unit_profile, stored_world bs)"
proof -
  let ?env = "sample_env\<lparr>ve_native := pinned_native\<rparr>"
  obtain pt where pt: "encode_profile unit_profile 1000 = Inr pt"
    using encode_profile_eq [of unit_profile 1000] by (simp add: unit_profile_def sample_count_def)
  have n: "length (replicate 12 7 :: bytes) = NONCE_BYTES" by (simp add: NONCE_BYTES_def)
  obtain bs where "encode_vault pinned_native (Inr (replicate 12 7)) unit_profile (replicate 32 1) 1000 = Inr bs"
    using encode_vault_succeeds [OF pinned_native_exact unit_profile_wf n pt] toy_encrypt_ok pinned_native_seals(1) by metis
  then have "decode_vault pinned_native bs (replicate 32 1) 1000 = Inr unit_profile"
    by (rule decode_encode_vault [OF pinned_native_exact unit_profile_wf n])
  then have "holds ?env sample_vault (replicate 32 1) unit_profile (stored_world bs)"
    by (simp add: holds_def stored_world_def sample_env_simps private_file_def oct_masks)
  moreover have "quiet ?env sample_vault (replicate 8 5) (stored_world bs)"
    using sample_healthy by (auto simp: healthy_def quiet_def stored_world_def)
  moreover have "is_ok (sha256 (ve_native ?env) xs)" for xs
    by (simp add: sha256_def pinned_native_def status_result_def)
  ultimately show ?thesis using open_quiet [of ?env sample_vault "replicate 8 5" "stored_world bs"] by auto
qed

lemma unit_verifies: "verify unit_profile unit_embedding = Match"
proof (rule majority_verifies [OF unit_profile_wf unit_embedding_wf])
  show "sample_count unit_profile < 2 * matching unit_profile unit_embedding"
    using matching_enrolled [OF unit_embedding_wf, of unit_profile] by (simp add: unit_profile_def sample_count_def)
qed

lemma match_answered:
  "\<exists>bs. answer_payload matching_worker ''/models'' (identity_request_bytes sample_verify) (Some cached_provider) (stored_world bs)
     = (Some (encode_verification 7 Match), Some cached_provider, stored_world bs)"
proof -
  let ?c = "worker_control matching_worker 1000"
  obtain bs where o: "open_profile pinned_native sample_vault (replicate 32 1) (stored_world bs) = (Inr unit_profile, stored_world bs)"
    using pinned_vault_opens by blast
  have "control_check ?c i = Inr ()" for i
    by (simp add: control_check_def worker_control_def matching_worker_simps MILLISECOND_def)
  then obtain j where "extract_embedding face_native cached_provider striped_image ?c 1 LocalProfile = Some (Inr (unit_embedding, j))"
    using striped_extracted by blast
  moreover have "euid (stored_world bs) = 1000" by (simp add: stored_world_def sample_world_def)
  ultimately have "process_operation matching_worker ''/models'' 7 ?c (IR_Verify (replicate 32 1) striped_image) (Some cached_provider) (stored_world bs)
      = (Some (encode_verification 7 Match), Some cached_provider, stored_world bs)"
    using o sample_production unit_verifies by (simp add: matching_worker_simps get_provider_def)
  then show ?thesis
    unfolding answer_payload_def sample_verify_parses sum.case process_request_with_cache_def
    by (intro exI [of _ bs]) (simp only: sample_verify_def parsed_request.simps)
qed

text \<open>The witness is a match answered from cached networks.\<close>

theorem identity_match_certified_witness:
  "\<exists>bs p key img v profile prov e j.
     answer_payload matching_worker ''/models'' (identity_request_bytes sample_verify) (Some cached_provider) (stored_world bs)
       = (Some (encode_verification 7 Match), Some cached_provider, stored_world bs)
   \<and> parse_identity_request (identity_request_bytes sample_verify) = Inr p \<and> pr_generation p = 7 \<and> pr_request p = IR_Verify key img
   \<and> vault_production (we_vars matching_worker) (euid (stored_world bs)) = Inr v
   \<and> fst (open_profile pinned_native v key (stored_world bs)) = Inr profile \<and> provider_pinned pinned_native prov
   \<and> extract_embedding face_native prov img (worker_control matching_worker (pr_timeout_ms p)) 1 LocalProfile = Some (Inr (e, j))
   \<and> verify profile e = Match \<and> cache_pinned pinned_native (Some cached_provider)"
proof -
  obtain bs where a: "answer_payload matching_worker ''/models'' (identity_request_bytes sample_verify) (Some cached_provider) (stored_world bs)
     = (Some (encode_verification 7 Match), Some cached_provider, stored_world bs)" using match_answered by blast
  have "cache_pinned (we_native matching_worker) (Some cached_provider)"
    using cached_provider_pinned by (simp add: cache_pinned_def matching_worker_simps)
  from identity_match_certified [OF a this, of 7] a show ?thesis unfolding matching_worker_simps(2,3) by blast
qed

end
