(* ===== verification/Vision_Worker.thy ===== *)
theory Vision_Worker
  imports Identity_Protocol Identity_Extract
begin

text \<open>
  The vision worker (\<^verbatim>\<open>engine/vision/src/worker.rs\<close>): the request codec, the second validation of what a provider returned,
  the encoding of an analysis, and the four ways of serving. The trait \<^verbatim>\<open>VisionProvider\<close> is a locale, interpreted for the
  YuNet provider. The properties: the request format is exact, the provider's analyses always pass the second
  validation, and a session with a factory is the session with the provider it makes.
\<close>

section \<open>Constants and codes\<close>

definition VISION_PROTOCOL_VERSION :: u16 where [wire_defs]: "VISION_PROTOCOL_VERSION = 2"
definition OP_ANALYZE :: u8 where [wire_defs]: "OP_ANALYZE = 1"
definition RESPONSE_ANALYSIS :: u8 where [wire_defs]: "RESPONSE_ANALYSIS = 0x81"
definition VISION_RESPONSE_ERROR :: u8 where [wire_defs]: "VISION_RESPONSE_ERROR = 0xff"
definition REQUEST_HEADER_BYTES :: nat where "REQUEST_HEADER_BYTES = 24"
definition MAX_REQUEST_PAYLOAD :: nat where "MAX_REQUEST_PAYLOAD = MAX_FRAME_BYTES + REQUEST_HEADER_BYTES"
definition MAX_RESPONSE_PAYLOAD :: nat where "MAX_RESPONSE_PAYLOAD = 16 + MAX_FACES * (8 + 20)"
definition VISION_MIN_TIMEOUT_MS :: u32 where [wire_defs]: "VISION_MIN_TIMEOUT_MS = 1"
definition VISION_MAX_TIMEOUT_MS :: u32 where [wire_defs]: "VISION_MAX_TIMEOUT_MS = 5000"

datatype vision_error_code = VW_InvalidRequest | VW_UnsupportedVersion | VW_UnsupportedOperation | VW_UnsupportedPixelFormat
  | VW_InvalidDimensions | VW_InvalidStride | VW_InvalidFrameSize | VW_InvalidTimeout | VW_Cancelled | VW_DeadlineExceeded
  | VW_ModelUnavailable | VW_InternalError | VW_FaceAtEdge | VW_InvalidRuntimeOutput | VW_RuntimeFailure

fun vision_code :: "vision_error_code \<Rightarrow> u8" where
  "vision_code VW_InvalidRequest = 1"
| "vision_code VW_UnsupportedVersion = 2"
| "vision_code VW_UnsupportedOperation = 3"
| "vision_code VW_UnsupportedPixelFormat = 4"
| "vision_code VW_InvalidDimensions = 5"
| "vision_code VW_InvalidStride = 6"
| "vision_code VW_InvalidFrameSize = 7"
| "vision_code VW_InvalidTimeout = 8"
| "vision_code VW_Cancelled = 9"
| "vision_code VW_DeadlineExceeded = 10"
| "vision_code VW_ModelUnavailable = 11"
| "vision_code VW_InternalError = 12"
| "vision_code VW_FaceAtEdge = 13"
| "vision_code VW_InvalidRuntimeOutput = 14"
| "vision_code VW_RuntimeFailure = 15"

fun map_vision_image_error :: "image_error \<Rightarrow> vision_error_code" where
  "map_vision_image_error UnsupportedPixelFormat = VW_UnsupportedPixelFormat"
| "map_vision_image_error InvalidDimensions = VW_InvalidDimensions"
| "map_vision_image_error InvalidStride = VW_InvalidStride"
| "map_vision_image_error ArithmeticOverflow = VW_InvalidFrameSize"
| "map_vision_image_error FrameTooLarge_image = VW_InvalidFrameSize"
| "map_vision_image_error LengthMismatch = VW_InvalidFrameSize"

fun map_vision_error :: "vision_error \<Rightarrow> vision_error_code" where
  "map_vision_error Cancelled = VW_Cancelled"
| "map_vision_error DeadlineExceeded = VW_DeadlineExceeded"
| "map_vision_error FaceAtEdge = VW_FaceAtEdge"
| "map_vision_error InvalidRuntimeOutput = VW_InvalidRuntimeOutput"
| "map_vision_error RuntimeFailure = VW_RuntimeFailure"

section \<open>Requests\<close>

record analyze_request =
  ar_generation :: u64
  ar_timeout_ms :: u32
  ar_image :: image_view

record vision_failure =
  vf_code :: vision_error_code
  vf_generation :: u64

definition parse_vision_request :: "bytes \<Rightarrow> vision_failure + analyze_request" where
  "parse_vision_request payload =
     (let generation = request_generation payload;
          invalid = (\<lambda>code. \<lparr>vf_code = code, vf_generation = generation\<rparr>) in
      if length payload < REQUEST_HEADER_BYTES then Inl (invalid VW_InvalidRequest)
      else if u16_from_be (bslice 0 2 payload) \<noteq> VISION_PROTOCOL_VERSION then Inl (invalid VW_UnsupportedVersion)
      else if generation = 0 then Inl (invalid VW_InvalidRequest)
      else if payload ! 2 \<noteq> OP_ANALYZE then Inl (invalid VW_UnsupportedOperation)
      else rbind (map_err (\<lambda>_. invalid VW_UnsupportedPixelFormat) (pixel_format_try_from (payload ! 3))) (\<lambda>format.
        let timeout_ms = u32_from_be (bslice 12 16 payload) in
        if \<not> (VISION_MIN_TIMEOUT_MS \<le> timeout_ms \<and> timeout_ms \<le> VISION_MAX_TIMEOUT_MS) then Inl (invalid VW_InvalidTimeout)
        else
          let width = ucast (u16_from_be (bslice 16 18 payload));
              height = ucast (u16_from_be (bslice 18 20 payload));
              stride = u32_from_be (bslice 20 24 payload)
          in rbind (map_err (\<lambda>e. invalid (map_vision_image_error e))
                      (image_view_new format width height stride (drop REQUEST_HEADER_BYTES payload))) (\<lambda>img.
             Inr \<lparr>ar_generation = generation, ar_timeout_ms = timeout_ms, ar_image = img\<rparr>)))"

section \<open>Responses\<close>

definition encode_vision_error :: "vision_error_code \<Rightarrow> u64 \<Rightarrow> bytes" where
  "encode_vision_error code generation =
     u16_be VISION_PROTOCOL_VERSION @ [VISION_RESPONSE_ERROR, vision_code code] @ u64_be generation"

definition QUALITY_ALL :: u8 where
  "QUALITY_ALL = or (or (or QUALITY_TOO_DARK QUALITY_TOO_BRIGHT) QUALITY_LOW_CONTRAST) QUALITY_LOW_SHARPNESS"

text \<open>The landmarks are five pairs; \<^verbatim>\<open>chunks_exact(2)\<close> drops an odd last element.\<close>

fun points_below :: "u32 \<Rightarrow> u32 \<Rightarrow> u16 list \<Rightarrow> bool" where
  "points_below w h (x # y # ps) \<longleftrightarrow> ucast x < w \<and> ucast y < h \<and> points_below w h ps"
| "points_below w h _ \<longleftrightarrow> True"

definition valid_face :: "image_view \<Rightarrow> face_observation \<Rightarrow> bool" where
  "valid_face img face \<longleftrightarrow>
     (let r = obs_rectangle face in
      rect_width r > 0 \<and> rect_height r > 0
    \<and> (case checked_add (ucast (rect_x r)) (ucast (rect_width r)) of None \<Rightarrow> False | Some right \<Rightarrow> right \<le> img_width img)
    \<and> (case checked_add (ucast (rect_y r)) (ucast (rect_height r)) of None \<Rightarrow> False | Some bottom \<Rightarrow> bottom \<le> img_height img)
    \<and> points_below (img_width img) (img_height img) (obs_landmarks face))"

definition valid_analysis :: "vision_analysis \<Rightarrow> image_view \<Rightarrow> bool" where
  "valid_analysis analysis img \<longleftrightarrow>
     (let fl = flags (analysis_quality analysis) in
      \<not> (length (analysis_faces analysis) > MAX_FACES
         \<or> and fl (not QUALITY_ALL) \<noteq> 0
         \<or> (and fl QUALITY_TOO_DARK \<noteq> 0 \<and> and fl QUALITY_TOO_BRIGHT \<noteq> 0))
    \<and> list_all (valid_face img) (analysis_faces analysis))"

fun points_bytes :: "u16 list \<Rightarrow> bytes" where
  "points_bytes (x # y # ps) = u16_be x @ u16_be y @ points_bytes ps"
| "points_bytes _ = []"

definition face_bytes :: "face_observation \<Rightarrow> bytes" where
  "face_bytes f = u16_be (rect_x (obs_rectangle f)) @ u16_be (rect_y (obs_rectangle f)) @ u16_be (rect_width (obs_rectangle f))
     @ u16_be (rect_height (obs_rectangle f)) @ points_bytes (obs_landmarks f)"

definition encode_analysis :: "u64 \<Rightarrow> vision_analysis \<Rightarrow> bytes" where
  "encode_analysis generation analysis =
     (let face_count = (if length (analysis_faces analysis) < 256 then length (analysis_faces analysis) else 255);
          q = analysis_quality analysis in
      if face_count > MAX_FACES then encode_vision_error VW_InvalidRuntimeOutput generation
      else u16_be VISION_PROTOCOL_VERSION @ [RESPONSE_ANALYSIS, word_of_nat face_count] @ u64_be generation
        @ [brightness q, contrast q, sharpness q, flags q] @ concat (map face_bytes (analysis_faces analysis)))"

section \<open>Serving\<close>

text \<open>
  A provider is its \<^verbatim>\<open>analyze\<close>, from the image, the control and the index of its next check; \<open>None\<close> is a panic.
  \<open>clock r i\<close> is the \<open>i\<close>-th instant read for request \<open>r\<close>, the first one by \<^verbatim>\<open>with_timeout\<close>.
\<close>

type_synonym provider = "image_view \<Rightarrow> control \<Rightarrow> nat \<Rightarrow> vision_analysis checked"

definition vision_process_request :: "provider \<Rightarrow> (nat \<Rightarrow> nat) \<Rightarrow> analyze_request \<Rightarrow> bytes option" where
  "vision_process_request analyze clock request =
     (let control = \<lparr>ctl_deadline = clock 0 + unat (ar_timeout_ms request) * MILLISECOND, ctl_cancelled = (\<lambda>_. False),
            ctl_clock = clock\<rparr> in
      case analyze (ar_image request) control 1 of
        None \<Rightarrow> None
      | Some (Inr analysis) \<Rightarrow>
          Some (if valid_analysis analysis (ar_image request) then encode_analysis (ar_generation request) analysis
                else encode_vision_error VW_InvalidRuntimeOutput (ar_generation request))
      | Some (Inl e) \<Rightarrow> Some (encode_vision_error (map_vision_error e) (ar_generation request)))"

definition vision_answer :: "provider \<Rightarrow> (nat \<Rightarrow> nat) \<Rightarrow> bytes \<Rightarrow> bytes option" where
  "vision_answer analyze clock payload =
     (case parse_vision_request payload of
        Inr request \<Rightarrow> vision_process_request analyze clock request
      | Inl f \<Rightarrow> Some (encode_vision_error (vf_code f) (vf_generation f)))"

datatype worker_io_error = VWE_Io io_kind | VWE_EmptyFrame | VWE_FrameTooLarge | VWE_TrailingData

fun worker_io_error_from :: "frame_error \<Rightarrow> worker_io_error" where
  "worker_io_error_from (Frame_Io k) = VWE_Io k"
| "worker_io_error_from EmptyFrame = VWE_EmptyFrame"
| "worker_io_error_from (FrameTooLarge _ _) = VWE_FrameTooLarge"
| "worker_io_error_from TrailingData = VWE_TrailingData"

definition vision_serve_once ::
    "(bytes \<Rightarrow> bytes option) \<Rightarrow> reader \<Rightarrow> writer \<Rightarrow> (worker_io_error + unit) option \<times> writer" where
  "vision_serve_once answer rd wr =
     (case read_frame rd MAX_REQUEST_PAYLOAD of
        (Inl e, _) \<Rightarrow> (Some (Inl (worker_io_error_from e)), wr)
      | (Inr payload, rd') \<Rightarrow>
          (case require_eof rd' of
             (Inl e, _) \<Rightarrow> (Some (Inl (worker_io_error_from e)), wr)
           | (Inr _, _) \<Rightarrow>
               (case answer payload of
                  None \<Rightarrow> (None, wr)
                | Some response \<Rightarrow>
                    (case write_frame wr response MAX_RESPONSE_PAYLOAD of
                       (r, wr') \<Rightarrow> (Some (map_err worker_io_error_from r), wr')))))"

definition serve_once_with_provider :: "provider \<Rightarrow> (nat \<Rightarrow> nat) \<Rightarrow> reader \<Rightarrow> writer \<Rightarrow> (worker_io_error + unit) option \<times> writer" where
  "serve_once_with_provider analyze clock = vision_serve_once (vision_answer analyze clock)"

definition factory_answer :: "(vision_error_code + provider) \<Rightarrow> (nat \<Rightarrow> nat) \<Rightarrow> bytes \<Rightarrow> provider option \<times> bytes option" where
  "factory_answer factory clock payload =
     (case parse_vision_request payload of
        Inr request \<Rightarrow>
          (case factory of
             Inr p \<Rightarrow> (Some p, vision_process_request p clock request)
           | Inl code \<Rightarrow> (None, Some (encode_vision_error code (ar_generation request))))
      | Inl f \<Rightarrow> (None, Some (encode_vision_error (vf_code f) (vf_generation f))))"

definition serve_once_with_provider_factory ::
    "(vision_error_code + provider) \<Rightarrow> (nat \<Rightarrow> nat) \<Rightarrow> reader \<Rightarrow> writer \<Rightarrow> (worker_io_error + unit) option \<times> writer" where
  "serve_once_with_provider_factory factory clock = vision_serve_once (\<lambda>payload. snd (factory_answer factory clock payload))"

function serve_session_with_provider ::
    "provider \<Rightarrow> (nat \<Rightarrow> nat \<Rightarrow> nat) \<Rightarrow> nat \<Rightarrow> reader \<Rightarrow> writer \<Rightarrow> (worker_io_error + unit) option \<times> writer" where
  "serve_session_with_provider analyze clock n rd wr =
     (case read_frame_or_eof rd MAX_REQUEST_PAYLOAD of
        (Inl e, _) \<Rightarrow> (Some (Inl (worker_io_error_from e)), wr)
      | (Inr None, _) \<Rightarrow> (Some (Inr ()), wr)
      | (Inr (Some payload), rd') \<Rightarrow>
          (case vision_answer analyze (clock n) payload of
             None \<Rightarrow> (None, wr)
           | Some response \<Rightarrow>
               (case write_frame wr response MAX_RESPONSE_PAYLOAD of
                  (Inl e, wr') \<Rightarrow> (Some (Inl (worker_io_error_from e)), wr')
                | (Inr _, wr') \<Rightarrow> serve_session_with_provider analyze clock (Suc n) rd' wr')))"
  by pat_completeness auto
termination
  by (relation "measure (\<lambda>(analyze, clock, n, rd, wr). reader_size rd)")
    (auto dest!: sym [of _ "read_frame_or_eof _ _"] dest: read_frame_or_eof_less)

declare serve_session_with_provider.simps [simp del]

definition serve_session_with_provider_factory ::
    "(vision_error_code + provider) \<Rightarrow> (nat \<Rightarrow> nat \<Rightarrow> nat) \<Rightarrow> reader \<Rightarrow> writer \<Rightarrow> (worker_io_error + unit) option \<times> writer" where
  "serve_session_with_provider_factory factory clock rd wr =
     (case read_frame_or_eof rd MAX_REQUEST_PAYLOAD of
        (Inl e, _) \<Rightarrow> (Some (Inl (worker_io_error_from e)), wr)
      | (Inr None, _) \<Rightarrow> (Some (Inr ()), wr)
      | (Inr (Some payload), rd') \<Rightarrow>
          (case factory_answer factory (clock 0) payload of
             (_, None) \<Rightarrow> (None, wr)
           | (provider, Some response) \<Rightarrow>
               (case write_frame wr response MAX_RESPONSE_PAYLOAD of
                  (Inl e, wr') \<Rightarrow> (Some (Inl (worker_io_error_from e)), wr')
                | (Inr _, wr') \<Rightarrow>
                    (case provider of
                       Some p \<Rightarrow> serve_session_with_provider p clock 1 rd' wr'
                     | None \<Rightarrow> (Some (Inr ()), wr')))))"

section \<open>The request format is exact\<close>

definition vision_request_bytes :: "analyze_request \<Rightarrow> bytes" where
  "vision_request_bytes r = u16_be VISION_PROTOCOL_VERSION @ [OP_ANALYZE, format_byte (img_format (ar_image r))]
     @ u64_be (ar_generation r) @ u32_be (ar_timeout_ms r) @ u16_be (ucast (img_width (ar_image r)))
     @ u16_be (ucast (img_height (ar_image r))) @ u32_be (img_stride (ar_image r)) @ img_bytes (ar_image r)"

definition analyze_request_valid :: "analyze_request \<Rightarrow> bool" where
  "analyze_request_valid r \<longleftrightarrow> ar_generation r \<noteq> 0 \<and> VISION_MIN_TIMEOUT_MS \<le> ar_timeout_ms r \<and> ar_timeout_ms r \<le> VISION_MAX_TIMEOUT_MS
     \<and> view_wf (ar_image r)"

lemma vision_header_split:
  assumes "24 \<le> length p"
  shows "p = bslice 0 2 p @ [p ! 2, p ! 3] @ bslice 4 12 p @ bslice 12 16 p @ bslice 16 18 p @ bslice 18 20 p @ bslice 20 24 p @ drop 24 p"
proof -
  have "drop 16 p = bslice 16 18 p @ drop 18 p" "drop 18 p = bslice 18 20 p @ drop 20 p" "drop 20 p = bslice 20 24 p @ drop 24 p"
    by (rule bslice_drop [symmetric]; simp)+
  with identity_header_split [of p] assms show ?thesis by simp
qed

lemma view_eqI:
  "image_view_new f w h s bs = Inr v \<Longrightarrow> v = \<lparr>img_format = f, img_width = w, img_height = h, img_stride = s, img_bytes = bs\<rparr>"
  by (auto simp: image_view_new_def rbind_eq_Inr split: if_splits)

lemma parse_vision_request_complete:
  assumes "analyze_request_valid r"
  shows "parse_vision_request (vision_request_bytes r) = Inr r"
proof -
  define payload where "payload = vision_request_bytes r"
  let ?v = "ar_image r"
  have wf: "view_wf ?v" using assms by (simp add: analyze_request_valid_def)
  then have "unat (img_width ?v) < 2 ^ 16" "unat (img_height ?v) < 2 ^ 16" by (simp_all add: view_wf_def)
  note u = this [THEN ucast_u32_u16]
  have b: "payload = u16_be VISION_PROTOCOL_VERSION @ [OP_ANALYZE, format_byte (img_format ?v)] @ u64_be (ar_generation r)
      @ u32_be (ar_timeout_ms r) @ u16_be (ucast (img_width ?v)) @ u16_be (ucast (img_height ?v)) @ u32_be (img_stride ?v) @ img_bytes ?v"
    by (simp add: payload_def vision_request_bytes_def)
  have s: "bslice 0 2 payload = u16_be VISION_PROTOCOL_VERSION" "bslice 4 12 payload = u64_be (ar_generation r)"
    "bslice 12 16 payload = u32_be (ar_timeout_ms r)" "bslice 16 18 payload = u16_be (ucast (img_width ?v))"
    "bslice 18 20 payload = u16_be (ucast (img_height ?v))" "bslice 20 24 payload = u32_be (img_stride ?v)"
    "drop 24 payload = img_bytes ?v" "24 \<le> length payload" "payload ! 2 = OP_ANALYZE" "payload ! 3 = format_byte (img_format ?v)"
    by (simp_all add: b nth_append)
  have f: "pixel_format_try_from (format_byte (img_format ?v)) = Inr (img_format ?v)" by (simp add: pixel_format_iff)
  show ?thesis
    unfolding payload_def [symmetric] using assms s f u image_view_new_complete [OF wf]
    by (simp add: parse_vision_request_def request_generation_bytes REQUEST_HEADER_BYTES_def analyze_request_valid_def Let_def not_less)
qed

text \<open>
  The vision worker accepts a frame exactly when it is the layout of an analysis request: the version, the
  operation, a nonzero generation, a timeout of 1 to 5000 milliseconds and an image that is consistent with its header.
\<close>

theorem vision_request_exact:
  "parse_vision_request payload = Inr r \<longleftrightarrow> analyze_request_valid r \<and> payload = vision_request_bytes r"
proof
  assume a: "parse_vision_request payload = Inr r"
  let ?w = "u16_from_be (bslice 16 18 payload)" and ?h = "u16_from_be (bslice 18 20 payload)"
  from a obtain f where l: "24 \<le> length payload" "u16_from_be (bslice 0 2 payload) = VISION_PROTOCOL_VERSION" "payload ! 2 = OP_ANALYZE"
      "payload ! 3 = format_byte f"
    and r: "ar_generation r = u64_from_be (bslice 4 12 payload)" "ar_generation r \<noteq> 0"
      "ar_timeout_ms r = u32_from_be (bslice 12 16 payload)" "VISION_MIN_TIMEOUT_MS \<le> ar_timeout_ms r" "ar_timeout_ms r \<le> VISION_MAX_TIMEOUT_MS"
    and v: "image_view_new f (ucast ?w) (ucast ?h) (u32_from_be (bslice 20 24 payload)) (drop 24 payload) = Inr (ar_image r)"
    by (auto simp: parse_vision_request_def result_iffs Let_def REQUEST_HEADER_BYTES_def request_generation_bytes pixel_format_iff
        split: if_splits)
  have "u16_be VISION_PROTOCOL_VERSION = bslice 0 2 payload" using l be_to_from(1) [of "bslice 0 2 payload"] by simp
  then show "analyze_request_valid r \<and> payload = vision_request_bytes r"
    using image_view_new_wf [OF v] view_eqI [OF v] vision_header_split [OF l(1)] l r
    by (simp add: analyze_request_valid_def vision_request_bytes_def be_to_from ucast_u16_round)
next
  assume "analyze_request_valid r \<and> payload = vision_request_bytes r"
  then show "parse_vision_request payload = Inr r" by (simp add: parse_vision_request_complete)
qed

section \<open>The provider's contract\<close>

text \<open>An answer to the request of a generation: it carries the generation and fits the bound of a response.\<close>

definition vision_response :: "u64 \<Rightarrow> bytes \<Rightarrow> bool" where
  "vision_response g bs \<longleftrightarrow> bs \<noteq> [] \<and> length bs \<le> MAX_RESPONSE_PAYLOAD \<and> bslice 4 12 bs = u64_be g"

definition five_points :: "vision_analysis \<Rightarrow> bool" where
  "five_points a \<longleftrightarrow> list_all (\<lambda>f. length (obs_landmarks f) = 10) (analysis_faces a)"

lemma length_points_bytes: "length (points_bytes ps) = 4 * (length ps div 2)"
  by (induction ps rule: points_bytes.induct) auto

lemma length_faces_bytes:
  "list_all (\<lambda>f. length (obs_landmarks f) = 10) fs \<Longrightarrow> length (concat (map face_bytes fs)) = 28 * length fs"
  by (induction fs) (auto simp: face_bytes_def length_points_bytes)

lemma vision_error_response: "vision_response g (encode_vision_error code g)"
  by (simp add: vision_response_def encode_vision_error_def MAX_RESPONSE_PAYLOAD_def)

lemma vision_analysis_response:
  assumes "five_points a" "length (analysis_faces a) \<le> MAX_FACES"
  shows "vision_response g (encode_analysis g a)"
proof -
  have "28 * length (analysis_faces a) \<le> MAX_FACES * 28" using assms(2) by simp
  with assms length_faces_bytes [of "analysis_faces a"] show ?thesis
    by (simp add: vision_response_def encode_analysis_def five_points_def MAX_RESPONSE_PAYLOAD_def MAX_FACES_def Let_def)
qed

lemma parsed_vision_generation:
  "parse_vision_request payload = Inr r \<Longrightarrow> ar_generation r = request_generation payload \<and> view_wf (ar_image r)"
  "parse_vision_request payload = Inl f \<Longrightarrow> vf_generation f = request_generation payload"
  by (auto simp: parse_vision_request_def result_iffs Let_def map_err_def dest: image_view_new_wf
      split: if_splits sum.splits)

abbreviation request_control :: "(nat \<Rightarrow> nat) \<Rightarrow> analyze_request \<Rightarrow> control" where
  "request_control clock r \<equiv> \<lparr>ctl_deadline = clock 0 + unat (ar_timeout_ms r) * MILLISECOND, ctl_cancelled = (\<lambda>_. False), ctl_clock = clock\<rparr>"

text \<open>The shape of the landmarks is the array type \<^verbatim>\<open>[u16; 10]\<close> of the source.\<close>

locale vision_provider =
  fixes analyze :: provider
  assumes analyze_returns: "view_wf img \<Longrightarrow> analyze img c i \<noteq> None"
    and analyze_valid: "view_wf img \<Longrightarrow> analyze img c i = Some (Inr a) \<Longrightarrow> valid_analysis a img"
    and analyze_shape: "view_wf img \<Longrightarrow> analyze img c i = Some (Inr a) \<Longrightarrow> five_points a"
begin

lemma processed:
  assumes "view_wf (ar_image r)"
  obtains e where "analyze (ar_image r) (request_control clock r) 1 = Some (Inl e)"
    "vision_process_request analyze clock r = Some (encode_vision_error (map_vision_error e) (ar_generation r))"
  | a where "analyze (ar_image r) (request_control clock r) 1 = Some (Inr a)" "five_points a" "length (analysis_faces a) \<le> MAX_FACES"
    "vision_process_request analyze clock r = Some (encode_analysis (ar_generation r) a)"
proof -
  obtain res where r: "analyze (ar_image r) (request_control clock r) 1 = Some res"
    using analyze_returns [OF assms] by blast
  show thesis
  proof (cases res)
    case (Inr a)
    with r have a: "analyze (ar_image r) (request_control clock r) 1 = Some (Inr a)" by simp
    show thesis
      using that(2) [OF a] analyze_valid [OF assms a] analyze_shape [OF assms a] a
      by (simp add: vision_process_request_def valid_analysis_def Let_def not_less)
  qed (use r that(1) in \<open>simp add: vision_process_request_def\<close>)
qed

lemma answered: "\<exists>bs. vision_answer analyze clock payload = Some bs \<and> vision_response (request_generation payload) bs"
proof (cases "parse_vision_request payload")
  case (Inl f)
  then show ?thesis using parsed_vision_generation(2) [OF Inl] vision_error_response by (simp add: vision_answer_def)
next
  case (Inr r)
  note g = parsed_vision_generation(1) [OF Inr]
  then have "view_wf (ar_image r)" by simp
  then show ?thesis
    by (rule processed [of r clock])
      (use Inr g vision_error_response vision_analysis_response in \<open>auto simp: vision_answer_def\<close>)
qed

lemma session_returns: "fst (serve_session_with_provider analyze clock n rd wr) \<noteq> None"
proof (induction "reader_size rd" arbitrary: n rd wr rule: less_induct)
  case less
  obtain x rd' where rd: "read_frame_or_eof rd MAX_REQUEST_PAYLOAD = (x, rd')" by fastforce
  show ?case
  proof (cases "\<exists>payload. x = Inr (Some payload)")
    case True
    then obtain payload where x: "x = Inr (Some payload)" by blast
    obtain bs where a: "vision_answer analyze (clock n) payload = Some bs" using answered by blast
    obtain y wr' where y: "write_frame wr bs MAX_RESPONSE_PAYLOAD = (y, wr')" by fastforce
    have "fst (serve_session_with_provider analyze clock (Suc n) rd' wr') \<noteq> None"
      using less read_frame_or_eof_less [OF rd [unfolded x]] by blast
    then show ?thesis using rd x a y by (subst serve_session_with_provider.simps) (auto split: sum.split)
  next
    case False
    then show ?thesis using rd by (subst serve_session_with_provider.simps) (auto split: sum.split option.split)
  qed
qed

end

lemma quality_flags_bits: "and (quality_flags b con sh) (not QUALITY_ALL) = 0"
  "\<not> (and (quality_flags b con sh) QUALITY_TOO_DARK \<noteq> 0 \<and> and (quality_flags b con sh) QUALITY_TOO_BRIGHT \<noteq> 0)"
  by (auto simp: quality_flags_def QUALITY_ALL_def QUALITY_TOO_DARK_def QUALITY_TOO_BRIGHT_def QUALITY_LOW_CONTRAST_def QUALITY_LOW_SHARPNESS_def)

lemma calculated_flags: "calculate_quality img c i = Some (Inr (q, j)) \<Longrightarrow> \<exists>b con sh. flags q = quality_flags b con sh"
  by (auto simp: calculate_quality_def Let_def cbind_eq_Some_Inr split: if_splits sum.splits option.splits prod.splits) blast+

lemma uint_ucast_u32: "uint (ucast (w :: u16) :: u32) = uint w"
  using arg_cong [OF ucast_u16_u32 [of w], of int] by simp

lemma points_in_below:
  "points_in l t r u ps \<Longrightarrow> r \<le> uint w \<Longrightarrow> u \<le> uint h \<Longrightarrow> points_below w h ps" for w h :: u32
proof (induction l t r u ps rule: points_in.induct)
  case (1 l t r u x y ps)
  then show ?case by (auto simp: word_less_def uint_ucast_u32)
qed auto

lemma checked_add_u16:
  "checked_add (ucast (a :: u16)) (ucast (b :: u16)) = Some (ucast a + ucast b :: u32) \<and> uint (ucast a + ucast b :: u32) = uint a + uint b"
proof -
  have lt: "unat a < 2 ^ 16" "unat b < 2 ^ 16" using unsigned_less [of a] unsigned_less [of b] by simp_all
  then have c: "checked_add (ucast a) (ucast b) = Some (ucast a + ucast b :: u32)"
    by (simp add: checked_add_def ucast_u16_u32)
  from checked_add_SomeD [OF this] have "unat (ucast a + ucast b :: u32) = unat a + unat b" by (simp add: ucast_u16_u32)
  from arg_cong [OF this, of int] c show ?thesis by simp
qed

lemma face_in_valid: "face_in (unat (img_width img)) (unat (img_height img)) f \<Longrightarrow> valid_face img f"
  using checked_add_u16 points_in_below
  by (auto simp: face_in_def valid_face_def Let_def word_le_def)

lemma yunet_no_panic: "view_wf img \<Longrightarrow> yunet_analyze vn handle img c i \<noteq> None"
proof -
  assume wf: "view_wf img"
  have "no_panic (validate_detections ds w h)" if "list_all detection_wf ds" for ds w h
    using validate_detections_run [of ds w h] that by (auto simp: no_panic_def list_all_iff)
  then have "no_panic (yunet_analyze vn handle img c i)"
    unfolding yunet_analyze_def using wf by (intro no_panic_rules) (auto dest: detect_raw_wf(1))
  then show ?thesis by (simp add: no_panic_def)
qed

lemma yunet_valid:
  assumes "yunet_analyze vn handle img c i = Some (Inr a)"
  shows "valid_analysis a img"
proof -
  obtain bgr ds q j fs where a: "detect_raw vn handle img c i Tracking = Some (Inr (bgr, ds, q, j))"
      "validate_detections ds (img_width img) (img_height img) = Some (Inr fs)" "a = \<lparr>analysis_faces = fs, analysis_quality = q\<rparr>"
    using assms by (auto simp: yunet_analyze_def cbind_eq_Some_Inr)
  obtain b con sh where "flags q = quality_flags b con sh"
    using detect_raw_wf(3) [OF a(1)] calculated_flags by blast
  moreover have "length fs \<le> 8" "list_all (face_in (unat (img_width img)) (unat (img_height img))) fs"
    using validate_detections_run [of ds "img_width img" "img_height img"] detect_raw_wf(1) [OF a(1)] a(2) by (auto simp: list_all_iff)
  ultimately show ?thesis
    using quality_flags_bits face_in_valid by (auto simp: valid_analysis_def a(3) Let_def MAX_FACES_def list_all_iff)
qed

lemma yunet_shape: "yunet_analyze vn handle img c i = Some (Inr a) \<Longrightarrow> five_points a"
proof -
  assume "yunet_analyze vn handle img c i = Some (Inr a)"
  then obtain bgr ds q j where a: "detect_raw vn handle img c i Tracking = Some (Inr (bgr, ds, q, j))"
      "validate_detections ds (img_width img) (img_height img) = Some (Inr (analysis_faces a))"
    by (auto simp: yunet_analyze_def cbind_eq_Some_Inr)
  with validate_detections_run [of ds "img_width img" "img_height img"] detect_raw_wf(1) [OF a(1)]
  show ?thesis by (auto simp: five_points_def list_all_iff face_in_def Let_def)
qed

interpretation yunet: vision_provider "yunet_analyze vn handle" for vn handle
  using yunet_no_panic yunet_valid yunet_shape by unfold_locales auto

section \<open>The worker with the YuNet provider\<close>

text \<open>
  Claim C38: with the YuNet provider the vision worker answers every frame without a panic, with the generation of the request
  and within the bound of a response. What the provider found always passes the worker's own validation: a valid request
  is answered with exactly the provider's analysis or with the code of its error, and a session always ends.
\<close>

theorem vision_worker_answers:
  "(\<exists>bs. vision_answer (yunet_analyze vn handle) clock payload = Some bs \<and> bs \<noteq> [] \<and> length bs \<le> MAX_RESPONSE_PAYLOAD
      \<and> bslice 4 12 bs = u64_be (request_generation payload))
   \<and> (\<forall>r. parse_vision_request payload = Inr r \<longrightarrow>
        (\<exists>res. yunet_analyze vn handle (ar_image r) (request_control clock r) 1 = Some res
          \<and> vision_answer (yunet_analyze vn handle) clock payload = Some (case res of
               Inr a \<Rightarrow> encode_analysis (ar_generation r) a
             | Inl e \<Rightarrow> encode_vision_error (map_vision_error e) (ar_generation r))))
   \<and> fst (serve_session_with_provider (yunet_analyze vn handle) clocks n rd wr) \<noteq> None"
proof (intro conjI allI impI)
  show "\<exists>bs. vision_answer (yunet_analyze vn handle) clock payload = Some bs \<and> bs \<noteq> [] \<and> length bs \<le> MAX_RESPONSE_PAYLOAD
      \<and> bslice 4 12 bs = u64_be (request_generation payload)"
    using yunet.answered [of vn handle clock payload] by (simp add: vision_response_def)
  show "fst (serve_session_with_provider (yunet_analyze vn handle) clocks n rd wr) \<noteq> None" by (rule yunet.session_returns)
  fix r
  assume r: "parse_vision_request payload = Inr r"
  then have "view_wf (ar_image r)" using parsed_vision_generation(1) by blast
  then show "\<exists>res. yunet_analyze vn handle (ar_image r) (request_control clock r) 1 = Some res
          \<and> vision_answer (yunet_analyze vn handle) clock payload = Some (case res of
               Inr a \<Rightarrow> encode_analysis (ar_generation r) a
             | Inl e \<Rightarrow> encode_vision_error (map_vision_error e) (ar_generation r))"
    by (rule yunet.processed [of r vn handle clock]) (simp_all add: vision_answer_def r)
qed

definition sample_analysis :: analyze_request where
  "sample_analysis = \<lparr>ar_generation = 42, ar_timeout_ms = 1000, ar_image = tiny_image\<rparr>"

lemma sample_analysis_parses: "parse_vision_request (vision_request_bytes sample_analysis) = Inr sample_analysis"
  by (rule parse_vision_request_complete)
    (simp add: analyze_request_valid_def sample_analysis_def wire_defs image_view_new_wf [OF tiny_image_ok])

theorem vision_worker_answers_witness:
  "\<exists>res. yunet_analyze one_face_native [] tiny_image (request_control (\<lambda>_. 0) sample_analysis) 1 = Some res"
  using vision_worker_answers [of one_face_native "[]" "\<lambda>_. 0" "vision_request_bytes sample_analysis" "\<lambda>_ _. 0" 0 "[]" "\<lparr>written = [], outcomes = []\<rparr>"]
    sample_analysis_parses by (auto simp: sample_analysis_def)

section \<open>Sessions with a factory\<close>

text \<open>
  A session that makes its provider on the first request is the session with that provider, provided the first frame
  is a valid request; otherwise, and when the factory fails, it sends one error and ends.
\<close>

theorem factory_session_equivalence:
  assumes "read_frame_or_eof rd MAX_REQUEST_PAYLOAD = (Inr (Some payload), rd')"
  shows "(\<forall>r p. parse_vision_request payload = Inr r \<and> factory = Inr p \<longrightarrow>
        serve_session_with_provider_factory factory clock rd wr = serve_session_with_provider p clock 0 rd wr)
    \<and> (\<forall>r code. parse_vision_request payload = Inr r \<and> factory = Inl code \<longrightarrow>
        serve_session_with_provider_factory factory clock rd wr
          = (case write_frame wr (encode_vision_error code (ar_generation r)) MAX_RESPONSE_PAYLOAD of
               (x, wr') \<Rightarrow> (Some (map_err worker_io_error_from x), wr')))
    \<and> (\<forall>f. parse_vision_request payload = Inl f \<longrightarrow>
        serve_session_with_provider_factory factory clock rd wr
          = (case write_frame wr (encode_vision_error (vf_code f) (vf_generation f)) MAX_RESPONSE_PAYLOAD of
               (x, wr') \<Rightarrow> (Some (map_err worker_io_error_from x), wr')))"
proof (intro conjI allI impI)
  fix r p
  assume a: "parse_vision_request payload = Inr r \<and> factory = Inr p"
  then have "vision_answer p (clock 0) payload = vision_process_request p (clock 0) r" by (simp add: vision_answer_def)
  with a assms show "serve_session_with_provider_factory factory clock rd wr = serve_session_with_provider p clock 0 rd wr"
    by (subst serve_session_with_provider.simps)
      (simp add: serve_session_with_provider_factory_def factory_answer_def split: option.split sum.split prod.split)
qed (use assms in \<open>auto simp: serve_session_with_provider_factory_def factory_answer_def map_err_def split: sum.split prod.split\<close>)

theorem factory_session_equivalence_witness:
  "serve_session_with_provider_factory (Inl VW_ModelUnavailable) (\<lambda>_ _. 0) [Chunk [0, 0, 0, 1], Chunk [9]] \<lparr>written = [], outcomes = []\<rparr>
    = (Some (Inr ()), \<lparr>written = frame_bytes (encode_vision_error VW_InvalidRequest 0), outcomes = []\<rparr>)"
proof -
  let ?rd = "[Chunk [0, 0, 0, 1], Chunk [9]]" and ?wr = "\<lparr>written = [], outcomes = []\<rparr> :: writer"
  have rd: "read_frame_or_eof ?rd MAX_REQUEST_PAYLOAD = (Inr (Some [9]), [])"
    by (simp add: read_frame_or_eof_def read_header.simps [of "[]" "?rd"] read_header.simps [of "[0, 0, 0, 1]"]
        read_exact.simps [of _ "[]"] read_exact.simps [of _ "[9]"] u32_from_be_def be_val_def MAX_REQUEST_PAYLOAD_def REQUEST_HEADER_BYTES_def)
  have p: "parse_vision_request [9] = Inl \<lparr>vf_code = VW_InvalidRequest, vf_generation = 0\<rparr>"
    by (simp add: parse_vision_request_def REQUEST_HEADER_BYTES_def request_generation_def get_slice_def Let_def)
  have "write_frame ?wr (encode_vision_error VW_InvalidRequest 0) MAX_RESPONSE_PAYLOAD
      = (Inr (), ?wr\<lparr>written := written ?wr @ frame_bytes (encode_vision_error VW_InvalidRequest 0)\<rparr>)"
    by (rule write_frame_ok) (simp_all add: encode_vision_error_def MAX_RESPONSE_PAYLOAD_def)
  with factory_session_equivalence [OF rd] p show ?thesis by simp
qed

section \<open>Analyses can be read back\<close>

text \<open>A reader of the response, as a client of the protocol has to be one.\<close>

fun read_points :: "nat \<Rightarrow> bytes \<Rightarrow> u16 list \<times> bytes" where
  "read_points 0 bs = ([], bs)"
| "read_points (Suc n) bs = (case read_points n (drop 2 bs) of (ps, r) \<Rightarrow> (u16_from_be (take 2 bs) # ps, r))"

fun read_faces :: "nat \<Rightarrow> bytes \<Rightarrow> face_observation list" where
  "read_faces 0 bs = []"
| "read_faces (Suc n) bs =
     (case read_points 14 bs of (ps, r) \<Rightarrow>
        \<lparr>obs_rectangle = \<lparr>rect_x = ps ! 0, rect_y = ps ! 1, rect_width = ps ! 2, rect_height = ps ! 3\<rparr>, obs_landmarks = drop 4 ps\<rparr>
        # read_faces n r)"

lemma read_points_concat: "read_points (length ps) (concat (map u16_be ps) @ r) = (ps, r)"
  by (induction ps) auto

lemma points_bytes_concat: "even (length ps) \<Longrightarrow> points_bytes ps = concat (map u16_be ps)"
  by (induction ps rule: points_bytes.induct) auto

lemma read_faces_bytes:
  "list_all (\<lambda>f. length (obs_landmarks f) = 10) fs \<Longrightarrow> read_faces (length fs) (concat (map face_bytes fs)) = fs"
proof (induction fs)
  case (Cons f fs)
  let ?r = "obs_rectangle f"
  have "face_bytes f = concat (map u16_be (rect_x ?r # rect_y ?r # rect_width ?r # rect_height ?r # obs_landmarks f))"
    using Cons.prems by (simp add: face_bytes_def points_bytes_concat)
  moreover have "length (rect_x ?r # rect_y ?r # rect_width ?r # rect_height ?r # obs_landmarks f) = 14" using Cons.prems by simp
  ultimately have "read_points 14 (face_bytes f @ concat (map face_bytes fs))
      = (rect_x ?r # rect_y ?r # rect_width ?r # rect_height ?r # obs_landmarks f, concat (map face_bytes fs))"
    using read_points_concat by metis
  with Cons show ?case by simp
qed simp

definition decode_analysis :: "bytes \<Rightarrow> u64 \<times> vision_analysis" where
  "decode_analysis bs =
     (u64_from_be (bslice 4 12 bs),
      \<lparr>analysis_faces = read_faces (unat (bs ! 3)) (drop 16 bs),
       analysis_quality = \<lparr>brightness = bs ! 12, contrast = bs ! 13, sharpness = bs ! 14, flags = bs ! 15\<rparr>\<rparr>)"

text \<open>
  An encoded analysis determines its generation, its quality and every rectangle and landmark: it can be read back, and it is
  never taken for an error.
\<close>

theorem analysis_roundtrip:
  assumes "five_points a" "length (analysis_faces a) \<le> MAX_FACES"
  shows "decode_analysis (encode_analysis g a) = (g, a) \<and> encode_analysis g a ! 2 \<noteq> VISION_RESPONSE_ERROR"
proof -
  obtain q0 q1 where v: "u16_be VISION_PROTOCOL_VERSION = [q0, q1]" by (rule u16_be_digits)
  have e: "encode_analysis g a = [q0, q1, RESPONSE_ANALYSIS, word_of_nat (length (analysis_faces a))] @ u64_be g
      @ [brightness (analysis_quality a), contrast (analysis_quality a), sharpness (analysis_quality a), flags (analysis_quality a)]
      @ concat (map face_bytes (analysis_faces a))"
    using assms(2) by (simp add: encode_analysis_def Let_def MAX_FACES_def v)
  have "unat (word_of_nat (length (analysis_faces a)) :: u8) = length (analysis_faces a)"
    using assms(2) by (simp add: unat_of_nat MAX_FACES_def)
  then show ?thesis
    using assms(1) read_faces_bytes [of "analysis_faces a"]
    by (simp add: decode_analysis_def e nth_append five_points_def wire_defs)
qed

theorem analysis_roundtrip_witness:
  "decode_analysis (encode_analysis 42 \<lparr>analysis_faces = [\<lparr>obs_rectangle = \<lparr>rect_x = 1, rect_y = 2, rect_width = 300, rect_height = 4\<rparr>,
      obs_landmarks = [1, 2, 3, 4, 5, 6, 7, 8, 9, 10]\<rparr>], analysis_quality = \<lparr>brightness = 100, contrast = 20, sharpness = 3, flags = 0\<rparr>\<rparr>)
    = (42, \<lparr>analysis_faces = [\<lparr>obs_rectangle = \<lparr>rect_x = 1, rect_y = 2, rect_width = 300, rect_height = 4\<rparr>,
      obs_landmarks = [1, 2, 3, 4, 5, 6, 7, 8, 9, 10]\<rparr>], analysis_quality = \<lparr>brightness = 100, contrast = 20, sharpness = 3, flags = 0\<rparr>\<rparr>)"
  by (rule conjunct1 [OF analysis_roundtrip]) (simp_all add: five_points_def MAX_FACES_def)

end
