(* ===== verification/Directory_Tree.thy ===== *)
theory Directory_Tree
  imports Policy_Store Freshness
begin

text \<open>
  Directories as trees of paths: renaming and removing a directory with everything below it, creating one, and the part
  of the world that an action keeps. A tree is named by the path of its root; \<open>tree w d\<close> is the data below \<open>d\<close>,
  by suffix.
\<close>

section \<open>Trees\<close>

definition suffix_below :: "string \<Rightarrow> string \<Rightarrow> string option" where
  "suffix_below d p =
     (if take (length d) p = d \<and> (length p = length d \<or> p ! length d = CHR ''/'') then Some (drop (length d) p) else None)"

definition below :: "string \<Rightarrow> string set" where
  "below d = {p. suffix_below d p \<noteq> None}"

definition move_tree :: "string \<Rightarrow> string \<Rightarrow> (string \<Rightarrow> inode option) \<Rightarrow> string \<Rightarrow> inode option" where
  "move_tree a b n p =
     (case suffix_below b p of
        Some s \<Rightarrow> n (a @ s)
      | None \<Rightarrow> (case suffix_below a p of Some _ \<Rightarrow> None | None \<Rightarrow> n p))"

text \<open>
  \<^verbatim>\<open>fs::rename\<close> of a directory. A target that exists is refused, as it is by the system unless it is an empty directory;
  the replacement of an empty target is not modelled.
\<close>

definition rename_dir :: "string \<Rightarrow> string \<Rightarrow> (io_kind, unit) io" where
  "rename_dir a b = sys (\<lambda>w.
     case nodes w a of
       None \<Rightarrow> (Inl NotFound, w)
     | Some _ \<Rightarrow>
         if nodes w b \<noteq> None then (Inl AlreadyExists, w)
         else (Inr (), w\<lparr>nodes := move_tree a b (nodes w)\<rparr>))"

text \<open>\<^verbatim>\<open>fs::remove_dir_all\<close>: a failing removal leaves whatever paths \<open>survives\<close> tells.\<close>

definition remove_dir_all :: "(string \<Rightarrow> bool) \<Rightarrow> string \<Rightarrow> (io_kind, unit) io" where
  "remove_dir_all survives d w =
     (case pop_fault w of
        (Some (Fault k n), w') \<Rightarrow>
          (Inl k, w'\<lparr>nodes := (\<lambda>p. if suffix_below d p \<noteq> None \<and> \<not> survives p then None else nodes w' p)\<rparr>)
      | (None, w') \<Rightarrow>
          (case nodes w' d of
             None \<Rightarrow> (Inl NotFound, w')
           | Some i \<Rightarrow>
               if i_kind i \<noteq> Directory then (Inl OtherIo, w')
               else (Inr (), w'\<lparr>nodes := (\<lambda>p. if suffix_below d p \<noteq> None then None else nodes w' p)\<rparr>)))"

definition create_dir :: "string \<Rightarrow> (io_kind, unit) io" where
  "create_dir p = sys (\<lambda>w.
     case nodes w p of
       Some _ \<Rightarrow> (Inl AlreadyExists, w)
     | None \<Rightarrow>
         (Inr (),
          w\<lparr>nodes := (nodes w)(p \<mapsto>
              \<lparr>i_kind = Directory, i_uid = euid w, i_gid = egid w, i_mode = and (oct3 7 7 7) (not (umask w)),
               i_nlink = 2, i_dev = 0, i_ino = next_ino w, i_stamp = stamp w, i_data = []\<rparr>),
            next_ino := next_ino w + 1, stamp := stamp w + 1\<rparr>))"

section \<open>Paths below a directory\<close>

lemma suffix_below_Some: "suffix_below d p = Some s \<longleftrightarrow> p = d @ s \<and> (s = [] \<or> hd s = CHR ''/'')"
proof
  assume "suffix_below d p = Some s"
  then have t: "take (length d) p = d" "length p = length d \<or> p ! length d = CHR ''/''" "s = drop (length d) p"
    by (auto simp: suffix_below_def split: if_splits)
  then have "p = d @ s" by (metis append_take_drop_id)
  moreover from this t(2) have "s = [] \<or> hd s = CHR ''/''" by (cases s) (auto simp: nth_append)
  ultimately show "p = d @ s \<and> (s = [] \<or> hd s = CHR ''/'')" by simp
next
  assume "p = d @ s \<and> (s = [] \<or> hd s = CHR ''/'')"
  then show "suffix_below d p = Some s" by (cases s) (auto simp: suffix_below_def nth_append)
qed

lemma below_iff: "p \<in> below d \<longleftrightarrow> (\<exists>s. p = d @ s \<and> (s = [] \<or> hd s = CHR ''/''))"
proof -
  have "p \<in> below d \<longleftrightarrow> (\<exists>s. suffix_below d p = Some s)" by (auto simp: below_def)
  then show ?thesis by (simp add: suffix_below_Some)
qed

lemma suffix_below_None: "suffix_below d p = None \<longleftrightarrow> p \<notin> below d"
  by (simp add: below_def)

lemma self_below [simp]: "d \<in> below d"
  by (auto simp: below_iff)

lemma join_below: "join d x \<in> below d"
  by (auto simp: below_iff join_def)

lemma below_trans: "p \<in> below e \<Longrightarrow> e \<in> below d \<Longrightarrow> p \<in> below d"
  unfolding below_iff by (metis append.assoc append_Nil hd_append2)

text \<open>Two children of one directory have disjoint trees if neither name contains a slash.\<close>

lemma siblings_disjoint:
  assumes "x \<noteq> y" "CHR ''/'' \<notin> set x" "CHR ''/'' \<notin> set y"
  shows "below (join d x) \<inter> below (join d y) = {}"
proof (rule ccontr)
  assume "below (join d x) \<inter> below (join d y) \<noteq> {}"
  then obtain p where "p \<in> below (join d x)" "p \<in> below (join d y)" by blast
  then obtain s t where "join d x @ s = join d y @ t" and s: "s = [] \<or> hd s = CHR ''/''" and t: "t = [] \<or> hd t = CHR ''/''"
    unfolding below_iff by metis
  then have st: "x @ s = y @ t" by (simp add: join_def)
  have "takeWhile (\<lambda>c. c \<noteq> CHR ''/'') (z @ u) = z" if "CHR ''/'' \<notin> set z" "u = [] \<or> hd u = CHR ''/''" for z u :: string
    using that by (cases u) (auto simp: takeWhile_append intro!: takeWhile_eq_all_conv [THEN iffD2])
  from this [OF assms(2) s] this [OF assms(3) t] st assms(1) show False by simp
qed

section \<open>What the actions keep\<close>

lemma move_tree_other: "p \<notin> below a \<Longrightarrow> p \<notin> below b \<Longrightarrow> move_tree a b n p = n p"
  by (simp add: move_tree_def suffix_below_None [symmetric])

lemma keeps_rename_dir: "P \<inter> below a = {} \<Longrightarrow> P \<inter> below b = {} \<Longrightarrow> keeps P (rename_dir a b)"
  unfolding rename_dir_def by (rule keeps_sys) (auto simp: disjoint_iff move_tree_other split: option.split)

lemma keeps_remove_dir_all:
  assumes "P \<inter> below d = {}"
  shows "keeps P (remove_dir_all survives d)"
proof (rule keepsI)
  fix w p
  assume "p \<in> P"
  then have "suffix_below d p = None" using assms by (auto simp: suffix_below_None)
  moreover obtain f v where "pop_fault w = (f, v)" by fastforce
  ultimately show "nodes (snd (remove_dir_all survives d w)) p = nodes w p"
    using nodes_pop_fault [of w f v] by (auto simp: remove_dir_all_def split: option.split fault.split)
qed

lemma keeps_create_dir: "p \<notin> P \<Longrightarrow> keeps P (create_dir p)"
  unfolding create_dir_def by (rule keeps_sys) (auto split: option.split)

lemma keeps_subset: "keeps Q m \<Longrightarrow> P \<subseteq> Q \<Longrightarrow> keeps P m"
  by (auto simp: keeps_def)

text \<open>The data below a directory, without owners, modes and times.\<close>

definition tree :: "world \<Rightarrow> string \<Rightarrow> string \<Rightarrow> (file_kind \<times> bytes) option" where
  "tree w d s = (if s = [] \<or> hd s = CHR ''/'' then map_option (\<lambda>i. (i_kind i, i_data i)) (nodes w (d @ s)) else None)"

lemma tree_cong: "(\<And>p. p \<in> below d \<Longrightarrow> nodes w' p = nodes w p) \<Longrightarrow> tree w' d = tree w d"
  by (auto simp: tree_def fun_eq_iff below_iff)

lemma keeps_tree: "keeps (below d) m \<Longrightarrow> m w = (r, w') \<Longrightarrow> tree w' d = tree w d"
  by (rule tree_cong) (metis keepsD snd_conv)

lemma rename_dir_cases:
  assumes "rename_dir a b w = (r, w')"
  obtains e where "r = Inl e" "nodes w' = nodes w"
  | "r = Inr ()" "nodes w b = None" "nodes w' = move_tree a b (nodes w)"
proof -
  obtain f v where f: "pop_fault w = (f, v)" by fastforce
  from assms nodes_pop_fault [OF f] that show thesis
    by (auto simp: rename_dir_def sys_def f split: option.splits fault.splits if_splits)
qed

lemma move_tree_trees:
  assumes "below a \<inter> below b = {}" "nodes w' = move_tree a b (nodes w)"
  shows "tree w' b = tree w a" "tree w' a = (\<lambda>_. None)"
proof -
  have b: "suffix_below b (b @ s) = Some s" if "s = [] \<or> hd s = CHR ''/''" for s
    using that by (simp add: suffix_below_Some)
  have a: "suffix_below b (a @ s) = None \<and> suffix_below a (a @ s) = Some s" if s: "s = [] \<or> hd s = CHR ''/''" for s
  proof -
    from s have "a @ s \<in> below a" by (auto simp: below_iff)
    then have "a @ s \<notin> below b" using assms(1) by blast
    then show ?thesis using s by (simp add: suffix_below_None suffix_below_Some)
  qed
  show "tree w' b = tree w a" using b by (auto simp: fun_eq_iff tree_def assms(2) move_tree_def)
  show "tree w' a = (\<lambda>_. None)" using a by (auto simp: fun_eq_iff tree_def assms(2) move_tree_def)
qed

lemma remove_dir_all_Inr: "remove_dir_all survives d w = (Inr u, w') \<Longrightarrow> tree w' d = (\<lambda>_. None)"
proof -
  assume a: "remove_dir_all survives d w = (Inr u, w')"
  then have "nodes w' p = None" if "p \<in> below d" for p
    using that by (auto simp: remove_dir_all_def below_def split: prod.splits option.splits fault.splits if_splits)
  then show ?thesis by (auto simp: fun_eq_iff tree_def below_iff)
qed

text \<open>A change of owner and mode leaves the data.\<close>

lemma tree_set_fd_permissions: "set_fd_permissions p owner mode g w = (r, w') \<Longrightarrow> tree w' d = tree w d"
proof -
  assume a: "set_fd_permissions p owner mode g w = (r, w')"
  obtain f v where f: "pop_fault w = (f, v)" by fastforce
  from a nodes_pop_fault [OF f] show ?thesis
    by (auto simp: fun_eq_iff tree_def set_fd_permissions_def sys_def f fs_update_def split: option.splits fault.splits)
qed

section \<open>Frames as relations\<close>

text \<open>
  An action stays within a relation if it relates the worlds before and after whatever fails. For a preorder the
  combinators compose such actions; the frames of the tools above are instances.
\<close>

definition stays_in :: "(world \<Rightarrow> world \<Rightarrow> bool) \<Rightarrow> ('e, 'a) io \<Rightarrow> bool" where
  "stays_in R m \<longleftrightarrow> (\<forall>w. R w (snd (m w)))"

lemma stays_inD: "stays_in R m \<Longrightarrow> m w = (r, w') \<Longrightarrow> R w w'"
  by (metis stays_in_def snd_conv)

locale frame_relation =
  fixes R :: "world \<Rightarrow> world \<Rightarrow> bool"
  assumes frame_refl: "R w w"
    and frame_trans: "R u v \<Longrightarrow> R v w \<Longrightarrow> R u w"
begin

lemma frame_bind: "stays_in R m \<Longrightarrow> (\<And>x. stays_in R (f x)) \<Longrightarrow> stays_in R (wbind m f)"
  unfolding stays_in_def wbind_def by (auto split: prod.split sum.split) (metis frame_trans snd_conv)+

lemma frame_flow:
  "stays_in R (wreturn x)" "stays_in R (wfail e)" "stays_in R (wlift r)" "stays_in R m \<Longrightarrow> stays_in R (wmap_err g m)"
  "stays_in R m \<Longrightarrow> stays_in R n \<Longrightarrow> stays_in R (if b then m else n)"
  "stays_in R m \<Longrightarrow> stays_in R n \<Longrightarrow> stays_in R (\<lambda>w. if c w then m w else n w)"
  by (auto simp: stays_in_def wreturn_def wfail_def wlift_def wmap_err_def frame_refl split: prod.splits) (metis snd_conv)

lemma frame_lookup:
  assumes "stays_in R (symlink_metadata p)" "\<And>k. stays_in R (f k)" "\<And>m. stays_in R (g m)"
  shows "stays_in R (\<lambda>w. case symlink_metadata p w of (Inl k, w') \<Rightarrow> f k w' | (Inr m, w') \<Rightarrow> g m w')"
  using assms unfolding stays_in_def by (auto split: prod.split sum.split) (metis frame_trans snd_conv)+

end

text \<open>Keeping the inodes at some paths is such a frame.\<close>

definition same_at :: "string set \<Rightarrow> world \<Rightarrow> world \<Rightarrow> bool" where
  "same_at P w w' \<longleftrightarrow> (\<forall>p \<in> P. nodes w' p = nodes w p)"

interpretation same_at: frame_relation "same_at P" for P
  by unfold_locales (auto simp: same_at_def)

lemma keeps_stays_in: "keeps P m \<longleftrightarrow> stays_in (same_at P) m"
  by (simp add: keeps_def stays_in_def same_at_def)

text \<open>Keeping the data of every directory, and not letting anything appear.\<close>

definition same_data :: "world \<Rightarrow> world \<Rightarrow> bool" where
  "same_data w w' \<longleftrightarrow> (\<forall>d. tree w' d = tree w d)"

interpretation same_data: frame_relation same_data
  by unfold_locales (auto simp: same_data_def)

definition nothing_new :: "world \<Rightarrow> world \<Rightarrow> bool" where
  "nothing_new w w' \<longleftrightarrow> (\<forall>p. nodes w p = None \<longrightarrow> nodes w' p = None)"

interpretation nothing_new: frame_relation nothing_new
  by unfold_locales (auto simp: nothing_new_def)

end
