(* ===== verification/Sync_Options.thy ===== *)
theory Sync_Options
  imports Policy_Store Wire_Protocol
begin

text \<open>
  The command line and the standard input of \<^verbatim>\<open>engine/templates/src/bin/kfaceauth-sync-vault.rs\<close>: the operation and the
  user it is for, and the data directory with the user-session key that the authorized process hands over. Messages to
  the terminal are left out; every failure is the unit error of the source.
\<close>

section \<open>Arguments\<close>

datatype sync_operation = Enable auth_target auth_policy_mode | Disable auth_target | DeleteProfile | ResyncProfile

record sync_options =
  target_uid :: u32
  operation :: sync_operation

definition parse_pkexec_uid :: "string option \<Rightarrow> string option \<Rightarrow> unit + u32" where
  "parse_pkexec_uid pkexec requested =
     (case pkexec of
        None \<Rightarrow> Inl ()
      | Some s \<Rightarrow>
          if s = [] \<or> \<not> list_all is_ascii_digit s then Inl ()
          else case parse_u32 s of
            None \<Rightarrow> Inl ()
          | Some pkexec_uid \<Rightarrow>
              if pkexec_uid = 0 \<or> u32_to_string pkexec_uid \<noteq> s then Inl ()
              else case requested of
                None \<Rightarrow> Inr pkexec_uid
              | Some r \<Rightarrow>
                  if parse_u32 r \<noteq> Some pkexec_uid \<or> r \<noteq> u32_to_string pkexec_uid then Inl () else Inr pkexec_uid)"

definition parse_target :: "string \<Rightarrow> unit + auth_target" where
  "parse_target s =
     (if s = ''sddm'' then Inr Sddm else if s = ''plasma-lock'' then Inr PlasmaLock else Inl ())"

text \<open>The mutable variables of the argument loop.\<close>

record sync_args =
  enable_target :: "string option"
  disable_target_arg :: "string option"
  delete_flag :: bool
  resync_flag :: bool
  requested_mode :: "string option"
  requested_uid :: "string option"

definition no_args :: sync_args where
  "no_args = \<lparr>enable_target = None, disable_target_arg = None, delete_flag = False, resync_flag = False,
     requested_mode = None, requested_uid = None\<rparr>"

text \<open>The loop returns the collected arguments, or \<open>None\<close> when help was printed. A repeated option is unknown.\<close>

function args_loop :: "sync_args \<Rightarrow> string list \<Rightarrow> unit + sync_args option" where
  "args_loop st [] = Inr (Some st)"
| "args_loop st (arg # rest) =
     (if arg = ''--enable-target'' \<and> enable_target st = None then
        (case rest of [] \<Rightarrow> Inl () | v # rest' \<Rightarrow> args_loop (st\<lparr>enable_target := Some v\<rparr>) rest')
      else if arg = ''--disable-target'' \<and> disable_target_arg st = None then
        (case rest of [] \<Rightarrow> Inl () | v # rest' \<Rightarrow> args_loop (st\<lparr>disable_target_arg := Some v\<rparr>) rest')
      else if arg = ''--delete-profile'' \<and> \<not> delete_flag st then args_loop (st\<lparr>delete_flag := True\<rparr>) rest
      else if arg = ''--resync-profile'' \<and> \<not> resync_flag st then args_loop (st\<lparr>resync_flag := True\<rparr>) rest
      else if arg = ''--mode'' \<and> requested_mode st = None then
        (case rest of [] \<Rightarrow> Inl () | v # rest' \<Rightarrow> args_loop (st\<lparr>requested_mode := Some v\<rparr>) rest')
      else if arg = ''--uid'' \<and> requested_uid st = None then
        (case rest of [] \<Rightarrow> Inl () | v # rest' \<Rightarrow> args_loop (st\<lparr>requested_uid := Some v\<rparr>) rest')
      else if arg = ''--help'' \<or> arg = ''-h'' then Inr None
      else Inl ())"
  by pat_completeness auto
termination by (relation "measure (\<lambda>(st, args). length args)") auto

definition parse_enable_mode :: "string option \<Rightarrow> unit + auth_policy_mode" where
  "parse_enable_mode requested =
     (let m = (case requested of None \<Rightarrow> ''on-activity'' | Some m \<Rightarrow> m) in
      if m = ''off'' then Inr Off
      else if m = ''on-activity'' then Inr OnActivity
      else if m = ''manual'' then Inr Manual
      else Inl ())"

definition args_operation :: "sync_args \<Rightarrow> unit + sync_operation" where
  "args_operation st =
     (if of_bool (enable_target st \<noteq> None) + of_bool (disable_target_arg st \<noteq> None) + of_bool (delete_flag st)
         + of_bool (resync_flag st) \<noteq> (1 :: nat)
      then Inl ()
      else case enable_target st of
        Some target \<Rightarrow>
          rbind (parse_target target) (\<lambda>t. rbind (parse_enable_mode (requested_mode st)) (\<lambda>m. Inr (Enable t m)))
      | None \<Rightarrow>
          (case disable_target_arg st of
             Some target \<Rightarrow>
               if requested_mode st \<noteq> None then Inl () else rbind (parse_target target) (\<lambda>t. Inr (Disable t))
           | None \<Rightarrow>
               if resync_flag st then
                 (if requested_mode st \<noteq> None \<or> requested_uid st \<noteq> None then Inl () else Inr ResyncProfile)
               else if requested_mode st \<noteq> None then Inl ()
               else if requested_uid st = None then Inl ()
               else Inr DeleteProfile))"

definition parse_args :: "string list \<Rightarrow> string option \<Rightarrow> unit + sync_options option" where
  "parse_args args pkexec =
     rbind (args_loop no_args args) (\<lambda>st.
       case st of
         None \<Rightarrow> Inr None
       | Some st \<Rightarrow>
           rbind (args_operation st) (\<lambda>op.
           rbind (parse_pkexec_uid pkexec (requested_uid st)) (\<lambda>uid.
           Inr (Some \<lparr>target_uid = uid, operation = op\<rparr>))))"

section \<open>The user-session input\<close>

definition INPUT_MAGIC :: bytes where "INPUT_MAGIC = text_bytes ''KFAUTH01''"
definition MAX_DATA_HOME_BYTES :: nat where "MAX_DATA_HOME_BYTES = 4096"

text \<open>
  \<^verbatim>\<open>Path::components\<close> drops repeated slashes and single dots inside an absolute path, so the only component other than
  the root and normal names is \<^verbatim>\<open>..\<close>.
\<close>

fun path_components :: "string \<Rightarrow> string \<Rightarrow> string list" where
  "path_components acc [] = [rev acc]"
| "path_components acc (c # s) =
     (if c = CHR ''/'' then rev acc # path_components [] s else path_components (c # acc) s)"

definition absolute_normal :: "string \<Rightarrow> bool" where
  "absolute_normal p \<longleftrightarrow> take 1 p = ''/'' \<and> ''..'' \<notin> set (path_components [] p)"

definition read_input :: "nat \<Rightarrow> reader \<Rightarrow> (unit + bytes) \<times> reader" where
  "read_input n rd = (case read_exact n [] rd of (r, rd') \<Rightarrow> (map_err (\<lambda>_. ()) r, rd'))"

definition read_path_text :: "reader \<Rightarrow> (unit + string) \<times> reader" where
  "read_path_text rd =
     (case read_input 8 rd of
        (Inl _, rd1) \<Rightarrow> (Inl (), rd1)
      | (Inr magic, rd1) \<Rightarrow>
          if magic \<noteq> INPUT_MAGIC then (Inl (), rd1)
          else case read_input 2 rd1 of
            (Inl _, rd2) \<Rightarrow> (Inl (), rd2)
          | (Inr len, rd2) \<Rightarrow>
              let path_len = unat (u16_from_be len) in
              if path_len = 0 \<or> path_len > MAX_DATA_HOME_BYTES then (Inl (), rd2)
              else case read_input path_len rd2 of
                (Inl _, rd3) \<Rightarrow> (Inl (), rd3)
              | (Inr path, rd3) \<Rightarrow>
                  if \<not> utf8_valid (map unat path) then (Inl (), rd3)
                  else if \<not> absolute_normal (bytes_text path) then (Inl (), rd3)
                  else (Inr (bytes_text path), rd3))"

text \<open>The key is followed by the end of the input: one more read has to return no byte.\<close>

definition read_session_key :: "reader \<Rightarrow> unit + bytes" where
  "read_session_key rd =
     (case read_input 32 rd of
        (Inl _, _) \<Rightarrow> Inl ()
      | (Inr key, rd1) \<Rightarrow>
          (case read_call 1 rd1 of
             (Inl _, _) \<Rightarrow> Inl ()
           | (Inr trailing, _) \<Rightarrow> if trailing \<noteq> [] then Inl () else Inr key))"

text \<open>The bridge refuses a path with a zero byte before it opens the directory; only a directory can be opened so.\<close>

definition open_directory :: "string \<Rightarrow> (io_kind, unit) io" where
  "open_directory p = sys (\<lambda>w.
     (case nodes w p of
        None \<Rightarrow> Inl NotFound
      | Some i \<Rightarrow> if i_kind i = Directory then Inr () else Inl OtherIo, w))"

definition open_directory_nofollow :: "string \<Rightarrow> (unit, unit) io" where
  "open_directory_nofollow p =
     (if 0 \<in> set (text_bytes p) then wfail () else wmap_err (\<lambda>_. ()) (open_directory p))"

lemma keeps_open_directory [keeps_rules]: "keeps P (open_directory p)" "keeps P (open_directory_nofollow p)"
proof -
  show "keeps P (open_directory p)" unfolding open_directory_def by (rule keeps_sys) simp
  then show "keeps P (open_directory_nofollow p)" unfolding open_directory_nofollow_def by (intro keeps_rules)
qed

definition data_home_safe :: "u32 \<Rightarrow> metadata \<Rightarrow> bool" where
  "data_home_safe uid m \<longleftrightarrow> md_kind m = Directory \<and> md_uid m = uid \<and> and (md_mode m) (oct3 0 2 2) = 0"

definition read_user_session_input :: "u32 \<Rightarrow> reader \<Rightarrow> (unit, string \<times> bytes) io" where
  "read_user_session_input uid rd =
     (case read_path_text rd of
        (Inl _, _) \<Rightarrow> wfail ()
      | (Inr data_home, rd') \<Rightarrow>
          wbind (open_directory_nofollow data_home) (\<lambda>_.
          wbind (wmap_err (\<lambda>_. ()) (fd_metadata data_home)) (\<lambda>m.
          if \<not> data_home_safe uid m then wfail ()
          else wbind (wlift (read_session_key rd')) (\<lambda>key. wreturn (data_home, key)))))"

section \<open>Who may ask for what\<close>

lemma parse_pkexec_uid_Inr:
  "parse_pkexec_uid pk req = Inr uid \<longleftrightarrow>
     uid \<noteq> 0 \<and> pk = Some (u32_to_string uid) \<and> (req = None \<or> req = Some (u32_to_string uid))"
proof
  assume "parse_pkexec_uid pk req = Inr uid"
  then show "uid \<noteq> 0 \<and> pk = Some (u32_to_string uid) \<and> (req = None \<or> req = Some (u32_to_string uid))"
    by (simp add: parse_pkexec_uid_def split: option.split_asm if_split_asm)
next
  assume a: "uid \<noteq> 0 \<and> pk = Some (u32_to_string uid) \<and> (req = None \<or> req = Some (u32_to_string uid))"
  have "u32_to_string uid \<noteq> []" "list_all is_ascii_digit (u32_to_string uid)"
    using show_nat_digits [of "unat uid"] by (simp_all add: u32_to_string_def list_all_iff)
  with a show "parse_pkexec_uid pk req = Inr uid" by (elim conjE disjE) (simp_all add: parse_pkexec_uid_def)
qed

text \<open>What the loop collected stands in the command line.\<close>

definition option_given :: "string list \<Rightarrow> string \<Rightarrow> string \<Rightarrow> bool" where
  "option_given args name x \<longleftrightarrow> (\<exists>xs ys. args = xs @ [name, x] @ ys)"

definition given :: "string \<Rightarrow> string option \<Rightarrow> string list \<Rightarrow> bool" where
  "given name v args \<longleftrightarrow> (\<forall>x. v = Some x \<longrightarrow> option_given args name x)"

definition collected :: "string list \<Rightarrow> sync_args \<Rightarrow> bool" where
  "collected args st \<longleftrightarrow> given ''--enable-target'' (enable_target st) args
     \<and> given ''--disable-target'' (disable_target_arg st) args
     \<and> given ''--mode'' (requested_mode st) args \<and> given ''--uid'' (requested_uid st) args
     \<and> (delete_flag st \<longrightarrow> ''--delete-profile'' \<in> set args)
     \<and> (resync_flag st \<longrightarrow> ''--resync-profile'' \<in> set args)"

lemma given_append: "given opt v args \<Longrightarrow> given opt v (args @ rest)"
  unfolding given_def option_given_def by (metis append.assoc)

lemma given_last: "given opt (Some x) (args @ [opt, x])"
  unfolding given_def option_given_def by (metis append.right_neutral option.inject)

lemma collected_append: "collected args st \<Longrightarrow> collected (args @ rest) st"
  by (auto simp: collected_def given_append)

lemma collected_step:
  assumes "collected seen st"
  shows "collected (seen @ [''--enable-target'', v]) (st\<lparr>enable_target := Some v\<rparr>)"
    "collected (seen @ [''--disable-target'', v]) (st\<lparr>disable_target_arg := Some v\<rparr>)"
    "collected (seen @ [''--mode'', v]) (st\<lparr>requested_mode := Some v\<rparr>)"
    "collected (seen @ [''--uid'', v]) (st\<lparr>requested_uid := Some v\<rparr>)"
    "collected (seen @ [''--delete-profile'']) (st\<lparr>delete_flag := True\<rparr>)"
    "collected (seen @ [''--resync-profile'']) (st\<lparr>resync_flag := True\<rparr>)"
  using assms by (simp_all add: collected_def given_append given_last)

lemma args_loop_collected:
  "args_loop st args = Inr (Some st') \<Longrightarrow> collected seen st \<Longrightarrow> collected (seen @ args) st'"
proof (induction st args arbitrary: seen rule: args_loop.induct)
  case (1 st)
  then show ?case by simp
next
  case (2 st arg rest)
  note IH = "2.IH" and step = collected_step [OF "2.prems"(2)]
  show ?case
  proof (cases rest)
    case Nil
    with 2 show ?thesis
      by (auto split: if_split_asm simp: step)
  next
    case (Cons v rest')
    with 2 step show ?thesis
      by (simp split: if_split_asm) (metis append.assoc append_Cons append_Nil)+
  qed
qed

text \<open>
  Claim C22: a command line is accepted only for the user who authorized it: the uid is the canonical decimal number in
  \<^verbatim>\<open>PKEXEC_UID\<close>, it is not root, and every \<^verbatim>\<open>--uid\<close> option that was collected repeats it. A profile is deleted only if
  the line says so and names that user, and a target is enabled or disabled only if it was given with that option.
\<close>

theorem sync_request_authorized:
  assumes "parse_args args pkexec = Inr (Some opts)"
  shows "target_uid opts \<noteq> 0 \<and> pkexec = Some (u32_to_string (target_uid opts))
    \<and> (case operation opts of
         DeleteProfile \<Rightarrow> ''--delete-profile'' \<in> set args
           \<and> option_given args ''--uid'' (u32_to_string (target_uid opts))
       | ResyncProfile \<Rightarrow> ''--resync-profile'' \<in> set args
       | Enable t m \<Rightarrow> option_given args ''--enable-target'' (target_key t)
       | Disable t \<Rightarrow> option_given args ''--disable-target'' (target_key t))"
proof -
  obtain st where st: "args_loop no_args args = Inr (Some st)" "args_operation st = Inr (operation opts)"
    "parse_pkexec_uid pkexec (requested_uid st) = Inr (target_uid opts)"
    using assms by (auto simp: parse_args_def rbind_eq_Inr split: option.splits)
  have "collected ([] @ args) st"
    by (rule args_loop_collected [OF st(1)]) (simp add: collected_def no_args_def given_def)
  then have c: "collected args st" by simp
  have t: "parse_target s = Inr t \<Longrightarrow> s = target_key t" for s t
    by (cases t) (auto simp: parse_target_def split: if_splits)
  show ?thesis
    using st(2,3) c
    by (auto simp: parse_pkexec_uid_Inr args_operation_def collected_def given_def rbind_eq_Inr dest!: t
        split: sync_operation.splits option.splits if_splits)
qed

theorem sync_request_authorized_witness:
  "\<exists>opts :: sync_options. parse_args [''--delete-profile'', ''--uid'', ''7''] (Some ''7'') = Inr (Some opts)
    \<and> target_uid opts \<noteq> 0 \<and> ''7'' = u32_to_string (target_uid opts)"
proof -
  have "u32_to_string 7 = ''7''" by code_simp
  then have "parse_pkexec_uid (Some ''7'') (Some ''7'') = Inr 7" by (simp add: parse_pkexec_uid_Inr)
  then have "parse_args [''--delete-profile'', ''--uid'', ''7''] (Some ''7'')
      = Inr (Some \<lparr>target_uid = 7, operation = DeleteProfile\<rparr>)"
    by (simp add: parse_args_def args_operation_def no_args_def)
  from this sync_request_authorized [OF this] show ?thesis by auto
qed

section \<open>What the input says\<close>

lemma read_input_smooth:
  assumes "smooth rd" "read_input n rd = (Inr bs, rd')"
  shows "smooth rd'" "stream_bytes rd = bs @ stream_bytes rd'" "length bs = n"
proof -
  obtain res where "read_exact n [] rd = (res, rd')" "map_err (\<lambda>_. ()) res = Inr bs"
    using assms(2) by (auto simp: read_input_def split: prod.splits)
  with read_exact_smooth [OF assms(1), of "[]" n res rd'] show "smooth rd'" "stream_bytes rd = bs @ stream_bytes rd'" "length bs = n"
    by (auto split: if_splits)
qed

lemma read_path_text_smooth:
  assumes "smooth rd" "read_path_text rd = (Inr p, rd')"
  shows "smooth rd'" "0 < length p" "length p \<le> MAX_DATA_HOME_BYTES" "absolute_normal p"
    "stream_bytes rd = INPUT_MAGIC @ u16_be (word_of_nat (length p)) @ text_bytes p @ stream_bytes rd'"
proof -
  obtain rd1 rd2 len path where r: "read_input 8 rd = (Inr INPUT_MAGIC, rd1)" "read_input 2 rd1 = (Inr len, rd2)"
    "unat (u16_from_be len) \<noteq> 0" "unat (u16_from_be len) \<le> MAX_DATA_HOME_BYTES"
    "read_input (unat (u16_from_be len)) rd2 = (Inr path, rd')" "absolute_normal (bytes_text path)" "p = bytes_text path"
    using assms(2) by (auto simp: read_path_text_def Let_def split: prod.splits sum.splits if_splits)
  note s1 = read_input_smooth [OF assms(1) r(1)]
  note s2 = read_input_smooth [OF s1(1) r(2)]
  note s3 = read_input_smooth [OF s2(1) r(5)]
  have l: "length p = unat (u16_from_be len)" using s3(3) r(7) by (simp add: bytes_text_def)
  then have "u16_be (word_of_nat (length p)) = len" using be_to_from(1) [OF s2(3)] by simp
  with s1 s2 s3 r l show "smooth rd'" "0 < length p" "length p \<le> MAX_DATA_HOME_BYTES" "absolute_normal p"
    "stream_bytes rd = INPUT_MAGIC @ u16_be (word_of_nat (length p)) @ text_bytes p @ stream_bytes rd'"
    by auto
qed

lemma read_session_key_smooth:
  assumes "smooth rd" "read_session_key rd = Inr key"
  shows "stream_bytes rd = key" "length key = 32"
proof -
  obtain rd1 rd2 where r: "read_input 32 rd = (Inr key, rd1)" "read_call 1 rd1 = (Inr [], rd2)"
    using assms(2) by (auto simp: read_session_key_def split: prod.splits sum.splits if_splits)
  note s = read_input_smooth [OF assms(1) r(1)]
  from read_call_smooth(3) [OF s(1) _ r(2)] have "stream_bytes rd1 = []" by simp
  with s show "stream_bytes rd = key" "length key = 32" by simp_all
qed

text \<open>
  However the input arrives in pieces, it is accepted only if it is the magic, the length-prefixed path and a
  key of 32 bytes with nothing after it; the path is absolute without a parent component, and it names a directory that
  belongs to the target user and that no one else may write. Reading changes no file.
\<close>

theorem session_input_exact:
  assumes "smooth rd" "read_user_session_input uid rd w = (Inr (home, key), w')"
  shows "stream_bytes rd = INPUT_MAGIC @ u16_be (word_of_nat (length home)) @ text_bytes home @ key
    \<and> length key = 32 \<and> 0 < length home \<and> length home \<le> MAX_DATA_HOME_BYTES \<and> absolute_normal home
    \<and> nodes w' = nodes w
    \<and> (\<exists>i. nodes w home = Some i \<and> i_kind i = Directory \<and> i_uid i = uid \<and> and (i_mode i) (oct3 0 2 2) = 0)"
proof -
  obtain rd1 w1 m where r: "read_path_text rd = (Inr home, rd1)" "open_directory_nofollow home w = (Inr (), w1)"
    "fd_metadata home w1 = (Inr m, w')" "data_home_safe uid m" "read_session_key rd1 = Inr key"
    using assms(2)
    by (auto simp: read_user_session_input_def io_success split: prod.splits sum.splits if_splits)
  have n: "nodes w1 = nodes w" "nodes w' = nodes w1"
    using r(2,3) keeps_all_nodes [OF keeps_open_directory(2), of home w] keeps_all_nodes [OF keeps_queries(3), of home w1]
    by simp_all
  obtain i where "nodes w1 home = Some i" "m = stat i" using metadata_Inr(2) [OF r(3)] by blast
  with n r(4) have "\<exists>i. nodes w home = Some i \<and> i_kind i = Directory \<and> i_uid i = uid \<and> and (i_mode i) (oct3 0 2 2) = 0"
    by (auto simp: data_home_safe_def stat_def)
  with read_path_text_smooth [OF assms(1) r(1)] read_session_key_smooth [OF _ r(5)] n show ?thesis by simp
qed

definition home_world :: world where
  "home_world = \<lparr>nodes = [''/h'' \<mapsto> root_inode Directory (oct3 7 0 0) 2 []], euid = 0, egid = 0, umask = 0,
     group_ids = Map.empty, next_ino = 2, stamp = 1, script = []\<rparr>"

definition home_input :: reader where
  "home_input = [Chunk (text_bytes ''KFAUTH01''), ReadErr Interrupted, Chunk ([0, 2, 47] @ [104] @ replicate 32 7)]"

theorem session_input_exact_witness:
  "length (stream_bytes home_input) = 44
    \<and> fst (read_user_session_input 0 home_input home_world) = Inr (''/h'', replicate 32 7)"
proof -
  have s: "smooth home_input" by (simp add: home_input_def text_bytes_def)
  have r: "fst (read_user_session_input 0 home_input home_world) = Inr (''/h'', replicate 32 7)" by code_simp
  then obtain w' where "read_user_session_input 0 home_input home_world = (Inr (''/h'', replicate 32 7), w')"
    by (metis prod.collapse)
  from session_input_exact [OF s this] r show ?thesis by (simp add: INPUT_MAGIC_def text_bytes_def)
qed

end
