(* ===== verification/Profile_Sync.thy ===== *)
theory Profile_Sync
  imports Directory_Tree Sync_Options
begin

text \<open>
  The privileged synchronization tool, \<^verbatim>\<open>engine/templates/src/bin/kfaceauth-sync-vault.rs\<close>: the fixed directories, the
  policy with its lock, the system key, the staged profile and its swap into place, the commit with its rollbacks, the
  removal of a target and of a whole profile, and the program that dispatches to them. A directory handle is the path
  of the directory; \<^verbatim>\<open>/proc/self/fd\<close> paths therefore are the paths themselves. Messages on the error stream are left
  out.
\<close>

section \<open>The environment of the tool\<close>

text \<open>
  What a run needs besides the filesystem: the sources of the vault (\<open>se_vault\<close>), its process id, the readings of the wall
  clock in the order of the calls below (\<open>se_clock\<close>, in nanoseconds since the epoch if the clock is not before it), the
  external preparation program, the native key loader and key writer, a freshly generated key, the order in which a
  directory lists its names, and the paths that survive a failing recursive removal.
\<close>

record sync_env =
  se_vault :: vault_env
  se_pid :: nat
  se_clock :: "nat \<Rightarrow> nat option"
  se_spawn :: "string \<Rightarrow> string list \<Rightarrow> (io_kind, bool) io"
  se_loader :: "world \<Rightarrow> u32 \<Rightarrow> bytes option \<Rightarrow> int \<times> bytes"
  se_seal :: "u32 \<Rightarrow> bytes \<Rightarrow> string \<Rightarrow> (crypto_error, unit) io"
  se_generated :: "crypto_error + bytes"
  se_entries :: "string \<Rightarrow> world \<Rightarrow> string list"
  se_survives :: "string \<Rightarrow> bool"

abbreviation unit_err :: "('e, 'a) io \<Rightarrow> (unit, 'a) io" where
  "unit_err \<equiv> wmap_err (\<lambda>_. ())"

definition SYSTEM_GROUP :: string where "SYSTEM_GROUP = ''kfaceauth''"

record anchored_directories =
  system_root :: string
  config_dir :: string
  keys_dir :: string

definition production_paths :: anchored_directories where
  "production_paths = \<lparr>system_root = ''/var/lib/kfaceauth'', config_dir = ''/etc/kfaceauth'',
     keys_dir = ''/etc/kfaceauth/keys''\<rparr>"

definition open_child_directory_nofollow :: "string \<Rightarrow> string \<Rightarrow> (io_kind, unit) io" where
  "open_child_directory_nofollow parent name = sys (\<lambda>w.
     (case nodes w (join parent name) of
        None \<Rightarrow> Inl NotFound
      | Some i \<Rightarrow> if i_kind i = Directory then Inr () else Inl OtherIo, w))"

definition open_child_file_nofollow :: "string \<Rightarrow> string \<Rightarrow> (io_kind, unit) io" where
  "open_child_file_nofollow parent name = open_nofollow (join parent name)"

definition ensure_child_directory :: "string \<Rightarrow> string \<Rightarrow> u32 \<Rightarrow> string \<Rightarrow> (unit, string) io" where
  "ensure_child_directory parent name mode grp w =
     (case create_dir (join parent name) w of
        (r, w') \<Rightarrow>
          if \<not> is_ok r \<and> r \<noteq> Inl AlreadyExists then wfail () w'
          else wbind (unit_err (open_child_directory_nofollow parent name)) (\<lambda>_.
            wbind (unit_err (set_fd_permissions (join parent name) 0 mode grp)) (\<lambda>_.
            wbind (unit_err (fd_metadata (join parent name))) (\<lambda>m.
            wbind (unit_err (group_id grp)) (\<lambda>gid.
            if md_uid m \<noteq> 0 \<or> md_gid m \<noteq> gid \<or> perm m \<noteq> mode then wfail ()
            else wreturn (join parent name))))) w')"

definition production :: "(unit, anchored_directories) io" where
  "production =
     wbind (open_directory_nofollow ''/var/lib'') (\<lambda>_.
     wbind (ensure_child_directory ''/var/lib'' ''kfaceauth'' (oct3 7 5 0) ''kfaceauth'') (\<lambda>sysroot.
     wbind (open_directory_nofollow ''/etc'') (\<lambda>_.
     wbind (ensure_child_directory ''/etc'' ''kfaceauth'' (oct3 7 5 5) ''root'') (\<lambda>config.
     wbind (ensure_child_directory config ''keys'' (oct3 7 5 0) SYSTEM_GROUP) (\<lambda>keys.
     wreturn \<lparr>system_root = sysroot, config_dir = config, keys_dir = keys\<rparr>)))))"

text \<open>
  The lock file of the bridge: created if it is missing, then checked, made private and locked. A lock that is held
  elsewhere is a failure of the last call.
\<close>

definition open_lock_file :: "string \<Rightarrow> (io_kind, unit) io" where
  "open_lock_file p = sys (\<lambda>w.
     case nodes w p of
       Some i \<Rightarrow> ((case i_kind i of Regular \<Rightarrow> Inr () | _ \<Rightarrow> Inl OtherIo), w)
     | None \<Rightarrow>
         (Inr (),
          w\<lparr>nodes := (nodes w)(p \<mapsto>
              \<lparr>i_kind = Regular, i_uid = euid w, i_gid = egid w, i_mode = and (oct3 6 0 0) (not (umask w)),
               i_nlink = 1, i_dev = 0, i_ino = next_ino w, i_stamp = stamp w, i_data = []\<rparr>),
            next_ino := next_ino w + 1, stamp := stamp w + 1\<rparr>))"

definition lock_child_file_nonblocking :: "string \<Rightarrow> string \<Rightarrow> (unit, unit) io" where
  "lock_child_file_nonblocking parent name =
     unit_err (wbind (open_lock_file (join parent name)) (\<lambda>_.
       wbind (fd_metadata (join parent name)) (\<lambda>m w.
       if md_kind m \<noteq> Regular \<or> md_nlink m \<noteq> 1 \<or> md_uid m \<noteq> euid w then wfail OtherIo w
       else wbind (sys (\<lambda>w. (Inr (), fs_update (join parent name) (\<lambda>i. i\<lparr>i_mode := oct3 6 0 0\<rparr>) w))) (\<lambda>_.
            sys (\<lambda>w. (Inr (), w))) w)))"

section \<open>The policy\<close>

fun setup_loop :: "sync_env \<Rightarrow> string list \<Rightarrow> string list \<Rightarrow> world \<Rightarrow> bool \<times> world" where
  "setup_loop env [] args w = (False, w)"
| "setup_loop env (executable # rest) args w =
     (case se_spawn env executable args w of
        (Inr ok, w') \<Rightarrow> (ok, w')
      | (Inl _, w') \<Rightarrow> setup_loop env rest args w')"

definition run_setup :: "sync_env \<Rightarrow> auth_target \<Rightarrow> u32 \<Rightarrow> world \<Rightarrow> bool \<times> world" where
  "run_setup env target uid =
     setup_loop env [''/usr/bin/kfaceauth-pam-setup'', ''/usr/local/bin/kfaceauth-pam-setup'']
       [''--prepare-target'', target_key target, ''--uid'', u32_to_string uid]"

definition load_policy :: "anchored_directories \<Rightarrow> (unit, auth_policy) io" where
  "load_policy paths = unit_err (policy_load_from_directory (config_dir paths))"

definition write_policy :: "sync_env \<Rightarrow> nat \<Rightarrow> anchored_directories \<Rightarrow> auth_policy \<Rightarrow> (unit, unit) io" where
  "write_policy env k paths p =
     wbind (unit_err (write_atomic p (se_pid env) (se_clock env k) (config_dir paths))) (\<lambda>_.
     wbind (load_policy paths) (\<lambda>q. if q \<noteq> p then wfail () else wreturn ()))"

definition acquire_policy_lock :: "anchored_directories \<Rightarrow> (unit, unit) io" where
  "acquire_policy_lock paths = lock_child_file_nonblocking (config_dir paths) ''.policy.lock''"

definition revoke_user_targets :: "auth_policy \<Rightarrow> u32 \<Rightarrow> unit + auth_policy" where
  "revoke_user_targets p uid =
     map_err (\<lambda>_. ()) (rbind (set_mode p uid Sddm Off) (\<lambda>q. set_mode q uid PlasmaLock Off))"

section \<open>The profile directory and its swap\<close>

definition profile_dir :: "anchored_directories \<Rightarrow> u32 \<Rightarrow> string" where
  "profile_dir paths uid = join (system_root paths) (u32_to_string uid)"

definition validate_and_harden_existing_profile :: "string \<Rightarrow> u32 \<Rightarrow> (unit, bool) io" where
  "validate_and_harden_existing_profile sysroot uid w =
     (let final = join sysroot (u32_to_string uid); vault_file = join final VAULT_FILE in
      case symlink_metadata final w of
        (Inl k, w') \<Rightarrow> if k = NotFound then wreturn False w' else wfail () w'
      | (Inr entry, w') \<Rightarrow>
          if md_kind entry \<noteq> Directory \<or> is_symlink entry then wfail () w'
          else wbind (unit_err (open_child_directory_nofollow sysroot (u32_to_string uid))) (\<lambda>_.
            wbind (unit_err (fd_metadata final)) (\<lambda>d.
            if (md_uid d \<noteq> uid \<and> md_uid d \<noteq> 0) \<or> (perm d \<noteq> oct3 7 5 0 \<and> perm d \<noteq> oct3 7 0 0) then wfail ()
            else wbind (unit_err (open_child_file_nofollow final VAULT_FILE)) (\<lambda>_.
              wbind (unit_err (fd_metadata vault_file)) (\<lambda>f.
              if md_kind f \<noteq> Regular \<or> (md_uid f \<noteq> uid \<and> md_uid f \<noteq> 0)
                 \<or> (perm f \<noteq> oct3 6 4 0 \<and> perm f \<noteq> oct3 6 0 0) \<or> md_nlink f \<noteq> 1 \<or> md_len f > 16 * 1024
              then wfail ()
              else wbind (unit_err (set_fd_permissions final 0 (oct3 7 5 0) SYSTEM_GROUP)) (\<lambda>_.
                wbind (unit_err (set_fd_permissions vault_file 0 (oct3 6 4 0) SYSTEM_GROUP)) (\<lambda>_.
                wreturn True)))))) w')"

record profile_swap =
  final_path :: string
  backup_path :: "string option"
  committed :: bool

definition swap_rollback :: "sync_env \<Rightarrow> profile_swap \<Rightarrow> world \<Rightarrow> (unit + unit) \<times> profile_swap \<times> world" where
  "swap_rollback env s w =
     (if committed s then (Inr (), s, w)
      else
        (case path_exists (final_path s) w of
           (present, w1) \<Rightarrow>
             (case (if present then unit_err (remove_dir_all (se_survives env) (final_path s)) w1 else (Inr (), w1)) of
                (Inl _, w2) \<Rightarrow> (Inl (), s, w2)
              | (Inr _, w2) \<Rightarrow>
                  (case (case backup_path s of
                           None \<Rightarrow> (Inr (), w2)
                         | Some backup \<Rightarrow> unit_err (rename_dir backup (final_path s)) w2) of
                     (Inl _, w3) \<Rightarrow> (Inl (), s, w3)
                   | (Inr _, w3) \<Rightarrow> (Inr (), s\<lparr>committed := True\<rparr>, w3)))))"

definition swap_drop :: "sync_env \<Rightarrow> profile_swap \<Rightarrow> world \<Rightarrow> world" where
  "swap_drop env s w = snd (snd (swap_rollback env s w))"

definition swap_commit :: "sync_env \<Rightarrow> profile_swap \<Rightarrow> world \<Rightarrow> world" where
  "swap_commit env s w =
     swap_drop env (s\<lparr>committed := True\<rparr>)
       (case backup_path s of
          None \<Rightarrow> w
        | Some backup \<Rightarrow> snd (remove_dir_all (se_survives env) backup w))"

definition previous_name :: "u32 \<Rightarrow> nat \<Rightarrow> string" where
  "previous_name uid nonce = ''.kfaceauth-previous-'' @ u32_to_string uid @ ''-'' @ show_nat nonce"

text \<open>The two renames: the previous profile out of the way, the staged one in its place.\<close>

definition swap_in :: "u32 \<Rightarrow> string \<Rightarrow> string \<Rightarrow> string option \<Rightarrow> (unit, profile_swap) io" where
  "swap_in uid sysroot staging backup =
     (let final = join sysroot (u32_to_string uid) in
      wbind (case backup of None \<Rightarrow> wreturn () | Some b \<Rightarrow> unit_err (rename_dir final b)) (\<lambda>_ w.
      case rename_dir (join staging (u32_to_string uid)) final w of
        (Inl _, w1) \<Rightarrow> (Inl (), case backup of None \<Rightarrow> w1 | Some b \<Rightarrow> snd (rename_dir b final w1))
      | (Inr _, w1) \<Rightarrow> (Inr \<lparr>final_path = final, backup_path = backup, committed = False\<rparr>, w1)))"

definition install_staged_profile :: "sync_env \<Rightarrow> u32 \<Rightarrow> string \<Rightarrow> string \<Rightarrow> (unit, profile_swap) io" where
  "install_staged_profile env uid sysroot staging =
     wbind (validate_and_harden_existing_profile sysroot uid) (\<lambda>had_previous.
     swap_in uid sysroot staging
       (if had_previous
        then Some (join sysroot (previous_name uid (case se_clock env 3 of None \<Rightarrow> 0 | Some n \<Rightarrow> n)))
        else None))"

definition requires_profile :: "auth_policy \<Rightarrow> u32 \<Rightarrow> bool" where
  "requires_profile p uid \<longleftrightarrow> list_ex (\<lambda>t. mode_for p uid t \<noteq> Off) [Sddm, PlasmaLock]"

definition restore_previous_policy ::
    "sync_env \<Rightarrow> u32 \<Rightarrow> anchored_directories \<Rightarrow> bytes \<Rightarrow> auth_policy \<Rightarrow> (unit, unit) io" where
  "restore_previous_policy env uid paths key p =
     wbind (if requires_profile p uid
            then wbind (unit_err (validate_integrity (ve_native (se_vault env))
                   (system_with_root (system_root paths) uid) key)) (\<lambda>_. wreturn ())
            else wreturn ()) (\<lambda>_.
     wbind (unit_err (sync_all (system_root paths))) (\<lambda>_.
     write_policy env 4 paths p))"

section \<open>Committing a verified profile\<close>

text \<open>Every failure after the swap ends here: roll back, restore the policy if that succeeded, drop the swap.\<close>

definition rollback_and_restore ::
    "sync_env \<Rightarrow> u32 \<Rightarrow> anchored_directories \<Rightarrow> bytes \<Rightarrow> auth_policy \<Rightarrow> profile_swap \<Rightarrow> world \<Rightarrow> world" where
  "rollback_and_restore env uid paths key previous s w =
     (case swap_rollback env s w of
        (r, s', w1) \<Rightarrow>
          swap_drop env s' (if is_ok r then snd (restore_previous_policy env uid paths key previous w1) else w1))"

definition verify_installed :: "sync_env \<Rightarrow> u32 \<Rightarrow> anchored_directories \<Rightarrow> bytes \<Rightarrow> (unit, unit) io" where
  "verify_installed env uid paths key =
     wbind (unit_err (validate_integrity (ve_native (se_vault env)) (system_with_root (system_root paths) uid) key)) (\<lambda>_.
     wbind (unit_err (verified_source_at (ve_native (se_vault env)) (system_root paths) uid)) (\<lambda>_.
     unit_err (sync_all (system_root paths))))"

definition enabled_policy :: "u32 \<Rightarrow> (auth_target \<times> auth_policy_mode) option \<Rightarrow> auth_policy \<Rightarrow> unit + auth_policy" where
  "enabled_policy uid change previous =
     (case change of
        None \<Rightarrow> Inr previous
      | Some (target, mode) \<Rightarrow> map_err (\<lambda>_. ()) (set_mode previous uid target mode))"

definition activate_profile ::
    "sync_env \<Rightarrow> u32 \<Rightarrow> (auth_target \<times> auth_policy_mode) option \<Rightarrow> anchored_directories \<Rightarrow> bytes
      \<Rightarrow> auth_policy \<Rightarrow> auth_policy \<Rightarrow> profile_swap \<Rightarrow> (unit, unit) io" where
  "activate_profile env uid change paths key previous revoked s w =
     (case verify_installed env uid paths key w of
        (Inl _, w1) \<Rightarrow> (Inl (), rollback_and_restore env uid paths key previous s w1)
      | (Inr _, w1) \<Rightarrow>
          (case wbind (wlift (enabled_policy uid change previous)) (write_policy env 5 paths) w1 of
             (Inr _, w2) \<Rightarrow> (Inr (), swap_commit env s w2)
           | (Inl _, w2) \<Rightarrow>
               (case write_policy env 6 paths revoked w2 of
                  (Inl _, w3) \<Rightarrow> (Inl (), swap_drop env (s\<lparr>committed := True\<rparr>) w3)
                | (Inr _, w3) \<Rightarrow> (Inl (), rollback_and_restore env uid paths key previous s w3))))"

text \<open>Revoke, swap, activate: the part of the commit that runs under the policy lock.\<close>

definition replace_profile ::
    "sync_env \<Rightarrow> u32 \<Rightarrow> (auth_target \<times> auth_policy_mode) option \<Rightarrow> anchored_directories \<Rightarrow> bytes \<Rightarrow> string
      \<Rightarrow> auth_policy \<Rightarrow> auth_policy \<Rightarrow> (unit, unit) io" where
  "replace_profile env uid change paths key staging previous revoked w =
     (case write_policy env 1 paths revoked w of
        (Inl _, w1) \<Rightarrow> (Inl (), snd (write_policy env 2 paths previous w1))
      | (Inr _, w1) \<Rightarrow>
          (case install_staged_profile env uid (system_root paths) staging w1 of
             (Inl _, w2) \<Rightarrow> (Inl (), snd (restore_previous_policy env uid paths key previous w2))
           | (Inr s, w2) \<Rightarrow> activate_profile env uid change paths key previous revoked s w2))"

definition commit_verified_profile ::
    "sync_env \<Rightarrow> u32 \<Rightarrow> (auth_target \<times> auth_policy_mode) option \<Rightarrow> anchored_directories \<Rightarrow> bytes \<Rightarrow> string
      \<Rightarrow> (unit, unit) io" where
  "commit_verified_profile env uid change paths key staging w =
     (case (case change of None \<Rightarrow> (True, w) | Some (target, _) \<Rightarrow> run_setup env target uid w) of
        (False, w1) \<Rightarrow> (Inl (), w1)
      | (True, w1) \<Rightarrow>
          wbind (acquire_policy_lock paths) (\<lambda>_.
          wbind (load_policy paths) (\<lambda>previous.
          wbind (wlift (revoke_user_targets previous uid)) (\<lambda>revoked.
          replace_profile env uid change paths key staging previous revoked))) w1)"

section \<open>Provisioning\<close>

definition system_key_name :: "u32 \<Rightarrow> string" where
  "system_key_name uid = u32_to_string uid @ ''.key''"

text \<open>The metadata an existing key has to have; a key that is only stored is not asked for its kind and links.\<close>

definition key_metadata_ok :: "u32 \<Rightarrow> metadata \<Rightarrow> bool" where
  "key_metadata_ok gid m \<longleftrightarrow> md_kind m = Regular \<and> md_uid m = 0 \<and> md_gid m = gid \<and> perm m = oct3 6 4 0
     \<and> md_nlink m = 1 \<and> md_len m = KEY_BYTES"

definition load_or_generate_system_key ::
    "sync_env \<Rightarrow> u32 \<Rightarrow> string \<Rightarrow> string \<Rightarrow> (unit, bytes \<times> bool) io" where
  "load_or_generate_system_key env uid keys sysroot w =
     (let key_file = join keys (system_key_name uid) in
      case symlink_metadata key_file w of
        (Inr _, w1) \<Rightarrow>
          wbind (unit_err (open_child_file_nofollow keys (system_key_name uid))) (\<lambda>_.
          wbind (unit_err (fd_metadata key_file)) (\<lambda>m.
          wbind (unit_err (group_id SYSTEM_GROUP)) (\<lambda>gid w2.
          if \<not> key_metadata_ok gid m then wfail () w2
          else wbind (wlift (map_err (\<lambda>_. ())
                 (load_master_key_for_uid (se_loader env w2) uid (Some (text_bytes keys))))) (\<lambda>key.
               wreturn (key, False)) w2))) w1
      | (Inl k, w1) \<Rightarrow>
          if k \<noteq> NotFound then wfail () w1
          else
            (case symlink_metadata (join sysroot (u32_to_string uid)) w1 of
               (Inr _, w2) \<Rightarrow> wfail () w2
             | (Inl k', w2) \<Rightarrow>
                 if k' \<noteq> NotFound then wfail () w2
                 else wbind (wlift (map_err (\<lambda>_. ()) (se_generated env))) (\<lambda>key. wreturn (key, True)) w2))"

definition apply_system_profile_permissions :: "u32 \<Rightarrow> string \<Rightarrow> (unit, unit) io" where
  "apply_system_profile_permissions uid sysroot =
     (let dir = join sysroot (u32_to_string uid); file = join dir VAULT_FILE in
      wbind (unit_err (open_child_directory_nofollow sysroot (u32_to_string uid))) (\<lambda>_.
      wbind (unit_err (open_child_file_nofollow dir VAULT_FILE)) (\<lambda>_.
      wbind (unit_err (set_fd_permissions dir 0 (oct3 7 5 0) SYSTEM_GROUP)) (\<lambda>_.
      wbind (unit_err (set_fd_permissions file 0 (oct3 6 4 0) SYSTEM_GROUP)) (\<lambda>_.
      wbind (unit_err (group_id SYSTEM_GROUP)) (\<lambda>gid.
      wbind (unit_err (fd_metadata dir)) (\<lambda>d.
      wbind (unit_err (fd_metadata file)) (\<lambda>f.
      if md_uid d \<noteq> 0 \<or> md_gid d \<noteq> gid \<or> perm d \<noteq> oct3 7 5 0 \<or> md_uid f \<noteq> 0 \<or> md_gid f \<noteq> gid
         \<or> perm f \<noteq> oct3 6 4 0 \<or> md_kind f \<noteq> Regular \<or> md_nlink f \<noteq> 1
      then wfail () else wreturn ()))))))))"

definition staging_name :: "nat \<Rightarrow> nat \<Rightarrow> string" where
  "staging_name pid nonce = ''.kfaceauth-sync-'' @ show_nat pid @ ''-'' @ show_nat nonce"

definition create_staging_directory :: "sync_env \<Rightarrow> string \<Rightarrow> (unit, string) io" where
  "create_staging_directory env sysroot =
     wbind (wlift (ok_or () (se_clock env 0))) (\<lambda>nonce.
     let name = staging_name (se_pid env) nonce in
     wbind (unit_err (create_dir (join sysroot name))) (\<lambda>_.
     wbind (unit_err (open_child_directory_nofollow sysroot name)) (\<lambda>_.
     wbind (unit_err (set_fd_permissions (join sysroot name) 0 (oct3 7 0 0) SYSTEM_GROUP)) (\<lambda>_.
     wreturn (join sysroot name)))))"

text \<open>Storing a new key, and the check of what was stored.\<close>

definition store_new_key :: "sync_env \<Rightarrow> u32 \<Rightarrow> string \<Rightarrow> bytes \<Rightarrow> (unit, unit) io" where
  "store_new_key env uid keys key =
     wbind (unit_err (se_seal env uid key keys)) (\<lambda>_.
     wbind (unit_err (open_child_file_nofollow keys (system_key_name uid))) (\<lambda>_.
     wbind (unit_err (fd_metadata (join keys (system_key_name uid)))) (\<lambda>m.
     wbind (unit_err (group_id SYSTEM_GROUP)) (\<lambda>gid.
     if md_uid m \<noteq> 0 \<or> md_gid m \<noteq> gid \<or> perm m \<noteq> oct3 6 4 0 \<or> md_len m \<noteq> KEY_BYTES
     then wfail () else wreturn ()))))"

definition locate_legacy_vault :: "u32 \<Rightarrow> string \<Rightarrow> vault" where
  "locate_legacy_vault uid data_home = user_session_with_root (join data_home PRODUCT_DIRECTORY) uid"

text \<open>From the staging directory to the commit. The staging directory is removed when this ends.\<close>

definition stage_and_commit ::
    "sync_env \<Rightarrow> u32 \<Rightarrow> (auth_target \<times> auth_policy_mode) option \<Rightarrow> anchored_directories
      \<Rightarrow> string \<Rightarrow> bytes \<Rightarrow> bytes \<Rightarrow> string \<Rightarrow> (unit, unit) io" where
  "stage_and_commit env uid change paths data_home user_key system_key staging =
     (let stage_dir = join staging (u32_to_string uid); sysvault = system_with_root staging uid;
          nv = ve_native (se_vault env) in
      wbind (unit_err (create_dir stage_dir)) (\<lambda>_.
      wbind (unit_err (open_child_directory_nofollow staging (u32_to_string uid))) (\<lambda>_.
      wbind (unit_err (set_fd_permissions stage_dir 0 (oct3 7 5 0) SYSTEM_GROUP)) (\<lambda>_.
      wbind (unit_err (open_child_directory_nofollow data_home PRODUCT_DIRECTORY)) (\<lambda>_.
      wbind (unit_err (open_anchored_profile_snapshot nv (locate_legacy_vault uid data_home) user_key)) (\<lambda>(p, source).
      wbind (unit_err (commit_profile (se_vault env) sysvault system_key p)) (\<lambda>_.
      wbind (apply_system_profile_permissions uid staging) (\<lambda>_.
      wbind (unit_err (validate_integrity nv sysvault system_key)) (\<lambda>_.
      wbind (unit_err (write_staged_metadata nv stage_dir uid source)) (\<lambda>_.
      commit_verified_profile env uid change paths system_key staging))))))))))"

datatype exit_code = ExitSuccess string | ExitFailure

definition exit_of :: "string \<Rightarrow> (unit + unit) \<times> world \<Rightarrow> exit_code \<times> world" where
  "exit_of line rw = (case rw of (Inr _, w) \<Rightarrow> (ExitSuccess line, w) | (Inl _, w) \<Rightarrow> (ExitFailure, w))"

definition sync_success :: "(auth_target \<times> auth_policy_mode) option \<Rightarrow> string" where
  "sync_success change =
     (case change of
        None \<Rightarrow> ''result=ok state=synced''
      | Some (_, mode) \<Rightarrow>
          ''result=ok state='' @ (if mode = Off then ''disabled'' else ''enabled'') @ '' mode='' @ mode_as_str mode)"

definition sync_profile ::
    "sync_env \<Rightarrow> reader \<Rightarrow> u32 \<Rightarrow> (auth_target \<times> auth_policy_mode) option \<Rightarrow> anchored_directories
      \<Rightarrow> world \<Rightarrow> exit_code \<times> world" where
  "sync_profile env input uid change paths w =
     exit_of (sync_success change)
       (wbind (read_user_session_input uid input) (\<lambda>(data_home, user_key).
        wbind (load_or_generate_system_key env uid (keys_dir paths) (system_root paths)) (\<lambda>(system_key, new_key).
        let body =
          wbind (if new_key then store_new_key env uid (keys_dir paths) system_key else wreturn ()) (\<lambda>_.
          wbind (create_staging_directory env (system_root paths)) (\<lambda>staging.
          wfinally (stage_and_commit env uid change paths data_home user_key system_key staging)
            (remove_dir_all (se_survives env) staging))) in
        if new_key then wcleanup body (remove_file (join (keys_dir paths) (system_key_name uid))) else body)) w)"

section \<open>Disabling a target and deleting a profile\<close>

definition disable_target :: "sync_env \<Rightarrow> u32 \<Rightarrow> auth_target \<Rightarrow> anchored_directories \<Rightarrow> world \<Rightarrow> exit_code \<times> world" where
  "disable_target env uid target paths w =
     exit_of ''result=ok state=disabled''
       (wbind (acquire_policy_lock paths) (\<lambda>_.
        wbind (load_policy paths) (\<lambda>policy.
        wbind (wlift (map_err (\<lambda>_. ()) (set_mode policy uid target Off))) (\<lambda>policy.
        write_policy env 1 paths policy))) w)"

definition validate_system_key_for_deletion :: "string \<Rightarrow> u32 \<Rightarrow> (unit, bool) io" where
  "validate_system_key_for_deletion keys uid w =
     (let key_path = join keys (system_key_name uid) in
      case symlink_metadata key_path w of
        (Inl k, w') \<Rightarrow> if k = NotFound then wreturn False w' else wfail () w'
      | (Inr entry, w') \<Rightarrow>
          if md_kind entry \<noteq> Regular \<or> is_symlink entry then wfail () w'
          else wbind (unit_err (open_child_file_nofollow keys (system_key_name uid))) (\<lambda>_.
            wbind (unit_err (fd_metadata key_path)) (\<lambda>m.
            wbind (unit_err (group_id SYSTEM_GROUP)) (\<lambda>gid.
            if \<not> key_metadata_ok gid m then wfail () else wreturn True))) w')"

definition revoked_prefix :: "u32 \<Rightarrow> string" where
  "revoked_prefix uid = ''.revoked-'' @ u32_to_string uid @ ''-''"

definition starts_with :: "string \<Rightarrow> string \<Rightarrow> bool" where
  "starts_with p s \<longleftrightarrow> take (length p) s = p"

text \<open>\<^verbatim>\<open>Path::extension\<close> of one file name: what follows its last dot, unless that dot is the first character.\<close>

definition path_extension :: "string \<Rightarrow> string option" where
  "path_extension name =
     (let e = takeWhile (\<lambda>c. c \<noteq> CHR ''.'') (rev name) in
      if length e + 1 < length name then Some (rev e) else None)"

text \<open>The names a directory lists. Each step of the iteration is a call that may fail.\<close>

definition read_dir :: "sync_env \<Rightarrow> string \<Rightarrow> (io_kind, string list) io" where
  "read_dir env d = sys (\<lambda>w. (Inr (se_entries env d w), w))"

fun clear_profiles :: "sync_env \<Rightarrow> u32 \<Rightarrow> u32 \<Rightarrow> string \<Rightarrow> string list \<Rightarrow> (unit, unit) io" where
  "clear_profiles env uid gid dir [] w = wreturn () w"
| "clear_profiles env uid gid dir (name # rest) w =
     wbind (unit_err (sys (\<lambda>w. (Inr (), w)))) (\<lambda>_.
     if \<not> utf8_valid (map byte name) \<or> \<not> starts_with (revoked_prefix uid) name then clear_profiles env uid gid dir rest
     else wbind (unit_err (symlink_metadata (join dir name))) (\<lambda>m.
       if md_kind m \<noteq> Directory \<or> is_symlink m \<or> md_uid m \<noteq> 0 \<or> md_gid m \<noteq> gid \<or> perm m \<noteq> oct3 7 5 0 then wfail ()
       else wbind (unit_err (remove_dir_all (se_survives env) (join dir name))) (\<lambda>_.
         clear_profiles env uid gid dir rest))) w"

fun clear_keys :: "sync_env \<Rightarrow> u32 \<Rightarrow> u32 \<Rightarrow> string \<Rightarrow> string list \<Rightarrow> (unit, unit) io" where
  "clear_keys env uid gid dir [] w = wreturn () w"
| "clear_keys env uid gid dir (name # rest) w =
     wbind (unit_err (sys (\<lambda>w. (Inr (), w)))) (\<lambda>_.
     if \<not> utf8_valid (map byte name) \<or> \<not> starts_with (revoked_prefix uid) name \<or> path_extension name \<noteq> Some ''key''
     then clear_keys env uid gid dir rest
     else wbind (unit_err (symlink_metadata (join dir name))) (\<lambda>m.
       if is_symlink m \<or> \<not> key_metadata_ok gid m then wfail ()
       else wbind (unit_err (remove_file (join dir name))) (\<lambda>_. clear_keys env uid gid dir rest))) w"

definition clear_revoked_copies :: "sync_env \<Rightarrow> u32 \<Rightarrow> anchored_directories \<Rightarrow> (unit, unit) io" where
  "clear_revoked_copies env uid paths =
     wbind (unit_err (group_id SYSTEM_GROUP)) (\<lambda>gid.
     wbind (unit_err (read_dir env (system_root paths))) (\<lambda>names.
     wbind (clear_profiles env uid gid (system_root paths) names) (\<lambda>_.
     wbind (unit_err (read_dir env (keys_dir paths))) (\<lambda>names.
     clear_keys env uid gid (keys_dir paths) names))))"

text \<open>Moving the profile and the key out of service, after the policy was revoked.\<close>

definition move_out_of_service ::
    "sync_env \<Rightarrow> u32 \<Rightarrow> anchored_directories \<Rightarrow> auth_policy \<Rightarrow> bool \<Rightarrow> bool \<Rightarrow> (unit, unit) io" where
  "move_out_of_service env uid paths previous profile_exists key_exists w =
     (let nonce = show_nat (case se_clock env 3 of None \<Rightarrow> 0 | Some n \<Rightarrow> n);
          profile = profile_dir paths uid; key = join (keys_dir paths) (system_key_name uid);
          profile_backup = join (system_root paths) (revoked_prefix uid @ nonce);
          key_backup = join (keys_dir paths) (revoked_prefix uid @ nonce @ ''.key'') in
      case (if profile_exists then rename_dir profile profile_backup w else (Inr (), w)) of
        (Inl _, w1) \<Rightarrow> (Inl (), snd (write_policy env 4 paths previous w1))
      | (Inr _, w1) \<Rightarrow>
          (case (if key_exists then rename_file key key_backup w1 else (Inr (), w1)) of
             (Inr _, w2) \<Rightarrow> (Inr (), w2)
           | (Inl _, w2) \<Rightarrow>
               (case (if profile_exists then rename_dir profile_backup profile w2 else (Inr (), w2)) of
                  (Inl _, w3) \<Rightarrow> (Inl (), w3)
                | (Inr _, w3) \<Rightarrow> (Inl (), snd (write_policy env 4 paths previous w3)))))"

definition sync_both :: "anchored_directories \<Rightarrow> (unit, unit) io" where
  "sync_both paths =
     wbind (unit_err (sync_all (system_root paths))) (\<lambda>_. unit_err (sync_all (keys_dir paths)))"

definition delete_system_profile :: "sync_env \<Rightarrow> u32 \<Rightarrow> anchored_directories \<Rightarrow> world \<Rightarrow> exit_code \<times> world" where
  "delete_system_profile env uid paths w =
     exit_of ''result=ok state=deleted''
       (wbind (validate_and_harden_existing_profile (system_root paths) uid) (\<lambda>profile_exists.
        wbind (validate_system_key_for_deletion (keys_dir paths) uid) (\<lambda>key_exists.
        wbind (acquire_policy_lock paths) (\<lambda>_.
        wbind (load_policy paths) (\<lambda>previous.
        wbind (wlift (revoke_user_targets previous uid)) (\<lambda>revoked.
        wbind (write_policy env 1 paths revoked) (\<lambda>_.
        wbind (move_out_of_service env uid paths previous profile_exists key_exists) (\<lambda>_.
        wbind (sync_both paths) (\<lambda>_.
        wbind (clear_revoked_copies env uid paths) (\<lambda>_.
        sync_both paths))))))))) w)"

section \<open>The program\<close>

definition usage :: string where
  "usage = ''Usage: kfaceauth-sync-vault --enable-target sddm|plasma-lock [--mode off|on-activity|manual]'' @
     '' | --disable-target sddm|plasma-lock | --delete-profile --uid UID | --resync-profile''"

definition run_operation :: "sync_env \<Rightarrow> reader \<Rightarrow> sync_options \<Rightarrow> anchored_directories \<Rightarrow> world \<Rightarrow> exit_code \<times> world" where
  "run_operation env input opts paths =
     (case operation opts of
        Enable target mode \<Rightarrow> sync_profile env input (target_uid opts) (Some (target, mode)) paths
      | Disable target \<Rightarrow> disable_target env (target_uid opts) target paths
      | DeleteProfile \<Rightarrow> delete_system_profile env (target_uid opts) paths
      | ResyncProfile \<Rightarrow> sync_profile env input (target_uid opts) None paths)"

definition sync_main ::
    "sync_env \<Rightarrow> string list \<Rightarrow> string option \<Rightarrow> reader \<Rightarrow> world \<Rightarrow> exit_code \<times> world" where
  "sync_main env args pkexec input w =
     (case parse_args args pkexec of
        Inl _ \<Rightarrow> (ExitFailure, w)
      | Inr None \<Rightarrow> (ExitSuccess usage, w)
      | Inr (Some opts) \<Rightarrow>
          if euid w \<noteq> 0 then (ExitFailure, w)
          else
            (case wbind production (\<lambda>paths.
                wbind (lock_child_file_nonblocking (keys_dir paths)
                  (''.sync-'' @ u32_to_string (target_uid opts) @ ''.lock'')) (\<lambda>_. wreturn paths)) w of
               (Inl _, w1) \<Rightarrow> (ExitFailure, w1)
             | (Inr paths, w1) \<Rightarrow> run_operation env input opts paths w1))"

end
