(* ===== verification/Sync_Safety.thy ===== *)
theory Sync_Safety
  imports Profile_Sync
begin

text \<open>
  What the synchronization tool guarantees, whatever calls fail on the way: a user is never granted a target while a
  half-installed profile is in place, a committed profile is the staged one and opens under the system key, a deletion
  either revokes and removes everything or leaves the profile and its key, and disabling a target changes nothing else.
\<close>

section \<open>Frames of the policy operations\<close>

abbreviation pol :: "world \<Rightarrow> inode option" where
  "pol w \<equiv> nodes w (policy_path (config_dir production_paths))"

abbreviation PR :: string where "PR \<equiv> system_root production_paths"
abbreviation PC :: string where "PC \<equiv> config_dir production_paths"
abbreviation PK :: string where "PK \<equiv> keys_dir production_paths"

text \<open>The paths that the policy operations leave alone: everything but the files directly in the configuration directory.\<close>

definition off_config :: "string set \<Rightarrow> bool" where
  "off_config P \<longleftrightarrow> (\<forall>x. CHR ''/'' \<notin> set x \<longrightarrow> join PC x \<notin> P)"

lemma no_slash_numbers [simp]: "CHR ''/'' \<notin> set (show_nat n)" "CHR ''/'' \<notin> set (u32_to_string uid)"
proof -
  show n: "CHR ''/'' \<notin> set (show_nat n)" for n using show_nat_digits [of n] by (auto simp: is_ascii_digit_def byte_def)
  show "CHR ''/'' \<notin> set (u32_to_string uid)" by (simp add: u32_to_string_def n)
qed

lemma off_config_files:
  assumes "off_config P"
  shows "policy_path PC \<notin> P" "staging_path PC pid n \<notin> P" "join PC ''.policy.lock'' \<notin> P"
proof -
  have j: "child PC x = join PC x" for x by (simp add: child_def join_def)
  show "policy_path PC \<notin> P" "staging_path PC pid n \<notin> P" "join PC ''.policy.lock'' \<notin> P"
    using assms unfolding off_config_def staging_path_def j AUTH_POLICY_FILE_def by auto
qed

lemma keeps_load_policy [keeps_rules]: "keeps P (load_policy paths)"
  unfolding load_policy_def policy_load_from_directory_def
  by (intro keeps_rules same_at.frame_lookup [folded keeps_stays_in])

lemma keeps_write_atomic [keeps_rules]:
  assumes "policy_path dir \<notin> P" "\<And>n. staging_path dir pid n \<notin> P"
  shows "keeps P (write_atomic p pid nonce dir)"
  unfolding write_atomic_def Let_def
  by (intro keeps_rules assms)

lemma keeps_write_policy: "off_config P \<Longrightarrow> keeps P (write_policy env k production_paths p)"
  unfolding write_policy_def by (intro keeps_rules off_config_files)

lemma keeps_lock_child_file: "join parent name \<notin> P \<Longrightarrow> keeps P (lock_child_file_nonblocking parent name)"
  unfolding lock_child_file_nonblocking_def open_lock_file_def
  by (intro keeps_rules keeps_sys) (auto intro!: nodes_fs_update split: option.split)

lemma keeps_acquire_policy_lock: "off_config P \<Longrightarrow> keeps P (acquire_policy_lock production_paths)"
  unfolding acquire_policy_lock_def by (intro keeps_lock_child_file off_config_files)

lemma wguard_Inr: "(if c then wfail e else m) w = (Inr x, w') \<longleftrightarrow> \<not> c \<and> m w = (Inr x, w')"
  by (simp add: wfail_def)

section \<open>What the policy file grants\<close>

lemma requires_profile_iff: "requires_profile p uid \<longleftrightarrow> (\<exists>t. mode_for p uid t \<noteq> Off)"
proof -
  have "(\<exists>t. Q t) \<longleftrightarrow> Q Sddm \<or> Q PlasmaLock" for Q by (metis (full_types) auth_target.exhaust)
  then show ?thesis by (simp add: requires_profile_def)
qed

definition grants :: "u32 \<Rightarrow> inode option \<Rightarrow> bool" where
  "grants uid n \<longleftrightarrow> (\<exists>i p. n = Some i \<and> parse_json (bytes_text (i_data i)) = Inr p \<and> requires_profile p uid)"

lemma grants_written: "policy_wf p \<Longrightarrow> policy_written p n \<Longrightarrow> grants uid n \<Longrightarrow> requires_profile p uid"
  by (auto simp: grants_def policy_written_parse split: if_splits)

lemma load_policy_Inr:
  assumes "load_policy paths w = (Inr p, w')"
  shows "policy_wf p"
proof -
  obtain v where v: "(case symlink_metadata (policy_path (config_dir paths)) v of
       (Inl k, w') \<Rightarrow> if k = NotFound then wreturn default_policy w' else wfail Policy_Io w'
     | (Inr m, w') \<Rightarrow>
         if md_kind m \<noteq> Regular \<or> is_symlink m then wfail Policy_UnsafeFilesystem w'
         else wbind (snapshot_load_from_directory (config_dir paths)) (\<lambda>s. wreturn (snap_policy s)) w') = (Inr p, w')"
    using assms by (auto simp: load_policy_def policy_load_from_directory_def io_success)
  show ?thesis
  proof (cases "p = default_policy")
    case True
    then show ?thesis by (simp add: policy_wf_def default_policy_def)
  next
    case False
    with v obtain v1 s v2 where "snapshot_load_from_directory (config_dir paths) v1 = (Inr s, v2)" "p = snap_policy s"
      by (auto simp: io_success split: prod.splits sum.splits if_splits)
    then show ?thesis using snapshot_load_Inr(2) parse_json_wf by blast
  qed
qed

lemma aon_write_policy:
  "all_or_nothing n (policy_path PC) (policy_written p) (write_policy env k production_paths p)"
proof -
  have "all_or_nothing n (policy_path PC) (policy_written p) (unit_err (write_atomic p (se_pid env) (se_clock env k) PC))"
    using aon_write_atomic [of n PC p "se_pid env" "se_clock env k"] unfolding aon_from_True [symmetric] by (rule aon_from_map_err)
  moreover have "keeps {policy_path PC} (wbind (load_policy production_paths) (\<lambda>q. if q \<noteq> p then wfail () else wreturn ()))"
    by (intro keeps_rules)
  ultimately show ?thesis unfolding write_policy_def by (rule aon_suffix)
qed

interpretation sync_policy: atomic_store "\<lambda>k. write_policy env k production_paths" "policy_path PC" policy_written for env
  by unfold_locales (rule aon_write_policy)

lemma write_policy_outcome:
  assumes "write_policy env k production_paths p w = (r, w')"
  shows "pol w' = pol w \<or> policy_written p (pol w')" "r = Inr u \<Longrightarrow> policy_written p (pol w')"
  using sync_policy.store_outcome [OF assms] by auto

lemma revoke_user_targets_Inr:
  assumes "policy_wf p" "revoke_user_targets p uid = Inr q"
  shows "policy_wf q" "\<not> requires_profile q uid" "\<And>v t. v \<noteq> uid \<Longrightarrow> mode_for q v t = mode_for p v t"
proof -
  obtain q1 where q: "set_mode p uid Sddm Off = Inr q1" "set_mode q1 uid PlasmaLock Off = Inr q"
    using assms(2) by (auto simp: revoke_user_targets_def map_err_eq_Inr rbind_eq_Inr)
  have u: "uid \<noteq> 0" using q(1) by (auto simp: set_mode_def split: if_splits)
  have q1: "policy_wf q1" "mode_for q1 v s = (if v = uid \<and> s = Sddm then Off else mode_for p v s)" for v s
    using set_mode_off [OF assms(1) u, of Sddm] q(1) by auto
  have q2: "policy_wf q" "mode_for q v s = (if v = uid \<and> s = PlasmaLock then Off else mode_for q1 v s)" for v s
    using set_mode_off [OF q1(1) u, of PlasmaLock] q(2) by auto
  show "policy_wf q" by (rule q2(1))
  show "\<not> requires_profile q uid" by (simp add: requires_profile_def q1 q2)
  show "mode_for q v t = mode_for p v t" if "v \<noteq> uid" for v t using that by (simp add: q1 q2)
qed

text \<open>Without failures a sound policy file is loaded as it parses.\<close>

lemma clean_load_policy:
  assumes "script w = []" "nodes w PC = Some d" "i_kind d = Directory" "i_uid d = 0" "i_gid d = 0" "i_mode d = oct3 7 5 5"
    "pol w = Some i" "policy_metadata_ok (stat i)" "parse_json (bytes_text (i_data i)) = Inr p"
  shows "load_policy production_paths w = (Inr p, w)"
proof -
  have m: "and (oct3 7 5 5) 0xFFF = oct3 7 5 5" "and (oct3 7 5 5) (oct3 7 7 7) = oct3 7 5 5" by (simp_all add: oct3_def)
  have "length (i_data i) \<le> MAX_POLICY_BYTES" "i_kind i = Regular" using assms(8) by (simp_all add: policy_metadata_ok_def stat_def)
  then show ?thesis
    using assms m
    by (simp add: load_policy_def policy_load_from_directory_def snapshot_load_from_directory_def validate_root_directory_def
        flow_defs call_defs clean_sys ok_or_def stat_def full_mode_def perm_def is_symlink_def)
qed

section \<open>Disjoint places\<close>

abbreviation final_of :: "u32 \<Rightarrow> string" where
  "final_of uid \<equiv> profile_dir production_paths uid"

definition staging_of :: "sync_env \<Rightarrow> nat \<Rightarrow> string" where
  "staging_of env n = join PR (staging_name (se_pid env) n)"

abbreviation backup_of :: "u32 \<Rightarrow> nat \<Rightarrow> string" where
  "backup_of uid n \<equiv> join PR (previous_name uid n)"

lemma number_not_dot: "u32_to_string uid \<noteq> CHR ''.'' # x"
  using u32_to_string_plain [of "CHR ''.''" uid] by (auto simp: byte_def)

lemma private_names [simp]:
  "CHR ''/'' \<notin> set (previous_name uid n)" "CHR ''/'' \<notin> set (staging_name pid n)"
  "CHR ''/'' \<notin> set (revoked_prefix uid)"
  "u32_to_string uid \<noteq> previous_name v n" "u32_to_string uid \<noteq> staging_name pid n"
  "previous_name v n \<noteq> staging_name pid m" "u32_to_string uid \<noteq> revoked_prefix v @ x"
  by (simp_all add: previous_name_def staging_name_def revoked_prefix_def number_not_dot)

lemma staged_below: "below (join d x) \<subseteq> below d"
  using below_trans join_below by blast

lemma places_disjoint:
  "below (final_of uid) \<inter> below (backup_of v n) = {}"
  "below (final_of uid) \<inter> below (join (staging_of env m) x) = {}"
  "below (backup_of v n) \<inter> below (join (staging_of env m) x) = {}"
proof -
  show "below (final_of uid) \<inter> below (backup_of v n) = {}"
    unfolding profile_dir_def by (rule siblings_disjoint) simp_all
  have "below (final_of uid) \<inter> below (staging_of env m) = {}" "below (backup_of v n) \<inter> below (staging_of env m) = {}"
    unfolding profile_dir_def staging_of_def by (rule siblings_disjoint; simp)+
  with staged_below [of "staging_of env m" x]
  show "below (final_of uid) \<inter> below (join (staging_of env m) x) = {}"
    "below (backup_of v n) \<inter> below (join (staging_of env m) x) = {}" by blast+
qed

lemma off_config_root: "off_config (below (join PR x))"
  by (auto simp: off_config_def production_paths_def below_iff join_def)

lemma policy_off_root: "policy_path PC \<notin> below (join PR x)"
  by (auto simp: production_paths_def below_iff join_def child_def)

section \<open>Steps that only touch owners and modes\<close>

abbreviation steady :: "('e, 'a) io \<Rightarrow> bool" where
  "steady m \<equiv> stays_in same_data m"

named_theorems steady_rules

lemmas steady_flow [steady_rules] = same_data.frame_flow same_data.frame_bind

lemma steadyD: "steady m \<Longrightarrow> m w = (r, w') \<Longrightarrow> tree w' d = tree w d"
  using stays_inD [of same_data m w r w'] by (simp add: same_data_def)

lemma steady_keeps: "keeps UNIV m \<Longrightarrow> steady m"
  unfolding stays_in_def same_data_def by (metis keeps_all_nodes tree_cong)

lemma steady_set_fd_permissions [steady_rules]: "steady (set_fd_permissions p owner mode g)"
  unfolding stays_in_def same_data_def by (metis tree_set_fd_permissions prod.collapse)

lemma keeps_open_child [keeps_rules]:
  "keeps P (open_child_directory_nofollow parent name)" "keeps P (open_child_file_nofollow parent name)" "keeps P (group_id g)"
  by (simp_all add: open_child_directory_nofollow_def open_child_file_nofollow_def group_id_def keeps_sys keeps_queries)

lemmas steady_queries [steady_rules] = steady_keeps [OF keeps_queries(1)] steady_keeps [OF keeps_queries(3)]
  steady_keeps [OF keeps_open_child(1)] steady_keeps [OF keeps_open_child(2)] steady_keeps [OF keeps_open_child(3)]

lemmas lookup_then_keeps = same_at.frame_lookup [folded keeps_stays_in, OF keeps_queries(1)]
lemmas lookup_then_steady = same_data.frame_lookup [OF steady_queries(1)]

lemma steady_validate_and_harden: "steady (validate_and_harden_existing_profile sysroot uid)"
  unfolding validate_and_harden_existing_profile_def Let_def
  by (rule lookup_then_steady) (intro steady_rules)+

lemma keeps_validate_and_harden:
  assumes "join sysroot (u32_to_string uid) \<notin> P" "join (join sysroot (u32_to_string uid)) VAULT_FILE \<notin> P"
  shows "keeps P (validate_and_harden_existing_profile sysroot uid)"
  unfolding validate_and_harden_existing_profile_def Let_def
  by (rule lookup_then_keeps) (intro keeps_rules assms)+

section \<open>The swap\<close>

text \<open>A directory that is not there, and the data an action leaves at a place.\<close>

abbreviation gone :: "string \<Rightarrow> (file_kind \<times> bytes) option" where
  "gone \<equiv> \<lambda>_. None"

lemma tree_gone: "tree w d = gone \<Longrightarrow> nodes w d = None"
proof -
  assume "tree w d = gone"
  then have "tree w d [] = None" by simp
  then show ?thesis by (simp add: tree_def)
qed

lemma rename_dir_outcome:
  assumes "rename_dir a b w = (r, w')" "below a \<inter> below b = {}"
  shows "r = Inl e \<Longrightarrow> tree w' d = tree w d"
    "r = Inr u \<Longrightarrow> tree w' b = tree w a \<and> tree w' a = gone"
    "below d \<inter> below a = {} \<Longrightarrow> below d \<inter> below b = {} \<Longrightarrow> tree w' d = tree w d"
proof -
  show "r = Inl e \<Longrightarrow> tree w' d = tree w d"
    by (rule rename_dir_cases [OF assms(1)]) (auto intro: tree_cong)
  show "r = Inr u \<Longrightarrow> tree w' b = tree w a \<and> tree w' a = gone"
    by (rule rename_dir_cases [OF assms(1)]) (simp_all add: move_tree_trees [OF assms(2)])
  show "below d \<inter> below a = {} \<Longrightarrow> below d \<inter> below b = {} \<Longrightarrow> tree w' d = tree w d"
    by (rule keeps_tree [OF keeps_rename_dir assms(1)])
qed

text \<open>A swap made by the tool: the places are the profile directory and its backup.\<close>

definition swap_for :: "sync_env \<Rightarrow> u32 \<Rightarrow> profile_swap \<Rightarrow> bool" where
  "swap_for env uid s \<longleftrightarrow> final_path s = final_of uid
     \<and> (backup_path s = None \<or> (\<exists>n. backup_path s = Some (backup_of uid n)))"

lemma policy_off_place:
  assumes "d \<in> below (join PR x)"
  shows "policy_path PC \<notin> below d"
  using policy_off_root [of x] below_trans [OF _ assms] by blast

lemma places_under_root:
  "final_of uid \<in> below (join PR (u32_to_string uid))" "backup_of uid n \<in> below (join PR (previous_name uid n))"
  "join (staging_of env m) y \<in> below (join PR (staging_name (se_pid env) m))"
  by (simp_all add: profile_dir_def staging_of_def join_below)

lemmas policy_off_places = places_under_root [THEN policy_off_place]

lemma pol_rename_dir:
  "rename_dir a b w = (r, w') \<Longrightarrow> policy_path PC \<notin> below a \<Longrightarrow> policy_path PC \<notin> below b \<Longrightarrow> pol w' = pol w"
  using keepsD [OF keeps_rename_dir [of "{policy_path PC}" a b], of "policy_path PC" w] by simp

lemma swap_in_fresh:
  assumes "swap_in uid PR (staging_of env m) None w = (r, w')"
  shows "pol w' = pol w" "r = Inl e \<Longrightarrow> tree w' (final_of uid) = tree w (final_of uid)"
    "r = Inr s \<Longrightarrow> s = \<lparr>final_path = final_of uid, backup_path = None, committed = False\<rparr>
       \<and> tree w' (final_of uid) = tree w (join (staging_of env m) (u32_to_string uid))"
proof -
  let ?g = "join (staging_of env m) (u32_to_string uid)"
  obtain q where q: "rename_dir ?g (final_of uid) w = (q, w')"
    "r = (case q of Inl _ \<Rightarrow> Inl () | Inr _ \<Rightarrow> Inr \<lparr>final_path = final_of uid, backup_path = None, committed = False\<rparr>)"
    using assms by (auto simp: swap_in_def Let_def wbind_def wreturn_def profile_dir_def split: prod.splits sum.splits)
  have d: "below ?g \<inter> below (final_of uid) = {}" using places_disjoint(2) by blast
  show "pol w' = pol w" by (rule pol_rename_dir [OF q(1) policy_off_places(3,1)])
  show "r = Inl e \<Longrightarrow> tree w' (final_of uid) = tree w (final_of uid)"
    using q(2) rename_dir_outcome(1) [OF q(1) d] by (cases q) auto
  show "r = Inr s \<Longrightarrow> s = \<lparr>final_path = final_of uid, backup_path = None, committed = False\<rparr>
       \<and> tree w' (final_of uid) = tree w ?g"
    using q(2) rename_dir_outcome(2) [OF q(1) d] by (cases q) auto
qed

lemma swap_in_replacing:
  assumes "swap_in uid PR (staging_of env m) (Some (backup_of uid n)) w = (r, w')"
  shows "pol w' = pol w"
    "r = Inl e \<Longrightarrow> tree w' (final_of uid) = tree w (final_of uid) \<or> tree w' (final_of uid) = gone"
    "r = Inr s \<Longrightarrow> s = \<lparr>final_path = final_of uid, backup_path = Some (backup_of uid n), committed = False\<rparr>
       \<and> tree w' (final_of uid) = tree w (join (staging_of env m) (u32_to_string uid))
       \<and> tree w' (backup_of uid n) = tree w (final_of uid)"
proof -
  let ?f = "final_of uid" and ?b = "backup_of uid n" and ?g = "join (staging_of env m) (u32_to_string uid)"
  have d: "below ?f \<inter> below ?b = {}" "below ?g \<inter> below ?f = {}" "below ?b \<inter> below ?f = {}" "below ?g \<inter> below ?b = {}"
    "below ?b \<inter> below ?g = {}"
    using places_disjoint(1) [of uid uid n] places_disjoint(2) [of uid env m] places_disjoint(3) [of uid n env m] by blast+
  obtain q1 w1 q2 w2 q3 w3 where q: "rename_dir ?f ?b w = (q1, w1)" "rename_dir ?g ?f w1 = (q2, w2)"
    "rename_dir ?b ?f w2 = (q3, w3)" by fastforce
  have run: "(r, w') = (case q1 of Inl _ \<Rightarrow> (Inl (), w1) | Inr _ \<Rightarrow>
      (case q2 of Inl _ \<Rightarrow> (Inl (), w3)
       | Inr _ \<Rightarrow> (Inr \<lparr>final_path = ?f, backup_path = Some ?b, committed = False\<rparr>, w2)))"
    using assms q by (auto simp: swap_in_def Let_def wbind_def wmap_err_def profile_dir_def split: sum.splits)
  have p: "pol w1 = pol w" "pol w2 = pol w1" "pol w3 = pol w2"
    using pol_rename_dir [OF q(1)] pol_rename_dir [OF q(2)] pol_rename_dir [OF q(3)] policy_off_places by blast+
  show "pol w' = pol w" using run p by (auto split: sum.splits)
  note o1 = rename_dir_outcome [OF q(1) d(1)] and o2 = rename_dir_outcome [OF q(2) d(2)] and o3 = rename_dir_outcome [OF q(3) d(3)]
  have kg: "tree w1 ?g = tree w ?g" by (rule o1(3) [OF d(2,4)])
  have kb: "tree w2 ?b = tree w1 ?b" by (rule o2(3) [OF d(5,3)])
  show "tree w' ?f = tree w ?f \<or> tree w' ?f = gone" if "r = Inl e"
  proof (cases q1)
    case (Inl y)
    with run o1(1) [OF Inl] show ?thesis by simp
  next
    case (Inr y)
    with run that obtain z where q2: "q2 = Inl z" "w' = w3" by (auto split: sum.splits)
    have "tree w2 ?b = tree w ?f" "tree w2 ?f = gone" using o1(2) [OF Inr] o2(1) [OF q2(1)] by simp_all
    then show ?thesis using o3(1,2) q2(2) by (cases q3) simp_all
  qed
  show "r = Inr s \<Longrightarrow> s = \<lparr>final_path = ?f, backup_path = Some ?b, committed = False\<rparr>
       \<and> tree w' ?f = tree w ?g \<and> tree w' ?b = tree w ?f"
    using run o1(2) o2(2) kg kb by (auto split: sum.splits)
qed

lemma install_outcome:
  assumes "install_staged_profile env uid PR (staging_of env m) w = (r, w')"
  shows "pol w' = pol w"
    "r = Inl e \<Longrightarrow> tree w' (final_of uid) = tree w (final_of uid) \<or> tree w' (final_of uid) = gone"
    "r = Inr s \<Longrightarrow> swap_for env uid s \<and> \<not> committed s
       \<and> tree w' (final_of uid) = tree w (join (staging_of env m) (u32_to_string uid))
       \<and> (\<forall>b. backup_path s = Some b \<longrightarrow> tree w' b = tree w (final_of uid))"
proof -
  obtain q w1 where q: "validate_and_harden_existing_profile PR uid w = (q, w1)" by fastforce
  have "keeps {policy_path PC} (validate_and_harden_existing_profile PR uid)"
    using policy_off_places(1) [of uid] join_below [of "final_of uid" VAULT_FILE] self_below [of "final_of uid"]
    by (intro keeps_validate_and_harden) (auto simp: profile_dir_def)
  from keepsD [OF this, of "policy_path PC" w] q have p1: "pol w1 = pol w" by simp
  have t1: "tree w1 d = tree w d" for d by (rule steadyD [OF steady_validate_and_harden q])
  consider (failed) x where "q = Inl x" "r = Inl ()" "w' = w1"
    | (fresh) "swap_in uid PR (staging_of env m) None w1 = (r, w')"
    | (replacing) n where "swap_in uid PR (staging_of env m) (Some (backup_of uid n)) w1 = (r, w')"
    using assms q by (cases q) (auto simp: install_staged_profile_def wbind_def split: if_splits)
  note c = this
  show "pol w' = pol w"
    using c by cases (simp_all add: p1 swap_in_fresh(1) swap_in_replacing(1))
  show "tree w' (final_of uid) = tree w (final_of uid) \<or> tree w' (final_of uid) = gone" if r: "r = Inl e"
    using c
  proof cases
    case fresh
    then show ?thesis using swap_in_fresh(2) [OF fresh r] t1 by simp
  next
    case replacing
    then show ?thesis using swap_in_replacing(2) [OF replacing r] t1 by simp
  qed (simp add: t1)
  show "swap_for env uid s \<and> \<not> committed s
       \<and> tree w' (final_of uid) = tree w (join (staging_of env m) (u32_to_string uid))
       \<and> (\<forall>b. backup_path s = Some b \<longrightarrow> tree w' b = tree w (final_of uid))" if r: "r = Inr s"
    using c
  proof cases
    case fresh
    then show ?thesis using swap_in_fresh(3) [OF fresh r] t1 by (simp add: swap_for_def)
  next
    case replacing
    then show ?thesis using swap_in_replacing(3) [OF replacing r] t1 by (auto simp: swap_for_def)
  qed (simp add: r)
qed

section \<open>Rolling back\<close>

lemma remove_dir_all_frame:
  assumes "remove_dir_all survives a w = (r, w')"
  shows "policy_path PC \<notin> below a \<Longrightarrow> pol w' = pol w"
    "below d \<inter> below a = {} \<Longrightarrow> tree w' d = tree w d"
proof -
  show "policy_path PC \<notin> below a \<Longrightarrow> pol w' = pol w"
    using keepsD [OF keeps_remove_dir_all [of "{policy_path PC}" a survives], of "policy_path PC" w] assms by simp
  show "below d \<inter> below a = {} \<Longrightarrow> tree w' d = tree w d"
    by (rule keeps_tree [OF keeps_remove_dir_all assms])
qed

text \<open>The first half of a rollback: what stands at the final path is removed if it can be seen.\<close>

lemma rollback_removal:
  assumes "path_exists (final_of uid) w = (present, w1)"
    "(if present then unit_err (remove_dir_all survives (final_of uid)) w1 else (Inr (), w1)) = (q, w2)"
  shows "pol w2 = pol w" "below d \<inter> below (final_of uid) = {} \<Longrightarrow> tree w2 d = tree w d"
    "q = Inr u \<Longrightarrow> tree w2 (final_of uid) = gone \<or> tree w2 (final_of uid) = tree w (final_of uid)"
proof -
  have n: "nodes w1 = nodes w" by (rule nodes_path_exists [OF assms(1)])
  have t: "tree w1 d = tree w d" for d by (rule tree_cong) (simp add: n)
  have a: "pol w2 = pol w \<and> (below d \<inter> below (final_of uid) = {} \<longrightarrow> tree w2 d = tree w d)
      \<and> (q = Inr u \<longrightarrow> tree w2 (final_of uid) = gone \<or> tree w2 (final_of uid) = tree w (final_of uid))"
  proof (cases present)
    case True
    then obtain x where x: "remove_dir_all survives (final_of uid) w1 = (x, w2)" "q = map_err (\<lambda>_. ()) x"
      using assms(2) by (auto simp: wmap_err_def split: prod.splits)
    have "q = Inr u \<Longrightarrow> tree w2 (final_of uid) = gone" using x remove_dir_all_Inr by (auto simp: map_err_eq_Inr)
    with remove_dir_all_frame [OF x(1)] policy_off_places(1) [of uid] n t show ?thesis by auto
  next
    case False
    with assms(2) n t show ?thesis by auto
  qed
  then show "pol w2 = pol w" "below d \<inter> below (final_of uid) = {} \<Longrightarrow> tree w2 d = tree w d"
    "q = Inr u \<Longrightarrow> tree w2 (final_of uid) = gone \<or> tree w2 (final_of uid) = tree w (final_of uid)" by auto
qed

lemma rollback_outcome:
  assumes "swap_rollback env s w = (r, s', w')" "swap_for env uid s"
  shows "pol w' = pol w" "swap_for env uid s'"
    "\<not> committed s \<Longrightarrow> r = Inr u \<Longrightarrow> committed s' \<and>
       (case backup_path s of
          None \<Rightarrow> tree w' (final_of uid) = gone \<or> tree w' (final_of uid) = tree w (final_of uid)
        | Some b \<Rightarrow> tree w' (final_of uid) = tree w b)"
proof -
  let ?f = "final_of uid"
  have f: "final_path s = ?f" using assms(2) by (simp add: swap_for_def)
  obtain present w1 where e: "path_exists ?f w = (present, w1)" by fastforce
  obtain q w2 where q: "(if present then unit_err (remove_dir_all (se_survives env) ?f) w1 else (Inr (), w1)) = (q, w2)"
    by fastforce
  note rm = rollback_removal [OF e q]
  have run: "swap_rollback env s w = (case q of Inl _ \<Rightarrow> (Inl (), s, w2) | Inr _ \<Rightarrow>
      (case backup_path s of
         None \<Rightarrow> (Inr (), s\<lparr>committed := True\<rparr>, w2)
       | Some b \<Rightarrow> (case rename_dir b ?f w2 of
           (Inl _, w3) \<Rightarrow> (Inl (), s, w3) | (Inr _, w3) \<Rightarrow> (Inr (), s\<lparr>committed := True\<rparr>, w3))))" if "\<not> committed s"
    unfolding swap_rollback_def f e prod.case q using that
    by (auto simp: wmap_err_def map_err_def split: option.splits sum.splits prod.splits)
  have "pol w' = pol w \<and> swap_for env uid s' \<and> (\<not> committed s \<longrightarrow> r = Inr u \<longrightarrow> committed s' \<and>
       (case backup_path s of
          None \<Rightarrow> tree w' ?f = gone \<or> tree w' ?f = tree w ?f
        | Some b \<Rightarrow> tree w' ?f = tree w b))"
  proof (cases "committed s")
    case True
    with assms show ?thesis by (simp add: swap_rollback_def)
  next
    case False
    note r = run [OF False, unfolded assms(1)]
    show ?thesis
    proof (cases "backup_path s")
      case None
      with r rm(1,3) assms(2) show ?thesis by (auto simp: swap_for_def split: sum.splits)
    next
      case (Some b)
      then obtain n where b: "b = backup_of uid n" using assms(2) by (auto simp: swap_for_def)
      obtain x w3 where x: "rename_dir b ?f w2 = (x, w3)" by fastforce
      have d: "below b \<inter> below ?f = {}" unfolding b using places_disjoint(1) by blast
      have "pol w3 = pol w2" using pol_rename_dir [OF x] policy_off_places(1,2) b by blast
      moreover have "x = Inr v \<Longrightarrow> tree w3 ?f = tree w b" for v
        using rename_dir_outcome(2) [OF x d] rm(2) [OF d] by simp
      ultimately show ?thesis
        using r rm(1) Some x assms(2) by (auto simp: swap_for_def split: sum.splits)
    qed
  qed
  then show "pol w' = pol w" "swap_for env uid s'"
    "\<not> committed s \<Longrightarrow> r = Inr u \<Longrightarrow> committed s' \<and>
       (case backup_path s of
          None \<Rightarrow> tree w' ?f = gone \<or> tree w' ?f = tree w ?f
        | Some b \<Rightarrow> tree w' ?f = tree w b)" by auto
qed

lemma swap_drop_committed: "committed s \<Longrightarrow> swap_drop env s w = w"
  by (simp add: swap_drop_def swap_rollback_def)

lemma pol_swap_drop: "swap_for env uid s \<Longrightarrow> pol (swap_drop env s w) = pol w"
  unfolding swap_drop_def by (metis rollback_outcome(1) prod.collapse)

section \<open>Restoring the policy\<close>

lemma keeps_validate_integrity [keeps_rules]: "keeps P (validate_integrity nv v key)"
  unfolding validate_integrity_def by (intro keeps_rules)

lemma validate_integrity_present:
  assumes "validate_integrity nv (system_with_root sysroot uid) key w = (Inr x, w')"
  shows "nodes w (join sysroot (u32_to_string uid)) \<noteq> None"
    "\<exists>i p. nodes w (join (join sysroot (u32_to_string uid)) VAULT_FILE) = Some i \<and> decode_vault nv (i_data i) key uid = Inr p"
proof -
  let ?d = "join sysroot (u32_to_string uid)"
  obtain w1 bs w2 p where r: "validate_directory ?d uid System w = (Inr (), w1)"
    "read_secure_file (join ?d VAULT_FILE) uid System w1 = (Inr bs, w2)" "decode_vault nv bs key uid = Inr p"
    using assms
    by (auto simp: validate_integrity_def open_profile_def open_profile_snapshot_def system_with_root_def io_success split: if_splits)
  obtain m where "symlink_metadata ?d w = (Inr m, w1)"
    using r(1) by (auto simp: validate_directory_def io_success split: if_splits)
  then show "nodes w ?d \<noteq> None" using metadata_Inr(1) by fastforce
  have "nodes w1 = nodes w" using keeps_all_nodes [OF keeps_readers(1), of ?d uid System w] r(1) by simp
  with read_secure_file_Inr(2) [OF r(2)] r(3)
  show "\<exists>i p. nodes w (join ?d VAULT_FILE) = Some i \<and> decode_vault nv (i_data i) key uid = Inr p" by auto
qed

lemma restore_outcome:
  assumes "restore_previous_policy env uid production_paths key p w = (r, w')"
  shows "tree w' (join PR x) = tree w (join PR x)"
    "pol w' = pol w \<or> (policy_written p (pol w') \<and> (requires_profile p uid \<longrightarrow> nodes w (final_of uid) \<noteq> None))"
proof -
  let ?v = "if requires_profile p uid
            then wbind (unit_err (validate_integrity (ve_native (se_vault env)) (system_with_root PR uid) key)) (\<lambda>_. wreturn ())
            else wreturn ()"
  have "keeps (below (join PR x)) (restore_previous_policy env uid production_paths key p)"
    unfolding restore_previous_policy_def by (intro keeps_rules keeps_write_policy off_config_root)
  then show "tree w' (join PR x) = tree w (join PR x)" using assms by (rule keeps_tree)
  obtain q w1 where q: "wbind ?v (\<lambda>_. unit_err (sync_all PR)) w = (q, w1)" by fastforce
  have k: "keeps UNIV (wbind ?v (\<lambda>_. unit_err (sync_all PR)))" by (intro keeps_rules)
  have run: "(r, w') = (case q of Inl e \<Rightarrow> (Inl e, w1) | Inr _ \<Rightarrow> write_policy env 4 production_paths p w1)"
    using assms q by (auto simp: restore_previous_policy_def wbind_def split: prod.splits sum.splits)
  have n: "nodes w1 = nodes w" using keeps_all_nodes [OF k, of w] q by simp
  have "requires_profile p uid \<Longrightarrow> q = Inr u \<Longrightarrow> nodes w (final_of uid) \<noteq> None" for u
    using q by (auto simp: io_success profile_dir_def dest!: validate_integrity_present(1))
  then show "pol w' = pol w \<or> (policy_written p (pol w') \<and> (requires_profile p uid \<longrightarrow> nodes w (final_of uid) \<noteq> None))"
    using run n write_policy_outcome(1) [of env 4 p w1 r w'] by (auto split: sum.splits)
qed

section \<open>Committing\<close>

text \<open>The tool's promise: whoever is granted a target has the old or the new profile in place.\<close>

definition safe :: "u32 \<Rightarrow> (string \<Rightarrow> (file_kind \<times> bytes) option) \<Rightarrow> (string \<Rightarrow> (file_kind \<times> bytes) option) \<Rightarrow> world \<Rightarrow> bool" where
  "safe uid old new w \<longleftrightarrow>
     (grants uid (pol w) \<longrightarrow> tree w (final_of uid) = old \<or> tree w (final_of uid) = new)"

text \<open>The moment after the swap: the user is revoked, the new profile in place, the old one in the backup if there is one.\<close>

definition swapped :: "sync_env \<Rightarrow> u32 \<Rightarrow> (string \<Rightarrow> (file_kind \<times> bytes) option) \<Rightarrow> (string \<Rightarrow> (file_kind \<times> bytes) option)
    \<Rightarrow> profile_swap \<Rightarrow> world \<Rightarrow> bool" where
  "swapped env uid old new s w \<longleftrightarrow> swap_for env uid s \<and> \<not> committed s
     \<and> tree w (final_of uid) = new \<and> (\<forall>b. backup_path s = Some b \<longrightarrow> tree w b = old)"

lemma tree_final: "keeps (below (join PR x)) m \<Longrightarrow> m w = (r, w') \<Longrightarrow> tree w' (join PR x) = tree w (join PR x)"
  by (rule keeps_tree)

lemma write_policy_swapped:
  assumes "write_policy env k production_paths p w = (r, w')" "swapped env uid old new s w"
  shows "swapped env uid old new s w'"
proof -
  have "tree w' (join PR x) = tree w (join PR x)" for x
    by (rule keeps_tree [OF keeps_write_policy [OF off_config_root] assms(1)])
  with assms(2) show ?thesis by (auto simp: swapped_def swap_for_def profile_dir_def)
qed

lemma swapped_cong: "nodes w' = nodes w \<Longrightarrow> swapped env uid old new s w' = swapped env uid old new s w"
proof -
  assume "nodes w' = nodes w"
  then have "tree w' d = tree w d" for d by (intro tree_cong) simp
  then show ?thesis by (simp add: swapped_def)
qed

lemma rollback_and_restore_safe:
  assumes "swapped env uid old new s w" "policy_wf previous" "\<not> grants uid (pol w)"
  shows "safe uid old new (rollback_and_restore env uid production_paths key previous s w)"
proof -
  obtain r s' w1 where r: "swap_rollback env s w = (r, s', w1)" by (metis prod_cases3)
  have sf: "swap_for env uid s" "\<not> committed s" using assms(1) by (auto simp: swapped_def)
  note rb = rollback_outcome [OF r sf(1)]
  show ?thesis
  proof (cases r)
    case (Inl e)
    then have "pol (rollback_and_restore env uid production_paths key previous s w) = pol w"
      using rb(1) pol_swap_drop [OF rb(2)] by (simp add: rollback_and_restore_def r)
    then show ?thesis using assms(3) by (simp add: safe_def)
  next
    case (Inr u)
    note c = rb(3) [OF sf(2) Inr]
    obtain x w2 where x: "restore_previous_policy env uid production_paths key previous w1 = (x, w2)" by fastforce
    have w2: "rollback_and_restore env uid production_paths key previous s w = w2"
      using Inr c x by (simp add: rollback_and_restore_def r swap_drop_committed)
    have t: "tree w2 (final_of uid) = tree w1 (final_of uid)" using restore_outcome(1) [OF x] by (simp add: profile_dir_def)
    have "tree w1 (final_of uid) \<in> {old, new, gone}"
      using c assms(1) by (cases "backup_path s") (auto simp: swapped_def)
    moreover have "tree w1 (final_of uid) \<noteq> gone" if g: "grants uid (pol w2)"
    proof -
      have "pol w2 \<noteq> pol w1" using g assms(3) rb(1) by auto
      then have "policy_written previous (pol w2)" "requires_profile previous uid \<longrightarrow> nodes w1 (final_of uid) \<noteq> None"
        using restore_outcome(2) [OF x] by auto
      with grants_written [OF assms(2) _ g] tree_gone [of w1 "final_of uid"] show ?thesis by auto
    qed
    ultimately show ?thesis by (auto simp: safe_def w2 t)
  qed
qed

lemma keeps_verify_installed: "keeps P (verify_installed env uid paths key)"
proof -
  have "keeps P (verified_source_at nv rootdir uid)" for nv rootdir
    using looks_verified_source_at [of nv rootdir uid] by (simp add: keeps_def looks_def)
  then show ?thesis unfolding verify_installed_def by (intro keeps_rules)
qed

lemma swap_commit_frame:
  assumes "swap_for env uid s"
  shows "pol (swap_commit env s w) = pol w" "p \<in> below (final_of uid) \<Longrightarrow> nodes (swap_commit env s w) p = nodes w p"
proof -
  have e: "swap_commit env s w = (case backup_path s of None \<Rightarrow> w | Some b \<Rightarrow> snd (remove_dir_all (se_survives env) b w))"
    by (simp add: swap_commit_def swap_drop_committed)
  have "nodes (swap_commit env s w) p = nodes w p" if "p = policy_path PC \<or> p \<in> below (final_of uid)" for p
  proof (cases "backup_path s")
    case (Some b)
    then obtain n where b: "b = backup_of uid n" using assms by (auto simp: swap_for_def)
    have "p \<notin> below b" using that policy_off_places(2) places_disjoint(1) b by blast
    then show ?thesis using keepsD [OF keeps_remove_dir_all [of "{p}" b "se_survives env"], of p w] Some e by simp
  qed (simp add: e)
  then show "pol (swap_commit env s w) = pol w"
    "p \<in> below (final_of uid) \<Longrightarrow> nodes (swap_commit env s w) p = nodes w p" by auto
qed

text \<open>What a successful commit leaves: the new data, the new policy, and a vault that opens under the system key.\<close>

definition installed :: "sync_env \<Rightarrow> u32 \<Rightarrow> (auth_target \<times> auth_policy_mode) option \<Rightarrow> bytes \<Rightarrow> auth_policy
    \<Rightarrow> (string \<Rightarrow> (file_kind \<times> bytes) option) \<Rightarrow> world \<Rightarrow> bool" where
  "installed env uid change key previous new w \<longleftrightarrow> tree w (final_of uid) = new
     \<and> (\<exists>enabled. enabled_policy uid change previous = Inr enabled \<and> policy_written enabled (pol w))
     \<and> (\<exists>i p. nodes w (join (final_of uid) VAULT_FILE) = Some i
          \<and> decode_vault (ve_native (se_vault env)) (i_data i) key uid = Inr p)"

lemma swapped_safe: "swapped env uid old new s w \<Longrightarrow> safe uid old new w"
  by (simp add: swapped_def safe_def)

lemma verify_installed_Inr:
  assumes "verify_installed env uid production_paths key w = (Inr u, w')"
  shows "\<exists>i p. nodes w (join (final_of uid) VAULT_FILE) = Some i
    \<and> decode_vault (ve_native (se_vault env)) (i_data i) key uid = Inr p"
  using assms by (auto simp: verify_installed_def io_success profile_dir_def dest!: validate_integrity_present(2))

lemma activate_outcome:
  assumes "activate_profile env uid change production_paths key previous revoked s w = (r, w')"
    "swapped env uid old new s w" "policy_wf previous" "policy_wf revoked" "\<not> requires_profile revoked uid"
    "policy_written revoked (pol w)"
  shows "safe uid old new w' \<and> (r = Inr u \<longrightarrow> installed env uid change key previous new w')"
proof -
  have off: "\<not> grants uid n" if "policy_written revoked n" for n using grants_written [OF assms(4) that] assms(5) by blast
  obtain q1 w1 where v: "verify_installed env uid production_paths key w = (q1, w1)" by fastforce
  have n1: "nodes w1 = nodes w" using keeps_all_nodes [OF keeps_verify_installed, of env uid production_paths key w] v by simp
  have s1: "swapped env uid old new s w1" using assms(2) swapped_cong [OF n1] by blast
  obtain q2 w2 where e: "wbind (wlift (enabled_policy uid change previous)) (write_policy env 5 production_paths) w1 = (q2, w2)"
    by fastforce
  have s2: "swapped env uid old new s w2"
  proof (cases "enabled_policy uid change previous")
    case (Inl x)
    with e s1 show ?thesis by (simp add: wbind_def wlift_def)
  next
    case (Inr en)
    with e have "write_policy env 5 production_paths en w1 = (q2, w2)" by (simp add: wbind_def wlift_def)
    then show ?thesis using s1 by (rule write_policy_swapped)
  qed
  obtain q3 w3 where f: "write_policy env 6 production_paths revoked w2 = (q3, w3)" by fastforce
  note s3 = write_policy_swapped [OF f s2]
  consider (unverified) x where "q1 = Inl x" "r = Inl ()" "w' = rollback_and_restore env uid production_paths key previous s w1"
    | (success) x y where "q1 = Inr x" "q2 = Inr y" "w' = swap_commit env s w2"
    | (stuck) "r = Inl ()" "w' = w3"
    | (reverted) x where "q3 = Inr x" "r = Inl ()" "w' = rollback_and_restore env uid production_paths key previous s w3"
    using assms(1) by (auto simp: activate_profile_def v e f swap_drop_committed split: sum.splits)
  then show ?thesis
  proof cases
    case unverified
    then show ?thesis using rollback_and_restore_safe [OF s1 assms(3)] off assms(6) n1 by simp
  next
    case stuck
    then show ?thesis using swapped_safe [OF s3] by simp
  next
    case reverted
    then show ?thesis using rollback_and_restore_safe [OF s3 assms(3)] off write_policy_outcome(2) [OF f] by simp
  next
    case success
    have sf: "swap_for env uid s" using s2 by (simp add: swapped_def)
    obtain en where en: "enabled_policy uid change previous = Inr en" "write_policy env 5 production_paths en w1 = (Inr y, w2)"
      using e success(2) by (auto simp: io_success)
    have nf: "nodes w' p = nodes w2 p" if "p \<in> below (final_of uid)" for p
      using swap_commit_frame(2) [OF sf that] success(3) by simp
    have n2: "nodes w2 p = nodes w1 p" if "p \<in> below (final_of uid)" for p
      using keepsD [OF keeps_write_policy [OF off_config_root] that [unfolded profile_dir_def], of env 5 en w1] en(2) by simp
    have t: "tree w' (final_of uid) = new" using tree_cong [OF nf] s2 by (simp add: swapped_def)
    moreover have "policy_written en (pol w')"
      using write_policy_outcome(2) [OF en(2)] swap_commit_frame(1) [OF sf, of w2] success(3) by simp
    moreover have "nodes w' (join (final_of uid) VAULT_FILE) = nodes w (join (final_of uid) VAULT_FILE)"
      using nf [OF join_below] n2 [OF join_below] n1 by simp
    ultimately show ?thesis
      using en(1) verify_installed_Inr v success(1) by (auto simp: installed_def safe_def)
  qed
qed

text \<open>The preparation program is trusted to leave the profiles and the policy file alone.\<close>

definition setup_confined :: "sync_env \<Rightarrow> bool" where
  "setup_confined env \<longleftrightarrow> (\<forall>executable args. keeps (insert (policy_path PC) (below PR)) (se_spawn env executable args))"

lemma setup_loop_frame:
  assumes "setup_confined env" "p = policy_path PC \<or> p \<in> below PR"
  shows "nodes (snd (setup_loop env es args w)) p = nodes w p"
proof (induction es arbitrary: w)
  case Nil
  then show ?case by simp
next
  case (Cons e es)
  obtain q v where q: "se_spawn env e args w = (q, v)" by fastforce
  have "keeps (insert (policy_path PC) (below PR)) (se_spawn env e args)"
    using assms(1) by (simp add: setup_confined_def)
  from keepsD [OF this, of p w] q assms(2) have "nodes v p = nodes w p" by auto
  with q Cons.IH [of v] show ?case by (simp split: sum.split)
qed

lemma under_root: "below (join PR x) \<subseteq> below PR"
  by (rule staged_below)

lemma run_setup_frame:
  assumes "setup_confined env" "(case change of None \<Rightarrow> (True, w) | Some (target, _) \<Rightarrow> run_setup env target uid w) = (b, w')"
  shows "pol w' = pol w" "d \<in> below PR \<Longrightarrow> tree w' d = tree w d"
proof -
  have n: "nodes w' p = nodes w p" if "p = policy_path PC \<or> p \<in> below PR" for p
  proof (cases change)
    case (Some tm)
    obtain t mode where "tm = (t, mode)" by fastforce
    with Some assms(2) have "run_setup env t uid w = (b, w')" by simp
    then show ?thesis using setup_loop_frame [OF assms(1) that] by (metis run_setup_def snd_conv)
  qed (use assms(2) in simp)
  then show "pol w' = pol w" by simp
  show "d \<in> below PR \<Longrightarrow> tree w' d = tree w d" using n below_trans by (blast intro: tree_cong)
qed

text \<open>The failed swap: the policy comes back only if the old profile did.\<close>

lemma failed_install_safe:
  assumes "install_staged_profile env uid PR (staging_of env m) w = (Inl e, w1)" "policy_wf previous" "\<not> grants uid (pol w)"
    "restore_previous_policy env uid production_paths key previous w1 = (x, w')"
  shows "safe uid (tree w (final_of uid)) new w'"
proof -
  note i = install_outcome(1) [OF assms(1)] install_outcome(2) [OF assms(1) refl]
  have t: "tree w' (final_of uid) = tree w1 (final_of uid)" using restore_outcome(1) [OF assms(4)] by (simp add: profile_dir_def)
  have "tree w1 (final_of uid) \<noteq> gone" if g: "grants uid (pol w')"
  proof -
    have "pol w' \<noteq> pol w1" using g assms(3) i(1) by auto
    then have "policy_written previous (pol w')" "requires_profile previous uid \<longrightarrow> nodes w1 (final_of uid) \<noteq> None"
      using restore_outcome(2) [OF assms(4)] by auto
    with grants_written [OF assms(2) _ g] tree_gone [of w1 "final_of uid"] show ?thesis by auto
  qed
  with i(2) t show ?thesis by (auto simp: safe_def)
qed

lemma policy_steps_frame:
  shows "acquire_policy_lock production_paths w = (q, w') \<Longrightarrow> tree w' (join PR x) = tree w (join PR x)"
    "load_policy production_paths w = (l, w') \<Longrightarrow> tree w' (join PR x) = tree w (join PR x)"
    "write_policy env k production_paths p w = (r, w') \<Longrightarrow> tree w' (join PR x) = tree w (join PR x)"
  by (rule keeps_tree, (rule keeps_acquire_policy_lock keeps_write_policy keeps_load_policy)?, (rule off_config_root)?, assumption)+

lemma replace_outcome:
  assumes "replace_profile env uid change production_paths key (staging_of env m) previous revoked w = (r, w')"
    "policy_wf previous" "policy_wf revoked" "\<not> requires_profile revoked uid"
  shows "safe uid (tree w (final_of uid)) (tree w (join (staging_of env m) (u32_to_string uid))) w'
    \<and> (r = Inr u \<longrightarrow>
         installed env uid change key previous (tree w (join (staging_of env m) (u32_to_string uid))) w')"
proof -
  let ?f = "final_of uid" and ?g = "join (staging_of env m) (u32_to_string uid)"
  obtain q1 w1 where wr: "write_policy env 1 production_paths revoked w = (q1, w1)" by fastforce
  have fg: "?f = join PR (u32_to_string uid)" "?g = join PR (staging_name (se_pid env) m @ ''/'' @ u32_to_string uid)"
    by (simp_all add: profile_dir_def staging_of_def join_def)
  then have old: "tree w1 ?f = tree w ?f" "tree w1 ?g = tree w ?g" by (simp_all only: policy_steps_frame(3) [OF wr])
  show ?thesis
  proof (cases q1)
    case (Inl e)
    obtain q2 w2 where "write_policy env 2 production_paths previous w1 = (q2, w2)" by fastforce
    with policy_steps_frame(3) [OF this, of "u32_to_string uid"] old Inl assms(1) wr show ?thesis
      by (auto simp: replace_profile_def safe_def fg simp del: One_nat_def)
  next
    case (Inr y)
    have pw: "policy_written revoked (pol w1)" by (rule write_policy_outcome(2) [OF wr Inr])
    have off: "\<not> grants uid (pol w1)" using grants_written [OF assms(3) pw] assms(4) by blast
    obtain q2 w2 where ins: "install_staged_profile env uid PR (staging_of env m) w1 = (q2, w2)" by fastforce
    show ?thesis
    proof (cases q2)
      case (Inl e)
      obtain q3 w3 where "restore_previous_policy env uid production_paths key previous w2 = (q3, w3)" by fastforce
      with failed_install_safe [OF ins [unfolded Inl] assms(2) off this, of "tree w ?g"] assms(1) wr \<open>q1 = Inr y\<close> Inl ins old
      show ?thesis by (auto simp: replace_profile_def simp del: One_nat_def)
    next
      case (Inr sw)
      note i = install_outcome(1) [OF ins] install_outcome(3) [OF ins Inr]
      have sw: "swapped env uid (tree w ?f) (tree w ?g) sw w2" using i(2) old by (simp add: swapped_def)
      have "activate_profile env uid change production_paths key previous revoked sw w2 = (r, w')"
        using assms(1) wr \<open>q1 = Inr y\<close> Inr ins by (simp add: replace_profile_def del: One_nat_def)
      from activate_outcome [OF this sw assms(2-4)] pw i(1) show ?thesis by simp
    qed
  qed
qed

lemma commit_outcome:
  assumes "setup_confined env"
    "commit_verified_profile env uid change production_paths key (staging_of env m) w = (r, w')"
  shows "safe uid (tree w (final_of uid)) (tree w (join (staging_of env m) (u32_to_string uid))) w'
    \<and> (r = Inr u \<longrightarrow> (\<exists>previous. policy_wf previous
         \<and> installed env uid change key previous (tree w (join (staging_of env m) (u32_to_string uid))) w'))"
proof -
  let ?f = "final_of uid" and ?g = "join (staging_of env m) (u32_to_string uid)"
  define same where "same v \<longleftrightarrow> (\<forall>x. tree v (join PR x) = tree w (join PR x))" for v
  have fg: "?f = join PR (u32_to_string uid)" "?g = join PR (staging_name (se_pid env) m @ ''/'' @ u32_to_string uid)"
    by (simp_all add: profile_dir_def staging_of_def join_def)
  obtain b w1 where s: "(case change of None \<Rightarrow> (True, w) | Some (target, _) \<Rightarrow> run_setup env target uid w) = (b, w1)"
    by fastforce
  have k1: "same w1" using run_setup_frame(2) [OF assms(1) s] join_below by (auto simp: same_def)
  obtain q2 w2 where a: "acquire_policy_lock production_paths w1 = (q2, w2)" by fastforce
  obtain q3 w3 where l: "load_policy production_paths w2 = (q3, w3)" by fastforce
  have k: "same w2" "same w3" using k1 policy_steps_frame(1) [OF a] policy_steps_frame(2) [OF l] by (simp_all add: same_def)
  have run: "commit_verified_profile env uid change production_paths key (staging_of env m) w = (if \<not> b then (Inl (), w1) else case q2 of Inl e \<Rightarrow> (Inl e, w2) | Inr _ \<Rightarrow>
      (case q3 of Inl e \<Rightarrow> (Inl e, w3) | Inr previous \<Rightarrow>
        (case revoke_user_targets previous uid of Inl e \<Rightarrow> (Inl e, w3)
         | Inr revoked \<Rightarrow> replace_profile env uid change production_paths key (staging_of env m) previous revoked w3)))"
    by (cases b; cases q2; cases q3) (simp_all add: commit_verified_profile_def s wbind_def wlift_def a l split: sum.split)
  have kept: "safe uid (tree w ?f) (tree w ?g) v" if "same v" for v using that by (simp add: safe_def same_def fg(1))
  show ?thesis
  proof (cases "r = Inl () \<and> (w' = w1 \<or> w' = w2 \<or> w' = w3)")
    case True
    with kept k1 k show ?thesis by auto
  next
    case False
    with run [unfolded assms(2)] obtain previous revoked where p: "q3 = Inr previous" "revoke_user_targets previous uid = Inr revoked"
      "replace_profile env uid change production_paths key (staging_of env m) previous revoked w3 = (r, w')"
      by (auto split: if_splits sum.splits)
    have wf: "policy_wf previous" using load_policy_Inr l p(1) by blast
    have "tree w3 ?f = tree w ?f" "tree w3 ?g = tree w ?g" using k(2) by (simp_all only: same_def fg)
    with replace_outcome [OF p(3) wf revoke_user_targets_Inr(1,2) [OF wf p(2)]] wf show ?thesis by auto
  qed
qed

text \<open>
  Claim C4: whatever call fails while a verified profile is committed, a user whom the policy file grants some target
  afterwards has the profile directory in place exactly as it was before or exactly as it was staged, never a mixture,
  a partial copy or nothing. A commit that reports success has installed the staged data, written the requested
  policy, and the installed vault opens under the system key.
\<close>

theorem commit_verified_profile_safe:
  assumes "setup_confined env"
    "commit_verified_profile env uid change production_paths key (staging_of env m) w = (r, w')"
  shows "(grants uid (pol w') \<longrightarrow>
        tree w' (final_of uid) \<in> {tree w (final_of uid), tree w (join (staging_of env m) (u32_to_string uid))})
    \<and> (is_ok r \<longrightarrow> tree w' (final_of uid) = tree w (join (staging_of env m) (u32_to_string uid))
        \<and> (\<exists>previous enabled. policy_wf previous \<and> enabled_policy uid change previous = Inr enabled
             \<and> policy_written enabled (pol w'))
        \<and> (\<exists>i p. nodes w' (join (final_of uid) VAULT_FILE) = Some i
             \<and> decode_vault (ve_native (se_vault env)) (i_data i) key uid = Inr p))"
  using commit_outcome [OF assms] by (auto simp: safe_def installed_def is_ok_iff)

section \<open>A concrete run\<close>

definition sample_sync_env :: sync_env where
  "sample_sync_env = \<lparr>se_vault = sample_env, se_pid = 1, se_clock = (\<lambda>n. Some n), se_spawn = (\<lambda>_ _ w. (Inr True, w)),
     se_loader = (\<lambda>_ _ _. (0, replicate 32 1)), se_seal = (\<lambda>_ _ _ w. (Inr (), w)), se_generated = Inr (replicate 32 1),
     se_entries = (\<lambda>d w. filter (\<lambda>name. nodes w (join d name) \<noteq> None) [''.revoked-7-2'', ''.revoked-7-3.key'']),
     se_survives = (\<lambda>_. True)\<rparr>"

text \<open>User 7 is granted a target; the policy lock is unusable, so that the commit ends early.\<close>

definition granting_policy :: auth_policy where
  "granting_policy = \<lparr>users = [(7, [(Sddm, Manual)])]\<rparr>"

definition granting_world :: world where
  "granting_world = \<lparr>nodes = [
       ''/etc/kfaceauth'' \<mapsto> root_inode Directory (oct3 7 5 5) 2 [],
       ''/etc/kfaceauth/.policy.lock'' \<mapsto> root_inode Directory (oct3 7 0 0) 2 [],
       ''/etc/kfaceauth/policy.json'' \<mapsto> root_inode Regular (oct3 6 4 4) 1 (text_bytes (to_json granting_policy)),
       ''/var/lib/kfaceauth/7'' \<mapsto> root_inode Directory (oct3 7 5 0) 2 [],
       ''/var/lib/kfaceauth/7/identity.vault'' \<mapsto> root_inode Regular (oct3 6 4 0) 1 [1, 2, 3]],
     euid = 0, egid = 0, umask = 0, group_ids = [''kfaceauth'' \<mapsto> 99, ''root'' \<mapsto> 0], next_ino = 20, stamp = 1, script = []\<rparr>"

lemma sample_setup_confined: "setup_confined sample_sync_env"
  by (simp add: setup_confined_def sample_sync_env_def keeps_def)

lemma granting_world_grants: "grants 7 (pol granting_world)"
proof -
  let ?i = "root_inode Regular (oct3 6 4 4) 1 (text_bytes (to_json granting_policy))"
  have p: "pol granting_world = Some ?i" by (simp add: granting_world_def production_paths_def child_def AUTH_POLICY_FILE_def)
  have "policy_wf granting_policy" by (simp add: granting_policy_def policy_wf_def users_wf_def targets_wf_def)
  moreover have "policy_written granting_policy (Some ?i)" by (simp add: policy_written_def root_inode_def)
  moreover have "length (to_json granting_policy) \<le> MAX_POLICY_BYTES"
  proof -
    have "length (to_json granting_policy) \<le> 100" by code_simp
    then show ?thesis by (simp add: MAX_POLICY_BYTES_def)
  qed
  moreover have "requires_profile granting_policy 7" by code_simp
  ultimately show ?thesis using p policy_written_parse [of granting_policy ?i] by (auto simp: grants_def)
qed

lemma granting_world_refuses:
  "commit_verified_profile sample_sync_env 7 None production_paths key staging granting_world = (Inl (), granting_world)"
  by (simp add: commit_verified_profile_def acquire_policy_lock_def lock_child_file_nonblocking_def open_lock_file_def
      wbind_def wmap_err_def sys_def pop_fault_def granting_world_def production_paths_def join_def root_inode_def)

theorem commit_verified_profile_safe_witness:
  "\<exists>w'. commit_verified_profile sample_sync_env 7 None production_paths [1] (staging_of sample_sync_env 0) granting_world = (Inl (), w')
    \<and> grants 7 (pol w')
    \<and> tree w' (final_of 7) \<in> {tree granting_world (final_of 7),
        tree granting_world (join (staging_of sample_sync_env 0) (u32_to_string 7))}"
  using commit_verified_profile_safe [OF sample_setup_confined granting_world_refuses] granting_world_refuses granting_world_grants
  by blast

end
