(* ===== verification/Sync_Provision.thy ===== *)
theory Sync_Provision
  imports Sync_Safety
begin

text \<open>
  From the user's vault to the installed one: a synchronization that reports success has decoded the user's profile with
  the key it was handed, and the vault that stands in the system directory afterwards opens under the system key to
  the same profile.
\<close>

section \<open>Frames\<close>

definition user_vault_file :: "string \<Rightarrow> string" where
  "user_vault_file data_home = join (join data_home PRODUCT_DIRECTORY) VAULT_FILE"

text \<open>The native key writer only writes below the key directory it is given.\<close>

definition seal_confined :: "sync_env \<Rightarrow> bool" where
  "seal_confined env \<longleftrightarrow> (\<forall>uid key dir. keeps (- below dir) (se_seal env uid key dir))"

lemma keeps_load_or_generate: "keeps P (load_or_generate_system_key env uid keys sysroot)"
proof (rule keepsI)
  fix w p
  assume p: "p \<in> P"
  let ?k = "join keys (system_key_name uid)"
  have l: "keeps P (\<lambda>w. if c w then wfail () w else wbind (wlift (h w)) (\<lambda>key. wreturn (key, b)) w)"
    for c h and b :: bool
    by (auto simp: keeps_def wfail_def wbind_def wlift_def wreturn_def split: sum.split)
  have c: "keeps P (wbind (unit_err (open_child_file_nofollow keys (system_key_name uid))) (\<lambda>_.
          wbind (unit_err (fd_metadata ?k)) (\<lambda>m.
          wbind (unit_err (group_id SYSTEM_GROUP)) (\<lambda>gid w2.
          if \<not> key_metadata_ok gid m then wfail () w2
          else wbind (wlift (map_err (\<lambda>_. ())
                 (load_master_key_for_uid (se_loader env w2) uid (Some (text_bytes keys))))) (\<lambda>key.
               wreturn (key, False)) w2))))"
    by (intro keeps_rules l)
  have g: "keeps P (wbind (wlift r) (\<lambda>key. wreturn (key, True)))" for r :: "unit + bytes" by (intro keeps_rules)
  obtain q v where q: "symlink_metadata ?k w = (q, v)" by fastforce
  obtain q' v' where q': "symlink_metadata (join sysroot (u32_to_string uid)) v = (q', v')" by fastforce
  have "nodes v p = nodes w p" "nodes v' p = nodes v p"
    using keepsD [OF keeps_queries(1) p, of ?k w] keepsD [OF keeps_queries(1) p, of "join sysroot (u32_to_string uid)" v] q q'
    by simp_all
  with keepsD [OF c p, of v] keepsD [OF g p, of _ v']
  show "nodes (snd (load_or_generate_system_key env uid keys sysroot w)) p = nodes w p"
    by (simp add: load_or_generate_system_key_def Let_def q q' wfail_def split: sum.split)
qed

lemma keeps_read_user_session_input: "keeps P (read_user_session_input uid rd)"
  unfolding read_user_session_input_def by (cases "read_path_text rd"; cases "fst (read_path_text rd)") (auto intro!: keeps_rules)

lemma keeps_store_new_key: "seal_confined env \<Longrightarrow> P \<inter> below keys = {} \<Longrightarrow> keeps P (store_new_key env uid keys key)"
proof -
  assume "seal_confined env" "P \<inter> below keys = {}"
  then have "keeps (- below keys) (se_seal env uid key keys)" "P \<subseteq> - below keys" by (auto simp: seal_confined_def)
  then have "keeps P (se_seal env uid key keys)" by (rule keeps_subset)
  then show ?thesis unfolding store_new_key_def by (intro keeps_rules)
qed

lemma keeps_create_staging: "P \<inter> below sysroot = {} \<Longrightarrow> keeps P (create_staging_directory env sysroot)"
proof -
  assume "P \<inter> below sysroot = {}"
  then have "join sysroot name \<notin> P" for name using join_below by blast
  then show ?thesis unfolding create_staging_directory_def Let_def by (intro keeps_rules keeps_create_dir)
qed

section \<open>The snapshot of the user's vault\<close>

lemma keeps_anchored_snapshot: "keeps P (open_anchored_profile_snapshot nv v key)"
  unfolding open_anchored_profile_snapshot_def by (intro keeps_rules)

lemma anchored_snapshot_Inr:
  assumes "open_anchored_profile_snapshot nv v key w = (Inr (p, source), w')"
  shows "\<exists>i. nodes w (vault_path v) = Some i \<and> decode_vault nv (i_data i) key (v_uid v) = Inr p"
proof -
  obtain d w1 w2 w3 w4 before bs where s: "fd_metadata (v_root v) w = (Inr d, w1)" "open_nofollow (vault_path v) w1 = (Inr (), w2)"
    "fd_metadata (vault_path v) w2 = (Inr before, w3)" "md_len before \<le> MAXIMUM_VAULT_BYTES"
    "read_limited (vault_path v) (MAXIMUM_VAULT_BYTES + 1) w3 = (Inr bs, w4)"
    "decode_vault nv bs key (v_uid v) = Inr p"
    using assms unfolding open_anchored_profile_snapshot_def
    by (auto simp: wbind_Inr wmap_err_Inr wlift_Inr wreturn_Inr wguard_Inr wfail_def split: if_split_asm)
  have "nodes w1 = nodes w" using keeps_all_nodes [OF keeps_queries(3), of "v_root v" w] s(1) by simp
  have n: "nodes w2 = nodes w1" "nodes w3 = nodes w2"
    using keeps_all_nodes [OF keeps_queries(2), of "vault_path v" w1] keeps_all_nodes [OF keeps_queries(3), of "vault_path v" w2] s(2,3)
    by simp_all
  obtain i where i: "nodes w2 (vault_path v) = Some i" "before = stat i" using metadata_Inr(2) [OF s(3)] by blast
  have "bs = i_data i" using read_limited_Inr(2) [OF s(5)] i s(4) n by (auto simp: stat_def)
  with i n s(6) \<open>nodes w1 = nodes w\<close> show ?thesis by auto
qed

section \<open>The staged vault\<close>

text \<open>What a vault file decodes to, seen through the data of its directory.\<close>

definition holds_profile :: "sync_env \<Rightarrow> u32 \<Rightarrow> bytes \<Rightarrow> string \<Rightarrow> profile \<Rightarrow> world \<Rightarrow> bool" where
  "holds_profile env uid key dir p w \<longleftrightarrow>
     (\<exists>i. nodes w (join dir VAULT_FILE) = Some i \<and> decode_vault (ve_native (se_vault env)) (i_data i) key uid = Inr p)"

lemma holds_profile_tree:
  assumes "tree w' d' = tree w d" "holds_profile env uid key d p w"
  shows "holds_profile env uid key d' p w'"
proof -
  have "tree w' d' (''/'' @ VAULT_FILE) = tree w d (''/'' @ VAULT_FILE)" by (simp add: assms(1))
  then have "map_option (\<lambda>i. (i_kind i, i_data i)) (nodes w' (join d' VAULT_FILE))
      = map_option (\<lambda>i. (i_kind i, i_data i)) (nodes w (join d VAULT_FILE))"
    by (simp add: tree_def join_def)
  then show ?thesis using assms(2) by (auto simp: holds_profile_def map_option_case split: option.splits)
qed

lemma steady_apply_permissions: "steady (apply_system_profile_permissions uid sysroot)"
  unfolding apply_system_profile_permissions_def Let_def by (intro steady_rules)

lemma commit_staged:
  assumes "commit_profile (se_vault env) (system_with_root staging uid) key p w = (Inr u, w')" "profile_wf p"
    "aead_exact (ve_native (se_vault env))" "ve_nonce (se_vault env) = Inr nonce" "length nonce = NONCE_BYTES"
  shows "holds_profile env uid key (join staging (u32_to_string uid)) p w'"
  using aonD [OF commit_profile_aon [OF assms(3,2,4,5)] refl assms(1)]
  by (auto simp: holds_profile_def stored_def system_with_root_def)

lemma decode_vault_wf: "decode_vault nv bs key uid = Inr p \<Longrightarrow> profile_wf p"
  using encode_decode_profile by (auto simp: decode_vault_iff)

lemma stage_and_commit_Inr:
  assumes "stage_and_commit env uid change production_paths data_home user_key system_key (staging_of env m) w = (Inr u, w')"
    "setup_confined env" "aead_exact (ve_native (se_vault env))" "ve_nonce (se_vault env) = Inr nonce" "length nonce = NONCE_BYTES"
    "user_vault_file data_home \<notin> below PR"
  shows "\<exists>p i. nodes w (user_vault_file data_home) = Some i
    \<and> decode_vault (ve_native (se_vault env)) (i_data i) user_key uid = Inr p
    \<and> holds_profile env uid system_key (final_of uid) p w'"
proof -
  let ?s = "staging_of env m" and ?nv = "ve_native (se_vault env)"
  let ?d = "join ?s (u32_to_string uid)"
  obtain w1 w2 w3 w4 p source w5 w6 w7 x w8 w9 where r:
    "create_dir ?d w = (Inr (), w1)" "open_child_directory_nofollow ?s (u32_to_string uid) w1 = (Inr (), w2)"
    "set_fd_permissions ?d 0 (oct3 7 5 0) SYSTEM_GROUP w2 = (Inr (), w3)"
    "open_child_directory_nofollow data_home PRODUCT_DIRECTORY w3 = (Inr (), w4)"
    "open_anchored_profile_snapshot ?nv (locate_legacy_vault uid data_home) user_key w4 = (Inr (p, source), w5)"
    "commit_profile (se_vault env) (system_with_root ?s uid) system_key p w5 = (Inr (), w6)"
    "apply_system_profile_permissions uid ?s w6 = (Inr (), w7)"
    "validate_integrity ?nv (system_with_root ?s uid) system_key w7 = (Inr x, w8)"
    "write_staged_metadata ?nv ?d uid source w8 = (Inr (), w9)"
    "commit_verified_profile env uid change production_paths system_key ?s w9 = (Inr u, w')"
    using assms(1) unfolding stage_and_commit_def Let_def by (auto simp: wbind_Inr wmap_err_Inr)
  have dr: "?d \<in> below PR" using join_below below_trans staging_of_def by metis
  have kd: "keeps {user_vault_file data_home} (create_dir ?d)"
    "keeps {user_vault_file data_home} (set_fd_permissions ?d 0 (oct3 7 5 0) SYSTEM_GROUP)"
    using assms(6) dr by (auto intro!: keeps_create_dir keeps_set_fd_permissions)
  have "nodes w4 (user_vault_file data_home) = nodes w (user_vault_file data_home)"
    using keepsD [OF kd(1), of "user_vault_file data_home" w] keepsD [OF keeps_open_child(1), of _ UNIV ?s "u32_to_string uid" w1]
      keepsD [OF kd(2), of "user_vault_file data_home" w2] keepsD [OF keeps_open_child(1), of _ UNIV data_home PRODUCT_DIRECTORY w3] r(1-4)
    by simp
  moreover obtain i where "nodes w4 (user_vault_file data_home) = Some i" and dec: "decode_vault ?nv (i_data i) user_key uid = Inr p"
    using anchored_snapshot_Inr [OF r(5)] by (auto simp: locate_legacy_vault_def user_session_with_root_def user_vault_file_def)
  moreover have "holds_profile env uid system_key (final_of uid) p w'"
  proof -
    have "holds_profile env uid system_key ?d p w6" by (rule commit_staged [OF r(6) decode_vault_wf [OF dec] assms(3-5)])
    then have "holds_profile env uid system_key ?d p w7"
      by (rule holds_profile_tree [OF steadyD [OF steady_apply_permissions r(7)]])
    moreover have "nodes w8 = nodes w7"
      using keeps_all_nodes [OF keeps_validate_integrity, of ?nv "system_with_root ?s uid" system_key w7] r(8) by simp
    moreover have "nodes w9 (join ?d VAULT_FILE) = nodes w8 (join ?d VAULT_FILE)"
      using keepsD [OF keeps_write_staged_metadata [of ?d "{join ?d VAULT_FILE}" ?nv uid source], of "join ?d VAULT_FILE" w8] r(9)
      by (simp add: METADATA_FILE_def VAULT_FILE_def)
    ultimately have "holds_profile env uid system_key ?d p w9" by (simp add: holds_profile_def)
    moreover have "tree w' (final_of uid) = tree w9 ?d"
      using commit_outcome [OF assms(2) r(10), of u] by (auto simp: installed_def)
    ultimately show ?thesis by (metis holds_profile_tree)
  qed
  ultimately show ?thesis by metis
qed

section \<open>The whole synchronization\<close>

lemma sync_profile_success:
  assumes "sync_profile env input uid change production_paths w = (code, w')" "code \<noteq> ExitFailure"
  obtains home user_key w1 system_key new w2 w3 n w4 w5 u where
    "read_user_session_input uid input w = (Inr (home, user_key), w1)"
    "load_or_generate_system_key env uid PK PR w1 = (Inr (system_key, new), w2)"
    "(if new then store_new_key env uid PK system_key else wreturn ()) w2 = (Inr u, w3)"
    "create_staging_directory env PR w3 = (Inr (staging_of env n), w4)"
    "stage_and_commit env uid change production_paths home user_key system_key (staging_of env n) w4 = (Inr (), w5)"
    "w' = snd (remove_dir_all (se_survives env) (staging_of env n) w5)" "code = ExitSuccess (sync_success change)"
proof -
  have fin: "wfinally m c v = (Inr y, v') \<longleftrightarrow> (\<exists>v1. m v = (Inr y, v1) \<and> v' = snd (c v1))" for m c v y v'
    by (auto simp: wfinally_def split: prod.splits)
  have cl: "wcleanup m c v = (Inr y, v') \<longleftrightarrow> m v = (Inr y, v')" for m c v y v'
    by (auto simp: wcleanup_def split: prod.splits sum.splits)
  have st: "\<exists>n. staging = staging_of env n" if "create_staging_directory env PR v = (Inr staging, v')" for staging v v'
    using that by (auto simp: create_staging_directory_def Let_def wbind_Inr wmap_err_Inr wreturn_Inr staging_of_def)
  obtain home user_key w1 system_key new w2 w3 staging w4 w5 u where r:
    "read_user_session_input uid input w = (Inr (home, user_key), w1)"
    "load_or_generate_system_key env uid PK PR w1 = (Inr (system_key, new), w2)"
    "(if new then store_new_key env uid PK system_key else wreturn ()) w2 = (Inr u, w3)"
    "create_staging_directory env PR w3 = (Inr staging, w4)"
    "stage_and_commit env uid change production_paths home user_key system_key staging w4 = (Inr (), w5)"
    "w' = snd (remove_dir_all (se_survives env) staging w5)" "code = ExitSuccess (sync_success change)"
    using assms unfolding sync_profile_def exit_of_def Let_def
    by (auto simp: wbind_Inr fin cl split: prod.splits sum.splits if_split_asm)
  obtain n where n: "staging = staging_of env n" using st [OF r(4)] by blast
  show thesis by (rule that [OF r(1-3) r(4-7) [unfolded n]])
qed

text \<open>
  A synchronization that reports success read a data directory and a key from its input, the user's vault there
  opened under that key, and the vault in the system directory now opens under the system key to the very same
  profile, provided encryption is exact, the preparation program and the key writer keep to their files, and the
  user's data does not lie inside the system directories.
\<close>

theorem sync_profile_installs_source:
  assumes "setup_confined env" "seal_confined env" "aead_exact (ve_native (se_vault env))"
    "ve_nonce (se_vault env) = Inr nonce" "length nonce = NONCE_BYTES"
    "\<And>home key v. read_user_session_input uid input w = (Inr (home, key), v) \<Longrightarrow>
       user_vault_file home \<notin> below PR \<and> user_vault_file home \<notin> below PK"
    "sync_profile env input uid change production_paths w = (code, w')" "code \<noteq> ExitFailure"
  shows "code = ExitSuccess (sync_success change) \<and>
    (\<exists>home user_key system_key p i j. fst (read_user_session_input uid input w) = Inr (home, user_key)
      \<and> nodes w (user_vault_file home) = Some i
      \<and> decode_vault (ve_native (se_vault env)) (i_data i) user_key uid = Inr p
      \<and> nodes w' (join (final_of uid) VAULT_FILE) = Some j
      \<and> decode_vault (ve_native (se_vault env)) (i_data j) system_key uid = Inr p)"
proof -
  obtain home user_key w1 system_key new w2 w3 n w4 w5 u where r:
    "read_user_session_input uid input w = (Inr (home, user_key), w1)"
    "load_or_generate_system_key env uid PK PR w1 = (Inr (system_key, new), w2)"
    "(if new then store_new_key env uid PK system_key else wreturn ()) w2 = (Inr u, w3)"
    "create_staging_directory env PR w3 = (Inr (staging_of env n), w4)"
    "stage_and_commit env uid change production_paths home user_key system_key (staging_of env n) w4 = (Inr (), w5)"
    "w' = snd (remove_dir_all (se_survives env) (staging_of env n) w5)" "code = ExitSuccess (sync_success change)"
    using assms(7,8) by (rule sync_profile_success)
  let ?u = "user_vault_file home"
  have off: "?u \<notin> below PR" "?u \<notin> below PK" using assms(6) [OF r(1)] by auto
  have "keeps {?u} (if new then store_new_key env uid PK system_key else wreturn ())"
    using off(2) by (auto intro!: keeps_store_new_key [OF assms(2)] keeps_rules)
  from keepsD [OF this, of ?u w2] r(3) have "nodes w3 ?u = nodes w2 ?u" by simp
  moreover have "nodes w1 ?u = nodes w ?u" "nodes w2 ?u = nodes w1 ?u"
    using keepsD [OF keeps_read_user_session_input [of UNIV], of ?u uid input w]
      keepsD [OF keeps_load_or_generate [of UNIV], of ?u env uid PK PR w1] r(1,2) by simp_all
  moreover have "nodes w4 ?u = nodes w3 ?u"
    using keepsD [OF keeps_create_staging [of "{?u}" PR env], of ?u w3] r(4) off(1) by simp
  ultimately have un: "nodes w4 ?u = nodes w ?u" by simp
  obtain p i where p: "nodes w4 ?u = Some i" "decode_vault (ve_native (se_vault env)) (i_data i) user_key uid = Inr p"
    "holds_profile env uid system_key (final_of uid) p w5"
    using stage_and_commit_Inr [OF r(5) assms(1,3,4,5) off(1)] by blast
  have "below (final_of uid) \<inter> below (staging_of env n) = {}"
    unfolding profile_dir_def staging_of_def by (rule siblings_disjoint) simp_all
  then have "tree w' (final_of uid) = tree w5 (final_of uid)"
    using r(6) remove_dir_all_frame(2) [OF prod.collapse [symmetric]] by metis
  then have "holds_profile env uid system_key (final_of uid) p w'" using p(3) by (rule holds_profile_tree)
  then show ?thesis using r(1,7) p(1,2) un unfolding holds_profile_def by (metis fst_conv)
qed

end
