(* ===== verification/Camera_Text.thy ===== *)
theory Camera_Text
  imports Text_Base
begin

text \<open>
  How \<^verbatim>\<open>engine/templates/src/bin/kfaceauth-camera-config.rs\<close> reads and edits the text of \<^verbatim>\<open>kfaceauth.conf\<close>: the refusal of
  values that continue over a line end (\<^verbatim>\<open>validate_lines\<close>), the camera setting (\<^verbatim>\<open>setting\<close>) and its replacement
  (\<^verbatim>\<open>replacement\<close>), which must keep every other line. A text is its UTF-8 bytes.
\<close>

section \<open>Lines, trimming and splitting\<close>

abbreviation NL :: char where "NL \<equiv> CHR 0x0A"

text \<open>\<^verbatim>\<open>char::is_whitespace\<close> on the encoding of one character.\<close>

definition is_space :: "string \<Rightarrow> bool" where
  "is_space e \<longleftrightarrow> e \<in> set [
     [CHR 0x09], [CHR 0x0A], [CHR 0x0B], [CHR 0x0C], [CHR 0x0D], [CHR 0x20], [CHR 0xC2, CHR 0x85],
     [CHR 0xC2, CHR 0xA0], [CHR 0xE1, CHR 0x9A, CHR 0x80], [CHR 0xE2, CHR 0x80, CHR 0x80],
     [CHR 0xE2, CHR 0x80, CHR 0x81], [CHR 0xE2, CHR 0x80, CHR 0x82], [CHR 0xE2, CHR 0x80, CHR 0x83],
     [CHR 0xE2, CHR 0x80, CHR 0x84], [CHR 0xE2, CHR 0x80, CHR 0x85], [CHR 0xE2, CHR 0x80, CHR 0x86],
     [CHR 0xE2, CHR 0x80, CHR 0x87], [CHR 0xE2, CHR 0x80, CHR 0x88], [CHR 0xE2, CHR 0x80, CHR 0x89],
     [CHR 0xE2, CHR 0x80, CHR 0x8A], [CHR 0xE2, CHR 0x80, CHR 0xA8], [CHR 0xE2, CHR 0x80, CHR 0xA9],
     [CHR 0xE2, CHR 0x80, CHR 0xAF], [CHR 0xE2, CHR 0x81, CHR 0x9F], [CHR 0xE3, CHR 0x80, CHR 0x80]]"

lemma not_is_space_Nil [simp]: "\<not> is_space []"
  by (simp add: is_space_def)

text \<open>Removal of leading pieces of at most three bytes.\<close>

function strip_with :: "(string \<Rightarrow> bool) \<Rightarrow> string \<Rightarrow> string" where
  "strip_with sp s =
     (if s \<noteq> [] \<and> sp (take 1 s) then strip_with sp (drop 1 s)
      else if s \<noteq> [] \<and> sp (take 2 s) then strip_with sp (drop 2 s)
      else if s \<noteq> [] \<and> sp (take 3 s) then strip_with sp (drop 3 s)
      else s)"
  by pat_completeness auto
termination by (relation "measure (\<lambda>(sp, s). length s)") auto

declare strip_with.simps [simp del]

definition trim_start :: "string \<Rightarrow> string" where
  "trim_start = strip_with is_space"

definition trim_end :: "string \<Rightarrow> string" where
  "trim_end s = rev (strip_with (\<lambda>e. is_space (rev e)) (rev s))"

definition trim :: "string \<Rightarrow> string" where
  "trim s = trim_start (trim_end s)"

definition trim_matches :: "char \<Rightarrow> string \<Rightarrow> string" where
  "trim_matches c s = rev (dropWhile ((=) c) (rev (dropWhile ((=) c) s)))"

fun split_inclusive :: "string \<Rightarrow> string list" where
  "split_inclusive [] = []"
| "split_inclusive (c # s) =
     (if c = NL then [c] # split_inclusive s
      else case split_inclusive s of [] \<Rightarrow> [[c]] | l # ls \<Rightarrow> (c # l) # ls)"

definition strip_suffix_char :: "char \<Rightarrow> string \<Rightarrow> string option" where
  "strip_suffix_char c s = (if s \<noteq> [] \<and> last s = c then Some (butlast s) else None)"

definition str_lines :: "string \<Rightarrow> string list" where
  "str_lines s = map (\<lambda>l.
     case strip_suffix_char NL l of
       None \<Rightarrow> l
     | Some l' \<Rightarrow> (case strip_suffix_char (CHR 0x0D) l' of None \<Rightarrow> l' | Some l'' \<Rightarrow> l'')) (split_inclusive s)"

fun split_once :: "char \<Rightarrow> string \<Rightarrow> (string \<times> string) option" where
  "split_once c [] = None"
| "split_once c (d # s) =
     (if d = c then Some ([], s) else map_option (\<lambda>(a, b). (d # a, b)) (split_once c s))"

section \<open>The setting\<close>

definition KEY :: string where "KEY = ''KFACEAUTH_CAMERA_DEVICE''"

definition is_comment :: "string \<Rightarrow> bool" where
  "is_comment line \<longleftrightarrow> take 1 line = ''#'' \<or> take 1 line = '';''"

text \<open>The scan of a value; the result says whether a quote or an escape is left open.\<close>

fun scan_value :: "char option \<Rightarrow> bool \<Rightarrow> string \<Rightarrow> bool" where
  "scan_value quote escaped [] = (quote \<noteq> None \<or> escaped)"
| "scan_value quote escaped (c # s) =
     (if escaped then scan_value quote False s
      else if c = CHR 0x5C \<and> quote \<noteq> Some (CHR 0x27) then scan_value quote True s
      else if c = CHR 0x27 \<or> c = CHR 0x22 then
        (if quote = Some c then scan_value None False s
         else if quote = None then scan_value (Some c) False s
         else scan_value quote False s)
      else scan_value quote False s)"

definition line_supported :: "string \<Rightarrow> bool" where
  "line_supported raw =
     (let line = trim raw in
      if line = [] \<or> is_comment line then True
      else case split_once (CHR ''='') line of
        None \<Rightarrow> True
      | Some (_, v) \<Rightarrow> \<not> scan_value None False v)"

definition validate_lines :: "string \<Rightarrow> string + unit" where
  "validate_lines s = (if list_all line_supported (str_lines s) then Inr () else Inl ''unsupported-config'')"

fun setting_loop :: "string option \<Rightarrow> string list \<Rightarrow> string + string option" where
  "setting_loop v [] = Inr v"
| "setting_loop v (raw # ls) =
     (let line = trim raw in
      if line = [] \<or> is_comment line then setting_loop v ls
      else case split_once (CHR ''='') line of
        None \<Rightarrow> setting_loop v ls
      | Some (name, entry) \<Rightarrow>
          if trim name = KEY then
            (if v \<noteq> None then Inl ''duplicate-setting''
             else setting_loop (Some (trim_matches (CHR 0x27) (trim_matches (CHR 0x22) (trim entry)))) ls)
          else setting_loop v ls)"

definition setting :: "string \<Rightarrow> string + string option" where
  "setting s =
     (if \<not> utf8_valid (map byte s) then Inl ''invalid-config''
      else rbind (validate_lines s) (\<lambda>_.
           rbind (setting_loop None (str_lines s)) (\<lambda>v.
           Inr (case v of Some item \<Rightarrow> if item = [] then None else Some item | None \<Rightarrow> None))))"

definition is_camera_line :: "string \<Rightarrow> bool" where
  "is_camera_line raw \<longleftrightarrow> (case split_once (CHR ''='') (trim raw) of None \<Rightarrow> False | Some (name, _) \<Rightarrow> trim name = KEY)"

definition replacement :: "string \<Rightarrow> string option \<Rightarrow> string + string" where
  "replacement s selected =
     rbind (setting s) (\<lambda>_.
       if \<not> utf8_valid (map byte s) then Inl ''invalid-config''
       else let result = concat (filter (\<lambda>line. \<not> is_camera_line line) (split_inclusive s)) in
         case selected of
           None \<Rightarrow> Inr result
         | Some sel \<Rightarrow>
             Inr ((if result \<noteq> [] \<and> last result \<noteq> NL then result @ [NL] else result) @ KEY @ ''='' @ sel @ [NL]))"

section \<open>Trimming\<close>

lemma strip_with_Nil [simp]: "strip_with sp [] = []"
  by (simp add: strip_with.simps)

lemma strip_with_space: "sp [c] \<Longrightarrow> strip_with sp (c # s) = strip_with sp s"
  by (simp add: strip_with.simps [of sp "c # s"])

lemma is_space_plain:
  "is_space [NL]" "is_space [CHR 0x0D]"
  by (simp_all add: is_space_def byte_def)

lemma is_space_visible:
  assumes "33 \<le> byte c" "byte c \<le> 126"
  shows "\<not> is_space (c # e)" "\<not> is_space (rev (c # e))"
proof -
  have al: "\<forall>b \<in> set (map byte e). b < 33 \<or> 0x80 \<le> b" if "is_space e" for e
    using that by (auto simp: is_space_def byte_def)
  show "\<not> is_space (c # e)" "\<not> is_space (rev (c # e))" using al [of "c # e"] al [of "rev (c # e)"] assms by auto
qed

lemma strip_with_visible:
  assumes "33 \<le> byte c" "byte c \<le> 126"
  shows "strip_with is_space (c # s) = c # s" "strip_with (\<lambda>e. is_space (rev e)) (c # s) = c # s"
  using is_space_visible [OF assms] by (simp_all add: strip_with.simps numeral_eq_Suc)

lemma strip_with_suffix: "\<exists>x. s = x @ strip_with sp s"
proof (induction sp s rule: strip_with.induct)
  case (1 sp s)
  have d: "\<exists>x. s = x @ strip_with sp (drop n s)" if "\<exists>x. drop n s = x @ strip_with sp (drop n s)" for n
    using that by (metis append.assoc append_take_drop_id)
  note e = strip_with.simps [of sp s]
  show ?case
    using "1"(1) [THEN d] "1"(2) [THEN d] "1"(3) [THEN d] e by (metis append_Nil)
qed

lemma trim_end_prefix: "\<exists>x. s = trim_end s @ x"
  using strip_with_suffix [of "rev s" "\<lambda>e. is_space (rev e)"] unfolding trim_end_def by (metis rev_append rev_rev_ident)

lemma trim_NL [simp]: "trim (s @ [NL]) = trim s" "trim (s @ [CHR 0x0D]) = trim s"
  using is_space_plain by (simp_all add: trim_def trim_end_def strip_with_space)

text \<open>A text that begins and ends visibly stays as it is.\<close>

definition visible :: "char \<Rightarrow> bool" where
  "visible c \<longleftrightarrow> 33 \<le> byte c \<and> byte c \<le> 126"

lemma trim_visible:
  assumes "s \<noteq> []" "visible (hd s)" "visible (last s)"
  shows "trim s = s"
proof -
  have "rev s = last s # rev (butlast s)" using assms(1) by (cases s rule: rev_cases) simp_all
  then have "trim_end s = s" using strip_with_visible(2) [of "last s" "rev (butlast s)"] assms(3)
    by (metis trim_end_def visible_def rev_rev_ident)
  moreover have "trim_start s = s"
    using strip_with_visible(1) [of "hd s" "tl s"] assms(1,2) by (simp add: trim_start_def visible_def)
  ultimately show ?thesis by (simp add: trim_def)
qed

lemma trim_head:
  assumes "visible c" "trim (c # s) \<noteq> []"
  shows "hd (trim (c # s)) = c"
proof -
  obtain x where x: "c # s = trim_end (c # s) @ x" using trim_end_prefix by blast
  have "trim_end (c # s) \<noteq> []" using assms(2) by (auto simp: trim_def trim_start_def)
  then obtain t where t: "trim_end (c # s) = c # t" using x by (metis append_Cons list.inject neq_Nil_conv)
  then show ?thesis using strip_with_visible(1) [of c t] assms(1) by (simp add: trim_def trim_start_def visible_def)
qed

section \<open>Lines\<close>

lemma concat_split_inclusive [simp]: "concat (split_inclusive s) = s"
  by (induction s rule: split_inclusive.induct) (auto split: list.split)

fun lines_wf :: "string list \<Rightarrow> bool" where
  "lines_wf [] = True"
| "lines_wf [l] = (l \<noteq> [] \<and> NL \<notin> set (butlast l))"
| "lines_wf (l # ls) = (l \<noteq> [] \<and> last l = NL \<and> NL \<notin> set (butlast l) \<and> lines_wf ls)"

lemma lines_wf_Cons: "lines_wf (l # ls) \<longleftrightarrow> l \<noteq> [] \<and> NL \<notin> set (butlast l) \<and> (ls \<noteq> [] \<longrightarrow> last l = NL) \<and> lines_wf ls"
  by (cases ls) auto

lemma split_inclusive_Nil [simp]: "split_inclusive s = [] \<longleftrightarrow> s = []"
  by (cases s) (auto split: list.split)

lemma lines_wf_split_inclusive: "lines_wf (split_inclusive s)"
  by (induction s rule: split_inclusive.induct) (auto simp: lines_wf_Cons split: list.split)

lemma lines_wf_filter: "lines_wf ls \<Longrightarrow> lines_wf (filter P ls)"
  by (induction ls) (auto simp: lines_wf_Cons)

lemma split_inclusive_line: "NL \<notin> set x \<Longrightarrow> split_inclusive (x @ NL # s) = (x @ [NL]) # split_inclusive s"
  by (induction x) auto

lemma split_inclusive_tail: "NL \<notin> set x \<Longrightarrow> x \<noteq> [] \<Longrightarrow> split_inclusive x = [x]"
proof (induction x)
  case (Cons c x)
  then show ?case by (cases "x = []") auto
qed simp

lemma split_inclusive_concat: "lines_wf ls \<Longrightarrow> split_inclusive (concat ls) = ls"
proof (induction ls)
  case (Cons l ls)
  have l: "l \<noteq> []" "NL \<notin> set (butlast l)" "ls \<noteq> [] \<longrightarrow> last l = NL" "lines_wf ls" using Cons.prems by (auto simp: lines_wf_Cons)
  show ?case
  proof (cases "last l = NL")
    case True
    then have "l = butlast l @ [NL]" using l(1) by (metis append_butlast_last_id)
    then show ?thesis using split_inclusive_line [OF l(2), of "concat ls"] Cons.IH [OF l(4)] by (metis append.assoc append_Cons append_Nil concat.simps(2))
  next
    case False
    then have "NL \<notin> set l" using l(1,2) by (metis append_butlast_last_id in_set_conv_decomp Un_iff empty_iff empty_set set_ConsD set_append)
    moreover have "ls = []" using False l(3) by blast
    ultimately show ?thesis using split_inclusive_tail l(1) by simp
  qed
qed simp

lemma trim_line: "trim (case strip_suffix_char NL l of None \<Rightarrow> l
    | Some l' \<Rightarrow> (case strip_suffix_char (CHR 0x0D) l' of None \<Rightarrow> l' | Some l'' \<Rightarrow> l'')) = trim l"
proof -
  have e: "trim (butlast m) = trim m" if "m \<noteq> []" "last m = NL \<or> last m = CHR 0x0D" for m
    using that trim_NL [of "butlast m"] by (metis append_butlast_last_id)
  show ?thesis by (auto simp: strip_suffix_char_def e split: if_splits)
qed


section \<open>UTF-8 in pieces\<close>

lemma utf8_append: "utf8_valid a \<Longrightarrow> utf8_valid b \<Longrightarrow> utf8_valid (a @ b)"
  by (induction a rule: utf8_valid.induct) (auto split: if_splits list.splits)

lemma utf8_split_ascii:
  assumes "c < 0x80"
  shows "utf8_valid (a @ c # b) \<Longrightarrow> utf8_valid a \<and> utf8_valid b"
proof (induction a rule: length_induct)
  case (1 a)
  have n: "\<not> utf8_cont c" using assms by (simp add: utf8_cont_def)
  have ih: "utf8_valid (t @ c # b) \<Longrightarrow> length t < length a \<Longrightarrow> utf8_valid t \<and> utf8_valid b" for t using 1 by blast
  show ?case
  proof (cases a)
    case Nil
    with 1 assms show ?thesis by simp
  next
    case (Cons x s)
    consider "s = []" | y where "s = [y]" | y z where "s = [y, z]" | y z u t where "s = y # z # u # t"
      by (metis neq_Nil_conv)
    note c = this
    note v = 1(2) [unfolded Cons append_Cons utf8_valid.simps(2)]
    show ?thesis
      unfolding Cons utf8_valid.simps(2)
      using c v n assms ih [of s] ih [of "drop 1 s"] ih [of "drop 2 s"] ih [of "drop 3 s"] Cons
      by cases (simp_all split: if_splits list.splits del: utf8_valid.simps(2))
  qed
qed

lemma utf8_lines:
  assumes "lines_wf ls" "utf8_valid (map byte (concat ls))" "l \<in> set ls"
  shows "utf8_valid (map byte l)"
  using assms
proof (induction ls)
  case (Cons m ls)
  show ?case
  proof (cases "ls = []")
    case False
    then have "m = butlast m @ [NL]" using Cons.prems(1) by (metis append_butlast_last_id lines_wf_Cons)
    then obtain x where x: "m = x @ [NL]" by blast
    have "map byte (concat (m # ls)) = map byte x @ 10 # map byte (concat ls)" by (simp add: x byte_def)
    then have "utf8_valid (map byte x)" "utf8_valid (map byte (concat ls))"
      using utf8_split_ascii [of 10 "map byte x" "map byte (concat ls)"] Cons.prems(2) by simp_all
    moreover have "utf8_valid (map byte m)" using calculation(1) utf8_append [of "map byte x" "[10]"] by (simp add: x byte_def)
    ultimately show ?thesis using Cons.IH Cons.prems(1,3) by (auto simp: lines_wf_Cons)
  qed (use Cons.prems in auto)
qed simp

lemma utf8_concat: "(\<And>l. l \<in> set ls \<Longrightarrow> utf8_valid (map byte l)) \<Longrightarrow> utf8_valid (map byte (concat ls))"
  by (induction ls) (auto simp: utf8_append)

section \<open>Completing the last line\<close>

definition complete_lines :: "string list \<Rightarrow> bool" where
  "complete_lines ls \<longleftrightarrow> (\<forall>l \<in> set ls. \<exists>x. NL \<notin> set x \<and> l = x @ [NL])"

lemma split_complete: "complete_lines ls \<Longrightarrow> split_inclusive (concat ls @ s) = ls @ split_inclusive s"
  by (induction ls) (auto simp: complete_lines_def split_inclusive_line)

lemma lines_completed:
  assumes "lines_wf ls"
  obtains ms where "complete_lines ms" "map trim ms = map trim ls"
    "concat ms = (if concat ls \<noteq> [] \<and> last (concat ls) \<noteq> NL then concat ls @ [NL] else concat ls)"
  using assms
proof (induction ls arbitrary: thesis)
  case Nil
  then show ?case by (auto simp: complete_lines_def)
next
  case (Cons l ls)
  have l: "l \<noteq> []" "NL \<notin> set (butlast l)" "ls \<noteq> [] \<longrightarrow> last l = NL" "lines_wf ls" using Cons.prems(2) by (auto simp: lines_wf_Cons)
  show ?case
  proof (cases "ls = []")
    case True
    show ?thesis
    proof (cases "last l = NL")
      case eol: True
      then have "complete_lines [l]" using l(1,2) by (auto simp: complete_lines_def) (metis append_butlast_last_id)
      with True eol l(1) show ?thesis by (intro Cons.prems(1) [of "[l]"]) simp_all
    next
      case False
      then have "NL \<notin> set l" using l(1,2) by (cases l rule: rev_cases) auto
      then have "complete_lines [l @ [NL]]" by (simp add: complete_lines_def)
      with True False l(1) show ?thesis by (intro Cons.prems(1) [of "[l @ [NL]]"]) simp_all
    qed
  next
    case False
    obtain ms where ms: "complete_lines ms" "map trim ms = map trim ls"
      "concat ms = (if concat ls \<noteq> [] \<and> last (concat ls) \<noteq> NL then concat ls @ [NL] else concat ls)" using Cons.IH l(4) by blast
    have ne: "concat ls \<noteq> []" using False l(4) by (cases ls) (auto simp: lines_wf_Cons)
    have "complete_lines (l # ms)" using ms(1) l(1,2,3) False by (auto simp: complete_lines_def) (metis append_butlast_last_id)
    with ms ne show ?thesis by (intro Cons.prems(1) [of "l # ms"]) simp_all
  qed
qed


section \<open>The edit keeps everything else\<close>

lemma trim_determines:
  assumes "trim a = trim b"
  shows "line_supported a = line_supported b" "is_camera_line a = is_camera_line b"
  using assms by (simp_all add: line_supported_def is_camera_line_def)

lemma list_all_trim:
  assumes "\<And>a b. trim a = trim b \<Longrightarrow> P a = P b"
  shows "map trim ls = map trim ms \<Longrightarrow> list_all P ls = list_all P ms"
proof (induction ls ms rule: list_induct2')
  case (4 l ls m ms)
  then have "trim l = trim m" "list_all P ls = list_all P ms" by simp_all
  with assms [of l m] show ?case by simp
qed simp_all

lemma setting_loop_trim: "map trim ls = map trim ms \<Longrightarrow> setting_loop v ls = setting_loop v ms"
proof (induction ls ms arbitrary: v rule: list_induct2')
  case (4 l ls m ms)
  then have "trim l = trim m" and e: "setting_loop u ls = setting_loop u ms" for u by simp_all
  then show ?case by (simp add: Let_def e split: option.split)
qed simp_all

lemma trim_str_lines: "map trim (str_lines s) = map trim (split_inclusive s)"
  by (simp add: str_lines_def trim_line)

lemma setting_by_lines:
  assumes "utf8_valid (map byte s)" "map trim (split_inclusive s) = map trim ls"
  shows "setting s = (if list_all line_supported ls then
      rbind (setting_loop None ls) (\<lambda>v. Inr (case v of Some item \<Rightarrow> if item = [] then None else Some item | None \<Rightarrow> None))
    else Inl ''unsupported-config'')"
proof -
  have e: "map trim (str_lines s) = map trim ls" using assms(2) by (simp add: trim_str_lines)
  have "list_all line_supported (str_lines s) = list_all line_supported ls"
    using trim_determines(1) e by (rule list_all_trim)
  then show ?thesis using assms(1) setting_loop_trim [OF e] by (simp add: setting_def validate_lines_def)
qed

lemma setting_loop_others: "list_all (\<lambda>l. \<not> is_camera_line l) ls \<Longrightarrow> setting_loop v (ls @ ms) = setting_loop v ms"
  by (induction ls) (auto simp: is_camera_line_def Let_def split: option.split)

text \<open>A device path that can be written without quoting: visible ASCII without quotes and backslashes.\<close>

definition selectable :: "string \<Rightarrow> bool" where
  "selectable p \<longleftrightarrow> p \<noteq> [] \<and> (\<forall>c \<in> set p. visible c \<and> c \<noteq> CHR 0x22 \<and> c \<noteq> CHR 0x27 \<and> c \<noteq> CHR 0x5C)"

lemma selectable_facts:
  assumes "selectable p"
  shows "trim p = p" "\<not> scan_value None False p" "trim_matches (CHR 0x27) (trim_matches (CHR 0x22) p) = p" "utf8_valid (map byte p)"
    "NL \<notin> set p"
proof -
  have c: "visible c" "c \<noteq> CHR 0x22" "c \<noteq> CHR 0x27" "c \<noteq> CHR 0x5C" if "c \<in> set p" for c
    using assms that by (auto simp: selectable_def)
  have ne: "p \<noteq> []" using assms by (simp add: selectable_def)
  show "trim p = p" using ne c by (intro trim_visible) simp_all
  have "\<not> scan_value None False s" if "set s \<subseteq> set p" for s using that c by (induction s) auto
  then show "\<not> scan_value None False p" by simp
  have d: "dropWhile ((=) q) s = s" if "q \<notin> set s" for q and s :: string using that by (cases s) auto
  have "trim_matches q p = p" if "q \<notin> set p" for q using d [of q p] d [of q "rev p"] that by (simp add: trim_matches_def)
  then show "trim_matches (CHR 0x27) (trim_matches (CHR 0x22) p) = p" using c by metis
  show "utf8_valid (map byte p)" by (rule utf8_valid_ascii) (use c(1) in \<open>fastforce simp: visible_def\<close>)
  show "NL \<notin> set p" using c(1) [of NL] by (auto simp: visible_def byte_def)
qed

lemma KEY_facts: "split_once (CHR ''='') (KEY @ ''='' @ p) = Some (KEY, p)" "trim KEY = KEY" "NL \<notin> set KEY" "utf8_valid (map byte KEY)"
  "hd KEY = CHR ''K''" "KEY \<noteq> []" "visible (CHR ''K'')"
proof -
  show "trim KEY = KEY" by (rule trim_visible) (simp_all add: KEY_def visible_def byte_def)
  show "utf8_valid (map byte KEY)" by (rule utf8_valid_ascii) (simp add: KEY_def byte_def)
qed (simp_all add: KEY_def visible_def byte_def)

lemma camera_line:
  assumes "selectable p"
  shows "trim (KEY @ ''='' @ p @ [NL]) = KEY @ ''='' @ p" "is_camera_line (KEY @ ''='' @ p @ [NL])" "line_supported (KEY @ ''='' @ p @ [NL])"
    "setting_loop None [KEY @ ''='' @ p @ [NL]] = Inr (Some p)"
proof -
  have p: "p \<noteq> []" "visible (last p)" using assms by (auto simp: selectable_def)
  have "trim (KEY @ ''='' @ p) = KEY @ ''='' @ p"
    by (rule trim_visible) (use p KEY_facts in \<open>simp_all\<close>)
  then show t: "trim (KEY @ ''='' @ p @ [NL]) = KEY @ ''='' @ p" using trim_NL(1) [of "KEY @ ''='' @ p"] by simp
  show "is_camera_line (KEY @ ''='' @ p @ [NL])" unfolding is_camera_line_def t KEY_facts(1) by (simp add: KEY_facts(2))
  have k: "KEY @ ''='' @ p \<noteq> []" "\<not> is_comment (KEY @ ''='' @ p)" by (simp_all add: is_comment_def KEY_def)
  show "line_supported (KEY @ ''='' @ p @ [NL])"
    unfolding line_supported_def t Let_def KEY_facts(1) using selectable_facts(2) [OF assms] by simp
  show "setting_loop None [KEY @ ''='' @ p @ [NL]] = Inr (Some p)"
    unfolding setting_loop.simps t Let_def KEY_facts(1) using k selectable_facts(1,3) [OF assms] KEY_facts(2) by simp
qed


lemma split_once_head: "split_once c (d # s) = Some (a, b) \<Longrightarrow> d \<noteq> c \<Longrightarrow> \<exists>t. a = d # t"
  by (auto split: option.splits)

lemma comment_not_camera: "is_comment (trim l) \<Longrightarrow> \<not> is_camera_line l"
proof
  assume c: "is_comment (trim l)" and "is_camera_line l"
  then obtain name v where n: "split_once (CHR ''='') (trim l) = Some (name, v)" "trim name = KEY"
    by (auto simp: is_camera_line_def split: option.splits)
  obtain d t where d: "trim l = d # t" "d = CHR ''#'' \<or> d = CHR '';''" using c by (cases "trim l") (auto simp: is_comment_def)
  with n(1) obtain u where "name = d # u" using split_once_head [of "CHR ''=''" d t name v] by auto
  moreover have "visible d" using d(2) by (auto simp: visible_def byte_def)
  ultimately have "hd KEY = d" using trim_head [of d u] n(2) KEY_facts(6) by metis
  then show False using d(2) KEY_facts(5) by auto
qed

text \<open>What the edit must keep: the trimmed lines that are not the camera setting, in order, and every comment.\<close>

definition other_lines :: "string \<Rightarrow> string list" where
  "other_lines s = map trim (filter (\<lambda>l. \<not> is_camera_line l) (split_inclusive s))"

definition comments :: "string \<Rightarrow> string list" where
  "comments s = filter is_comment (map trim (split_inclusive s))"

lemma comments_other: "comments s = filter is_comment (other_lines s)"
proof -
  have "filter is_comment (map trim ls) = filter is_comment (map trim (filter (\<lambda>l. \<not> is_camera_line l) ls))" for ls
    using comment_not_camera by (induction ls) auto
  then show ?thesis by (simp add: comments_def other_lines_def)
qed

lemma replacement_Inr:
  assumes "replacement s sel = Inr out" "kept = filter (\<lambda>l. \<not> is_camera_line l) (split_inclusive s)"
  shows "list_all line_supported kept" "lines_wf kept" "utf8_valid (map byte (concat kept))"
    "out = (case sel of None \<Rightarrow> concat kept | Some p \<Rightarrow>
      (if concat kept \<noteq> [] \<and> last (concat kept) \<noteq> NL then concat kept @ [NL] else concat kept) @ KEY @ ''='' @ p @ [NL])"
proof -
  obtain v where v: "setting s = Inr v" "utf8_valid (map byte s)"
    "out = (case sel of None \<Rightarrow> concat kept | Some p \<Rightarrow>
      (if concat kept \<noteq> [] \<and> last (concat kept) \<noteq> NL then concat kept @ [NL] else concat kept) @ KEY @ ''='' @ p @ [NL])"
    using assms(1) unfolding replacement_def assms(2) [symmetric] Let_def
    by (cases sel) (auto simp: rbind_eq_Inr simp del: concat_eq_Nil_conv concat_eq_append_conv split: if_splits)
  then show "out = (case sel of None \<Rightarrow> concat kept | Some p \<Rightarrow>
      (if concat kept \<noteq> [] \<and> last (concat kept) \<noteq> NL then concat kept @ [NL] else concat kept) @ KEY @ ''='' @ p @ [NL])" by simp
  show "list_all line_supported kept"
    using setting_by_lines [OF v(2) refl] v(1) assms(2) by (auto simp: list_all_iff split: if_splits)
  show "lines_wf kept" using lines_wf_filter lines_wf_split_inclusive assms(2) by blast
  show "utf8_valid (map byte (concat kept))"
    using utf8_lines [OF lines_wf_split_inclusive, of s] v(2) assms(2) by (intro utf8_concat) auto
qed

lemma edited_lines:
  assumes "replacement s sel = Inr out" "\<forall>p. sel = Some p \<longrightarrow> selectable p"
  obtains ms where "split_inclusive out = ms @ (case sel of None \<Rightarrow> [] | Some p \<Rightarrow> [KEY @ ''='' @ p @ [NL]])"
    "list_all (\<lambda>l. \<not> is_camera_line l) ms" "list_all line_supported ms" "map trim ms = other_lines s" "utf8_valid (map byte out)"
    "sel \<noteq> None \<Longrightarrow> concat ms = [] \<or> last (concat ms) = NL"
proof -
  define kept where "kept = filter (\<lambda>l. \<not> is_camera_line l) (split_inclusive s)"
  note k = replacement_Inr [OF assms(1) kept_def]
  have o: "list_all (\<lambda>l. \<not> is_camera_line l) kept" "map trim kept = other_lines s"
    by (simp_all add: kept_def list_all_iff other_lines_def)
  show thesis
  proof (cases sel)
    case None
    with k split_inclusive_concat [OF k(2)] o that [of kept] show thesis by simp
  next
    case (Some p)
    then have p: "selectable p" using assms(2) by blast
    obtain ms where ms: "complete_lines ms" "map trim ms = map trim kept"
      "concat ms = (if concat kept \<noteq> [] \<and> last (concat kept) \<noteq> NL then concat kept @ [NL] else concat kept)"
      using lines_completed [OF k(2)] by blast
    have out: "out = concat ms @ KEY @ ''='' @ p @ [NL]" using k(4) Some ms(3) by simp
    have nl: "NL \<notin> set (KEY @ ''='' @ p)" using selectable_facts(5) [OF p] KEY_facts(3) by simp
    have "split_inclusive out = ms @ [KEY @ ''='' @ p @ [NL]]"
      unfolding out using split_complete [OF ms(1)] split_inclusive_line [OF nl, of "[]"] by simp
    moreover have "list_all (\<lambda>l. \<not> is_camera_line l) ms" "list_all line_supported ms"
      using list_all_trim [OF _ ms(2), of "\<lambda>l. \<not> is_camera_line l"] list_all_trim [OF _ ms(2), of line_supported] trim_determines o(1) k(1)
      by blast+
    moreover have "utf8_valid (map byte out)"
    proof -
      have "utf8_valid (map byte (concat ms))" using k(3) utf8_append [of "map byte (concat kept)" "[10]"] ms(3) by (simp add: byte_def)
      moreover have "utf8_valid (map byte (KEY @ ''='' @ p @ [NL]))"
        using KEY_facts(4) selectable_facts(4) [OF p] utf8_append [of "map byte KEY" "61 # map byte (p @ [NL])"] utf8_append [of "map byte p" "[10]"]
        by (simp add: byte_def)
      ultimately show ?thesis unfolding out by (simp add: utf8_append)
    qed
    moreover have "concat ms = [] \<or> last (concat ms) = NL" using ms(3) by simp
    ultimately show thesis using ms(2) o(2) Some that [of ms] by simp
  qed
qed

lemma edit_keeps_the_rest:
  assumes "replacement s sel = Inr out" "\<forall>p. sel = Some p \<longrightarrow> selectable p"
  shows "setting out = Inr sel \<and> other_lines out = other_lines s \<and> comments out = comments s \<and> replacement out sel = Inr out"
proof -
  obtain ms where ms: "split_inclusive out = ms @ (case sel of None \<Rightarrow> [] | Some p \<Rightarrow> [KEY @ ''='' @ p @ [NL]])"
    "list_all (\<lambda>l. \<not> is_camera_line l) ms" "list_all line_supported ms" "map trim ms = other_lines s" "utf8_valid (map byte out)"
    "sel \<noteq> None \<Longrightarrow> concat ms = [] \<or> last (concat ms) = NL"
    using edited_lines [OF assms] by blast
  have p: "selectable p" if "sel = Some p" for p using that assms(2) by blast
  have kept: "filter (\<lambda>l. \<not> is_camera_line l) (split_inclusive out) = ms"
    using ms(1,2) camera_line(2) [OF p] by (cases sel) (auto simp: list_all_iff filter_id_conv)
  then have o: "other_lines out = other_lines s" using ms(4) by (simp add: other_lines_def)
  have "list_all line_supported (split_inclusive out)" using ms(1,3) camera_line(3) [OF p] by (cases sel) simp_all
  moreover have "setting_loop None (split_inclusive out) = Inr sel"
    using ms(1) setting_loop_others [OF ms(2), of None "[]"] setting_loop_others [OF ms(2), of None] camera_line(4) [OF p]
    by (cases sel) simp_all
  ultimately have set: "setting out = Inr sel"
    using setting_by_lines [OF ms(5) refl] assms(2) by (auto simp: selectable_def split: option.split)
  have "concat (split_inclusive out) = out" by simp
  then have "replacement out sel = Inr out"
    using set ms(1,5,6) kept by (cases sel) (auto simp: replacement_def)
  with set o show ?thesis by (simp add: comments_other)
qed

text \<open>
  Claim C25: replacing the camera setting by a device path of visible ASCII without quotes and backslashes, or removing it,
  gives a text whose setting reads back as requested; all other lines stay, in order and up to surrounding white space,
  every comment among them; and repeating the edit changes nothing more.
\<close>

theorem camera_edit_exact:
  assumes "replacement s sel = Inr out" "\<forall>p. sel = Some p \<longrightarrow> selectable p"
  shows "setting out = Inr sel \<and> other_lines out = other_lines s \<and> comments out = comments s \<and> replacement out sel = Inr out"
  using assms by (rule edit_keeps_the_rest)

definition sample_config :: string where
  "sample_config = ''# camera'' @ [NL] @ ''KFACEAUTH_CAMERA_DEVICE=/dev/video0'' @ [NL] @ ''LAST=yes''"

theorem camera_edit_exact_witness:
  "\<exists>out. replacement sample_config (Some ''/dev/video1'') = Inr out \<and> setting out = Inr (Some ''/dev/video1'')
    \<and> other_lines out = [''# camera'', ''LAST=yes'']"
proof -
  obtain out where r: "replacement sample_config (Some ''/dev/video1'') = Inr out" and o: "other_lines sample_config = [''# camera'', ''LAST=yes'']"
  proof -
    have "isl (replacement sample_config (Some ''/dev/video1'')) = False" "other_lines sample_config = [''# camera'', ''LAST=yes'']" by code_simp+
    then show thesis using that by (cases "replacement sample_config (Some ''/dev/video1'')") auto
  qed
  have "selectable ''/dev/video1''" by code_simp
  with camera_edit_exact [OF r] r o show ?thesis by auto
qed

end
