(* ===== verification/Sync_Deletion.thy ===== *)
theory Sync_Deletion
  imports Sync_Safety
begin

text \<open>
  What deleting a system profile and disabling a target guarantee. A deletion revokes first, moves the profile and the
  key out of service and then removes every revoked copy; whatever fails, a user who is still granted a target has the
  profile and the key untouched, and success means that nothing of them is left.
\<close>

section \<open>Frames\<close>

abbreviation key_of :: "u32 \<Rightarrow> string" where
  "key_of uid \<equiv> join PK (system_key_name uid)"

lemma key_name [simp]: "CHR ''/'' \<notin> set (system_key_name uid)"
  by (simp add: system_key_name_def)

lemma off_config_key: "off_config {key_of uid}"
  by (auto simp: off_config_def production_paths_def join_def)

lemma key_off_root: "key_of uid \<notin> below (join PR x)"
  by (auto simp: production_paths_def below_iff join_def)

lemma key_neq_policy: "key_of uid \<noteq> policy_path PC" "join PK x \<noteq> policy_path PC"
  by (auto simp: production_paths_def join_def child_def AUTH_POLICY_FILE_def)

lemma keys_off_final: "join PK x \<notin> below (join PR y)"
  by (auto simp: production_paths_def below_iff join_def)

text \<open>Everything a deletion protects: the data of the profile directory and the key file.\<close>

definition untouched :: "u32 \<Rightarrow> world \<Rightarrow> world \<Rightarrow> bool" where
  "untouched uid w w' \<longleftrightarrow> tree w' (final_of uid) = tree w (final_of uid) \<and> nodes w' (key_of uid) = nodes w (key_of uid)"

lemma untouched_trans: "untouched uid w1 w2 \<Longrightarrow> untouched uid w2 w3 \<Longrightarrow> untouched uid w1 w3"
  by (simp add: untouched_def)

lemma untouched_policy_steps:
  "acquire_policy_lock production_paths w = (q, w') \<Longrightarrow> untouched uid w w'"
  "load_policy production_paths w = (l, w') \<Longrightarrow> untouched uid w w'"
  "write_policy env k production_paths p w = (r, w') \<Longrightarrow> untouched uid w w'"
  using keepsD [OF keeps_acquire_policy_lock [OF off_config_key], of "key_of uid" uid w]
    keepsD [OF keeps_load_policy [of "{key_of uid}" production_paths], of "key_of uid" w]
    keepsD [OF keeps_write_policy [OF off_config_key], of "key_of uid" uid env k p w]
    policy_steps_frame [where x = "u32_to_string uid" and w = w]
  by (auto simp: untouched_def profile_dir_def)

lemma untouched_harden: "validate_and_harden_existing_profile PR uid w = (q, w') \<Longrightarrow> untouched uid w w'"
proof -
  assume a: "validate_and_harden_existing_profile PR uid w = (q, w')"
  have "keeps {key_of uid} (validate_and_harden_existing_profile PR uid)"
    using key_off_root [of uid "u32_to_string uid"] join_below [of "final_of uid" VAULT_FILE] self_below [of "final_of uid"]
    by (intro keeps_validate_and_harden) (auto simp: profile_dir_def)
  from keepsD [OF this, of "key_of uid" w] a steadyD [OF steady_validate_and_harden a] show ?thesis
    by (simp add: untouched_def)
qed

lemma keeps_validate_system_key: "keeps P (validate_system_key_for_deletion keys uid)"
  unfolding validate_system_key_for_deletion_def Let_def by (rule lookup_then_keeps) (intro keeps_rules)+

lemma untouched_same: "nodes w' = nodes w \<Longrightarrow> untouched uid w w'"
  using tree_cong [of "final_of uid" w' w] by (simp add: untouched_def)

section \<open>Moving out of service\<close>

abbreviation revoked_of :: "u32 \<Rightarrow> nat \<Rightarrow> string" where
  "revoked_of uid n \<equiv> join PR (revoked_prefix uid @ show_nat n)"

abbreviation revoked_key_of :: "u32 \<Rightarrow> nat \<Rightarrow> string" where
  "revoked_key_of uid n \<equiv> join PK (revoked_prefix uid @ show_nat n @ ''.key'')"

lemma revoked_disjoint: "below (final_of uid) \<inter> below (revoked_of uid n) = {}"
  unfolding profile_dir_def by (rule siblings_disjoint) simp_all

lemma revoked_key_neq: "revoked_key_of uid n \<noteq> key_of uid"
  by (simp add: system_key_name_def revoked_prefix_def)

text \<open>Renaming the profile between its two places, if there is one.\<close>

lemma profile_rename:
  assumes "(if pe then rename_dir a b w else (Inr (), w)) = (q, w')" "below a \<inter> below b = {}"
    "a \<in> below (join PR x)" "b \<in> below (join PR y)"
  shows "pol w' = pol w" "nodes w' (join PK z) = nodes w (join PK z)" "q = Inl e \<Longrightarrow> tree w' d = tree w d"
    "q = Inr u \<Longrightarrow> pe \<Longrightarrow> tree w' b = tree w a \<and> tree w' a = gone" "\<not> pe \<Longrightarrow> w' = w"
proof -
  have k: "join PK z \<notin> below a" "join PK z \<notin> below b"
    using keys_off_final below_trans [OF _ assms(3)] below_trans [OF _ assms(4)] by blast+
  have "pol w' = pol w \<and> nodes w' (join PK z) = nodes w (join PK z) \<and> (q = Inl e \<longrightarrow> tree w' d = tree w d)
      \<and> (q = Inr u \<longrightarrow> pe \<longrightarrow> tree w' b = tree w a \<and> tree w' a = gone) \<and> (\<not> pe \<longrightarrow> w' = w)"
  proof (cases pe)
    case True
    then have r: "rename_dir a b w = (q, w')" using assms(1) by simp
    have "nodes w' (join PK z) = nodes w (join PK z)"
      using keepsD [OF keeps_rename_dir [of "{join PK z}" a b], of "join PK z" w] k r by simp
    with pol_rename_dir [OF r policy_off_place [OF assms(3)] policy_off_place [OF assms(4)]]
      rename_dir_outcome(1,2) [OF r assms(2)] True show ?thesis by auto
  qed (use assms(1) in auto)
  then show "pol w' = pol w" "nodes w' (join PK z) = nodes w (join PK z)" "q = Inl e \<Longrightarrow> tree w' d = tree w d"
    "q = Inr u \<Longrightarrow> pe \<Longrightarrow> tree w' b = tree w a \<and> tree w' a = gone" "\<not> pe \<Longrightarrow> w' = w" by auto
qed

lemma key_rename:
  assumes "(if ke then rename_file (key_of uid) (revoked_key_of uid n) w else (Inr (), w)) = (q, w')"
  shows "pol w' = pol w" "nodes w' p = nodes w p \<or> p = key_of uid \<or> p = revoked_key_of uid n"
    "q = Inl e \<Longrightarrow> nodes w' = nodes w" "q = Inr u \<Longrightarrow> ke \<Longrightarrow> nodes w' (key_of uid) = None" "\<not> ke \<Longrightarrow> w' = w"
proof -
  have f: "nodes w' p = nodes w p" if "p \<noteq> key_of uid" "p \<noteq> revoked_key_of uid n" for p
    using keepsD [OF keeps_rename_file [of "key_of uid" "{p}" "revoked_key_of uid n"], of p w] that assms
    by (auto split: if_splits)
  show "pol w' = pol w" using f [of "policy_path PC"] key_neq_policy by metis
  show "nodes w' p = nodes w p \<or> p = key_of uid \<or> p = revoked_key_of uid n" using f by blast
  show "q = Inl e \<Longrightarrow> nodes w' = nodes w"
    using assms rename_file_Inl [of "key_of uid" "revoked_key_of uid n" w e w'] by (auto split: if_splits)
  show "q = Inr u \<Longrightarrow> ke \<Longrightarrow> nodes w' (key_of uid) = None"
    using assms rename_file_Inr [of "key_of uid" "revoked_key_of uid n" w u w'] revoked_key_neq [of uid n]
    by (auto split: if_splits)
  show "\<not> ke \<Longrightarrow> w' = w" using assms by simp
qed

lemma move_out_outcome:
  assumes "move_out_of_service env uid production_paths previous pe ke w = (r, w')" "\<not> grants uid (pol w)"
  shows "grants uid (pol w') \<Longrightarrow> untouched uid w w'"
    "r = Inr u \<Longrightarrow> pol w' = pol w \<and> (pe \<or> nodes w (final_of uid) = None \<longrightarrow> nodes w' (final_of uid) = None)
       \<and> (ke \<or> nodes w (key_of uid) = None \<longrightarrow> nodes w' (key_of uid) = None)"
proof -
  define n where "n = (case se_clock env 3 of None \<Rightarrow> 0 | Some n \<Rightarrow> n)"
  let ?f = "final_of uid" and ?b = "revoked_of uid n" and ?k = "key_of uid" and ?kb = "revoked_key_of uid n"
  have d: "below ?f \<inter> below ?b = {}" "below ?b \<inter> below ?f = {}" using revoked_disjoint by blast+
  have under: "?f \<in> below (join PR (u32_to_string uid))" "?b \<in> below ?b" by (simp_all add: profile_dir_def)
  obtain q1 w1 where r1: "(if pe then rename_dir ?f ?b w else (Inr (), w)) = (q1, w1)" by fastforce
  obtain q2 w2 where r2: "(if ke then rename_file ?k ?kb w1 else (Inr (), w1)) = (q2, w2)" by fastforce
  obtain q3 w3 where r3: "(if pe then rename_dir ?b ?f w2 else (Inr (), w2)) = (q3, w3)" by fastforce
  have run: "move_out_of_service env uid production_paths previous pe ke w = (case q1 of
      Inl _ \<Rightarrow> (Inl (), snd (write_policy env 4 production_paths previous w1))
    | Inr _ \<Rightarrow> (case q2 of Inr _ \<Rightarrow> (Inr (), w2)
      | Inl _ \<Rightarrow> (case q3 of Inl _ \<Rightarrow> (Inl (), w3) | Inr _ \<Rightarrow> (Inl (), snd (write_policy env 4 production_paths previous w3)))))"
    unfolding move_out_of_service_def Let_def n_def [symmetric] r1 r2 r3 prod.case
    by (simp add: r1 r2 r3 split: sum.split)
  note p1 = profile_rename [OF r1 d(1) under] and p2 = key_rename [OF r2] and p3 = profile_rename [OF r3 d(2) under(2,1)]
  have written: "untouched uid v (snd (write_policy env 4 production_paths previous v))" for v
    by (metis prod.collapse untouched_policy_steps(3))
  have kept1: "untouched uid w w1" if "q1 = Inl e" for e using p1(2,3) that by (auto simp: untouched_def)
  have kept2: "untouched uid w w3" if "q1 = Inr x" "q2 = Inl e" "q3 = Inr y" for x e y
  proof -
    have n2: "nodes w2 = nodes w1" by (rule p2(3) [OF that(2)])
    then have t2: "tree w2 d = tree w1 d" for d using tree_cong [of d w2 w1] by simp
    have "tree w3 ?f = tree w ?f" using p1(4) [OF that(1)] p3(4) [OF that(3)] p1(5) p3(5) t2 by (cases pe) auto
    then show ?thesis using p1(2) p3(2) n2 by (simp add: untouched_def)
  qed
  show "untouched uid w w'" if g: "grants uid (pol w')"
    using run [unfolded assms(1)] kept1 kept2 written assms(2) g p1(1) p2(1) p3(1)
    by (auto split: sum.splits intro: untouched_trans)
  show "pol w' = pol w \<and> (pe \<or> nodes w ?f = None \<longrightarrow> nodes w' ?f = None) \<and> (ke \<or> nodes w ?k = None \<longrightarrow> nodes w' ?k = None)"
    if r: "r = Inr u"
  proof -
    from run [unfolded assms(1) r] obtain x y where q: "q1 = Inr x" "q2 = Inr y" "w' = w2" by (auto split: sum.splits)
    have "nodes w2 ?f = nodes w1 ?f" using p2(2) [of ?f] keys_off_final under(1) self_below by (metis profile_dir_def)
    then have "pe \<or> nodes w ?f = None \<longrightarrow> nodes w2 ?f = None"
      using p1(4) [OF q(1)] p1(5) tree_gone [of w1 ?f] by auto
    moreover have "ke \<or> nodes w ?k = None \<longrightarrow> nodes w2 ?k = None" using p2(4) [OF q(2)] p2(5) p1(2) by (cases ke) simp_all
    ultimately show ?thesis using p1(1) p2(1) q(3) by simp
  qed
qed

section \<open>Removing the revoked copies\<close>

text \<open>An action that only removes: an absent path stays absent.\<close>

abbreviation only_removes :: "('e, 'a) io \<Rightarrow> bool" where
  "only_removes m \<equiv> stays_in nothing_new m"

named_theorems removes_rules

lemmas removes_flow [removes_rules] = nothing_new.frame_flow nothing_new.frame_bind
lemmas only_removes_def = stays_in_def nothing_new_def

lemma only_removesD: "only_removes m \<Longrightarrow> m w = (r, w') \<Longrightarrow> nodes w p = None \<Longrightarrow> nodes w' p = None"
  using stays_inD [of nothing_new m w r w'] by (simp add: nothing_new_def)

lemma removes_keeps: "keeps UNIV m \<Longrightarrow> only_removes m"
  by (simp add: only_removes_def keeps_def)

lemma removes_calls [removes_rules]:
  "only_removes (remove_dir_all survives d)" "only_removes (remove_file p)"
  "only_removes (symlink_metadata p)" "only_removes (sync_all p)" "only_removes (group_id g)"
  "only_removes (read_dir env d)" "only_removes (sys (\<lambda>w. (Inr x, w)))"
proof -
  show "only_removes (remove_dir_all survives d)"
    by (auto simp: only_removes_def remove_dir_all_def pop_fault_def split: list.split option.split fault.split)
  show "only_removes (remove_file p)"
    by (auto simp: only_removes_def remove_file_def sys_def pop_fault_def split: list.split option.split fault.split)
  show "only_removes (symlink_metadata p)" "only_removes (sync_all p)" "only_removes (group_id g)"
    "only_removes (read_dir env d)" "only_removes (sys (\<lambda>w. (Inr x, w)))"
    unfolding read_dir_def by (intro removes_keeps keeps_rules keeps_sys; simp)+
qed

lemma removes_clear [removes_rules]:
  "only_removes (clear_profiles env uid gid dir names)" "only_removes (clear_keys env uid gid dir names)"
proof -
  have e: "clear_profiles env uid gid dir (name # rest) =
     wbind (unit_err (sys (\<lambda>w. (Inr (), w)))) (\<lambda>_.
     if \<not> utf8_valid (map byte name) \<or> \<not> starts_with (revoked_prefix uid) name then clear_profiles env uid gid dir rest
     else wbind (unit_err (symlink_metadata (join dir name))) (\<lambda>m.
       if md_kind m \<noteq> Directory \<or> is_symlink m \<or> md_uid m \<noteq> 0 \<or> md_gid m \<noteq> gid \<or> perm m \<noteq> oct3 7 5 0 then wfail ()
       else wbind (unit_err (remove_dir_all (se_survives env) (join dir name))) (\<lambda>_.
         clear_profiles env uid gid dir rest)))" for name rest by (rule ext) simp
  show "only_removes (clear_profiles env uid gid dir names)"
  proof (induction names)
    case Nil
    then show ?case by (simp add: only_removes_def wreturn_def)
  next
    case (Cons a names)
    then show ?case unfolding e by (intro removes_rules)
  qed
  have e: "clear_keys env uid gid dir (name # rest) =
     wbind (unit_err (sys (\<lambda>w. (Inr (), w)))) (\<lambda>_.
     if \<not> utf8_valid (map byte name) \<or> \<not> starts_with (revoked_prefix uid) name \<or> path_extension name \<noteq> Some ''key''
     then clear_keys env uid gid dir rest
     else wbind (unit_err (symlink_metadata (join dir name))) (\<lambda>m.
       if is_symlink m \<or> \<not> key_metadata_ok gid m then wfail ()
       else wbind (unit_err (remove_file (join dir name))) (\<lambda>_. clear_keys env uid gid dir rest)))" for name rest
    by (rule ext) simp
  show "only_removes (clear_keys env uid gid dir names)"
  proof (induction names)
    case Nil
    then show ?case by (simp add: only_removes_def wreturn_def)
  next
    case (Cons a names)
    then show ?case unfolding e by (intro removes_rules)
  qed
qed

definition revoked_profile_name :: "u32 \<Rightarrow> string \<Rightarrow> bool" where
  "revoked_profile_name uid name \<longleftrightarrow> utf8_valid (map byte name) \<and> starts_with (revoked_prefix uid) name"

definition revoked_key_name :: "u32 \<Rightarrow> string \<Rightarrow> bool" where
  "revoked_key_name uid name \<longleftrightarrow> revoked_profile_name uid name \<and> path_extension name = Some ''key''"

lemma remove_file_Inr: "remove_file p w = (Inr u, w') \<Longrightarrow> nodes w' p = None"
  by (auto simp: remove_file_def sys_def pop_fault_def split: list.splits option.splits fault.splits if_splits)

lemma clear_profiles_Inr:
  "clear_profiles env uid gid dir names w = (Inr u, w') \<Longrightarrow> name \<in> set names \<Longrightarrow> revoked_profile_name uid name
    \<Longrightarrow> nodes w' (join dir name) = None"
proof (induction names arbitrary: w)
  case (Cons a names)
  obtain v where v: "clear_profiles env uid gid dir names v = (Inr u, w')"
    "revoked_profile_name uid a \<Longrightarrow> nodes v (join dir a) = None"
  proof (cases "revoked_profile_name uid a")
    case False
    then show thesis using Cons.prems(1) that by (auto simp: wbind_Inr revoked_profile_name_def split: if_splits)
  next
    case True
    then have n: "\<not> (\<not> utf8_valid (map byte a) \<or> \<not> starts_with (revoked_prefix uid) a)"
      by (simp add: revoked_profile_name_def)
    obtain x v0 v1 where h: "remove_dir_all (se_survives env) (join dir a) v0 = (Inr x, v1)"
      "clear_profiles env uid gid dir names v1 = (Inr u, w')"
      using Cons.prems(1) unfolding clear_profiles.simps if_not_P [OF n] wbind_Inr wmap_err_Inr wguard_Inr by blast
    show thesis by (rule that [OF h(2)]) (rule tree_gone [OF remove_dir_all_Inr [OF h(1)]])
  qed
  show ?case
  proof (cases "name = a")
    case True
    with v(2) Cons.prems(3) have "nodes v (join dir name) = None" by simp
    then show ?thesis by (rule only_removesD [OF removes_clear(1) v(1)])
  next
    case False
    then show ?thesis using Cons.IH [OF v(1)] Cons.prems(2,3) by simp
  qed
qed simp

lemma clear_keys_Inr:
  "clear_keys env uid gid dir names w = (Inr u, w') \<Longrightarrow> name \<in> set names \<Longrightarrow> revoked_key_name uid name
    \<Longrightarrow> nodes w' (join dir name) = None"
proof (induction names arbitrary: w)
  case (Cons a names)
  obtain v where v: "clear_keys env uid gid dir names v = (Inr u, w')"
    "revoked_key_name uid a \<Longrightarrow> nodes v (join dir a) = None"
  proof (cases "revoked_key_name uid a")
    case False
    then show thesis
      using Cons.prems(1) that by (auto simp: wbind_Inr revoked_key_name_def revoked_profile_name_def split: if_splits)
  next
    case True
    then have n: "\<not> (\<not> utf8_valid (map byte a) \<or> \<not> starts_with (revoked_prefix uid) a \<or> path_extension a \<noteq> Some ''key'')"
      by (simp add: revoked_key_name_def revoked_profile_name_def)
    obtain x v0 v1 where h: "remove_file (join dir a) v0 = (Inr x, v1)" "clear_keys env uid gid dir names v1 = (Inr u, w')"
      using Cons.prems(1) unfolding clear_keys.simps if_not_P [OF n] wbind_Inr wmap_err_Inr wguard_Inr by blast
    show thesis by (rule that [OF h(2)]) (rule remove_file_Inr [OF h(1)])
  qed
  show ?case
  proof (cases "name = a")
    case True
    with v(2) Cons.prems(3) have "nodes v (join dir name) = None" by simp
    then show ?thesis by (rule only_removesD [OF removes_clear(2) v(1)])
  next
    case False
    then show ?thesis using Cons.IH [OF v(1)] Cons.prems(2,3) by simp
  qed
qed simp

text \<open>A name that the listing of a directory reports whenever it is there.\<close>

definition listed :: "sync_env \<Rightarrow> string \<Rightarrow> bool" where
  "listed env name \<longleftrightarrow> (\<forall>d w. nodes w (join d name) \<noteq> None \<longrightarrow> name \<in> set (se_entries env d w))"

lemma removes_clear_revoked [removes_rules]: "only_removes (clear_revoked_copies env uid paths)"
  unfolding clear_revoked_copies_def by (intro removes_rules)

lemma removes_sync_both [removes_rules]: "only_removes (sync_both paths)"
  unfolding sync_both_def by (intro removes_rules)

lemma read_dir_Inr: "read_dir env d w = (Inr names, w') \<Longrightarrow> nodes w' = nodes w \<and> names = se_entries env d w'"
  by (auto simp: read_dir_def sys_def pop_fault_def split: list.splits option.splits fault.splits)

lemma clear_revoked_copies_Inr:
  assumes "clear_revoked_copies env uid paths w = (Inr u, w')" "listed env name"
  shows "revoked_profile_name uid name \<Longrightarrow> nodes w' (join (system_root paths) name) = None"
    "revoked_key_name uid name \<Longrightarrow> nodes w' (join (keys_dir paths) name) = None"
proof -
  let ?r = "system_root paths" and ?k = "keys_dir paths"
  obtain gid w1 names w2 w3 names' w4 where s: "read_dir env ?r w1 = (Inr names, w2)"
    "clear_profiles env uid gid ?r names w2 = (Inr (), w3)" "read_dir env ?k w3 = (Inr names', w4)"
    "clear_keys env uid gid ?k names' w4 = (Inr u, w')"
    using assms(1) by (auto simp: clear_revoked_copies_def io_success)
  show "nodes w' (join ?r name) = None" if n: "revoked_profile_name uid name"
  proof -
    have "nodes w3 (join ?r name) = None"
    proof (cases "name \<in> set names")
      case True
      then show ?thesis by (rule clear_profiles_Inr [OF s(2) _ n])
    next
      case False
      then have "nodes w2 (join ?r name) = None"
        using read_dir_Inr [OF s(1)] assms(2) unfolding listed_def by blast
      then show ?thesis by (rule only_removesD [OF removes_clear(1) s(2)])
    qed
    then have "nodes w4 (join ?r name) = None" using read_dir_Inr [OF s(3)] by simp
    then show ?thesis by (rule only_removesD [OF removes_clear(2) s(4)])
  qed
  show "nodes w' (join ?k name) = None" if n: "revoked_key_name uid name"
  proof (cases "name \<in> set names'")
    case True
    then show ?thesis by (rule clear_keys_Inr [OF s(4) _ n])
  next
    case False
    then have "nodes w4 (join ?k name) = None"
      using read_dir_Inr [OF s(3)] assms(2) unfolding listed_def by blast
    then show ?thesis by (rule only_removesD [OF removes_clear(2) s(4)])
  qed
qed

lemma keeps_clear:
  "keeps {policy_path PC} (clear_profiles env uid gid PR names)" "keeps {policy_path PC} (clear_keys env uid gid PK names)"
proof -
  have d: "keeps {policy_path PC} (remove_dir_all (se_survives env) (join PR name))"
    "keeps {policy_path PC} (remove_file (join PK name))" for name
    using policy_off_root [of name] key_neq_policy(2) [of name]
    by (auto intro!: keeps_remove_dir_all keeps_remove_file)
  have ext: "keeps P m" if "\<And>w. m w = m' w" "keeps P m'" for P and m m' :: "(unit, unit) io"
    using that by (simp add: keeps_def)
  show "keeps {policy_path PC} (clear_profiles env uid gid PR names)"
  proof (induction names)
    case Nil
    show ?case by (rule ext [OF clear_profiles.simps(1)]) (rule keeps_wreturn)
  next
    case (Cons a names)
    show ?case by (rule ext [OF clear_profiles.simps(2)]) (intro keeps_rules d Cons.IH keeps_sys, simp)
  qed
  show "keeps {policy_path PC} (clear_keys env uid gid PK names)"
  proof (induction names)
    case Nil
    show ?case by (rule ext [OF clear_keys.simps(1)]) (rule keeps_wreturn)
  next
    case (Cons a names)
    show ?case by (rule ext [OF clear_keys.simps(2)]) (intro keeps_rules d Cons.IH keeps_sys, simp)
  qed
qed

lemma keeps_read_dir: "keeps P (read_dir env d)"
  unfolding read_dir_def by (rule keeps_sys) simp

lemma keeps_cleanup:
  "keeps {policy_path PC} (clear_revoked_copies env uid production_paths)" "keeps P (sync_both paths)"
  unfolding clear_revoked_copies_def sync_both_def by (intro keeps_rules keeps_clear keeps_read_dir)+

section \<open>Failures that do not invent absence\<close>

text \<open>Absence is only reported of a path that is absent: no injected failure is a \<^verbatim>\<open>NotFound\<close>.\<close>

definition honest :: "world \<Rightarrow> bool" where
  "honest w \<longleftrightarrow> list_all (\<lambda>f. case f of Some (Fault k _) \<Rightarrow> k \<noteq> NotFound | None \<Rightarrow> True) (script w)"

definition honesty :: "world \<Rightarrow> world \<Rightarrow> bool" where
  "honesty w w' \<longleftrightarrow> (honest w \<longrightarrow> honest w')"

interpretation honesty: frame_relation honesty
  by unfold_locales (auto simp: honesty_def)

abbreviation stays_honest :: "('e, 'a) io \<Rightarrow> bool" where
  "stays_honest m \<equiv> stays_in honesty m"

named_theorems honest_rules

lemmas honest_flow [honest_rules] = honesty.frame_flow honesty.frame_bind
lemmas stays_honest_def = stays_in_def honesty_def

lemma honest_sys: "(\<And>w. script (snd (act w)) = script w) \<Longrightarrow> stays_honest (sys act)"
  by (auto simp: stays_honest_def honest_def sys_def pop_fault_def split: list.split option.split fault.split)

lemma script_fs_update [simp]: "script (fs_update p f w) = script w"
  by (simp add: fs_update_def split: option.split)

lemma honest_calls [honest_rules]:
  "stays_honest (fd_metadata p)" "stays_honest (symlink_metadata p)" "stays_honest (open_nofollow p)"
  "stays_honest (open_child_directory_nofollow d n)" "stays_honest (open_child_file_nofollow d n)"
  unfolding fd_metadata_def symlink_metadata_def open_nofollow_def open_child_directory_nofollow_def
    open_child_file_nofollow_def
  by (rule honest_sys, simp split: option.split)+

lemma honest_set_fd_permissions [honest_rules]: "stays_honest (set_fd_permissions p ow mode g)"
  by (auto simp: stays_honest_def honest_def set_fd_permissions_def pop_fault_def split: list.split option.split fault.split)

lemmas lookup_then_honest = honesty.frame_lookup [OF honest_calls(2)]

lemma honest_harden: "stays_honest (validate_and_harden_existing_profile sysroot uid)"
  unfolding validate_and_harden_existing_profile_def Let_def by (rule lookup_then_honest) (intro honest_rules)+

lemma absent_if_not_found: "symlink_metadata p w = (Inl NotFound, w') \<Longrightarrow> honest w \<Longrightarrow> nodes w p = None"
  by (auto simp: symlink_metadata_def sys_def pop_fault_def honest_def fs_lookup_def ok_or_def
      split: list.splits option.splits fault.splits)

lemma harden_absent:
  assumes "validate_and_harden_existing_profile sysroot uid w = (Inr False, w')" "honest w"
  shows "nodes w (join sysroot (u32_to_string uid)) = None"
proof -
  obtain q v where q: "symlink_metadata (join sysroot (u32_to_string uid)) w = (q, v)" by fastforce
  show ?thesis
  proof (cases q)
    case (Inl k)
    with assms(1) q have "k = NotFound"
      by (auto simp: validate_and_harden_existing_profile_def wfail_def split: if_splits)
    with absent_if_not_found q Inl assms(2) show ?thesis by blast
  next
    case (Inr m)
    with assms(1) q show ?thesis
      by (simp add: validate_and_harden_existing_profile_def Let_def wbind_Inr wmap_err_Inr wguard_Inr wreturn_Inr wfail_def
          split: if_split_asm)
  qed
qed

lemma key_absent:
  assumes "validate_system_key_for_deletion keys uid w = (Inr False, w')" "honest w"
  shows "nodes w (join keys (system_key_name uid)) = None"
proof -
  obtain q v where q: "symlink_metadata (join keys (system_key_name uid)) w = (q, v)" by fastforce
  show ?thesis
  proof (cases q)
    case (Inl k)
    with assms(1) q have "k = NotFound"
      by (auto simp: validate_system_key_for_deletion_def wfail_def split: if_splits)
    with absent_if_not_found q Inl assms(2) show ?thesis by blast
  next
    case (Inr m)
    with assms(1) q show ?thesis
      by (simp add: validate_system_key_for_deletion_def Let_def wbind_Inr wmap_err_Inr wguard_Inr wreturn_Inr wfail_def
          split: if_split_asm)
  qed
qed

section \<open>Deleting\<close>

text \<open>The steps up to the revocation change neither the profile nor the key.\<close>

definition revoke_for_deletion :: "sync_env \<Rightarrow> u32 \<Rightarrow> (unit, auth_policy \<times> auth_policy \<times> bool \<times> bool) io" where
  "revoke_for_deletion env uid =
     wbind (validate_and_harden_existing_profile PR uid) (\<lambda>profile_exists.
     wbind (validate_system_key_for_deletion PK uid) (\<lambda>key_exists.
     wbind (acquire_policy_lock production_paths) (\<lambda>_.
     wbind (load_policy production_paths) (\<lambda>previous.
     wbind (wlift (revoke_user_targets previous uid)) (\<lambda>revoked.
     wbind (write_policy env 1 production_paths revoked) (\<lambda>_.
     wreturn (previous, revoked, profile_exists, key_exists)))))))"

definition finish_deletion :: "sync_env \<Rightarrow> u32 \<Rightarrow> (unit, unit) io" where
  "finish_deletion env uid =
     wbind (sync_both production_paths) (\<lambda>_.
     wbind (clear_revoked_copies env uid production_paths) (\<lambda>_.
     sync_both production_paths))"

lemma wbind_assoc: "wbind (wbind m f) g = wbind m (\<lambda>x. wbind (f x) g)"
  by (rule ext) (simp add: wbind_def split: prod.split sum.split)

lemma wbind_wreturn: "wbind (wreturn x) f = f x"
  by (rule ext) (simp add: wbind_def wreturn_def)

lemma delete_in_three:
  "delete_system_profile env uid production_paths w = exit_of ''result=ok state=deleted''
     (wbind (revoke_for_deletion env uid) (\<lambda>(previous, revoked, pe, ke).
      wbind (move_out_of_service env uid production_paths previous pe ke) (\<lambda>_. finish_deletion env uid)) w)"
  by (simp add: delete_system_profile_def revoke_for_deletion_def finish_deletion_def wbind_assoc wbind_wreturn)

interpretation untouched: frame_relation "untouched uid" for uid
  by unfold_locales (auto simp: untouched_def)

lemma untouched_steps:
  "stays_in (untouched uid) (validate_and_harden_existing_profile PR uid)"
  "stays_in (untouched uid) (validate_system_key_for_deletion PK v)"
  "stays_in (untouched uid) (acquire_policy_lock production_paths)" "stays_in (untouched uid) (load_policy production_paths)"
  "stays_in (untouched uid) (write_policy env k production_paths p)"
proof -
  show "stays_in (untouched uid) (validate_system_key_for_deletion PK v)"
    using keeps_all_nodes [OF keeps_validate_system_key] untouched_same by (simp add: stays_in_def)
qed (metis stays_in_def prod.collapse untouched_harden untouched_policy_steps)+

lemma revoke_for_deletion_outcome:
  assumes "revoke_for_deletion env uid w = (q, w')"
  shows "untouched uid w w'"
    "q = Inr (previous, revoked, pe, ke) \<Longrightarrow> policy_wf previous \<and> revoke_user_targets previous uid = Inr revoked
       \<and> policy_written revoked (pol w') \<and> \<not> grants uid (pol w')"
    "q = Inr (previous, revoked, pe, ke) \<Longrightarrow> honest w \<Longrightarrow>
       (pe \<or> nodes w' (final_of uid) = None) \<and> (ke \<or> nodes w' (key_of uid) = None)"
proof -
  have "stays_in (untouched uid) (revoke_for_deletion env uid)"
    unfolding revoke_for_deletion_def by (intro untouched.frame_flow untouched.frame_bind untouched_steps)
  then show un: "untouched uid w w'" using assms by (rule stays_inD)
  assume "q = Inr (previous, revoked, pe, ke)"
  with assms obtain w1 w2 w3 x w4 y where s: "validate_and_harden_existing_profile PR uid w = (Inr pe, w1)"
    "validate_system_key_for_deletion PK uid w1 = (Inr ke, w2)" "load_policy production_paths w3 = (Inr previous, w4)"
    "revoke_user_targets previous uid = Inr revoked" "write_policy env 1 production_paths revoked w4 = (Inr y, w')"
    by (auto simp: revoke_for_deletion_def wbind_Inr wreturn_Inr wlift_Inr simp del: One_nat_def)
  have wf: "policy_wf previous" by (rule load_policy_Inr [OF s(3)])
  note rev = revoke_user_targets_Inr [OF wf s(4)]
  have pw: "policy_written revoked (pol w')" by (rule write_policy_outcome(2) [OF s(5) refl])
  then show "policy_wf previous \<and> revoke_user_targets previous uid = Inr revoked
       \<and> policy_written revoked (pol w') \<and> \<not> grants uid (pol w')"
    using wf s(4) rev grants_written [OF rev(1) pw] by blast
  assume h: "honest w"
  then have h1: "honest w1" using stays_inD [OF honest_harden s(1)] by (simp add: honesty_def)
  have f: "nodes w' (final_of uid) = None" if "nodes w (final_of uid) = None"
  proof -
    have "tree w' (final_of uid) [] = None" using un that by (simp add: untouched_def tree_def)
    then show ?thesis by (simp add: tree_def)
  qed
  have k: "nodes w1 (key_of uid) = nodes w (key_of uid)" using untouched_harden [OF s(1)] by (simp add: untouched_def)
  show "(pe \<or> nodes w' (final_of uid) = None) \<and> (ke \<or> nodes w' (key_of uid) = None)"
    using harden_absent [of PR uid w w1] key_absent [of PK uid w1 w2] s(1,2) h h1 f k un
    by (cases pe; cases ke) (auto simp: untouched_def profile_dir_def)
qed

lemma finish_deletion_outcome:
  assumes "finish_deletion env uid w = (r, w')"
  shows "pol w' = pol w" "nodes w p = None \<Longrightarrow> nodes w' p = None"
    "r = Inr u \<Longrightarrow> listed env name \<Longrightarrow>
       (revoked_profile_name uid name \<longrightarrow> nodes w' (join PR name) = None)
       \<and> (revoked_key_name uid name \<longrightarrow> nodes w' (join PK name) = None)"
proof -
  have "keeps {policy_path PC} (finish_deletion env uid)"
    unfolding finish_deletion_def by (intro keeps_wbind keeps_cleanup)
  from keepsD [OF this, of "policy_path PC" w] assms show "pol w' = pol w" by simp
  have "only_removes (finish_deletion env uid)" unfolding finish_deletion_def by (intro removes_rules)
  then show "nodes w p = None \<Longrightarrow> nodes w' p = None" using assms by (rule only_removesD)
  assume r: "r = Inr u" and l: "listed env name"
  from assms r obtain v x v' where c: "clear_revoked_copies env uid production_paths v = (Inr x, v')"
    "sync_both production_paths v' = (Inr u, w')" by (auto simp: finish_deletion_def wbind_Inr)
  have "nodes w' = nodes v'" using keeps_all_nodes [OF keeps_cleanup(2), of production_paths v'] c(2) by simp
  with clear_revoked_copies_Inr [OF c(1) l]
  show "(revoked_profile_name uid name \<longrightarrow> nodes w' (join PR name) = None)
       \<and> (revoked_key_name uid name \<longrightarrow> nodes w' (join PK name) = None)" by simp
qed

text \<open>The three phases of a deletion that got past the revocation.\<close>

lemma delete_phases:
  assumes "delete_system_profile env uid production_paths w = (code, w')"
  obtains (refused) q where "revoke_for_deletion env uid w = (Inl q, w')" "code = ExitFailure"
  | (unmoved) previous revoked pe ke w1 q where "revoke_for_deletion env uid w = (Inr (previous, revoked, pe, ke), w1)"
      "move_out_of_service env uid production_paths previous pe ke w1 = (Inl q, w')" "code = ExitFailure"
  | (moved) previous revoked pe ke w1 x w2 r where "revoke_for_deletion env uid w = (Inr (previous, revoked, pe, ke), w1)"
      "move_out_of_service env uid production_paths previous pe ke w1 = (Inr x, w2)" "finish_deletion env uid w2 = (r, w')"
      "code \<noteq> ExitFailure \<longrightarrow> r = Inr ()"
proof -
  obtain q w1 where q: "revoke_for_deletion env uid w = (q, w1)" by fastforce
  show thesis
  proof (cases q)
    case (Inl e)
    with assms q have "w' = w1" "code = ExitFailure" by (auto simp: delete_in_three exit_of_def wbind_def)
    with q Inl show thesis using refused by blast
  next
    case (Inr t)
    then obtain previous revoked pe ke where t: "q = Inr (previous, revoked, pe, ke)" by (cases t) auto
    obtain m w2 where m: "move_out_of_service env uid production_paths previous pe ke w1 = (m, w2)" by fastforce
    obtain r w3 where r: "finish_deletion env uid w2 = (r, w3)" by fastforce
    have "(code, w') = (case m of Inl _ \<Rightarrow> (ExitFailure, w2)
        | Inr _ \<Rightarrow> (case r of Inl _ \<Rightarrow> (ExitFailure, w3) | Inr _ \<Rightarrow> (ExitSuccess ''result=ok state=deleted'', w3)))"
      using assms q t m r by (simp add: delete_in_three exit_of_def wbind_def split: sum.splits)
    then show thesis using unmoved [of previous revoked pe ke w1] moved [of previous revoked pe ke w1] q t m r
      by (cases m; cases r) auto
  qed
qed

lemma delete_outcome:
  assumes "delete_system_profile env uid production_paths w = (code, w')"
  shows "grants uid (pol w') \<Longrightarrow> untouched uid w w'"
    "code \<noteq> ExitFailure \<Longrightarrow>
       (\<exists>previous revoked. policy_wf previous \<and> revoke_user_targets previous uid = Inr revoked \<and> policy_written revoked (pol w'))
       \<and> \<not> grants uid (pol w')
       \<and> (honest w \<longrightarrow> nodes w' (final_of uid) = None \<and> nodes w' (key_of uid) = None)
       \<and> (\<forall>name. listed env name \<longrightarrow>
            (revoked_profile_name uid name \<longrightarrow> nodes w' (join PR name) = None)
            \<and> (revoked_key_name uid name \<longrightarrow> nodes w' (join PK name) = None))"
proof -
  show "untouched uid w w'" if g: "grants uid (pol w')"
  proof (rule delete_phases [OF assms])
    fix q
    assume "revoke_for_deletion env uid w = (Inl q, w')"
    then show ?thesis by (rule revoke_for_deletion_outcome(1))
  next
    fix previous revoked pe ke w1 q
    assume a: "revoke_for_deletion env uid w = (Inr (previous, revoked, pe, ke), w1)"
      "move_out_of_service env uid production_paths previous pe ke w1 = (Inl q, w')"
    show ?thesis
      using revoke_for_deletion_outcome(1) [OF a(1)] revoke_for_deletion_outcome(2) [OF a(1) refl]
        move_out_outcome(1) [OF a(2) _ g] untouched_trans by blast
  next
    fix previous revoked pe ke w1 x w2 r
    assume a: "revoke_for_deletion env uid w = (Inr (previous, revoked, pe, ke), w1)"
      "move_out_of_service env uid production_paths previous pe ke w1 = (Inr x, w2)" "finish_deletion env uid w2 = (r, w')"
    have "\<not> grants uid (pol w1)" using revoke_for_deletion_outcome(2) [OF a(1) refl] by blast
    with move_out_outcome(2) [OF a(2) _ refl] finish_deletion_outcome(1) [OF a(3)] g show ?thesis by simp
  qed
  assume ok: "code \<noteq> ExitFailure"
  from assms obtain previous revoked pe ke w1 x w2 r where a:
    "revoke_for_deletion env uid w = (Inr (previous, revoked, pe, ke), w1)"
    "move_out_of_service env uid production_paths previous pe ke w1 = (Inr x, w2)" "finish_deletion env uid w2 = (Inr (), w')"
    by (rule delete_phases) (use ok in blast)+
  note rv = revoke_for_deletion_outcome(2,3) [OF a(1) refl]
  have "\<not> grants uid (pol w1)" using rv(1) by blast
  note mv = move_out_outcome(2) [OF a(2) this refl] and fin = finish_deletion_outcome [OF a(3)]
  have "nodes w' (final_of uid) = None \<and> nodes w' (key_of uid) = None" if "honest w"
    using rv(2) [OF that] mv fin(2) by blast
  with rv(1) mv fin(1,3)
  show "(\<exists>previous revoked. policy_wf previous \<and> revoke_user_targets previous uid = Inr revoked \<and> policy_written revoked (pol w'))
       \<and> \<not> grants uid (pol w')
       \<and> (honest w \<longrightarrow> nodes w' (final_of uid) = None \<and> nodes w' (key_of uid) = None)
       \<and> (\<forall>name. listed env name \<longrightarrow>
            (revoked_profile_name uid name \<longrightarrow> nodes w' (join PR name) = None)
            \<and> (revoked_key_name uid name \<longrightarrow> nodes w' (join PK name) = None))"
    by auto
qed

text \<open>
  Claim C10: whatever call fails while a system profile is deleted, a user who is still granted a target afterwards has the
  data of the profile directory and the key file unchanged. A deletion that reports success has written a policy that
  revokes the user; the profile directory and the key are gone, unless a call reported absence of what was there; and
  no revoked copy of the profile or of the key is left under a name that the directory listings report.
\<close>

theorem delete_system_profile_safe:
  assumes "delete_system_profile env uid production_paths w = (code, w')"
  shows "(grants uid (pol w') \<longrightarrow>
        tree w' (final_of uid) = tree w (final_of uid) \<and> nodes w' (key_of uid) = nodes w (key_of uid))
    \<and> (code \<noteq> ExitFailure \<longrightarrow>
        (\<exists>previous revoked. policy_wf previous \<and> revoke_user_targets previous uid = Inr revoked \<and> policy_written revoked (pol w'))
        \<and> \<not> grants uid (pol w')
        \<and> (honest w \<longrightarrow> nodes w' (final_of uid) = None \<and> nodes w' (key_of uid) = None)
        \<and> (\<forall>name. listed env name \<longrightarrow>
             (revoked_profile_name uid name \<longrightarrow> nodes w' (join PR name) = None)
             \<and> (revoked_key_name uid name \<longrightarrow> nodes w' (join PK name) = None)))"
  using delete_outcome [OF assms] unfolding untouched_def by blast

section \<open>Disabling a target\<close>

text \<open>
  Disabling leaves every profile and key alone. Whatever fails, the policy file is the old one or the complete loaded
  policy with exactly that target of that user switched off, and success implies the latter.
\<close>

theorem disable_target_exact:
  assumes "disable_target env uid t production_paths w = (code, w')"
  shows "untouched v w w'"
    "(pol w' = pol w \<and> code = ExitFailure) \<or> (\<exists>p q. policy_wf p \<and> policy_wf q \<and> policy_written q (pol w')
       \<and> (\<forall>u s. mode_for q u s = (if u = uid \<and> s = t then Off else mode_for p u s)))"
proof -
  obtain r where r: "wbind (acquire_policy_lock production_paths) (\<lambda>_. wbind (load_policy production_paths) (\<lambda>policy.
        wbind (wlift (map_err (\<lambda>_. ()) (set_mode policy uid t Off))) (\<lambda>policy. write_policy env 1 production_paths policy))) w = (r, w')"
    "code \<noteq> ExitFailure \<longrightarrow> is_ok r"
    using assms by (auto simp: disable_target_def exit_of_def simp del: One_nat_def split: prod.splits sum.splits)
  have "stays_in (untouched v) (wbind (acquire_policy_lock production_paths) (\<lambda>_. wbind (load_policy production_paths) (\<lambda>policy.
        wbind (wlift (map_err (\<lambda>_. ()) (set_mode policy uid t Off))) (\<lambda>policy. write_policy env 1 production_paths policy))))"
    by (intro untouched.frame_flow untouched.frame_bind untouched_steps)
  then show "untouched v w w'" using r(1) by (rule stays_inD)
  obtain q1 w1 where a: "acquire_policy_lock production_paths w = (q1, w1)" by fastforce
  obtain q2 w2 where l: "load_policy production_paths w1 = (q2, w2)" by fastforce
  have "off_config {}" "policy_path PC \<noteq> join PC ''.policy.lock''"
    by (simp_all add: off_config_def child_def join_def AUTH_POLICY_FILE_def)
  then have k: "pol w1 = pol w" "pol w2 = pol w1"
    using keepsD [OF keeps_lock_child_file [of PC "''.policy.lock''" "{policy_path PC}"], of "policy_path PC" w] a
      keepsD [OF keeps_load_policy [of "{policy_path PC}" production_paths], of "policy_path PC" w1] l
    by (simp_all add: acquire_policy_lock_def)
  have run: "(r, w') = (case q1 of Inl e \<Rightarrow> (Inl e, w1) | Inr _ \<Rightarrow> (case q2 of Inl e \<Rightarrow> (Inl e, w2) | Inr p \<Rightarrow>
      (case set_mode p uid t Off of Inl _ \<Rightarrow> (Inl (), w2) | Inr q \<Rightarrow> write_policy env 1 production_paths q w2)))"
    unfolding r(1) [symmetric] by (simp add: wbind_def a l wlift_def map_err_def split: sum.split)
  show "(pol w' = pol w \<and> code = ExitFailure) \<or> (\<exists>p q. policy_wf p \<and> policy_wf q \<and> policy_written q (pol w')
       \<and> (\<forall>u s. mode_for q u s = (if u = uid \<and> s = t then Off else mode_for p u s)))"
  proof (cases "\<exists>p q. q2 = Inr p \<and> set_mode p uid t Off = Inr q \<and> write_policy env 1 production_paths q w2 = (r, w')")
    case True
    then obtain p q where p: "q2 = Inr p" "set_mode p uid t Off = Inr q" "write_policy env 1 production_paths q w2 = (r, w')" by blast
    have wf: "policy_wf p" using load_policy_Inr l p(1) by blast
    moreover have "uid \<noteq> 0" using p(2) by (auto simp: set_mode_def split: if_splits)
    ultimately have "policy_wf q" "\<forall>u s. mode_for q u s = (if u = uid \<and> s = t then Off else mode_for p u s)"
      using set_mode_off [OF wf, of uid t] p(2) by auto
    moreover have "policy_written q (pol w') \<or> (pol w' = pol w2 \<and> \<not> is_ok r)"
      using write_policy_outcome(1) [OF p(3)] write_policy_outcome(2) [OF p(3)] by (auto simp: is_ok_iff)
    ultimately show ?thesis using r(2) wf k by (metis (no_types, lifting))
  next
    case False
    then have "pol w' = pol w \<and> \<not> is_ok r" using run k by (auto split: sum.splits)
    then show ?thesis using r(2) by blast
  qed
qed

section \<open>A concrete deletion\<close>

text \<open>A user with a key, no profile, and a copy left by an earlier deletion that failed late.\<close>

definition deletion_world :: world where
  "deletion_world = \<lparr>nodes = [
       ''/etc/kfaceauth'' \<mapsto> root_inode Directory (oct3 7 5 5) 2 [],
       ''/etc/kfaceauth/policy.json'' \<mapsto> root_inode Regular (oct3 6 4 4) 1 (text_bytes (to_json default_policy)),
       ''/etc/kfaceauth/keys/7.key'' \<mapsto> (root_inode Regular (oct3 6 4 0) 1 (replicate 32 1))\<lparr>i_gid := 99\<rparr>,
       ''/var/lib/kfaceauth/.revoked-7-2'' \<mapsto> (root_inode Directory (oct3 7 5 0) 2 [])\<lparr>i_gid := 99\<rparr>],
     euid = 0, egid = 0, umask = 0, group_ids = [''kfaceauth'' \<mapsto> 99, ''root'' \<mapsto> 0], next_ino = 20, stamp = 1, script = []\<rparr>"

definition deletion_locked :: world where
  "deletion_locked = snd (acquire_policy_lock production_paths deletion_world)"

definition deletion_revoked :: world where
  "deletion_revoked = snd (write_atomic default_policy 1 (Some 1) PC deletion_locked)"

lemma deletion_strings:
  "revoked_prefix 7 = ''.revoked-7-''" "system_key_name 7 = ''7.key''" "final_of 7 = ''/var/lib/kfaceauth/7''" "show_nat 3 = ''3''"
  by code_simp+

lemma deletion_names:
  "revoked_profile_name 7 ''.revoked-7-2''" "revoked_key_name 7 ''.revoked-7-3.key''" "\<not> revoked_key_name 7 ''.revoked-7-2''"
  by code_simp+

lemma deletion_revoked_facts:
  "script deletion_revoked = []" "group_ids deletion_revoked ''kfaceauth'' = Some 99"
  "nodes deletion_revoked ''/etc/kfaceauth/keys/7.key'' = Some ((root_inode Regular (oct3 6 4 0) 1 (replicate 32 1))\<lparr>i_gid := 99\<rparr>)"
  "nodes deletion_revoked ''/var/lib/kfaceauth/.revoked-7-2'' = Some ((root_inode Directory (oct3 7 5 0) 2 [])\<lparr>i_gid := 99\<rparr>)"
  "nodes deletion_revoked ''/etc/kfaceauth/keys/.revoked-7-2'' = None"
  "nodes deletion_revoked ''/var/lib/kfaceauth/.revoked-7-3.key'' = None"
  by code_simp+

lemma clean_clear_profile:
  assumes "script w = []" "revoked_profile_name uid name" "nodes w (join dir name) = Some i" "i_kind i = Directory" "i_uid i = 0"
    "i_gid i = gid" "and (i_mode i) (oct3 7 7 7) = oct3 7 5 0"
  shows "clear_profiles env uid gid dir [name] w
    = (Inr (), w\<lparr>nodes := (\<lambda>p. if suffix_below (join dir name) p \<noteq> None then None else nodes w p)\<rparr>)"
proof -
  have m: "symlink_metadata (join dir name) w = (Inr (stat i), w)"
    using assms by (simp add: symlink_metadata_def fs_lookup_def clean_sys ok_or_def)
  have "remove_dir_all (se_survives env) (join dir name) w
      = (Inr (), w\<lparr>nodes := (\<lambda>p. if suffix_below (join dir name) p \<noteq> None then None else nodes w p)\<rparr>)"
    using assms by (simp add: remove_dir_all_def pop_fault_def)
  with m assms show ?thesis
    by (simp add: revoked_profile_name_def clean_sys flow_defs stat_def is_symlink_def perm_def)
qed

lemma clean_clear_key:
  assumes "script w = []" "revoked_key_name uid name" "nodes w (join dir name) = Some i" "key_metadata_ok gid (stat i)"
  shows "clear_keys env uid gid dir [name] w = (Inr (), w\<lparr>nodes := (nodes w)(join dir name := None)\<rparr>)"
proof -
  have m: "symlink_metadata (join dir name) w = (Inr (stat i), w)"
    using assms by (simp add: symlink_metadata_def fs_lookup_def clean_sys ok_or_def)
  have k: "i_kind i = Regular" using assms(4) by (simp add: key_metadata_ok_def stat_def)
  then have "remove_file (join dir name) w = (Inr (), w\<lparr>nodes := (nodes w)(join dir name := None)\<rparr>)"
    using assms by (simp add: remove_file_def clean_sys)
  with m k assms show ?thesis
    by (simp add: revoked_key_name_def revoked_profile_name_def clean_sys flow_defs is_symlink_def stat_def)
qed

lemma deletion_key_ok: "key_metadata_ok 99 (stat ((root_inode Regular (oct3 6 4 0) 1 (replicate 32 1))\<lparr>i_gid := 99\<rparr>))"
  by code_simp

lemma deletion_finishes:
  "\<exists>w v. move_out_of_service sample_sync_env 7 production_paths default_policy False True deletion_revoked = (Inr (), w)
    \<and> finish_deletion sample_sync_env 7 w = (Inr (), v)"
proof -
  let ?k = "(root_inode Regular (oct3 6 4 0) 1 (replicate 32 1))\<lparr>i_gid := 99\<rparr>"
  define w where "w = deletion_revoked\<lparr>nodes := (nodes deletion_revoked)
    (''/etc/kfaceauth/keys/7.key'' := None, ''/etc/kfaceauth/keys/.revoked-7-3.key'' := Some ?k)\<rparr>"
  define v where "v = w\<lparr>nodes := (\<lambda>p. if suffix_below (join PR ''.revoked-7-2'') p \<noteq> None then None else nodes w p)\<rparr>"
  have paths: "PR = ''/var/lib/kfaceauth''" "PK = ''/etc/kfaceauth/keys''" by (simp_all add: production_paths_def)
  have m: "move_out_of_service sample_sync_env 7 production_paths default_policy False True deletion_revoked = (Inr (), w)"
    by (simp add: move_out_of_service_def Let_def deletion_strings production_paths_def join_def sample_sync_env_def rename_file_def
        clean_sys deletion_revoked_facts w_def)
  have nw: "nodes w (join PR ''.revoked-7-2'') = Some ((root_inode Directory (oct3 7 5 0) 2 [])\<lparr>i_gid := 99\<rparr>)"
    "nodes w (join PR ''.revoked-7-3.key'') = None" "script w = []" "group_ids w ''kfaceauth'' = Some 99"
    using deletion_revoked_facts by (simp_all add: w_def paths join_def)
  have nv: "nodes v (join PK ''.revoked-7-2'') = None" "nodes v (join PK ''.revoked-7-3.key'') = Some ?k" "script v = []"
    using deletion_revoked_facts nw(3) by (simp_all add: v_def w_def paths join_def suffix_below_def)
  have e: "se_entries sample_sync_env PR w = [''.revoked-7-2'']" "se_entries sample_sync_env PK v = [''.revoked-7-3.key'']"
    using nw nv by (simp_all add: sample_sync_env_def)
  have o: "and (oct3 7 5 0) (oct3 7 7 7) = oct3 7 5 0" by (simp add: oct3_def)
  have c1: "clear_profiles sample_sync_env 7 99 PR [''.revoked-7-2''] w = (Inr (), v)"
    unfolding v_def by (rule clean_clear_profile [OF nw(3) deletion_names(1) nw(1)]) (simp_all add: root_inode_def o)
  note c2 = clean_clear_key [OF nv(3) deletion_names(2) nv(2) deletion_key_ok, of sample_sync_env]
  have "finish_deletion sample_sync_env 7 w = (Inr (), v\<lparr>nodes := (nodes v)(join PK ''.revoked-7-3.key'' := None)\<rparr>)"
    using e c1 c2 nw(3,4) nv(3)
    by (simp add: finish_deletion_def sync_both_def clear_revoked_copies_def wbind_def wmap_err_def sync_all_def group_id_def
        read_dir_def clean_sys SYSTEM_GROUP_def ok_or_def)
  with m show ?thesis by blast
qed

lemma deletion_policy_facts:
  "script deletion_locked = []" "nodes deletion_locked PC = Some (root_inode Directory (oct3 7 5 5) 2 [])"
  "pol deletion_locked = Some (root_inode Regular (oct3 6 4 4) 1 (text_bytes (to_json default_policy)))"
  "nodes deletion_revoked PC = Some (root_inode Directory (oct3 7 5 5) 2 [])"
  "fst (acquire_policy_lock production_paths deletion_world) = Inr ()"
  "fst (write_atomic default_policy 1 (Some 1) PC deletion_locked) = Inr ()"
  "map_option i_gid (pol deletion_revoked) = Some 0" "script deletion_world = []"
  "nodes deletion_world ''/var/lib/kfaceauth/7'' = None"
  "nodes deletion_world ''/etc/kfaceauth/keys/7.key'' = Some ((root_inode Regular (oct3 6 4 0) 1 (replicate 32 1))\<lparr>i_gid := 99\<rparr>)"
  "group_ids deletion_world ''kfaceauth'' = Some 99"
  by code_simp+

lemma default_policy_ok:
  assumes "policy_written default_policy (Some i)" "i_gid i = 0"
  shows "policy_metadata_ok (stat i)" "parse_json (bytes_text (i_data i)) = Inr default_policy"
proof -
  have len: "length (text_bytes (to_json default_policy)) \<le> MAX_POLICY_BYTES"
    by (simp add: text_bytes_def to_json_def default_policy_def quoted_def MAX_POLICY_BYTES_def)
  have "and (oct3 6 4 4) 0xFFF = oct3 6 4 4" by (simp add: oct3_def)
  with assms len show "policy_metadata_ok (stat i)"
    by (simp add: policy_written_def policy_metadata_ok_def stat_def full_mode_def)
  show "parse_json (bytes_text (i_data i)) = Inr default_policy"
    using assms(1) parse_json_default by (simp add: policy_written_def)
qed

lemma deletion_policy_loads:
  "load_policy production_paths deletion_locked = (Inr default_policy, deletion_locked)"
  "load_policy production_paths deletion_revoked = (Inr default_policy, deletion_revoked)"
proof -
  have d: "i_kind (root_inode Directory (oct3 7 5 5) 2 []) = Directory" "i_uid (root_inode Directory (oct3 7 5 5) 2 []) = 0"
    "i_gid (root_inode Directory (oct3 7 5 5) 2 []) = 0" "i_mode (root_inode Directory (oct3 7 5 5) 2 []) = oct3 7 5 5"
    by (simp_all add: root_inode_def)
  have "policy_written default_policy (pol deletion_locked)" "i_gid (the (pol deletion_locked)) = 0"
    by (simp_all add: deletion_policy_facts(3) policy_written_def root_inode_def)
  with default_policy_ok [of "the (pol deletion_locked)"]
  show "load_policy production_paths deletion_locked = (Inr default_policy, deletion_locked)"
    by (intro clean_load_policy [OF deletion_policy_facts(1,2) d]) (simp_all add: deletion_policy_facts(3))
  have "policy_written default_policy (pol deletion_revoked)"
    using aonD [OF aon_write_atomic refl, of default_policy 1 "Some 1" PC deletion_locked] deletion_policy_facts(6)
    by (metis deletion_revoked_def is_ok_simps(2) prod.collapse)
  moreover obtain i where "pol deletion_revoked = Some i" "i_gid i = 0" using deletion_policy_facts(7) by auto
  ultimately show "load_policy production_paths deletion_revoked = (Inr default_policy, deletion_revoked)"
    using default_policy_ok [of i] by (intro clean_load_policy [OF deletion_revoked_facts(1) deletion_policy_facts(4) d]) simp_all
qed

lemma deletion_revokes:
  "revoke_for_deletion sample_sync_env 7 deletion_world = (Inr (default_policy, default_policy, False, True), deletion_revoked)"
proof -
  let ?w = deletion_world
  have paths: "PR = ''/var/lib/kfaceauth''" "PK = ''/etc/kfaceauth/keys''" by (simp_all add: production_paths_def)
  have "join PR (u32_to_string 7) = ''/var/lib/kfaceauth/7''" "join PK (system_key_name 7) = ''/etc/kfaceauth/keys/7.key''"
    using deletion_strings by (simp_all add: profile_dir_def paths join_def)
  then have "validate_and_harden_existing_profile PR 7 ?w = (Inr False, ?w)"
    "validate_system_key_for_deletion PK 7 ?w = (Inr True, ?w)"
    using deletion_policy_facts(8-11) deletion_key_ok
    by (simp_all add: validate_and_harden_existing_profile_def validate_system_key_for_deletion_def open_child_file_nofollow_def
        Let_def flow_defs call_defs clean_sys ok_or_def group_id_def SYSTEM_GROUP_def root_inode_def stat_def is_symlink_def)
  moreover have "acquire_policy_lock production_paths ?w = (Inr (), deletion_locked)"
    using deletion_policy_facts(5) by (simp add: deletion_locked_def prod_eq_iff)
  moreover have "revoke_user_targets default_policy 7 = Inr default_policy" by code_simp
  moreover have "write_atomic default_policy 1 (Some 1) PC deletion_locked = (Inr (), deletion_revoked)"
    using deletion_policy_facts(6) by (simp add: deletion_revoked_def prod_eq_iff)
  ultimately show ?thesis
    using deletion_policy_loads
    by (simp add: revoke_for_deletion_def write_policy_def wbind_def wmap_err_def wlift_def wreturn_def sample_sync_env_def)
qed

theorem delete_system_profile_safe_witness:
  "\<exists>w'. delete_system_profile sample_sync_env 7 production_paths deletion_world = (ExitSuccess ''result=ok state=deleted'', w')
    \<and> \<not> grants 7 (pol w') \<and> nodes w' (final_of 7) = None \<and> nodes w' (key_of 7) = None
    \<and> nodes w' (join PR ''.revoked-7-2'') = None"
proof -
  obtain w v where "move_out_of_service sample_sync_env 7 production_paths default_policy False True deletion_revoked = (Inr (), w)"
    "finish_deletion sample_sync_env 7 w = (Inr (), v)" using deletion_finishes by blast
  then have d: "delete_system_profile sample_sync_env 7 production_paths deletion_world = (ExitSuccess ''result=ok state=deleted'', v)"
    using deletion_revokes by (simp add: delete_in_three wbind_def exit_of_def)
  have "honest deletion_world" "listed sample_sync_env ''.revoked-7-2''"
    by (simp_all add: honest_def deletion_policy_facts(8) listed_def sample_sync_env_def)
  with delete_system_profile_safe [OF d] d deletion_names(1) show ?thesis by blast
qed

end
