(* ===== verification/Policy_Tool.thy ===== *)
theory Policy_Tool
  imports Sync_Deletion
begin

text \<open>
  The policy tool, \<^verbatim>\<open>engine/templates/src/bin/kfaceauth-policy.rs\<close>: its command line, the query of a mode and the
  authorized change of one mode under the locks of the user's profile and of the policy. Directory handles are paths
  and messages on the error stream are left out, as for the synchronization tool.
\<close>

section \<open>Arguments\<close>

record policy_options =
  po_write :: bool
  po_uid :: u32
  po_target :: auth_target
  po_mode :: "auth_policy_mode option"

definition parse_uid :: "string \<Rightarrow> unit + u32" where
  "parse_uid s =
     (if s = [] \<or> \<not> list_all is_ascii_digit s then Inl ()
      else case parse_u32 s of
        None \<Rightarrow> Inl ()
      | Some uid \<Rightarrow> if uid = 0 \<or> u32_to_string uid \<noteq> s then Inl () else Inr uid)"

definition parse_policy_target :: "string \<Rightarrow> unit + auth_target" where
  "parse_policy_target s =
     (if s = ''sddm'' then Inr Sddm else if s = ''plasma-lock'' then Inr PlasmaLock else Inl ())"

definition parse_mode :: "string \<Rightarrow> unit + auth_policy_mode" where
  "parse_mode s =
     (if s = ''off'' then Inr Off else if s = ''on-activity'' then Inr OnActivity
      else if s = ''manual'' then Inr Manual else Inl ())"

text \<open>The mutable variables of the argument loop.\<close>

record policy_args =
  get_flag :: bool
  set_flag :: bool
  uid_arg :: "string option"
  target_arg :: "string option"
  mode_arg :: "string option"

definition no_policy_args :: policy_args where
  "no_policy_args = \<lparr>get_flag = False, set_flag = False, uid_arg = None, target_arg = None, mode_arg = None\<rparr>"

function policy_args_loop :: "policy_args \<Rightarrow> string list \<Rightarrow> unit + policy_args option" where
  "policy_args_loop st [] = Inr (Some st)"
| "policy_args_loop st (arg # rest) =
     (if arg = ''--get'' \<and> \<not> get_flag st then policy_args_loop (st\<lparr>get_flag := True\<rparr>) rest
      else if arg = ''--set'' \<and> \<not> set_flag st then policy_args_loop (st\<lparr>set_flag := True\<rparr>) rest
      else if arg = ''--uid'' \<and> uid_arg st = None then
        (case rest of [] \<Rightarrow> Inl () | v # rest' \<Rightarrow> policy_args_loop (st\<lparr>uid_arg := Some v\<rparr>) rest')
      else if arg = ''--target'' \<and> target_arg st = None then
        (case rest of [] \<Rightarrow> Inl () | v # rest' \<Rightarrow> policy_args_loop (st\<lparr>target_arg := Some v\<rparr>) rest')
      else if arg = ''--mode'' \<and> mode_arg st = None then
        (case rest of [] \<Rightarrow> Inl () | v # rest' \<Rightarrow> policy_args_loop (st\<lparr>mode_arg := Some v\<rparr>) rest')
      else if arg = ''--help'' \<or> arg = ''-h'' then Inr None
      else Inl ())"
  by pat_completeness auto
termination by (relation "measure (\<lambda>(st, args). length args)") auto

definition selected_mode :: "policy_args \<Rightarrow> unit + auth_policy_mode option" where
  "selected_mode st =
     (case (set_flag st, mode_arg st) of
        (True, Some v) \<Rightarrow> rbind (parse_mode v) (\<lambda>m. Inr (Some m))
      | (True, None) \<Rightarrow> Inl ()
      | (False, None) \<Rightarrow> Inr None
      | (False, Some _) \<Rightarrow> Inl ())"

definition policy_parse_args :: "string list \<Rightarrow> unit + policy_options option" where
  "policy_parse_args args =
     rbind (policy_args_loop no_policy_args args) (\<lambda>st.
       case st of
         None \<Rightarrow> Inr None
       | Some st \<Rightarrow>
           if get_flag st = set_flag st then Inl ()
           else rbind (ok_or () (uid_arg st)) (\<lambda>s. rbind (parse_uid s) (\<lambda>uid.
                rbind (ok_or () (target_arg st)) (\<lambda>s. rbind (parse_policy_target s) (\<lambda>target.
                rbind (selected_mode st) (\<lambda>mode.
                Inr (Some \<lparr>po_write = set_flag st, po_uid = uid, po_target = target, po_mode = mode\<rparr>)))))))"

section \<open>The files the tool looks at\<close>

definition config_directory :: "(unit, string option) io" where
  "config_directory =
     wbind (open_directory_nofollow ''/etc'') (\<lambda>_.
     wbind (unit_err (fd_metadata ''/etc'')) (\<lambda>m.
     if md_uid m \<noteq> 0 \<or> and (md_mode m) (oct3 0 2 2) \<noteq> 0 then wfail ()
     else (\<lambda>w. case symlink_metadata (join ''/etc'' ''kfaceauth'') w of
         (Inl k, w') \<Rightarrow> (if k = NotFound then wreturn None else wfail ()) w'
       | (Inr entry, w') \<Rightarrow>
           (if md_kind entry \<noteq> Directory \<or> is_symlink entry then wfail ()
            else wbind (unit_err (open_child_directory_nofollow ''/etc'' ''kfaceauth'')) (\<lambda>_.
              wbind (unit_err (fd_metadata (join ''/etc'' ''kfaceauth''))) (\<lambda>m.
              if md_uid m \<noteq> 0 \<or> md_gid m \<noteq> 0 \<or> perm m \<noteq> oct3 7 5 5 then wfail ()
              else wreturn (Some (join ''/etc'' ''kfaceauth''))))) w')))"

definition ready_metadata :: "u32 \<Rightarrow> metadata \<Rightarrow> bool" where
  "ready_metadata g m \<longleftrightarrow> md_kind m = Regular \<and> md_uid m = 0 \<and> md_gid m = g \<and> perm m = oct3 6 4 0
     \<and> md_nlink m = 1 \<and> md_len m > 0"

text \<open>Every failing call of \<^verbatim>\<open>profile_is_ready\<close> makes its answer false.\<close>

definition profile_is_ready :: "u32 \<Rightarrow> (unit, unit) io" where
  "profile_is_ready uid =
     wbind (open_directory_nofollow ''/var/lib/kfaceauth'') (\<lambda>_.
     let profile = join ''/var/lib/kfaceauth'' (u32_to_string uid) in
     wbind (unit_err (open_child_directory_nofollow ''/var/lib/kfaceauth'' (u32_to_string uid))) (\<lambda>_.
     wbind (unit_err (open_child_file_nofollow profile ''identity.vault'')) (\<lambda>_.
     wbind (unit_err (fd_metadata (join profile ''identity.vault''))) (\<lambda>vault_metadata.
     wbind (open_directory_nofollow ''/etc'') (\<lambda>_.
     wbind (unit_err (open_child_directory_nofollow ''/etc'' ''kfaceauth'')) (\<lambda>_.
     wbind (unit_err (open_child_directory_nofollow ''/etc/kfaceauth'' ''keys'')) (\<lambda>_.
     wbind (unit_err (open_child_file_nofollow ''/etc/kfaceauth/keys'' (u32_to_string uid @ ''.key''))) (\<lambda>_.
     wbind (unit_err (fd_metadata (join ''/etc/kfaceauth/keys'' (u32_to_string uid @ ''.key'')))) (\<lambda>key_metadata.
     wbind (unit_err (group_id ''kfaceauth'')) (\<lambda>g.
     if list_all (ready_metadata g) [vault_metadata, key_metadata] then wreturn () else wfail ()))))))))))"

definition profile_operation_lock :: "u32 \<Rightarrow> (unit, unit) io" where
  "profile_operation_lock uid =
     wbind (open_directory_nofollow ''/etc'') (\<lambda>_.
     wbind (unit_err (open_child_directory_nofollow ''/etc'' ''kfaceauth'')) (\<lambda>_.
     wbind (unit_err (open_child_directory_nofollow ''/etc/kfaceauth'' ''keys'')) (\<lambda>_.
     lock_child_file_nonblocking ''/etc/kfaceauth/keys'' (''.sync-'' @ u32_to_string uid @ ''.lock''))))"

section \<open>Running an operation\<close>

text \<open>
  The process id, the readings of the wall clock for the two policy writes, and the external preparation program: it
  could not be started, or its exit status, with what it did to the filesystem.
\<close>

record policy_env =
  pe_pid :: nat
  pe_clock :: "nat \<Rightarrow> nat option"
  pe_spawn :: "string \<Rightarrow> string list \<Rightarrow> (io_kind, bool) io"

fun prepare_loop :: "policy_env \<Rightarrow> string list \<Rightarrow> string list \<Rightarrow> (unit, unit) io" where
  "prepare_loop env [] args w = (Inl (), w)"
| "prepare_loop env (executable # rest) args w =
     (case pe_spawn env executable args w of
        (Inr success, w') \<Rightarrow> (if success then Inr () else Inl (), w')
      | (Inl _, w') \<Rightarrow> prepare_loop env rest args w')"

definition prepare_target :: "policy_env \<Rightarrow> u32 \<Rightarrow> auth_target \<Rightarrow> (unit, unit) io" where
  "prepare_target env uid target =
     prepare_loop env [''/usr/bin/kfaceauth-pam-setup'', ''/usr/local/bin/kfaceauth-pam-setup'']
       [''--prepare-target'', target_key target, ''--uid'', u32_to_string uid]"

text \<open>\<open>pkexec\<close> is the variable \<^verbatim>\<open>PKEXEC_UID\<close>, if it is set and valid Unicode.\<close>

definition authorize_set :: "string option \<Rightarrow> u32 \<Rightarrow> world \<Rightarrow> bool" where
  "authorize_set pkexec uid w \<longleftrightarrow> euid w = 0
     \<and> (case pkexec of None \<Rightarrow> True | Some s \<Rightarrow> parse_u32 s = Some uid)"

definition store_update :: "policy_env \<Rightarrow> auth_policy_mode \<Rightarrow> string \<Rightarrow> auth_policy \<Rightarrow> auth_policy \<Rightarrow> (unit, unit) io" where
  "store_update env mode dir policy updated w =
     (case write_atomic updated (pe_pid env) (pe_clock env 0) dir w of
        (Inr _, w') \<Rightarrow> (Inr (), w')
      | (Inl _, w') \<Rightarrow>
          (Inl (), if mode \<noteq> Off then snd (write_atomic policy (pe_pid env) (pe_clock env 1) dir w') else w'))"

definition merge_update :: "policy_env \<Rightarrow> u32 \<Rightarrow> auth_target \<Rightarrow> auth_policy_mode \<Rightarrow> string \<Rightarrow> (unit, unit) io" where
  "merge_update env uid target mode dir =
     wbind (lock_child_file_nonblocking dir ''.policy.lock'') (\<lambda>_.
     wbind (unit_err (policy_load_from_directory dir)) (\<lambda>policy.
     wbind (wlift (map_err (\<lambda>_. ()) (set_mode policy uid target mode))) (\<lambda>updated.
     store_update env mode dir policy updated)))"

definition policy_update :: "policy_env \<Rightarrow> u32 \<Rightarrow> auth_target \<Rightarrow> auth_policy_mode \<Rightarrow> string \<Rightarrow> (unit, unit) io" where
  "policy_update env uid target mode dir =
     wbind (profile_operation_lock uid) (\<lambda>_.
     wbind (if mode \<noteq> Off then profile_is_ready uid else wreturn ()) (\<lambda>_.
     wbind (if mode \<noteq> Off then prepare_target env uid target else wreturn ()) (\<lambda>_.
     merge_update env uid target mode dir)))"

definition policy_set :: "policy_env \<Rightarrow> string option \<Rightarrow> policy_options \<Rightarrow> string option \<Rightarrow> auth_policy \<Rightarrow> world \<Rightarrow> exit_code \<times> world" where
  "policy_set env pkexec opts directory policy w =
     (case po_mode opts of
        None \<Rightarrow> (ExitFailure, w)
      | Some mode \<Rightarrow>
          if \<not> authorize_set pkexec (po_uid opts) w then (ExitFailure, w)
          else if mode = Off \<and> mode_for policy (po_uid opts) (po_target opts) = Off
          then (ExitSuccess ''result=ok mode=off'', w)
          else case directory of
            None \<Rightarrow> (ExitFailure, w)
          | Some dir \<Rightarrow>
              exit_of (''result=ok mode='' @ mode_as_str mode)
                (policy_update env (po_uid opts) (po_target opts) mode dir w))"

definition policy_run :: "policy_env \<Rightarrow> string option \<Rightarrow> policy_options \<Rightarrow> world \<Rightarrow> exit_code \<times> world" where
  "policy_run env pkexec opts w =
     (case wbind config_directory (\<lambda>directory.
         wbind (case directory of
             Some dir \<Rightarrow> unit_err (policy_load_from_directory dir)
           | None \<Rightarrow> wreturn default_policy) (\<lambda>policy.
         wreturn (directory, policy))) w of
        (Inl _, w1) \<Rightarrow> (ExitFailure, w1)
      | (Inr (directory, policy), w1) \<Rightarrow>
          if \<not> po_write opts
          then (ExitSuccess (''mode='' @ mode_as_str (mode_for policy (po_uid opts) (po_target opts))), w1)
          else policy_set env pkexec opts directory policy w1)"

definition policy_usage :: string where
  "policy_usage = ''Usage: kfaceauth-policy --get --uid UID --target sddm|plasma-lock | --set --uid UID '' @
     ''--target sddm|plasma-lock --mode off|on-activity|manual''"

definition policy_main :: "policy_env \<Rightarrow> string list \<Rightarrow> string option \<Rightarrow> world \<Rightarrow> exit_code \<times> world" where
  "policy_main env args pkexec w =
     (case policy_parse_args args of
        Inr (Some opts) \<Rightarrow> policy_run env pkexec opts w
      | Inr None \<Rightarrow> (ExitSuccess policy_usage, w)
      | Inl _ \<Rightarrow> (ExitFailure, w))"

end
