(* ===== verification/Policy_Tool_Safety.thy ===== *)
theory Policy_Tool_Safety
  imports Policy_Tool
begin

text \<open>
  What the policy tool guarantees: it changes \<^verbatim>\<open>policy.json\<close> only for the authorized request it was given, in exactly the
  one entry it was asked to change, and enables a target only for a user whose system profile and key are in place.
\<close>

section \<open>Queries\<close>

text \<open>An action observes if it changes nothing but the script of failures.\<close>

definition observing :: "world \<Rightarrow> world \<Rightarrow> bool" where
  "observing w w' \<longleftrightarrow> nodes w' = nodes w \<and> euid w' = euid w \<and> group_ids w' = group_ids w \<and> (honest w \<longrightarrow> honest w')"

interpretation observing: frame_relation observing
  by unfold_locales (auto simp: observing_def)

abbreviation observes :: "('e, 'a) io \<Rightarrow> bool" where
  "observes m \<equiv> stays_in observing m"

named_theorems observe_rules

lemmas observe_flow [observe_rules] = observing.frame_flow observing.frame_bind

lemma observes_sys: "(\<And>w. snd (act w) = w) \<Longrightarrow> observes (sys act)"
  by (auto simp: stays_in_def observing_def honest_def sys_def pop_fault_def split: list.split option.split fault.split)

lemma observes_calls [observe_rules]:
  "observes (fd_metadata p)" "observes (symlink_metadata p)" "observes (open_nofollow p)" "observes (read_limited p n)"
  "observes (open_child_directory_nofollow d x)" "observes (open_child_file_nofollow d x)" "observes (group_id g)"
  "observes (open_directory p)"
  unfolding fd_metadata_def symlink_metadata_def open_nofollow_def open_child_directory_nofollow_def read_limited_def
    open_child_file_nofollow_def group_id_def open_directory_def
  by (rule observes_sys, simp split: option.split)+

lemmas lookup_then_observes = observing.frame_lookup [OF observes_calls(2)]

lemma observes_open_directory_nofollow [observe_rules]: "observes (open_directory_nofollow p)"
  unfolding open_directory_nofollow_def by (intro observe_rules)

lemma observes_validate_root_directory [observe_rules]: "observes (validate_root_directory dir b)"
  unfolding validate_root_directory_def by (intro observe_rules)

lemma observes_snapshot_load [observe_rules]: "observes (snapshot_load_from_directory dir)"
  unfolding snapshot_load_from_directory_def by (intro observe_rules)

lemma observes_policy_load [observe_rules]: "observes (policy_load_from_directory dir)"
  unfolding policy_load_from_directory_def by (intro observe_rules lookup_then_observes)

lemma observes_config_directory [observe_rules]: "observes config_directory"
  unfolding config_directory_def by (intro observe_rules lookup_then_observes)

lemma observes_profile_is_ready [observe_rules]: "observes (profile_is_ready uid)"
  unfolding profile_is_ready_def Let_def by (intro observe_rules)

text \<open>What a load that is not told of a missing file returns.\<close>

definition loaded :: "auth_policy \<Rightarrow> inode option \<Rightarrow> bool" where
  "loaded p n \<longleftrightarrow> (case n of None \<Rightarrow> p = default_policy | Some i \<Rightarrow> parse_json (bytes_text (i_data i)) = Inr p)"

lemma policy_load_Inr:
  assumes "policy_load_from_directory dir w = (Inr p, w')"
  shows "policy_wf p" "honest w \<Longrightarrow> loaded p (nodes w (policy_path dir))"
proof -
  obtain v where v: "observing w v" "(case symlink_metadata (policy_path dir) v of
       (Inl k, w') \<Rightarrow> if k = NotFound then wreturn default_policy w' else wfail Policy_Io w'
     | (Inr m, w') \<Rightarrow>
         if md_kind m \<noteq> Regular \<or> is_symlink m then wfail Policy_UnsafeFilesystem w'
         else wbind (snapshot_load_from_directory dir) (\<lambda>s. wreturn (snap_policy s)) w') = (Inr p, w')"
    using assms stays_inD [OF observes_validate_root_directory, of dir True w]
    by (auto simp: policy_load_from_directory_def io_success)
  obtain q u where q: "symlink_metadata (policy_path dir) v = (q, u)" by fastforce
  have u: "observing w u" using observing.frame_trans [OF v(1) stays_inD [OF observes_calls(2) q]] .
  show "policy_wf p"
    using v(2) q snapshot_load_Inr(2) [of dir] parse_json_wf
    by (fastforce simp: io_success policy_wf_def default_policy_def split: sum.splits if_splits)
  assume h: "honest w"
  show "loaded p (nodes w (policy_path dir))"
  proof (cases q)
    case (Inl k)
    with v(2) q have "k = NotFound" "p = default_policy" by (auto simp: io_success split: if_splits)
    with absent_if_not_found [of _ v u] q Inl h v(1) show ?thesis by (auto simp: loaded_def observing_def)
  next
    case (Inr m)
    with v(2) q obtain s where "snapshot_load_from_directory dir u = (Inr s, w')" "p = snap_policy s"
      by (auto simp: io_success split: if_splits)
    with snapshot_load_Inr(2) u show ?thesis by (fastforce simp: loaded_def observing_def)
  qed
qed

lemma config_directory_Inr:
  assumes "config_directory w = (Inr d, w')"
  shows "d = None \<or> d = Some PC" "d = None \<Longrightarrow> honest w \<Longrightarrow> nodes w PC = None"
proof -
  obtain v where v: "observing w v" "(case symlink_metadata (join ''/etc'' ''kfaceauth'') v of
         (Inl k, w') \<Rightarrow> (if k = NotFound then wreturn None else wfail ()) w'
       | (Inr entry, w') \<Rightarrow>
           (if md_kind entry \<noteq> Directory \<or> is_symlink entry then wfail ()
            else wbind (unit_err (open_child_directory_nofollow ''/etc'' ''kfaceauth'')) (\<lambda>_.
              wbind (unit_err (fd_metadata (join ''/etc'' ''kfaceauth''))) (\<lambda>m.
              if md_uid m \<noteq> 0 \<or> md_gid m \<noteq> 0 \<or> perm m \<noteq> oct3 7 5 5 then wfail ()
              else wreturn (Some (join ''/etc'' ''kfaceauth''))))) w') = (Inr d, w')"
    using assms unfolding config_directory_def
    by (auto simp: io_success wguard_Inr simp del: split_paired_Ex split_paired_All
        dest!: stays_inD [OF observes_open_directory_nofollow] stays_inD [OF observes_calls(1)] intro: observing.frame_trans)
  obtain q u where q: "symlink_metadata (join ''/etc'' ''kfaceauth'') v = (q, u)" by fastforce
  have pc: "join ''/etc'' ''kfaceauth'' = PC" by (simp add: join_def production_paths_def)
  show "d = None \<or> d = Some PC" using v(2) q pc by (auto simp: io_success wguard_Inr split: sum.splits if_splits)
  assume "d = None" "honest w"
  with v q obtain k where "q = Inl k" "k = NotFound" by (auto simp: io_success wguard_Inr split: sum.splits if_splits)
  with absent_if_not_found [of PC v u] q \<open>honest w\<close> v(1) pc show "nodes w PC = None" by (auto simp: observing_def)
qed


section \<open>The update under its locks\<close>

text \<open>The system vault and the system key of a user are protected files that are not empty.\<close>

definition provisioned :: "u32 \<Rightarrow> world \<Rightarrow> bool" where
  "provisioned uid w \<longleftrightarrow> (\<exists>i j g. nodes w (join (final_of uid) VAULT_FILE) = Some i \<and> nodes w (key_of uid) = Some j
     \<and> ready_metadata g (stat i) \<and> ready_metadata g (stat j))"

lemma profile_is_ready_Inr:
  assumes "profile_is_ready uid w = (Inr u, w')"
  shows "provisioned uid w"
proof -
  have names: "join (join ''/var/lib/kfaceauth'' (u32_to_string uid)) ''identity.vault'' = join (final_of uid) VAULT_FILE"
    "join ''/etc/kfaceauth/keys'' (u32_to_string uid @ ''.key'') = key_of uid"
    by (simp_all add: profile_dir_def production_paths_def VAULT_FILE_def system_key_name_def)
  let ?v = "join (final_of uid) VAULT_FILE"
  have m: "\<exists>i. nodes v p = Some i \<and> m = stat i" if "fd_metadata p v = (Inr m, v')" for p v m v'
    using metadata_Inr(2) [OF that] by blast
  from assms obtain v1 m1 v1' v2 m2 v2' g where s: "nodes v1 = nodes w" "fd_metadata ?v v1 = (Inr m1, v1')"
    "nodes v2 = nodes v1'" "fd_metadata (key_of uid) v2 = (Inr m2, v2')" "ready_metadata g m1" "ready_metadata g m2"
    unfolding profile_is_ready_def Let_def names
    by (auto simp: io_success observing_def split: if_splits
      dest!: stays_inD [OF observes_open_directory_nofollow] stays_inD [OF observes_calls(5)] stays_inD [OF observes_calls(6)])
  have "observing v1 v1'" using stays_inD [OF observes_calls(1) s(2)] .
  with s m [OF s(2)] m [OF s(4)] show ?thesis by (auto simp: observing_def provisioned_def)
qed


lemma honest_lock_child_file: "stays_honest (lock_child_file_nonblocking parent name)"
  unfolding lock_child_file_nonblocking_def open_lock_file_def
  by (intro honest_rules honest_sys) (auto split: option.split)

lemma policy_lock_frame:
  assumes "lock_child_file_nonblocking PC ''.policy.lock'' w = (r, w')"
  shows "pol w' = pol w" "honest w \<Longrightarrow> honest w'"
proof -
  have "policy_path PC \<noteq> join PC ''.policy.lock''" by (simp add: child_def join_def AUTH_POLICY_FILE_def)
  then show "pol w' = pol w"
    using keepsD [OF keeps_lock_child_file [of PC "''.policy.lock''" "{policy_path PC}"], of "policy_path PC" w] assms by simp
  show "honest w \<Longrightarrow> honest w'" using stays_inD [OF honest_lock_child_file assms] by (simp add: honesty_def)
qed

lemma profile_lock_frame:
  assumes "profile_operation_lock uid w = (r, w')"
  shows "pol w' = pol w" "honest w \<Longrightarrow> honest w'" "provisioned v w' = provisioned v w"
proof -
  let ?l = "join PK (''.sync-'' @ u32_to_string uid @ ''.lock'')"
  have pk: "''/etc/kfaceauth/keys'' = PK" by (simp add: production_paths_def)
  have h: "stays_honest (profile_operation_lock uid)"
    unfolding profile_operation_lock_def open_directory_nofollow_def open_directory_def
    by (intro honest_rules honest_lock_child_file honest_sys) simp
  show "honest w \<Longrightarrow> honest w'" using stays_inD [OF h assms] by (simp add: honesty_def)
  have k: "keeps (- {?l}) (profile_operation_lock uid)"
    unfolding profile_operation_lock_def pk by (intro keeps_rules keeps_lock_child_file) simp
  have n: "policy_path PC \<noteq> ?l" "key_of v \<noteq> ?l" "join (final_of v) VAULT_FILE \<noteq> ?l"
    using number_not_dot [of v "''sync-'' @ u32_to_string uid @ ''.lock''"]
    by (auto simp: production_paths_def child_def join_def AUTH_POLICY_FILE_def system_key_name_def profile_dir_def VAULT_FILE_def
        append_eq_append_conv2)
  have e: "nodes w' p = nodes w p" if "p \<noteq> ?l" for p using keepsD [OF k, of p w] assms that by simp
  then show "pol w' = pol w" "provisioned v w' = provisioned v w" using n by (simp_all add: provisioned_def)
qed

lemma store_update_outcome:
  assumes "store_update env m PC p q w = (r, w')"
  shows "(pol w' = pol w \<and> \<not> is_ok r) \<or> policy_written q (pol w') \<or> (\<not> is_ok r \<and> m \<noteq> Off \<and> policy_written p (pol w'))"
proof -
  obtain r1 w1 where a: "write_atomic q (pe_pid env) (pe_clock env 0) PC w = (r1, w1)" by fastforce
  obtain r2 w2 where b: "write_atomic p (pe_pid env) (pe_clock env 1) PC w1 = (r2, w2)" by fastforce
  note first_write = policy_file.store_outcome [of q "pe_pid env" "pe_clock env" 0 PC w r1 w1, OF a]
  note both = policy_file.store_or_restore [of q "pe_pid env" "pe_clock env" 0 PC w r1 w1 p 1 r2 w2, OF a b]
  show ?thesis using assms a b first_write both by (auto simp: store_update_def split: sum.splits if_splits)
qed

lemma merge_update_outcome:
  assumes "merge_update env uid t m PC w = (r, w')"
  shows "(pol w' = pol w \<and> \<not> is_ok r) \<or> (\<exists>p q. policy_wf p \<and> (honest w \<longrightarrow> loaded p (pol w)) \<and> set_mode p uid t m = Inr q
    \<and> (policy_written q (pol w') \<or> \<not> is_ok r \<and> m \<noteq> Off \<and> policy_written p (pol w')))"
proof -
  obtain r1 w1 where a: "lock_child_file_nonblocking PC ''.policy.lock'' w = (r1, w1)" by fastforce
  obtain r2 w2 where b: "policy_load_from_directory PC w1 = (r2, w2)" by fastforce
  have n: "pol w2 = pol w" using policy_lock_frame(1) [OF a] stays_inD [OF observes_policy_load b] by (simp add: observing_def)
  have run: "(r, w') = (case r1 of Inl e \<Rightarrow> (Inl e, w1) | Inr _ \<Rightarrow> (case r2 of Inl e \<Rightarrow> (Inl (), w2) | Inr p \<Rightarrow>
      (case set_mode p uid t m of Inl _ \<Rightarrow> (Inl (), w2) | Inr q \<Rightarrow> store_update env m PC p q w2)))"
    unfolding assms [symmetric] by (simp add: merge_update_def wbind_def wmap_err_def a b wlift_def map_err_def split: sum.split)
  show ?thesis
  proof (cases "\<exists>p q. r2 = Inr p \<and> set_mode p uid t m = Inr q \<and> store_update env m PC p q w2 = (r, w')")
    case True
    then obtain p q where p: "r2 = Inr p" "set_mode p uid t m = Inr q" "store_update env m PC p q w2 = (r, w')" by blast
    have "policy_wf p" "honest w \<longrightarrow> loaded p (pol w)"
      using policy_load_Inr [of PC w1 p w2] b p(1) policy_lock_frame [OF a] by simp_all
    with store_update_outcome [OF p(3)] p(2) n show ?thesis by metis
  next
    case False
    with run n policy_lock_frame(1) [OF a] show ?thesis by (auto split: sum.splits)
  qed
qed


text \<open>The preparation program is trusted to leave the policy file alone.\<close>

definition helper_confined :: "policy_env \<Rightarrow> bool" where
  "helper_confined env \<longleftrightarrow> (\<forall>executable args. keeps {policy_path PC} (pe_spawn env executable args)
     \<and> stays_honest (pe_spawn env executable args))"

lemma prepare_loop_frame:
  assumes "helper_confined env" "prepare_loop env es args w = (r, w')"
  shows "pol w' = pol w" "honest w \<Longrightarrow> honest w'"
proof -
  have "pol w' = pol w \<and> (honest w \<longrightarrow> honest w')"
    using assms(2)
  proof (induction es arbitrary: w)
    case (Cons e es)
    obtain q v where q: "pe_spawn env e args w = (q, v)" by fastforce
    have "keeps {policy_path PC} (pe_spawn env e args)" "stays_honest (pe_spawn env e args)"
      using assms(1) by (simp_all add: helper_confined_def)
    from keepsD [OF this(1), of "policy_path PC" w] stays_inD [OF this(2) q] q
    have "pol v = pol w" "honest w \<longrightarrow> honest v" by (simp_all add: honesty_def)
    with q Cons.IH [of v] Cons.prems show ?case by (auto split: sum.splits)
  qed simp
  then show "pol w' = pol w" "honest w \<Longrightarrow> honest w'" by simp_all
qed

text \<open>What a change of one mode may do to the policy file.\<close>

definition one_change :: "u32 \<Rightarrow> auth_target \<Rightarrow> auth_policy_mode \<Rightarrow> auth_policy \<Rightarrow> auth_policy \<Rightarrow> bool" where
  "one_change uid t m p q \<longleftrightarrow> (\<forall>u s. mode_for q u s = (if u = uid \<and> s = t then m else mode_for p u s))"

definition mode_change :: "u32 \<Rightarrow> auth_target \<Rightarrow> auth_policy_mode \<Rightarrow> bool \<Rightarrow> world \<Rightarrow> inode option \<Rightarrow> bool" where
  "mode_change uid t m ok w n \<longleftrightarrow> (\<exists>p q. policy_wf p \<and> policy_wf q \<and> (honest w \<longrightarrow> loaded p (pol w))
     \<and> one_change uid t m p q
     \<and> (policy_written q n \<or> \<not> ok \<and> m \<noteq> Off \<and> policy_written p n))"

lemma mode_change_cong: "pol v = pol w \<Longrightarrow> honest w \<longrightarrow> honest v \<Longrightarrow> mode_change uid t m c v n \<Longrightarrow> mode_change uid t m c w n"
  unfolding mode_change_def by metis

lemma merge_update_change:
  assumes "merge_update env uid t m PC w = (r, w')" "uid \<noteq> 0"
  shows "(pol w' = pol w \<and> \<not> is_ok r) \<or> mode_change uid t m (is_ok r) w (pol w')"
proof -
  have "policy_wf q \<and> one_change uid t m p q"
    if "policy_wf p" "set_mode p uid t m = Inr q" for p q
    using that set_mode_off [OF that(1) assms(2), of t] set_mode_on [OF that(1) assms(2), of m t] by (cases "m = Off") (auto simp: one_change_def)
  with merge_update_outcome [OF assms(1)] show ?thesis unfolding mode_change_def by blast
qed

lemma policy_update_change:
  assumes "helper_confined env" "policy_update env uid t m PC w = (r, w')" "uid \<noteq> 0"
  shows "(pol w' = pol w \<and> \<not> is_ok r) \<or> (mode_change uid t m (is_ok r) w (pol w') \<and> (m \<noteq> Off \<longrightarrow> provisioned uid w))"
proof -
  obtain r1 w1 where a: "profile_operation_lock uid w = (r1, w1)" by fastforce
  define rd where "rd = (if m \<noteq> Off then profile_is_ready uid else wreturn ())"
  define prep where "prep = (if m \<noteq> Off then prepare_target env uid t else wreturn ())"
  obtain r2 w2 where b: "rd w1 = (r2, w2)" by fastforce
  obtain r3 w3 where c: "prep w2 = (r3, w3)" by fastforce
  note f1 = profile_lock_frame [OF a]
  have "observes rd" unfolding rd_def by (intro observe_rules)
  then have f2: "observing w1 w2" using b by (rule stays_inD)
  have f3: "pol w3 = pol w2 \<and> (honest w2 \<longrightarrow> honest w3)"
    using c prepare_loop_frame [OF assms(1)] by (cases "m \<noteq> Off") (auto simp: prep_def prepare_target_def wreturn_def simp del: prepare_loop.simps)
  have n: "pol w1 = pol w" "pol w2 = pol w" "pol w3 = pol w" "honest w \<longrightarrow> honest w3"
    using f1 f2 f3 by (auto simp: observing_def)
  have run: "(r, w') = (case r1 of Inl e \<Rightarrow> (Inl e, w1) | Inr _ \<Rightarrow> (case r2 of Inl e \<Rightarrow> (Inl e, w2) | Inr _ \<Rightarrow>
      (case r3 of Inl e \<Rightarrow> (Inl e, w3) | Inr _ \<Rightarrow> merge_update env uid t m PC w3)))"
    unfolding assms(2) [symmetric] policy_update_def rd_def [symmetric] prep_def [symmetric]
    by (simp add: wbind_def a b c split: sum.split)
  have ready: "m \<noteq> Off \<longrightarrow> provisioned uid w" if "r2 = Inr x" for x
    using profile_is_ready_Inr [of uid w1] b that f1(3) [of uid] by (auto simp: rd_def)
  show ?thesis
  proof (cases "\<exists>x. r2 = Inr x \<and> merge_update env uid t m PC w3 = (r, w')")
    case True
    then obtain x where "r2 = Inr x" "merge_update env uid t m PC w3 = (r, w')" by blast
    with merge_update_change [OF this(2) assms(3)] n ready mode_change_cong [OF n(3,4)] show ?thesis by auto
  next
    case False
    with run n show ?thesis by (auto split: sum.splits)
  qed
qed


section \<open>The whole tool\<close>

lemma parse_uid_Inr: "parse_uid s = Inr uid \<Longrightarrow> uid \<noteq> 0 \<and> s = u32_to_string uid"
  by (auto simp: parse_uid_def split: option.split_asm if_split_asm)

lemma policy_options_uid:
  assumes "policy_parse_args args = Inr (Some opts)"
  shows "po_uid opts \<noteq> 0"
  using assms
  by (auto simp: policy_parse_args_def rbind_eq_Inr dest!: parse_uid_Inr split: option.split_asm if_split_asm)

text \<open>What the tool has read before it decides.\<close>

lemma policy_run_reads:
  assumes "wbind config_directory (\<lambda>directory.
      wbind (case directory of Some dir \<Rightarrow> unit_err (policy_load_from_directory dir) | None \<Rightarrow> wreturn default_policy) (\<lambda>policy.
      wreturn (directory, policy))) w = (Inr (d, p), w')"
  shows "d = None \<or> d = Some PC" "d = None \<Longrightarrow> honest w \<Longrightarrow> nodes w PC = None"
    "d = Some PC \<Longrightarrow> honest w \<Longrightarrow> loaded p (pol w)"
proof -
  obtain w1 where a: "config_directory w = (Inr d, w1)"
    "(case d of Some dir \<Rightarrow> unit_err (policy_load_from_directory dir) | None \<Rightarrow> wreturn default_policy) w1 = (Inr p, w')"
    using assms by (auto simp: io_success)
  have o: "observing w w1" using stays_inD [OF observes_config_directory a(1)] .
  show "d = None \<or> d = Some PC" "d = None \<Longrightarrow> honest w \<Longrightarrow> nodes w PC = None" using config_directory_Inr [OF a(1)] .
  show "d = Some PC \<Longrightarrow> honest w \<Longrightarrow> loaded p (pol w)"
    using a(2) policy_load_Inr(2) [of PC w1 p w'] o by (simp add: io_success observing_def)
qed

lemma policy_run_frame:
  assumes "wbind config_directory (\<lambda>directory.
      wbind (case directory of Some dir \<Rightarrow> unit_err (policy_load_from_directory dir) | None \<Rightarrow> wreturn default_policy) (\<lambda>policy.
      wreturn (directory, policy))) w = (r, w')"
  shows "observing w w'"
proof -
  have "observes (case d of Some dir \<Rightarrow> unit_err (policy_load_from_directory dir) | None \<Rightarrow> wreturn default_policy)" for d
    by (cases d) (simp_all add: observe_rules)
  then have "observes (wbind config_directory (\<lambda>directory.
      wbind (case directory of Some dir \<Rightarrow> unit_err (policy_load_from_directory dir) | None \<Rightarrow> wreturn default_policy) (\<lambda>policy.
      wreturn (directory, policy))))" by (intro observe_rules)
  then show ?thesis using assms by (rule stays_inD)
qed

lemma policy_set_change:
  assumes "helper_confined env" "policy_set env pkexec opts d p w = (code, w')" "po_uid opts \<noteq> 0" "d = None \<or> d = Some PC"
    "po_mode opts = Some m"
  shows "pol w' \<noteq> pol w \<Longrightarrow> authorize_set pkexec (po_uid opts) w \<and> (m \<noteq> Off \<longrightarrow> provisioned (po_uid opts) w)
      \<and> mode_change (po_uid opts) (po_target opts) m (code \<noteq> ExitFailure) w (pol w')"
    "code \<noteq> ExitFailure \<Longrightarrow> (m = Off \<and> mode_for p (po_uid opts) (po_target opts) = Off \<and> pol w' = pol w)
      \<or> mode_change (po_uid opts) (po_target opts) m True w (pol w')"
proof -
  let ?u = "policy_update env (po_uid opts) (po_target opts) m PC w"
  let ?quick = "m = Off \<and> mode_for p (po_uid opts) (po_target opts) = Off"
  obtain r v where r: "?u = (r, v)" by fastforce
  note c = policy_update_change [OF assms(1) r assms(3)]
  have run: "(code, w') = (if \<not> authorize_set pkexec (po_uid opts) w then (ExitFailure, w)
      else if ?quick then (ExitSuccess ''result=ok mode=off'', w)
      else if d = None then (ExitFailure, w) else exit_of (''result=ok mode='' @ mode_as_str m) (r, v))"
    unfolding assms(2) [symmetric] using assms(4,5) r by (auto simp: policy_set_def)
  have e: "exit_of msg (r, v) = (if is_ok r then ExitSuccess msg else ExitFailure, v)" for msg
    by (cases r) (simp_all add: exit_of_def)
  show "pol w' \<noteq> pol w \<Longrightarrow> authorize_set pkexec (po_uid opts) w \<and> (m \<noteq> Off \<longrightarrow> provisioned (po_uid opts) w)
      \<and> mode_change (po_uid opts) (po_target opts) m (code \<noteq> ExitFailure) w (pol w')"
    using run c by (auto simp: e split: if_splits)
  show "code \<noteq> ExitFailure \<Longrightarrow> (m = Off \<and> mode_for p (po_uid opts) (po_target opts) = Off \<and> pol w' = pol w)
      \<or> mode_change (po_uid opts) (po_target opts) m True w (pol w')"
    using run c by (auto simp: e split: if_splits)
qed


lemma policy_run_cases:
  assumes "policy_run env pkexec opts w = (code, w')"
  obtains "code = ExitFailure" "observing w w'"
  | p where "\<not> po_write opts" "observing w w'" "code = ExitSuccess (''mode='' @ mode_as_str (mode_for p (po_uid opts) (po_target opts)))"
      "honest w \<Longrightarrow> nodes w PC \<noteq> None \<Longrightarrow> loaded p (pol w)"
  | d p v where "po_write opts" "observing w v" "policy_set env pkexec opts d p v = (code, w')" "d = None \<or> d = Some PC"
      "honest w \<Longrightarrow> nodes w PC \<noteq> None \<Longrightarrow> loaded p (pol w)"
proof -
  obtain r v where r: "wbind config_directory (\<lambda>directory.
      wbind (case directory of Some dir \<Rightarrow> unit_err (policy_load_from_directory dir) | None \<Rightarrow> wreturn default_policy) (\<lambda>policy.
      wreturn (directory, policy))) w = (r, v)" by fastforce
  note f = policy_run_frame [OF r]
  show thesis
  proof (cases r)
    case (Inl e)
    with assms r f that(1) show ?thesis by (auto simp: policy_run_def)
  next
    case (Inr dp)
    obtain d p where dp: "dp = (d, p)" by fastforce
    note reads = policy_run_reads [OF r [unfolded Inr dp]]
    show ?thesis
    proof (cases "po_write opts")
      case True
      with assms r Inr dp have "policy_set env pkexec opts d p v = (code, w')" by (simp add: policy_run_def)
      with True f reads that(3) show ?thesis by blast
    next
      case False
      with assms r Inr dp have "code = ExitSuccess (''mode='' @ mode_as_str (mode_for p (po_uid opts) (po_target opts)))" "w' = v"
        by (simp_all add: policy_run_def)
      with False f reads that(2) show ?thesis by blast
    qed
  qed
qed

lemma policy_tool_outcome:
  assumes "helper_confined env" "policy_main env args pkexec w = (code, w')"
  shows "(pol w' \<noteq> pol w \<longrightarrow> (\<exists>opts m. policy_parse_args args = Inr (Some opts) \<and> po_write opts \<and> po_mode opts = Some m
        \<and> po_uid opts \<noteq> 0 \<and> authorize_set pkexec (po_uid opts) w \<and> (m \<noteq> Off \<longrightarrow> provisioned (po_uid opts) w)
        \<and> mode_change (po_uid opts) (po_target opts) m (code \<noteq> ExitFailure) w (pol w')))
    \<and> (\<forall>opts. policy_parse_args args = Inr (Some opts) \<and> code \<noteq> ExitFailure \<and> honest w \<and> nodes w PC \<noteq> None \<longrightarrow>
        (\<exists>q. (policy_wf q \<and> policy_written q (pol w') \<or> loaded q (pol w'))
          \<and> (if po_write opts then po_mode opts = Some (mode_for q (po_uid opts) (po_target opts))
             else pol w' = pol w \<and> code = ExitSuccess (''mode='' @ mode_as_str (mode_for q (po_uid opts) (po_target opts))))))"
proof (cases "\<exists>opts. policy_parse_args args = Inr (Some opts)")
  case False
  with assms(2) have "w' = w" by (auto simp: policy_main_def split: sum.splits option.splits)
  with False show ?thesis by simp
next
  case True
  then obtain opts where o: "policy_parse_args args = Inr (Some opts)" by blast
  with assms(2) have run: "policy_run env pkexec opts w = (code, w')" by (simp add: policy_main_def)
  note uid = policy_options_uid [OF o]
  from run show ?thesis
  proof (cases rule: policy_run_cases)
    case 1
    then show ?thesis by (simp add: observing_def)
  next
    case (2 p)
    with o show ?thesis by (auto simp: observing_def)
  next
    case (3 d p v)
    show ?thesis
    proof (cases "po_mode opts")
      case None
      with 3 o show ?thesis by (auto simp: policy_set_def observing_def)
    next
      case (Some m)
      note c = policy_set_change [OF assms(1) 3(3) uid 3(4) Some]
      have v: "pol v = pol w" "honest w \<longrightarrow> honest v" using 3(2) by (auto simp: observing_def)
      have "pol w' \<noteq> pol w \<Longrightarrow> authorize_set pkexec (po_uid opts) w \<and> (m \<noteq> Off \<longrightarrow> provisioned (po_uid opts) w)
          \<and> mode_change (po_uid opts) (po_target opts) m (code \<noteq> ExitFailure) w (pol w')"
        using c(1) v 3(2) mode_change_cong [OF v] by (simp add: observing_def authorize_set_def provisioned_def)
      moreover have "\<exists>q. (policy_wf q \<and> policy_written q (pol w') \<or> loaded q (pol w')) \<and> mode_for q (po_uid opts) (po_target opts) = m"
        if h: "code \<noteq> ExitFailure" "honest w" "nodes w PC \<noteq> None"
      proof -
        have "loaded p (pol w)" using 3(5) h by blast
        with c(2) [OF h(1)] v(1) show ?thesis by (auto simp: mode_change_def one_change_def)
      qed
      ultimately show ?thesis using o Some 3(1) uid by auto
    qed
  qed
qed

text \<open>
  Claim C11: whatever call fails, the policy tool changes \<^verbatim>\<open>policy.json\<close> only for an accepted \<^verbatim>\<open>--set\<close> request that is
  authorized for its user, enables a target only for a user whose system vault and key are in place, and leaves a complete
  policy that differs from the stored one in exactly the requested entry (or the stored one, put back after a failed
  enabling). A change that reports success is in force, and a query prints the mode of the stored policy.
\<close>

theorem policy_tool_safe:
  assumes "helper_confined env" "policy_main env args pkexec w = (code, w')"
  shows "(pol w' \<noteq> pol w \<longrightarrow> (\<exists>opts m. policy_parse_args args = Inr (Some opts) \<and> po_write opts \<and> po_mode opts = Some m
        \<and> po_uid opts \<noteq> 0 \<and> authorize_set pkexec (po_uid opts) w \<and> (m \<noteq> Off \<longrightarrow> provisioned (po_uid opts) w)
        \<and> mode_change (po_uid opts) (po_target opts) m (code \<noteq> ExitFailure) w (pol w')))
    \<and> (\<forall>opts. policy_parse_args args = Inr (Some opts) \<and> code \<noteq> ExitFailure \<and> honest w \<and> nodes w PC \<noteq> None \<longrightarrow>
        (\<exists>q. (policy_wf q \<and> policy_written q (pol w') \<or> loaded q (pol w'))
          \<and> (if po_write opts then po_mode opts = Some (mode_for q (po_uid opts) (po_target opts))
             else pol w' = pol w \<and> code = ExitSuccess (''mode='' @ mode_as_str (mode_for q (po_uid opts) (po_target opts))))))"
  using assms by (rule policy_tool_outcome)

section \<open>A concrete change\<close>

text \<open>User 7 switches the only enabled target off.\<close>

definition sample_policy_env :: policy_env where
  "sample_policy_env = \<lparr>pe_pid = 1, pe_clock = (\<lambda>n. Some n), pe_spawn = (\<lambda>_ _ w. (Inr True, w))\<rparr>"

definition policy_tool_world :: world where
  "policy_tool_world = \<lparr>nodes = [
       ''/etc'' \<mapsto> root_inode Directory (oct3 7 5 5) 2 [],
       ''/etc/kfaceauth'' \<mapsto> root_inode Directory (oct3 7 5 5) 2 [],
       ''/etc/kfaceauth/keys'' \<mapsto> root_inode Directory (oct3 7 5 0) 2 [],
       ''/etc/kfaceauth/policy.json'' \<mapsto> root_inode Regular (oct3 6 4 4) 1 (text_bytes (to_json granting_policy))],
     euid = 0, egid = 0, umask = 0, group_ids = [''kfaceauth'' \<mapsto> 99, ''root'' \<mapsto> 0], next_ino = 20, stamp = 1, script = []\<rparr>"

definition profile_locked :: world where
  "profile_locked = snd (profile_operation_lock 7 policy_tool_world)"

definition policy_locked :: world where
  "policy_locked = snd (lock_child_file_nonblocking PC ''.policy.lock'' profile_locked)"

definition off_request :: "string list" where
  "off_request = [''--set'', ''--uid'', ''7'', ''--target'', ''sddm'', ''--mode'', ''off'']"

lemma sample_helper_confined: "helper_confined sample_policy_env"
  by (simp add: helper_confined_def sample_policy_env_def keeps_def stays_in_def honesty_def)

lemma seven: "u32_to_string 7 = ''7''"
  by code_simp

lemma off_request_parsed:
  "policy_parse_args off_request = Inr (Some \<lparr>po_write = True, po_uid = 7, po_target = Sddm, po_mode = Some Off\<rparr>)"
  "parse_u32 ''7'' = Some 7"
proof -
  show p: "parse_u32 ''7'' = Some 7" using parse_u32_to_string [of 7] by (simp add: seven)
  have "is_ascii_digit CHR ''7''" by code_simp
  with p have "parse_uid ''7'' = Inr 7" by (simp add: parse_uid_def seven)
  then show "policy_parse_args off_request = Inr (Some \<lparr>po_write = True, po_uid = 7, po_target = Sddm, po_mode = Some Off\<rparr>)"
    by (simp add: policy_parse_args_def off_request_def no_policy_args_def ok_or_def parse_policy_target_def selected_mode_def parse_mode_def)
qed

lemma granting_policy_file:
  "length (to_json granting_policy) \<le> 100" "set_mode granting_policy 7 Sddm Off = Inr default_policy"
  "mode_for granting_policy 7 Sddm = Manual"
  by code_simp+

lemma policy_tool_steps:
  "fst (profile_operation_lock 7 policy_tool_world) = Inr ()"
  "fst (lock_child_file_nonblocking PC ''.policy.lock'' profile_locked) = Inr ()"
  "fst (write_atomic default_policy 1 (Some 0) PC policy_locked) = Inr ()"
  by code_simp+

lemma policy_tool_nodes:
  "script policy_tool_world = []" "script policy_locked = []"
  "nodes policy_tool_world PC = Some (root_inode Directory (oct3 7 5 5) 2 [])"
  "nodes policy_locked PC = Some (root_inode Directory (oct3 7 5 5) 2 [])"
  "pol policy_tool_world = Some (root_inode Regular (oct3 6 4 4) 1 (text_bytes (to_json granting_policy)))"
  "pol policy_locked = pol policy_tool_world"
proof -
  let ?w = policy_tool_world
  show "script ?w = []" "script policy_locked = []" "nodes ?w PC = Some (root_inode Directory (oct3 7 5 5) 2 [])"
    "nodes policy_locked PC = Some (root_inode Directory (oct3 7 5 5) 2 [])" by code_simp+
  show "pol ?w = Some (root_inode Regular (oct3 6 4 4) 1 (text_bytes (to_json granting_policy)))"
    by (simp add: policy_tool_world_def production_paths_def child_def AUTH_POLICY_FILE_def)
  show "pol policy_locked = pol ?w"
    using profile_lock_frame(1) [of 7 ?w] policy_lock_frame(1) [of profile_locked]
    by (metis policy_locked_def profile_locked_def prod.collapse)
qed

lemma policy_tool_loads:
  assumes "w = policy_tool_world \<or> w = policy_locked"
  shows "policy_load_from_directory PC w = (Inr granting_policy, w)"
proof -
  let ?i = "root_inode Regular (oct3 6 4 4) 1 (text_bytes (to_json granting_policy))"
  let ?d = "root_inode Directory (oct3 7 5 5) 2 []"
  have "policy_wf granting_policy" by (simp add: granting_policy_def policy_wf_def users_wf_def targets_wf_def)
  moreover have "policy_written granting_policy (Some ?i)" by (simp add: policy_written_def root_inode_def)
  moreover have len: "length (to_json granting_policy) \<le> MAX_POLICY_BYTES"
    using granting_policy_file(1) by (simp add: MAX_POLICY_BYTES_def)
  ultimately have "parse_json (bytes_text (i_data ?i)) = Inr granting_policy" by (simp add: policy_written_parse)
  moreover have "and (oct3 6 4 4) 0xFFF = oct3 6 4 4" by (simp add: oct3_def)
  with len have "policy_metadata_ok (stat ?i)"
    by (simp add: policy_metadata_ok_def stat_def full_mode_def root_inode_def text_bytes_def)
  moreover have "script w = []" "nodes w PC = Some ?d" "pol w = Some ?i" using assms policy_tool_nodes by auto
  ultimately have "load_policy production_paths w = (Inr granting_policy, w)"
    by (intro clean_load_policy [of w ?d ?i]) (simp_all add: root_inode_def)
  then show ?thesis by (auto simp: load_policy_def wmap_err_Inr)
qed

lemma policy_tool_switches_off:
  "\<exists>w'. policy_main sample_policy_env off_request (Some ''7'') policy_tool_world = (ExitSuccess ''result=ok mode=off'', w')"
proof -
  let ?w = policy_tool_world
  have c: "config_directory ?w = (Inr (Some PC), ?w)"
  proof -
    have "nodes ?w ''/etc'' = Some (root_inode Directory (oct3 7 5 5) 2 [])" "0 \<notin> set (text_bytes ''/etc'')" by code_simp+
    moreover have "join ''/etc'' ''kfaceauth'' = PC" by (simp add: join_def production_paths_def)
    moreover have "and (oct3 7 5 5) (oct3 0 2 2) = 0" "and (oct3 7 5 5) (oct3 7 7 7) = oct3 7 5 5" by (simp_all add: oct3_def)
    ultimately show ?thesis
      using policy_tool_nodes(1,3)
      by (simp add: config_directory_def open_directory_nofollow_def open_directory_def open_child_directory_nofollow_def
          flow_defs call_defs clean_sys ok_or_def stat_def root_inode_def perm_def is_symlink_def)
  qed
  have l1: "profile_operation_lock 7 ?w = (Inr (), profile_locked)"
    using policy_tool_steps(1) by (simp add: profile_locked_def prod_eq_iff)
  have l2: "lock_child_file_nonblocking PC ''.policy.lock'' profile_locked = (Inr (), policy_locked)"
    using policy_tool_steps(2) by (simp add: policy_locked_def prod_eq_iff)
  obtain w' where w': "write_atomic default_policy 1 (Some 0) PC policy_locked = (Inr (), w')"
    using policy_tool_steps(3) by (metis prod.collapse)
  have "store_update sample_policy_env Off PC granting_policy default_policy policy_locked = (Inr (), w')"
    using w' by (simp add: store_update_def sample_policy_env_def)
  then have "policy_update sample_policy_env 7 Sddm Off PC ?w = (Inr (), w')"
    using l1 l2 policy_tool_loads [of policy_locked] granting_policy_file(2)
    by (simp add: policy_update_def merge_update_def wbind_def wmap_err_def wreturn_def wlift_def)
  moreover have "authorize_set (Some ''7'') 7 ?w" using off_request_parsed(2) by (simp add: authorize_set_def policy_tool_world_def)
  ultimately have "policy_main sample_policy_env off_request (Some ''7'') ?w = (ExitSuccess ''result=ok mode=off'', w')"
    using c policy_tool_loads [of ?w] granting_policy_file(3)
    by (simp add: policy_main_def off_request_parsed policy_run_def policy_set_def wbind_def wmap_err_def wreturn_def exit_of_def)
  then show ?thesis by blast
qed

theorem policy_tool_safe_witness:
  "\<exists>w' q. policy_main sample_policy_env off_request (Some ''7'') policy_tool_world = (ExitSuccess ''result=ok mode=off'', w')
    \<and> (policy_wf q \<and> policy_written q (pol w') \<or> loaded q (pol w')) \<and> mode_for q 7 Sddm = Off"
proof -
  obtain w' where w: "policy_main sample_policy_env off_request (Some ''7'') policy_tool_world = (ExitSuccess ''result=ok mode=off'', w')"
    using policy_tool_switches_off by blast
  have "honest policy_tool_world" "nodes policy_tool_world PC \<noteq> None" by (simp_all add: honest_def policy_tool_nodes)
  with policy_tool_safe [OF sample_helper_confined w] off_request_parsed(1) w show ?thesis by force
qed

end
