(* ===== verification/Camera_Config.thy ===== *)
theory Camera_Config
  imports Camera_Text Policy_Tool_Safety Sha256
begin

text \<open>
  The privileged camera tool, \<^verbatim>\<open>engine/templates/src/bin/kfaceauth-camera-config.rs\<close>: enumeration of the cameras, the
  protected configuration file, and the transaction that writes a selection, restarts the service and rolls back.
  The editing of the text is in \<^verbatim>\<open>Camera_Text\<close>. Directory handles are paths; errors are the strings of the source.
\<close>

section \<open>Enumeration\<close>

text \<open>
  What one enumeration sees: the entries of \<^verbatim>\<open>/dev\<close> (if it can be listed; an entry may fail), the label that the bridge
  reports for a node, the entries of \<^verbatim>\<open>/dev/v4l/by-path\<close> listed while a node is looked at, and \<^verbatim>\<open>fs::canonicalize\<close>.
\<close>

record camera_view =
  cv_dev :: "(unit + string) list option"
  cv_label :: "string \<Rightarrow> string option"
  cv_by_path :: "string \<Rightarrow> (unit + string) list option"
  cv_canonical :: "string \<Rightarrow> string option"

definition listed_names :: "(unit + string) list \<Rightarrow> string list" where
  "listed_names es = concat (map (\<lambda>e. case e of Inl _ \<Rightarrow> [] | Inr name \<Rightarrow> [name]) (take 4096 es))"

definition is_video_name :: "string \<Rightarrow> bool" where
  "is_video_name name \<longleftrightarrow> take 5 name = ''video'' \<and> drop 5 name \<noteq> [] \<and> list_all is_ascii_digit (drop 5 name)"

text \<open>The order of paths that differ in their last component only is the order of its bytes.\<close>

fun bytes_le :: "string \<Rightarrow> string \<Rightarrow> bool" where
  "bytes_le [] t = True"
| "bytes_le (c # s) [] = False"
| "bytes_le (c # s) (d # t) = (byte c < byte d \<or> c = d \<and> bytes_le s t)"

fun insert_path :: "string \<Rightarrow> string list \<Rightarrow> string list" where
  "insert_path p [] = [p]"
| "insert_path p (q # qs) = (if bytes_le p q then p # q # qs else q # insert_path p qs)"

definition sort_paths :: "string list \<Rightarrow> string list" where
  "sort_paths ps = foldr insert_path ps []"

definition stable_path :: "camera_view \<Rightarrow> string \<Rightarrow> string" where
  "stable_path v node =
     (let aliases = (case cv_by_path v node of
          None \<Rightarrow> []
        | Some es \<Rightarrow> filter (\<lambda>p. cv_canonical v p = Some node) (map (join ''/dev/v4l/by-path'') (listed_names es))) in
      case sort_paths aliases of [] \<Rightarrow> node | p # _ \<Rightarrow> p)"

definition cameras :: "camera_view \<Rightarrow> (string \<times> string) list" where
  "cameras v =
     (case cv_dev v of
        None \<Rightarrow> []
      | Some es \<Rightarrow>
          concat (map (\<lambda>node. case cv_label v node of None \<Rightarrow> [] | Some label \<Rightarrow> [(stable_path v node, label)])
            (take 128 (sort_paths (map (join ''/dev'') (filter is_video_name (listed_names es)))))))"

definition utf8_path :: "string \<Rightarrow> bool" where
  "utf8_path p \<longleftrightarrow> utf8_valid (map byte p)"

definition is_listed :: "camera_view \<Rightarrow> string \<Rightarrow> bool" where
  "is_listed v path \<longleftrightarrow> list_ex (\<lambda>(candidate, _). utf8_path candidate \<and> candidate = path) (cameras v)"

section \<open>The configuration file\<close>

definition CONFIG :: string where "CONFIG = ''kfaceauth.conf''"
definition MAX_CONFIG :: nat where "MAX_CONFIG = 65536"

abbreviation str_err :: "string \<Rightarrow> ('e, 'a) io \<Rightarrow> (string, 'a) io" where
  "str_err msg \<equiv> wmap_err (\<lambda>_. msg)"

definition validate_config_directory :: "string \<Rightarrow> u32 \<Rightarrow> (string, string) io" where
  "validate_config_directory dir uid =
     wbind (str_err ''unsafe-directory'' (fd_metadata dir)) (\<lambda>m.
     if md_uid m \<noteq> uid \<or> and (md_mode m) (oct3 0 2 2) \<noteq> 0 then wfail ''unsafe-directory'' else wreturn dir)"

definition safe_directory :: "string \<Rightarrow> u32 \<Rightarrow> (string, string) io" where
  "safe_directory path uid =
     wbind (str_err ''unsafe-directory'' (open_directory_nofollow path)) (\<lambda>_. validate_config_directory path uid)"

definition provision_config_directory :: "string \<Rightarrow> u32 \<Rightarrow> (string, string) io" where
  "provision_config_directory parent owner w =
     (case create_dir (join parent ''kfaceauth'') w of
        (r, w1) \<Rightarrow>
          wbind (case r of
              Inr _ \<Rightarrow> str_err ''unsafe-directory'' (sync_all parent)
            | Inl k \<Rightarrow> if k = AlreadyExists then wreturn () else wfail ''unsafe-directory'') (\<lambda>_.
          wbind (str_err ''unsafe-directory'' (open_child_directory_nofollow parent ''kfaceauth'')) (\<lambda>_.
          validate_config_directory (join parent ''kfaceauth'') owner)) w1)"

definition config_metadata_ok :: "u32 \<Rightarrow> metadata \<Rightarrow> bool" where
  "config_metadata_ok uid m \<longleftrightarrow> md_kind m = Regular \<and> md_uid m = uid \<and> md_nlink m = 1
     \<and> and (md_mode m) (oct3 0 2 2) = 0 \<and> md_len m \<le> MAX_CONFIG"

definition config_unchanged :: "metadata \<Rightarrow> metadata \<Rightarrow> metadata \<Rightarrow> bool" where
  "config_unchanged m after current \<longleftrightarrow> md_dev m = md_dev current \<and> md_ino m = md_ino current
     \<and> md_len m = md_len after \<and> md_mtime m = md_mtime after \<and> md_ctime m = md_ctime after"

definition read_config_file :: "string \<Rightarrow> u32 \<Rightarrow> (string, string option) io" where
  "read_config_file dir uid =
     (let p = join dir CONFIG in
      wbind (str_err ''unsafe-config'' (open_child_file_nofollow dir CONFIG)) (\<lambda>_.
      wbind (str_err ''unsafe-config'' (fd_metadata p)) (\<lambda>m.
      if \<not> config_metadata_ok uid m then wfail ''unsafe-config''
      else wbind (str_err ''unreadable-config'' (read_limited p (MAX_CONFIG + 1))) (\<lambda>bs.
      if length bs > MAX_CONFIG \<or> \<not> utf8_valid (map byte (bytes_text bs)) then wfail ''invalid-config''
      else wbind (str_err ''unsafe-config'' (fd_metadata p)) (\<lambda>after.
      wbind (str_err ''unsafe-config'' (open_child_file_nofollow dir CONFIG)) (\<lambda>_.
      wbind (str_err ''unsafe-config'' (fd_metadata p)) (\<lambda>current.
      if \<not> config_unchanged m after current then wfail ''unsafe-config''
      else wreturn (Some (bytes_text bs)))))))))"

definition read_config :: "string \<Rightarrow> u32 \<Rightarrow> (string, string option) io" where
  "read_config dir uid = (\<lambda>w.
     case symlink_metadata (join dir CONFIG) w of
       (Inl k, w') \<Rightarrow> (if k = NotFound then wreturn None else read_config_file dir uid) w'
     | (Inr _, w') \<Rightarrow> read_config_file dir uid w')"

definition change_inode :: "string \<Rightarrow> (inode \<Rightarrow> inode) \<Rightarrow> (io_kind, unit) io" where
  "change_inode p f = sys (\<lambda>w. (Inr (), fs_update p f w))"

definition set_mode_of :: "string \<Rightarrow> u32 \<Rightarrow> (io_kind, unit) io" where
  "set_mode_of p mode = change_inode p (\<lambda>i. i\<lparr>i_mode := mode\<rparr>)"

definition chown_group :: "string \<Rightarrow> u32 \<Rightarrow> (io_kind, unit) io" where
  "chown_group p gid = change_inode p (\<lambda>i. i\<lparr>i_gid := gid\<rparr>)"

definition inherit_metadata :: "string \<Rightarrow> metadata option \<Rightarrow> (io_kind, unit) io" where
  "inherit_metadata tmp previous =
     (case previous of
        Some m \<Rightarrow> wbind (chown_group tmp (md_gid m)) (\<lambda>_. set_mode_of tmp (perm m))
      | None \<Rightarrow> set_mode_of tmp (oct3 6 4 4))"

definition stage_config :: "string \<Rightarrow> string \<Rightarrow> bytes \<Rightarrow> metadata option \<Rightarrow> (string, unit) io" where
  "stage_config dir tmp bs previous =
     wbind (str_err ''staging-failed'' (create_new tmp (oct3 6 0 0))) (\<lambda>_.
     wbind (str_err ''staging-failed'' (write_all_file tmp bs)) (\<lambda>_.
     wbind (str_err ''staging-failed'' (inherit_metadata tmp previous)) (\<lambda>_.
     wbind (str_err ''staging-failed'' (sync_all tmp)) (\<lambda>_.
     wbind (str_err ''install-failed'' (rename_file tmp (join dir CONFIG))) (\<lambda>_.
     str_err ''install-failed'' (sync_all dir))))))"

definition config_staging :: "string \<Rightarrow> nat \<Rightarrow> string" where
  "config_staging dir pid = join dir (''.camera-config-'' @ show_nat pid @ ''.tmp'')"

definition config_atomic_write :: "nat \<Rightarrow> string \<Rightarrow> string option \<Rightarrow> (string, unit) io" where
  "config_atomic_write pid dir content w =
     (case content of
        Some s \<Rightarrow>
          wcleanup (\<lambda>w. case symlink_metadata (join dir CONFIG) w of
              (Inl _, w') \<Rightarrow> stage_config dir (config_staging dir pid) (text_bytes s) None w'
            | (Inr m, w') \<Rightarrow> stage_config dir (config_staging dir pid) (text_bytes s) (Some m) w')
            (remove_file (config_staging dir pid)) w
      | None \<Rightarrow>
          (case remove_file (join dir CONFIG) w of
             (Inr _, w') \<Rightarrow> str_err ''rollback-failed'' (sync_all dir) w'
           | (Inl k, w') \<Rightarrow> (if k = NotFound then wreturn () else wfail ''rollback-failed'') w'))"

section \<open>The service\<close>

text \<open>
  One run of \<^verbatim>\<open>systemctl\<close>: whether it starts, what the polls of the child see, and the time elapsed at each poll, in
  milliseconds. \<open>None\<close> means that the polls given by the fuel were not enough.
\<close>

record service_run =
  sv_started :: bool
  sv_poll :: "nat \<Rightarrow> unit + bool option"
  sv_elapsed :: "nat \<Rightarrow> nat"

fun service_loop :: "nat \<Rightarrow> service_run \<Rightarrow> nat \<Rightarrow> (string + bool) option" where
  "service_loop 0 c i = None"
| "service_loop (Suc fuel) c i =
     (case sv_poll c i of
        Inl _ \<Rightarrow> Some (Inl ''service-failed'')
      | Inr (Some success) \<Rightarrow> Some (Inr success)
      | Inr None \<Rightarrow>
          if sv_elapsed c i \<ge> 15000 then Some (Inl ''service-timeout'') else service_loop fuel c (Suc i))"

definition service :: "nat \<Rightarrow> service_run \<Rightarrow> (string + bool) option" where
  "service fuel c = (if \<not> sv_started c then Some (Inl ''service-failed'') else service_loop fuel c 0)"

section \<open>The transaction\<close>

text \<open>\<open>sv\<close> is the service closure of the source with its effect on the filesystem; \<open>valid\<close> is the answer of \<^verbatim>\<open>validate\<close>.\<close>

definition apply_config ::
    "nat \<Rightarrow> string \<Rightarrow> u32 \<Rightarrow> string \<Rightarrow> (string \<Rightarrow> (string, bool) io) \<Rightarrow> bool \<Rightarrow> (string, unit) io" where
  "apply_config pid dir owner next_text sv valid =
     wbind (config_atomic_write pid dir (Some next_text)) (\<lambda>_.
     wbind (sv ''restart'') (\<lambda>restarted.
     wbind (if \<not> restarted then wreturn False else sv ''is-active'') (\<lambda>active.
     if \<not> active then wfail ''service-failed''
     else if \<not> valid then wfail ''unavailable-selection''
     else wbind (read_config dir owner) (\<lambda>now.
       if now \<noteq> Some next_text then wfail ''readback-failed'' else wreturn ()))))"

definition restore_config ::
    "nat \<Rightarrow> string \<Rightarrow> u32 \<Rightarrow> string option \<Rightarrow> (string \<Rightarrow> (string, bool) io) \<Rightarrow> bool \<Rightarrow> (string, unit) io" where
  "restore_config pid dir owner previous sv was_active =
     wbind (config_atomic_write pid dir previous) (\<lambda>_.
     wbind (sv (if was_active then ''restart'' else ''stop'')) (\<lambda>ok.
     if \<not> ok then wfail ''rollback-failed''
     else wbind (sv ''is-active'') (\<lambda>active.
       if active \<noteq> was_active then wfail ''rollback-failed''
       else wbind (read_config dir owner) (\<lambda>now.
         if now \<noteq> previous then wfail ''rollback-failed'' else wreturn ()))))"

definition transaction ::
    "nat \<Rightarrow> string \<Rightarrow> u32 \<Rightarrow> string option \<Rightarrow> (string \<Rightarrow> (string, bool) io) \<Rightarrow> bool \<Rightarrow> (string, unit) io" where
  "transaction pid dir owner desired sv valid =
     wbind (read_config dir owner) (\<lambda>previous.
     wbind (wlift (replacement (case previous of None \<Rightarrow> [] | Some s \<Rightarrow> s) desired)) (\<lambda>next_text.
     wbind (sv ''is-active'') (\<lambda>was_active w.
       case apply_config pid dir owner next_text sv valid w of
         (Inr _, w1) \<Rightarrow> (Inr (), w1)
       | (Inl e, w1) \<Rightarrow>
           (case restore_config pid dir owner previous sv was_active w1 of
              (r, w2) \<Rightarrow> (Inl (if is_ok r then e else ''rollback-failed''), w2)))))"

section \<open>The program\<close>

definition camera_authorized :: "string option \<Rightarrow> u32 \<Rightarrow> bool" where
  "camera_authorized pkexec e \<longleftrightarrow> e = 0
     \<and> (case pkexec of
          None \<Rightarrow> False
        | Some s \<Rightarrow> (case parse_u32 s of None \<Rightarrow> False | Some u \<Rightarrow> u > 0 \<and> u32_to_string u = s))"

definition camera_hex :: "string \<Rightarrow> string" where
  "camera_hex s = hex_of (text_bytes s)"

definition device_lines :: "(string \<times> string) list \<Rightarrow> string list" where
  "device_lines ds =
     concat (map (\<lambda>(path, label).
       if utf8_path path then [''device '' @ camera_hex path @ '' '' @ camera_hex label] else []) ds)"

text \<open>The line for the stored selection: an alias of a listed camera is shown as the listed path.\<close>

definition selected_line :: "camera_view \<Rightarrow> string + string option \<Rightarrow> string" where
  "selected_line v selected =
     (case selected of
        Inl _ \<Rightarrow> ''unknown''
      | Inr None \<Rightarrow> ''automatic''
      | Inr (Some path) \<Rightarrow>
          (let canonical = cv_canonical v path;
               matching = find (\<lambda>(candidate, _). canonical \<noteq> None \<and> cv_canonical v candidate = canonical) (cameras v);
               display = (case matching of
                   Some (candidate, _) \<Rightarrow> if utf8_path candidate then candidate else path
                 | None \<Rightarrow> path) in
           ''selected '' @ camera_hex display))"

definition camera_list :: "camera_view \<Rightarrow> (string, string list) io" where
  "camera_list v w =
     (case wbind (safe_directory ''/etc/kfaceauth'' 0) (\<lambda>dir. read_config dir 0) w of
        (r, w') \<Rightarrow>
          (Inr ([''KFCAMERA1'', selected_line v (rbind r (\<lambda>s. setting (case s of None \<Rightarrow> [] | Some s \<Rightarrow> s)))]
             @ device_lines (cameras v)), w'))"

text \<open>Standard input up to 4097 bytes, if it can be read.\<close>

definition parse_selection :: "camera_view \<Rightarrow> unit + string \<Rightarrow> string + string" where
  "parse_selection v stdin =
     (case stdin of
        Inl _ \<Rightarrow> Inl ''invalid-selection''
      | Inr all \<Rightarrow>
          (let input = take 4097 all in
           if \<not> utf8_valid (map byte input) then Inl ''invalid-selection''
           else
             (let path = (case strip_suffix_char NL input of None \<Rightarrow> input | Some s \<Rightarrow> s) in
              if length path > 4096
                \<or> list_ex (\<lambda>c. c \<in> set [NL, CHR 0x0D, CHR 0x00, CHR ''='', CHR 0x22, CHR 0x27, CHR '' '', CHR 0x09]) path
              then Inl ''invalid-selection''
              else if \<not> is_listed v path then Inl ''unavailable-selection''
              else Inr path)))"

text \<open>
  The surroundings of one run: the process id, the enumerations in the order of the calls, standard input, and what the
  service closure does.
\<close>

record camera_env =
  ce_pid :: nat
  ce_view :: "nat \<Rightarrow> camera_view"
  ce_stdin :: "unit + string"
  ce_service :: "string \<Rightarrow> (string, bool) io"

definition desired_selection :: "camera_env \<Rightarrow> string \<Rightarrow> string + string option" where
  "desired_selection env op_arg =
     (if op_arg = ''--reset'' then Inr None
      else if op_arg = ''--set'' then map_sum id Some (parse_selection (ce_view env 0) (ce_stdin env))
      else Inl ''invalid-operation'')"

definition select_camera :: "camera_env \<Rightarrow> string option \<Rightarrow> (string, string list) io" where
  "select_camera env desired =
     wbind (safe_directory ''/etc'' 0) (\<lambda>parent.
     wbind (provision_config_directory parent 0) (\<lambda>dir.
     wbind (str_err ''busy'' (lock_child_file_nonblocking dir ''.camera-config.lock'')) (\<lambda>_.
     if (case desired of None \<Rightarrow> False | Some path \<Rightarrow> \<not> is_listed (ce_view env 1) path) then wfail ''unavailable-selection''
     else wbind (transaction (ce_pid env) dir 0 desired (ce_service env)
         (case desired of None \<Rightarrow> True | Some path \<Rightarrow> is_listed (ce_view env 2) path)) (\<lambda>_.
       wreturn ([''KFCAMERA1'', case desired of Some path \<Rightarrow> ''selected '' @ camera_hex path | None \<Rightarrow> ''automatic'']
         @ device_lines (cameras (ce_view env 3)))))))"

definition camera_run :: "camera_env \<Rightarrow> string list \<Rightarrow> string option \<Rightarrow> (string, string list) io" where
  "camera_run env args pkexec w =
     (case args of
        [op_arg] \<Rightarrow>
          if \<not> camera_authorized pkexec (euid w) then wfail ''unauthorized'' w
          else if op_arg = ''--list'' then camera_list (ce_view env 0) w
          else wbind (wlift (desired_selection env op_arg)) (select_camera env) w
      | _ \<Rightarrow> wfail ''invalid-operation'' w)"

end
