(* ===== verification/Camera_Safety.thy ===== *)
theory Camera_Safety
  imports Camera_Config
begin

text \<open>
  What the camera tool guarantees: the configuration file is replaced as a whole or not at all, a change is kept only if
  the service runs with it and it reads back, a failed change is undone, and everything else in the file stays.
\<close>

section \<open>Reading\<close>

definition config_text :: "string \<Rightarrow> world \<Rightarrow> string option" where
  "config_text dir w = map_option (\<lambda>i. bytes_text (i_data i)) (nodes w (join dir CONFIG))"

lemma observes_read_config_file [observe_rules]: "observes (read_config_file dir uid)"
  unfolding read_config_file_def Let_def by (intro observe_rules)

lemma observes_read_config [observe_rules]: "observes (read_config dir uid)"
  unfolding read_config_def by (intro observe_rules lookup_then_observes)

lemma read_config_file_Inr:
  assumes "read_config_file dir uid w = (Inr b, w')"
  shows "b \<noteq> None \<and> b = config_text dir w"
proof -
  let ?p = "join dir CONFIG"
  from assms obtain v1 m v2 bs v3 where s: "nodes v1 = nodes w" "fd_metadata ?p v1 = (Inr m, v2)" "config_metadata_ok uid m"
    "read_limited ?p (MAX_CONFIG + 1) v2 = (Inr bs, v3)" "b = Some (bytes_text bs)"
    unfolding read_config_file_def Let_def
    by (auto simp: io_success wguard_Inr observing_def dest!: stays_inD [OF observes_calls(6)] split: if_splits)
  obtain i where i: "nodes v1 ?p = Some i" "m = stat i" using metadata_Inr(2) [OF s(2)] by auto
  have "length (i_data i) \<le> MAX_CONFIG" using s(3) i(2) by (simp add: config_metadata_ok_def stat_def)
  moreover have "nodes v2 = nodes v1" using stays_inD [OF observes_calls(1) s(2)] by (simp add: observing_def)
  ultimately have "bs = i_data i" using read_limited_Inr(2) [OF s(4)] i(1) by auto
  with s(1,5) i(1) show ?thesis by (simp add: config_text_def)
qed

lemma read_config_Inr:
  assumes "read_config dir uid w = (Inr b, w')"
  shows "b = Some t \<Longrightarrow> config_text dir w = Some t" "honest w \<Longrightarrow> b = config_text dir w"
proof -
  let ?p = "join dir CONFIG"
  obtain q v where q: "symlink_metadata ?p w = (q, v)" by fastforce
  have n: "nodes v = nodes w" using stays_inD [OF observes_calls(2) q] by (simp add: observing_def)
  have f: "b = config_text dir w" if "read_config_file dir uid v = (Inr b, w')"
    using read_config_file_Inr [OF that] n by (simp add: config_text_def)
  have c: "(q = Inl NotFound \<and> b = None) \<or> b = config_text dir w"
  proof (cases "q = Inl NotFound")
    case True
    with assms q show ?thesis by (simp add: read_config_def wreturn_Inr)
  next
    case False
    then have "read_config_file dir uid v = (Inr b, w')" using assms q by (cases q) (simp_all add: read_config_def)
    with f show ?thesis by simp
  qed
  show "b = Some t \<Longrightarrow> config_text dir w = Some t" using c by auto
  show "honest w \<Longrightarrow> b = config_text dir w" using c q absent_if_not_found [of ?p w v] by (auto simp: config_text_def)
qed

section \<open>Writing\<close>

lemma honest_writes [honest_rules]:
  "stays_honest (create_new p mode)" "stays_honest (rename_file a b)" "stays_honest (remove_file p)" "stays_honest (sync_all p)"
  "stays_honest (change_inode p f)" "stays_honest (create_dir p)"
  unfolding create_new_def rename_file_def remove_file_def sync_all_def change_inode_def create_dir_def
  by (rule honest_sys, auto split: option.split)+

lemma honest_write_all_file [honest_rules]: "stays_honest (write_all_file p bs)"
  by (auto simp: stays_honest_def honest_def write_all_file_def pop_fault_def fs_update_def
      split: prod.split list.split option.split fault.split)

lemma honest_cleanup [honest_rules]: "stays_honest m \<Longrightarrow> stays_honest c \<Longrightarrow> stays_honest (wcleanup m c)"
  by (auto simp: stays_honest_def wcleanup_def split: prod.split sum.split)

lemma honest_inherit [honest_rules]: "stays_honest (inherit_metadata tmp m)"
  unfolding inherit_metadata_def chown_group_def set_mode_of_def by (cases m) (simp_all add: honest_rules)

lemma honest_config_atomic_write: "stays_honest (config_atomic_write pid dir content)"
proof (cases content)
  case None
  have k: "stays_honest (str_err ''rollback-failed'' (sync_all dir))"
    "stays_honest (if k = NotFound then wreturn () else wfail ''rollback-failed'')" for k by (intro honest_rules)+
  have "stays_honest (\<lambda>w. case remove_file (join dir CONFIG) w of
      (Inr _, w') \<Rightarrow> str_err ''rollback-failed'' (sync_all dir) w'
    | (Inl k, w') \<Rightarrow> (if k = NotFound then wreturn () else wfail ''rollback-failed'') w')"
    unfolding stays_in_def
  proof
    fix w
    obtain q v where q: "remove_file (join dir CONFIG) w = (q, v)" by fastforce
    have "honesty w v" by (rule stays_inD [OF honest_writes(3) q])
    then show "honesty w (snd (case remove_file (join dir CONFIG) w of
      (Inr _, w') \<Rightarrow> str_err ''rollback-failed'' (sync_all dir) w'
    | (Inl k, w') \<Rightarrow> (if k = NotFound then wreturn () else wfail ''rollback-failed'') w'))"
      using k [unfolded stays_in_def, THEN spec, of v] by (cases q) (simp_all add: q honesty_def)
  qed
  with None show ?thesis by (simp add: config_atomic_write_def [abs_def])
next
  case (Some s)
  have "stays_honest (stage_config dir tmp bs p)" for tmp bs p unfolding stage_config_def by (intro honest_rules)
  then have "stays_honest (wcleanup (\<lambda>w. case symlink_metadata (join dir CONFIG) w of
              (Inl _, w') \<Rightarrow> stage_config dir (config_staging dir pid) (text_bytes s) None w'
            | (Inr m, w') \<Rightarrow> stage_config dir (config_staging dir pid) (text_bytes s) (Some m) w')
            (remove_file (config_staging dir pid)))"
    by (intro honest_rules lookup_then_honest)
  with Some show ?thesis by (simp add: config_atomic_write_def [abs_def])
qed

lemma change_inode_Inr:
  "change_inode p f w = (Inr u, w') \<Longrightarrow> nodes w p = Some i \<Longrightarrow> \<exists>s. nodes w' p = Some ((f i)\<lparr>i_stamp := s\<rparr>)"
  unfolding change_inode_def by (auto dest!: sys_Inr simp: fs_update_def)

lemma inherit_metadata_Inr:
  assumes "inherit_metadata tmp m w = (Inr u, w')" "nodes w tmp = Some i"
  shows "\<exists>j. nodes w' tmp = Some j \<and> i_data j = i_data i \<and> i_kind j = i_kind i"
  using assms
  by (cases m) (force simp: inherit_metadata_def chown_group_def set_mode_of_def wbind_Inr dest!: change_inode_Inr)+

lemma keeps_change_inode: "p \<notin> P \<Longrightarrow> keeps P (change_inode p f)"
  unfolding change_inode_def by (rule keeps_sys) (auto intro!: nodes_fs_update)

lemma keeps_inherit: "tmp \<notin> P \<Longrightarrow> keeps P (inherit_metadata tmp m)"
  unfolding inherit_metadata_def chown_group_def set_mode_of_def by (cases m) (auto intro!: keeps_rules keeps_change_inode)

definition holds_text :: "bytes \<Rightarrow> inode option \<Rightarrow> bool" where
  "holds_text bs n \<longleftrightarrow> (\<exists>i. n = Some i \<and> i_data i = bs)"

lemma aon_stage_config:
  assumes "tmp \<noteq> join dir CONFIG"
  shows "all_or_nothing n (join dir CONFIG) (holds_text bs) (stage_config dir tmp bs m)"
proof -
  let ?f = "join dir CONFIG"
  let ?at = "\<lambda>P w. \<exists>i. nodes w tmp = Some i \<and> i_kind i = Regular \<and> P (i_data i)"
  have k: "keeps {?f} (create_new tmp md)" "keeps {?f} (write_all_file tmp bs)" "keeps {?f} (inherit_metadata tmp m)" for md
    using assms by (auto intro!: keeps_rules keeps_inherit)
  have ren: "aon_from (?at (\<lambda>d. d = bs)) n ?f (holds_text bs)
      (wbind (str_err ''install-failed'' (rename_file tmp ?f)) (\<lambda>_. str_err ''install-failed'' (sync_all dir)))"
    unfolding aon_from_def
  proof (intro allI impI)
    fix w r w'
    assume at: "?at (\<lambda>d. d = bs) w" and n: "nodes w ?f = n"
      and a: "wbind (str_err ''install-failed'' (rename_file tmp ?f)) (\<lambda>_. str_err ''install-failed'' (sync_all dir)) w = (r, w')"
    have "aon_from (?at (\<lambda>d. d = bs)) n ?f (holds_text bs) (wbind (rename_file tmp ?f) (\<lambda>_. sync_all dir))"
      using assms by (intro aon_from_rename keeps_rules) (auto simp: holds_text_def)
    moreover obtain r0 where "wbind (rename_file tmp ?f) (\<lambda>_. sync_all dir) w = (r0, w')" "is_ok r0 = is_ok r"
      using a by (auto simp: wbind_def wmap_err_def map_err_def is_ok_def split: prod.splits sum.splits)
    ultimately show "(is_ok r \<longrightarrow> holds_text bs (nodes w' ?f)) \<and> (nodes w' ?f = n \<or> holds_text bs (nodes w' ?f))"
      using at n unfolding aon_from_def by blast
  qed
  show ?thesis
    unfolding stage_config_def aon_from_True [symmetric]
  proof (rule aon_from_step [OF keeps_wmap_err [OF k(1)], where R = "?at (\<lambda>d. d = [])"])
    show "aon_from (?at (\<lambda>d. d = [])) n ?f (holds_text bs)
      (wbind (str_err ''staging-failed'' (write_all_file tmp bs)) (\<lambda>_.
       wbind (str_err ''staging-failed'' (inherit_metadata tmp m)) (\<lambda>_.
       wbind (str_err ''staging-failed'' (sync_all tmp)) (\<lambda>_.
       wbind (str_err ''install-failed'' (rename_file tmp ?f)) (\<lambda>_.
       str_err ''install-failed'' (sync_all dir))))))"
    proof (rule aon_from_step [OF keeps_wmap_err [OF k(2)], where R = "?at (\<lambda>d. d = bs)"])
      show "aon_from (?at (\<lambda>d. d = bs)) n ?f (holds_text bs)
       (wbind (str_err ''staging-failed'' (inherit_metadata tmp m)) (\<lambda>_.
       wbind (str_err ''staging-failed'' (sync_all tmp)) (\<lambda>_.
       wbind (str_err ''install-failed'' (rename_file tmp ?f)) (\<lambda>_.
       str_err ''install-failed'' (sync_all dir)))))"
      proof (rule aon_from_step [OF keeps_wmap_err [OF k(3)], where R = "?at (\<lambda>d. d = bs)"])
        show "aon_from (?at (\<lambda>d. d = bs)) n ?f (holds_text bs)
          (wbind (str_err ''staging-failed'' (sync_all tmp)) (\<lambda>_.
           wbind (str_err ''install-failed'' (rename_file tmp ?f)) (\<lambda>_. str_err ''install-failed'' (sync_all dir))))"
          by (rule aon_from_step [OF keeps_wmap_err [OF keeps_queries(5)] _ ren])
            (simp add: wmap_err_Inr, metis keeps_all_nodes [OF keeps_queries(5)] snd_conv)
      qed (auto simp: wmap_err_Inr dest!: inherit_metadata_Inr)
    qed (auto simp: wmap_err_Inr dest!: write_all_file_Inr)
  qed (auto simp: wmap_err_Inr dest!: create_new_Inr(2))
qed


lemma config_staging_neq: "config_staging dir pid \<noteq> join dir CONFIG"
  by (simp add: config_staging_def join_def CONFIG_def)

interpretation config_file: atomic_store "\<lambda>_ s. stage_config dir (config_staging dir pid) (text_bytes s) m" "join dir CONFIG"
    "\<lambda>s. holds_text (text_bytes s)" for dir pid m
  by unfold_locales (rule aon_stage_config [OF config_staging_neq])

lemma config_write_text:
  assumes "config_atomic_write pid dir (Some s) w = (r, w')"
  shows "config_text dir w' = config_text dir w \<or> config_text dir w' = Some s"
proof -
  let ?f = "join dir CONFIG" and ?t = "config_staging dir pid"
  obtain q v where q: "symlink_metadata ?f w = (q, v)" by fastforce
  define m where "m = (case q of Inl _ \<Rightarrow> None | Inr m \<Rightarrow> Some m)"
  obtain r1 v1 where st: "stage_config dir ?t (text_bytes s) m v = (r1, v1)" by fastforce
  have n: "nodes v ?f = nodes w ?f" using stays_inD [OF observes_calls(2) q] by (simp add: observing_def)
  have "nodes v1 ?f = nodes w ?f \<or> holds_text (text_bytes s) (nodes v1 ?f)"
    using config_file.store_outcome [OF st] n by auto
  moreover have "keeps {?f} (remove_file ?t)" using config_staging_neq by (auto intro!: keeps_rules)
  then have "nodes (snd (remove_file ?t v1)) ?f = nodes v1 ?f" by (simp add: keeps_def)
  moreover have "w' = v1 \<or> w' = snd (remove_file ?t v1)"
    using assms q st by (cases q; cases r1) (auto simp: config_atomic_write_def wcleanup_def m_def)
  ultimately show ?thesis by (auto simp: config_text_def holds_text_def)
qed

lemma config_remove_text:
  assumes "config_atomic_write pid dir None w = (r, w')"
  shows "config_text dir w' = config_text dir w \<or> config_text dir w' = None"
proof -
  let ?f = "join dir CONFIG"
  obtain q v where q: "remove_file ?f w = (q, v)" by fastforce
  have "nodes v ?f = nodes w ?f \<or> nodes v ?f = None"
  proof -
    obtain x u where "pop_fault w = (x, u)" by fastforce
    with q nodes_pop_fault [OF this] show ?thesis
      by (auto simp: remove_file_def sys_def split: option.splits fault.splits if_splits)
  qed
  moreover have "nodes (snd (str_err ''rollback-failed'' (sync_all dir) v)) ?f = nodes v ?f"
    by (rule keepsD [OF keeps_wmap_err [OF keeps_queries(5)], of _ UNIV]) simp
  then have "nodes w' ?f = nodes v ?f"
    using assms q by (cases q) (auto simp: config_atomic_write_def wreturn_def wfail_def split: if_splits)
  ultimately show ?thesis by (auto simp: config_text_def)
qed

lemma config_write_outcome:
  assumes "config_atomic_write pid dir content w = (r, w')"
  shows "config_text dir w' = config_text dir w \<or> config_text dir w' = content" "honest w \<Longrightarrow> honest w'"
  using assms config_write_text config_remove_text stays_inD [OF honest_config_atomic_write assms]
  by (cases content; auto simp: honesty_def)+

section \<open>The transaction\<close>

text \<open>The service manager is trusted to leave the configuration file alone.\<close>

definition service_confined :: "string \<Rightarrow> (string \<Rightarrow> (string, bool) io) \<Rightarrow> bool" where
  "service_confined dir sv \<longleftrightarrow> (\<forall>a. keeps {join dir CONFIG} (sv a) \<and> stays_honest (sv a))"

text \<open>The configuration is one of two texts, and the world reports absence honestly.\<close>

definition config_in :: "string \<Rightarrow> string option set \<Rightarrow> world \<Rightarrow> bool" where
  "config_in dir T w \<longleftrightarrow> honest w \<and> config_text dir w \<in> T"

lemma config_in_step:
  assumes "config_in dir T w" "m w = (r, w')" "keeps {join dir CONFIG} m" "stays_honest m"
  shows "config_in dir T w'" "config_text dir w' = config_text dir w"
  using assms(1) keepsD [OF assms(3), of "join dir CONFIG" w] stays_inD [OF assms(4,2)] assms(2)
  by (simp_all add: config_in_def honesty_def config_text_def)

lemma config_in_service:
  assumes "service_confined dir sv" "config_in dir T w" "sv a w = (r, w')"
  shows "config_in dir T w'" "config_text dir w' = config_text dir w"
  using config_in_step [of dir T w "sv a" r w'] assms by (auto simp: service_confined_def)

lemma config_in_read:
  assumes "config_in dir T w" "read_config dir uid w = (r, w')"
  shows "config_in dir T w'" "config_text dir w' = config_text dir w" "r = Inr b \<Longrightarrow> b = config_text dir w"
proof -
  have o: "observing w w'" using stays_inD [OF observes_read_config assms(2)] .
  with assms(1) show "config_in dir T w'" "config_text dir w' = config_text dir w"
    by (auto simp: config_in_def observing_def config_text_def)
  show "r = Inr b \<Longrightarrow> b = config_text dir w" using read_config_Inr(2) [of dir uid w b w'] assms by (simp add: config_in_def)
qed

lemma apply_config_outcome:
  assumes "service_confined dir sv" "config_in dir {old, Some next_text} w" "apply_config pid dir owner next_text sv valid w = (r, w')"
  shows "config_in dir {old, Some next_text} w'" "r = Inr u \<Longrightarrow> config_text dir w' = Some next_text \<and> valid"
proof -
  let ?in = "config_in dir {old, Some next_text}"
  obtain r1 w1 where a: "config_atomic_write pid dir (Some next_text) w = (r1, w1)" by fastforce
  obtain r2 w2 where b: "sv ''restart'' w1 = (r2, w2)" by fastforce
  obtain r3 w3 where c: "sv ''is-active'' w2 = (r3, w3)" by fastforce
  obtain r4 w4 where d: "read_config dir owner w3 = (r4, w4)" by fastforce
  have 1: "?in w1" using config_write_outcome [OF a] assms(2) by (auto simp: config_in_def)
  note 2 = config_in_service [OF assms(1) 1 b]
  note 3 = config_in_service [OF assms(1) 2(1) c]
  note 4 = config_in_read [OF 3(1) d]
  have run: "(r, w') = (case r1 of Inl e \<Rightarrow> (Inl e, w1) | Inr _ \<Rightarrow> (case r2 of Inl e \<Rightarrow> (Inl e, w2) | Inr restarted \<Rightarrow>
      if \<not> restarted then (Inl ''service-failed'', w2) else (case r3 of Inl e \<Rightarrow> (Inl e, w3) | Inr active \<Rightarrow>
        if \<not> active then (Inl ''service-failed'', w3) else if \<not> valid then (Inl ''unavailable-selection'', w3)
        else (case r4 of Inl e \<Rightarrow> (Inl e, w4) | Inr now \<Rightarrow>
          if now \<noteq> Some next_text then (Inl ''readback-failed'', w4) else (Inr (), w4)))))"
    unfolding assms(3) [symmetric]
    by (simp add: apply_config_def wbind_def a b c d wfail_def wreturn_def split: sum.split)
  have "w' \<in> {w1, w2, w3, w4}" using run by (auto split: sum.splits if_splits)
  with 1 2 3 4 show "?in w'" by auto
  show "r = Inr u \<Longrightarrow> config_text dir w' = Some next_text \<and> valid"
    using run 4(2,3) by (auto split: sum.splits if_splits)
qed

lemma restore_config_outcome:
  assumes "service_confined dir sv" "config_in dir {old, Some next_text} w" "restore_config pid dir owner old sv active w = (r, w')"
  shows "config_in dir {old, Some next_text} w'" "is_ok r \<Longrightarrow> config_text dir w' = old"
proof -
  let ?in = "config_in dir {old, Some next_text}"
  obtain r1 w1 where a: "config_atomic_write pid dir old w = (r1, w1)" by fastforce
  obtain r2 w2 where b: "sv (if active then ''restart'' else ''stop'') w1 = (r2, w2)" by fastforce
  obtain r3 w3 where c: "sv ''is-active'' w2 = (r3, w3)" by fastforce
  obtain r4 w4 where d: "read_config dir owner w3 = (r4, w4)" by fastforce
  have 1: "?in w1" using config_write_outcome [OF a] assms(2) by (auto simp: config_in_def)
  note 2 = config_in_service [OF assms(1) 1 b]
  note 3 = config_in_service [OF assms(1) 2(1) c]
  note 4 = config_in_read [OF 3(1) d]
  have run: "(r, w') = (case r1 of Inl e \<Rightarrow> (Inl e, w1) | Inr _ \<Rightarrow> (case r2 of Inl e \<Rightarrow> (Inl e, w2) | Inr ok \<Rightarrow>
      if \<not> ok then (Inl ''rollback-failed'', w2) else (case r3 of Inl e \<Rightarrow> (Inl e, w3) | Inr now_active \<Rightarrow>
        if now_active \<noteq> active then (Inl ''rollback-failed'', w3)
        else (case r4 of Inl e \<Rightarrow> (Inl e, w4) | Inr now \<Rightarrow> if now \<noteq> old then (Inl ''rollback-failed'', w4) else (Inr (), w4)))))"
    unfolding assms(3) [symmetric]
    by (simp only: restore_config_def wbind_def a b c d prod.case)
      (simp add: wbind_def c d wfail_def wreturn_def split: sum.split)
  have "w' \<in> {w1, w2, w3, w4}" using run by (auto split: sum.splits if_splits)
  with 1 2 3 4 show "?in w'" by auto
  show "is_ok r \<Longrightarrow> config_text dir w' = old" using run 4(2,3) by (auto split: sum.splits if_splits)
qed


definition edited :: "string option \<Rightarrow> string option \<Rightarrow> string \<Rightarrow> bool" where
  "edited old desired next_text \<longleftrightarrow> replacement (case old of None \<Rightarrow> [] | Some s \<Rightarrow> s) desired = Inr next_text"

lemma transaction_outcome:
  assumes "service_confined dir sv" "transaction pid dir owner desired sv valid w = (r, w')" "honest w"
  shows "config_text dir w' = config_text dir w \<or> (\<exists>t. edited (config_text dir w) desired t \<and> config_text dir w' = Some t)"
    "r = Inr u \<Longrightarrow> valid \<and> (\<exists>t. edited (config_text dir w) desired t \<and> config_text dir w' = Some t)"
    "r = Inl e \<Longrightarrow> e \<noteq> ''rollback-failed'' \<Longrightarrow> config_text dir w' = config_text dir w"
proof -
  let ?old = "config_text dir w"
  let ?in = "\<lambda>t. config_in dir {?old, Some t}"
  obtain r1 w1 where a: "read_config dir owner w = (r1, w1)" by fastforce
  have i: "config_in dir {?old} w" using assms(3) by (simp add: config_in_def)
  note 1 = config_in_read [OF i a]
  obtain r2 w2 where b: "sv ''is-active'' w1 = (r2, w2)" by fastforce
  note 2 = config_in_service [OF assms(1) 1(1) b]
  define body where "body t was prev = (case apply_config pid dir owner t sv valid w2 of
      (Inr _, v) \<Rightarrow> (Inr (), v)
    | (Inl e, v) \<Rightarrow> (case restore_config pid dir owner prev sv was v of
        (q, v') \<Rightarrow> (Inl (if is_ok q then e else ''rollback-failed''), v')))" for t was prev
  have run: "(r, w') = (case r1 of Inl e \<Rightarrow> (Inl e, w1) | Inr prev \<Rightarrow>
      (case replacement (case prev of None \<Rightarrow> [] | Some s \<Rightarrow> s) desired of Inl e \<Rightarrow> (Inl e, w1) | Inr t \<Rightarrow>
        (case r2 of Inl e \<Rightarrow> (Inl e, w2) | Inr was \<Rightarrow> body t was prev)))"
    unfolding assms(2) [symmetric] transaction_def body_def by (simp add: wbind_def wlift_def a b split: sum.split)
  have main: "(config_text dir w' = ?old \<and> r \<noteq> Inr ()) \<or> (\<exists>t. edited ?old desired t \<and> ((r = Inr () \<and> valid \<and> config_text dir w' = Some t)
      \<or> (r = Inl ''rollback-failed'' \<and> config_text dir w' \<in> {?old, Some t})))"
  proof (cases "\<exists>t was. r1 = Inr ?old \<and> edited ?old desired t \<and> r2 = Inr was")
    case False
    then have "(w' = w1 \<or> w' = w2) \<and> r \<noteq> Inr ()"
      using run 1(3) by (cases r1) (auto simp: edited_def split: sum.splits)
    with 1(2) 2(2) show ?thesis by auto
  next
    case True
    then obtain t was where t: "r1 = Inr ?old" "edited ?old desired t" "r2 = Inr was" by blast
    obtain r3 w3 where c: "apply_config pid dir owner t sv valid w2 = (r3, w3)" by fastforce
    obtain r4 w4 where d: "restore_config pid dir owner ?old sv was w3 = (r4, w4)" by fastforce
    have in2: "?in t w2" using 2(1) by (simp add: config_in_def)
    note 3 = apply_config_outcome [OF assms(1) in2 c]
    note 4 = restore_config_outcome [OF assms(1) 3(1) d]
    have "(r, w') = (case r3 of Inr _ \<Rightarrow> (Inr (), w3) | Inl e \<Rightarrow> (Inl (if is_ok r4 then e else ''rollback-failed''), w4))"
      using run t by (simp add: body_def c d edited_def split: sum.split)
    note run = this
    show ?thesis
    proof (cases r3)
      case (Inr x)
      with run 3(2) t(2) show ?thesis by auto
    next
      case (Inl e)
      with run have "r = Inl (if is_ok r4 then e else ''rollback-failed'')" "w' = w4" by auto
      with 4 t(2) show ?thesis by (cases "is_ok r4") (auto simp: config_in_def)
    qed
  qed
  then show "config_text dir w' = ?old \<or> (\<exists>t. edited ?old desired t \<and> config_text dir w' = Some t)"
    "r = Inr u \<Longrightarrow> valid \<and> (\<exists>t. edited ?old desired t \<and> config_text dir w' = Some t)"
    "r = Inl e \<Longrightarrow> e \<noteq> ''rollback-failed'' \<Longrightarrow> config_text dir w' = ?old" by auto
qed


section \<open>The service loop\<close>

text \<open>A service call returns as soon as the polls have taken fifteen seconds, so one poll more than that is fuel enough.\<close>

lemma service_loop_returns: "15000 \<le> sv_elapsed c (i + n) \<Longrightarrow> service_loop (Suc n) c i \<noteq> None"
  by (induction n arbitrary: i) (auto split: sum.split option.split)

lemma service_returns:
  assumes "\<And>i. 25 * i \<le> sv_elapsed c i"
  shows "service 601 c \<noteq> None"
proof -
  have "15000 \<le> sv_elapsed c (0 + 600)" using assms [of 600] by simp
  then have "service_loop (Suc 600) c 0 \<noteq> None" by (rule service_loop_returns)
  then show ?thesis by (simp add: service_def)
qed

section \<open>The whole tool\<close>

lemma observes_frame: "observes m \<Longrightarrow> keeps P m" "observes m \<Longrightarrow> stays_honest m"
  by (auto simp: stays_in_def observing_def keeps_def honesty_def)

lemma observes_validate_config_directory [observe_rules]: "observes (validate_config_directory dir uid)"
  unfolding validate_config_directory_def by (intro observe_rules)

lemma observes_safe_directory: "observes (safe_directory path uid)"
  unfolding safe_directory_def by (intro observe_rules)

lemma provision_frame:
  assumes "provision_config_directory parent owner w = (r, w')" "join parent ''kfaceauth'' \<noteq> p"
  shows "nodes w' p = nodes w p" "honest w \<Longrightarrow> honest w'"
proof -
  let ?d = "join parent ''kfaceauth''"
  obtain q v where q: "create_dir ?d w = (q, v)" by fastforce
  define k where "k = (wbind (case q of
              Inr _ \<Rightarrow> str_err ''unsafe-directory'' (sync_all parent)
            | Inl k \<Rightarrow> if k = AlreadyExists then wreturn () else wfail ''unsafe-directory'') (\<lambda>_.
          wbind (str_err ''unsafe-directory'' (open_child_directory_nofollow parent ''kfaceauth'')) (\<lambda>_.
          validate_config_directory ?d owner)))"
  have "observes (sync_all x)" for x unfolding sync_all_def by (rule observes_sys) simp
  then have "observes (str_err ''unsafe-directory'' (sync_all parent))" by (intro observe_rules)
  then have "observes (case q of Inr _ \<Rightarrow> str_err ''unsafe-directory'' (sync_all parent)
      | Inl k \<Rightarrow> if k = AlreadyExists then wreturn () else wfail ''unsafe-directory'')" by (cases q) (simp_all add: observe_rules)
  then have "observes k" unfolding k_def by (intro observe_rules)
  moreover have "k v = (r, w')" using assms(1) by (simp add: provision_config_directory_def q k_def)
  ultimately have o: "observing v w'" by (rule stays_inD)
  have "keeps {p} (create_dir ?d)" using assms(2) by (intro keeps_create_dir) simp
  then show "nodes w' p = nodes w p" using o keepsD [of "{p}" "create_dir ?d" p w] q by (simp add: observing_def)
  show "honest w \<Longrightarrow> honest w'" using o stays_inD [OF honest_writes(6) q] by (simp add: observing_def honesty_def)
qed

lemma select_camera_outcome:
  assumes "service_confined PC (ce_service env)" "select_camera env desired w = (r, w')" "honest w"
  shows "config_text PC w' = config_text PC w \<or> (\<exists>t. edited (config_text PC w) desired t \<and> config_text PC w' = Some t
      \<and> (is_ok r \<or> r = Inl ''rollback-failed''))"
    "is_ok r \<Longrightarrow> (\<exists>t. edited (config_text PC w) desired t \<and> config_text PC w' = Some t)
      \<and> (\<forall>p. desired = Some p \<longrightarrow> is_listed (ce_view env 1) p \<and> is_listed (ce_view env 2) p)"
proof -
  let ?c = "join PC CONFIG"
  have pc: "join ''/etc'' ''kfaceauth'' = PC" by (simp add: join_def production_paths_def)
  obtain r1 w1 where a: "safe_directory ''/etc'' 0 w = (r1, w1)" by fastforce
  obtain r2 w2 where b: "provision_config_directory ''/etc'' 0 w1 = (r2, w2)" by fastforce
  obtain r3 w3 where c: "lock_child_file_nonblocking PC ''.camera-config.lock'' w2 = (r3, w3)" by fastforce
  let ?valid = "case desired of None \<Rightarrow> True | Some path \<Rightarrow> is_listed (ce_view env 2) path"
  obtain r4 w4 where d: "transaction (ce_pid env) PC 0 desired (ce_service env) ?valid w3 = (r4, w4)" by fastforce
  have o: "observing w w1" by (rule stays_inD [OF observes_safe_directory a])
  have n2: "PC \<noteq> ?c" by (simp add: join_def)
  have n3: "join PC ''.camera-config.lock'' \<noteq> ?c" by (simp add: join_def CONFIG_def)
  have same: "nodes w1 ?c = nodes w ?c" "nodes w2 ?c = nodes w ?c" "nodes w3 ?c = nodes w ?c" "honest w3"
    using o provision_frame [OF b, of ?c] n2 pc keepsD [OF keeps_lock_child_file [of PC _ "{?c}"], of "''.camera-config.lock''" ?c w2] n3 c
      stays_inD [OF honest_lock_child_file c] assms(3) by (auto simp: observing_def honesty_def)
  then have t: "config_text PC w1 = config_text PC w" "config_text PC w2 = config_text PC w" "config_text PC w3 = config_text PC w"
    by (simp_all add: config_text_def)
  note out = transaction_outcome [OF assms(1) d same(4), unfolded t]
  have dirs: "r1 = Inr x \<Longrightarrow> x = ''/etc''" "r2 = Inr y \<Longrightarrow> y = PC" for x y
    using a b pc by (auto simp: safe_directory_def provision_config_directory_def validate_config_directory_def io_success wguard_Inr
        split: prod.splits)
  have run: "(w' \<in> {w1, w2, w3} \<and> \<not> is_ok r) \<or> (w' = w4 \<and> is_ok r = is_ok r4 \<and> (\<forall>e. r4 = Inl e \<longrightarrow> r = Inl e)
      \<and> (\<forall>p. desired = Some p \<longrightarrow> is_listed (ce_view env 1) p))"
    using assms(2) dirs a b c d
    unfolding select_camera_def wbind_def wmap_err_def
    by (auto simp: wfail_def wreturn_def map_err_def split: sum.splits if_splits option.splits)
  then show "config_text PC w' = config_text PC w \<or> (\<exists>t. edited (config_text PC w) desired t \<and> config_text PC w' = Some t
      \<and> (is_ok r \<or> r = Inl ''rollback-failed''))"
    using t out by (cases r4) auto
  show "is_ok r \<Longrightarrow> (\<exists>t. edited (config_text PC w) desired t \<and> config_text PC w' = Some t)
      \<and> (\<forall>p. desired = Some p \<longrightarrow> is_listed (ce_view env 1) p \<and> is_listed (ce_view env 2) p)"
    using run out by (cases r4; cases desired) auto
qed

lemma camera_list_observes:
  assumes "camera_list v w = (r, w')"
  shows "observing w w'"
proof -
  obtain q u where q: "wbind (safe_directory ''/etc/kfaceauth'' 0) (\<lambda>dir. read_config dir 0) w = (q, u)" by fastforce
  have "observes (wbind (safe_directory ''/etc/kfaceauth'' 0) (\<lambda>dir. read_config dir 0))"
    by (intro observe_rules observes_safe_directory)
  from stays_inD [OF this q] assms q show ?thesis by (simp add: camera_list_def)
qed

definition selects :: "camera_env \<Rightarrow> string list \<Rightarrow> string option \<Rightarrow> world \<Rightarrow> string \<Rightarrow> string option \<Rightarrow> bool" where
  "selects env args pkexec w op desired \<longleftrightarrow> args = [op] \<and> camera_authorized pkexec (euid w) \<and> op \<noteq> ''--list''
     \<and> desired_selection env op = Inr desired"

lemma camera_run_refused:
  assumes "camera_run env args pkexec w = (r, w')" "\<And>op desired. \<not> selects env args pkexec w op desired"
  shows "config_text PC w' = config_text PC w" "is_ok r \<Longrightarrow> args = [''--list'']"
proof -
  have "config_text PC v' = config_text PC v" if "observing v v'" for v v' using that by (simp add: observing_def config_text_def)
  then show "config_text PC w' = config_text PC w" "is_ok r \<Longrightarrow> args = [''--list'']"
    using assms camera_list_observes
    by (auto simp: selects_def camera_run_def wbind_def wlift_def wfail_def split: list.splits if_splits sum.splits)
qed

text \<open>
  Claim C16: whatever call fails, the camera tool changes \<^verbatim>\<open>kfaceauth.conf\<close> only for an authorized request and only to the
  complete edited text; a request that fails leaves the old text unless it reports \<^verbatim>\<open>rollback-failed\<close>. A change that
  reports success is in place, was listed by the enumerations before and after, and with a path that needs no quoting
  it reads back as the setting while all other lines stay.
\<close>

theorem camera_tool_safe:
  assumes "service_confined PC (ce_service env)" "camera_run env args pkexec w = (r, w')" "honest w"
  shows "(config_text PC w' \<noteq> config_text PC w \<longrightarrow> camera_authorized pkexec (euid w)
        \<and> (\<exists>op desired t. args = [op] \<and> desired_selection env op = Inr desired \<and> edited (config_text PC w) desired t
             \<and> config_text PC w' = Some t \<and> (is_ok r \<or> r = Inl ''rollback-failed'')))
    \<and> (is_ok r \<and> args \<noteq> [''--list''] \<longrightarrow>
        (\<exists>op desired t. args = [op] \<and> desired_selection env op = Inr desired \<and> config_text PC w' = Some t
          \<and> (\<forall>p. desired = Some p \<longrightarrow> is_listed (ce_view env 1) p \<and> is_listed (ce_view env 2) p)
          \<and> ((\<forall>p. desired = Some p \<longrightarrow> selectable p) \<longrightarrow>
               setting t = Inr desired \<and> other_lines t = other_lines (case config_text PC w of None \<Rightarrow> [] | Some s \<Rightarrow> s))))"
proof (cases "\<exists>op desired. selects env args pkexec w op desired")
  case False
  with camera_run_refused [OF assms(2)] show ?thesis by auto
next
  case True
  then obtain op desired where o: "args = [op]" "camera_authorized pkexec (euid w)" "op \<noteq> ''--list''"
    "desired_selection env op = Inr desired" by (auto simp: selects_def)
  then have s: "select_camera env desired w = (r, w')"
    using assms(2) by (simp add: camera_run_def wbind_def wlift_def)
  note out = select_camera_outcome [OF assms(1) s assms(3)]
  have e: "setting t = Inr desired \<and> other_lines t = other_lines (case config_text PC w of None \<Rightarrow> [] | Some s \<Rightarrow> s)"
    if "edited (config_text PC w) desired t" "\<forall>p. desired = Some p \<longrightarrow> selectable p" for t
    using edit_keeps_the_rest [OF that(1) [unfolded edited_def] that(2)] by blast
  show ?thesis
  proof (intro conjI impI)
    show "camera_authorized pkexec (euid w)" by (rule o(2))
    assume "config_text PC w' \<noteq> config_text PC w"
    with out(1) o(1,4) show "\<exists>op desired t. args = [op] \<and> desired_selection env op = Inr desired
        \<and> edited (config_text PC w) desired t \<and> config_text PC w' = Some t \<and> (is_ok r \<or> r = Inl ''rollback-failed'')"
      by blast
  next
    assume "is_ok r \<and> args \<noteq> [''--list'']"
    then obtain t where t: "edited (config_text PC w) desired t" "config_text PC w' = Some t"
      "\<forall>p. desired = Some p \<longrightarrow> is_listed (ce_view env 1) p \<and> is_listed (ce_view env 2) p" using out(2) by blast
    show "\<exists>op desired t. args = [op] \<and> desired_selection env op = Inr desired \<and> config_text PC w' = Some t
        \<and> (\<forall>p. desired = Some p \<longrightarrow> is_listed (ce_view env 1) p \<and> is_listed (ce_view env 2) p)
        \<and> ((\<forall>p. desired = Some p \<longrightarrow> selectable p) \<longrightarrow>
             setting t = Inr desired \<and> other_lines t = other_lines (case config_text PC w of None \<Rightarrow> [] | Some s \<Rightarrow> s))"
      using t e [OF t(1)] o(1,4) by (intro exI [of _ op] exI [of _ desired] exI [of _ t]) simp
  qed
qed

section \<open>A concrete selection\<close>

definition camera_world :: world where
  "camera_world = \<lparr>nodes = [''/etc'' \<mapsto> root_inode Directory (oct3 7 5 5) 2 [],
       ''/etc/kfaceauth'' \<mapsto> root_inode Directory (oct3 7 5 5) 2 []],
     euid = 0, egid = 0, umask = 0, group_ids = Map.empty, next_ino = 20, stamp = 1, script = []\<rparr>"

definition sample_view :: camera_view where
  "sample_view = \<lparr>cv_dev = Some [Inr ''null'', Inl (), Inr ''video0''], cv_label = (\<lambda>_. Some ''cam''), cv_by_path = (\<lambda>_. None),
     cv_canonical = (\<lambda>p. Some p)\<rparr>"

definition sample_camera_env :: camera_env where
  "sample_camera_env = \<lparr>ce_pid = 1, ce_view = (\<lambda>_. sample_view), ce_stdin = Inr (''/dev/video0'' @ [NL]),
     ce_service = (\<lambda>_ w. (Inr True, w))\<rparr>"

definition config_line :: string where
  "config_line = ''KFACEAUTH_CAMERA_DEVICE=/dev/video0'' @ [NL]"

definition camera_locked :: world where
  "camera_locked = snd (lock_child_file_nonblocking PC ''.camera-config.lock'' (snd (provision_config_directory ''/etc'' 0
     (snd (safe_directory ''/etc'' 0 camera_world)))))"

definition camera_written :: world where
  "camera_written = snd (config_atomic_write 1 PC (Some config_line) (snd (read_config PC 0 camera_locked)))"

lemma camera_steps:
  "fst (safe_directory ''/etc'' 0 camera_world) = Inr ''/etc''"
  "fst (provision_config_directory ''/etc'' 0 (snd (safe_directory ''/etc'' 0 camera_world))) = Inr PC"
  "fst (lock_child_file_nonblocking PC ''.camera-config.lock'' (snd (provision_config_directory ''/etc'' 0
     (snd (safe_directory ''/etc'' 0 camera_world))))) = Inr ()"
  "fst (read_config PC 0 camera_locked) = Inr None"
  "fst (config_atomic_write 1 PC (Some config_line) (snd (read_config PC 0 camera_locked))) = Inr ()"
  by code_simp+

lemma camera_written_facts:
  "script camera_written = []"
  "map_option i_kind (nodes camera_written (join PC CONFIG)) = Some Regular"
  "map_option i_uid (nodes camera_written (join PC CONFIG)) = Some 0"
  "map_option i_nlink (nodes camera_written (join PC CONFIG)) = Some 1"
  "map_option i_mode (nodes camera_written (join PC CONFIG)) = Some (oct3 6 4 4)"
  "map_option i_data (nodes camera_written (join PC CONFIG)) = Some (text_bytes config_line)"
  by code_simp+

lemma camera_choices:
  "replacement [] (Some ''/dev/video0'') = Inr config_line" "is_listed sample_view ''/dev/video0''"
  "utf8_valid (map byte config_line)" "length config_line < 100" "selectable ''/dev/video0''"
  "desired_selection sample_camera_env ''--set'' = Inr (Some ''/dev/video0'')"
  by code_simp+

text \<open>Without failures a sound configuration file is read as it is.\<close>

lemma clean_read_config:
  assumes "script w = []" "nodes w (join dir CONFIG) = Some i" "config_metadata_ok uid (stat i)" "utf8_valid (map byte (bytes_text (i_data i)))"
  shows "read_config dir uid w = (Inr (Some (bytes_text (i_data i))), w)"
proof -
  have "length (i_data i) \<le> MAX_CONFIG" "i_kind i = Regular" using assms(3) by (simp_all add: config_metadata_ok_def stat_def)
  then show ?thesis
    using assms
    by (simp add: read_config_def read_config_file_def Let_def open_child_file_nofollow_def flow_defs call_defs clean_sys ok_or_def
        config_unchanged_def)
qed

lemma camera_reads_back: "read_config PC 0 camera_written = (Inr (Some config_line), camera_written)"
proof -
  obtain i where i: "nodes camera_written (join PC CONFIG) = Some i" "i_kind i = Regular" "i_uid i = 0" "i_nlink i = 1"
    "i_mode i = oct3 6 4 4" "i_data i = text_bytes config_line" using camera_written_facts(2-6) by auto
  have "and (oct3 6 4 4) (oct3 0 2 2) = 0" by (simp add: oct3_def)
  then have "config_metadata_ok 0 (stat i)"
    using i camera_choices(4) by (simp add: config_metadata_ok_def stat_def MAX_CONFIG_def text_bytes_def)
  from clean_read_config [OF camera_written_facts(1) i(1) this] camera_choices(3) i(6) show ?thesis by simp
qed

lemma camera_selected:
  "select_camera sample_camera_env (Some ''/dev/video0'') camera_world
    = (Inr ([''KFCAMERA1'', ''selected '' @ camera_hex ''/dev/video0''] @ device_lines (cameras sample_view)), camera_written)"
proof -
  let ?sv = "\<lambda>_ w. (Inr True, w)"
  define w1 where "w1 = snd (safe_directory ''/etc'' 0 camera_world)"
  define w2 where "w2 = snd (provision_config_directory ''/etc'' 0 w1)"
  define w4 where "w4 = snd (read_config PC 0 camera_locked)"
  note facts = camera_steps [folded w1_def, folded w2_def, folded w4_def]
  have locked: "camera_locked = snd (lock_child_file_nonblocking PC ''.camera-config.lock'' w2)" "camera_written = snd (config_atomic_write 1 PC (Some config_line) w4)"
    by (simp_all add: camera_locked_def camera_written_def w1_def w2_def w4_def)
  have s: "safe_directory ''/etc'' 0 camera_world = (Inr ''/etc'', w1)" "provision_config_directory ''/etc'' 0 w1 = (Inr PC, w2)"
    "lock_child_file_nonblocking PC ''.camera-config.lock'' w2 = (Inr (), camera_locked)" "read_config PC 0 camera_locked = (Inr None, w4)"
    "config_atomic_write 1 PC (Some config_line) w4 = (Inr (), camera_written)"
    using facts locked w1_def w2_def w4_def by (simp_all only: prod_eq_iff fst_conv snd_conv)
  have "apply_config 1 PC 0 config_line ?sv True w4 = (Inr (), camera_written)"
    using s(5) camera_reads_back by (simp add: apply_config_def wbind_def wreturn_def)
  then have "transaction 1 PC 0 (Some ''/dev/video0'') ?sv True camera_locked = (Inr (), camera_written)"
    using s(4) camera_choices(1) by (simp add: transaction_def wbind_def wlift_def)
  then show ?thesis
    using s(1-3) camera_choices(2)
    by (simp add: select_camera_def wbind_def wmap_err_def wreturn_def sample_camera_env_def)
qed

theorem camera_tool_safe_witness:
  "\<exists>lines w' t. camera_run sample_camera_env [''--set''] (Some ''7'') camera_world = (Inr lines, w')
    \<and> config_text PC w' = Some t \<and> setting t = Inr (Some ''/dev/video0'')"
proof -
  have c: "service_confined PC (ce_service sample_camera_env)"
    by (simp add: service_confined_def sample_camera_env_def keeps_def stays_in_def honesty_def)
  have h: "honest camera_world" by (simp add: honest_def camera_world_def)
  have "camera_authorized (Some ''7'') (euid camera_world)"
    using off_request_parsed(2) seven by (simp add: camera_authorized_def camera_world_def)
  then obtain lines where r: "camera_run sample_camera_env [''--set''] (Some ''7'') camera_world = (Inr lines, camera_written)"
    using camera_selected camera_choices(6) by (simp add: camera_run_def wbind_def wlift_def)
  from camera_tool_safe [OF c r h] camera_choices(5,6) r show ?thesis by auto
qed

end
