(* ===== verification/Evaluation_Input.thy ===== *)
theory Evaluation_Input
  imports Identity_Worker Camera_Text
begin

text \<open>
  The inputs of the evaluation tool \<^verbatim>\<open>engine/identity/src/bin/kfaceauth-identity-evaluate.rs\<close>: its arguments, the
  dataset manifest, the portable pixmaps it loads, and the request it sends to a worker for each of them. The lemmas
  show that what is loaded is a frame the identity worker accepts, that printed pixmaps are read back, and that an
  accepted manifest names every image once.
\<close>

section \<open>What a file delivers\<close>

text \<open>
  Reading an opened file delivers bytes and then the end of the file or a failure (interrupted reads are repeated by
  the library and do not show). \<^verbatim>\<open>Read::take\<close> ends the stream without another read once its limit is used up.
\<close>

record stream =
  st_content :: bytes
  st_failure :: "io_kind option"

definition take_stream :: "nat \<Rightarrow> stream \<Rightarrow> stream" where
  "take_stream n s =
     (if n \<le> length (st_content s) then \<lparr>st_content = take n (st_content s), st_failure = None\<rparr> else s)"

definition read_to_end :: "stream \<Rightarrow> io_kind + bytes" where
  "read_to_end s = (case st_failure s of Some k \<Rightarrow> Inl k | None \<Rightarrow> Inr (st_content s))"

text \<open>
  \<^verbatim>\<open>BufRead::lines\<close>: a line that is not UTF-8 is an error, as is the line during which reading fails; only a line
  that ends in a line feed loses a carriage return.
\<close>

definition finished_line :: "string \<Rightarrow> unit + string" where
  "finished_line l =
     (if utf8_valid (map byte l) then Inr (case strip_suffix_char CR l of Some l' \<Rightarrow> l' | None \<Rightarrow> l) else Inl ())"

definition last_line :: "string \<Rightarrow> io_kind option \<Rightarrow> (unit + string) list" where
  "last_line l failure =
     (if failure \<noteq> None then [Inl ()]
      else if l = [] then []
      else [if utf8_valid (map byte l) then Inr l else Inl ()])"

definition buffered_lines :: "stream \<Rightarrow> (unit + string) list" where
  "buffered_lines s =
     (let pieces = split_on LF (bytes_text (st_content s)) in
      map finished_line (butlast pieces) @ last_line (last pieces) (st_failure s))"

text \<open>The file system as the tool reads it: \<^verbatim>\<open>File::open\<close> and \<^verbatim>\<open>fs::canonicalize\<close>.\<close>

record dataset_files =
  df_open :: "string \<Rightarrow> io_kind + stream"
  df_canonicalize :: "string \<Rightarrow> io_kind + string"

section \<open>Arguments\<close>

record arguments =
  arg_model_root :: string
  arg_dataset_manifest :: string
  arg_labelled_evaluation :: bool

text \<open>A path option that is the last argument resets its value, as \<^verbatim>\<open>values.next()\<close> does.\<close>

fun arguments_loop ::
    "string option \<Rightarrow> string option \<Rightarrow> bool \<Rightarrow> string list \<Rightarrow> string + (string option \<times> string option \<times> bool)" where
  "arguments_loop mroot manifest labelled [] = Inr (mroot, manifest, labelled)"
| "arguments_loop mroot manifest labelled [a] =
     (if a = ''--model-root'' then Inr (None, manifest, labelled)
      else if a = ''--dataset-manifest'' then Inr (mroot, None, labelled)
      else if a = ''--labelled-evaluation'' then Inr (mroot, manifest, True)
      else Inl ''invalid-arguments'')"
| "arguments_loop mroot manifest labelled (a # v # as) =
     (if a = ''--model-root'' then arguments_loop (Some v) manifest labelled as
      else if a = ''--dataset-manifest'' then arguments_loop mroot (Some v) labelled as
      else if a = ''--labelled-evaluation'' then arguments_loop mroot manifest True (v # as)
      else Inl ''invalid-arguments'')"

definition evaluation_arguments :: "string list \<Rightarrow> string + arguments" where
  "evaluation_arguments argv =
     rbind (arguments_loop None None False argv) (\<lambda>(mroot, manifest, labelled).
     rbind (ok_or ''missing-model-root'' mroot) (\<lambda>mroot.
     rbind (ok_or ''missing-dataset-manifest'' manifest) (\<lambda>manifest.
     if \<not> is_absolute mroot \<or> \<not> is_absolute manifest then Inl ''paths-must-be-absolute''
     else Inr \<lparr>arg_model_root = mroot, arg_dataset_manifest = manifest, arg_labelled_evaluation = labelled\<rparr>)))"

section \<open>The dataset manifest\<close>

definition MAXIMUM_DATASET_SAMPLES :: nat where "MAXIMUM_DATASET_SAMPLES = 100000"
definition MAXIMUM_PPM_BYTES :: nat where "MAXIMUM_PPM_BYTES = 1920 * 1080 * 3 + 256"

datatype sample_role = Enrollment | Probe

record dataset_entry =
  de_group :: u32
  de_role :: sample_role
  de_path :: string

definition role_of :: "string \<Rightarrow> string + sample_role" where
  "role_of s =
     (if s = ''enrollment'' then Inr Enrollment
      else if s = ''probe'' then Inr Probe
      else Inl ''invalid-sample-role'')"

definition dataset_line :: "dataset_files \<Rightarrow> string \<Rightarrow> string + dataset_entry" where
  "dataset_line fs line =
     (case split_on TAB line of
        [g, r, p] \<Rightarrow>
          rbind (ok_or ''invalid-group-id'' (parse_u32 g)) (\<lambda>group.
          rbind (role_of r) (\<lambda>role.
          if group = 0 \<or> \<not> is_absolute p then Inl ''invalid-dataset-manifest''
          else rbind (map_err (\<lambda>_. ''dataset-image-unavailable'') (df_canonicalize fs p)) (\<lambda>canonical.
            Inr \<lparr>de_group = group, de_role = role, de_path = canonical\<rparr>)))
      | _ \<Rightarrow> Inl ''invalid-dataset-manifest'')"

text \<open>The set of paths seen so far is the set of the paths of the entries.\<close>

fun dataset_loop ::
    "dataset_files \<Rightarrow> dataset_entry list \<Rightarrow> nat \<Rightarrow> (unit + string) list \<Rightarrow> string + dataset_entry list" where
  "dataset_loop fs entries total_bytes [] = Inr entries"
| "dataset_loop fs entries total_bytes (item # items) =
     (case item of
        Inl _ \<Rightarrow> Inl ''invalid-dataset-manifest''
      | Inr line \<Rightarrow>
          let total = total_bytes + (length line + 1) in
          if total > 32 * 1024 * 1024 then Inl ''dataset-too-large''
          else if line = [] then dataset_loop fs entries total items
          else rbind (dataset_line fs line) (\<lambda>e.
            if de_path e \<in> set (map de_path entries) then Inl ''duplicate-dataset-image''
            else if length (entries @ [e]) > MAXIMUM_DATASET_SAMPLES then Inl ''dataset-too-large''
            else dataset_loop fs (entries @ [e]) total items))"

definition load_dataset_manifest :: "dataset_files \<Rightarrow> string \<Rightarrow> string + dataset_entry list" where
  "load_dataset_manifest fs path =
     rbind (map_err (\<lambda>_. ''dataset-manifest-unavailable'') (df_open fs path)) (\<lambda>file.
     case buffered_lines (take_stream (32 * 1024 * 1024 + 1) file) of
       [] \<Rightarrow> Inl ''invalid-manifest-schema''
     | Inl _ # _ \<Rightarrow> Inl ''invalid-dataset-manifest''
     | Inr magic # items \<Rightarrow>
         if magic \<noteq> ''kfaceauth-evaluation-v2'' then Inl ''invalid-manifest-schema''
         else rbind (dataset_loop fs [] 0 items) (\<lambda>entries.
           if entries = [] \<or> \<not> list_ex (\<lambda>e. de_role e = Probe) entries then Inl ''dataset-has-no-probes''
           else Inr entries))"

section \<open>Portable pixmaps\<close>

record source_sample =
  ss_width :: u32
  ss_height :: u32
  ss_bytes :: bytes

text \<open>The offset of the source is represented by the text from it on.\<close>

function ppm_skip :: "string \<Rightarrow> string" where
  "ppm_skip [] = []"
| "ppm_skip (c # s) =
     (if c = CHR ''#'' then ppm_skip (dropWhile (\<lambda>x. x \<noteq> LF) s)
      else if is_ascii_whitespace c then ppm_skip s
      else c # s)"
  by pat_completeness auto
termination
  by (relation "measure length") (auto simp: less_Suc_eq_le length_dropWhile_le)

definition ppm_token :: "string \<Rightarrow> string + string \<times> string" where
  "ppm_token s =
     (let t = ppm_skip s; token = takeWhile (\<lambda>c. \<not> is_ascii_whitespace c) t in
      if token = [] then Inl ''invalid-ppm''
      else if utf8_valid (map byte token) then Inr (token, dropWhile (\<lambda>c. \<not> is_ascii_whitespace c) t)
      else Inl ''invalid-ppm'')"

definition ppm_number :: "string \<Rightarrow> string + u32 \<times> string" where
  "ppm_number s = rbind (ppm_token s) (\<lambda>(token, rest). rbind (ok_or ''invalid-ppm'' (parse_u32 token)) (\<lambda>n. Inr (n, rest)))"

definition parse_ppm :: "bytes \<Rightarrow> string + source_sample" where
  "parse_ppm bs =
     rbind (ppm_token (bytes_text bs)) (\<lambda>(magic, s1).
     rbind (ppm_number s1) (\<lambda>(width, s2).
     rbind (ppm_number s2) (\<lambda>(height, s3).
     rbind (ppm_token s3) (\<lambda>(maximum, s4).
     if magic \<noteq> ''P6'' \<or> maximum \<noteq> ''255'' \<or> width = 0 \<or> width > 1920 \<or> height = 0 \<or> height > 1080
     then Inl ''invalid-ppm''
     else case s4 of
       [] \<Rightarrow> Inl ''invalid-ppm''
     | c # pixels \<Rightarrow>
         if \<not> is_ascii_whitespace c then Inl ''invalid-ppm''
         else if unat width * unat height * 3 \<noteq> length pixels then Inl ''invalid-ppm''
         else Inr \<lparr>ss_width = width, ss_height = height, ss_bytes = text_bytes pixels\<rparr>))))"

definition load_ppm :: "dataset_files \<Rightarrow> string \<Rightarrow> string + source_sample" where
  "load_ppm fs path =
     rbind (map_err (\<lambda>_. ''dataset-image-unavailable'') (df_open fs path)) (\<lambda>file.
     rbind (map_err (\<lambda>_. ''dataset-image-unavailable'') (read_to_end (take_stream (MAXIMUM_PPM_BYTES + 1) file))) (\<lambda>bs.
     if length bs > MAXIMUM_PPM_BYTES then Inl ''dataset-image-too-large''
     else parse_ppm bs))"

section \<open>The request to the evaluation worker\<close>

definition narrow_u16 :: "u32 \<Rightarrow> string + u16" where
  "narrow_u16 v = (if unat v < 2 ^ 16 then Inr (ucast v) else Inl ''invalid-frame'')"

definition evaluation_payload :: "source_sample \<Rightarrow> u64 \<Rightarrow> u16 \<Rightarrow> u16 \<Rightarrow> u16 \<Rightarrow> bytes" where
  "evaluation_payload sample generation width height stride =
     u16_be IDENTITY_PROTOCOL_VERSION @ [OP_EXTRACT_ENROLLMENT_SAMPLE] @ [0] @ u64_be generation @ u32_be 10000
       @ [0] @ [1] @ [0] @ u16_be width @ u16_be height @ u16_be stride @ ss_bytes sample"

text \<open>A frame is written to a vector, which never fails.\<close>

definition evaluation_request :: "source_sample \<Rightarrow> u64 \<Rightarrow> string + bytes" where
  "evaluation_request sample generation =
     rbind (narrow_u16 (ss_width sample)) (\<lambda>width.
     rbind (narrow_u16 (ss_height sample)) (\<lambda>height.
     rbind (ok_or ''invalid-frame'' (checked_mul (ss_width sample) 3)) (\<lambda>wide.
     rbind (narrow_u16 wide) (\<lambda>stride.
     case write_frame \<lparr>written = [], outcomes = []\<rparr> (evaluation_payload sample generation width height stride)
            MAX_IDENTITY_REQUEST_BYTES of
       (r, framed) \<Rightarrow> rbind (map_err (\<lambda>_. ''invalid-frame'') r) (\<lambda>_. Inr (written framed))))))"

section \<open>Loaded samples are frames\<close>

definition sample_ok :: "source_sample \<Rightarrow> bool" where
  "sample_ok s \<longleftrightarrow> 0 < unat (ss_width s) \<and> unat (ss_width s) \<le> 1920 \<and> 0 < unat (ss_height s) \<and> unat (ss_height s) \<le> 1080
     \<and> length (ss_bytes s) = unat (ss_width s) * unat (ss_height s) * 3"

definition sample_frame :: "source_sample \<Rightarrow> image_view" where
  "sample_frame s = \<lparr>img_format = Rgb8, img_width = ss_width s, img_height = ss_height s, img_stride = ss_width s * 3,
     img_bytes = ss_bytes s\<rparr>"

lemma parse_ppm_ok: "parse_ppm bs = Inr s \<Longrightarrow> sample_ok s"
  by (auto simp: parse_ppm_def sample_ok_def result_iffs text_bytes_def unat_pos word_less_nat_alt not_less
      split: prod.splits if_splits list.splits)

lemma load_ppm_ok: "load_ppm fs path = Inr s \<Longrightarrow> sample_ok s"
  by (auto simp: load_ppm_def result_iffs split: if_splits dest: parse_ppm_ok)

lemma sample_stride:
  assumes "sample_ok s"
  shows "unat (ss_width s * 3) = unat (ss_width s) * 3" "checked_mul (ss_width s) 3 = Some (ss_width s * 3)"
  using assms checked_mul_small [of "ss_width s" 3] by (simp_all add: sample_ok_def)

lemma sample_bytes_bound:
  assumes "sample_ok s"
  shows "length (ss_bytes s) \<le> 1920 * 1080 * 3"
proof -
  have "unat (ss_width s) * unat (ss_height s) \<le> 1920 * 1080"
    using assms by (intro mult_le_mono) (simp_all add: sample_ok_def)
  with assms show ?thesis by (simp add: sample_ok_def mult.commute)
qed

lemma sample_frame_sendable: "sample_ok s \<Longrightarrow> sendable (sample_frame s)"
  using sample_stride(1) [of s] sample_bytes_bound [of s]
  by (simp add: sendable_def view_wf_def sample_frame_def MAX_FRAME_BYTES_def) (simp add: sample_ok_def)

lemma sample_frame_new:
  "sample_ok s \<Longrightarrow> image_view_new Rgb8 (ss_width s) (ss_height s) (ss_width s * 3) (ss_bytes s) = Inr (sample_frame s)"
  using image_view_new_complete [of "sample_frame s"] sample_frame_sendable [of s] by (simp add: sendable_def) (simp add: sample_frame_def)

section \<open>Printed pixmaps are read back\<close>

definition ppm_text :: "u32 \<Rightarrow> u32 \<Rightarrow> string" where
  "ppm_text width height = ''P6'' @ [LF] @ u32_to_string width @ '' '' @ u32_to_string height @ [LF] @ ''255'' @ [LF]"

definition ppm_bytes :: "source_sample \<Rightarrow> bytes" where
  "ppm_bytes s = text_bytes (ppm_text (ss_width s) (ss_height s)) @ ss_bytes s"

definition word_like :: "string \<Rightarrow> bool" where
  "word_like t \<longleftrightarrow> t \<noteq> [] \<and> hd t \<noteq> CHR ''#'' \<and> (\<forall>c \<in> set t. 32 < byte c \<and> byte c < 128)"

lemma word_like_number: "word_like (u32_to_string w)"
proof -
  have ne: "u32_to_string w \<noteq> []" by (simp add: u32_to_string_def)
  then have "48 \<le> byte (hd (u32_to_string w))" using u32_to_string_plain [OF hd_in_set] by blast
  then have "hd (u32_to_string w) \<noteq> CHR ''#''" by (auto simp: byte_def)
  moreover have "\<forall>c \<in> set (u32_to_string w). 32 < byte c \<and> byte c < 128" using u32_to_string_plain by fastforce
  ultimately show ?thesis using ne by (simp add: word_like_def)
qed

lemma word_like_visible: "word_like t \<Longrightarrow> c \<in> set t \<Longrightarrow> \<not> is_ascii_whitespace c"
  by (fastforce simp: word_like_def is_ascii_whitespace_def)

lemma ppm_skip_word: "word_like t \<Longrightarrow> ppm_skip (t @ s) = t @ s"
  using word_like_visible [of t "hd t"] by (cases t) (auto simp: word_like_def)

lemma ppm_token_word:
  assumes "word_like t" "is_ascii_whitespace c" "ppm_skip s = t @ c # rest"
  shows "ppm_token s = Inr (t, c # rest)"
proof -
  have "takeWhile (\<lambda>c. \<not> is_ascii_whitespace c) (t @ c # rest) = t"
    "dropWhile (\<lambda>c. \<not> is_ascii_whitespace c) (t @ c # rest) = c # rest"
    using assms(1,2) word_like_visible [OF assms(1)] by (simp_all add: takeWhile_append2 dropWhile_append2)
  moreover have "utf8_valid (map byte t)" using assms(1) by (intro utf8_valid_is_ascii) (auto simp: word_like_def is_ascii_def)
  ultimately show ?thesis using assms(1,3) by (simp add: ppm_token_def word_like_def)
qed

lemma whitespace_breaks [simp]: "is_ascii_whitespace LF" "is_ascii_whitespace (CHR '' '')"
  by (simp_all add: is_ascii_whitespace_def byte_def)

lemma ppm_token_next:
  "word_like t \<Longrightarrow> is_ascii_whitespace b \<Longrightarrow> is_ascii_whitespace c \<Longrightarrow> ppm_token (b # t @ c # rest) = Inr (t, c # rest)"
  by (rule ppm_token_word) (auto simp: ppm_skip_word is_ascii_whitespace_def byte_def)

lemma ppm_number_next:
  "is_ascii_whitespace b \<Longrightarrow> is_ascii_whitespace c \<Longrightarrow> ppm_number (b # u32_to_string w @ c # rest) = Inr (w, c # rest)"
  by (simp add: ppm_number_def ppm_token_next word_like_number parse_u32_to_string)

lemma bytes_text_append: "bytes_text (a @ b) = bytes_text a @ bytes_text b"
  by (simp add: bytes_text_def)

lemma parse_ppm_text:
  assumes "sample_ok s"
  shows "parse_ppm (ppm_bytes s) = Inr s"
proof -
  let ?p = "bytes_text (ss_bytes s)"
  let ?h = "LF # ''255'' @ LF # ?p"
  let ?w = "LF # u32_to_string (ss_width s) @ CHR '' '' # u32_to_string (ss_height s) @ ?h"
  have "word_like ''P6''" "word_like ''255''" by (simp_all add: word_like_def byte_def)
  then have t: "ppm_token (''P6'' @ ?w) = Inr (''P6'', ?w)" "ppm_token ?h = Inr (''255'', LF # ?p)"
    by (auto intro!: ppm_token_word ppm_token_next [of "''255''", simplified] simp: ppm_skip_word [of "''P6''", simplified])
  have "bytes_text (ppm_bytes s) = ''P6'' @ ?w" by (simp add: ppm_bytes_def ppm_text_def bytes_text_append)
  moreover have "ppm_number ?w = Inr (ss_width s, CHR '' '' # u32_to_string (ss_height s) @ ?h)"
    "ppm_number (CHR '' '' # u32_to_string (ss_height s) @ ?h) = Inr (ss_height s, ?h)"
    by (simp_all add: ppm_number_next)
  moreover have "text_bytes ?p = ss_bytes s" by (rule text_bytes_text)
  moreover have "length ?p = length (ss_bytes s)" by (simp add: bytes_text_def)
  ultimately show ?thesis using assms t
    by (simp add: parse_ppm_def sample_ok_def unat_pos word_less_nat_alt not_less)
qed

section \<open>The worker accepts what is sent\<close>

lemma ucast_narrow: "unat v < 2 ^ 16 \<Longrightarrow> narrow_u16 v = Inr (ucast v)"
  by (simp add: narrow_u16_def)

definition sample_request :: "source_sample \<Rightarrow> u64 \<Rightarrow> parsed_request" where
  "sample_request s g = \<lparr>pr_generation = g, pr_timeout_ms = 10000, pr_request = IR_Extract [] (sample_frame s)\<rparr>"

lemma evaluation_request_exact:
  assumes "sample_ok s"
  shows "evaluation_request s g = Inr (frame_bytes (identity_request_bytes (sample_request s g)))"
    and "length (identity_request_bytes (sample_request s g)) \<le> MAX_IDENTITY_REQUEST_BYTES"
    and "identity_request_bytes (sample_request s g) \<noteq> []"
proof -
  let ?p = "identity_request_bytes (sample_request s g)"
  have n: "unat (ss_width s) < 2 ^ 16" "unat (ss_height s) < 2 ^ 16" "unat (ss_width s * 3) < 2 ^ 16"
    using assms sample_stride(1) [OF assms] by (simp_all add: sample_ok_def)
  have p: "evaluation_payload s g (ucast (ss_width s)) (ucast (ss_height s)) (ucast (ss_width s * 3)) = ?p"
    by (simp add: evaluation_payload_def identity_request_bytes_def sample_request_def embeddings_data_def image_data_def
        sample_frame_def)
  have "length ?p = 25 + length (ss_bytes s)" by (simp add: p [symmetric] evaluation_payload_def)
  then have l: "length ?p \<le> MAX_IDENTITY_REQUEST_BYTES" "?p \<noteq> []" "length ?p < 2 ^ 32"
    using sample_bytes_bound [OF assms] by (auto simp: MAX_IDENTITY_REQUEST_BYTES_def MAX_FRAME_BYTES_def)
  then show "length ?p \<le> MAX_IDENTITY_REQUEST_BYTES" "?p \<noteq> []" by simp_all
  show "evaluation_request s g = Inr (frame_bytes ?p)"
    using write_frame_ok [OF l(2,1,3), of "\<lparr>written = [], outcomes = []\<rparr>"]
    by (simp add: evaluation_request_def n [THEN ucast_narrow] sample_stride(2) [OF assms] p)
qed

lemma sample_request_parsed:
  "sample_ok s \<Longrightarrow> g \<noteq> 0 \<Longrightarrow> parse_identity_request (identity_request_bytes (sample_request s g)) = Inr (sample_request s g)"
  by (rule parse_identity_request_complete)
    (simp add: parsed_valid_def sample_request_def sample_frame_sendable MAXIMUM_PROFILE_SAMPLES_def wire_defs)

lemma require_eof_smooth: "smooth r \<Longrightarrow> stream_bytes r = [] \<Longrightarrow> fst (require_eof r) = Inr ()"
  by (induction r rule: require_eof.induct) auto

lemma read_sent_frame:
  assumes "payload \<noteq> []" "length payload \<le> maximum" "length payload < 2 ^ 32" "smooth rd" "stream_bytes rd = frame_bytes payload"
  shows "\<exists>rd'. read_frame rd maximum = (Inr payload, rd') \<and> fst (require_eof rd') = Inr ()"
proof -
  obtain r rd' where r: "read_frame_or_eof rd maximum = (r, rd')" by fastforce
  have "(r, stream_bytes rd') = (Inr (Some payload), [])"
    using read_frame_or_eof_smooth [OF assms(4) r] frame_spec_frame_bytes [OF assms(1-3), of "[]"] assms(5) by simp
  moreover have "smooth rd'" using read_frame_or_eof_smooth [OF assms(4) r] by simp
  ultimately show ?thesis using r by (simp add: read_frame_def require_eof_smooth)
qed

text \<open>The worker, started on the request, answers it with one frame and ends without an error.\<close>

lemma worker_serves_sample:
  assumes "worker_ready env" "sample_ok s" "smooth rd" "evaluation_request s g = Inr (stream_bytes rd)"
  shows "\<exists>bs w'. identity_serve_once env dir rd \<lparr>written = [], outcomes = []\<rparr> w
      = (Some (Inr ()), \<lparr>written = frame_bytes bs, outcomes = []\<rparr>, w') \<and> 12 \<le> length bs \<and> length bs \<le> MAX_IDENTITY_RESPONSE_BYTES"
proof -
  let ?p = "identity_request_bytes (sample_request s g)"
  note e = evaluation_request_exact [OF assms(2), of g]
  have "length ?p < 2 ^ 32" using e(2)
    by (simp add: MAX_IDENTITY_REQUEST_BYTES_def MAX_FRAME_BYTES_def MAXIMUM_PROFILE_SAMPLES_def EMBEDDING_DIMENSION_def)
  with read_sent_frame [OF e(3) e(2) _ assms(3)] assms(4) e(1)
  obtain rd' where r: "read_frame rd MAX_IDENTITY_REQUEST_BYTES = (Inr ?p, rd')" "fst (require_eof rd') = Inr ()" by auto
  obtain bs cache w' where a: "answer_payload env dir ?p None w = (Some bs, cache, w')" "response_to (request_generation ?p) bs"
    using payload_answered [OF assms(1), of ?p dir None w] by (cases "answer_payload env dir ?p None w") (auto simp: answered_def)
  have b: "bs \<noteq> []" "length bs \<le> MAX_IDENTITY_RESPONSE_BYTES" "12 \<le> length bs"
    using response_to_bounds [OF a(2)] a(2) by (auto simp: response_to_def response_header_def)
  have "length bs < 2 ^ 32" using b(2) by (simp add: MAX_IDENTITY_RESPONSE_BYTES_def EMBEDDING_DIMENSION_def)
  from write_frame_ok [OF b(1,2) this, of "\<lparr>written = [], outcomes = []\<rparr>"] a(1) r b show ?thesis
    by (cases "require_eof rd'") (auto simp: identity_serve_once_def)
qed

section \<open>Accepted manifests\<close>

definition dataset_ok :: "dataset_entry list \<Rightarrow> bool" where
  "dataset_ok es \<longleftrightarrow> distinct (map de_path es) \<and> length es \<le> MAXIMUM_DATASET_SAMPLES \<and> (\<forall>e \<in> set es. de_group e \<noteq> 0)"

lemma dataset_line_group: "dataset_line fs line = Inr e \<Longrightarrow> de_group e \<noteq> 0"
  by (auto simp: dataset_line_def result_iffs split: list.splits if_splits)

lemma dataset_loop_ok: "dataset_loop fs es n items = Inr es' \<Longrightarrow> dataset_ok es \<Longrightarrow> dataset_ok es'"
proof (induction fs es n items rule: dataset_loop.induct)
  case (2 fs es n item items)
  from 2(3) obtain line where l: "item = Inr line" "\<not> n + (length line + 1) > 32 * 1024 * 1024"
    by (auto simp: Let_def split: sum.splits if_splits)
  show ?case
  proof (cases "line = []")
    case True
    with 2(1) [OF l(1) refl l(2)] 2(3,4) l show ?thesis by simp
  next
    case False
    with 2(3) l obtain e where e: "dataset_line fs line = Inr e" "de_path e \<notin> set (map de_path es)"
      "length (es @ [e]) \<le> MAXIMUM_DATASET_SAMPLES" "dataset_loop fs (es @ [e]) (n + (length line + 1)) items = Inr es'"
      by (auto simp: result_iffs split: if_splits)
    have "dataset_ok (es @ [e])" using 2(4) e(2,3) dataset_line_group [OF e(1)] by (auto simp: dataset_ok_def)
    with 2(2) [OF l(1) refl l(2) False] e show ?thesis by simp
  qed
qed simp

lemma load_dataset_manifest_ok:
  assumes "load_dataset_manifest fs path = Inr es"
  shows "dataset_ok es" "\<exists>e \<in> set es. de_role e = Probe"
proof -
  obtain st where f: "df_open fs path = Inr st" using assms by (auto simp: load_dataset_manifest_def result_iffs)
  define ls where "ls = buffered_lines (take_stream 33554433 st)"
  obtain items where i: "dataset_loop fs [] 0 items = Inr es" "\<exists>e \<in> set es. de_role e = Probe"
    using assms f by (cases ls; cases "hd ls")
      (auto simp: load_dataset_manifest_def result_iffs list_ex_iff ls_def [symmetric] split: if_splits)
  have "dataset_ok []" by (simp add: dataset_ok_def)
  with dataset_loop_ok [OF i(1)] i(2) show "dataset_ok es" "\<exists>e \<in> set es. de_role e = Probe" by simp_all
qed

end
