(* ===== verification/Evaluation_Profiles.thy ===== *)
theory Evaluation_Profiles
  imports Evaluation_Input Ordered_Map Face_Profile
begin

text \<open>
  The decision counts of \<^verbatim>\<open>kfaceauth-identity-evaluate.rs\<close>: one bounded profile per enrolled group, every probe
  verified against every profile, and the outcomes counted as genuine or impostor attempts. The loops of the tool are
  shown to compute a reference definition that ranges over accepted profiles and probes, and their counters are
  shown to be complete and far from overflow.
\<close>

section \<open>Decisions\<close>

record decisions =
  attempted :: nat
  match_count :: nat
  no_match :: nat
  ambiguous :: nat
  extraction_failures :: nat

definition decisions_default :: decisions where
  "decisions_default = \<lparr>attempted = 0, match_count = 0, no_match = 0, ambiguous = 0, extraction_failures = 0\<rparr>"

fun decisions_record :: "verification_result \<Rightarrow> decisions \<Rightarrow> decisions" where
  "decisions_record Match d = d\<lparr>attempted := attempted d + 1, match_count := match_count d + 1\<rparr>"
| "decisions_record NoMatch d = d\<lparr>attempted := attempted d + 1, no_match := no_match d + 1\<rparr>"
| "decisions_record Ambiguous d = d\<lparr>attempted := attempted d + 1, ambiguous := ambiguous d + 1\<rparr>"

definition decisions_json :: "decisions \<Rightarrow> string" where
  "decisions_json d =
     ''{'' @ quoted ''attempted'' @ '':'' @ show_nat (attempted d + extraction_failures d)
     @ '','' @ quoted ''Match'' @ '':'' @ show_nat (match_count d)
     @ '','' @ quoted ''NoMatch'' @ '':'' @ show_nat (no_match d)
     @ '','' @ quoted ''Ambiguous'' @ '':'' @ show_nat (ambiguous d)
     @ '','' @ quoted ''extraction_failures'' @ '':'' @ show_nat (extraction_failures d) @ ''}''"

section \<open>Evaluating profiles\<close>

text \<open>
  The extractor is a closure that may observe the time: \<open>f i e\<close> is the outcome of its \<open>i\<close>-th call, on the entry \<open>e\<close>;
  \<open>None\<close> is a panic. The loops return the number of calls made so far.
\<close>

type_synonym extractor = "nat \<Rightarrow> dataset_entry \<Rightarrow> (string + embedding) option"

definition enrollment_groups :: "dataset_entry list \<Rightarrow> (u32, nat) omap" where
  "enrollment_groups entries =
     foldl (\<lambda>groups e. om_insert (de_group e) (om_count groups (de_group e) + 1) groups) []
       (filter (\<lambda>e. de_role e = Enrollment) entries)"

text \<open>Collecting results stops at the first error.\<close>

fun extract_all :: "extractor \<Rightarrow> nat \<Rightarrow> dataset_entry list \<Rightarrow> ((string + embedding list) \<times> nat) option" where
  "extract_all f i [] = Some (Inr [], i)"
| "extract_all f i (e # es) =
     (case f i e of
        None \<Rightarrow> None
      | Some (Inl code) \<Rightarrow> Some (Inl code, Suc i)
      | Some (Inr x) \<Rightarrow> map_option (\<lambda>(r, j). (map_sum id (Cons x) r, j)) (extract_all f (Suc i) es))"

fun record_outcome :: "profile \<Rightarrow> string + embedding \<Rightarrow> decisions \<Rightarrow> decisions" where
  "record_outcome p (Inr candidate) d = decisions_record (verify p candidate) d"
| "record_outcome p (Inl _) d = d\<lparr>extraction_failures := extraction_failures d + 1\<rparr>"

fun probe_loop ::
    "extractor \<Rightarrow> profile \<Rightarrow> u32 \<Rightarrow> nat \<Rightarrow> decisions \<times> decisions \<Rightarrow> dataset_entry list \<Rightarrow> ((decisions \<times> decisions) \<times> nat) option" where
  "probe_loop f p grp i (genuine, impostor) [] = Some ((genuine, impostor), i)"
| "probe_loop f p grp i (genuine, impostor) (probe # probes) =
     (case f i probe of
        None \<Rightarrow> None
      | Some r \<Rightarrow>
          probe_loop f p grp (Suc i)
            (if de_group probe = grp then (record_outcome p r genuine, impostor) else (genuine, record_outcome p r impostor))
            probes)"

record evaluation =
  ev_profiles :: nat
  ev_failures :: nat
  ev_genuine :: decisions
  ev_impostor :: decisions

definition evaluate_group ::
    "extractor \<Rightarrow> dataset_entry list \<Rightarrow> u32 \<times> nat \<Rightarrow> nat \<Rightarrow> evaluation \<Rightarrow> (evaluation \<times> nat) option" where
  "evaluate_group f entries = (\<lambda>(grp, count) i ev.
     if \<not> (3 \<le> count \<and> count \<le> 8) then Some (ev\<lparr>ev_failures := ev_failures ev + 1\<rparr>, i)
     else case extract_all f i (filter (\<lambda>e. de_role e = Enrollment \<and> de_group e = grp) entries) of
       None \<Rightarrow> None
     | Some (embeddings, j) \<Rightarrow>
         (case rbind embeddings (\<lambda>values. ok_or ''profile-bounds'' (profile_new values)) of
            Inl _ \<Rightarrow> Some (ev\<lparr>ev_failures := ev_failures ev + 1\<rparr>, j)
          | Inr p \<Rightarrow>
              map_option (\<lambda>((genuine, impostor), k).
                  (ev\<lparr>ev_profiles := ev_profiles ev + 1, ev_genuine := genuine, ev_impostor := impostor\<rparr>, k))
                (probe_loop f p grp j (ev_genuine ev, ev_impostor ev) (filter (\<lambda>e. de_role e = Probe) entries))))"

fun groups_loop ::
    "extractor \<Rightarrow> dataset_entry list \<Rightarrow> (u32 \<times> nat) list \<Rightarrow> nat \<Rightarrow> evaluation \<Rightarrow> (evaluation \<times> nat) option" where
  "groups_loop f entries [] i ev = Some (ev, i)"
| "groups_loop f entries (gc # groups) i ev =
     (case evaluate_group f entries gc i ev of None \<Rightarrow> None | Some (ev', j) \<Rightarrow> groups_loop f entries groups j ev')"

definition evaluation_start :: evaluation where
  "evaluation_start = \<lparr>ev_profiles = 0, ev_failures = 0, ev_genuine = decisions_default, ev_impostor = decisions_default\<rparr>"

definition evaluate_profiles :: "extractor \<Rightarrow> dataset_entry list \<Rightarrow> evaluation option" where
  "evaluate_profiles f entries = map_option fst (groups_loop f entries (enrollment_groups entries) 0 evaluation_start)"

section \<open>The groups\<close>

definition group_samples :: "dataset_entry list \<Rightarrow> u32 \<Rightarrow> dataset_entry list" where
  "group_samples entries grp = filter (\<lambda>e. de_role e = Enrollment \<and> de_group e = grp) entries"

definition probe_entries :: "dataset_entry list \<Rightarrow> dataset_entry list" where
  "probe_entries entries = filter (\<lambda>e. de_role e = Probe) entries"

definition group_numbers :: "dataset_entry list \<Rightarrow> u32 list" where
  "group_numbers entries = sorted_list_of_set (de_group ` {e \<in> set entries. de_role e = Enrollment})"

definition counted :: "dataset_entry list \<Rightarrow> (u32, nat) omap \<Rightarrow> bool" where
  "counted es m \<longleftrightarrow> om_inv m \<and> (\<forall>g. om_get m g = (let n = length (filter (\<lambda>e. de_group e = g) es) in if n = 0 then None else Some n))"

lemma counted_foldl: "counted es (foldl (\<lambda>groups e. om_insert (de_group e) (om_count groups (de_group e) + 1) groups) [] es)"
proof (induction es rule: rev_induct)
  case (snoc e es)
  then show ?case by (auto simp: counted_def Let_def om_inv_insert om_get_insert)
qed (simp add: counted_def)

lemma enrollment_groups_alt: "enrollment_groups entries = map (\<lambda>g. (g, length (group_samples entries g))) (group_numbers entries)"
proof (rule om_inv_ext)
  let ?es = "filter (\<lambda>e. de_role e = Enrollment) entries"
  have c: "counted ?es (enrollment_groups entries)" unfolding enrollment_groups_def by (rule counted_foldl)
  then show "om_inv (enrollment_groups entries)" by (simp add: counted_def)
  show "om_inv (map (\<lambda>g. (g, length (group_samples entries g))) (group_numbers entries))"
    by (simp add: om_inv_def group_numbers_def o_def)
  show "om_get (enrollment_groups entries) = om_get (map (\<lambda>g. (g, length (group_samples entries g))) (group_numbers entries))"
  proof
    fix g
    have "filter (\<lambda>e. de_group e = g) ?es = group_samples entries g" by (simp add: group_samples_def conj_commute)
    moreover have "group_samples entries g = [] \<longleftrightarrow> g \<notin> set (group_numbers entries)"
      by (auto simp: group_samples_def group_numbers_def filter_empty_conv)
    ultimately show "om_get (enrollment_groups entries) g = om_get (map (\<lambda>g. (g, length (group_samples entries g))) (group_numbers entries)) g"
      using c by (simp add: counted_def Let_def map_of_map_restrict restrict_map_def)
  qed
qed

section \<open>Counters\<close>

text \<open>All outcomes a counter has recorded.\<close>

definition outcomes_of :: "decisions \<Rightarrow> nat" where
  "outcomes_of d = attempted d + extraction_failures d"

definition decisions_ok :: "decisions \<Rightarrow> bool" where
  "decisions_ok d \<longleftrightarrow> attempted d = match_count d + no_match d + ambiguous d"

lemma decisions_record_counts:
  "decisions_ok (decisions_record r d) \<longleftrightarrow> decisions_ok d" "outcomes_of (decisions_record r d) = Suc (outcomes_of d)"
  by (cases r; simp add: decisions_ok_def outcomes_of_def)+

lemma record_outcome_counts:
  "decisions_ok (record_outcome p r d) \<longleftrightarrow> decisions_ok d" "outcomes_of (record_outcome p r d) = Suc (outcomes_of d)"
  by (cases r; simp add: decisions_record_counts; simp add: decisions_ok_def outcomes_of_def)+

lemma probe_loop_counts:
  "probe_loop f p grp i (genuine, impostor) es = Some ((genuine', impostor'), j) \<Longrightarrow>
     decisions_ok genuine \<Longrightarrow> decisions_ok impostor \<Longrightarrow>
     decisions_ok genuine' \<and> decisions_ok impostor'
     \<and> outcomes_of genuine' = outcomes_of genuine + length (filter (\<lambda>e. de_group e = grp) es)
     \<and> outcomes_of impostor' = outcomes_of impostor + length (filter (\<lambda>e. de_group e \<noteq> grp) es)"
proof (induction es arbitrary: i genuine impostor)
  case (Cons e es)
  from Cons.prems(1) obtain r where r: "f i e = Some r" by (auto split: option.splits)
  show ?case
    using Cons.IH [of "Suc i" "if de_group e = grp then record_outcome p r genuine else genuine"
        "if de_group e = grp then impostor else record_outcome p r impostor"] Cons.prems r
    by (auto simp: record_outcome_counts split: if_splits)
qed simp

definition evaluation_ok :: "nat \<Rightarrow> nat \<Rightarrow> evaluation \<Rightarrow> bool" where
  "evaluation_ok n m ev \<longleftrightarrow> decisions_ok (ev_genuine ev) \<and> decisions_ok (ev_impostor ev)
     \<and> ev_profiles ev + ev_failures ev = n
     \<and> outcomes_of (ev_genuine ev) + outcomes_of (ev_impostor ev) = ev_profiles ev * m"

lemma length_split_filter: "length (filter P xs) + length (filter (\<lambda>x. \<not> P x) xs) = length xs"
  by (induction xs) simp_all

lemma evaluate_group_counts:
  assumes "evaluate_group f entries gc i ev = Some (ev', j)" "evaluation_ok n (length (probe_entries entries)) ev"
  shows "evaluation_ok (Suc n) (length (probe_entries entries)) ev'"
proof -
  obtain grp count where gc: "gc = (grp, count)" by (cases gc)
  consider "ev' = ev\<lparr>ev_failures := ev_failures ev + 1\<rparr>"
    | p k genuine impostor where
        "probe_loop f p grp k (ev_genuine ev, ev_impostor ev) (probe_entries entries) = Some ((genuine, impostor), j)"
        "ev' = ev\<lparr>ev_profiles := ev_profiles ev + 1, ev_genuine := genuine, ev_impostor := impostor\<rparr>"
    using assms(1) by (auto simp: evaluate_group_def gc probe_entries_def split: if_splits option.splits prod.splits sum.splits)
  then show ?thesis
  proof cases
    case 1
    with assms(2) show ?thesis by (simp add: evaluation_ok_def)
  next
    case 2
    note c = probe_loop_counts [OF 2(1)] and s = length_split_filter [of "\<lambda>e. de_group e = grp" "probe_entries entries"]
    from c s assms(2) 2(2) show ?thesis by (auto simp: evaluation_ok_def algebra_simps)
  qed
qed

lemma groups_loop_counts:
  "groups_loop f entries gs i ev = Some (ev', j) \<Longrightarrow> evaluation_ok n (length (probe_entries entries)) ev
     \<Longrightarrow> evaluation_ok (n + length gs) (length (probe_entries entries)) ev'"
proof (induction gs arbitrary: i ev n)
  case (Cons gc gs)
  then obtain ev1 k where e: "evaluate_group f entries gc i ev = Some (ev1, k)" "groups_loop f entries gs k ev1 = Some (ev', j)"
    by (auto split: option.splits)
  from Cons.IH [OF e(2) evaluate_group_counts [OF e(1) Cons.prems(2)]] show ?case by simp
qed simp

lemma evaluate_profiles_counts:
  assumes "evaluate_profiles f entries = Some ev"
  shows "evaluation_ok (length (group_numbers entries)) (length (probe_entries entries)) ev"
proof -
  obtain i where "groups_loop f entries (enrollment_groups entries) 0 evaluation_start = Some (ev, i)"
    using assms by (auto simp: evaluate_profiles_def)
  moreover have "evaluation_ok 0 (length (probe_entries entries)) evaluation_start"
    by (simp add: evaluation_ok_def evaluation_start_def decisions_default_def decisions_ok_def outcomes_of_def)
  ultimately show ?thesis using groups_loop_counts [where n = 0] by (fastforce simp: enrollment_groups_alt)
qed

lemma group_numbers_bound: "length (group_numbers entries) \<le> length entries"
proof -
  have "card (de_group ` {e \<in> set entries. de_role e = Enrollment}) \<le> card {e \<in> set entries. de_role e = Enrollment}"
    by (rule card_image_le) simp
  also have "\<dots> \<le> card (set entries)" by (rule card_mono) auto
  also have "\<dots> \<le> length entries" by (rule card_length)
  finally show ?thesis by (simp add: group_numbers_def)
qed

text \<open>No counter of an accepted dataset comes near the end of its 64 bits.\<close>

lemma evaluation_no_overflow:
  assumes "evaluate_profiles f entries = Some ev" "dataset_ok entries"
  shows "outcomes_of (ev_genuine ev) + outcomes_of (ev_impostor ev) < 2 ^ 64"
proof -
  note c = evaluate_profiles_counts [OF assms(1)]
  have n: "length entries \<le> 100000" using assms(2) by (simp add: dataset_ok_def MAXIMUM_DATASET_SAMPLES_def)
  have "ev_profiles ev \<le> 100000" using c n group_numbers_bound [of entries] by (simp add: evaluation_ok_def)
  moreover have "length (probe_entries entries) \<le> 100000"
    using n length_filter_le [of "\<lambda>e. de_role e = Probe" entries] unfolding probe_entries_def by linarith
  ultimately have "ev_profiles ev * length (probe_entries entries) \<le> 100000 * 100000" by (rule mult_le_mono)
  with c show ?thesis by (simp add: evaluation_ok_def)
qed

section \<open>The reference evaluation\<close>

text \<open>
  What is counted when extraction depends on the entry alone: a list of outcomes, where no outcome is a failed
  extraction. A group is accepted when it has three to eight samples and all of them are extracted.
\<close>

definition tally :: "verification_result option list \<Rightarrow> decisions" where
  "tally rs = \<lparr>attempted = length (filter (\<lambda>r. r \<noteq> None) rs), match_count = length (filter (\<lambda>r. r = Some Match) rs),
     no_match = length (filter (\<lambda>r. r = Some NoMatch) rs), ambiguous = length (filter (\<lambda>r. r = Some Ambiguous) rs),
     extraction_failures = length (filter (\<lambda>r. r = None) rs)\<rparr>"

definition group_profile :: "(dataset_entry \<Rightarrow> string + embedding) \<Rightarrow> dataset_entry list \<Rightarrow> u32 \<Rightarrow> profile option" where
  "group_profile g entries grp =
     (let es = group_samples entries grp in
      if 3 \<le> length es \<and> length es \<le> 8 \<and> list_all (\<lambda>e. is_ok (g e)) es then Some \<lparr>samples = map (\<lambda>e. projr (g e)) es\<rparr> else None)"

definition probe_outcome :: "(dataset_entry \<Rightarrow> string + embedding) \<Rightarrow> profile \<Rightarrow> dataset_entry \<Rightarrow> verification_result option" where
  "probe_outcome g p e = (case g e of Inl _ \<Rightarrow> None | Inr candidate \<Rightarrow> Some (verify p candidate))"

definition group_outcomes ::
    "(dataset_entry \<Rightarrow> string + embedding) \<Rightarrow> dataset_entry list \<Rightarrow> (u32 \<Rightarrow> u32 \<Rightarrow> bool) \<Rightarrow> u32 \<Rightarrow> verification_result option list" where
  "group_outcomes g entries same grp =
     (case group_profile g entries grp of
        None \<Rightarrow> []
      | Some p \<Rightarrow> map (probe_outcome g p) (filter (\<lambda>e. same (de_group e) grp) (probe_entries entries)))"

definition reference_evaluation :: "(dataset_entry \<Rightarrow> string + embedding) \<Rightarrow> dataset_entry list \<Rightarrow> evaluation" where
  "reference_evaluation g entries =
     (let gs = group_numbers entries; accepted = filter (\<lambda>grp. group_profile g entries grp \<noteq> None) gs in
      \<lparr>ev_profiles = length accepted, ev_failures = length gs - length accepted,
       ev_genuine = tally (concat (map (group_outcomes g entries (=)) gs)),
       ev_impostor = tally (concat (map (group_outcomes g entries (\<noteq>)) gs))\<rparr>)"

lemma tally_Nil: "tally [] = decisions_default"
  by (simp add: tally_def decisions_default_def)

lemma tally_snoc: "record_outcome p (g e) (tally rs) = tally (rs @ [probe_outcome g p e])"
proof (cases "g e")
  case (Inr c)
  then show ?thesis by (cases "verify p c") (simp_all add: tally_def probe_outcome_def)
qed (simp add: tally_def probe_outcome_def)

abbreviation stable :: "(dataset_entry \<Rightarrow> string + embedding) \<Rightarrow> extractor" where
  "stable g \<equiv> (\<lambda>_ e. Some (g e))"

lemma extract_all_stable:
  "\<exists>r j. extract_all (stable g) i es = Some (r, j) \<and> (if list_all (\<lambda>e. is_ok (g e)) es then r = Inr (map (\<lambda>e. projr (g e)) es) else \<exists>c. r = Inl c)"
proof (induction es arbitrary: i)
  case (Cons e es)
  obtain r j where r: "extract_all (stable g) (Suc i) es = Some (r, j)"
    "if list_all (\<lambda>e. is_ok (g e)) es then r = Inr (map (\<lambda>e. projr (g e)) es) else \<exists>c. r = Inl c"
    using Cons.IH by blast
  then show ?case by (cases "g e"; cases "list_all (\<lambda>e. is_ok (g e)) es") auto
qed simp

lemma probe_loop_stable:
  "\<exists>j. probe_loop (stable g) p grp i (tally as, tally bs) es
      = Some ((tally (as @ map (probe_outcome g p) (filter (\<lambda>e. de_group e = grp) es)),
               tally (bs @ map (probe_outcome g p) (filter (\<lambda>e. de_group e \<noteq> grp) es))), j)"
proof (induction es arbitrary: i as bs)
  case (Cons e es)
  then show ?case
    using Cons.IH [of "Suc i" "as @ [probe_outcome g p e]" bs] Cons.IH [of "Suc i" as "bs @ [probe_outcome g p e]"]
    by (simp add: tally_snoc)
qed simp

definition partial_evaluation :: "(dataset_entry \<Rightarrow> string + embedding) \<Rightarrow> dataset_entry list \<Rightarrow> u32 list \<Rightarrow> evaluation" where
  "partial_evaluation g entries gs =
     (let accepted = filter (\<lambda>grp. group_profile g entries grp \<noteq> None) gs in
      \<lparr>ev_profiles = length accepted, ev_failures = length gs - length accepted,
       ev_genuine = tally (concat (map (group_outcomes g entries (=)) gs)),
       ev_impostor = tally (concat (map (group_outcomes g entries (\<noteq>)) gs))\<rparr>)"

lemma evaluate_group_stable:
  "\<exists>j. evaluate_group (stable g) entries (grp, length (group_samples entries grp)) i (partial_evaluation g entries gs)
      = Some (partial_evaluation g entries (gs @ [grp]), j)"
proof (cases "group_profile g entries grp")
  case None
  then have r: "partial_evaluation g entries gs\<lparr>ev_failures := ev_failures (partial_evaluation g entries gs) + 1\<rparr>
      = partial_evaluation g entries (gs @ [grp])"
    by (simp add: partial_evaluation_def group_outcomes_def Let_def Suc_diff_le)
  obtain es j where x: "extract_all (stable g) i (group_samples entries grp) = Some (es, j)"
    "if list_all (\<lambda>e. is_ok (g e)) (group_samples entries grp) then es = Inr (map (\<lambda>e. projr (g e)) (group_samples entries grp)) else \<exists>c. es = Inl c"
    using extract_all_stable by blast
  with None r show ?thesis
    by (auto simp: evaluate_group_def group_profile_def Let_def group_samples_def [symmetric] split: if_splits)
next
  case (Some p)
  let ?e = "partial_evaluation g entries gs"
  have o: "3 \<le> length (group_samples entries grp)" "length (group_samples entries grp) \<le> 8" "list_all (\<lambda>e. is_ok (g e)) (group_samples entries grp)"
    and p: "p = \<lparr>samples = map (\<lambda>e. projr (g e)) (group_samples entries grp)\<rparr>"
    using Some by (auto simp: group_profile_def Let_def split: if_splits)
  then have n: "profile_new (map (\<lambda>e. projr (g e)) (group_samples entries grp)) = Some p"
    by (simp add: profile_new_def MINIMUM_PROFILE_SAMPLES_def MAXIMUM_PROFILE_SAMPLES_def)
  obtain j where x: "extract_all (stable g) i (group_samples entries grp) = Some (Inr (map (\<lambda>e. projr (g e)) (group_samples entries grp)), j)"
    using extract_all_stable [of g i "group_samples entries grp"] o(3) by auto
  have s: "ev_genuine ?e = tally (concat (map (group_outcomes g entries (=)) gs))"
    "ev_impostor ?e = tally (concat (map (group_outcomes g entries (\<noteq>)) gs))"
    by (simp_all add: partial_evaluation_def Let_def)
  obtain k where "probe_loop (stable g) p grp j (ev_genuine ?e, ev_impostor ?e) (probe_entries entries)
      = Some ((ev_genuine (partial_evaluation g entries (gs @ [grp])), ev_impostor (partial_evaluation g entries (gs @ [grp]))), k)"
    using probe_loop_stable Some unfolding s by (fastforce simp: partial_evaluation_def Let_def group_outcomes_def)
  with o n x Some show ?thesis
    by (simp add: evaluate_group_def group_samples_def [symmetric] probe_entries_def [symmetric])
      (simp add: partial_evaluation_def Let_def)
qed

lemma groups_loop_stable:
  "\<exists>j. groups_loop (stable g) entries (map (\<lambda>grp. (grp, length (group_samples entries grp))) gs) i (partial_evaluation g entries hs)
      = Some (partial_evaluation g entries (hs @ gs), j)"
proof (induction gs arbitrary: i hs)
  case (Cons grp gs)
  obtain j where j: "evaluate_group (stable g) entries (grp, length (group_samples entries grp)) i (partial_evaluation g entries hs)
      = Some (partial_evaluation g entries (hs @ [grp]), j)"
    using evaluate_group_stable by blast
  with Cons.IH [of j "hs @ [grp]"] show ?case by simp
qed simp

lemma evaluate_profiles_stable:
  "evaluate_profiles (stable g) entries = Some (reference_evaluation g entries)"
proof -
  have "evaluation_start = partial_evaluation g entries []"
    by (simp add: evaluation_start_def partial_evaluation_def tally_Nil)
  moreover have "reference_evaluation g entries = partial_evaluation g entries (group_numbers entries)"
    by (simp add: reference_evaluation_def partial_evaluation_def Let_def)
  ultimately show ?thesis
    using groups_loop_stable [of g entries "group_numbers entries" 0 "[]"]
    by (auto simp: evaluate_profiles_def enrollment_groups_alt)
qed

text \<open>
  Claim C39: For every dataset the manifest parser accepts: when extraction depends on the entry alone, the loops of
  the tool compute the reference evaluation, in which a group counts as a profile exactly when it has three to eight
  enrollment samples that are all extracted, and every probe is counted once per accepted profile, as genuine for its
  own group and as impostor for every other. For any extractor, also one whose outcome changes from call to call, each
  group is counted once as a profile or a failure, every verified probe has exactly one verdict, the outcomes
  of both tallies together are the accepted profiles times the probes, and no counter leaves 64 bits.
\<close>

theorem evaluation_tallies:
  assumes "load_dataset_manifest fs path = Inr entries"
  shows "evaluate_profiles (\<lambda>_ e. Some (g e)) entries = Some (reference_evaluation g entries)
    \<and> (\<forall>f ev. evaluate_profiles f entries = Some ev \<longrightarrow>
         ev_profiles ev + ev_failures ev = length (group_numbers entries)
       \<and> decisions_ok (ev_genuine ev) \<and> decisions_ok (ev_impostor ev)
       \<and> outcomes_of (ev_genuine ev) + outcomes_of (ev_impostor ev) = ev_profiles ev * length (probe_entries entries)
       \<and> outcomes_of (ev_genuine ev) + outcomes_of (ev_impostor ev) < 2 ^ 64)"
  using evaluate_profiles_stable evaluate_profiles_counts evaluation_no_overflow [OF _ load_dataset_manifest_ok(1) [OF assms]]
  by (auto simp: evaluation_ok_def)

definition dataset_row :: "string \<Rightarrow> string \<Rightarrow> string \<Rightarrow> string" where
  "dataset_row g r p = g @ TAB # r @ TAB # p"

definition sample_rows :: "string list" where
  "sample_rows = [''kfaceauth-evaluation-v2'', dataset_row ''1'' ''enrollment'' ''/a'', dataset_row ''1'' ''enrollment'' ''/b'',
     dataset_row ''1'' ''enrollment'' ''/c'', dataset_row ''2'' ''enrollment'' ''/d'', [], dataset_row ''1'' ''probe'' ''/p'',
     dataset_row ''2'' ''probe'' ''/q'']"

definition sample_dataset :: string where
  "sample_dataset = concat (map (\<lambda>l. l @ [CR, LF]) sample_rows)"

definition sample_files :: dataset_files where
  "sample_files = \<lparr>df_open = (\<lambda>_. Inr \<lparr>st_content = text_bytes sample_dataset, st_failure = None\<rparr>), df_canonicalize = Inr\<rparr>"

definition sample_entries :: "dataset_entry list" where
  "sample_entries = [\<lparr>de_group = 1, de_role = Enrollment, de_path = ''/a''\<rparr>, \<lparr>de_group = 1, de_role = Enrollment, de_path = ''/b''\<rparr>,
     \<lparr>de_group = 1, de_role = Enrollment, de_path = ''/c''\<rparr>, \<lparr>de_group = 2, de_role = Enrollment, de_path = ''/d''\<rparr>,
     \<lparr>de_group = 1, de_role = Probe, de_path = ''/p''\<rparr>, \<lparr>de_group = 2, de_role = Probe, de_path = ''/q''\<rparr>]"

lemma split_on_rows: "(\<And>l. l \<in> set ls \<Longrightarrow> c \<notin> set l) \<Longrightarrow> c \<noteq> d \<Longrightarrow> split_on c (concat (map (\<lambda>l. l @ [d, c]) ls)) = map (\<lambda>l. l @ [d]) ls @ [[]]"
proof (induction ls)
  case (Cons l ls)
  then show ?case using split_on_append [of c "l @ [d]" "concat (map (\<lambda>l. l @ [d, c]) ls)"] by simp
qed simp

lemma finished_row: "is_ascii l \<Longrightarrow> finished_line (l @ [CR]) = Inr l"
proof -
  assume "is_ascii l"
  then have "utf8_valid (map byte (l @ [CR]))" by (intro utf8_valid_is_ascii) (auto simp: is_ascii_def byte_def)
  then show ?thesis by (simp add: finished_line_def strip_suffix_char_def)
qed

lemma sample_rows_plain: "l \<in> set sample_rows \<Longrightarrow> LF \<notin> set l \<and> is_ascii l"
  by (auto simp: sample_rows_def dataset_row_def is_ascii_def byte_def)

lemma sample_dataset_lines:
  "buffered_lines (take_stream 33554433 \<lparr>st_content = text_bytes sample_dataset, st_failure = None\<rparr>) = map Inr sample_rows"
proof -
  have "length (text_bytes sample_dataset) < 33554433"
    by (simp add: sample_dataset_def text_bytes_def sample_rows_def dataset_row_def)
  then have "take_stream 33554433 \<lparr>st_content = text_bytes sample_dataset, st_failure = None\<rparr>
      = \<lparr>st_content = text_bytes sample_dataset, st_failure = None\<rparr>" by (simp add: take_stream_def)
  moreover have "split_on LF sample_dataset = map (\<lambda>l. l @ [CR]) sample_rows @ [[]]"
    unfolding sample_dataset_def by (rule split_on_rows) (auto dest: sample_rows_plain)
  moreover have "map (finished_line \<circ> (\<lambda>l. l @ [CR])) sample_rows = map Inr sample_rows"
    using sample_rows_plain by (auto simp: finished_row)
  ultimately show ?thesis by (simp add: buffered_lines_def last_line_def)
qed

lemma split_row: "TAB \<notin> set g \<Longrightarrow> TAB \<notin> set r \<Longrightarrow> TAB \<notin> set p \<Longrightarrow> split_on TAB (dataset_row g r p) = [g, r, p]"
  by (simp add: dataset_row_def)

lemma row_not_empty: "dataset_row g r p \<noteq> []"
  by (simp add: dataset_row_def)

lemma sample_numbers: "parse_u32 ''1'' = Some 1" "parse_u32 ''2'' = Some 2"
  by (simp_all add: parse_u32_def parse_unsigned_def is_ascii_digit_def byte_def)

lemma sample_row:
  "TAB \<notin> set p \<Longrightarrow> is_absolute p \<Longrightarrow> parse_u32 g = Some n \<Longrightarrow> n \<noteq> 0 \<Longrightarrow> TAB \<notin> set g \<Longrightarrow>
     dataset_line sample_files (dataset_row g ''enrollment'' p) = Inr \<lparr>de_group = n, de_role = Enrollment, de_path = p\<rparr>"
  "TAB \<notin> set p \<Longrightarrow> is_absolute p \<Longrightarrow> parse_u32 g = Some n \<Longrightarrow> n \<noteq> 0 \<Longrightarrow> TAB \<notin> set g \<Longrightarrow>
     dataset_line sample_files (dataset_row g ''probe'' p) = Inr \<lparr>de_group = n, de_role = Probe, de_path = p\<rparr>"
  by (simp_all add: dataset_line_def split_row role_of_def sample_files_def)

lemma row_length: "length (dataset_row g r p) = length g + length r + length p + 2"
  by (simp add: dataset_row_def)

lemma sample_dataset_loads: "load_dataset_manifest sample_files ''/m'' = Inr sample_entries"
proof -
  define rs where "rs = tl sample_rows"
  have l: "dataset_loop sample_files [] 0 (map Inr rs) = Inr sample_entries"
    by (simp add: rs_def sample_rows_def sample_row sample_numbers is_absolute_def row_not_empty row_length
        MAXIMUM_DATASET_SAMPLES_def sample_entries_def)
  have "sample_rows = ''kfaceauth-evaluation-v2'' # rs" by (simp add: rs_def sample_rows_def)
  then have b: "buffered_lines (take_stream 33554433 \<lparr>st_content = text_bytes sample_dataset, st_failure = None\<rparr>)
      = Inr ''kfaceauth-evaluation-v2'' # map Inr rs" using sample_dataset_lines by (metis list.simps(9))
  have o: "df_open sample_files ''/m'' = Inr \<lparr>st_content = text_bytes sample_dataset, st_failure = None\<rparr>"
    by (simp add: sample_files_def)
  have "sample_entries \<noteq> []" "list_ex (\<lambda>e. de_role e = Probe) sample_entries" by (simp_all add: sample_entries_def)
  then show ?thesis by (simp add: load_dataset_manifest_def o b l)
qed

theorem evaluation_tallies_witness:
  "evaluate_profiles (\<lambda>_ e. Some (if de_path e = ''/q'' then Inl ''no-face'' else Inr unit_embedding)) sample_entries
     = Some (reference_evaluation (\<lambda>e. if de_path e = ''/q'' then Inl ''no-face'' else Inr unit_embedding) sample_entries)"
  by (rule evaluation_tallies [OF sample_dataset_loads, THEN conjunct1])

end
