(* ===== verification/Evaluation_Run.thy ===== *)
theory Evaluation_Run
  imports Evaluation_Profiles "HOL-Library.Char_ord" "HOL-Library.List_Lexorder"
begin

text \<open>
  The run of \<^verbatim>\<open>kfaceauth-identity-evaluate.rs\<close>: the extraction of one sample, the worker process it measures, the
  statistics it prints, and the report. The lemmas relate the parent's checks on a worker to what the identity worker
  answers, bound the printed percentile, and say what a report that calls itself dataset-scoped has covered.
\<close>

section \<open>Extraction of one sample\<close>

fun evaluation_error :: "identity_error \<Rightarrow> string" where
  "evaluation_error ID_Cancelled = ''cancelled''"
| "evaluation_error ID_DeadlineExceeded = ''deadline''"
| "evaluation_error ID_NoFace = ''no-face''"
| "evaluation_error ID_MultipleFaces = ''multiple-faces''"
| "evaluation_error ID_PoorQuality = ''poor-quality''"
| "evaluation_error ID_FaceGeometry = ''face-geometry''"
| "evaluation_error ID_LivenessUnavailable = ''liveness-unavailable''"
| "evaluation_error ID_InvalidEmbedding = ''invalid-embedding''"
| "evaluation_error (ID_SpoofDetected _) = ''spoof-detected''"
| "evaluation_error (ID_Runtime _) = ''runtime''"

text \<open>The token is never cancelled; \<open>clock i\<close> is the time the \<open>i\<close>-th look at the clock sees.\<close>

definition evaluation_control :: "(nat \<Rightarrow> nat) \<Rightarrow> control" where
  "evaluation_control clock =
     \<lparr>ctl_deadline = clock 0 + 10000 * MILLISECOND, ctl_cancelled = (\<lambda>_. False), ctl_clock = clock\<rparr>"

definition evaluation_extract ::
    "vision_native \<Rightarrow> identity_provider \<Rightarrow> (nat \<Rightarrow> nat) \<Rightarrow> source_sample \<Rightarrow> (string + embedding) option" where
  "evaluation_extract vn prov clock sample =
     cbind (Some (ok_or ''invalid-frame'' (checked_mul (ss_width sample) 3))) (\<lambda>stride.
     cbind (Some (map_err (\<lambda>_. ''invalid-frame'')
              (image_view_new Rgb8 (ss_width sample) (ss_height sample) stride (ss_bytes sample)))) (\<lambda>image.
     map_option (map_sum evaluation_error fst)
       (extract_embedding vn prov image (evaluation_control clock) 1 LocalProfile)))"

section \<open>The worker process\<close>

definition WORKER_RSS_PREFIX :: string where
  "WORKER_RSS_PREFIX = ''kfaceauth-evaluation-worker-peak-rss-kib=''"

definition strip_start :: "string \<Rightarrow> string \<Rightarrow> string option" where
  "strip_start p s = (if take (length p) s = p then Some (drop (length p) s) else None)"

definition strip_end :: "string \<Rightarrow> string \<Rightarrow> string option" where
  "strip_end p s = map_option rev (strip_start (rev p) (rev s))"

fun find_map :: "('a \<Rightarrow> 'b option) \<Rightarrow> 'a list \<Rightarrow> 'b option" where
  "find_map f [] = None"
| "find_map f (x # xs) = (case f x of None \<Rightarrow> find_map f xs | Some y \<Rightarrow> Some y)"

definition parse_worker_peak_rss :: "bytes \<Rightarrow> u64 option" where
  "parse_worker_peak_rss stderr =
     (if utf8_valid (map unat stderr)
      then find_map (\<lambda>line. Option.bind (strip_start WORKER_RSS_PREFIX line) parse_u64) (str_lines (bytes_text stderr))
      else None)"

text \<open>\<open>status\<close> is what reading \<^verbatim>\<open>/proc/self/status\<close> delivers.\<close>

definition peak_rss_kib :: "io_kind + bytes \<Rightarrow> u64 option" where
  "peak_rss_kib status =
     (case status of
        Inl _ \<Rightarrow> None
      | Inr bs \<Rightarrow>
          if utf8_valid (map unat bs) then
            find_map (\<lambda>line.
                Option.bind (strip_start ''VmHWM:'' line) (\<lambda>value.
                Option.bind (strip_end ''kB'' (trim value)) (\<lambda>number. parse_u64 (trim number))))
              (str_lines (bytes_text bs))
          else None)"

text \<open>
  The exit code of the worker mode with what it wrote to its output and its error stream; \<open>args\<close> are the arguments
  after the mode, \<open>hardened\<close> whether core dumps could be disabled. \<open>None\<close> is a panic.
\<close>

record worker_exit =
  wx_code :: int
  wx_stdout :: bytes
  wx_stderr :: bytes

definition run_evaluation_worker_once ::
    "worker_env \<Rightarrow> bool \<Rightarrow> io_kind + bytes \<Rightarrow> string list \<Rightarrow> reader \<Rightarrow> writer \<Rightarrow> world \<Rightarrow> worker_exit option" where
  "run_evaluation_worker_once env hardened status args rd wr w =
     (case args of
        [] \<Rightarrow> Some \<lparr>wx_code = 2, wx_stdout = [], wx_stderr = []\<rparr>
      | model_root # others \<Rightarrow>
          if others \<noteq> [] \<or> \<not> is_absolute model_root then Some \<lparr>wx_code = 2, wx_stdout = [], wx_stderr = []\<rparr>
          else if \<not> hardened then Some \<lparr>wx_code = 3, wx_stdout = [], wx_stderr = []\<rparr>
          else case identity_serve_once env model_root rd wr w of
            (None, _) \<Rightarrow> None
          | (Some result, wr', _) \<Rightarrow>
              Some \<lparr>wx_code = (if is_ok result then 0 else 4), wx_stdout = written wr',
                    wx_stderr = (case peak_rss_kib status of
                                   None \<Rightarrow> []
                                 | Some value \<Rightarrow> text_bytes (WORKER_RSS_PREFIX @ show_nat (unat value) @ [LF]))\<rparr>)"

text \<open>What the parent observes of a child: each call may fail; the child is a function of the bytes it is sent.\<close>

record child_run =
  cr_current_exe :: bool
  cr_spawn :: bool
  cr_write :: bool
  cr_wait :: bool
  cr_child :: "bytes \<Rightarrow> worker_exit"
  cr_elapsed :: nat

definition run_evaluation_worker_process :: "child_run \<Rightarrow> source_sample \<Rightarrow> u64 \<Rightarrow> string + nat \<times> u64 option" where
  "run_evaluation_worker_process cr sample generation =
     (if \<not> cr_current_exe cr then Inl ''evaluation-worker-unavailable''
      else rbind (evaluation_request sample generation) (\<lambda>request.
        if \<not> cr_spawn cr then Inl ''evaluation-worker-unavailable''
        else if \<not> cr_write cr then Inl ''evaluation-worker-io-failed''
        else if \<not> cr_wait cr then Inl ''evaluation-worker-io-failed''
        else let output = cr_child cr request in
          if wx_code output \<noteq> 0 \<or> length (wx_stdout output) < 16
            \<or> length (wx_stdout output) > MAX_IDENTITY_RESPONSE_BYTES + 4
          then Inl ''evaluation-worker-failed''
          else Inr (cr_elapsed cr, parse_worker_peak_rss (wx_stderr output))))"

section \<open>Printing\<close>

text \<open>Durations in nanoseconds; \<^verbatim>\<open>as_secs_f64\<close> adds the whole seconds and the fraction.\<close>

definition as_secs_f64 :: "nat \<Rightarrow> fl" where
  "as_secs_f64 d =
     f64_add (round64 False (of_nat (d div 10 ^ 9))) (f64_div (round64 False (of_nat (d mod 10 ^ 9))) (Fin False (10 ^ 9)))"

definition milliseconds :: "nat \<Rightarrow> fl" where
  "milliseconds d = f64_mul (as_secs_f64 d) (Fin False 1000)"

text \<open>The format \<^verbatim>\<open>{:.3}\<close> of a finite value that is not negative: the exact value, rounded half to even.\<close>

definition fixed3 :: "fl \<Rightarrow> string" where
  "fixed3 x =
     (let n = nat (round_half_even (fl_value x * 1000)) in
      show_nat (n div 1000) @ ''.'' @ [digit_char (n div 100 mod 10), digit_char (n div 10 mod 10), digit_char (n mod 10)])"

definition p95_index :: "nat \<Rightarrow> nat" where
  "p95_index n = (min (n * 95) (2 ^ 64 - 1) + 99) div 100 - 1"

definition latency_json :: "nat list \<Rightarrow> string" where
  "latency_json vals =
     (if vals = [] then
        ''{'' @ quoted ''count'' @ '':0,'' @ quoted ''median'' @ '':null,'' @ quoted ''p95'' @ '':null,'' @ quoted ''worst'' @ '':null}''
      else let s = sort vals in
        ''{'' @ quoted ''count'' @ '':'' @ show_nat (length s)
        @ '','' @ quoted ''median'' @ '':'' @ fixed3 (milliseconds (s ! (length s div 2)))
        @ '','' @ quoted ''p95'' @ '':'' @ fixed3 (milliseconds (s ! p95_index (length s)))
        @ '','' @ quoted ''worst'' @ '':'' @ fixed3 (milliseconds (last s)) @ ''}'')"

text \<open>A control character of two bytes is U+0080 to U+009F.\<close>

fun json_string :: "string \<Rightarrow> string" where
  "json_string [] = []"
| "json_string (c # s) =
     (if c = DQ then [CHR 0x5C, DQ] @ json_string s
      else if c = CHR 0x5C then [CHR 0x5C, CHR 0x5C] @ json_string s
      else if c = LF then CHR 0x5C # ''n'' @ json_string s
      else if c = CR then CHR 0x5C # ''r'' @ json_string s
      else if c = TAB then CHR 0x5C # ''t'' @ json_string s
      else if byte c < 32 \<or> byte c = 127 then ''?'' @ json_string s
      else case s of
        [] \<Rightarrow> [c]
      | d # s' \<Rightarrow> if byte c = 0xC2 \<and> 0x80 \<le> byte d \<and> byte d \<le> 0x9F then ''?'' @ json_string s' else c # json_string s)"

section \<open>The run\<close>

text \<open>
  What surrounds a run: the files, the networks and their runtime, the times the clock showed (for the extraction
  with the loaded provider, with a fresh one, and for the \<open>i\<close>-th extraction of the profile evaluation), the measured
  durations, the worker processes by the index of the sample, and the platform.
\<close>

record evaluation_env =
  ee_files :: dataset_files
  ee_vision :: vision_native
  ee_native :: native
  ee_listing :: listing
  ee_warm_clock :: "nat \<Rightarrow> nat \<Rightarrow> nat"
  ee_cold_clock :: "nat \<Rightarrow> nat \<Rightarrow> nat"
  ee_profile_clock :: "nat \<Rightarrow> nat \<Rightarrow> nat"
  ee_initialization :: nat
  ee_warm_elapsed :: "nat \<Rightarrow> nat"
  ee_cold_elapsed :: "nat \<Rightarrow> nat"
  ee_child :: "nat \<Rightarrow> child_run"
  ee_status :: "io_kind + bytes"
  ee_os :: string
  ee_architecture :: string
  ee_opencv :: string

record measurements =
  ms_warm :: "nat list"
  ms_cold :: "nat list"
  ms_worker :: "nat list"
  ms_peak :: "u64 option"
  ms_errors :: "(string, nat) omap"
  ms_accepted :: nat

definition measurements_start :: measurements where
  "measurements_start = \<lparr>ms_warm = [], ms_cold = [], ms_worker = [], ms_peak = None, ms_errors = [], ms_accepted = 0\<rparr>"

definition count_error :: "string \<Rightarrow> measurements \<Rightarrow> measurements" where
  "count_error code m = m\<lparr>ms_errors := om_insert code (om_count (ms_errors m) code + 1) (ms_errors m)\<rparr>"

definition count_extraction :: "string + embedding \<Rightarrow> measurements \<Rightarrow> measurements" where
  "count_extraction r m = (case r of Inr _ \<Rightarrow> m\<lparr>ms_accepted := ms_accepted m + 1\<rparr> | Inl code \<Rightarrow> count_error code m)"

definition count_worker :: "nat \<Rightarrow> u64 option \<Rightarrow> measurements \<Rightarrow> measurements" where
  "count_worker latency peak m =
     m\<lparr>ms_worker := ms_worker m @ [latency],
       ms_peak := (case peak of None \<Rightarrow> ms_peak m | Some v \<Rightarrow> Some (max (case ms_peak m of None \<Rightarrow> 0 | Some u \<Rightarrow> u) v))\<rparr>"

text \<open>One sample: warm extraction, cold extraction with a fresh provider, and a worker process.\<close>

definition measure_sample ::
    "evaluation_env \<Rightarrow> string \<Rightarrow> identity_provider \<Rightarrow> nat \<Rightarrow> dataset_entry \<Rightarrow> measurements \<Rightarrow> world
      \<Rightarrow> (string + measurements) option \<times> world" where
  "measure_sample env model_root prov index e m w =
     (case load_ppm (ee_files env) (de_path e) of
        Inl code \<Rightarrow> (Some (Inr (count_error code m)), w)
      | Inr sample \<Rightarrow>
          (case evaluation_extract (ee_vision env) prov (ee_warm_clock env index) sample of
             None \<Rightarrow> (None, w)
           | Some r \<Rightarrow>
               let m1 = (count_extraction r m)\<lparr>ms_warm := ms_warm m @ [ee_warm_elapsed env index]\<rparr> in
               (case identity_from_model_root (ee_vision env) (ee_native env) (ee_listing env) model_root w of
                  (Inl _, w1) \<Rightarrow> (Some (Inl ''cold-model-initialization-failed''), w1)
                | (Inr cold, w1) \<Rightarrow>
                    (case evaluation_extract (ee_vision env) cold (ee_cold_clock env index) sample of
                       None \<Rightarrow> (None, w1)
                     | Some _ \<Rightarrow>
                         let m2 = m1\<lparr>ms_cold := ms_cold m1 @ [ee_cold_elapsed env index]\<rparr> in
                         (Some (rbind (run_evaluation_worker_process (ee_child env index) sample (word_of_nat (index + 1)))
                            (\<lambda>(latency, peak). Inr (count_worker latency peak m2))), w1)))))"

fun sample_loop ::
    "evaluation_env \<Rightarrow> string \<Rightarrow> identity_provider \<Rightarrow> nat \<Rightarrow> dataset_entry list \<Rightarrow> measurements \<Rightarrow> world
      \<Rightarrow> (string + measurements) option \<times> world" where
  "sample_loop env model_root prov index [] m w = (Some (Inr m), w)"
| "sample_loop env model_root prov index (e # es) m w =
     (case measure_sample env model_root prov index e m w of
        (Some (Inr m'), w') \<Rightarrow> sample_loop env model_root prov (Suc index) es m' w'
      | r \<Rightarrow> r)"

definition profile_extractor :: "evaluation_env \<Rightarrow> identity_provider \<Rightarrow> extractor" where
  "profile_extractor env prov i e =
     cbind (Some (load_ppm (ee_files env) (de_path e))) (evaluation_extract (ee_vision env) prov (ee_profile_clock env i))"

definition decision_evaluation :: "bool \<Rightarrow> evaluation \<Rightarrow> string" where
  "decision_evaluation labelled ev =
     (if labelled \<and> ev_failures ev = 0 \<and> extraction_failures (ev_genuine ev) = 0 \<and> extraction_failures (ev_impostor ev) = 0
        \<and> ev_profiles ev \<ge> 2 \<and> attempted (ev_genuine ev) > 0 \<and> attempted (ev_impostor ev) > 0
      then ''dataset-scoped'' else ''unqualified'')"

definition join_comma :: "string list \<Rightarrow> string" where
  "join_comma xs = (case xs of [] \<Rightarrow> [] | x # ys \<Rightarrow> x @ concat (map (\<lambda>y. '','' @ y) ys))"

definition error_json :: "(string, nat) omap \<Rightarrow> string" where
  "error_json errors = join_comma (map (\<lambda>(code, count). quoted (json_string code) @ '':'' @ show_nat count) errors)"

definition show_or_null :: "u64 option \<Rightarrow> string" where
  "show_or_null v = (case v of None \<Rightarrow> ''null'' | Some n \<Rightarrow> show_nat (unat n))"

definition report :: "evaluation_env \<Rightarrow> bool \<Rightarrow> nat \<Rightarrow> measurements \<Rightarrow> evaluation \<Rightarrow> string" where
  "report env labelled supplied m ev =
     ''{'' @ quoted ''schema'' @ '':3,'' @ quoted ''status'' @ '':'' @ quoted ''complete''
     @ '','' @ quoted ''environment'' @ '':{'' @ quoted ''os'' @ '':'' @ quoted (json_string (ee_os env))
     @ '','' @ quoted ''architecture'' @ '':'' @ quoted (json_string (ee_architecture env))
     @ '','' @ quoted ''opencv'' @ '':'' @ quoted (json_string (ee_opencv env))
     @ ''},'' @ quoted ''samples'' @ '':{'' @ quoted ''supplied'' @ '':'' @ show_nat supplied
     @ '','' @ quoted ''accepted'' @ '':'' @ show_nat (ms_accepted m)
     @ '','' @ quoted ''errors'' @ '':{'' @ error_json (ms_errors m)
     @ ''}},'' @ quoted ''model_initialization_ms'' @ '':'' @ fixed3 (milliseconds (ee_initialization env))
     @ '','' @ quoted ''cold_pipeline_ms'' @ '':'' @ latency_json (ms_cold m)
     @ '','' @ quoted ''warm_pipeline_ms'' @ '':'' @ latency_json (ms_warm m)
     @ '','' @ quoted ''first_worker_process_ms'' @ '':'' @ latency_json (take 1 (ms_worker m))
     @ '','' @ quoted ''warm_worker_process_ms'' @ '':'' @ latency_json (drop 1 (ms_worker m))
     @ '','' @ quoted ''peak_parent_resident_memory_kib'' @ '':'' @ show_or_null (peak_rss_kib (ee_status env))
     @ '','' @ quoted ''worker_peak_resident_memory_kib'' @ '':'' @ show_or_null (ms_peak m)
     @ '','' @ quoted ''profiles'' @ '':{'' @ quoted ''accepted'' @ '':'' @ show_nat (ev_profiles ev)
     @ '','' @ quoted ''enrollment_failures'' @ '':'' @ show_nat (ev_failures ev)
     @ ''},'' @ quoted ''genuine'' @ '':'' @ decisions_json (ev_genuine ev)
     @ '','' @ quoted ''impostor'' @ '':'' @ decisions_json (ev_impostor ev)
     @ '','' @ quoted ''far_frr_qualification'' @ '':'' @ quoted ''unqualified''
     @ '','' @ quoted ''decision_evaluation'' @ '':'' @ quoted (decision_evaluation labelled ev) @ ''}''"

text \<open>The measurements and the evaluation a run ends with.\<close>

definition evaluate_dataset ::
    "evaluation_env \<Rightarrow> arguments \<Rightarrow> dataset_entry list \<Rightarrow> world \<Rightarrow> (string + measurements \<times> evaluation) option \<times> world" where
  "evaluate_dataset env args entries w =
     (case identity_from_model_root (ee_vision env) (ee_native env) (ee_listing env) (arg_model_root args) w of
        (Inl _, w1) \<Rightarrow> (Some (Inl ''model-initialization-failed''), w1)
      | (Inr prov, w1) \<Rightarrow>
          (case sample_loop env (arg_model_root args) prov 0 entries measurements_start w1 of
             (r, w2) \<Rightarrow>
               (cbind r (\<lambda>m. map_option (\<lambda>ev. Inr (m, ev)) (evaluate_profiles (profile_extractor env prov) entries)), w2)))"

definition evaluation_run :: "evaluation_env \<Rightarrow> string list \<Rightarrow> world \<Rightarrow> (string + string) option \<times> world" where
  "evaluation_run env argv w =
     (case evaluation_arguments argv of
        Inl code \<Rightarrow> (Some (Inl code), w)
      | Inr args \<Rightarrow>
          (case load_dataset_manifest (ee_files env) (arg_dataset_manifest args) of
             Inl code \<Rightarrow> (Some (Inl code), w)
           | Inr entries \<Rightarrow>
               (case evaluate_dataset env args entries w of
                  (r, w') \<Rightarrow>
                    (cbind r (\<lambda>(m, ev). Some (Inr (report env (arg_labelled_evaluation args) (length entries) m ev))), w'))))"

text \<open>The line the tool prints and its exit code.\<close>

definition evaluation_main :: "evaluation_env \<Rightarrow> string list \<Rightarrow> world \<Rightarrow> (string \<times> int) option" where
  "evaluation_main env argv w =
     map_option (\<lambda>r. case r of
         Inr output \<Rightarrow> (output, 0)
       | Inl code \<Rightarrow>
           (''{'' @ quoted ''schema'' @ '':1,'' @ quoted ''status'' @ '':'' @ quoted ''unavailable'' @ '',''
              @ quoted ''error'' @ '':'' @ quoted (json_string code) @ ''}'', 1))
       (fst (evaluation_run env argv w))"

section \<open>The tool does not panic\<close>

lemma evaluation_extract_returns: "sample_ok s \<Longrightarrow> evaluation_extract vn prov clock s \<noteq> None"
proof -
  assume s: "sample_ok s"
  have "view_wf (sample_frame s)" using sample_frame_sendable [OF s] by (simp add: sendable_def)
  from no_panic_extract [OF this] show ?thesis
    by (simp add: evaluation_extract_def sample_stride(2) [OF s] sample_frame_new [OF s] no_panic_def)
qed

lemma measure_sample_returns: "fst (measure_sample env model_root prov index e m w) \<noteq> None"
  by (auto simp: measure_sample_def Let_def split: sum.splits option.splits prod.splits
      dest!: load_ppm_ok dest: evaluation_extract_returns)

lemma sample_loop_returns: "fst (sample_loop env model_root prov index es m w) \<noteq> None"
proof (induction es arbitrary: index m w)
  case (Cons e es)
  then show ?case using measure_sample_returns [of env model_root prov index e m w]
    by (auto split: prod.splits option.splits sum.splits)
qed simp

lemma profile_extractor_returns: "profile_extractor env prov i e \<noteq> None"
  using evaluation_extract_returns [OF load_ppm_ok]
  by (auto simp: profile_extractor_def cbind_eq_None)

lemma evaluate_profiles_returns:
  assumes "\<And>i e. f i e \<noteq> None"
  shows "evaluate_profiles f entries \<noteq> None"
proof -
  have x: "extract_all f i es \<noteq> None" for i es
  proof (induction es arbitrary: i)
    case (Cons e es)
    obtain r j where "extract_all f (Suc i) es = Some (r, j)" using Cons.IH [of "Suc i"] by fastforce
    then show ?case by (auto simp: assms split: option.splits sum.splits)
  qed simp
  have p: "probe_loop f p grp i d es \<noteq> None" for p grp i d es
  proof (induction es arbitrary: i d)
    case (Cons e es)
    then show ?case by (cases d) (auto simp: assms split: option.splits)
  next
    case Nil
    then show ?case by (cases d) simp
  qed
  have g: "evaluate_group f entries gc i ev \<noteq> None" for gc i ev
  proof -
    obtain grp count where gc: "gc = (grp, count)" by (cases gc)
    obtain r j where r: "extract_all f i (filter (\<lambda>e. de_role e = Enrollment \<and> de_group e = grp) entries) = Some (r, j)"
      using x by fastforce
    show ?thesis by (simp add: evaluate_group_def gc r p del: not_None_eq split: sum.split)
  qed
  have "groups_loop f entries gs i ev \<noteq> None" for gs i ev
    by (induction gs arbitrary: i ev) (auto simp: g split: option.splits prod.splits)
  then show ?thesis by (simp add: evaluate_profiles_def)
qed

lemma evaluate_dataset_returns: "fst (evaluate_dataset env args entries w) \<noteq> None"
proof -
  obtain l w1 where l: "identity_from_model_root (ee_vision env) (ee_native env) (ee_listing env) (arg_model_root args) w = (l, w1)"
    by fastforce
  show ?thesis
  proof (cases l)
    case (Inr prov)
    obtain r w2 where r: "sample_loop env (arg_model_root args) prov 0 entries measurements_start w1 = (r, w2)" by fastforce
    then have "r \<noteq> None" using sample_loop_returns by (metis fst_conv)
    with l Inr r evaluate_profiles_returns [OF profile_extractor_returns] show ?thesis
      by (simp add: evaluate_dataset_def cbind_eq_None)
  qed (simp add: l evaluate_dataset_def)
qed

lemma evaluation_run_returns: "fst (evaluation_run env argv w) \<noteq> None"
proof (cases "evaluation_arguments argv")
  case args: (Inr args)
  show ?thesis
  proof (cases "load_dataset_manifest (ee_files env) (arg_dataset_manifest args)")
    case (Inr entries)
    obtain r w' where r: "evaluate_dataset env args entries w = (r, w')" by fastforce
    with evaluate_dataset_returns [of env args entries w] have "r \<noteq> None" by simp
    with r args Inr show ?thesis by (simp add: evaluation_run_def cbind_eq_None case_prod_unfold)
  qed (simp add: args evaluation_run_def)
qed (simp add: evaluation_run_def)

section \<open>Every sample is counted\<close>

definition errors_total :: "measurements \<Rightarrow> nat" where
  "errors_total m = sum_list (map snd (ms_errors m))"

definition measurements_ok :: "nat \<Rightarrow> measurements \<Rightarrow> bool" where
  "measurements_ok n m \<longleftrightarrow> om_inv (ms_errors m) \<and> ms_accepted m + errors_total m = n
     \<and> length (ms_cold m) = length (ms_warm m) \<and> length (ms_worker m) = length (ms_warm m)"

lemma count_error_total:
  "om_inv (ms_errors m) \<Longrightarrow> om_inv (ms_errors (count_error code m)) \<and> errors_total (count_error code m) = Suc (errors_total m)"
  using sum_om_insert [of "ms_errors m" code "om_count (ms_errors m) code + 1"]
  by (auto simp: count_error_def errors_total_def om_inv_insert)

lemma count_extraction_ok:
  assumes "measurements_ok n m"
  shows "om_inv (ms_errors (count_extraction r m))" "ms_accepted (count_extraction r m) + errors_total (count_extraction r m) = Suc n"
    "ms_warm (count_extraction r m) = ms_warm m" "ms_cold (count_extraction r m) = ms_cold m"
    "ms_worker (count_extraction r m) = ms_worker m"
  using assms count_error_total [of m]
  by (auto simp: measurements_ok_def count_extraction_def count_error_def errors_total_def split: sum.splits)

lemma measure_sample_ok:
  assumes "measure_sample env model_root prov index e m w = (Some (Inr m'), w')" "measurements_ok n m"
  shows "measurements_ok (Suc n) m'"
proof (cases "load_ppm (ee_files env) (de_path e)")
  case (Inl code)
  with assms count_error_total [of m code] show ?thesis
    by (auto simp: measure_sample_def measurements_ok_def count_error_def)
next
  case (Inr sample)
  with assms(1) obtain r latency peak where
    "m' = count_worker latency peak ((count_extraction r m)\<lparr>ms_warm := ms_warm m @ [ee_warm_elapsed env index],
        ms_cold := ms_cold (count_extraction r m) @ [ee_cold_elapsed env index]\<rparr>)"
    by (auto simp: measure_sample_def Let_def result_iffs split: option.splits prod.splits sum.splits)
  with count_extraction_ok [OF assms(2), of r] assms(2) show ?thesis
    by (auto simp: measurements_ok_def count_worker_def errors_total_def)
qed

lemma sample_loop_ok:
  "sample_loop env model_root prov index es m w = (Some (Inr m'), w') \<Longrightarrow> measurements_ok n m \<Longrightarrow> measurements_ok (n + length es) m'"
proof (induction es arbitrary: index m w n)
  case (Cons e es)
  then obtain m1 w1 where m: "measure_sample env model_root prov index e m w = (Some (Inr m1), w1)"
    "sample_loop env model_root prov (Suc index) es m1 w1 = (Some (Inr m'), w')"
    by (auto split: prod.splits option.splits sum.splits)
  from Cons.IH [OF m(2) measure_sample_ok [OF m(1) Cons.prems(2)]] show ?case by simp
qed simp

text \<open>A finished run has classified every supplied sample, and a dataset-scoped one has verified every probe against every group.\<close>

theorem evaluation_report_complete:
  assumes "evaluate_dataset env args entries w = (Some (Inr (m, ev)), w')"
  shows "ms_accepted m + errors_total m = length entries" "ev_profiles ev + ev_failures ev = length (group_numbers entries)"
    and "decision_evaluation labelled ev = ''dataset-scoped'' \<Longrightarrow>
      labelled \<and> 2 \<le> length (group_numbers entries) \<and> ev_profiles ev = length (group_numbers entries)
      \<and> attempted (ev_genuine ev) + attempted (ev_impostor ev) = length (group_numbers entries) * length (probe_entries entries)"
proof -
  obtain prov w1 where s: "sample_loop env (arg_model_root args) prov 0 entries measurements_start w1 = (Some (Inr m), w')"
    and e: "evaluate_profiles (profile_extractor env prov) entries = Some ev"
    using assms by (auto simp: evaluate_dataset_def cbind_eq_Some_Inr split: prod.splits sum.splits)
  have "measurements_ok 0 measurements_start" by (simp add: measurements_ok_def measurements_start_def errors_total_def)
  with sample_loop_ok [OF s] show "ms_accepted m + errors_total m = length entries" by (fastforce simp: measurements_ok_def)
  note c = evaluate_profiles_counts [OF e]
  then show "ev_profiles ev + ev_failures ev = length (group_numbers entries)" by (simp add: evaluation_ok_def)
  assume "decision_evaluation labelled ev = ''dataset-scoped''"
  with c show "labelled \<and> 2 \<le> length (group_numbers entries) \<and> ev_profiles ev = length (group_numbers entries)
      \<and> attempted (ev_genuine ev) + attempted (ev_impostor ev) = length (group_numbers entries) * length (probe_entries entries)"
    by (auto simp: evaluation_ok_def outcomes_of_def decision_evaluation_def split: if_splits)
qed

section \<open>The printed percentile\<close>

lemma p95_in_range: "0 < n \<Longrightarrow> p95_index n < n"
  by (auto simp: p95_index_def min_def)

text \<open>At least ninety-five percent of the values are at most the printed one.\<close>

lemma p95_covers:
  assumes "vals \<noteq> []" "length vals * 95 < 2 ^ 64"
  shows "length vals * 95 \<le> 100 * length (filter (\<lambda>v. v \<le> sort vals ! p95_index (length vals)) vals)"
proof -
  let ?s = "sort vals" and ?k = "p95_index (length vals)"
  have k: "?k < length ?s" using p95_in_range [of "length vals"] assms(1) by simp
  have "\<forall>v \<in> set (take (Suc ?k) ?s). v \<le> ?s ! ?k"
    using k by (auto simp: in_set_conv_nth intro!: sorted_nth_mono)
  then have "filter (\<lambda>v. v \<le> ?s ! ?k) (take (Suc ?k) ?s) = take (Suc ?k) ?s" by (simp add: filter_id_conv)
  then have "Suc ?k \<le> length (filter (\<lambda>v. v \<le> ?s ! ?k) (take (Suc ?k) ?s @ drop (Suc ?k) ?s))"
    using k unfolding filter_append by simp
  then have "Suc ?k \<le> length (filter (\<lambda>v. v \<le> ?s ! ?k) vals)" by (simp add: length_filter_sort del: filter_append)
  moreover have "length vals * 95 \<le> 100 * Suc ?k" using assms by (simp add: p95_index_def min_def)
  ultimately show ?thesis by (meson le_trans mult_le_mono2)
qed

section \<open>Parent and worker agree\<close>

lemma rss_prefix_plain: "NL \<notin> set WORKER_RSS_PREFIX" "is_ascii WORKER_RSS_PREFIX"
  by (simp_all add: WORKER_RSS_PREFIX_def is_ascii_def byte_def)

lemma number_plain: "NL \<notin> set (show_nat n)" "CR \<notin> set (show_nat n)" "is_ascii (show_nat n)"
  using show_nat_plain [of n] is_ascii_show_nat by (auto simp: line_plain_def)

lemma str_lines_single:
  assumes "NL \<notin> set l" "CR \<notin> set l" "l \<noteq> []"
  shows "str_lines (l @ [NL]) = [l]"
proof -
  have "last l \<noteq> CR" using assms(2,3) last_in_set by fastforce
  with assms show ?thesis using split_inclusive_line [OF assms(1), of "[]"] by (simp add: str_lines_def strip_suffix_char_def)
qed

lemma utf8_text_bytes: "is_ascii s \<Longrightarrow> utf8_valid (map unat (text_bytes s))"
proof -
  assume s: "is_ascii s"
  then have "map unat (text_bytes s) = map byte s" by (auto simp: text_bytes_def is_ascii_def unat_of_nat)
  with s show ?thesis by (simp add: utf8_valid_is_ascii)
qed

lemma worker_rss_read_back:
  "parse_worker_peak_rss (text_bytes (WORKER_RSS_PREFIX @ show_nat (unat v) @ [LF])) = Some v"
proof -
  let ?l = "WORKER_RSS_PREFIX @ show_nat (unat v)"
  have "CR \<notin> set WORKER_RSS_PREFIX" by (simp add: WORKER_RSS_PREFIX_def)
  then have l: "NL \<notin> set ?l" "CR \<notin> set ?l" "?l \<noteq> []"
    using rss_prefix_plain number_plain [of "unat v"] by (simp_all add: WORKER_RSS_PREFIX_def)
  have "is_ascii (?l @ [LF])" using rss_prefix_plain(2) number_plain(3) [of "unat v"] by (auto simp: is_ascii_def byte_def)
  then have u: "utf8_valid (map unat (text_bytes (?l @ [LF])))" by (rule utf8_text_bytes)
  from u str_lines_single [OF l] show ?thesis
    by (simp add: parse_worker_peak_rss_def strip_start_def parse_u64_show)
qed

lemma no_worker_rss: "parse_worker_peak_rss [] = None"
  by (simp add: parse_worker_peak_rss_def str_lines_def bytes_text_def)

lemma worker_once_serves:
  assumes "worker_ready env" "sample_ok s" "is_absolute dir" "smooth rd" "evaluation_request s g = Inr (stream_bytes rd)"
  shows "\<exists>out. run_evaluation_worker_once env True status [dir] rd \<lparr>written = [], outcomes = []\<rparr> w = Some out
      \<and> wx_code out = 0 \<and> 16 \<le> length (wx_stdout out) \<and> length (wx_stdout out) \<le> MAX_IDENTITY_RESPONSE_BYTES + 4
      \<and> parse_worker_peak_rss (wx_stderr out) = peak_rss_kib status"
proof -
  obtain bs w' where b: "identity_serve_once env dir rd \<lparr>written = [], outcomes = []\<rparr> w
      = (Some (Inr ()), \<lparr>written = frame_bytes bs, outcomes = []\<rparr>, w')" "12 \<le> length bs" "length bs \<le> MAX_IDENTITY_RESPONSE_BYTES"
    using worker_serves_sample [OF assms(1,2,4,5)] by blast
  then show ?thesis using assms(3) worker_rss_read_back
    by (auto simp: run_evaluation_worker_once_def frame_bytes_def no_worker_rss split: option.split)
qed

lemma worker_process_accepts:
  assumes "sample_ok s" "worker_ready wenv" "is_absolute dir" "evaluation_request s g = Inr request"
    and "smooth rd" "stream_bytes rd = request"
    and "run_evaluation_worker_once wenv True status [dir] rd \<lparr>written = [], outcomes = []\<rparr> w = Some (cr_child cr request)"
    and "cr_current_exe cr" "cr_spawn cr" "cr_write cr" "cr_wait cr"
  shows "run_evaluation_worker_process cr s g = Inr (cr_elapsed cr, peak_rss_kib status)"
proof -
  have "evaluation_request s g = Inr (stream_bytes rd)" using assms(4,6) by simp
  from worker_once_serves [OF assms(2,1,3,5) this, of status w] assms(7)
  have "wx_code (cr_child cr request) = 0" "16 \<le> length (wx_stdout (cr_child cr request))"
    "length (wx_stdout (cr_child cr request)) \<le> MAX_IDENTITY_RESPONSE_BYTES + 4"
    "parse_worker_peak_rss (wx_stderr (cr_child cr request)) = peak_rss_kib status" by auto
  with assms(4,8-) show ?thesis by (simp add: run_evaluation_worker_process_def Let_def)
qed

text \<open>
  Claim C40: For every pixmap the evaluation tool loads, the frame it sends is the request for one enrollment sample
  of exactly that image, which the parser of the identity worker reads back for every nonzero generation; and a worker
  started on that frame, however the pipe fragments it, passes all checks of the parent: it ends with code zero, its
  output has an admissible length, and the parent reads back exactly the peak memory the worker measured, or none if
  it measured none.
\<close>

theorem evaluation_worker_agrees:
  assumes "load_ppm fs path = Inr s" "worker_ready wenv" "is_absolute dir" "evaluation_request s g = Inr request"
    and "smooth rd" "stream_bytes rd = request"
    and "run_evaluation_worker_once wenv True status [dir] rd \<lparr>written = [], outcomes = []\<rparr> w = Some (cr_child cr request)"
    and "cr_current_exe cr" "cr_spawn cr" "cr_write cr" "cr_wait cr"
  shows "run_evaluation_worker_process cr s g = Inr (cr_elapsed cr, peak_rss_kib status)
    \<and> request = frame_bytes (identity_request_bytes (sample_request s g))
    \<and> (g \<noteq> 0 \<longrightarrow> parse_identity_request (identity_request_bytes (sample_request s g)) = Inr (sample_request s g))"
proof -
  have s: "sample_ok s" by (rule load_ppm_ok [OF assms(1)])
  from worker_process_accepts [OF s assms(2-11)] evaluation_request_exact(1) [OF s, of g] assms(4) sample_request_parsed [OF s]
  show ?thesis by simp
qed

definition pixel_sample :: source_sample where
  "pixel_sample = \<lparr>ss_width = 1, ss_height = 1, ss_bytes = [10, 20, 30]\<rparr>"

definition pixel_files :: dataset_files where
  "pixel_files = \<lparr>df_open = (\<lambda>_. Inr \<lparr>st_content = ppm_bytes pixel_sample, st_failure = None\<rparr>), df_canonicalize = Inr\<rparr>"

definition pixel_request :: bytes where
  "pixel_request = frame_bytes (identity_request_bytes (sample_request pixel_sample 1))"

definition pixel_status :: "io_kind + bytes" where
  "pixel_status = Inr (text_bytes (''VmHWM:'' @ [TAB] @ '' 512 kB'' @ [LF]))"

definition pixel_child :: child_run where
  "pixel_child = \<lparr>cr_current_exe = True, cr_spawn = True, cr_write = True, cr_wait = True,
     cr_child = (\<lambda>request. the (run_evaluation_worker_once sample_worker True pixel_status [''/models''] [Chunk request]
       \<lparr>written = [], outcomes = []\<rparr> sample_world)), cr_elapsed = 42\<rparr>"

lemma pixel_ok: "sample_ok pixel_sample"
  by (simp add: sample_ok_def pixel_sample_def)

lemma pixel_loads: "load_ppm pixel_files ''/p'' = Inr pixel_sample"
proof -
  have "show_nat (Suc 0) = ''1''" by code_simp
  then have "length (ppm_bytes pixel_sample) \<le> MAXIMUM_PPM_BYTES"
    by (simp add: ppm_bytes_def ppm_text_def pixel_sample_def MAXIMUM_PPM_BYTES_def text_bytes_def u32_to_string_def)
  then show ?thesis by (simp add: load_ppm_def pixel_files_def take_stream_def read_to_end_def parse_ppm_text [OF pixel_ok])
qed

lemma pixel_status_peak: "peak_rss_kib pixel_status = Some 512"
proof -
  let ?l = "''VmHWM:'' @ [TAB] @ '' 512 kB''"
  have u: "utf8_valid (map unat (text_bytes (?l @ [LF])))" by (rule utf8_text_bytes) (simp add: is_ascii_def byte_def)
  have l: "str_lines (?l @ [NL]) = [?l]" by (rule str_lines_single) simp_all
  have t: "trim (TAB # '' 512 kB'') = ''512 kB''" "trim ''512 '' = ''512''" by code_simp+
  have "parse_u64 ''512'' = Some 512" by (simp add: parse_u64_def parse_unsigned_def is_ascii_digit_def byte_def)
  with u l t show ?thesis by (simp add: peak_rss_kib_def pixel_status_def strip_start_def strip_end_def)
qed

theorem evaluation_worker_agrees_witness:
  "run_evaluation_worker_process pixel_child pixel_sample 1 = Inr (42, Some 512)
   \<and> parse_identity_request (identity_request_bytes (sample_request pixel_sample 1)) = Inr (sample_request pixel_sample 1)"
proof -
  have r: "evaluation_request pixel_sample 1 = Inr pixel_request"
    by (simp add: evaluation_request_exact [OF pixel_ok] pixel_request_def)
  have d: "is_absolute ''/models''" by (simp add: is_absolute_def)
  have s: "smooth [Chunk pixel_request]" "stream_bytes [Chunk pixel_request] = pixel_request"
    by (simp_all add: pixel_request_def frame_bytes_def identity_request_bytes_def)
  have c: "run_evaluation_worker_once sample_worker True pixel_status [''/models''] [Chunk pixel_request]
      \<lparr>written = [], outcomes = []\<rparr> sample_world = Some (cr_child pixel_child pixel_request)"
    using worker_once_serves [OF sample_worker_ready pixel_ok d s(1), of 1 pixel_status sample_world] r s(2)
    by (auto simp: pixel_child_def)
  have "cr_current_exe pixel_child" "cr_spawn pixel_child" "cr_write pixel_child" "cr_wait pixel_child" "cr_elapsed pixel_child = 42"
    by (simp_all add: pixel_child_def)
  with evaluation_worker_agrees [OF pixel_loads sample_worker_ready d r s c] pixel_status_peak show ?thesis by simp
qed

end
