(* ===== verification/Spec2Isabelle.thy ===== *)
theory Spec2Isabelle
  imports Wire_Protocol Vision_Image Liveness Face_Detect Daemon_Session Daemon_Pool Identity_Worker Vision_Worker Sync_Provision
    Camera_Safety Evaluation_Run
begin

text \<open>
  \<^bold>\<open>A verification of the engine of LoofiFace-ID (KFaceAuth).\<close>

  LoofiFace-ID enrols and compares faces locally. Its engine is a Rust workspace under \<^verbatim>\<open>src/engine\<close>. A desktop session
  talks to two short-lived workers: the vision worker analyses frames, the identity worker enrols and compares against
  the user's encrypted vault. For the opt-in authentication experiment a root-owned \<^emph>\<open>system\<close> copy of the profile is
  installed by a privileged tool; a daemon listens on a socket, authorizes the peer, reads the opt-in policy, and starts
  one private worker per attempt, which captures a frame, runs the pinned networks and compares with the system profile.
  Two more privileged tools change the policy and the camera setting. This development models the engine's own logic,
  function by function, and proves what each part promises and how the promises compose.

  \<^bold>\<open>Conventions.\<close> Machine integers are words of their width (\<open>u8\<close>, \<open>u16\<close>, \<open>u32\<close>, \<open>u64\<close>); a Rust \<^verbatim>\<open>Result\<close> is a sum with
  the error on the left; a computation that can panic returns an option, with \<open>None\<close> for the panic; a \<^verbatim>\<open>BTreeMap\<close> is a
  key-sorted association list. The filesystem is a \<open>world\<close> that is passed from call to call (theory \<open>File_System\<close>): a map
  from paths to inodes, the identity of the process, and a script that makes any call fail, so that a property stated for
  every world holds for every point at which the machine may fail. A handle is named by its path. What is outside the
  repository's Rust code is a parameter of the definitions that use it: the native OpenSSL and OpenCV bridges are
  records of functions, clocks, sockets and child processes are functions of a counter that numbers the observations of
  a run, the order of a directory listing is a function. What the code relies on of them is a named hypothesis
  (\<open>aead_exact\<close>, \<open>listing_exact\<close>, \<open>setup_confined\<close>, \<open>seal_confined\<close>, \<open>helper_confined\<close>, \<open>service_confined\<close>, \<open>clock_passes\<close>,
  \<open>worker_pauses\<close>, \<open>lock_bounded\<close>, \<open>honest\<close>), and every property with such a hypothesis has a concrete instance.

  \<^bold>\<open>The theories\<close>, in the order of their dependency, with the source they translate and what they show.

  \<^item> \<open>Prelude\<close>, \<open>Text_Base\<close>, \<open>Ordered_Map\<close>, \<open>File_System\<close>, \<open>Directory_Tree\<close>: the shared vocabulary. Codecs of integers, UTF-8,
    decimal text, ordered maps (locale \<open>ordered_map\<close>), system calls with frame rules (\<open>keeps\<close>) and all-or-nothing updates
    (locale \<open>atomic_store\<close>, interpreted for the policy file of both tools and for the camera configuration), directories
    as trees with frames as preorders (locale \<open>frame_relation\<close>, interpreted for six frames).
  \<^item> \<open>Wire_Protocol\<close> (\<^verbatim>\<open>protocol/src/lib.rs\<close>): the request and response codecs and the framing of the engine. The codecs are
    canonical; reading a frame from any fragmented, interrupted stream agrees with its specification on the byte stream
    (locale \<open>framed_codec\<close>).
  \<^item> \<open>Soft_Float\<close>, \<open>Identity_Types\<close> (\<^verbatim>\<open>identity-types/src/lib.rs\<close>): IEEE arithmetic with correct rounding, normalized
    embeddings and their similarity.
  \<^item> \<open>Crypto_Bridge\<close> (\<^verbatim>\<open>crypto-openssl-sys/src/lib.rs\<close>), \<open>Sha256\<close> (\<^verbatim>\<open>vision/src/sha256.rs\<close>): the safe wrappers over the native
    calls; the portable digest equals the standard's definition, with its constants as roots of the first primes.
  \<^item> \<open>Face_Profile\<close>, \<open>Vault_Codec\<close>, \<open>Vault_Store\<close> (\<^verbatim>\<open>templates/src/lib.rs\<close>), \<open>Freshness\<close> (\<^verbatim>\<open>templates/src/freshness.rs\<close>): the profile
    and its median decision, both layers of the vault file, every vault operation under arbitrary failures, and the
    metadata that ties a system vault to its source. The decision means a majority of samples; the codecs are exact; a
    commit or rotation leaves the old or a complete new vault, and a commit replaces an existing vault only if it opens under the
    presented key (or its status call failed); a known freshness certifies the digests.
  \<^item> \<open>Auth_Policy\<close>, \<open>Policy_Store\<close> (\<^verbatim>\<open>templates/src/auth_policy.rs\<close>): the opt-in policy, its strict JSON parser and printer,
    loading and atomic replacement. Printer and parser are inverse, whatever is accepted is well formed, a snapshot is
    only taken of a protected file and is the parse of all of it.
  \<^item> \<open>Vision_Image\<close> (\<^verbatim>\<open>vision/src/lib.rs\<close>), \<open>Vision_Bridge\<close> (\<^verbatim>\<open>vision-opencv-sys/src/lib.rs\<close>), \<open>Face_Detect\<close> (\<^verbatim>\<open>vision/src/yunet.rs\<close>),
    \<open>Liveness\<close> (\<^verbatim>\<open>vision/src/liveness.rs\<close>), \<open>Identity_Extract\<close> (\<^verbatim>\<open>vision/src/identity.rs\<close>): image views and quality, conversion to
    BGR, validated detections, the presentation-attack state machines, and the extraction of one embedding. No accepted
    image makes them panic; an extracted embedding certifies a single clean face; a required challenge decides exactly by the
    frames that meet it. \<open>Sample_Face\<close> is a concrete image and native library that pass all of it, for the witnesses.
  \<^item> \<open>Model_Manifest\<close>, \<open>Model_Inventory\<close>, \<open>Model_Loader\<close> (\<^verbatim>\<open>vision/src/model.rs\<close>, the loaders of \<^verbatim>\<open>yunet.rs\<close> and \<^verbatim>\<open>identity.rs\<close>): the
    manifest parser, the closed inventory of the model directory, and networks pinned by their digests.
  \<^item> \<open>Vision_Worker\<close> (\<^verbatim>\<open>vision/src/worker.rs\<close>), \<open>Identity_Protocol\<close>, \<open>Identity_Worker\<close> (\<^verbatim>\<open>identity/src/lib.rs\<close>): the two session
    workers with their caches and serving loops. Every frame is answered without a panic; an acknowledged enrollment is
    stored; a match certifies the vault and the pinned networks. The worker's second validation is a locale
    (\<open>vision_provider\<close>) discharged for the YuNet provider.
  \<^item> \<open>Daemon_Limits\<close>, \<open>Daemon_Protocol\<close>, \<open>Daemon_Supervisor\<close>, \<open>Auth_Worker\<close>, \<open>Daemon_Session\<close>, \<open>Daemon_Pool\<close> (\<^verbatim>\<open>daemon/src/lib.rs\<close>): rate
    limiter and connection slots, request codec, supervision of the private worker, one attempt, one connection, and the
    accept loop with its queue and threads as a step relation. The limiter refines the full log of grants; permits are
    bounded in every reachable state (locale \<open>connection_slots\<close>); the supervision returns, and what it
    returns of the worker is the status of the attempt; a positive answer certifies the
    whole chain from the authorization of the peer to the worker's report.
  \<^item> \<open>Sync_Options\<close>, \<open>Profile_Sync\<close>, \<open>Sync_Safety\<close>, \<open>Sync_Deletion\<close>, \<open>Sync_Provision\<close>
    (\<^verbatim>\<open>templates/src/bin/kfaceauth-sync-vault.rs\<close>): the synchronization tool from its command line to every rollback. Whoever
    is granted a target has exactly the old or exactly the new profile; a deletion revokes and removes everything or
    leaves profile and key; a successful synchronization installs the user's own profile.
  \<^item> \<open>Policy_Tool\<close>, \<open>Policy_Tool_Safety\<close> (\<^verbatim>\<open>templates/src/bin/kfaceauth-policy.rs\<close>): the policy tool changes exactly the requested
    entry, for an authorized request and a provisioned user.
  \<^item> \<open>Camera_Text\<close>, \<open>Camera_Config\<close>, \<open>Camera_Safety\<close> (\<^verbatim>\<open>templates/src/bin/kfaceauth-camera-config.rs\<close>): the edit of the setting
    keeps every other line and reads back; the transaction applies, verifies and rolls back.
  \<^item> \<open>Evaluation_Input\<close>, \<open>Evaluation_Profiles\<close>, \<open>Evaluation_Run\<close> (\<^verbatim>\<open>identity/src/bin/kfaceauth-identity-evaluate.rs\<close>): the
    offline evaluation of a labelled dataset, from the manifest and the pixmaps to the printed report. Its counts are those
    of a reference definition, the worker it starts accepts what it sends, and it never panics.
  \<^item> This theory: the properties that span components. A revocation by any tool is final for the daemon, and an attempt
    after a synchronization matches the profile the user enrolled.

  \<^bold>\<open>Termination, bounds and fuel.\<close> Parsers, codecs and scans are total functions by structural recursion or with a measure;
  readers recurse on the size of the remaining stream. Three loops of the source wait for the surroundings and take
  fuel: \<open>supervise_loop\<close> returns \<open>None\<close> when it runs out, and \<open>supervise_returns\<close> shows that some fuel is enough and more
  changes nothing as soon as the clock passes the deadline and the worker pauses; \<open>lock_loop\<close> of the vault marks exhausted
  fuel as a panic, which cannot happen when the clock passes the two-second limit within the fuel (\<open>lock_bounded\<close>; 202
  retries in the samples, one more than the retry interval allows); \<open>service_loop\<close> of the camera tool needs 601 polls,
  because each poll sleeps 25 ms and the limit is 15 s (\<open>service_returns\<close>). All limits of the source (frame, vault, policy,
  manifest and configuration sizes, samples, faces, connections, attempts) are constants of the model with their values.

  \<^bold>\<open>Not modelled.\<close> The native C and C++ bridges (parameters of \<open>Crypto_Bridge\<close> and \<open>Vision_Bridge\<close>), the vendored crates and
  the desktop application are not Rust code of the engine. Of the Rust code: the start-up of the processes
  (\<^verbatim>\<open>main.rs\<close> of daemon, identity and vision, \<^verbatim>\<open>kfaceauth-auth-worker.rs\<close>), which opens sockets and hands over to the modelled
  functions; the developer benchmark \<^verbatim>\<open>yunet_benchmark.rs\<close>; key derivation
  and the erasure of memory, whose effect no result shows; messages on the error stream; and the test code. Concurrent changes
  by other processes are covered where the source looks again (each look of the daemon and of the worker starts in a world of
  its own), not between the calls of one tool, which holds the locks of the files it changes.
\<close>

section \<open>Revocation across the tools and the daemon\<close>

text \<open>The policy file allows a user a target if it parses to a policy that enables the target.\<close>

definition allows :: "u32 \<Rightarrow> auth_target \<Rightarrow> inode option \<Rightarrow> bool" where
  "allows uid t n \<longleftrightarrow> (\<exists>i p. n = Some i \<and> parse_json (bytes_text (i_data i)) = Inr p \<and> mode_for p uid t \<noteq> Off)"

lemma allows_written: "policy_wf p \<Longrightarrow> policy_written p n \<Longrightarrow> allows uid t n \<Longrightarrow> mode_for p uid t \<noteq> Off"
  by (auto simp: allows_def policy_written_parse split: if_splits)

lemma allows_grants: "allows uid t n \<Longrightarrow> grants uid n"
  by (auto simp: allows_def grants_def requires_profile_iff)

text \<open>The ways in which a target of a user is revoked: a run of one of the privileged tools that reports success.\<close>

inductive revokes :: "u32 \<Rightarrow> auth_target \<Rightarrow> world \<Rightarrow> world \<Rightarrow> bool" where
  by_policy_tool: "helper_confined env \<Longrightarrow> policy_main env args pkexec w = (ExitSuccess msg, w') \<Longrightarrow> honest w \<Longrightarrow> nodes w PC \<noteq> None
    \<Longrightarrow> policy_parse_args args = Inr (Some \<lparr>po_write = True, po_uid = uid, po_target = t, po_mode = Some Off\<rparr>) \<Longrightarrow> revokes uid t w w'"
| by_disabling: "disable_target env uid t production_paths w = (ExitSuccess msg, w') \<Longrightarrow> revokes uid t w w'"
| by_deletion: "delete_system_profile env uid production_paths w = (ExitSuccess msg, w') \<Longrightarrow> revokes uid t w w'"

lemma revokes_denies:
  assumes "revokes uid t w w'"
  shows "\<not> allows uid t (pol w')"
  using assms
proof cases
  case (by_policy_tool env args pkexec msg)
  let ?opts = "\<lparr>po_write = True, po_uid = uid, po_target = t, po_mode = Some Off\<rparr>"
  obtain q where q: "policy_wf q \<and> policy_written q (pol w') \<or> loaded q (pol w')" "mode_for q uid t = Off"
    using policy_tool_outcome [OF by_policy_tool(1,2), THEN conjunct2, THEN spec, of ?opts] by_policy_tool(3-)
    by (auto simp: eq_commute [of Off])
  then show ?thesis using allows_written [of q "pol w'" uid t] by (auto simp: loaded_def allows_def)
next
  case (by_disabling env msg)
  from disable_target_exact(2) [OF this] show ?thesis using allows_written by force
next
  case (by_deletion env msg)
  from delete_outcome(2) [OF this] allows_grants show ?thesis by blast
qed


lemma session_reads_policy:
  assumes "dispatch_pam_auth fuel env uid target timeout_ms cfg deadline client ds = Some (STATUS_SUCCESS, ds')"
  shows "\<exists>t. authentication_target target = Some t \<and> allows uid t (pol (de_fs env 0))"
proof -
  obtain start where s: "authentication_policy (de_fs env 0) = Some start" "policy_enables start uid target"
    using dispatch_pam_success [OF assms] by blast
  then obtain v where "snapshot_load_system (de_fs env 0) = (Inr start, v)"
    by (auto simp: authentication_policy_def split: sum.splits) (metis prod.collapse)
  then obtain etc u1 config u2 where c: "open_etc (de_fs env 0) = (Inr etc, u1)" "open_policy_directory etc u1 = (Inr (Some config), u2)"
    "snapshot_load_from_directory config u2 = (Inr start, v)"
    by (auto simp: snapshot_load_system_def io_success ok_or_def split: option.splits)
  have "observes open_etc" unfolding open_etc_def by (intro observe_rules)
  from stays_inD [OF this c(1)] have n1: "nodes u1 = nodes (de_fs env 0)" by (simp add: observing_def)
  have "etc = ''/etc''" using c(1) by (auto simp: open_etc_def io_success)
  moreover have "config = child etc ''kfaceauth'' \<and> nodes u2 = nodes u1"
  proof -
    obtain q u where q: "symlink_metadata (child etc ''kfaceauth'') u1 = (q, u)" by fastforce
    have "nodes u = nodes u1" using stays_inD [OF observes_calls(2) q] by (simp add: observing_def)
    moreover have "nodes u2 = nodes u \<and> config = child etc ''kfaceauth''"
      using c(2) q by (auto simp: open_policy_directory_def io_success observing_def dest!: stays_inD [OF observes_calls(3)]
          split: sum.splits if_splits)
    ultimately show ?thesis by simp
  qed
  ultimately have "config = PC" "nodes u2 = nodes (de_fs env 0)" using n1 by (simp_all add: child_def production_paths_def)
  with snapshot_load_Inr(2) [OF c(3)] s(2) show ?thesis by (auto simp: policy_enables_def allows_def split: option.splits)
qed

text \<open>
  Claim C5: once a privileged tool has reported the revocation of a target (switched off by the policy tool, disabled by
  the synchronization tool, or the whole system profile deleted), the daemon answers no authentication request for that
  user and target positively that finds the policy file as the tool left it, whatever frame, profile or worker is behind it.
\<close>

theorem revoked_target_never_authenticates:
  assumes "revokes uid t w w'" "pol (de_fs env 0) = pol w'" "authentication_target target = Some t"
  shows "dispatch_request_until_with_client fuel env (PamAuth uid target timeout_ms username) peer cfg deadline client ds
    \<noteq> Some (encode_daemon_response STATUS_SUCCESS [], ds')"
proof
  assume "dispatch_request_until_with_client fuel env (PamAuth uid target timeout_ms username) peer cfg deadline client ds
    = Some (encode_daemon_response STATUS_SUCCESS [], ds')"
  moreover have "encode_daemon_response a [] = encode_daemon_response b [] \<longleftrightarrow> a = b" for a b by (simp add: response_bytes)
  ultimately have "dispatch_pam_auth fuel env uid target timeout_ms cfg deadline client ds = Some (STATUS_SUCCESS, ds')"
    using status_distinct(2) by (auto split: if_splits option.splits prod.splits)
  from session_reads_policy [OF this] assms(2,3) revokes_denies [OF assms(1)] show False by auto
qed

text \<open>The user of the sample policy run is then refused by a daemon that sees the same file.\<close>

theorem revoked_target_never_authenticates_witness:
  "\<exists>w'. revokes 7 Sddm policy_tool_world w' \<and> dispatch_request_until_with_client (Suc 2) (sample_session\<lparr>de_fs := (\<lambda>_. w')\<rparr>)
      (PamAuth 7 AUTH_TARGET_SDDM 2000 [97]) 7 (config_from_env Map.empty) 1000000000 False fresh_state
    \<noteq> Some (encode_daemon_response STATUS_SUCCESS [], fresh_state)"
proof -
  obtain w' where w: "policy_main sample_policy_env off_request (Some ''7'') policy_tool_world = (ExitSuccess ''result=ok mode=off'', w')"
    using policy_tool_switches_off by blast
  have "honest policy_tool_world" "nodes policy_tool_world PC \<noteq> None" by (simp_all add: honest_def policy_tool_nodes)
  then have r: "revokes 7 Sddm policy_tool_world w'"
    by (rule by_policy_tool [OF sample_helper_confined w _ _ off_request_parsed(1)])
  moreover have "authentication_target AUTH_TARGET_SDDM = Some Sddm" by (simp add: authentication_target_def wire_defs)
  moreover have "pol (de_fs (sample_session\<lparr>de_fs := (\<lambda>_. w')\<rparr>) 0) = pol w'" by simp
  ultimately show ?thesis using revoked_target_never_authenticates [OF r] by blast
qed


section \<open>From enrollment to authentication\<close>

lemma open_system_profile:
  assumes "fst (open_profile nv (system_with_root base uid) key w) = Inr p"
  shows "\<exists>i. nodes w (join (join base (u32_to_string uid)) VAULT_FILE) = Some i \<and> decode_vault nv (i_data i) key uid = Inr p"
proof -
  let ?d = "join base (u32_to_string uid)"
  obtain w1 bs w2 where r: "validate_directory ?d uid System w = (Inr (), w1)"
    "read_secure_file (join ?d VAULT_FILE) uid System w1 = (Inr bs, w2)" "decode_vault nv bs key uid = Inr p"
    using assms prod.collapse [of "open_profile nv (system_with_root base uid) key w"]
    by (auto simp: open_profile_def open_profile_snapshot_def system_with_root_def wbind_def wlift_def wreturn_def
        split: sum.splits prod.splits)
  have "nodes w1 = nodes w" using keeps_all_nodes [OF keeps_readers(1), of ?d uid System w] r(1) by simp
  with read_secure_file_Inr(2) [OF r(2)] r(3) show ?thesis by auto
qed

text \<open>
  A successful attempt after a successful synchronization has matched the profile the user enrolled: the worker runs with the
  system directory of the tool and the system key it installed, and finds the vault file as the tool left it; then the
  embedding of the captured frame matches the profile that the user's own vault held under the user's own key.
\<close>

theorem synchronized_profile_is_matched:
  assumes "setup_confined env" "seal_confined env" "aead_exact (ve_native (se_vault env))"
    "ve_nonce (se_vault env) = Inr nonce" "length nonce = NONCE_BYTES"
    "\<And>home key v. read_user_session_input uid input w = (Inr (home, key), v) \<Longrightarrow>
       user_vault_file home \<notin> below PR \<and> user_vault_file home \<notin> below PK"
    "sync_profile env input uid change production_paths w = (code, w')" "code \<noteq> ExitFailure"
  shows "\<exists>home user_key system_key p i. fst (read_user_session_input uid input w) = Inr (home, user_key)
    \<and> nodes w (user_vault_file home) = Some i \<and> decode_vault (ve_native (se_vault env)) (i_data i) user_key uid = Inr p
    \<and> (\<forall>attempt cfg target timeout_ms deadline looking asked.
         ae_native attempt = ve_native (se_vault env) \<and> cfg_vault_root cfg = Some PR
       \<and> load_master_key_for_uid (ae_keys attempt) uid (cfg_keys_dir cfg) = Inr system_key
       \<and> nodes (ae_fs attempt 4) (join (final_of uid) VAULT_FILE) = nodes w' (join (final_of uid) VAULT_FILE)
       \<and> handle_pam_request attempt uid target timeout_ms deadline cfg looking = Some (STATUS_SUCCESS, asked)
       \<longrightarrow> (\<exists>prov img control e k. extract_embedding (ae_vision attempt) prov img control 0 ExperimentalAuth = Some (Inr (e, k))
             \<and> provider_pinned (ae_native attempt) prov \<and> verify p e = Match))"
proof -
  let ?nv = "ve_native (se_vault env)" and ?f = "join (final_of uid) VAULT_FILE"
  obtain home user_key system_key p i j where s: "fst (read_user_session_input uid input w) = Inr (home, user_key)"
    "nodes w (user_vault_file home) = Some i" "decode_vault ?nv (i_data i) user_key uid = Inr p"
    "nodes w' ?f = Some j" "decode_vault ?nv (i_data j) system_key uid = Inr p"
    using sync_profile_installs_source [OF assms(1-5) _ assms(7,8)] assms(6) by blast
  have "\<exists>prov img control e k. extract_embedding (ae_vision attempt) prov img control 0 ExperimentalAuth = Some (Inr (e, k))
      \<and> provider_pinned (ae_native attempt) prov \<and> verify p e = Match"
    if a: "ae_native attempt = ?nv" "cfg_vault_root cfg = Some PR"
      "load_master_key_for_uid (ae_keys attempt) uid (cfg_keys_dir cfg) = Inr system_key" "nodes (ae_fs attempt 4) ?f = nodes w' ?f"
      "handle_pam_request attempt uid target timeout_ms deadline cfg looking = Some (STATUS_SUCCESS, asked)"
    for attempt cfg target timeout_ms deadline looking asked
  proof -
    have v: "open_vault_for_uid attempt uid cfg = system_with_root PR uid" using a(2) by (simp add: open_vault_for_uid_def)
    obtain frame limit where "frame_accepted attempt 5 3 (system_with_root PR uid) system_key frame limit (cfg_model_root cfg)"
      using handle_pam_success [THEN iffD1, OF a(5)] a(3) v by auto
    then obtain prov img ms e k q where e: "provider_pinned (ae_native attempt) prov"
      "extract_embedding (ae_vision attempt) prov img (attempt_control attempt (ae_now attempt (5 + 2)) ms) 0 ExperimentalAuth
        = Some (Inr (e, k))"
      "fst (open_profile (ae_native attempt) (system_with_root PR uid) system_key (ae_fs attempt (3 + 1))) = Inr q" "verify q e = Match"
      unfolding frame_accepted_def by blast
    have "\<exists>i. nodes (ae_fs attempt 4) ?f = Some i \<and> decode_vault ?nv (i_data i) system_key uid = Inr q"
      using open_system_profile [OF e(3)] a(1) by (simp add: profile_dir_def)
    with s(4,5) a(4) have "q = p" by auto
    with e show ?thesis by blast
  qed
  with s(1-3) show ?thesis by blast
qed

end
